(* ===== verification/Go_Map.thy ===== *)
theory Go_Map
  imports Go_Prelude "HOL-Library.AList"
begin

text \<open>
  Go's built-in maps and \<open>sync.Map\<close>. A map is an association list with distinct keys, whose list
  order stands for the (unspecified) order in which \<open>range\<close> and \<open>Range\<close> visit
  it: every theorem quantifies over all such lists, hence over all iteration orders. The locale
  \<open>key_value_map\<close> is the interface the components use: its laws say what a lookup returns after
  a store or a deletion and how the visited entries relate to lookups; its lemmas about loops that
  store or delete one entry per list element carry the proofs of the components. It is
  interpreted on the association lists as \<open>gmap\<close>.
\<close>

section \<open>The operations\<close>

type_synonym ('k, 'v) go_map = "('k \<times> 'v) list"

definition go_load :: "('k, 'v) go_map \<Rightarrow> 'k \<Rightarrow> 'v option" where
  "go_load m k = map_of m k"

definition go_store :: "'k \<Rightarrow> 'v \<Rightarrow> ('k, 'v) go_map \<Rightarrow> ('k, 'v) go_map" where
  "go_store k v m = AList.update k v m"

definition go_delete :: "'k \<Rightarrow> ('k, 'v) go_map \<Rightarrow> ('k, 'v) go_map" where
  "go_delete k m = AList.delete k m"

definition go_range :: "('k, 'v) go_map \<Rightarrow> ('k \<times> 'v) list" where
  "go_range m = m"

definition go_wf :: "('k, 'v) go_map \<Rightarrow> bool" where
  "go_wf m \<longleftrightarrow> distinct (map fst m)"

text \<open>\<open>m[k]\<close> with the element type's zero value for an absent key.\<close>

definition go_get :: "'v \<Rightarrow> ('k, 'v) go_map \<Rightarrow> 'k \<Rightarrow> 'v" where
  "go_get z m k = (case go_load m k of None \<Rightarrow> z | Some v \<Rightarrow> v)"

text \<open>\<open>sync.Map.LoadOrStore\<close>: the value now in the map, whether it was there before, the map.\<close>

definition go_load_or_store :: "'k \<Rightarrow> 'v \<Rightarrow> ('k, 'v) go_map \<Rightarrow> 'v \<times> bool \<times> ('k, 'v) go_map" where
  "go_load_or_store k v m =
     (case go_load m k of Some w \<Rightarrow> (w, True, m) | None \<Rightarrow> (v, False, go_store k v m))"

section \<open>The interface of a key-value map\<close>

lemma map_of_rev_distinct:
  assumes "distinct (map fst xs)"
  shows "map_of (rev xs) = map_of xs"
proof -
  have "distinct (map fst (rev xs))" using assms by (simp add: rev_map [symmetric])
  then show ?thesis using assms by (metis map_of_inject_set set_rev)
qed

locale key_value_map =
  fixes lookup :: "'m \<Rightarrow> 'k \<Rightarrow> 'v option"
    and store :: "'k \<Rightarrow> 'v \<Rightarrow> 'm \<Rightarrow> 'm"
    and remove :: "'k \<Rightarrow> 'm \<Rightarrow> 'm"
    and entries :: "'m \<Rightarrow> ('k \<times> 'v) list"
    and invar :: "'m \<Rightarrow> bool"
  assumes lookup_store: "lookup (store k v m) = (lookup m)(k \<mapsto> v)"
    and lookup_remove: "lookup (remove k m) = (lookup m)(k := None)"
    and invar_store: "invar m \<Longrightarrow> invar (store k v m)"
    and invar_remove: "invar m \<Longrightarrow> invar (remove k m)"
    and entries_lookup: "invar m \<Longrightarrow> map_of (entries m) = lookup m"
    and entries_distinct: "invar m \<Longrightarrow> distinct (map fst (entries m))"
begin

lemma lookup_fold_store:
  "lookup (fold (\<lambda>x. store (kf x) (vf x)) xs m) = lookup m ++ map_of (rev (map (\<lambda>x. (kf x, vf x)) xs))"
proof (induction xs arbitrary: m)
  case Nil
  then show ?case by simp
next
  case (Cons x xs)
  show ?case by (rule ext) (simp add: Cons.IH lookup_store map_add_def split: option.splits)
qed

lemma lookup_fold_remove:
  "lookup (fold (\<lambda>x. remove (kf x)) xs m) = lookup m |` (- kf ` set xs)"
  by (induction xs arbitrary: m) (auto simp: lookup_remove restrict_map_def fun_eq_iff)

lemma invar_fold_store: "invar m \<Longrightarrow> invar (fold (\<lambda>x. store (kf x) (vf x)) xs m)"
  by (induction xs arbitrary: m) (auto intro: invar_store)

lemma invar_fold_remove: "invar m \<Longrightarrow> invar (fold (\<lambda>x. remove (kf x)) xs m)"
  by (induction xs arbitrary: m) (auto intro: invar_remove)

lemma in_entries_iff: "invar m \<Longrightarrow> (k, v) \<in> set (entries m) \<longleftrightarrow> lookup m k = Some v"
  by (metis entries_distinct entries_lookup map_of_eq_Some_iff)

text \<open>A loop that copies every entry of one map into another yields the source's entries on top.\<close>

lemma lookup_copy:
  assumes "invar src"
  shows "lookup (fold (\<lambda>e. store (fst e) (snd e)) (entries src) dst) = lookup dst ++ lookup src"
proof -
  have "map_of (rev (entries src)) = map_of (entries src)"
    using entries_distinct [OF assms] by (rule map_of_rev_distinct)
  then show ?thesis
    by (simp add: lookup_fold_store entries_lookup [OF assms])
qed

end

interpretation gmap: key_value_map go_load go_store go_delete go_range go_wf
proof unfold_locales
  show "go_load (go_store k v m) = (go_load m)(k \<mapsto> v)" for k v and m :: "('k, 'v) go_map"
    by (simp add: go_load_def go_store_def update_conv' fun_eq_iff)
  show "go_load (go_delete k m) = (go_load m)(k := None)" for k and m :: "('k, 'v) go_map"
    by (simp add: go_load_def go_delete_def delete_conv' fun_eq_iff)
  show "go_wf m \<Longrightarrow> go_wf (go_store k v m)" for k v and m :: "('k, 'v) go_map"
    by (simp add: go_wf_def go_store_def distinct_update)
  show "go_wf m \<Longrightarrow> go_wf (go_delete k m)" for k and m :: "('k, 'v) go_map"
    by (simp add: go_wf_def go_delete_def distinct_delete)
  show "go_wf m \<Longrightarrow> map_of (go_range m) = go_load m" for m :: "('k, 'v) go_map"
    by (simp add: go_load_def go_range_def fun_eq_iff)
  show "go_wf m \<Longrightarrow> distinct (map fst (go_range m))" for m :: "('k, 'v) go_map"
    by (simp add: go_wf_def go_range_def)
qed

section \<open>Facts on the association lists themselves\<close>

lemma go_load_store [simp]: "go_load (go_store k v m) k' = (if k' = k then Some v else go_load m k')"
  by (simp add: gmap.lookup_store)

lemma go_load_delete [simp]: "go_load (go_delete k m) k' = (if k' = k then None else go_load m k')"
  by (simp add: gmap.lookup_remove)

lemma go_load_Nil [simp]: "go_load [] k = None"
  by (simp add: go_load_def)

lemma go_load_Cons [simp]: "go_load ((k, v) # m) k' = (if k' = k then Some v else go_load m k')"
  by (simp add: go_load_def)

lemma go_wf_Nil [simp]: "go_wf []"
  by (simp add: go_wf_def)

lemma go_wf_Cons [simp]: "go_wf ((k, v) # m) \<longleftrightarrow> go_load m k = None \<and> go_wf m"
  by (auto simp: go_wf_def go_load_def map_of_eq_None_iff)

lemma go_wf_store [simp, intro]: "go_wf m \<Longrightarrow> go_wf (go_store k v m)"
  by (rule gmap.invar_store)

lemma go_wf_delete [simp, intro]: "go_wf m \<Longrightarrow> go_wf (go_delete k m)"
  by (rule gmap.invar_remove)

lemma in_range_iff: "go_wf m \<Longrightarrow> (k, v) \<in> set (go_range m) \<longleftrightarrow> go_load m k = Some v"
  by (rule gmap.in_entries_iff)

lemma go_range_empty_iff: "go_range m = [] \<longleftrightarrow> m = []"
  by (simp add: go_range_def)

lemma go_load_Some_in: "go_load m k = Some v \<Longrightarrow> (k, v) \<in> set m"
  by (simp add: go_load_def map_of_SomeD)

lemma go_load_None_iff: "go_load m k = None \<longleftrightarrow> k \<notin> fst ` set m"
  by (simp add: go_load_def map_of_eq_None_iff)

lemma go_load_all_None: "(\<forall>k. go_load m k = None) \<longleftrightarrow> m = []"
  by (cases m) (auto simp: go_load_def)

text \<open>Storing under a new key appends the entry; deleting a present key drops one entry.\<close>

lemma go_store_new: "go_load m k = None \<Longrightarrow> go_store k v m = m @ [(k, v)]"
  by (induction m) (auto simp: go_load_def go_store_def split: if_splits)

lemma go_delete_absent [simp]: "go_load m k = None \<Longrightarrow> go_delete k m = m"
  by (simp add: go_load_None_iff go_delete_def)

lemma go_delete_NilD: "go_delete k m = [] \<Longrightarrow> go_load m k' = Some v \<Longrightarrow> k' = k"
  by (metis go_load_Nil go_load_delete option.distinct(1))

lemma go_delete_filter: "go_delete k m = filter (\<lambda>e. fst e \<noteq> k) m"
  by (induction m) (auto simp: go_delete_def)

lemma go_delete_store_new:
  "go_load m k = None \<Longrightarrow> go_delete k (go_store k v m) = m"
proof -
  assume a: "go_load m k = None"
  then have "filter (\<lambda>e. fst e \<noteq> k) m = m"
    by (force simp: go_load_None_iff filter_id_conv)
  with a show ?thesis by (simp add: go_store_new go_delete_filter)
qed

lemma length_filter_delete:
  assumes "go_wf m" and "go_load m k = Some v"
  shows "length (filter P (go_delete k m)) + (if P (k, v) then 1 else 0) = length (filter P m)"
  using assms
proof (induction m)
  case Nil
  then show ?case by simp
next
  case (Cons e m)
  obtain a b where e: "e = (a, b)" by (cases e)
  show ?case
  proof (cases "a = k")
    case True
    with Cons.prems e have "b = v" and "go_load m k = None" by auto
    then have "filter (\<lambda>e. fst e \<noteq> k) m = m"
      by (force simp: go_load_None_iff filter_id_conv)
    with True e \<open>b = v\<close> show ?thesis by (simp add: go_delete_filter)
  next
    case False
    with Cons e show ?thesis by (auto simp: go_delete_filter)
  qed
qed

end
