(* ===== verification/Panel_Types.thy ===== *)
theory Panel_Types
  imports Complex_Main Go_Map
begin

text \<open>
  The data the panel exchanges with the node (\<open>api/v2board/user.go\<close>, \<open>api/v2board/node.go\<close>)
  and the part of the local configuration the components read (\<open>conf/conf.go\<close>). Go structs are
  records with the source's fields, prefixed by the struct; pointers that may be nil are options.
\<close>

section \<open>Users, traffic and alive lists\<close>

record OnlineUser =
  ou_UID :: int
  ou_IP :: string
  ou_TagUUID :: string

record UserInfo =
  ui_Id :: int
  ui_Uuid :: string
  ui_SpeedLimit :: int
  ui_DeviceLimit :: int

record UserDeltaBody =
  ud_Full :: bool
  ud_Revision :: int
  ud_Users :: "UserInfo list"
  ud_Deleted :: "UserInfo list"
  ud_Upsert :: "UserInfo list"

record AliveMap =
  am_Alive :: "(int, int) go_map"
  am_AliveIPs :: "(int, string list) go_map"
  am_Mode :: int

record UserTraffic =
  ut_UID :: int
  ut_Upload :: int
  ut_Download :: int

definition cloneAliveMap :: "(int, int) go_map \<Rightarrow> (int, int) go_map" where
  "cloneAliveMap src =
     (if src = [] then [] else fold (\<lambda>e. go_store (fst e) (snd e)) (go_range src) [])"

definition cloneAliveSnapshot :: "AliveMap option \<Rightarrow> AliveMap" where
  "cloneAliveSnapshot src =
     (case src of
        None \<Rightarrow> \<lparr>am_Alive = [], am_AliveIPs = [], am_Mode = 0\<rparr>
      | Some s \<Rightarrow>
          \<lparr>am_Alive = cloneAliveMap (am_Alive s),
           am_AliveIPs = fold (\<lambda>e. go_store (fst e) (snd e)) (go_range (am_AliveIPs s)) [],
           am_Mode = am_Mode s\<rparr>)"

definition isUserDeltaUnsupportedStatus :: "int \<Rightarrow> bool" where
  "isUserDeltaUnsupportedStatus statusCode \<longleftrightarrow> statusCode \<in> {403, 404, 405, 501}"

section \<open>Node descriptions\<close>

text \<open>
  A JSON value of Go type \<open>any\<close>, as the decoder delivers it; the interval fields of the panel
  configuration have this type. A \<open>float64\<close> is a rational number; objects do not occur where the code looks at the value.
\<close>

datatype json_any = JNull | JInt int | JString string | JFloat rat | JBool bool | JArray "json_any list"

record Route =
  rt_Id :: int
  rt_Match :: "string list"
  rt_Action :: string
  rt_ActionValue :: "string option"

record RealtimeBaseConfig =
  rb_Enabled :: bool
  rb_URL :: string
  rb_PingInterval :: json_any

record BaseConfig =
  bc_PushInterval :: json_any
  bc_PullInterval :: json_any
  bc_DeviceOnlineMinTraffic :: int
  bc_NodeReportMinTraffic :: int
  bc_DeviceLimitFallback :: int
  bc_Realtime :: "RealtimeBaseConfig option"

record TlsSettings =
  ts_ServerName :: string
  ts_ALPN :: "string list"
  ts_Dest :: string
  ts_ServerPort :: string
  ts_ShortId :: string
  ts_PrivateKey :: string
  ts_Mldsa65Seed :: string
  ts_Xver :: "64 word"
  ts_CertMode :: string
  ts_CertFile :: string
  ts_KeyFile :: string
  ts_Provider :: string
  ts_DNSEnv :: string
  ts_RejectUnknownSni :: string

record CertInfo =
  ci_CertMode :: string
  ci_CertFile :: string
  ci_KeyFile :: string
  ci_Email :: string
  ci_CertDomain :: string
  ci_DNSEnv :: "(string, string) go_map"
  ci_Provider :: string
  ci_RejectUnknownSni :: bool

record EncSettings =
  es_Mode :: string
  es_Ticket :: string
  es_ServerPadding :: string
  es_PrivateKey :: string

record CommonNode =
  cm_Protocol :: string
  cm_ListenIP :: string
  cm_ServerPort :: int
  cm_Port :: string
  cm_Ports :: string
  cm_Routes :: "Route list"
  cm_BaseConfig :: "BaseConfig option"
  cm_Tls :: int
  cm_TlsSettings :: TlsSettings
  cm_CertInfo :: "CertInfo option"
  cm_Network :: string
  cm_NetworkSettings :: string
  cm_Encryption :: string
  cm_EncryptionSettings :: EncSettings
  cm_ServerName :: string
  cm_Flow :: string
  cm_Cipher :: string
  cm_ServerKey :: string
  cm_CongestionControl :: string
  cm_ZeroRTTHandshake :: bool
  cm_PaddingScheme :: "string list"
  cm_UpMbps :: int
  cm_DownMbps :: int
  cm_Obfs :: string
  cm_ObfsPassword :: string
  cm_Ignore_Client_Bandwidth :: bool
  cm_Transport :: string
  cm_Multiplexing :: string

record NodeInfo =
  ni_Id :: int
  ni_Type :: string
  ni_Security :: int
  ni_PushInterval :: int
  ni_PullInterval :: int
  ni_Tag :: string
  ni_Common :: "CommonNode option"

text \<open>The zero value of the struct types, as \<open>&CommonNode{}\<close> builds it.\<close>

definition zero_TlsSettings :: TlsSettings where
  "zero_TlsSettings =
     \<lparr>ts_ServerName = [], ts_ALPN = [], ts_Dest = [], ts_ServerPort = [], ts_ShortId = [],
      ts_PrivateKey = [], ts_Mldsa65Seed = [], ts_Xver = 0, ts_CertMode = [], ts_CertFile = [],
      ts_KeyFile = [], ts_Provider = [], ts_DNSEnv = [], ts_RejectUnknownSni = []\<rparr>"

definition zero_EncSettings :: EncSettings where
  "zero_EncSettings = \<lparr>es_Mode = [], es_Ticket = [], es_ServerPadding = [], es_PrivateKey = []\<rparr>"

definition zero_CommonNode :: CommonNode where
  "zero_CommonNode =
     \<lparr>cm_Protocol = [], cm_ListenIP = [], cm_ServerPort = 0, cm_Port = [], cm_Ports = [],
      cm_Routes = [], cm_BaseConfig = None, cm_Tls = 0, cm_TlsSettings = zero_TlsSettings,
      cm_CertInfo = None, cm_Network = [], cm_NetworkSettings = [], cm_Encryption = [],
      cm_EncryptionSettings = zero_EncSettings, cm_ServerName = [], cm_Flow = [],
      cm_Cipher = [], cm_ServerKey = [], cm_CongestionControl = [], cm_ZeroRTTHandshake = False,
      cm_PaddingScheme = [], cm_UpMbps = 0, cm_DownMbps = 0, cm_Obfs = [], cm_ObfsPassword = [],
      cm_Ignore_Client_Bandwidth = False, cm_Transport = [], cm_Multiplexing = []\<rparr>"

section \<open>Local configuration\<close>

record NodeConfig =
  nc_APIHost :: string
  nc_NodeID :: int
  nc_Key :: string
  nc_MachineID :: int
  nc_Timeout :: int
  nc_ConfigDir :: string

record RealtimeConfig =
  rc_Enabled :: bool
  rc_URL :: string
  rc_PingInterval :: int
  rc_ReconnectInterval :: int

section \<open>Lemmas\<close>

lemma go_load_copy:
  "go_wf src \<Longrightarrow> go_load (fold (\<lambda>e. go_store (fst e) (snd e)) (go_range src) []) = go_load src"
  using gmap.lookup_copy [of src "[]"] by (simp add: map_add_def fun_eq_iff split: option.splits)

lemma go_wf_copy [simp]: "go_wf (fold (\<lambda>e. go_store (fst e) (snd e)) xs [])"
  by (rule gmap.invar_fold_store) simp

lemma go_load_cloneAliveMap [simp]: "go_wf src \<Longrightarrow> go_load (cloneAliveMap src) = go_load src"
  by (simp add: cloneAliveMap_def go_load_copy)

end
