(* ===== verification/Device_Limiter.thy ===== *)
theory Device_Limiter
  imports Panel_Types
begin

text \<open>
  The per-node limiter (\<open>limiter/limiter.go\<close>, \<open>limiter/dynamic.go\<close>, \<open>common/format/user.go\<close>):
  the registry of limiters by node tag, the users' speed and device limits, the addresses that
  are online, and \<open>CheckLimit\<close>, which every connection passes. Each method is one atomic
  state transformer on the record \<open>Limiter\<close>; the clock is an argument, in nanoseconds. The token bucket of
  \<open>github.com/juju/ratelimit\<close> is the type parameter \<open>'b\<close>, its constructor an argument
  of \<open>CheckLimit\<close>.
\<close>

section \<open>Data\<close>

definition UserTag :: "string \<Rightarrow> string \<Rightarrow> string" where
  "UserTag tag uuid = tag @ ''|'' @ uuid"

record oldOnlineEntry =
  oe_UID :: int
  oe_ReportedAt :: int

text \<open>The dynamic type of a value stored in \<open>OldUserOnline\<close>, as the type switch tells them apart.\<close>

datatype old_online_value = OldEntry oldOnlineEntry | OldPtr "oldOnlineEntry option" | OldInt int | OldOther

record UserLimitInfo =
  ul_UID :: int
  ul_SpeedLimit :: int
  ul_DeviceLimit :: int
  ul_DynamicSpeedLimit :: int
  ul_ExpireTime :: int
  ul_OverLimit :: bool

type_synonym ip_map = "(string, int) go_map"

record 'b Limiter =
  lm_Tag :: string
  lm_Nodetype :: string
  lm_SpeedLimit :: int
  lm_UserOnlineIP :: "(string, ip_map) go_map"
  lm_OldUserOnline :: "(string, old_online_value) go_map"
  lm_UUIDtoUID :: "(string, int) go_map"
  lm_UserLimitInfo :: "(string, UserLimitInfo) go_map"
  lm_SpeedLimiter :: "(string, 'b) go_map"
  lm_aliveList :: "(int, int) go_map option"
  lm_aliveIPList :: "(int, (string, unit) go_map) go_map option"
  lm_aliveMode :: int
  lm_lastAlivePull :: int
  lm_defaultDeviceLimit :: int

datatype limiter_error = LimiterNotFound

definition reportedAliveBridgeTTL :: int where
  "reportedAliveBridgeTTL = 2 * 60 * 1000000000"

definition maxDefaultDeviceLimit :: int where
  "maxDefaultDeviceLimit = 2 ^ 31 - 1"

text \<open>\<open>determineSpeedLimit\<close>: the smaller of two rates, where zero means unlimited.\<close>

definition determineSpeedLimit :: "int \<Rightarrow> int \<Rightarrow> int" where
  "determineSpeedLimit limit1 limit2 =
     (if limit1 = 0 \<or> limit2 = 0 then
        (if limit1 > limit2 then limit1 else if limit1 < limit2 then limit2 else 0)
      else
        (if limit1 > limit2 then limit2 else if limit1 < limit2 then limit1 else limit1))"

section \<open>Alive lists and defaults\<close>

definition SetAliveList :: "(int, int) go_map option \<Rightarrow> 'b Limiter \<Rightarrow> 'b Limiter" where
  "SetAliveList alive l =
     (let src = (case alive of None \<Rightarrow> [] | Some a \<Rightarrow> a)
      in l\<lparr>lm_aliveList := Some (fold (\<lambda>e. go_store (fst e) (snd e)) (go_range src) [])\<rparr>)"

definition normalize_alive_ips :: "string list \<Rightarrow> (string, unit) go_map" where
  "normalize_alive_ips ips =
     fold (\<lambda>ip m. let trimmed = TrimPrefix (TrimSpace ip) ''::ffff:''
                   in if trimmed = [] then m else go_store trimmed () m) ips []"

definition alive_ip_sets :: "(int, string list) go_map \<Rightarrow> (int, (string, unit) go_map) go_map" where
  "alive_ip_sets aliveIPs =
     fold (\<lambda>e m. if fst e \<le> 0 then m
                  else let ipSet = normalize_alive_ips (snd e)
                       in if ipSet = [] then m else go_store (fst e) ipSet m)
          (go_range aliveIPs) []"

definition SetAliveSnapshot :: "clock \<Rightarrow> AliveMap option \<Rightarrow> 'b Limiter \<Rightarrow> 'b Limiter" where
  "SetAliveSnapshot now snapshot l =
     (case snapshot of
        None \<Rightarrow> (SetAliveList None l)\<lparr>lm_aliveIPList := Some [], lm_aliveMode := 0, lm_lastAlivePull := now\<rparr>
      | Some s \<Rightarrow>
          (SetAliveList (Some (am_Alive s)) l)
            \<lparr>lm_aliveIPList := Some (alive_ip_sets (am_AliveIPs s)),
             lm_aliveMode := wrap32 (am_Mode s), lm_lastAlivePull := now\<rparr>)"

definition SetDefaultDeviceLimit :: "int \<Rightarrow> 'b Limiter \<Rightarrow> 'b Limiter" where
  "SetDefaultDeviceLimit limit l =
     (let limit' = (if limit < 0 then 0 else if limit > maxDefaultDeviceLimit then maxDefaultDeviceLimit else limit)
      in l\<lparr>lm_defaultDeviceLimit := wrap32 limit'\<rparr>)"

definition getDefaultDeviceLimit :: "'b Limiter \<Rightarrow> int" where
  "getDefaultDeviceLimit l = lm_defaultDeviceLimit l"

definition getAliveIP :: "'b Limiter \<Rightarrow> int \<Rightarrow> int" where
  "getAliveIP l uid = (case lm_aliveList l of None \<Rightarrow> 0 | Some m \<Rightarrow> go_get 0 m uid)"

definition hasGlobalAliveIP :: "'b Limiter \<Rightarrow> int \<Rightarrow> string \<Rightarrow> bool" where
  "hasGlobalAliveIP l uid ip =
     (if lm_aliveMode l \<noteq> 1 then False
      else case lm_aliveIPList l of
             None \<Rightarrow> False
           | Some ipSets \<Rightarrow>
               (case go_load ipSets uid of None \<Rightarrow> False | Some userIPs \<Rightarrow> go_load userIPs ip \<noteq> None))"

definition deleteAliveIDs :: "int list \<Rightarrow> 'b Limiter \<Rightarrow> 'b Limiter" where
  "deleteAliveIDs ids l =
     (if ids = [] then l
      else case lm_aliveList l of
             None \<Rightarrow> l
           | Some cur \<Rightarrow>
               if cur = [] then l
               else l\<lparr>lm_aliveList :=
                        Some (fold go_delete ids
                               (fold (\<lambda>e. go_store (fst e) (snd e)) (go_range cur) []))\<rparr>)"

section \<open>Construction, registry and user updates\<close>

definition new_user_limit :: "UserInfo \<Rightarrow> UserLimitInfo" where
  "new_user_limit u =
     \<lparr>ul_UID = ui_Id u,
      ul_SpeedLimit = (if ui_SpeedLimit u \<noteq> 0 then ui_SpeedLimit u else 0),
      ul_DeviceLimit = (if ui_DeviceLimit u \<noteq> 0 then ui_DeviceLimit u else 0),
      ul_DynamicSpeedLimit = 0, ul_ExpireTime = 0, ul_OverLimit = False\<rparr>"

definition empty_limiter :: "string \<Rightarrow> string \<Rightarrow> 'b Limiter" where
  "empty_limiter nodetype tag =
     \<lparr>lm_Tag = tag, lm_Nodetype = nodetype, lm_SpeedLimit = 0, lm_UserOnlineIP = [],
      lm_OldUserOnline = [], lm_UUIDtoUID = [], lm_UserLimitInfo = [], lm_SpeedLimiter = [],
      lm_aliveList = None, lm_aliveIPList = None, lm_aliveMode = 0, lm_lastAlivePull = 0,
      lm_defaultDeviceLimit = 0\<rparr>"

definition new_limiter ::
  "string \<Rightarrow> string \<Rightarrow> UserInfo list \<Rightarrow> (int, int) go_map option \<Rightarrow> 'b Limiter" where
  "new_limiter nodetype tag users aliveList =
     (SetAliveList aliveList (empty_limiter nodetype tag))
       \<lparr>lm_UserLimitInfo := fold (\<lambda>u. go_store (UserTag tag (ui_Uuid u)) (new_user_limit u)) users [],
        lm_UUIDtoUID := fold (\<lambda>u. go_store (ui_Uuid u) (ui_Id u)) users []\<rparr>"

type_synonym 'b registry = "(string, 'b Limiter) go_map"

definition AddLimiter ::
  "string \<Rightarrow> string \<Rightarrow> UserInfo list \<Rightarrow> (int, int) go_map option \<Rightarrow> 'b registry \<Rightarrow> 'b Limiter \<times> 'b registry" where
  "AddLimiter nodetype tag users aliveList reg =
     (let info = new_limiter nodetype tag users aliveList in (info, go_store tag info reg))"

definition GetLimiter :: "'b registry \<Rightarrow> string \<Rightarrow> limiter_error + 'b Limiter" where
  "GetLimiter reg tag = (case go_load reg tag of None \<Rightarrow> Inl LimiterNotFound | Some l \<Rightarrow> Inr l)"

definition DeleteLimiter :: "string \<Rightarrow> 'b registry \<Rightarrow> 'b registry" where
  "DeleteLimiter tag reg = go_delete tag reg"

definition forget_user :: "string \<Rightarrow> UserInfo \<Rightarrow> 'b Limiter \<Rightarrow> 'b Limiter" where
  "forget_user tag u l =
     l\<lparr>lm_UserLimitInfo := go_delete (UserTag tag (ui_Uuid u)) (lm_UserLimitInfo l),
       lm_UserOnlineIP := go_delete (UserTag tag (ui_Uuid u)) (lm_UserOnlineIP l),
       lm_SpeedLimiter := go_delete (UserTag tag (ui_Uuid u)) (lm_SpeedLimiter l),
       lm_UUIDtoUID := go_delete (ui_Uuid u) (lm_UUIDtoUID l)\<rparr>"

definition register_user :: "string \<Rightarrow> UserInfo \<Rightarrow> 'b Limiter \<Rightarrow> 'b Limiter" where
  "register_user tag u l =
     l\<lparr>lm_UserLimitInfo := go_store (UserTag tag (ui_Uuid u)) (new_user_limit u) (lm_UserLimitInfo l),
       lm_UUIDtoUID := go_store (ui_Uuid u) (ui_Id u) (lm_UUIDtoUID l)\<rparr>"

definition UpdateUser :: "string \<Rightarrow> UserInfo list \<Rightarrow> UserInfo list \<Rightarrow> 'b Limiter \<Rightarrow> 'b Limiter" where
  "UpdateUser tag added deleted l =
     fold (register_user tag) added
       (deleteAliveIDs (map ui_Id deleted) (fold (forget_user tag) deleted l))"

definition update_user_info :: "string \<Rightarrow> UserInfo \<Rightarrow> 'b Limiter \<Rightarrow> 'b Limiter" where
  "update_user_info tag u l =
     (let key = UserTag tag (ui_Uuid u);
          info = (case go_load (lm_UserLimitInfo l) key of
                    Some v \<Rightarrow> v\<lparr>ul_UID := ui_Id u, ul_SpeedLimit := ui_SpeedLimit u,
                                 ul_DeviceLimit := ui_DeviceLimit u, ul_OverLimit := False\<rparr>
                  | None \<Rightarrow> \<lparr>ul_UID = ui_Id u, ul_SpeedLimit = ui_SpeedLimit u,
                             ul_DeviceLimit = ui_DeviceLimit u, ul_DynamicSpeedLimit = 0,
                             ul_ExpireTime = 0, ul_OverLimit = False\<rparr>)
      in l\<lparr>lm_UserLimitInfo := go_store key info (lm_UserLimitInfo l),
           lm_UUIDtoUID := go_store (ui_Uuid u) (ui_Id u) (lm_UUIDtoUID l),
           lm_SpeedLimiter := go_delete key (lm_SpeedLimiter l)\<rparr>)"

definition UpdateUserInfo :: "string \<Rightarrow> UserInfo list \<Rightarrow> 'b Limiter \<Rightarrow> 'b Limiter" where
  "UpdateUserInfo tag updated l = fold (update_user_info tag) updated l"

definition UpdateDynamicSpeedLimit ::
  "string \<Rightarrow> string \<Rightarrow> int \<Rightarrow> int \<Rightarrow> 'b Limiter \<Rightarrow> limiter_error + 'b Limiter" where
  "UpdateDynamicSpeedLimit tag uuid limit expire l =
     (let key = UserTag tag uuid
      in case go_load (lm_UserLimitInfo l) key of
           Some v \<Rightarrow> Inr (l\<lparr>lm_UserLimitInfo :=
                             go_store key (v\<lparr>ul_DynamicSpeedLimit := limit, ul_ExpireTime := expire\<rparr>)
                               (lm_UserLimitInfo l)\<rparr>)
         | None \<Rightarrow> Inl LimiterNotFound)"

section \<open>Which addresses count as devices\<close>

definition tracksUDPSource :: "'b Limiter \<Rightarrow> bool" where
  "tracksUDPSource l \<longleftrightarrow> lm_Nodetype l = ''hysteria2'' \<or> lm_Nodetype l = ''tuic''"

definition old_online_entry :: "old_online_value \<Rightarrow> oldOnlineEntry option" where
  "old_online_entry v =
     (case v of OldEntry e \<Rightarrow> Some e | OldPtr p \<Rightarrow> p
      | OldInt n \<Rightarrow> Some \<lparr>oe_UID = n, oe_ReportedAt = 0\<rparr> | OldOther \<Rightarrow> None)"

definition isFreshOldOnlineEntry :: "oldOnlineEntry \<Rightarrow> clock \<Rightarrow> bool" where
  "isFreshOldOnlineEntry entry now =
     (if oe_ReportedAt entry \<le> 0 then True else now - oe_ReportedAt entry \<le> reportedAliveBridgeTTL)"

definition ownsOldIP :: "clock \<Rightarrow> 'b Limiter \<Rightarrow> int \<Rightarrow> string \<Rightarrow> bool" where
  "ownsOldIP now l uid ip =
     (case go_load (lm_OldUserOnline l) ip of
        None \<Rightarrow> False
      | Some v \<Rightarrow>
          (case old_online_entry v of
             None \<Rightarrow> False
           | Some entry \<Rightarrow> if \<not> isFreshOldOnlineEntry entry now then False else oe_UID entry = uid))"

definition isKnownAliveIP :: "clock \<Rightarrow> 'b Limiter \<Rightarrow> int \<Rightarrow> string \<Rightarrow> bool" where
  "isKnownAliveIP now l uid ip \<longleftrightarrow> ownsOldIP now l uid ip \<or> hasGlobalAliveIP l uid ip"

definition is_pending :: "clock \<Rightarrow> 'b Limiter \<Rightarrow> int \<Rightarrow> string \<times> int \<Rightarrow> bool" where
  "is_pending now l uid e \<longleftrightarrow> snd e = uid \<and> \<not> isKnownAliveIP now l uid (fst e)"

definition pendingNewIPCount :: "clock \<Rightarrow> 'b Limiter \<Rightarrow> string \<Rightarrow> int \<Rightarrow> int" where
  "pendingNewIPCount now l taguuid uid =
     (case go_load (lm_UserOnlineIP l) taguuid of
        None \<Rightarrow> 0
      | Some ipMap \<Rightarrow> int (length (filter (is_pending now l uid) (go_range ipMap))))"

definition dropOnePendingUnknownIP ::
  "clock \<Rightarrow> 'b Limiter \<Rightarrow> string \<Rightarrow> ip_map \<Rightarrow> int \<Rightarrow> 'b Limiter \<times> ip_map \<times> bool" where
  "dropOnePendingUnknownIP now l taguuid ipMap uid =
     (case find (is_pending now l uid) (go_range ipMap) of
        None \<Rightarrow> (l, ipMap, False)
      | Some e \<Rightarrow>
          let ipMap' = go_delete (fst e) ipMap
          in (l\<lparr>lm_UserOnlineIP := go_store taguuid ipMap' (lm_UserOnlineIP l)\<rparr>, ipMap', True))"

definition counts_as_reported :: "clock \<Rightarrow> 'b Limiter \<Rightarrow> int \<Rightarrow> old_online_value \<Rightarrow> bool" where
  "counts_as_reported now l uid v =
     (case old_online_entry v of
        None \<Rightarrow> False
      | Some entry \<Rightarrow>
          oe_UID entry = uid \<and> isFreshOldOnlineEntry entry now \<and> \<not> oe_ReportedAt entry \<le> lm_lastAlivePull l)"

definition recentReportedLocalIPCount :: "clock \<Rightarrow> 'b Limiter \<Rightarrow> int \<Rightarrow> int" where
  "recentReportedLocalIPCount now l uid =
     int (length (filter (\<lambda>e. counts_as_reported now l uid (snd e)) (go_range (lm_OldUserOnline l))))"

definition getOrCreateUserOnlineIPMap :: "string \<Rightarrow> 'b Limiter \<Rightarrow> ip_map \<times> bool \<times> 'b Limiter" where
  "getOrCreateUserOnlineIPMap taguuid l =
     (case go_load (lm_UserOnlineIP l) taguuid of
        Some m \<Rightarrow> (m, False, l)
      | None \<Rightarrow>
          (case go_load_or_store taguuid [] (lm_UserOnlineIP l) of
             (m, loaded, online) \<Rightarrow> (m, \<not> loaded, l\<lparr>lm_UserOnlineIP := online\<rparr>)))"

section \<open>CheckLimit\<close>

text \<open>
  The three stages of \<open>CheckLimit\<close>. \<open>resolve_limits\<close> reads the user's limits and handles an
  expired dynamic limit (\<open>None\<close>: the user is unknown and the connection is rejected);
  \<open>admit_device\<close> decides on the source address (the flag is the rejection);
  \<open>attach_bucket\<close> finds or makes the token bucket.
\<close>

definition resolve_limits :: "clock \<Rightarrow> string \<Rightarrow> 'b Limiter \<Rightarrow> ('b Limiter \<times> int \<times> int \<times> int) option" where
  "resolve_limits now taguuid l =
     (case go_load (lm_UserLimitInfo l) taguuid of
        None \<Rightarrow> None
      | Some u \<Rightarrow>
          if ul_ExpireTime u < now div 1000000000 \<and> ul_ExpireTime u \<noteq> 0 then
            (if ul_SpeedLimit u \<noteq> 0 then
               Some (l\<lparr>lm_UserLimitInfo :=
                         go_store taguuid (u\<lparr>ul_DynamicSpeedLimit := 0, ul_ExpireTime := 0\<rparr>) (lm_UserLimitInfo l)\<rparr>,
                     ul_DeviceLimit u, ul_UID u, ul_SpeedLimit u)
             else
               Some (l\<lparr>lm_UserLimitInfo := go_delete taguuid (lm_UserLimitInfo l)\<rparr>,
                     ul_DeviceLimit u, ul_UID u, 0))
          else
            Some (l, ul_DeviceLimit u, ul_UID u,
                  determineSpeedLimit (ul_SpeedLimit u) (ul_DynamicSpeedLimit u)))"

definition enforce_device_limit ::
  "clock \<Rightarrow> string \<Rightarrow> int \<Rightarrow> int \<Rightarrow> bool \<Rightarrow> int \<Rightarrow> ip_map \<Rightarrow> bool \<Rightarrow> 'b Limiter \<Rightarrow> 'b Limiter \<times> ip_map \<times> bool" where
  "enforce_device_limit now taguuid deviceLimit uid udpSourceTracked knownDeviceCount ipMap created l =
     (let pendingNewIP = pendingNewIPCount now l taguuid uid;
          (l', ipMap', pending') =
            (if deviceLimit \<le> knownDeviceCount + pendingNewIP \<and> udpSourceTracked \<and> knownDeviceCount > 0 then
               (case dropOnePendingUnknownIP now l taguuid ipMap uid of
                  (l', m', dropped) \<Rightarrow>
                    (l', m', if dropped \<and> pendingNewIP > 0 then pendingNewIP - 1 else pendingNewIP))
             else (l, ipMap, pendingNewIP))
      in if deviceLimit \<le> knownDeviceCount + pending' \<and>
            \<not> (udpSourceTracked \<and> knownDeviceCount > 0 \<and> deviceLimit = knownDeviceCount + pending')
         then (if created then l'\<lparr>lm_UserOnlineIP := go_delete taguuid (lm_UserOnlineIP l')\<rparr> else l', ipMap', True)
         else (l', ipMap', False))"

definition admit_device ::
  "clock \<Rightarrow> string \<Rightarrow> string \<Rightarrow> bool \<Rightarrow> int \<Rightarrow> int \<Rightarrow> 'b Limiter \<Rightarrow> 'b Limiter \<times> bool" where
  "admit_device now taguuid ip noUDPsource deviceLimit uid l =
     (if \<not> (noUDPsource \<or> tracksUDPSource l) then (l, False)
      else
        let udpSourceTracked = (\<not> noUDPsource \<and> tracksUDPSource l);
            aliveIP = getAliveIP l uid;
            reportedLocalIP = recentReportedLocalIPCount now l uid;
            (ipMap, created, l1) = getOrCreateUserOnlineIPMap taguuid l
        in if go_load ipMap ip \<noteq> None then (l1, False)
           else
             case (if \<not> isKnownAliveIP now l1 uid ip \<and> deviceLimit > 0
                   then enforce_device_limit now taguuid deviceLimit uid udpSourceTracked
                          (aliveIP + reportedLocalIP) ipMap created l1
                   else (l1, ipMap, False)) of
               (l2, ipMap2, rejected) \<Rightarrow>
                 if rejected then (l2, True)
                 else (l2\<lparr>lm_UserOnlineIP := go_store taguuid (go_store ip uid ipMap2) (lm_UserOnlineIP l2)\<rparr>, False))"

definition attach_bucket ::
  "(int \<Rightarrow> int \<Rightarrow> int \<Rightarrow> 'b) \<Rightarrow> string \<Rightarrow> int \<Rightarrow> 'b Limiter \<Rightarrow> 'b Limiter \<times> 'b option" where
  "attach_bucket NewBucketWithQuantum taguuid userLimit l =
     (let limit = go_quot (wrap64 (determineSpeedLimit (lm_SpeedLimit l) userLimit * 1000000)) 8
      in if limit \<le> 0 then (l, None)
         else case go_load (lm_SpeedLimiter l) taguuid of
                Some b \<Rightarrow> (l, Some b)
              | None \<Rightarrow>
                  (case go_load_or_store taguuid (NewBucketWithQuantum 1000000000 limit limit) (lm_SpeedLimiter l) of
                     (b, loaded, m) \<Rightarrow> (l\<lparr>lm_SpeedLimiter := m\<rparr>, Some b)))"

definition effective_device_limit :: "int \<Rightarrow> 'b Limiter \<Rightarrow> int" where
  "effective_device_limit deviceLimit l = (if deviceLimit \<le> 0 then getDefaultDeviceLimit l else deviceLimit)"

definition CheckLimit ::
  "(int \<Rightarrow> int \<Rightarrow> int \<Rightarrow> 'b) \<Rightarrow> clock \<Rightarrow> string \<Rightarrow> string \<Rightarrow> bool \<Rightarrow> 'b Limiter \<Rightarrow> 'b Limiter \<times> 'b option \<times> bool" where
  "CheckLimit NewBucketWithQuantum now taguuid rawip noUDPsource l =
     (let ip = TrimPrefix rawip ''::ffff:''
      in case resolve_limits now taguuid l of
           None \<Rightarrow> (l, None, True)
         | Some (l1, deviceLimit, uid, userLimit) \<Rightarrow>
             (case admit_device now taguuid ip noUDPsource (effective_device_limit deviceLimit l1) uid l1 of
                (l2, rejected) \<Rightarrow>
                  if rejected then (l2, None, True)
                  else case attach_bucket NewBucketWithQuantum taguuid userLimit l2 of
                         (l3, bucket) \<Rightarrow> (l3, bucket, False)))"

section \<open>Reporting online devices\<close>

definition GetOnlineDevice :: "'b Limiter \<Rightarrow> OnlineUser list" where
  "GetOnlineDevice l =
     concat (map (\<lambda>(taguuid, ipMap). map (\<lambda>(ip, uid). \<lparr>ou_UID = uid, ou_IP = ip, ou_TagUUID = taguuid\<rparr>)
                                         (go_range ipMap))
                 (go_range (lm_UserOnlineIP l)))"

definition commit_online ::
  "clock \<Rightarrow> OnlineUser \<Rightarrow> (string, old_online_value) go_map \<times> (string, ip_map) go_map \<Rightarrow>
   (string, old_online_value) go_map \<times> (string, ip_map) go_map" where
  "commit_online reportedAt online st =
     (case st of (nextOld, userOnline) \<Rightarrow>
        if ou_UID online \<le> 0 \<or> ou_IP online = [] then (nextOld, userOnline)
        else
          let nextOld' = go_store (ou_IP online) (OldEntry \<lparr>oe_UID = ou_UID online, oe_ReportedAt = reportedAt\<rparr>) nextOld
          in if ou_TagUUID online = [] then (nextOld', userOnline)
             else case go_load userOnline (ou_TagUUID online) of
                    None \<Rightarrow> (nextOld', userOnline)
                  | Some ipMap \<Rightarrow>
                      let ipMap' = (if go_load ipMap (ou_IP online) = Some (ou_UID online)
                                    then go_delete (ou_IP online) ipMap else ipMap)
                      in (nextOld', if ipMap' = [] then go_delete (ou_TagUUID online) userOnline
                                    else go_store (ou_TagUUID online) ipMap' userOnline))"

definition CommitOnlineDeviceReport :: "clock \<Rightarrow> OnlineUser list \<Rightarrow> 'b Limiter \<Rightarrow> 'b Limiter" where
  "CommitOnlineDeviceReport now reported l =
     (case fold (commit_online now) reported ([], lm_UserOnlineIP l) of
        (nextOld, userOnline) \<Rightarrow> l\<lparr>lm_OldUserOnline := nextOld, lm_UserOnlineIP := userOnline\<rparr>)"

section \<open>Speed limits\<close>

text \<open>The abstract meaning of a rate: \<open>None\<close> is unlimited, and two rates combine to the smaller.\<close>

definition rate_of :: "int \<Rightarrow> int option" where
  "rate_of n = (if n = 0 then None else Some n)"

fun combine_rates :: "int option \<Rightarrow> int option \<Rightarrow> int option" where
  "combine_rates None r = r"
| "combine_rates r None = r"
| "combine_rates (Some a) (Some b) = Some (min a b)"

lemma determineSpeedLimit_rate:
  "0 \<le> a \<Longrightarrow> 0 \<le> b \<Longrightarrow> rate_of (determineSpeedLimit a b) = combine_rates (rate_of a) (rate_of b)"
  by (auto simp: determineSpeedLimit_def rate_of_def)

lemma determineSpeedLimit_nonneg: "0 \<le> a \<Longrightarrow> 0 \<le> b \<Longrightarrow> 0 \<le> determineSpeedLimit a b"
  by (simp add: determineSpeedLimit_def)

section \<open>What the admission decision depends on\<close>

text \<open>The devices of a user that count before the connection: reported alive elsewhere or recently here.\<close>

definition known_devices :: "clock \<Rightarrow> 'b Limiter \<Rightarrow> int \<Rightarrow> int" where
  "known_devices now l uid = getAliveIP l uid + recentReportedLocalIPCount now l uid"

definition device_total :: "clock \<Rightarrow> 'b Limiter \<Rightarrow> string \<Rightarrow> int \<Rightarrow> int" where
  "device_total now l taguuid uid = known_devices now l uid + pendingNewIPCount now l taguuid uid"

definition is_online :: "'b Limiter \<Rightarrow> string \<Rightarrow> string \<Rightarrow> bool" where
  "is_online l taguuid ip =
     (case go_load (lm_UserOnlineIP l) taguuid of None \<Rightarrow> False | Some m \<Rightarrow> go_load m ip \<noteq> None)"

text \<open>
  The specification of the device limit: a new address of a user at the limit is refused; on the
  protocols that track UDP sources one unknown address may roam over the limit.
\<close>

definition device_rejected :: "clock \<Rightarrow> 'b Limiter \<Rightarrow> string \<Rightarrow> string \<Rightarrow> bool \<Rightarrow> int \<Rightarrow> int \<Rightarrow> bool" where
  "device_rejected now l taguuid ip noUDPsource dl uid \<longleftrightarrow>
     (noUDPsource \<or> tracksUDPSource l) \<and> 0 < dl \<and> \<not> is_online l taguuid ip \<and> \<not> isKnownAliveIP now l uid ip \<and>
     (if \<not> noUDPsource \<and> 0 < known_devices now l uid
      then dl < known_devices now l uid + max 0 (pendingNewIPCount now l taguuid uid - 1)
      else dl \<le> device_total now l taguuid uid)"

lemma known_update_online [simp]:
  "isKnownAliveIP now (l\<lparr>lm_UserOnlineIP := m\<rparr>) = isKnownAliveIP now l"
  by (simp add: fun_eq_iff isKnownAliveIP_def ownsOldIP_def hasGlobalAliveIP_def)

lemma known_update_limits [simp]:
  "isKnownAliveIP now (l\<lparr>lm_UserLimitInfo := m\<rparr>) = isKnownAliveIP now l"
  by (simp add: fun_eq_iff isKnownAliveIP_def ownsOldIP_def hasGlobalAliveIP_def)

lemma known_update_buckets [simp]:
  "isKnownAliveIP now (l\<lparr>lm_SpeedLimiter := m\<rparr>) = isKnownAliveIP now l"
  by (simp add: fun_eq_iff isKnownAliveIP_def ownsOldIP_def hasGlobalAliveIP_def)

lemma pending_update [simp]:
  "is_pending now (l\<lparr>lm_UserOnlineIP := m\<rparr>) = is_pending now l"
  "is_pending now (l\<lparr>lm_UserLimitInfo := m'\<rparr>) = is_pending now l"
  "is_pending now (l\<lparr>lm_SpeedLimiter := m''\<rparr>) = is_pending now l"
  by (simp_all add: fun_eq_iff is_pending_def)

lemma counts_as_reported_update [simp]:
  "counts_as_reported now (l\<lparr>lm_UserOnlineIP := m\<rparr>) = counts_as_reported now l"
  "counts_as_reported now (l\<lparr>lm_UserLimitInfo := m'\<rparr>) = counts_as_reported now l"
  "counts_as_reported now (l\<lparr>lm_SpeedLimiter := m''\<rparr>) = counts_as_reported now l"
  by (simp_all add: fun_eq_iff counts_as_reported_def split: option.splits)

lemma known_devices_update [simp]:
  "known_devices now (l\<lparr>lm_UserOnlineIP := m\<rparr>) = known_devices now l"
  "known_devices now (l\<lparr>lm_UserLimitInfo := m'\<rparr>) = known_devices now l"
  "known_devices now (l\<lparr>lm_SpeedLimiter := m''\<rparr>) = known_devices now l"
  by (simp_all add: fun_eq_iff known_devices_def getAliveIP_def recentReportedLocalIPCount_def)

lemma pendingNewIPCount_nonneg [simp]: "0 \<le> pendingNewIPCount now l t uid"
  by (simp add: pendingNewIPCount_def split: option.splits)

lemma pendingNewIPCount_load:
  "go_load (lm_UserOnlineIP l) t = Some m \<Longrightarrow>
   pendingNewIPCount now l t uid = int (length (filter (is_pending now l uid) m))"
  by (simp add: pendingNewIPCount_def go_range_def)

lemma find_pending_None_iff:
  "find (is_pending now l uid) m = None \<longleftrightarrow> length (filter (is_pending now l uid) m) = 0"
  by (auto simp: find_None_iff filter_empty_conv)

lemma filter_store_new:
  "go_load m k = None \<Longrightarrow>
   length (filter P (go_store k v m)) = length (filter P m) + (if P (k, v) then 1 else 0)"
  by (simp add: go_store_new)

text \<open>
  The shape of \<open>admit_device\<close> once the map of the user's addresses is known: \<open>m\<close> is that map,
  empty if the user had none.
\<close>

definition online_map :: "'b Limiter \<Rightarrow> string \<Rightarrow> ip_map" where
  "online_map l taguuid = (case go_load (lm_UserOnlineIP l) taguuid of None \<Rightarrow> [] | Some m \<Rightarrow> m)"

definition put_online :: "string \<Rightarrow> ip_map \<Rightarrow> 'b Limiter \<Rightarrow> 'b Limiter" where
  "put_online taguuid m l = l\<lparr>lm_UserOnlineIP := go_store taguuid m (lm_UserOnlineIP l)\<rparr>"

lemma is_online_map: "is_online l t ip \<longleftrightarrow> go_load (online_map l t) ip \<noteq> None"
  by (simp add: is_online_def online_map_def split: option.splits)

lemma pending_online_map:
  "pendingNewIPCount now l t uid = int (length (filter (is_pending now l uid) (online_map l t)))"
  by (simp add: pendingNewIPCount_def online_map_def go_range_def split: option.splits)

lemma online_map_put [simp]: "online_map (put_online t m l) t = m"
  by (simp add: online_map_def put_online_def)

lemma put_online_frame [simp]:
  "isKnownAliveIP now (put_online t m l) = isKnownAliveIP now l"
  "is_pending now (put_online t m l) = is_pending now l"
  "known_devices now (put_online t m l) = known_devices now l"
  "lm_UserLimitInfo (put_online t m l) = lm_UserLimitInfo l"
  "lm_SpeedLimiter (put_online t m l) = lm_SpeedLimiter l"
  by (simp_all add: put_online_def)

section \<open>The admission decision meets its specification\<close>

text \<open>What one call may evict on a protocol that tracks UDP sources, and whether it evicts.\<close>

definition may_evict :: "clock \<Rightarrow> 'b Limiter \<Rightarrow> string \<Rightarrow> bool \<Rightarrow> int \<Rightarrow> int \<Rightarrow> bool" where
  "may_evict now l taguuid noUDPsource dl uid \<longleftrightarrow>
     dl \<le> device_total now l taguuid uid \<and> \<not> noUDPsource \<and> tracksUDPSource l \<and> 0 < known_devices now l uid"

definition evicted_map :: "clock \<Rightarrow> 'b Limiter \<Rightarrow> string \<Rightarrow> int \<Rightarrow> ip_map" where
  "evicted_map now l taguuid uid =
     (case find (is_pending now l uid) (online_map l taguuid) of
        None \<Rightarrow> online_map l taguuid
      | Some e \<Rightarrow> go_delete (fst e) (online_map l taguuid))"

lemma getOrCreate_online_map:
  "getOrCreateUserOnlineIPMap t l =
     (online_map l t, go_load (lm_UserOnlineIP l) t = None,
      if go_load (lm_UserOnlineIP l) t = None then put_online t [] l else l)"
  by (simp add: getOrCreateUserOnlineIPMap_def online_map_def put_online_def go_load_or_store_def
      split: option.splits)

lemma online_map_absent: "go_load (lm_UserOnlineIP l) t = None \<Longrightarrow> online_map l t = []"
  by (simp add: online_map_def)

lemma pendingNewIPCount_put_Nil:
  "go_load (lm_UserOnlineIP l) t = None \<Longrightarrow>
   pendingNewIPCount now (put_online t [] l) t uid = pendingNewIPCount now l t uid"
  by (simp add: pending_online_map online_map_absent)

lemma put_online_twice [simp]: "put_online t m (put_online t m' l) = put_online t m l"
  by (simp add: put_online_def go_store_def)

lemma dropOnePending_evicted:
  "go_load (lm_UserOnlineIP l) t = None \<or> go_load (lm_UserOnlineIP l) t = Some (online_map l t) \<Longrightarrow>
   dropOnePendingUnknownIP now l t (online_map l t) uid =
     (if find (is_pending now l uid) (online_map l t) = None then (l, online_map l t, False)
      else (put_online t (evicted_map now l t uid) l, evicted_map now l t uid, True))"
  by (auto simp: dropOnePendingUnknownIP_def evicted_map_def put_online_def go_range_def Let_def
      split: option.splits)

lemma admit_device_untracked:
  "\<not> (noUDP \<or> tracksUDPSource l) \<Longrightarrow> admit_device now t ip noUDP dl uid l = (l, False)"
  by (simp add: admit_device_def)

lemma created_undo:
  "go_load (lm_UserOnlineIP l) t = None \<Longrightarrow>
   (put_online t [] l)\<lparr>lm_UserOnlineIP := go_delete t (lm_UserOnlineIP (put_online t [] l))\<rparr> = l"
  by (simp add: put_online_def go_delete_store_new)

lemma no_pending_iff:
  "find (is_pending now l uid) (online_map l t) = None \<longleftrightarrow> pendingNewIPCount now l t uid = 0"
  by (simp add: find_pending_None_iff pending_online_map)

lemma evicted_map_no_pending:
  "pendingNewIPCount now l t uid = 0 \<Longrightarrow> evicted_map now l t uid = online_map l t"
  using no_pending_iff [of now l uid t] by (simp add: evicted_map_def)

text \<open>The limiter with the user's (possibly new, empty) address map in place.\<close>

definition with_map :: "string \<Rightarrow> 'b Limiter \<Rightarrow> 'b Limiter" where
  "with_map t l = (if go_load (lm_UserOnlineIP l) t = None then put_online t [] l else l)"

lemma with_map_simps [simp]:
  "isKnownAliveIP now (with_map t l) = isKnownAliveIP now l"
  "pendingNewIPCount now (with_map t l) t uid = pendingNewIPCount now l t uid"
  "online_map (with_map t l) t = online_map l t"
  "is_pending now (with_map t l) = is_pending now l"
  "put_online t m (with_map t l) = put_online t m l"
  "evicted_map now (with_map t l) t uid = evicted_map now l t uid"
  by (simp_all add: with_map_def pendingNewIPCount_put_Nil online_map_absent evicted_map_def)

lemma with_map_reject [simp]:
  "(if go_load (lm_UserOnlineIP l) t = None
    then (with_map t l)\<lparr>lm_UserOnlineIP := go_delete t (lm_UserOnlineIP (with_map t l))\<rparr> else with_map t l) = l"
  by (simp add: with_map_def created_undo)

lemma drop_with_map:
  "dropOnePendingUnknownIP now (with_map t l) t (online_map l t) uid =
     (if pendingNewIPCount now l t uid = 0 then (with_map t l, online_map l t, False)
      else (put_online t (evicted_map now l t uid) l, evicted_map now l t uid, True))"
proof -
  have "go_load (lm_UserOnlineIP (with_map t l)) t = Some (online_map (with_map t l) t)"
    by (auto simp: with_map_def online_map_def put_online_def split: option.splits)
  from dropOnePending_evicted [OF disjI2 [OF this], of now uid] show ?thesis
    by (simp add: no_pending_iff)
qed

lemma enforce_device_limit_eq:
  "enforce_device_limit now t dl uid tr K (online_map l t) (go_load (lm_UserOnlineIP l) t = None) (with_map t l) =
     (let P = pendingNewIPCount now l t uid;
          ev = (dl \<le> K + P \<and> tr \<and> 0 < K);
          M = (if ev then evicted_map now l t uid else online_map l t);
          rej = (if tr \<and> 0 < K then dl < K + max 0 (P - 1) else dl \<le> K + P)
      in (if ev \<and> 0 < P then put_online t M l else if rej then l else with_map t l, M, rej))"
proof (cases "dl \<le> K + pendingNewIPCount now l t uid \<and> tr \<and> 0 < K")
  case ev: True
  define P where "P = pendingNewIPCount now l t uid"
  have P: "0 \<le> P" "go_load (lm_UserOnlineIP l) t = None \<Longrightarrow> P = 0"
    by (simp_all add: P_def) (simp add: pendingNewIPCount_def)
  show ?thesis
  proof (cases "P = 0")
    case True
    with ev P show ?thesis
      by (auto simp: enforce_device_limit_def drop_with_map P_def [symmetric] Let_def
          evicted_map_no_pending)
  next
    case False
    with ev P show ?thesis
      by (auto simp: enforce_device_limit_def drop_with_map P_def [symmetric] Let_def)
  qed
next
  case no: False
  define P where "P = pendingNewIPCount now l t uid"
  have P: "0 \<le> P" by (simp add: P_def)
  from no P show ?thesis
    by (auto simp: enforce_device_limit_def P_def [symmetric] Let_def)
qed

text \<open>\<open>admit_device\<close> in one equation: the cases that keep the state, evict, refuse or record the address.\<close>

lemma admit_device_eq:
  assumes tracked: "noUDP \<or> tracksUDPSource l"
  shows "admit_device now t ip noUDP dl uid l =
     (let unknown = (\<not> isKnownAliveIP now l uid ip \<and> 0 < dl);
          ev = may_evict now l t noUDP dl uid
      in if is_online l t ip then (l, False)
         else if device_rejected now l t ip noUDP dl uid then
           (if ev \<and> 0 < pendingNewIPCount now l t uid then put_online t (evicted_map now l t uid) l else l, True)
         else (put_online t (go_store ip uid
                (if unknown \<and> ev then evicted_map now l t uid else online_map l t)) l, False))"
proof -
  have gc: "getOrCreateUserOnlineIPMap t l = (online_map l t, go_load (lm_UserOnlineIP l) t = None, with_map t l)"
    by (simp add: getOrCreate_online_map with_map_def)
  have upd: "l'\<lparr>lm_UserOnlineIP := go_store t x (lm_UserOnlineIP l')\<rparr> = put_online t x l'" for x l'
    by (simp add: put_online_def)
  have on: "is_online l t ip \<Longrightarrow> with_map t l = l"
    by (auto simp: is_online_def with_map_def split: option.splits)
  have K: "getAliveIP l uid + recentReportedLocalIPCount now l uid = known_devices now l uid"
    by (simp add: known_devices_def)
  consider (online) "is_online l t ip"
    | (plain) "\<not> is_online l t ip" "\<not> (\<not> isKnownAliveIP now l uid ip \<and> 0 < dl)"
    | (check) "\<not> is_online l t ip" "\<not> isKnownAliveIP now l uid ip" "0 < dl" by blast
  then show ?thesis
  proof cases
    case online
    with tracked on show ?thesis by (simp add: admit_device_def gc is_online_map)
  next
    case plain
    with tracked show ?thesis
      by (cases "isKnownAliveIP now l uid ip") (simp_all add: admit_device_def gc is_online_map upd device_rejected_def)
  next
    case check
    with tracked show ?thesis
      by (auto simp: admit_device_def gc K enforce_device_limit_eq is_online_map upd device_rejected_def
          may_evict_def device_total_def Let_def)
  qed
qed

lemma admit_device_rejects:
  "snd (admit_device now t ip noUDP dl uid l) \<longleftrightarrow> device_rejected now l t ip noUDP dl uid"
  by (cases "noUDP \<or> tracksUDPSource l")
    (auto simp: admit_device_eq admit_device_untracked device_rejected_def Let_def is_online_def)

section \<open>CheckLimit\<close>

lemma resolve_limits_None [simp]: "resolve_limits now t l = None \<longleftrightarrow> go_load (lm_UserLimitInfo l) t = None"
  by (simp add: resolve_limits_def split: option.splits)

text \<open>What \<open>resolve_limits\<close> may do to the table of limits: nothing, reset the entry, or drop it.\<close>

inductive expiry_update ::
  "string \<Rightarrow> UserLimitInfo \<Rightarrow> (string, UserLimitInfo) go_map \<Rightarrow> (string, UserLimitInfo) go_map \<Rightarrow> bool"
  for t u m where
  current: "expiry_update t u m m"
| reset: "ul_UID v = ul_UID u \<Longrightarrow> expiry_update t u m (go_store t v m)"
| dropped: "expiry_update t u m (go_delete t m)"

lemma resolve_limits_SomeD:
  assumes "resolve_limits now t l = Some (l1, dl, uid, ulim)"
  obtains u m where "go_load (lm_UserLimitInfo l) t = Some u" and "l1 = l\<lparr>lm_UserLimitInfo := m\<rparr>"
    and "dl = ul_DeviceLimit u" and "uid = ul_UID u"
    and "expiry_update t u (lm_UserLimitInfo l) m"
proof -
  have self: "l = l\<lparr>lm_UserLimitInfo := lm_UserLimitInfo l\<rparr>" by simp
  from assms obtain u where u: "go_load (lm_UserLimitInfo l) t = Some u"
    by (auto simp: resolve_limits_def split: option.splits)
  show thesis
  proof (cases "ul_ExpireTime u < now div 1000000000 \<and> ul_ExpireTime u \<noteq> 0")
    case True
    with assms u show thesis
      by (cases "ul_SpeedLimit u \<noteq> 0") (auto simp: resolve_limits_def intro!: that [OF u] intro: expiry_update.intros)
  next
    case False
    with assms u have "l1 = l" "dl = ul_DeviceLimit u" "uid = ul_UID u"
      by (auto simp: resolve_limits_def)
    with self show thesis by (intro that [OF u, of "lm_UserLimitInfo l"]) (auto intro: expiry_update.intros)
  qed
qed

lemma attach_bucket_frame:
  "attach_bucket mk t ulim l = (l', b) \<Longrightarrow> l' = l\<lparr>lm_SpeedLimiter := lm_SpeedLimiter l'\<rparr>"
  by (auto simp: attach_bucket_def Let_def go_load_or_store_def split: if_splits option.splits)

lemma attach_bucket_store:
  "attach_bucket mk t ulim l = (l', b) \<Longrightarrow>
   lm_SpeedLimiter l' = lm_SpeedLimiter l \<or>
   (\<exists>n>0. lm_SpeedLimiter l' = go_store t (mk 1000000000 n n) (lm_SpeedLimiter l))"
  by (auto simp: attach_bucket_def Let_def go_load_or_store_def not_le split: if_splits option.splits)

lemma online_map_update [simp]:
  "online_map (l\<lparr>lm_UserLimitInfo := m\<rparr>) = online_map l"
  "online_map (l\<lparr>lm_SpeedLimiter := m'\<rparr>) = online_map l"
  by (simp_all add: fun_eq_iff online_map_def)

lemma pendingNewIPCount_update [simp]:
  "pendingNewIPCount now (l\<lparr>lm_UserLimitInfo := m\<rparr>) = pendingNewIPCount now l"
  "pendingNewIPCount now (l\<lparr>lm_SpeedLimiter := m'\<rparr>) = pendingNewIPCount now l"
  by (simp_all add: fun_eq_iff pending_online_map)

lemma device_total_update [simp]:
  "device_total now (l\<lparr>lm_UserLimitInfo := m\<rparr>) = device_total now l"
  "device_total now (l\<lparr>lm_SpeedLimiter := m'\<rparr>) = device_total now l"
  by (simp_all add: fun_eq_iff device_total_def)

lemma is_online_update [simp]:
  "is_online (l\<lparr>lm_UserLimitInfo := m\<rparr>) = is_online l"
  "is_online (l\<lparr>lm_SpeedLimiter := m'\<rparr>) = is_online l"
  by (simp_all add: fun_eq_iff is_online_map)

lemma tracksUDPSource_update [simp]:
  "tracksUDPSource (l\<lparr>lm_UserLimitInfo := m\<rparr>) = tracksUDPSource l"
  "tracksUDPSource (l\<lparr>lm_SpeedLimiter := m'\<rparr>) = tracksUDPSource l"
  by (simp_all add: tracksUDPSource_def)

lemma device_rejected_update_limits [simp]:
  "device_rejected now (l\<lparr>lm_UserLimitInfo := m\<rparr>) = device_rejected now l"
  by (simp add: fun_eq_iff device_rejected_def)

lemma effective_device_limit_update [simp]:
  "effective_device_limit dl (l\<lparr>lm_UserLimitInfo := m\<rparr>) = effective_device_limit dl l"
  by (simp add: effective_device_limit_def getDefaultDeviceLimit_def)

text \<open>The device limit that applies to a user entry: its own, or the node's default.\<close>

definition device_limit_of :: "'b Limiter \<Rightarrow> UserLimitInfo \<Rightarrow> int" where
  "device_limit_of l u = effective_device_limit (ul_DeviceLimit u) l"

text \<open>
  Every accepted \<open>CheckLimit\<close> call goes through the three stages; the lemma names the intermediate
  states, so that a property of the call is a property of each stage.
\<close>

lemma CheckLimit_cases:
  assumes "go_load (lm_UserLimitInfo l) t = Some u"
  obtains m l2 rej where
    "admit_device now t (TrimPrefix rawip ''::ffff:'') noUDP (device_limit_of l u) (ul_UID u)
       (l\<lparr>lm_UserLimitInfo := m\<rparr>) = (l2, rej)"
    and "expiry_update t u (lm_UserLimitInfo l) m"
    and "rej \<Longrightarrow> CheckLimit mk now t rawip noUDP l = (l2, None, True)"
    and "\<not> rej \<Longrightarrow> \<exists>b ulim l3. attach_bucket mk t ulim l2 = (l3, b) \<and> CheckLimit mk now t rawip noUDP l = (l3, b, False)"
proof -
  from assms obtain l1 dl uid ulim where r: "resolve_limits now t l = Some (l1, dl, uid, ulim)"
    by (metis not_None_eq prod_cases4 resolve_limits_None)
  from r obtain u' m where "go_load (lm_UserLimitInfo l) t = Some u'" and l1: "l1 = l\<lparr>lm_UserLimitInfo := m\<rparr>"
    and "dl = ul_DeviceLimit u'" and "uid = ul_UID u'"
    and m: "expiry_update t u' (lm_UserLimitInfo l) m"
    by (rule resolve_limits_SomeD)
  with assms have u: "dl = ul_DeviceLimit u" "uid = ul_UID u" "u' = u" by simp_all
  obtain l2 rej where a: "admit_device now t (TrimPrefix rawip ''::ffff:'') noUDP
      (effective_device_limit dl l1) uid l1 = (l2, rej)" by fastforce
  obtain l3 b where at: "attach_bucket mk t ulim l2 = (l3, b)" by fastforce
  show thesis
  proof (rule that [of m l2 rej])
    show "admit_device now t (TrimPrefix rawip ''::ffff:'') noUDP (device_limit_of l u) (ul_UID u)
       (l\<lparr>lm_UserLimitInfo := m\<rparr>) = (l2, rej)" using a l1 u by (simp add: device_limit_of_def)
    show "expiry_update t u (lm_UserLimitInfo l) m" using m u by simp
    show "rej \<Longrightarrow> CheckLimit mk now t rawip noUDP l = (l2, None, True)"
      using a r by (simp add: CheckLimit_def)
    show "\<not> rej \<Longrightarrow> \<exists>b ulim l3. attach_bucket mk t ulim l2 = (l3, b) \<and> CheckLimit mk now t rawip noUDP l = (l3, b, False)"
      using a r at by (auto simp: CheckLimit_def)
  qed
qed

lemma CheckLimit_acceptE:
  assumes "CheckLimit mk now t rawip noUDP l = (l', b, False)"
  obtains u m l2 ulim where "go_load (lm_UserLimitInfo l) t = Some u"
    and "expiry_update t u (lm_UserLimitInfo l) m"
    and "admit_device now t (TrimPrefix rawip ''::ffff:'') noUDP (device_limit_of l u) (ul_UID u)
       (l\<lparr>lm_UserLimitInfo := m\<rparr>) = (l2, False)"
    and "attach_bucket mk t ulim l2 = (l', b)"
proof -
  from assms obtain u where u: "go_load (lm_UserLimitInfo l) t = Some u"
    by (cases "go_load (lm_UserLimitInfo l) t") (auto simp: CheckLimit_def resolve_limits_def)
  show thesis
  proof (rule CheckLimit_cases [OF u, of now rawip noUDP mk])
    fix m l2 rej
    assume a: "admit_device now t (TrimPrefix rawip ''::ffff:'') noUDP (device_limit_of l u) (ul_UID u)
       (l\<lparr>lm_UserLimitInfo := m\<rparr>) = (l2, rej)"
      and m: "expiry_update t u (lm_UserLimitInfo l) m"
      and r: "rej \<Longrightarrow> CheckLimit mk now t rawip noUDP l = (l2, None, True)"
      and n: "\<not> rej \<Longrightarrow> \<exists>b ulim l3. attach_bucket mk t ulim l2 = (l3, b) \<and> CheckLimit mk now t rawip noUDP l = (l3, b, False)"
    from r assms have "\<not> rej" by auto
    with n assms obtain ulim where "attach_bucket mk t ulim l2 = (l', b)" by auto
    with a \<open>\<not> rej\<close> show thesis by (intro that [OF u m]) simp_all
  qed
qed

lemma CheckLimit_unknown_user:
  "go_load (lm_UserLimitInfo l) t = None \<Longrightarrow> CheckLimit mk now t rawip noUDP l = (l, None, True)"
  by (simp add: CheckLimit_def resolve_limits_def)

lemma CheckLimit_known_rejects:
  assumes "go_load (lm_UserLimitInfo l) t = Some u"
  shows "snd (snd (CheckLimit mk now t rawip noUDP l)) \<longleftrightarrow>
     device_rejected now l t (TrimPrefix rawip ''::ffff:'') noUDP (device_limit_of l u) (ul_UID u)"
proof -
  from CheckLimit_cases [OF assms, of now rawip noUDP mk] obtain m l2 rej where
    a: "admit_device now t (TrimPrefix rawip ''::ffff:'') noUDP (device_limit_of l u) (ul_UID u)
       (l\<lparr>lm_UserLimitInfo := m\<rparr>) = (l2, rej)"
    and c: "rej \<Longrightarrow> CheckLimit mk now t rawip noUDP l = (l2, None, True)"
      "\<not> rej \<Longrightarrow> \<exists>b ulim l3. attach_bucket mk t ulim l2 = (l3, b) \<and> CheckLimit mk now t rawip noUDP l = (l3, b, False)"
    by metis
  from admit_device_rejects [of now t "TrimPrefix rawip ''::ffff:''" noUDP "device_limit_of l u" "ul_UID u" "l\<lparr>lm_UserLimitInfo := m\<rparr>"] a
  have "rej \<longleftrightarrow> device_rejected now l t (TrimPrefix rawip ''::ffff:'') noUDP (device_limit_of l u) (ul_UID u)"
    by simp
  with c show ?thesis by (cases rej) auto
qed

section \<open>Well-formed limiters\<close>

definition limiter_wf :: "'b Limiter \<Rightarrow> bool" where
  "limiter_wf l \<longleftrightarrow>
     go_wf (lm_UserOnlineIP l) \<and> (\<forall>t m. go_load (lm_UserOnlineIP l) t = Some m \<longrightarrow> go_wf m) \<and>
     go_wf (lm_OldUserOnline l) \<and> go_wf (lm_UUIDtoUID l) \<and> go_wf (lm_UserLimitInfo l) \<and>
     go_wf (lm_SpeedLimiter l) \<and>
     (case lm_aliveList l of None \<Rightarrow> True | Some m \<Rightarrow> go_wf m)"

lemma online_map_wf: "limiter_wf l \<Longrightarrow> go_wf (online_map l t)"
  by (auto simp: limiter_wf_def online_map_def split: option.splits)

lemma evicted_map_wf: "limiter_wf l \<Longrightarrow> go_wf (evicted_map now l t uid)"
  by (simp add: evicted_map_def online_map_wf split: option.splits)

lemma put_online_wf: "limiter_wf l \<Longrightarrow> go_wf m \<Longrightarrow> limiter_wf (put_online t m l)"
  by (auto simp: limiter_wf_def put_online_def split: option.splits if_splits)

lemma admit_device_wf:
  assumes "limiter_wf l" and "admit_device now t ip noUDP dl uid l = (l', rej)"
  shows "limiter_wf l'"
proof (cases "noUDP \<or> tracksUDPSource l")
  case True
  with assms show ?thesis
    by (auto simp: admit_device_eq Let_def online_map_wf evicted_map_wf intro!: put_online_wf split: if_splits)
next
  case False
  with assms show ?thesis by (simp add: admit_device_untracked)
qed

lemma evicted_count:
  assumes "limiter_wf l"
  shows "int (length (filter (is_pending now l uid) (evicted_map now l t uid))) =
         max 0 (pendingNewIPCount now l t uid - 1)"
proof (cases "find (is_pending now l uid) (online_map l t)")
  case None
  then have "pendingNewIPCount now l t uid = 0" by (simp add: no_pending_iff)
  with None show ?thesis by (simp add: evicted_map_def pending_online_map)
next
  case (Some e)
  obtain k v where e: "e = (k, v)" by (cases e)
  from Some e have P: "is_pending now l uid (k, v)" and "(k, v) \<in> set (online_map l t)"
    by (auto simp: find_Some_iff)
  then have "go_load (online_map l t) k = Some v"
    using online_map_wf [OF assms] by (simp add: go_load_def go_wf_def)
  from length_filter_delete [OF online_map_wf [OF assms] this, of "is_pending now l uid"] P Some e
  show ?thesis by (simp add: evicted_map_def pending_online_map)
qed

lemma admit_device_total:
  assumes "limiter_wf l" and "0 < dl" and "admit_device now t ip noUDP dl uid l = (l', False)"
  shows "device_total now l' t uid \<le> max (device_total now l t uid) (dl + (if noUDP then 0 else 1))"
proof (cases "(noUDP \<or> tracksUDPSource l) \<and> \<not> is_online l t ip")
  case False
  with assms(3) have "l' = l"
    by (cases "noUDP \<or> tracksUDPSource l") (auto simp: admit_device_eq admit_device_untracked Let_def)
  then show ?thesis by simp
next
  case True
  then have tr: "noUDP \<or> tracksUDPSource l" and off: "go_load (online_map l t) ip = None"
    by (auto simp: is_online_map)
  define ev where "ev \<longleftrightarrow> may_evict now l t noUDP dl uid"
  define M where "M = (if \<not> isKnownAliveIP now l uid ip \<and> ev then evicted_map now l t uid else online_map l t)"
  have ok: "\<not> device_rejected now l t ip noUDP dl uid" and l': "l' = put_online t (go_store ip uid M) l"
    using assms(2,3) True by (auto simp: admit_device_eq [OF tr] Let_def M_def ev_def split: if_splits)
  have "go_load M ip = None" using off
    by (auto simp: M_def evicted_map_def split: option.splits)
  then have cnt: "pendingNewIPCount now l' t uid =
      int (length (filter (is_pending now l uid) M)) + (if isKnownAliveIP now l uid ip then 0 else 1)"
    by (simp add: l' pending_online_map filter_store_new is_pending_def)
  have MM: "int (length (filter (is_pending now l uid) M)) =
      (if \<not> isKnownAliveIP now l uid ip \<and> ev then max 0 (pendingNewIPCount now l t uid - 1) else pendingNewIPCount now l t uid)"
    by (simp add: M_def evicted_count [OF assms(1)] pending_online_map)
  show ?thesis
    using ok True assms(2) unfolding device_total_def cnt MM
    by (auto simp: l' device_rejected_def device_total_def ev_def may_evict_def)
qed

section \<open>Every operation keeps limiters well formed\<close>

lemma SetAliveList_wf: "limiter_wf l \<Longrightarrow> limiter_wf (SetAliveList alive l)"
  by (simp add: limiter_wf_def SetAliveList_def Let_def)

lemma SetAliveSnapshot_wf: "limiter_wf l \<Longrightarrow> limiter_wf (SetAliveSnapshot now snap l)"
  using SetAliveList_wf [of l] by (auto simp: SetAliveSnapshot_def limiter_wf_def split: option.splits)

lemma SetDefaultDeviceLimit_wf: "limiter_wf l \<Longrightarrow> limiter_wf (SetDefaultDeviceLimit n l)"
  by (simp add: limiter_wf_def SetDefaultDeviceLimit_def Let_def)

lemma go_wf_fold_delete: "go_wf m \<Longrightarrow> go_wf (fold go_delete ks m)"
  using gmap.invar_fold_remove [of m id ks] by simp

lemma deleteAliveIDs_wf: "limiter_wf l \<Longrightarrow> limiter_wf (deleteAliveIDs ids l)"
  by (auto simp: limiter_wf_def deleteAliveIDs_def go_wf_fold_delete split: option.splits)

lemma forget_user_wf: "limiter_wf l \<Longrightarrow> limiter_wf (forget_user tag u l)"
  by (auto simp: limiter_wf_def forget_user_def split: if_splits)

lemma register_user_wf: "limiter_wf l \<Longrightarrow> limiter_wf (register_user tag u l)"
  by (auto simp: limiter_wf_def register_user_def)

lemma update_user_info_wf: "limiter_wf l \<Longrightarrow> limiter_wf (update_user_info tag u l)"
  by (auto simp: limiter_wf_def update_user_info_def Let_def)

lemma fold_wf: "(\<And>x l. P l \<Longrightarrow> P (f x l)) \<Longrightarrow> P l \<Longrightarrow> P (fold f xs l)"
  by (induction xs arbitrary: l) auto

lemma UpdateUser_wf: "limiter_wf l \<Longrightarrow> limiter_wf (UpdateUser tag added deleted l)"
  by (simp add: UpdateUser_def fold_wf [where P = limiter_wf] deleteAliveIDs_wf forget_user_wf register_user_wf)

lemma UpdateUserInfo_wf: "limiter_wf l \<Longrightarrow> limiter_wf (UpdateUserInfo tag updated l)"
  by (simp add: UpdateUserInfo_def fold_wf [where P = limiter_wf] update_user_info_wf)

lemma UpdateDynamicSpeedLimit_wf:
  "limiter_wf l \<Longrightarrow> UpdateDynamicSpeedLimit tag uuid limit expire l = Inr l' \<Longrightarrow> limiter_wf l'"
  by (auto simp: limiter_wf_def UpdateDynamicSpeedLimit_def Let_def split: option.splits)

lemma new_limiter_wf: "limiter_wf (new_limiter nodetype tag users alive)"
  by (simp add: limiter_wf_def new_limiter_def SetAliveList_def empty_limiter_def Let_def gmap.invar_fold_store)

lemma attach_bucket_wf: "limiter_wf l \<Longrightarrow> attach_bucket mk t ulim l = (l', b) \<Longrightarrow> limiter_wf l'"
  by (auto simp: attach_bucket_def limiter_wf_def Let_def go_load_or_store_def split: if_splits option.splits)

lemma expiry_update_wf: "expiry_update t u m m' \<Longrightarrow> go_wf m \<Longrightarrow> go_wf m'"
  by (auto elim: expiry_update.cases)

lemma CheckLimit_wf:
  assumes "limiter_wf l" and "CheckLimit mk now t rawip noUDP l = (l', b, rej)"
  shows "limiter_wf l'"
proof (cases "go_load (lm_UserLimitInfo l) t")
  case None
  with assms show ?thesis by (simp add: CheckLimit_unknown_user)
next
  case (Some u)
  show ?thesis
  proof (rule CheckLimit_cases [OF Some, of now rawip noUDP mk])
    fix m l2 r
    assume a: "admit_device now t (TrimPrefix rawip ''::ffff:'') noUDP (device_limit_of l u) (ul_UID u)
       (l\<lparr>lm_UserLimitInfo := m\<rparr>) = (l2, r)"
      and m: "expiry_update t u (lm_UserLimitInfo l) m"
      and r: "r \<Longrightarrow> CheckLimit mk now t rawip noUDP l = (l2, None, True)"
      and n: "\<not> r \<Longrightarrow> \<exists>b ulim l3. attach_bucket mk t ulim l2 = (l3, b) \<and> CheckLimit mk now t rawip noUDP l = (l3, b, False)"
    have "limiter_wf (l\<lparr>lm_UserLimitInfo := m\<rparr>)"
      using assms(1) expiry_update_wf [OF m] by (simp add: limiter_wf_def)
    then have "limiter_wf l2" by (rule admit_device_wf [OF _ a])
    with r n assms(2) show ?thesis by (cases r) (auto dest: attach_bucket_wf)
  qed
qed

definition online_wf :: "(string, ip_map) go_map \<Rightarrow> bool" where
  "online_wf m \<longleftrightarrow> go_wf m \<and> (\<forall>t ips. go_load m t = Some ips \<longrightarrow> go_wf ips)"

lemma commit_online_wf:
  "go_wf (fst st) \<and> online_wf (snd st) \<Longrightarrow>
   go_wf (fst (commit_online now o' st)) \<and> online_wf (snd (commit_online now o' st))"
  by (cases st) (auto simp: commit_online_def online_wf_def Let_def split: option.splits if_splits)

lemma CommitOnlineDeviceReport_wf:
  assumes "limiter_wf l"
  shows "limiter_wf (CommitOnlineDeviceReport now reported l)"
proof -
  have "go_wf (fst (fold (commit_online now) reported ([], lm_UserOnlineIP l))) \<and>
        online_wf (snd (fold (commit_online now) reported ([], lm_UserOnlineIP l)))"
  proof (rule fold_wf [where P = "\<lambda>st. go_wf (fst st) \<and> online_wf (snd st)"])
    show "go_wf (fst ([], lm_UserOnlineIP l)) \<and> online_wf (snd ([], lm_UserOnlineIP l))"
      using assms by (simp add: limiter_wf_def online_wf_def)
  qed (rule commit_online_wf)
  with assms show ?thesis
    by (auto simp: CommitOnlineDeviceReport_def limiter_wf_def online_wf_def split: prod.splits)
qed

section \<open>The users a limiter knows\<close>

lemma UserTag_inject [simp]: "UserTag tag a = UserTag tag b \<longleftrightarrow> a = b"
  by (simp add: UserTag_def)

lemma UserTag_bar_free:
  assumes "UserTag t a = UserTag t' b" and "CHR ''|'' \<notin> set t" and "CHR ''|'' \<notin> set t'"
  shows "t = t' \<and> a = b"
  using assms
proof (induction t arbitrary: t')
  case Nil
  then show ?case by (cases t') (auto simp: UserTag_def)
next
  case (Cons c t)
  then show ?case by (cases t') (auto simp: UserTag_def)
qed

text \<open>The abstract table of users: uuid to identifier, speed limit and device limit.\<close>

type_synonym user_table = "string \<Rightarrow> (int \<times> int \<times> int) option"

definition users_of :: "UserInfo list \<Rightarrow> user_table" where
  "users_of us = map_of (rev (map (\<lambda>u. (ui_Uuid u, (ui_Id u, ui_SpeedLimit u, ui_DeviceLimit u))) us))"

definition limits_of :: "UserLimitInfo \<Rightarrow> int \<times> int \<times> int" where
  "limits_of v = (ul_UID v, ul_SpeedLimit v, ul_DeviceLimit v)"

definition user_view :: "'b Limiter \<Rightarrow> user_table" where
  "user_view l uuid = map_option limits_of (go_load (lm_UserLimitInfo l) (UserTag (lm_Tag l) uuid))"

lemma users_of_Nil [simp]: "users_of [] = Map.empty"
  by (simp add: users_of_def)

lemma users_of_Cons [simp]:
  "users_of (u # us) = [ui_Uuid u \<mapsto> (ui_Id u, ui_SpeedLimit u, ui_DeviceLimit u)] ++ users_of us"
  by (simp add: users_of_def)

lemma map_of_rev_map_Some_in: "map_of (rev (map (\<lambda>u. (f u, g u)) us)) k = Some v \<Longrightarrow> \<exists>u \<in> set us. k = f u \<and> v = g u"
  by (force dest: map_of_SomeD)

lemma users_of_None_iff: "users_of us k = None \<longleftrightarrow> k \<notin> ui_Uuid ` set us"
  by (simp add: users_of_def map_of_eq_None_iff) force

lemma limits_of_new [simp]: "limits_of (new_user_limit u) = (ui_Id u, ui_SpeedLimit u, ui_DeviceLimit u)"
  by (simp add: limits_of_def new_user_limit_def)

lemma user_view_register:
  "lm_Tag l = tag \<Longrightarrow>
   user_view (register_user tag u l) = (user_view l)(ui_Uuid u \<mapsto> (ui_Id u, ui_SpeedLimit u, ui_DeviceLimit u))"
  by (auto simp: user_view_def register_user_def fun_eq_iff)

lemma user_view_update_info:
  "lm_Tag l = tag \<Longrightarrow>
   user_view (update_user_info tag u l) = (user_view l)(ui_Uuid u \<mapsto> (ui_Id u, ui_SpeedLimit u, ui_DeviceLimit u))"
  by (auto simp: user_view_def update_user_info_def Let_def fun_eq_iff limits_of_def split: option.splits)

lemma user_view_forget: "lm_Tag l = tag \<Longrightarrow> user_view (forget_user tag u l) = (user_view l)(ui_Uuid u := None)"
  by (auto simp: user_view_def forget_user_def fun_eq_iff)

lemma tag_ops [simp]:
  "lm_Tag (register_user tag u l) = lm_Tag l"
  "lm_Tag (update_user_info tag u l) = lm_Tag l"
  "lm_Tag (forget_user tag u l) = lm_Tag l"
  "lm_Tag (deleteAliveIDs ids l) = lm_Tag l"
  by (simp_all add: register_user_def update_user_info_def forget_user_def deleteAliveIDs_def Let_def
      split: option.splits)

lemma tag_folds [simp]:
  "lm_Tag (fold (register_user tag) us l) = lm_Tag l"
  "lm_Tag (fold (update_user_info tag) us l) = lm_Tag l"
  "lm_Tag (fold (forget_user tag) us l) = lm_Tag l"
  by (induction us arbitrary: l) auto

lemma user_view_deleteAliveIDs [simp]: "user_view (deleteAliveIDs ids l) = user_view l"
  by (simp add: fun_eq_iff user_view_def deleteAliveIDs_def split: option.splits)

lemma user_view_fold_register:
  "lm_Tag l = tag \<Longrightarrow> user_view (fold (register_user tag) us l) = user_view l ++ users_of us"
  by (induction us arbitrary: l) (simp_all add: user_view_register map_add_upd_left)

lemma user_view_fold_update:
  "lm_Tag l = tag \<Longrightarrow> user_view (fold (update_user_info tag) us l) = user_view l ++ users_of us"
  by (induction us arbitrary: l) (simp_all add: user_view_update_info)

lemma user_view_fold_forget:
  "lm_Tag l = tag \<Longrightarrow> user_view (fold (forget_user tag) us l) = user_view l |` (- ui_Uuid ` set us)"
proof (induction us arbitrary: l)
  case Nil
  then show ?case by (simp add: restrict_map_def fun_eq_iff)
next
  case (Cons u us)
  then show ?case by (auto simp: user_view_forget restrict_map_def fun_eq_iff)
qed

lemma user_view_UpdateUser:
  "user_view (UpdateUser (lm_Tag l) added deleted l) =
     (user_view l |` (- ui_Uuid ` set deleted)) ++ users_of added"
  by (simp add: UpdateUser_def user_view_fold_register user_view_fold_forget)

lemma user_view_UpdateUserInfo:
  "user_view (UpdateUserInfo (lm_Tag l) updated l) = user_view l ++ users_of updated"
  by (simp add: UpdateUserInfo_def user_view_fold_update)

lemma limits_fold_register:
  "lm_UserLimitInfo (fold (register_user tag) us l) =
   fold (\<lambda>u. go_store (UserTag tag (ui_Uuid u)) (new_user_limit u)) us (lm_UserLimitInfo l)"
  by (induction us arbitrary: l) (simp_all add: register_user_def)

lemma empty_limiter_simps [simp]:
  "lm_Tag (empty_limiter nodetype tag) = tag"
  "user_view (empty_limiter nodetype tag) = Map.empty"
  by (simp_all add: fun_eq_iff user_view_def empty_limiter_def)

lemma user_view_new_limiter: "user_view (new_limiter nodetype tag users alive :: 'b Limiter) = users_of users"
proof -
  have "user_view (new_limiter nodetype tag users alive :: 'b Limiter) =
        user_view (fold (register_user tag) users (empty_limiter nodetype tag :: 'b Limiter))"
    by (simp add: fun_eq_iff user_view_def limits_fold_register)
      (simp add: new_limiter_def SetAliveList_def empty_limiter_def Let_def)
  also have "\<dots> = users_of users" by (simp add: user_view_fold_register)
  finally show ?thesis .
qed

section \<open>Reachable limiters\<close>

text \<open>
  The life of a limiter as a state machine: the controller creates it with \<open>AddLimiter\<close>; then
  connections, user synchronisation, alive snapshots and reports act on it in any order. The
  controller passes the limiter's own tag to the update methods.
\<close>

inductive limiter_step :: "(int \<Rightarrow> int \<Rightarrow> int \<Rightarrow> 'b) \<Rightarrow> 'b Limiter \<Rightarrow> 'b Limiter \<Rightarrow> bool" for mk where
  check: "CheckLimit mk now t rawip noUDP l = (l', b, rej) \<Longrightarrow> limiter_step mk l l'"
| update_user: "limiter_step mk l (UpdateUser (lm_Tag l) added deleted l)"
| update_info: "limiter_step mk l (UpdateUserInfo (lm_Tag l) updated l)"
| dynamic: "UpdateDynamicSpeedLimit (lm_Tag l) uuid limit expire l = Inr l' \<Longrightarrow> limiter_step mk l l'"
| snapshot: "limiter_step mk l (SetAliveSnapshot now snap l)"
| default_limit: "limiter_step mk l (SetDefaultDeviceLimit n l)"
| commit: "limiter_step mk l (CommitOnlineDeviceReport now reported l)"

inductive limiter_reachable :: "(int \<Rightarrow> int \<Rightarrow> int \<Rightarrow> 'b) \<Rightarrow> 'b Limiter \<Rightarrow> bool" for mk where
  created: "limiter_reachable mk (new_limiter nodetype tag users alive)"
| step: "limiter_reachable mk l \<Longrightarrow> limiter_step mk l l' \<Longrightarrow> limiter_reachable mk l'"

text \<open>
  What a limiter keeps true: its tables are well formed; every limit entry belongs to a registered
  user of the node and carries that user's identifier; every token bucket was made with a
  positive rate (the constructor panics otherwise); the default limit is a non-negative int32.
\<close>

definition limits_registered :: "'b Limiter \<Rightarrow> bool" where
  "limits_registered l \<longleftrightarrow>
     (\<forall>t u. go_load (lm_UserLimitInfo l) t = Some u \<longrightarrow>
        (\<exists>uuid. t = UserTag (lm_Tag l) uuid \<and> go_load (lm_UUIDtoUID l) uuid = Some (ul_UID u)))"

definition buckets_positive :: "(int \<Rightarrow> int \<Rightarrow> int \<Rightarrow> 'b) \<Rightarrow> 'b Limiter \<Rightarrow> bool" where
  "buckets_positive mk l \<longleftrightarrow>
     (\<forall>t b. go_load (lm_SpeedLimiter l) t = Some b \<longrightarrow> (\<exists>n>0. b = mk 1000000000 n n))"

definition default_in_range :: "'b Limiter \<Rightarrow> bool" where
  "default_in_range l \<longleftrightarrow> 0 \<le> lm_defaultDeviceLimit l \<and> lm_defaultDeviceLimit l \<le> maxDefaultDeviceLimit"

definition limiter_inv :: "(int \<Rightarrow> int \<Rightarrow> int \<Rightarrow> 'b) \<Rightarrow> 'b Limiter \<Rightarrow> bool" where
  "limiter_inv mk l \<longleftrightarrow> limiter_wf l \<and> limits_registered l \<and> buckets_positive mk l \<and> default_in_range l"

lemma SetDefaultDeviceLimit_value:
  "lm_defaultDeviceLimit (SetDefaultDeviceLimit n l) = max 0 (min n (2 ^ 31 - 1))"
  by (auto simp: SetDefaultDeviceLimit_def Let_def maxDefaultDeviceLimit_def wrap32_id)

lemma limits_registered_set:
  assumes "limits_registered l" and "ul_UID v = uid"
  shows "limits_registered (l\<lparr>lm_UserLimitInfo := go_store (UserTag (lm_Tag l) uuid) v (lm_UserLimitInfo l),
                              lm_UUIDtoUID := go_store uuid uid (lm_UUIDtoUID l)\<rparr>)"
  unfolding limits_registered_def
proof (intro allI impI)
  fix t u
  let ?l = "l\<lparr>lm_UserLimitInfo := go_store (UserTag (lm_Tag l) uuid) v (lm_UserLimitInfo l),
              lm_UUIDtoUID := go_store uuid uid (lm_UUIDtoUID l)\<rparr>"
  assume "go_load (lm_UserLimitInfo ?l) t = Some u"
  then consider "t = UserTag (lm_Tag l) uuid" "u = v" | "t \<noteq> UserTag (lm_Tag l) uuid" "go_load (lm_UserLimitInfo l) t = Some u"
    by (auto split: if_splits)
  then show "\<exists>k. t = UserTag (lm_Tag ?l) k \<and> go_load (lm_UUIDtoUID ?l) k = Some (ul_UID u)"
    using assms
  proof cases
    case 2
    with assms(1) obtain k where "t = UserTag (lm_Tag l) k" "go_load (lm_UUIDtoUID l) k = Some (ul_UID u)"
      by (auto simp: limits_registered_def)
    with 2 show ?thesis by auto
  qed auto
qed

lemma limits_registered_speed [simp]: "limits_registered (l\<lparr>lm_SpeedLimiter := m\<rparr>) = limits_registered l"
  by (simp add: limits_registered_def)

lemma limits_registered_ops:
  assumes "lm_Tag l = tag \<and> limits_registered l"
  shows "lm_Tag (register_user tag u l) = tag \<and> limits_registered (register_user tag u l)"
    and "lm_Tag (update_user_info tag u l) = tag \<and> limits_registered (update_user_info tag u l)"
    and "lm_Tag (forget_user tag u l) = tag \<and> limits_registered (forget_user tag u l)"
proof -
  note set = limits_registered_set [OF conjunct2 [OF assms], of _ "ui_Id u" "ui_Uuid u"]
  show "lm_Tag (register_user tag u l) = tag \<and> limits_registered (register_user tag u l)"
    using assms set by (auto simp: register_user_def new_user_limit_def)
  show "lm_Tag (update_user_info tag u l) = tag \<and> limits_registered (update_user_info tag u l)"
    using assms set by (auto simp: update_user_info_def Let_def limits_registered_speed split: option.splits)
  show "lm_Tag (forget_user tag u l) = tag \<and> limits_registered (forget_user tag u l)"
    using assms by (auto simp: forget_user_def limits_registered_def) metis
qed

lemma limits_registered_folds:
  assumes "lm_Tag l = tag \<and> limits_registered l"
  shows "lm_Tag (fold (register_user tag) us l) = tag \<and> limits_registered (fold (register_user tag) us l)"
    and "lm_Tag (fold (update_user_info tag) us l) = tag \<and> limits_registered (fold (update_user_info tag) us l)"
    and "lm_Tag (fold (forget_user tag) us l) = tag \<and> limits_registered (fold (forget_user tag) us l)"
  by (rule fold_wf [where P = "\<lambda>l. lm_Tag l = tag \<and> limits_registered l", OF _ assms],
      erule limits_registered_ops)+

lemma limits_registered_deleteAliveIDs: "limits_registered l \<Longrightarrow> limits_registered (deleteAliveIDs ids l)"
  by (auto simp: limits_registered_def deleteAliveIDs_def split: option.splits)

lemma registered_uids_fold_register:
  "lm_UUIDtoUID (fold (register_user tag) us l) = fold (\<lambda>u. go_store (ui_Uuid u) (ui_Id u)) us (lm_UUIDtoUID l)"
  by (induction us arbitrary: l) (simp_all add: register_user_def)

lemma limits_registered_new: "limits_registered (new_limiter nodetype tag users alive :: 'b Limiter)"
proof -
  have "limits_registered (empty_limiter nodetype tag :: 'b Limiter)"
    by (simp add: limits_registered_def empty_limiter_def)
  then have "limits_registered (fold (register_user tag) users (empty_limiter nodetype tag :: 'b Limiter))"
    using limits_registered_folds(1) [of "empty_limiter nodetype tag :: 'b Limiter" tag users] by (simp add: empty_limiter_def)
  then show ?thesis
    unfolding limits_registered_def limits_fold_register registered_uids_fold_register tag_folds
    by (simp add: new_limiter_def SetAliveList_def empty_limiter_def Let_def)
qed

lemma buckets_folds:
  "buckets_positive mk l \<Longrightarrow> buckets_positive mk (fold (register_user tag) us l)"
  "buckets_positive mk l \<Longrightarrow> buckets_positive mk (fold (update_user_info tag) us l)"
  "buckets_positive mk l \<Longrightarrow> buckets_positive mk (fold (forget_user tag) us l)"
  by (rule fold_wf [where P = "buckets_positive mk"];
      auto simp: buckets_positive_def register_user_def update_user_info_def forget_user_def Let_def)+

lemma default_folds [simp]:
  "lm_defaultDeviceLimit (fold (register_user tag) us l) = lm_defaultDeviceLimit l"
  "lm_defaultDeviceLimit (fold (update_user_info tag) us l) = lm_defaultDeviceLimit l"
  "lm_defaultDeviceLimit (fold (forget_user tag) us l) = lm_defaultDeviceLimit l"
  by (induction us arbitrary: l) (simp_all add: register_user_def update_user_info_def forget_user_def Let_def)

lemma deleteAliveIDs_frame [simp]:
  "lm_SpeedLimiter (deleteAliveIDs ids l) = lm_SpeedLimiter l"
  "lm_defaultDeviceLimit (deleteAliveIDs ids l) = lm_defaultDeviceLimit l"
  by (simp_all add: deleteAliveIDs_def split: option.splits)

lemma admit_device_frame:
  "admit_device now t ip noUDP dl uid l = (l', rej) \<Longrightarrow> l' = l\<lparr>lm_UserOnlineIP := lm_UserOnlineIP l'\<rparr>"
  by (cases "noUDP \<or> tracksUDPSource l")
    (auto simp: admit_device_eq admit_device_untracked Let_def put_online_def split: if_splits)

lemma CheckLimit_inv:
  assumes inv: "limiter_inv mk l" and c: "CheckLimit mk now t rawip noUDP l = (l', b, rej)"
  shows "limiter_inv mk l'"
proof (cases "go_load (lm_UserLimitInfo l) t")
  case None
  with assms show ?thesis by (simp add: CheckLimit_unknown_user)
next
  case (Some u)
  show ?thesis
  proof (rule CheckLimit_cases [OF Some, of now rawip noUDP mk])
    fix m l2 r
    assume a: "admit_device now t (TrimPrefix rawip ''::ffff:'') noUDP (device_limit_of l u) (ul_UID u)
       (l\<lparr>lm_UserLimitInfo := m\<rparr>) = (l2, r)"
      and m: "expiry_update t u (lm_UserLimitInfo l) m"
      and r: "r \<Longrightarrow> CheckLimit mk now t rawip noUDP l = (l2, None, True)"
      and n: "\<not> r \<Longrightarrow> \<exists>b ulim l3. attach_bucket mk t ulim l2 = (l3, b) \<and> CheckLimit mk now t rawip noUDP l = (l3, b, False)"
    obtain x where l2: "l2 = l\<lparr>lm_UserLimitInfo := m, lm_UserOnlineIP := x\<rparr>"
      using admit_device_frame [OF a] by auto
    from m inv Some have "limits_registered (l\<lparr>lm_UserLimitInfo := m\<rparr>)"
      by cases (auto simp: limiter_inv_def limits_registered_def)
    with inv l2 have 2: "limits_registered l2" "buckets_positive mk l2" "default_in_range l2"
      by (simp_all add: limiter_inv_def limits_registered_def buckets_positive_def default_in_range_def)
    from inv have "limiter_wf l'" by (intro CheckLimit_wf [OF _ c]) (simp add: limiter_inv_def)
    show ?thesis
    proof (cases r)
      case True
      with r c 2 \<open>limiter_wf l'\<close> show ?thesis by (simp add: limiter_inv_def)
    next
      case False
      with n c obtain ulim where at: "attach_bucket mk t ulim l2 = (l', b)" by auto
      from attach_bucket_store [OF at] 2(2) have "buckets_positive mk l'"
        by (auto simp: buckets_positive_def split: if_splits)
      moreover have "limits_registered l'" "default_in_range l'"
        using 2 by (subst attach_bucket_frame [OF at], simp add: default_in_range_def)+
      ultimately show ?thesis using \<open>limiter_wf l'\<close> by (simp add: limiter_inv_def)
    qed
  qed
qed

lemma UpdateUser_inv: "limiter_inv mk l \<Longrightarrow> limiter_inv mk (UpdateUser (lm_Tag l) added deleted l)"
proof -
  assume inv: "limiter_inv mk l"
  let ?d = "deleteAliveIDs (map ui_Id deleted) (fold (forget_user (lm_Tag l)) deleted l)"
  have "lm_Tag ?d = lm_Tag l \<and> limits_registered ?d"
    using inv limits_registered_folds(3) [of l "lm_Tag l" deleted]
    by (auto simp: limiter_inv_def intro: limits_registered_deleteAliveIDs)
  then have "limits_registered (UpdateUser (lm_Tag l) added deleted l)"
    unfolding UpdateUser_def using limits_registered_folds(1) by blast
  moreover have "buckets_positive mk ?d"
    using inv buckets_folds(3) [of mk l "lm_Tag l" deleted]
    by (simp add: limiter_inv_def buckets_positive_def)
  then have "buckets_positive mk (UpdateUser (lm_Tag l) added deleted l)"
    unfolding UpdateUser_def by (rule buckets_folds)
  moreover have "default_in_range (UpdateUser (lm_Tag l) added deleted l)"
    using inv by (simp add: UpdateUser_def limiter_inv_def default_in_range_def)
  ultimately show ?thesis
    using inv by (simp add: limiter_inv_def UpdateUser_wf)
qed

lemma UpdateUserInfo_inv: "limiter_inv mk l \<Longrightarrow> limiter_inv mk (UpdateUserInfo (lm_Tag l) updated l)"
  using limits_registered_folds(2) [of l "lm_Tag l" updated] buckets_folds(2) [of mk l "lm_Tag l" updated]
    UpdateUserInfo_wf [of l "lm_Tag l" updated]
  by (simp add: limiter_inv_def UpdateUserInfo_def default_in_range_def)

lemma UpdateDynamicSpeedLimit_inv:
  assumes "limiter_inv mk l" and "UpdateDynamicSpeedLimit (lm_Tag l) uuid limit expire l = Inr l'"
  shows "limiter_inv mk l'"
proof -
  from assms(2) obtain v where "go_load (lm_UserLimitInfo l) (UserTag (lm_Tag l) uuid) = Some v"
    and "l' = l\<lparr>lm_UserLimitInfo := go_store (UserTag (lm_Tag l) uuid)
               (v\<lparr>ul_DynamicSpeedLimit := limit, ul_ExpireTime := expire\<rparr>) (lm_UserLimitInfo l)\<rparr>"
    by (auto simp: UpdateDynamicSpeedLimit_def Let_def split: option.splits)
  moreover from this assms(1) have "go_load (lm_UUIDtoUID l) uuid = Some (ul_UID v)"
    by (fastforce simp: limiter_inv_def limits_registered_def)
  moreover have "limiter_wf l'" using assms UpdateDynamicSpeedLimit_wf by (auto simp: limiter_inv_def)
  ultimately show ?thesis using assms(1)
    by (auto simp: limiter_inv_def limits_registered_def buckets_positive_def default_in_range_def)
qed

lemma snapshot_inv: "limiter_inv mk l \<Longrightarrow> limiter_inv mk (SetAliveSnapshot now snap l)"
  using SetAliveSnapshot_wf [of l now snap]
  by (auto simp: limiter_inv_def limits_registered_def buckets_positive_def default_in_range_def
      SetAliveSnapshot_def SetAliveList_def Let_def split: option.splits)

lemma default_inv: "limiter_inv mk l \<Longrightarrow> limiter_inv mk (SetDefaultDeviceLimit n l)"
  using SetDefaultDeviceLimit_value [of n l] SetDefaultDeviceLimit_wf [of l n]
  by (simp add: limiter_inv_def limits_registered_def buckets_positive_def default_in_range_def maxDefaultDeviceLimit_def)
    (simp add: SetDefaultDeviceLimit_def Let_def)

lemma commit_inv: "limiter_inv mk l \<Longrightarrow> limiter_inv mk (CommitOnlineDeviceReport now reported l)"
  using CommitOnlineDeviceReport_wf [of l now reported]
  by (auto simp: limiter_inv_def limits_registered_def buckets_positive_def default_in_range_def
      CommitOnlineDeviceReport_def split: prod.splits)

lemma limiter_step_inv: "limiter_step mk l l' \<Longrightarrow> limiter_inv mk l \<Longrightarrow> limiter_inv mk l'"
  by (induction rule: limiter_step.induct)
    (auto intro: CheckLimit_inv UpdateUser_inv UpdateUserInfo_inv UpdateDynamicSpeedLimit_inv
      snapshot_inv default_inv commit_inv)

lemma new_limiter_inv: "limiter_inv mk (new_limiter nodetype tag users alive)"
  using new_limiter_wf [of nodetype tag users alive] limits_registered_new [of nodetype tag users alive]
  by (simp add: limiter_inv_def)
    (simp add: buckets_positive_def default_in_range_def new_limiter_def SetAliveList_def empty_limiter_def
      Let_def maxDefaultDeviceLimit_def)

section \<open>Alive snapshots\<close>

lemma normalize_alive_ips_load:
  "go_load (normalize_alive_ips ips) ip \<noteq> None \<longleftrightarrow>
   ip \<noteq> [] \<and> (\<exists>raw \<in> set ips. ip = TrimPrefix (TrimSpace raw) ''::ffff:'')"
proof -
  have "go_load (fold (\<lambda>ip m. let trimmed = TrimPrefix (TrimSpace ip) ''::ffff:''
                   in if trimmed = [] then m else go_store trimmed () m) ips m) ip \<noteq> None \<longleftrightarrow>
        go_load m ip \<noteq> None \<or> ip \<noteq> [] \<and> (\<exists>raw \<in> set ips. ip = TrimPrefix (TrimSpace raw) ''::ffff:'')" for m
    by (induction ips arbitrary: m) (auto simp: Let_def)
  from this [of "[]"] show ?thesis by (simp add: normalize_alive_ips_def)
qed

lemma normalize_alive_ips_Nil:
  "normalize_alive_ips ips = [] \<Longrightarrow> raw \<in> set ips \<Longrightarrow> TrimPrefix (TrimSpace raw) ''::ffff:'' = []"
  by (metis go_load_Nil normalize_alive_ips_load)

lemma alive_ip_sets_load:
  assumes "go_wf m"
  shows "go_load (alive_ip_sets m) uid =
     (case go_load m uid of
        None \<Rightarrow> None
      | Some ips \<Rightarrow> if uid \<le> 0 \<or> normalize_alive_ips ips = [] then None else Some (normalize_alive_ips ips))"
proof -
  let ?f = "\<lambda>e m. if fst e \<le> 0 then m
                  else let ipSet = normalize_alive_ips (snd e)
                       in if ipSet = [] then m else go_store (fst e) ipSet m"
  have "go_load (fold ?f xs acc) uid =
     (case go_load xs uid of
        None \<Rightarrow> go_load acc uid
      | Some ips \<Rightarrow> if uid \<le> 0 \<or> normalize_alive_ips ips = [] then go_load acc uid
                    else Some (normalize_alive_ips ips))" if "go_wf xs" for xs acc
    using that by (induction xs arbitrary: acc) (auto simp: Let_def split: option.splits if_splits)
  from this [OF assms, of "[]"] show ?thesis
    by (simp add: alive_ip_sets_def go_range_def split: option.splits)
qed

lemma hasGlobalAliveIP_snapshot:
  assumes "go_wf (am_AliveIPs s)"
  shows "hasGlobalAliveIP (SetAliveSnapshot now (Some s) l) uid ip \<longleftrightarrow>
     wrap32 (am_Mode s) = 1 \<and> 0 < uid \<and> ip \<noteq> [] \<and>
     (\<exists>ips raw. go_load (am_AliveIPs s) uid = Some ips \<and> raw \<in> set ips \<and> ip = TrimPrefix (TrimSpace raw) ''::ffff:'')"
  using normalize_alive_ips_load [of _ ip] normalize_alive_ips_Nil
  by (fastforce simp: hasGlobalAliveIP_def SetAliveSnapshot_def SetAliveList_def Let_def
      alive_ip_sets_load [OF assms] split: option.splits if_splits)

section \<open>Committing a report\<close>

text \<open>One commit step, seen from a single address of a single user entry.\<close>

definition reportable :: "OnlineUser \<Rightarrow> bool" where
  "reportable o' \<longleftrightarrow> 0 < ou_UID o' \<and> ou_IP o' \<noteq> [] \<and> ou_TagUUID o' \<noteq> []"

definition has_entry :: "(string, ip_map) go_map \<Rightarrow> string \<Rightarrow> string \<Rightarrow> int \<Rightarrow> bool" where
  "has_entry m t ip uid \<longleftrightarrow> (\<exists>ips. go_load m t = Some ips \<and> go_load ips ip = Some uid)"

lemma commit_online_entries:
  "has_entry (snd (commit_online now o' st)) t ip uid \<longleftrightarrow>
   has_entry (snd st) t ip uid \<and> \<not> (reportable o' \<and> t = ou_TagUUID o' \<and> ip = ou_IP o' \<and> uid = ou_UID o')"
  by (cases st)
    (auto simp: commit_online_def has_entry_def reportable_def Let_def dest: go_delete_NilD
      split: option.splits if_splits)

lemma fold_commit_entries:
  "has_entry (snd (fold (commit_online now) rs st)) t ip uid \<longleftrightarrow>
   has_entry (snd st) t ip uid \<and>
   \<not> (\<exists>o' \<in> set rs. reportable o' \<and> t = ou_TagUUID o' \<and> ip = ou_IP o' \<and> uid = ou_UID o')"
  by (induction rs arbitrary: st) (auto simp: commit_online_entries)

lemma commit_online_old:
  "go_load (fst (commit_online now o' st)) ip =
   (if 0 < ou_UID o' \<and> ou_IP o' \<noteq> [] \<and> ip = ou_IP o'
    then Some (OldEntry \<lparr>oe_UID = ou_UID o', oe_ReportedAt = now\<rparr>) else go_load (fst st) ip)"
  by (cases st) (auto simp: commit_online_def Let_def split: option.splits)

lemma fold_commit_old:
  "(\<forall>o' \<in> set rs. 0 < ou_UID o' \<and> ou_IP o' = ip \<and> ou_IP o' \<noteq> [] \<longrightarrow> ou_UID o' = uid) \<Longrightarrow>
   go_load (fst (fold (commit_online now) rs st)) ip =
   (if \<exists>o' \<in> set rs. 0 < ou_UID o' \<and> ou_IP o' = ip \<and> ip \<noteq> []
    then Some (OldEntry \<lparr>oe_UID = uid, oe_ReportedAt = now\<rparr>) else go_load (fst st) ip)"
proof (induction rs arbitrary: st)
  case Nil
  then show ?case by simp
next
  case (Cons a rs)
  from Cons.prems have "\<forall>o' \<in> set rs. 0 < ou_UID o' \<and> ou_IP o' = ip \<and> ou_IP o' \<noteq> [] \<longrightarrow> ou_UID o' = uid"
    by auto
  from Cons.IH [OF this, of "commit_online now a st"] Cons.prems show ?case
    by (auto simp: commit_online_old)
qed

lemma in_GetOnlineDevice_iff:
  assumes "limiter_wf l"
  shows "\<lparr>ou_UID = uid, ou_IP = ip, ou_TagUUID = t\<rparr> \<in> set (GetOnlineDevice l) \<longleftrightarrow>
         has_entry (lm_UserOnlineIP l) t ip uid"
proof -
  have wf: "go_wf (lm_UserOnlineIP l)" and wfi: "\<And>t m. go_load (lm_UserOnlineIP l) t = Some m \<Longrightarrow> go_wf m"
    using assms by (auto simp: limiter_wf_def)
  have "\<lparr>ou_UID = uid, ou_IP = ip, ou_TagUUID = t\<rparr> \<in> set (GetOnlineDevice l) \<longleftrightarrow>
        (\<exists>ips. (t, ips) \<in> set (go_range (lm_UserOnlineIP l)) \<and> (ip, uid) \<in> set (go_range ips))"
    by (force simp: GetOnlineDevice_def)
  then show ?thesis
    using in_range_iff [OF wf] wfi by (auto simp: has_entry_def in_range_iff)
qed

lemma commit_lm: "lm_UserOnlineIP (CommitOnlineDeviceReport now rs l) = snd (fold (commit_online now) rs ([], lm_UserOnlineIP l))"
  "lm_OldUserOnline (CommitOnlineDeviceReport now rs l) = fst (fold (commit_online now) rs ([], lm_UserOnlineIP l))"
  by (simp_all add: CommitOnlineDeviceReport_def split: prod.splits)

section \<open>A limiter for the worked examples\<close>

definition demo_user :: UserInfo where
  "demo_user = \<lparr>ui_Id = 7, ui_Uuid = ''u'', ui_SpeedLimit = 80, ui_DeviceLimit = 1\<rparr>"

definition demo_limiter :: "int Limiter" where
  "demo_limiter = new_limiter ''vless'' ''T'' [demo_user] None"

definition demo_bucket :: "int \<Rightarrow> int \<Rightarrow> int \<Rightarrow> int" where
  "demo_bucket fill capacity quantum = capacity"

lemma demo_limiter_wf: "limiter_wf demo_limiter"
  by (simp add: demo_limiter_def new_limiter_wf)

lemma demo_limiter_user: "go_load (lm_UserLimitInfo demo_limiter) ''T|u'' = Some (new_user_limit demo_user)"
  by code_simp

lemma demo_limiter_accepts:
  "CheckLimit demo_bucket 0 ''T|u'' ''10.0.0.1'' True demo_limiter =
     (demo_limiter\<lparr>lm_UserOnlineIP := [(''T|u'', [(''10.0.0.1'', 7)])],
                   lm_SpeedLimiter := [(''T|u'', 10000000)]\<rparr>, Some 10000000, False)"
  by code_simp

section \<open>Properties of the admission decision\<close>

text \<open>
  C4. \<open>CheckLimit\<close> rejects exactly the connections the specification rejects: those of a user
  the limiter does not know, and those whose source address is new and unknown while the user is
  at the device limit (on UDP-tracking protocols with one address of slack for roaming).
\<close>

theorem CheckLimit_rejects_iff:
  "snd (snd (CheckLimit mk now taguuid rawip noUDPsource l)) \<longleftrightarrow>
     (case go_load (lm_UserLimitInfo l) taguuid of
        None \<Rightarrow> True
      | Some u \<Rightarrow> device_rejected now l taguuid (TrimPrefix rawip ''::ffff:'') noUDPsource
                    (effective_device_limit (ul_DeviceLimit u) l) (ul_UID u))"
  by (cases "go_load (lm_UserLimitInfo l) taguuid")
    (simp_all add: CheckLimit_unknown_user CheckLimit_known_rejects device_limit_of_def)

text \<open>
  C5. The device limit is enforced: after an accepted connection of a user with a positive limit, the
  devices that count for the user (reported alive, recently reported here, and new addresses)
  do not exceed the limit, nor what they were before if that was more; a UDP-tracking protocol
  may exceed it by the one roaming address.
\<close>

theorem CheckLimit_device_cap:
  assumes "limiter_wf l" and "go_load (lm_UserLimitInfo l) taguuid = Some u"
    and "0 < effective_device_limit (ul_DeviceLimit u) l"
    and "CheckLimit mk now taguuid rawip noUDPsource l = (l', b, False)"
  shows "device_total now l' taguuid (ul_UID u) \<le>
     max (device_total now l taguuid (ul_UID u))
         (effective_device_limit (ul_DeviceLimit u) l + (if noUDPsource then 0 else 1))"
proof -
  from assms(4) obtain u' m l2 ulim where u': "go_load (lm_UserLimitInfo l) taguuid = Some u'"
    and m: "expiry_update taguuid u' (lm_UserLimitInfo l) m"
    and a': "admit_device now taguuid (TrimPrefix rawip ''::ffff:'') noUDPsource (device_limit_of l u') (ul_UID u')
       (l\<lparr>lm_UserLimitInfo := m\<rparr>) = (l2, False)"
    and b: "attach_bucket mk taguuid ulim l2 = (l', b)"
    by (rule CheckLimit_acceptE)
  from u' assms(2) have "u' = u" by simp
  note a = a' [unfolded this]
  have "limiter_wf (l\<lparr>lm_UserLimitInfo := m\<rparr>)" using assms(1) m by (auto simp: limiter_wf_def elim!: expiry_update.cases)
  from admit_device_total [OF this _ a] assms(3) attach_bucket_frame [OF b] show ?thesis
    by (metis device_limit_of_def device_total_update)
qed


theorem CheckLimit_device_cap_witness:
  "limiter_wf demo_limiter \<and> 0 < effective_device_limit (ul_DeviceLimit (new_user_limit demo_user)) demo_limiter \<and>
   device_total 0 (fst (CheckLimit demo_bucket 0 ''T|u'' ''10.0.0.1'' True demo_limiter)) ''T|u'' 7 \<le> 1"
proof -
  have dl: "effective_device_limit (ul_DeviceLimit (new_user_limit demo_user)) demo_limiter = 1" by code_simp
  have uid: "ul_UID (new_user_limit demo_user) = 7" and t: "device_total 0 demo_limiter ''T|u'' 7 = 0" by code_simp+
  show ?thesis
    using CheckLimit_device_cap [OF demo_limiter_wf demo_limiter_user _ demo_limiter_accepts]
      demo_limiter_wf dl uid t demo_limiter_accepts by simp
qed

text \<open>
  A rejected TCP connection leaves no trace: no address is recorded or evicted, no bucket is
  made, and every user's device count stays what it was.
\<close>

theorem CheckLimit_tcp_reject_frame:
  assumes "CheckLimit mk now taguuid rawip True l = (l', b, True)"
  shows "b = None \<and> lm_UserOnlineIP l' = lm_UserOnlineIP l \<and> lm_SpeedLimiter l' = lm_SpeedLimiter l \<and>
         lm_OldUserOnline l' = lm_OldUserOnline l \<and> lm_UUIDtoUID l' = lm_UUIDtoUID l \<and>
         (\<forall>t uid. device_total now l' t uid = device_total now l t uid)"
proof (cases "go_load (lm_UserLimitInfo l) taguuid")
  case None
  with assms show ?thesis by (simp add: CheckLimit_unknown_user)
next
  case (Some u)
  show ?thesis
  proof (rule CheckLimit_cases [OF Some, of now rawip True mk])
    fix m l2 r
    assume a: "admit_device now taguuid (TrimPrefix rawip ''::ffff:'') True (device_limit_of l u) (ul_UID u)
       (l\<lparr>lm_UserLimitInfo := m\<rparr>) = (l2, r)"
      and r: "r \<Longrightarrow> CheckLimit mk now taguuid rawip True l = (l2, None, True)"
      and n: "\<not> r \<Longrightarrow> \<exists>b ulim l3. attach_bucket mk taguuid ulim l2 = (l3, b) \<and> CheckLimit mk now taguuid rawip True l = (l3, b, False)"
    from n assms have "r" by auto
    with a have "l2 = l\<lparr>lm_UserLimitInfo := m\<rparr>"
      by (auto simp: admit_device_eq Let_def may_evict_def split: if_splits)
    with r \<open>r\<close> assms show ?thesis by auto
  qed
qed

theorem CheckLimit_tcp_reject_frame_witness:
  "(let l = fst (CheckLimit demo_bucket 0 ''T|u'' ''10.0.0.1'' True demo_limiter)
    in snd (snd (CheckLimit demo_bucket 0 ''T|u'' ''10.0.0.2'' True l)) \<and>
       lm_UserOnlineIP (fst (CheckLimit demo_bucket 0 ''T|u'' ''10.0.0.2'' True l)) = [(''T|u'', [(''10.0.0.1'', 7)])])"
proof -
  define l where "l = fst (CheckLimit demo_bucket 0 ''T|u'' ''10.0.0.1'' True demo_limiter)"
  have l: "lm_UserOnlineIP l = [(''T|u'', [(''10.0.0.1'', 7)])]" by (simp add: l_def demo_limiter_accepts)
  have rej: "snd (snd (CheckLimit demo_bucket 0 ''T|u'' ''10.0.0.2'' True l))" unfolding l_def by code_simp
  then obtain l' b where c: "CheckLimit demo_bucket 0 ''T|u'' ''10.0.0.2'' True l = (l', b, True)"
    by (metis prod.collapse)
  from CheckLimit_tcp_reject_frame [OF c] c l rej show ?thesis by (simp add: Let_def l_def [symmetric])
qed

text \<open>
  C18. An admitted address stays admitted: once a tracked connection was accepted, a later
  connection of the same user from the same address is accepted at any time and whatever other users and addresses
  count, as long as the user is still registered.
\<close>

theorem CheckLimit_readmits:
  assumes "CheckLimit mk now taguuid rawip noUDPsource l = (l', b, False)"
    and "noUDPsource \<or> tracksUDPSource l"
    and "go_load (lm_UserLimitInfo l') taguuid \<noteq> None"
  shows "\<not> snd (snd (CheckLimit mk later taguuid rawip noUDP' l'))"
proof -
  from assms(1) obtain u m l2 ulim where u: "go_load (lm_UserLimitInfo l) taguuid = Some u"
    and a: "admit_device now taguuid (TrimPrefix rawip ''::ffff:'') noUDPsource (device_limit_of l u) (ul_UID u)
       (l\<lparr>lm_UserLimitInfo := m\<rparr>) = (l2, False)"
    and b: "attach_bucket mk taguuid ulim l2 = (l', b)"
    by (rule CheckLimit_acceptE)
  from a assms(2) have "is_online l2 taguuid (TrimPrefix rawip ''::ffff:'')"
    by (auto simp: admit_device_eq Let_def is_online_map split: if_splits)
  then have "is_online l' taguuid (TrimPrefix rawip ''::ffff:'')"
    by (subst attach_bucket_frame [OF b]) simp
  with assms(3) show ?thesis
    by (auto simp: CheckLimit_known_rejects device_rejected_def)
qed

theorem CheckLimit_readmits_witness:
  "\<not> snd (snd (CheckLimit demo_bucket 5000000000 ''T|u'' ''10.0.0.1'' True
        (fst (CheckLimit demo_bucket 0 ''T|u'' ''10.0.0.1'' True demo_limiter))))"
proof -
  have "go_load (lm_UserLimitInfo demo_limiter) ''T|u'' \<noteq> None" by code_simp
  then show ?thesis
    using CheckLimit_readmits [OF demo_limiter_accepts, of 5000000000 True] by (simp add: demo_limiter_accepts)
qed

text \<open>
  C19. The lapse of a dynamic speed limit locks the user out: when a user without a static speed limit
  has an expired dynamic limit, the next connection removes the user's entry, and every connection
  after that is rejected until the user list is synchronised again.
\<close>

theorem expired_dynamic_limit_locks_out:
  assumes "go_load (lm_UserLimitInfo l) taguuid = Some u"
    and "ul_SpeedLimit u = 0" and "ul_ExpireTime u \<noteq> 0" and "ul_ExpireTime u < now div 1000000000"
    and "CheckLimit mk now taguuid rawip noUDPsource l = (l', b, rej)"
  shows "go_load (lm_UserLimitInfo l') taguuid = None \<and>
         snd (snd (CheckLimit mk later taguuid rawip' noUDP' l'))"
proof -
  define l1 where "l1 = l\<lparr>lm_UserLimitInfo := go_delete taguuid (lm_UserLimitInfo l)\<rparr>"
  have r: "resolve_limits now taguuid l = Some (l1, ul_DeviceLimit u, ul_UID u, 0)"
    using assms(1-4) by (simp add: resolve_limits_def l1_def)
  obtain l2 rej2 where a: "admit_device now taguuid (TrimPrefix rawip ''::ffff:'') noUDPsource
      (effective_device_limit (ul_DeviceLimit u) l1) (ul_UID u) l1 = (l2, rej2)" by fastforce
  have "go_load (lm_UserLimitInfo l2) taguuid = None"
    by (subst admit_device_frame [OF a]) (simp add: l1_def)
  with r a assms(5) have none: "go_load (lm_UserLimitInfo l') taguuid = None"
    by (auto simp: CheckLimit_def attach_bucket_def Let_def go_load_or_store_def split: if_splits prod.splits option.splits)
  then show ?thesis by (simp add: CheckLimit_unknown_user)
qed

definition demo_expired :: "int Limiter" where
  "demo_expired =
     (case UpdateDynamicSpeedLimit ''T'' ''v'' 20 100
             (new_limiter ''vless'' ''T'' [\<lparr>ui_Id = 8, ui_Uuid = ''v'', ui_SpeedLimit = 0, ui_DeviceLimit = 3\<rparr>] None) of
        Inr l \<Rightarrow> l | Inl e \<Rightarrow> demo_limiter)"

theorem expired_dynamic_limit_locks_out_witness:
  "\<not> snd (snd (CheckLimit demo_bucket 200000000000 ''T|v'' ''10.0.0.1'' True demo_expired)) \<and>
   snd (snd (CheckLimit demo_bucket 200000000001 ''T|v'' ''10.0.0.1'' True
        (fst (CheckLimit demo_bucket 200000000000 ''T|v'' ''10.0.0.1'' True demo_expired))))"
proof -
  have u: "go_load (lm_UserLimitInfo demo_expired) ''T|v'' =
      Some \<lparr>ul_UID = 8, ul_SpeedLimit = 0, ul_DeviceLimit = 3, ul_DynamicSpeedLimit = 20, ul_ExpireTime = 100, ul_OverLimit = False\<rparr>"
    by code_simp
  have "\<not> snd (snd (CheckLimit demo_bucket 200000000000 ''T|v'' ''10.0.0.1'' True demo_expired))" by code_simp
  moreover obtain l' b rej where c: "CheckLimit demo_bucket 200000000000 ''T|v'' ''10.0.0.1'' True demo_expired = (l', b, rej)"
    by (metis prod.collapse)
  ultimately show ?thesis
    using expired_dynamic_limit_locks_out [OF u _ _ _ c, of 200000000001 "''10.0.0.1''" True] by simp
qed

text \<open>
  C14. In every state a limiter reaches by connections, user synchronisation, alive snapshots and
  reports, in any order: its tables are well formed, every limit entry belongs to a registered user
  of the node, every token bucket was made with a positive fill rate and capacity, and the default device limit
  is within int32.
\<close>

theorem limiter_reachable_inv:
  assumes "limiter_reachable mk l"
  shows "limiter_inv mk l"
  using assms
proof (induction rule: limiter_reachable.induct)
  case (created nodetype tag users alive)
  show ?case by (rule new_limiter_inv)
next
  case (step l l')
  from step.hyps(2) step.IH show ?case by (rule limiter_step_inv)
qed

theorem limiter_reachable_inv_witness:
  "limiter_inv demo_bucket (fst (CheckLimit demo_bucket 0 ''T|u'' ''10.0.0.1'' True demo_limiter)) \<and>
   go_load (lm_SpeedLimiter (fst (CheckLimit demo_bucket 0 ''T|u'' ''10.0.0.1'' True demo_limiter))) ''T|u'' =
     Some (demo_bucket 1000000000 10000000 10000000)"
proof -
  have "limiter_reachable demo_bucket demo_limiter"
    unfolding demo_limiter_def by (rule limiter_reachable.created)
  then have "limiter_reachable demo_bucket (fst (CheckLimit demo_bucket 0 ''T|u'' ''10.0.0.1'' True demo_limiter))"
    by (rule limiter_reachable.step) (metis limiter_step.check prod.collapse)
  from limiter_reachable_inv [OF this] show ?thesis
    by (simp add: demo_limiter_accepts demo_bucket_def)
qed

text \<open>
  C15. The limiter refines a table of users: a new limiter holds the users it was created with;
  \<open>UpdateUser\<close> removes the deleted users and then adds the added ones (so that a user in both
  lists is present afterwards); \<open>UpdateUserInfo\<close> overrides entries; with duplicates, the last wins.
\<close>

theorem limiter_users_refine:
  "user_view (new_limiter nodetype tag users alive) = users_of users \<and>
   user_view (UpdateUser (lm_Tag l) added deleted l) = (user_view l |` (- ui_Uuid ` set deleted)) ++ users_of added \<and>
   user_view (UpdateUserInfo (lm_Tag l) updated l) = user_view l ++ users_of updated"
  by (simp add: user_view_new_limiter user_view_UpdateUser user_view_UpdateUserInfo)

text \<open>
  Committing the full report drains it: afterwards no device is left to report, and every
  reported address that was reported for one user only is known for that user, so its next
  connection does not count as a new device.
\<close>

theorem commit_drains_report:
  assumes "limiter_wf l"
    and "\<forall>o' \<in> set (GetOnlineDevice l). 0 < ou_UID o' \<and> ou_IP o' \<noteq> [] \<and> ou_TagUUID o' \<noteq> []"
  shows "GetOnlineDevice (CommitOnlineDeviceReport now (GetOnlineDevice l) l) = [] \<and>
    (\<forall>o' \<in> set (GetOnlineDevice l).
       (\<forall>p \<in> set (GetOnlineDevice l). ou_IP p = ou_IP o' \<longrightarrow> ou_UID p = ou_UID o') \<longrightarrow>
       isKnownAliveIP now (CommitOnlineDeviceReport now (GetOnlineDevice l) l) (ou_UID o') (ou_IP o'))"
proof
  let ?l' = "CommitOnlineDeviceReport now (GetOnlineDevice l) l"
  have wf': "limiter_wf ?l'" using assms(1) by (rule CommitOnlineDeviceReport_wf)
  have "\<not> has_entry (lm_UserOnlineIP ?l') t ip uid" for t ip uid
  proof
    assume "has_entry (lm_UserOnlineIP ?l') t ip uid"
    then have "has_entry (lm_UserOnlineIP l) t ip uid"
      and n: "\<not> (\<exists>o' \<in> set (GetOnlineDevice l). reportable o' \<and> t = ou_TagUUID o' \<and> ip = ou_IP o' \<and> uid = ou_UID o')"
      by (simp_all add: commit_lm fold_commit_entries)
    then have "\<lparr>ou_UID = uid, ou_IP = ip, ou_TagUUID = t\<rparr> \<in> set (GetOnlineDevice l)"
      using in_GetOnlineDevice_iff [OF assms(1)] by blast
    with n assms(2) show False by (force simp: reportable_def)
  qed
  then have "o' \<notin> set (GetOnlineDevice ?l')" for o'
    using in_GetOnlineDevice_iff [OF wf', of "ou_UID o'" "ou_IP o'" "ou_TagUUID o'"] by (cases o') simp
  then show "GetOnlineDevice ?l' = []" by (metis ex_in_conv set_empty)
next
  let ?l' = "CommitOnlineDeviceReport now (GetOnlineDevice l) l"
  show "\<forall>o' \<in> set (GetOnlineDevice l).
       (\<forall>p \<in> set (GetOnlineDevice l). ou_IP p = ou_IP o' \<longrightarrow> ou_UID p = ou_UID o') \<longrightarrow>
       isKnownAliveIP now ?l' (ou_UID o') (ou_IP o')"
  proof (intro ballI impI)
    fix o' assume o: "o' \<in> set (GetOnlineDevice l)"
      and u: "\<forall>p \<in> set (GetOnlineDevice l). ou_IP p = ou_IP o' \<longrightarrow> ou_UID p = ou_UID o'"
    have "go_load (lm_OldUserOnline ?l') (ou_IP o') = Some (OldEntry \<lparr>oe_UID = ou_UID o', oe_ReportedAt = now\<rparr>)"
    proof -
      have c: "\<forall>p \<in> set (GetOnlineDevice l). 0 < ou_UID p \<and> ou_IP p = ou_IP o' \<and> ou_IP p \<noteq> [] \<longrightarrow> ou_UID p = ou_UID o'"
        using u by blast
      have e: "\<exists>p \<in> set (GetOnlineDevice l). 0 < ou_UID p \<and> ou_IP p = ou_IP o' \<and> ou_IP o' \<noteq> []"
        using o assms(2) by blast
      from fold_commit_old [OF c, of now "([], lm_UserOnlineIP l)"] show ?thesis
        by (simp only: commit_lm if_P [OF e])
    qed
    then show "isKnownAliveIP now ?l' (ou_UID o') (ou_IP o')"
      by (simp add: isKnownAliveIP_def ownsOldIP_def old_online_entry_def isFreshOldOnlineEntry_def reportedAliveBridgeTTL_def)
  qed
qed

theorem commit_drains_report_witness:
  "(let l = fst (CheckLimit demo_bucket 0 ''T|u'' ''10.0.0.1'' True demo_limiter)
    in GetOnlineDevice l \<noteq> [] \<and> GetOnlineDevice (CommitOnlineDeviceReport 60 (GetOnlineDevice l) l) = [] \<and>
       isKnownAliveIP 60 (CommitOnlineDeviceReport 60 (GetOnlineDevice l) l) 7 ''10.0.0.1'')"
proof -
  define l where "l = fst (CheckLimit demo_bucket 0 ''T|u'' ''10.0.0.1'' True demo_limiter)"
  have on: "GetOnlineDevice l = [\<lparr>ou_UID = 7, ou_IP = ''10.0.0.1'', ou_TagUUID = ''T|u''\<rparr>]"
    unfolding l_def by code_simp
  have "limiter_wf l" unfolding l_def demo_limiter_accepts using CheckLimit_wf [OF demo_limiter_wf demo_limiter_accepts] by simp
  from commit_drains_report [OF this, of 60] on show ?thesis by (simp add: l_def [symmetric] Let_def)
qed

text \<open>
  After \<open>SetAliveSnapshot\<close> an address counts as globally alive for a user exactly when the panel
  works in IP mode and lists it for that (positive) user identifier, up to white space and the
  IPv4-mapped prefix; blank addresses never count.
\<close>

theorem SetAliveSnapshot_alive_iff:
  assumes "go_wf (am_AliveIPs s)"
  shows "hasGlobalAliveIP (SetAliveSnapshot now (Some s) l) uid ip \<longleftrightarrow>
     wrap32 (am_Mode s) = 1 \<and> 0 < uid \<and> ip \<noteq> [] \<and>
     (\<exists>ips raw. go_load (am_AliveIPs s) uid = Some ips \<and> raw \<in> set ips \<and> ip = TrimPrefix (TrimSpace raw) ''::ffff:'')"
  by (rule hasGlobalAliveIP_snapshot [OF assms])

theorem SetAliveSnapshot_alive_iff_witness:
  "hasGlobalAliveIP (SetAliveSnapshot 0 (Some \<lparr>am_Alive = [], am_AliveIPs = [(7, ['' ::ffff:1.2.3.4 ''])], am_Mode = 1\<rparr>)
     demo_limiter) 7 ''1.2.3.4''"
proof -
  have "go_wf (am_AliveIPs \<lparr>am_Alive = [], am_AliveIPs = [(7, ['' ::ffff:1.2.3.4 ''])], am_Mode = 1\<rparr>)" by simp
  from SetAliveSnapshot_alive_iff [OF this, of 0 demo_limiter 7 "''1.2.3.4''"] show ?thesis
    by (simp add: wrap32_def) code_simp
qed

end
