(* ===== verification/Traffic_Counter.thy ===== *)
theory Traffic_Counter
  imports Panel_Types
begin

text \<open>
  Byte counters per user (\<open>common/counter/traffic.go\<close>, \<open>common/counter/xraytraffic.go\<close>).
  A \<open>TrafficCounter\<close> maps user tags to pointers to \<open>TrafficStorage\<close>; connections keep the pointers
  they were given, so the storages live in a heap (a list indexed by address) beside the map.
  Every atomic operation of the source is one step here, and \<open>GetCounter\<close>, which performs two of
  them, is also given as the pair of its steps so that the race between two connections of the
  same user is a statement of the model.
\<close>

section \<open>Storages and their counters\<close>

record TrafficStorage =
  st_UpCounter :: int
  st_DownCounter :: int

record TrafficCounter =
  tc_heap :: "TrafficStorage list"
  tc_Counters :: "(string, nat) go_map"

definition zero_storage :: TrafficStorage where
  "zero_storage = \<lparr>st_UpCounter = 0, st_DownCounter = 0\<rparr>"

definition NewTrafficCounter :: TrafficCounter where
  "NewTrafficCounter = \<lparr>tc_heap = [], tc_Counters = []\<rparr>"

text \<open>Writing through a pointer; an address outside the heap cannot occur (\<open>counter_wf\<close>).\<close>

definition update_storage :: "nat \<Rightarrow> (TrafficStorage \<Rightarrow> TrafficStorage) \<Rightarrow> TrafficCounter \<Rightarrow> TrafficCounter" where
  "update_storage p f c =
     (if p < length (tc_heap c) then c\<lparr>tc_heap := (tc_heap c)[p := f (tc_heap c ! p)]\<rparr> else c)"

definition storage_at :: "TrafficCounter \<Rightarrow> nat \<Rightarrow> TrafficStorage" where
  "storage_at c p = (if p < length (tc_heap c) then tc_heap c ! p else zero_storage)"

text \<open>\<open>atomic.Int64\<close>: addition wraps around, \<open>Swap\<close> returns the previous value.\<close>

definition add_up :: "int \<Rightarrow> TrafficStorage \<Rightarrow> TrafficStorage" where
  "add_up n s = s\<lparr>st_UpCounter := wrap64 (st_UpCounter s + n)\<rparr>"

definition add_down :: "int \<Rightarrow> TrafficStorage \<Rightarrow> TrafficStorage" where
  "add_down n s = s\<lparr>st_DownCounter := wrap64 (st_DownCounter s + n)\<rparr>"

section \<open>The methods of TrafficCounter\<close>

text \<open>The second half of \<open>GetCounter\<close>: allocate a fresh storage, then \<open>LoadOrStore\<close> it.\<close>

definition get_counter_slow :: "string \<Rightarrow> TrafficCounter \<Rightarrow> nat \<times> TrafficCounter" where
  "get_counter_slow uuid c =
     (let newStorage = length (tc_heap c);
          c1 = c\<lparr>tc_heap := tc_heap c @ [zero_storage]\<rparr>;
          (cts, loaded, m) = go_load_or_store uuid newStorage (tc_Counters c1)
      in if loaded then (cts, c1) else (newStorage, c1\<lparr>tc_Counters := m\<rparr>))"

definition GetCounter :: "string \<Rightarrow> TrafficCounter \<Rightarrow> nat \<times> TrafficCounter" where
  "GetCounter uuid c =
     (case go_load (tc_Counters c) uuid of
        Some cts \<Rightarrow> (cts, c)
      | None \<Rightarrow> get_counter_slow uuid c)"

definition GetUpCount :: "TrafficCounter \<Rightarrow> string \<Rightarrow> int" where
  "GetUpCount c uuid =
     (case go_load (tc_Counters c) uuid of
        Some cts \<Rightarrow> st_UpCounter (storage_at c cts)
      | None \<Rightarrow> 0)"

definition GetDownCount :: "TrafficCounter \<Rightarrow> string \<Rightarrow> int" where
  "GetDownCount c uuid =
     (case go_load (tc_Counters c) uuid of
        Some cts \<Rightarrow> st_DownCounter (storage_at c cts)
      | None \<Rightarrow> 0)"

definition counter_len :: "TrafficCounter \<Rightarrow> int" where
  "counter_len c = fold (\<lambda>_ n. n + 1) (go_range (tc_Counters c)) 0"

definition counter_reset :: "string \<Rightarrow> TrafficCounter \<Rightarrow> TrafficCounter" where
  "counter_reset uuid c =
     (case go_load (tc_Counters c) uuid of
        Some cts \<Rightarrow>
          update_storage cts (\<lambda>s. s\<lparr>st_DownCounter := 0\<rparr>)
            (update_storage cts (\<lambda>s. s\<lparr>st_UpCounter := 0\<rparr>) c)
      | None \<Rightarrow> c)"

definition counter_delete :: "string \<Rightarrow> TrafficCounter \<Rightarrow> TrafficCounter" where
  "counter_delete uuid c = c\<lparr>tc_Counters := go_delete uuid (tc_Counters c)\<rparr>"

definition Rx :: "string \<Rightarrow> int \<Rightarrow> TrafficCounter \<Rightarrow> TrafficCounter" where
  "Rx uuid n c = (let (cts, c1) = GetCounter uuid c in update_storage cts (add_down n) c1)"

definition Tx :: "string \<Rightarrow> int \<Rightarrow> TrafficCounter \<Rightarrow> TrafficCounter" where
  "Tx uuid n c = (let (cts, c1) = GetCounter uuid c in update_storage cts (add_up n) c1)"

section \<open>The counter handed to the Xray pipeline\<close>

text \<open>\<open>XrayTrafficCounter.V\<close> points at one of the two numbers of a storage.\<close>

datatype counter_ref = UpRef nat | DownRef nat

fun XrayTrafficCounter_Value :: "counter_ref \<Rightarrow> TrafficCounter \<Rightarrow> int" where
  "XrayTrafficCounter_Value (UpRef p) c = st_UpCounter (storage_at c p)"
| "XrayTrafficCounter_Value (DownRef p) c = st_DownCounter (storage_at c p)"

fun counter_write :: "counter_ref \<Rightarrow> int \<Rightarrow> TrafficCounter \<Rightarrow> TrafficCounter" where
  "counter_write (UpRef p) v c = update_storage p (\<lambda>s. s\<lparr>st_UpCounter := v\<rparr>) c"
| "counter_write (DownRef p) v c = update_storage p (\<lambda>s. s\<lparr>st_DownCounter := v\<rparr>) c"

definition XrayTrafficCounter_Set :: "counter_ref \<Rightarrow> int \<Rightarrow> TrafficCounter \<Rightarrow> int \<times> TrafficCounter" where
  "XrayTrafficCounter_Set r newValue c = (XrayTrafficCounter_Value r c, counter_write r newValue c)"

definition XrayTrafficCounter_Add :: "counter_ref \<Rightarrow> int \<Rightarrow> TrafficCounter \<Rightarrow> int \<times> TrafficCounter" where
  "XrayTrafficCounter_Add r delta c =
     (let v = wrap64 (XrayTrafficCounter_Value r c + delta) in (v, counter_write r v c))"

section \<open>Well-formed counters\<close>

definition counter_wf :: "TrafficCounter \<Rightarrow> bool" where
  "counter_wf c \<longleftrightarrow>
     go_wf (tc_Counters c) \<and> distinct (map snd (tc_Counters c)) \<and>
     list_all (\<lambda>e. snd e < length (tc_heap c)) (tc_Counters c) \<and>
     list_all (\<lambda>s. in_int64 (st_UpCounter s) \<and> in_int64 (st_DownCounter s)) (tc_heap c)"

lemma counter_wf_load: "counter_wf c \<Longrightarrow> go_load (tc_Counters c) u = Some p \<Longrightarrow> p < length (tc_heap c)"
  by (auto simp: counter_wf_def list_all_iff dest!: go_load_Some_in)

lemma counter_wf_inj:
  assumes "counter_wf c" "go_load (tc_Counters c) u = Some p" "go_load (tc_Counters c) v = Some p"
  shows "u = v"
proof -
  have "(u, p) \<in> set (tc_Counters c)" "(v, p) \<in> set (tc_Counters c)"
    using assms by (auto dest: go_load_Some_in)
  moreover have "inj_on snd (set (tc_Counters c))"
    using assms(1) by (simp add: counter_wf_def distinct_map)
  ultimately show ?thesis by (metis inj_onD prod.inject snd_conv)
qed

lemma in_int64_0 [simp]: "in_int64 0"
  by (simp add: in_int64_def)

lemma counter_wf_new [simp]: "counter_wf NewTrafficCounter"
  by (simp add: counter_wf_def NewTrafficCounter_def)

lemma counters_update_storage [simp]: "tc_Counters (update_storage p f c) = tc_Counters c"
  by (simp add: update_storage_def)

lemma length_heap_update [simp]: "length (tc_heap (update_storage p f c)) = length (tc_heap c)"
  by (simp add: update_storage_def)

lemma storage_at_update [simp]:
  "storage_at (update_storage p f c) q =
     (if q = p \<and> p < length (tc_heap c) then f (storage_at c p) else storage_at c q)"
  by (simp add: update_storage_def storage_at_def)

definition storage_ok :: "TrafficStorage \<Rightarrow> bool" where
  "storage_ok s \<longleftrightarrow> in_int64 (st_UpCounter s) \<and> in_int64 (st_DownCounter s)"

lemma counter_wf_update_storage:
  assumes "counter_wf c" and f: "\<And>s. storage_ok s \<Longrightarrow> storage_ok (f s)"
  shows "counter_wf (update_storage p f c)"
proof -
  have h: "\<forall>s \<in> set (tc_heap c). storage_ok s"
    using assms(1) by (simp add: counter_wf_def list_all_iff storage_ok_def)
  have "\<forall>s \<in> set (tc_heap (update_storage p f c)). storage_ok s"
  proof (cases "p < length (tc_heap c)")
    case True
    then have "storage_ok (f (tc_heap c ! p))" using h by (intro f) simp
    then show ?thesis
      using h True set_update_subset_insert [of "tc_heap c" p "f (tc_heap c ! p)"]
      by (auto simp: update_storage_def)
  qed (use h in \<open>simp add: update_storage_def\<close>)
  then show ?thesis using assms(1) by (simp add: counter_wf_def list_all_iff storage_ok_def)
qed

lemma storage_ok_ops [simp]:
  "storage_ok s \<Longrightarrow> storage_ok (add_up n s)"
  "storage_ok s \<Longrightarrow> storage_ok (add_down n s)"
  "storage_ok s \<Longrightarrow> storage_ok (s\<lparr>st_UpCounter := wrap64 v\<rparr>)"
  "storage_ok s \<Longrightarrow> storage_ok (s\<lparr>st_DownCounter := wrap64 v\<rparr>)"
  "storage_ok s \<Longrightarrow> storage_ok (s\<lparr>st_UpCounter := 0\<rparr>)"
  "storage_ok s \<Longrightarrow> storage_ok (s\<lparr>st_DownCounter := 0\<rparr>)"
  by (simp_all add: storage_ok_def add_up_def add_down_def)

lemma storage_at_ok: "counter_wf c \<Longrightarrow> storage_ok (storage_at c p)"
  by (simp add: counter_wf_def storage_at_def storage_ok_def list_all_iff zero_storage_def)

lemma counter_wf_alloc:
  "counter_wf c \<Longrightarrow> counter_wf (c\<lparr>tc_heap := tc_heap c @ [zero_storage]\<rparr>)"
  by (auto simp: counter_wf_def list_all_iff zero_storage_def)

lemma get_counter_slow_eq:
  "get_counter_slow u c =
     (case go_load (tc_Counters c) u of
        Some p \<Rightarrow> (p, c\<lparr>tc_heap := tc_heap c @ [zero_storage]\<rparr>)
      | None \<Rightarrow> (length (tc_heap c),
                 c\<lparr>tc_heap := tc_heap c @ [zero_storage],
                   tc_Counters := go_store u (length (tc_heap c)) (tc_Counters c)\<rparr>))"
  by (simp add: get_counter_slow_def go_load_or_store_def Let_def split: option.splits)

lemma counter_wf_bind:
  assumes wf: "counter_wf c" and new: "go_load (tc_Counters c) u = None"
  shows "counter_wf (c\<lparr>tc_heap := tc_heap c @ [zero_storage],
           tc_Counters := go_store u (length (tc_heap c)) (tc_Counters c)\<rparr>)"
proof -
  have lt: "\<forall>e \<in> set (tc_Counters c). snd e < length (tc_heap c)"
    using wf by (simp add: counter_wf_def list_all_iff)
  then have "length (tc_heap c) \<notin> snd ` set (tc_Counters c)" by fastforce
  with wf new lt show ?thesis
    by (auto simp: counter_wf_def go_store_new list_all_iff zero_storage_def go_wf_def go_load_None_iff)
qed

lemma counter_wf_slow: "counter_wf c \<Longrightarrow> counter_wf (snd (get_counter_slow u c))"
  by (auto simp: get_counter_slow_eq counter_wf_bind counter_wf_alloc split: option.splits)

lemma counter_wf_GetCounter: "counter_wf c \<Longrightarrow> counter_wf (snd (GetCounter u c))"
  by (auto simp: GetCounter_def counter_wf_slow split: option.splits)

lemma counter_wf_delete: "counter_wf c \<Longrightarrow> counter_wf (counter_delete u c)"
  by (auto simp: counter_wf_def counter_delete_def go_delete_filter distinct_map_filter list_all_iff go_wf_def)

lemma counter_wf_reset: "counter_wf c \<Longrightarrow> counter_wf (counter_reset u c)"
  by (auto simp: counter_reset_def counter_wf_update_storage split: option.splits)

lemma counter_wf_Rx: "counter_wf c \<Longrightarrow> counter_wf (Rx u n c)"
  using counter_wf_GetCounter [of c u] by (auto simp: Rx_def counter_wf_update_storage split: prod.splits)

lemma counter_wf_Tx: "counter_wf c \<Longrightarrow> counter_wf (Tx u n c)"
  using counter_wf_GetCounter [of c u] by (auto simp: Tx_def counter_wf_update_storage split: prod.splits)

section \<open>What the counters show\<close>

lemma storage_at_append [simp]:
  "storage_at (c\<lparr>tc_heap := tc_heap c @ [zero_storage]\<rparr>) p = storage_at c p"
  by (simp add: storage_at_def nth_append zero_storage_def)

lemma storage_at_counters [simp]: "storage_at (c\<lparr>tc_Counters := m\<rparr>) p = storage_at c p"
  by (simp add: storage_at_def)

lemma storage_at_heap_append [simp]:
  "storage_at (c\<lparr>tc_heap := tc_heap c @ [zero_storage], tc_Counters := m\<rparr>) p = storage_at c p"
  by (simp add: storage_at_def nth_append zero_storage_def)

lemma storage_at_fresh [simp]: "length (tc_heap c) \<le> p \<Longrightarrow> storage_at c p = zero_storage"
  by (simp add: storage_at_def)

text \<open>\<open>GetCounter\<close> binds the user and changes no number anybody can read.\<close>

lemma GetCounter_spec:
  assumes "counter_wf c" and "GetCounter u c = (p, c')"
  shows "go_load (tc_Counters c') = (go_load (tc_Counters c))(u \<mapsto> p)"
    and "\<And>q. storage_at c' q = storage_at c q"
    and "p < length (tc_heap c')"
    and "go_load (tc_Counters c) u = None \<Longrightarrow> storage_at c' p = zero_storage"
  using assms counter_wf_load [OF assms(1), of u]
  by (auto simp: GetCounter_def get_counter_slow_eq fun_eq_iff split: option.splits)

lemma GetCounter_bound:
  "GetCounter u c = (p, c') \<Longrightarrow> go_load (tc_Counters c) u = Some q \<Longrightarrow> p = q"
  by (simp add: GetCounter_def)

lemma counts_GetCounter:
  assumes "counter_wf c" and g: "GetCounter u c = (p, c')"
  shows "GetUpCount c' v = GetUpCount c v" and "GetDownCount c' v = GetDownCount c v"
proof -
  note s = GetCounter_spec [OF assms]
  have "GetUpCount c' v = GetUpCount c v \<and> GetDownCount c' v = GetDownCount c v"
  proof (cases "v = u")
    case True
    show ?thesis
    proof (cases "go_load (tc_Counters c) u")
      case None
      with s(4) show ?thesis unfolding True GetUpCount_def GetDownCount_def s(1) by (simp add: zero_storage_def)
    next
      case (Some q)
      with GetCounter_bound [OF g Some] show ?thesis
        unfolding True GetUpCount_def GetDownCount_def s(1) s(2) by simp
    qed
  next
    case False
    then show ?thesis unfolding GetUpCount_def GetDownCount_def s(1) s(2) by simp
  qed
  then show "GetUpCount c' v = GetUpCount c v" and "GetDownCount c' v = GetDownCount c v" by auto
qed

lemma count_update_storage:
  assumes wf: "counter_wf c" and u: "go_load (tc_Counters c) u = Some p"
  shows "GetUpCount (update_storage p f c) v =
           (if v = u then st_UpCounter (f (storage_at c p)) else GetUpCount c v)"
    and "GetDownCount (update_storage p f c) v =
           (if v = u then st_DownCounter (f (storage_at c p)) else GetDownCount c v)"
proof -
  have other: "q \<noteq> p" if "v \<noteq> u" "go_load (tc_Counters c) v = Some q" for q
    using counter_wf_inj [OF wf u] that by metis
  show "GetUpCount (update_storage p f c) v =
           (if v = u then st_UpCounter (f (storage_at c p)) else GetUpCount c v)"
    and "GetDownCount (update_storage p f c) v =
           (if v = u then st_DownCounter (f (storage_at c p)) else GetDownCount c v)"
    using other u counter_wf_load [OF wf u]
    by (simp_all add: GetUpCount_def GetDownCount_def split: option.split)
qed

lemma Tx_counts:
  assumes wf: "counter_wf c"
  shows "GetUpCount (Tx u n c) v = (if v = u then wrap64 (GetUpCount c u + n) else GetUpCount c v)"
    and "GetDownCount (Tx u n c) v = GetDownCount c v"
proof -
  obtain p c' where g: "GetCounter u c = (p, c')" by (cases "GetCounter u c")
  have wf': "counter_wf c'" using counter_wf_GetCounter [OF wf, of u] g by simp
  have l: "go_load (tc_Counters c') u = Some p" using GetCounter_spec(1) [OF wf g] by simp
  note up = counts_GetCounter(1) [OF wf g] and down = counts_GetCounter(2) [OF wf g]
  have "st_UpCounter (storage_at c' p) = GetUpCount c u" "st_DownCounter (storage_at c' p) = GetDownCount c u"
    using up [of u] down [of u] by (simp_all add: GetUpCount_def GetDownCount_def l)
  then show "GetUpCount (Tx u n c) v = (if v = u then wrap64 (GetUpCount c u + n) else GetUpCount c v)"
    and "GetDownCount (Tx u n c) v = GetDownCount c v"
    by (simp_all add: Tx_def g count_update_storage [OF wf' l] add_up_def up down)
qed

lemma Rx_counts:
  assumes wf: "counter_wf c"
  shows "GetDownCount (Rx u n c) v = (if v = u then wrap64 (GetDownCount c u + n) else GetDownCount c v)"
    and "GetUpCount (Rx u n c) v = GetUpCount c v"
proof -
  obtain p c' where g: "GetCounter u c = (p, c')" by (cases "GetCounter u c")
  have wf': "counter_wf c'" using counter_wf_GetCounter [OF wf, of u] g by simp
  have l: "go_load (tc_Counters c') u = Some p" using GetCounter_spec(1) [OF wf g] by simp
  note up = counts_GetCounter(1) [OF wf g] and down = counts_GetCounter(2) [OF wf g]
  have "st_UpCounter (storage_at c' p) = GetUpCount c u" "st_DownCounter (storage_at c' p) = GetDownCount c u"
    using up [of u] down [of u] by (simp_all add: GetUpCount_def GetDownCount_def l)
  then show "GetDownCount (Rx u n c) v = (if v = u then wrap64 (GetDownCount c u + n) else GetDownCount c v)"
    and "GetUpCount (Rx u n c) v = GetUpCount c v"
    by (simp_all add: Rx_def g count_update_storage [OF wf' l] add_down_def up down)
qed

lemma GetUpCount_in_int64: "counter_wf c \<Longrightarrow> in_int64 (GetUpCount c u)"
  by (auto simp: GetUpCount_def storage_at_ok [unfolded storage_ok_def] split: option.splits)

lemma GetDownCount_in_int64: "counter_wf c \<Longrightarrow> in_int64 (GetDownCount c u)"
  by (auto simp: GetDownCount_def storage_at_ok [unfolded storage_ok_def] split: option.splits)

section \<open>Runs of the traffic counter\<close>

text \<open>What connections do to a counter between two reports.\<close>

datatype traffic_event = TxEv string int | RxEv string int | BindEv string

fun traffic_event_step :: "traffic_event \<Rightarrow> TrafficCounter \<Rightarrow> TrafficCounter" where
  "traffic_event_step (TxEv u n) c = Tx u n c"
| "traffic_event_step (RxEv u n) c = Rx u n c"
| "traffic_event_step (BindEv u) c = snd (get_counter_slow u c)"

fun up_bytes :: "string \<Rightarrow> traffic_event list \<Rightarrow> int" where
  "up_bytes u [] = 0"
| "up_bytes u (TxEv v n # es) = (if v = u then n else 0) + up_bytes u es"
| "up_bytes u (_ # es) = up_bytes u es"

fun down_bytes :: "string \<Rightarrow> traffic_event list \<Rightarrow> int" where
  "down_bytes u [] = 0"
| "down_bytes u (RxEv v n # es) = (if v = u then n else 0) + down_bytes u es"
| "down_bytes u (_ # es) = down_bytes u es"

lemma traffic_event_step_wf: "counter_wf c \<Longrightarrow> counter_wf (traffic_event_step e c)"
  by (cases e) (simp_all add: counter_wf_Tx counter_wf_Rx counter_wf_slow)

lemma counts_slow:
  assumes "counter_wf c"
  shows "GetUpCount (snd (get_counter_slow u c)) v = GetUpCount c v"
    and "GetDownCount (snd (get_counter_slow u c)) v = GetDownCount c v"
proof -
  have "GetUpCount (snd (get_counter_slow u c)) v = GetUpCount c v \<and>
        GetDownCount (snd (get_counter_slow u c)) v = GetDownCount c v"
  proof (cases "go_load (tc_Counters c) u")
    case None
    then have "get_counter_slow u c = GetCounter u c" by (simp add: GetCounter_def)
    then show ?thesis using counts_GetCounter [OF assms] by (metis prod.collapse)
  next
    case (Some p)
    then show ?thesis by (simp add: get_counter_slow_eq GetUpCount_def GetDownCount_def split: option.splits)
  qed
  then show "GetUpCount (snd (get_counter_slow u c)) v = GetUpCount c v"
    and "GetDownCount (snd (get_counter_slow u c)) v = GetDownCount c v" by auto
qed

lemma traffic_event_up:
  "counter_wf c \<Longrightarrow> GetUpCount (traffic_event_step e c) u = wrap64 (GetUpCount c u + up_bytes u [e])"
  by (cases e) (simp_all add: Tx_counts Rx_counts counts_slow GetUpCount_in_int64)

lemma traffic_event_down:
  "counter_wf c \<Longrightarrow> GetDownCount (traffic_event_step e c) u = wrap64 (GetDownCount c u + down_bytes u [e])"
  by (cases e) (simp_all add: Tx_counts Rx_counts counts_slow GetDownCount_in_int64)

lemma up_bytes_Cons: "up_bytes u (e # es) = up_bytes u [e] + up_bytes u es"
  by (cases e) simp_all

lemma down_bytes_Cons: "down_bytes u (e # es) = down_bytes u [e] + down_bytes u es"
  by (cases e) simp_all

lemma run_counts:
  assumes "counter_wf c"
  shows "GetUpCount (fold traffic_event_step es c) u = wrap64 (GetUpCount c u + up_bytes u es) \<and>
         GetDownCount (fold traffic_event_step es c) u = wrap64 (GetDownCount c u + down_bytes u es)"
  using assms
proof (induction es arbitrary: c)
  case Nil
  then show ?case by (simp add: GetUpCount_in_int64 GetDownCount_in_int64)
next
  case (Cons e es)
  show ?case
    by (simp add: Cons.IH traffic_event_step_wf Cons.prems traffic_event_up traffic_event_down
        wrap64_add_left up_bytes_Cons [of u e es] down_bytes_Cons [of u e es] add.assoc
        del: up_bytes.simps down_bytes.simps)
qed

text \<open>A binding, once made, stays until the user is deleted.\<close>

lemma slow_keeps_binding:
  "go_load (tc_Counters c) u = Some p \<Longrightarrow> go_load (tc_Counters (snd (get_counter_slow v c))) u = Some p"
  by (auto simp: get_counter_slow_eq split: option.splits)

lemma GetCounter_keeps_binding:
  "go_load (tc_Counters c) u = Some p \<Longrightarrow> go_load (tc_Counters (snd (GetCounter v c))) u = Some p"
  by (auto simp: GetCounter_def slow_keeps_binding split: option.splits)

lemma event_keeps_binding:
  assumes "go_load (tc_Counters c) u = Some p"
  shows "go_load (tc_Counters (traffic_event_step e c)) u = Some p"
proof (cases e)
  case (TxEv v n)
  then show ?thesis using GetCounter_keeps_binding [OF assms, of v] by (simp add: Tx_def split_beta)
next
  case (RxEv v n)
  then show ?thesis using GetCounter_keeps_binding [OF assms, of v] by (simp add: Rx_def split_beta)
next
  case (BindEv v)
  then show ?thesis by (simp add: slow_keeps_binding [OF assms])
qed

lemma run_keeps_binding:
  "go_load (tc_Counters c) u = Some p \<Longrightarrow> go_load (tc_Counters (fold traffic_event_step es c)) u = Some p"
  by (induction es arbitrary: c) (simp_all add: event_keeps_binding)

lemma slow_binds: "go_load (tc_Counters (snd (get_counter_slow u c))) u = Some (fst (get_counter_slow u c))"
  by (simp add: get_counter_slow_eq split: option.splits)

section \<open>Properties\<close>

text \<open>
  C20. Whatever the interleaving of uploads, downloads and first connections, the counters of a user
  end at their initial value plus the bytes of exactly that user's events, in 64-bit
  arithmetic: no byte is lost or booked on another user.
\<close>

theorem counter_run_conserves:
  assumes "counter_wf c"
  shows "GetUpCount (fold traffic_event_step es c) u = wrap64 (GetUpCount c u + up_bytes u es) \<and>
         GetDownCount (fold traffic_event_step es c) u = wrap64 (GetDownCount c u + down_bytes u es)"
  by (rule run_counts [OF assms])

theorem counter_run_conserves_witness:
  "GetUpCount (fold traffic_event_step [TxEv ''a'' 5, BindEv ''b'', RxEv ''a'' 7, TxEv ''a'' 2] NewTrafficCounter) ''a'' = 7
   \<and> GetDownCount (fold traffic_event_step [TxEv ''a'' 5, BindEv ''b'', RxEv ''a'' 7, TxEv ''a'' 2] NewTrafficCounter) ''a'' = 7"
  using counter_run_conserves [OF counter_wf_new, of "[TxEv ''a'' 5, BindEv ''b'', RxEv ''a'' 7, TxEv ''a'' 2]" "''a''"]
  by (simp add: GetUpCount_def GetDownCount_def NewTrafficCounter_def wrap64_def)

text \<open>
  Two connections of one user that both miss the first lookup race on the insertion. The one that
  comes second, after any activity of others, is given the storage the first one inserted, so
  both count into the same numbers.
\<close>

theorem GetCounter_race:
  "fst (get_counter_slow u (fold traffic_event_step es (snd (get_counter_slow u c)))) = fst (get_counter_slow u c)"
  using run_keeps_binding [OF slow_binds, of es u c] by (simp add: get_counter_slow_eq)

end
