(* ===== verification/Sniffing.thy ===== *)
theory Sniffing
  imports Go_Map
begin

text \<open>
  Protocol sniffing of a new connection (\<open>core/app/dispatcher/sniffer.go\<close>,
  \<open>core/app/dispatcher/fakednssniffer.go\<close>, and of \<open>core/app/dispatcher/default.go\<close> the
  caching reader, the \<open>sniffer\<close> loop and \<open>shouldOverride\<close>). The protocol recognisers of
  Xray (HTTP, TLS, BitTorrent, QUIC, uTP), its fake-DNS engine and the regular
  expression engine are arguments. The reader below the cache is the list of the results its successive
  reads give; a round of the sniffing loop also takes the state of the context and the time the
  read took from a list.
\<close>

section \<open>Results and errors\<close>

datatype sniff_error =
    ErrNoClue | ErrProtoNeedMoreData | errUnknownContent | errSniffingTimeout | OtherSniffError string

text \<open>
  A result of one of Xray's recognisers carries a protocol and a domain; the other two
  constructors and the composite are the result types of this package.
\<close>

datatype SniffResult =
    PlainResult string string
  | fakeDNSSniffResult string
  | DNSThenOthersSniffResult string string
  | compositeResult SniffResult SniffResult

fun Protocol :: "SniffResult \<Rightarrow> string" where
  "Protocol (PlainResult p d) = p"
| "Protocol (fakeDNSSniffResult d) = ''fakedns''"
| "Protocol (DNSThenOthersSniffResult d orig) = ''fakedns+others''"
| "Protocol (compositeResult domainResult protocolResult) = Protocol protocolResult"

fun Domain :: "SniffResult \<Rightarrow> string" where
  "Domain (PlainResult p d) = d"
| "Domain (fakeDNSSniffResult d) = d"
| "Domain (DNSThenOthersSniffResult d orig) = d"
| "Domain (compositeResult domainResult protocolResult) = Domain domainResult"

text \<open>The optional methods: \<open>None\<close> when the dynamic type does not have the method.\<close>

fun ProtocolForDomainResult :: "SniffResult \<Rightarrow> string option" where
  "ProtocolForDomainResult (compositeResult domainResult protocolResult) = Some (Protocol domainResult)"
| "ProtocolForDomainResult _ = None"

fun IsProtoSubsetOf :: "SniffResult \<Rightarrow> string \<Rightarrow> bool option" where
  "IsProtoSubsetOf (DNSThenOthersSniffResult d orig) protocolName = Some (HasPrefix protocolName orig)"
| "IsProtoSubsetOf _ protocolName = None"

type_synonym sniff_outcome = "SniffResult option \<times> sniff_error option"

section \<open>The sniffer\<close>

datatype network = Network_Unknown | Network_TCP | Network_UDP | Network_UNIX

text \<open>A recogniser takes the payload, \<open>None\<close> being the nil slice of the metadata pass.\<close>

type_synonym protocolSniffer = "string option \<Rightarrow> sniff_outcome"

record protocolSnifferWithMetadata =
  ps_protocolSniffer :: protocolSniffer
  ps_metadataSniffer :: bool
  ps_network :: network

type_synonym Sniffer = "protocolSnifferWithMetadata list"

text \<open>
  The fake-DNS engine: its reverse lookup, and the pool test of engines that also
  implement \<open>FakeDNSEngineRev0\<close>. The target of the outbound comes with its network.
\<close>

record fake_dns_engine =
  fe_GetDomainFromFakeDNS :: "string \<Rightarrow> string"
  fe_IsIPInIPPool :: "(string \<Rightarrow> bool) option"

record sniff_target =
  sg_Network :: network
  sg_Address :: string

text \<open>
  The recogniser of \<open>newFakeDNSSniffer\<close>. Its second result is what it writes to the
  \<open>addressInRange\<close> option when the context carries one.
\<close>

definition fake_dns_sniff :: "fake_dns_engine \<Rightarrow> sniff_target \<Rightarrow> bool \<Rightarrow> sniff_outcome \<times> bool option" where
  "fake_dns_sniff engine target has_opt =
     (let domain = fe_GetDomainFromFakeDNS engine (sg_Address target)
      in if (sg_Network target = Network_TCP \<or> sg_Network target = Network_UDP) \<and> domain \<noteq> []
         then ((Some (fakeDNSSniffResult domain), None), None)
         else ((None, Some ErrNoClue),
               if has_opt then map_option (\<lambda>inPool. inPool (sg_Address target)) (fe_IsIPInIPPool engine)
               else None))"

definition newFakeDNSSniffer :: "fake_dns_engine \<Rightarrow> sniff_target \<Rightarrow> protocolSnifferWithMetadata" where
  "newFakeDNSSniffer engine target =
     \<lparr>ps_protocolSniffer = (\<lambda>_. fst (fake_dns_sniff engine target False)),
      ps_metadataSniffer = True, ps_network = Network_Unknown\<rparr>"

text \<open>The first of the other recognisers that reports no error (a nil result there is a crash in the source).\<close>

fun first_other :: "string option \<Rightarrow> Sniffer \<Rightarrow> sniff_outcome" where
  "first_other bytes [] = (None, Some ErrNoClue)"
| "first_other bytes (v # others) =
     (if ps_metadataSniffer v \<or> bytes \<noteq> None then
        (case ps_protocolSniffer v bytes of
           (Some r, None) \<Rightarrow> (Some (DNSThenOthersSniffResult (Domain r) (Protocol r)), None)
         | _ \<Rightarrow> first_other bytes others)
      else first_other bytes others)"

definition newFakeDNSThenOthers :: "fake_dns_engine \<Rightarrow> sniff_target \<Rightarrow> Sniffer \<Rightarrow> protocolSnifferWithMetadata" where
  "newFakeDNSThenOthers engine target others =
     \<lparr>ps_protocolSniffer =
        (\<lambda>bytes. case fake_dns_sniff engine target True of
           ((result, err), addressInRange) \<Rightarrow>
             if err = None then (result, None)
             else case addressInRange of
                    Some inRange \<Rightarrow> if inRange then first_other bytes others else (None, Some ErrNoClue)
                  | None \<Rightarrow> (None, Some ErrNoClue)),
      ps_metadataSniffer = False, ps_network = Network_Unknown\<rparr>"

definition base_sniffers ::
  "(string option \<Rightarrow> sniff_outcome) \<Rightarrow> (string option \<Rightarrow> sniff_outcome) \<Rightarrow> (string option \<Rightarrow> sniff_outcome) \<Rightarrow>
   (string option \<Rightarrow> sniff_outcome) \<Rightarrow> (string option \<Rightarrow> sniff_outcome) \<Rightarrow> Sniffer" where
  "base_sniffers SniffHTTP SniffTLS SniffBittorrent SniffQUIC SniffUTP =
     [\<lparr>ps_protocolSniffer = SniffHTTP, ps_metadataSniffer = False, ps_network = Network_TCP\<rparr>,
      \<lparr>ps_protocolSniffer = SniffTLS, ps_metadataSniffer = False, ps_network = Network_TCP\<rparr>,
      \<lparr>ps_protocolSniffer = SniffBittorrent, ps_metadataSniffer = False, ps_network = Network_TCP\<rparr>,
      \<lparr>ps_protocolSniffer = SniffQUIC, ps_metadataSniffer = False, ps_network = Network_UDP\<rparr>,
      \<lparr>ps_protocolSniffer = SniffUTP, ps_metadataSniffer = False, ps_network = Network_UDP\<rparr>]"

definition NewSniffer :: "Sniffer \<Rightarrow> fake_dns_engine option \<Rightarrow> sniff_target \<Rightarrow> Sniffer" where
  "NewSniffer base engine target =
     (case engine of
        None \<Rightarrow> base
      | Some e \<Rightarrow> newFakeDNSThenOthers e target base # (base @ [newFakeDNSSniffer e target]))"

text \<open>The loop both methods share: skip, ask, keep the undecided, stop at the first result.\<close>

fun sniff_loop ::
  "(protocolSnifferWithMetadata \<Rightarrow> bool) \<Rightarrow> bool \<Rightarrow> string option \<Rightarrow> Sniffer \<Rightarrow> Sniffer \<Rightarrow> SniffResult + Sniffer" where
  "sniff_loop skip keep_skipped payload [] pendingSniffer = Inr pendingSniffer"
| "sniff_loop skip keep_skipped payload (si # rest) pendingSniffer =
     (if skip si then
        sniff_loop skip keep_skipped payload rest (if keep_skipped then pendingSniffer @ [si] else pendingSniffer)
      else
        case ps_protocolSniffer si payload of
          (result, err) \<Rightarrow>
            if err = Some ErrNoClue then sniff_loop skip keep_skipped payload rest (pendingSniffer @ [si])
            else case (err, result) of
                   (None, Some r) \<Rightarrow> Inl r
                 | _ \<Rightarrow> sniff_loop skip keep_skipped payload rest pendingSniffer)"

definition sniff_finish :: "SniffResult + Sniffer \<Rightarrow> Sniffer \<Rightarrow> sniff_outcome \<times> Sniffer" where
  "sniff_finish res s =
     (case res of
        Inl r \<Rightarrow> ((Some r, None), s)
      | Inr pendingSniffer \<Rightarrow>
          if pendingSniffer \<noteq> [] then ((None, Some ErrNoClue), pendingSniffer)
          else ((None, Some errUnknownContent), s))"

definition Sniff :: "Sniffer \<Rightarrow> string \<Rightarrow> network \<Rightarrow> sniff_outcome \<times> Sniffer" where
  "Sniff s payload network =
     sniff_finish (sniff_loop (\<lambda>si. ps_metadataSniffer si \<or> ps_network si \<noteq> network) False (Some payload) s []) s"

definition SniffMetadata :: "Sniffer \<Rightarrow> sniff_outcome \<times> Sniffer" where
  "SniffMetadata s = sniff_finish (sniff_loop (\<lambda>si. \<not> ps_metadataSniffer si) True None s []) s"

section \<open>The caching reader\<close>

text \<open>Each read of the underlying reader gives an error or the next bytes.\<close>

type_synonym read_results = "(sniff_error + string) list"

record cachedReader =
  cr_reader :: read_results
  cr_cache :: string

definition reader_next :: "cachedReader \<Rightarrow> (sniff_error + string) \<times> cachedReader" where
  "reader_next r =
     (case cr_reader r of
        [] \<Rightarrow> (Inl (OtherSniffError ''EOF''), r)
      | x # rest \<Rightarrow> (x, r\<lparr>cr_reader := rest\<rparr>))"

text \<open>\<open>Cache\<close> appends what it reads and copies as much of the cache as fits into the payload buffer.\<close>

definition Cache :: "nat \<Rightarrow> cachedReader \<Rightarrow> (sniff_error + string) \<times> cachedReader" where
  "Cache cap r =
     (case reader_next r of
        (Inl err, r1) \<Rightarrow> (Inl err, r1)
      | (Inr mb, r1) \<Rightarrow>
          let r2 = (if mb \<noteq> [] then r1\<lparr>cr_cache := cr_cache r1 @ mb\<rparr> else r1)
          in (Inr (take (min (length (cr_cache r2)) cap) (cr_cache r2)), r2))"

definition readInternal :: "cachedReader \<Rightarrow> string option \<times> cachedReader" where
  "readInternal r = (if cr_cache r \<noteq> [] then (Some (cr_cache r), r\<lparr>cr_cache := []\<rparr>) else (None, r))"

definition ReadMultiBuffer :: "cachedReader \<Rightarrow> (sniff_error + string) \<times> cachedReader" where
  "ReadMultiBuffer r =
     (case readInternal r of
        (Some mb, r1) \<Rightarrow> (Inr mb, r1)
      | (None, r1) \<Rightarrow> reader_next r1)"

definition cached_interrupt :: "cachedReader \<Rightarrow> cachedReader" where
  "cached_interrupt r = r\<lparr>cr_cache := []\<rparr>"

section \<open>The sniffing loop\<close>

text \<open>
  One round of the loop takes the error of the context, if it is done, and the time \<open>Cache\<close> took
  in nanoseconds. Running out of rounds is \<open>None\<close>: the loop is still going.
\<close>

type_synonym sniff_round = "sniff_error option \<times> int"

fun content_loop ::
  "nat \<Rightarrow> network \<Rightarrow> sniff_round list \<Rightarrow> int \<Rightarrow> nat \<Rightarrow> Sniffer \<Rightarrow> cachedReader \<Rightarrow>
   (sniff_outcome \<times> cachedReader) option" where
  "content_loop cap network [] cacheDeadline totalAttempt s r = None"
| "content_loop cap network ((ctx_err, elapsed) # rounds) cacheDeadline totalAttempt s r =
     (case ctx_err of
        Some e \<Rightarrow> Some ((None, Some e), r)
      | None \<Rightarrow>
          (case Cache cap r of
             (Inl err, r1) \<Rightarrow> Some ((None, Some err), r1)
           | (Inr payload, r1) \<Rightarrow>
               let cacheDeadline1 = cacheDeadline - elapsed
               in if payload \<noteq> [] then
                    (case Sniff s payload network of
                       ((result, err), s1) \<Rightarrow>
                         if err = Some ErrNoClue then
                           (if 2 \<le> totalAttempt + 1 \<or> cacheDeadline1 \<le> 0
                            then Some ((None, Some errSniffingTimeout), r1)
                            else content_loop cap network rounds cacheDeadline1 (totalAttempt + 1) s1 r1)
                         else if err = Some ErrProtoNeedMoreData then
                           (if 2 \<le> totalAttempt \<or> cacheDeadline1 \<le> 0
                            then Some ((None, Some errSniffingTimeout), r1)
                            else content_loop cap network rounds cacheDeadline1 totalAttempt s1 r1)
                         else Some ((result, err), r1))
                  else if 2 \<le> totalAttempt + 1 \<or> cacheDeadline1 \<le> 0
                       then Some ((None, Some errSniffingTimeout), r1)
                       else content_loop cap network rounds cacheDeadline1 (totalAttempt + 1) s r1))"

definition composite_outcome :: "sniff_outcome \<Rightarrow> sniff_outcome \<Rightarrow> sniff_outcome" where
  "composite_outcome meta content =
     (if snd content \<noteq> None \<and> snd meta = None then (fst meta, None)
      else if snd content = None \<and> snd meta = None
           then (case (fst meta, fst content) of
                   (Some m, Some c) \<Rightarrow> Some (compositeResult m c)
                 | _ \<Rightarrow> None, None)
      else content)"

text \<open>\<open>sniffer\<close>: the metadata pass, then up to 200 ms of content passes.\<close>

definition sniffer ::
  "nat \<Rightarrow> Sniffer \<Rightarrow> bool \<Rightarrow> network \<Rightarrow> sniff_round list \<Rightarrow> cachedReader \<Rightarrow> (sniff_outcome \<times> cachedReader) option" where
  "sniffer cap s0 metadataOnly network rounds cReader =
     (case SniffMetadata s0 of
        (meta, s1) \<Rightarrow>
          if metadataOnly then Some (meta, cReader)
          else map_option (\<lambda>(content, r). (composite_outcome meta content, r))
                 (content_loop cap network rounds 200000000 0 s1 cReader))"

section \<open>Overriding the destination\<close>

record SniffingRequest =
  sr_Enabled :: bool
  sr_MetadataOnly :: bool
  sr_RouteOnly :: bool
  sr_ExcludeForDomain :: "string list"
  sr_OverrideDestinationForProtocol :: "string list"

text \<open>
  The regular expressions are an argument: \<open>None\<close> when a pattern does not compile, otherwise whether
  it matches. The pool test is \<open>None\<close> when the engine is absent or not a \<open>FakeDNSEngineRev0\<close>.
\<close>

definition domain_excluded :: "(string \<Rightarrow> string \<Rightarrow> bool option) \<Rightarrow> string \<Rightarrow> string \<Rightarrow> bool" where
  "domain_excluded regexp_match domain d =
     (if HasPrefix d ''regexp:'' then regexp_match (drop 7 d) domain = Some True
      else ToLower domain = d)"

definition overrides_protocol :: "(bool option) \<Rightarrow> bool \<Rightarrow> SniffResult \<Rightarrow> string \<Rightarrow> string \<Rightarrow> bool" where
  "overrides_protocol in_pool dest_is_ip result protocolString p \<longleftrightarrow>
     HasPrefix protocolString p \<or> HasPrefix p protocolString \<or>
     (in_pool \<noteq> None \<and> protocolString \<noteq> ''bittorrent'' \<and> p = ''fakedns'' \<and> dest_is_ip \<and> in_pool = Some True) \<or>
     IsProtoSubsetOf result p = Some True"

definition shouldOverride ::
  "(string \<Rightarrow> string \<Rightarrow> bool option) \<Rightarrow> bool option \<Rightarrow> bool \<Rightarrow> SniffResult \<Rightarrow> SniffingRequest \<Rightarrow> bool" where
  "shouldOverride regexp_match in_pool dest_is_ip result request =
     (let domain = Domain result
      in if domain = [] then False
         else if list_ex (domain_excluded regexp_match domain) (sr_ExcludeForDomain request) then False
         else let protocolString = (case ProtocolForDomainResult result of Some p \<Rightarrow> p | None \<Rightarrow> Protocol result)
              in list_ex (overrides_protocol in_pool dest_is_ip result protocolString)
                   (sr_OverrideDestinationForProtocol request))"

section \<open>Lemmas\<close>

text \<open>The bytes a reader of the connection will still see: the cache, then what is unread.\<close>

fun unread :: "read_results \<Rightarrow> string" where
  "unread [] = []"
| "unread (Inl e # rs) = unread rs"
| "unread (Inr mb # rs) = mb @ unread rs"

definition pending_bytes :: "cachedReader \<Rightarrow> string" where
  "pending_bytes r = cr_cache r @ unread (cr_reader r)"

lemma Cache_pending: "Cache cap r = (x, r') \<Longrightarrow> pending_bytes r' = pending_bytes r"
  by (auto simp: Cache_def reader_next_def pending_bytes_def Let_def
      split: list.splits sum.splits prod.splits if_splits)

lemma Cache_shrinks: "Cache cap r = (x, r') \<Longrightarrow> length (cr_reader r') \<le> length (cr_reader r)"
  by (auto simp: Cache_def reader_next_def Let_def split: list.splits sum.splits prod.splits if_splits)

text \<open>One round either ends the loop where it was or after one read, or goes on from there.\<close>

lemma content_loop_step:
  assumes "content_loop cap network (rd # rounds) dl n s r = Some (out, r')"
  shows "r' = r \<or> (\<exists>x r1. Cache cap r = (x, r1) \<and>
           (r' = r1 \<or> (\<exists>dl' n' s'. content_loop cap network rounds dl' n' s' r1 = Some (out, r'))))"
proof (cases rd)
  case (Pair ctx_err elapsed)
  show ?thesis
  proof (cases "Cache cap r")
    case c: (Pair x r1)
    show ?thesis
      using assms by (auto simp: Pair c Let_def split: option.splits sum.splits prod.splits if_splits)
  qed
qed

lemma content_loop_rel:
  assumes step: "\<And>r x r'. Cache cap r = (x, r') \<Longrightarrow> R r r'"
    and refl: "\<And>a. R a a" and trans: "\<And>a b c. R a b \<Longrightarrow> R b c \<Longrightarrow> R a c"
  shows "content_loop cap network rounds dl n s r = Some (out, r') \<Longrightarrow> R r r'"
proof (induction rounds arbitrary: dl n s r)
  case Nil
  then show ?case by simp
next
  case (Cons rd rounds)
  from content_loop_step [OF Cons.prems] show ?case
    using Cons.IH step refl trans by blast
qed

lemma content_loop_pending:
  "content_loop cap network rounds dl n s r = Some (out, r') \<Longrightarrow> pending_bytes r' = pending_bytes r"
  by (rule content_loop_rel [where R = "\<lambda>a b. pending_bytes b = pending_bytes a"]) (auto dest: Cache_pending)

lemma content_loop_shrinks:
  "content_loop cap network rounds dl n s r = Some (out, r') \<Longrightarrow> length (cr_reader r') \<le> length (cr_reader r)"
  by (rule content_loop_rel [where R = "\<lambda>a b. length (cr_reader b) \<le> length (cr_reader a)"]) (auto dest: Cache_shrinks)

lemma sniff_finish_error: "snd (fst (sniff_finish res s)) \<in> {None, Some ErrNoClue, Some errUnknownContent}"
  by (simp add: sniff_finish_def split: sum.splits)

lemma Sniff_error: "Sniff s payload network = ((result, err), s') \<Longrightarrow> err \<in> {None, Some ErrNoClue, Some errUnknownContent}"
  using sniff_finish_error by (metis Sniff_def fst_conv snd_conv)

text \<open>Which bytes successive reads deliver.\<close>

fun read_all :: "nat \<Rightarrow> cachedReader \<Rightarrow> string" where
  "read_all 0 r = []"
| "read_all (Suc n) r =
     (case ReadMultiBuffer r of
        (Inl e, r') \<Rightarrow> read_all n r'
      | (Inr mb, r') \<Rightarrow> mb @ read_all n r')"

lemma read_all_uncached: "cr_cache r = [] \<Longrightarrow> length (cr_reader r) \<le> n \<Longrightarrow> read_all n r = unread (cr_reader r)"
proof (induction n arbitrary: r)
  case 0
  then show ?case by simp
next
  case (Suc n)
  show ?case
  proof (cases "cr_reader r")
    case Nil
    then show ?thesis using Suc.prems Suc.IH [of r] by (simp add: ReadMultiBuffer_def readInternal_def reader_next_def)
  next
    case (Cons x xs)
    then show ?thesis
      using Suc.prems Suc.IH [of "r\<lparr>cr_reader := xs\<rparr>"]
      by (cases x) (simp_all add: ReadMultiBuffer_def readInternal_def reader_next_def)
  qed
qed

lemma read_all_pending: "length (cr_reader r) < n \<Longrightarrow> read_all n r = pending_bytes r"
proof (cases "cr_cache r = []")
  case True
  assume "length (cr_reader r) < n"
  with True show ?thesis by (simp add: read_all_uncached pending_bytes_def)
next
  case False
  assume "length (cr_reader r) < n"
  then obtain k where n: "n = Suc k" and k: "length (cr_reader r) \<le> k" by (cases n) auto
  with False show ?thesis
    by (simp add: ReadMultiBuffer_def readInternal_def read_all_uncached pending_bytes_def)
qed

lemma Cache_consumes: "Cache cap r = (x, r') \<Longrightarrow> length (cr_reader r) \<le> Suc (length (cr_reader r'))"
  by (auto simp: Cache_def reader_next_def Let_def split: list.splits sum.splits prod.splits if_splits)

lemma content_loop_returns:
  "n < 2 \<Longrightarrow> 2 - n \<le> length rounds \<Longrightarrow>
   \<exists>out r'. content_loop cap network rounds dl n s r = Some (out, r') \<and>
            length (cr_reader r) \<le> length (cr_reader r') + (2 - n)"
proof (induction rounds arbitrary: dl n s r)
  case Nil
  then show ?case by simp
next
  case (Cons rd rounds)
  obtain ctx_err elapsed where rd: "rd = (ctx_err, elapsed)" by (cases rd)
  obtain x r1 where c: "Cache cap r = (x, r1)" by (cases "Cache cap r")
  have le: "length (cr_reader r) \<le> Suc (length (cr_reader r1))" by (rule Cache_consumes [OF c])
  have next_round: "\<exists>out r'. content_loop cap network rounds dl' (Suc n) s' r1 = Some (out, r') \<and>
      length (cr_reader r) \<le> length (cr_reader r') + (2 - n)" if "\<not> 2 \<le> Suc n" for dl' s'
  proof -
    have "\<exists>out r'. content_loop cap network rounds dl' (Suc n) s' r1 = Some (out, r') \<and>
        length (cr_reader r1) \<le> length (cr_reader r') + (2 - Suc n)"
      using that Cons.prems by (intro Cons.IH) auto
    then show ?thesis using le that by fastforce
  qed
  have stop: "\<exists>out' r'. out = out' \<and> r1 = r' \<and> length (cr_reader r) \<le> length (cr_reader r') + (2 - n)" for out :: sniff_outcome
    using le Cons.prems(1) by auto
  show ?case
  proof (cases ctx_err)
    case (Some e)
    then show ?thesis by (simp add: rd)
  next
    case None
    show ?thesis
    proof (cases x)
      case (Inl e)
      then show ?thesis using stop by (simp add: rd None c)
    next
      case (Inr payload)
      obtain result err s1 where sn: "Sniff s payload network = ((result, err), s1)"
        by (metis prod.exhaust)
      have "err \<noteq> Some ErrProtoNeedMoreData" using Sniff_error [OF sn] by auto
      then show ?thesis
        using next_round stop le Cons.prems(1) by (auto simp: rd None c Inr sn Let_def)
    qed
  qed
qed

lemma sniff_loop_all_skip:
  "(\<And>si. si \<in> set s \<Longrightarrow> \<not> skip si \<Longrightarrow> snd (ps_protocolSniffer si payload) = Some ErrProtoNeedMoreData) \<Longrightarrow>
   sniff_loop skip False payload s pendings = Inr pendings"
proof (induction s arbitrary: pendings)
  case Nil
  then show ?case by simp
next
  case (Cons a s)
  obtain result err where a: "ps_protocolSniffer a payload = (result, err)" by (cases "ps_protocolSniffer a payload")
  have "\<not> skip a \<Longrightarrow> err = Some ErrProtoNeedMoreData" using Cons.prems [of a] a by simp
  then show ?case using Cons.IH [of pendings] Cons.prems a by auto
qed

lemma sniff_loop_append_skip:
  "skip si \<Longrightarrow> sniff_loop skip False payload (s @ [si]) pendings = sniff_loop skip False payload s pendings"
  by (induction s arbitrary: pendings) (auto split: prod.splits option.splits)

lemma fst_sniff_finish: "fst (sniff_finish res s) = fst (sniff_finish res s')"
  by (simp add: sniff_finish_def split: sum.splits)

definition demo_sniff :: "string \<Rightarrow> protocolSniffer" where
  "demo_sniff want payload =
     (case payload of
        None \<Rightarrow> (None, Some ErrNoClue)
      | Some p \<Rightarrow> if HasPrefix p want then (Some (PlainResult ''tls'' ''example.org''), None) else (None, Some ErrNoClue))"

definition demo_sniffers :: Sniffer where
  "demo_sniffers = base_sniffers (demo_sniff ''GET'') (demo_sniff ''abcd'') (demo_sniff ''BT'') (demo_sniff ''Q'') (demo_sniff ''U'')"

section \<open>Properties\<close>

text \<open>
  C21. Sniffing does not disturb the connection: however the loop ends, a reader of the cached
  connection receives exactly the bytes the connection delivers, none lost, doubled or
  reordered.
\<close>

theorem sniffer_transparent:
  assumes "sniffer cap s metadataOnly network rounds \<lparr>cr_reader = rs, cr_cache = []\<rparr> = Some (out, r)"
    and "length rs < n"
  shows "read_all n r = unread rs"
proof -
  let ?r0 = "\<lparr>cr_reader = rs, cr_cache = []\<rparr>"
  have p: "pending_bytes r = pending_bytes ?r0 \<and> length (cr_reader r) \<le> length rs"
    using assms(1) content_loop_pending content_loop_shrinks
    by (fastforce simp: sniffer_def split: prod.splits if_splits)
  then have "read_all n r = pending_bytes r" using assms(2) by (intro read_all_pending) simp
  with p show ?thesis by (simp add: pending_bytes_def)
qed

theorem sniffer_transparent_witness:
  "\<exists>out r. sniffer 16 demo_sniffers False Network_TCP [(None, 5), (None, 5)]
             \<lparr>cr_reader = [Inr ''abc'', Inr ''def'', Inr ''g''], cr_cache = []\<rparr> = Some (out, r) \<and>
           out = (Some (PlainResult ''tls'' ''example.org''), None) \<and> read_all 4 r = ''abcdefg''"
proof -
  have run: "sniffer 16 demo_sniffers False Network_TCP [(None, 5), (None, 5)]
          \<lparr>cr_reader = [Inr ''abc'', Inr ''def'', Inr ''g''], cr_cache = []\<rparr>
        = Some ((Some (PlainResult ''tls'' ''example.org''), None), \<lparr>cr_reader = [Inr ''g''], cr_cache = ''abcdef''\<rparr>)"
    by code_simp
  show ?thesis using sniffer_transparent [OF run, of 4] run by simp
qed

text \<open>
  C22. The sniffing loop ends: whatever the connection delivers and however long reads take, it returns
  within two rounds and consumes at most two reads of the connection.
\<close>

theorem sniffer_returns:
  assumes "2 \<le> length rounds"
  shows "\<exists>out r. sniffer cap s metadataOnly network rounds cReader = Some (out, r) \<and>
                 length (cr_reader cReader) \<le> length (cr_reader r) + 2"
proof (cases "SniffMetadata s")
  case (Pair meta s1)
  obtain out r where "content_loop cap network rounds 200000000 0 s1 cReader = Some (out, r)"
    and "length (cr_reader cReader) \<le> length (cr_reader r) + 2"
    using content_loop_returns [of 0 rounds cap network 200000000 s1 cReader] assms by auto
  then show ?thesis by (simp add: sniffer_def Pair)
qed

theorem sniffer_returns_witness:
  "2 \<le> length [(None, 5), (None, 5 :: int)] \<and>
   (\<exists>out r. sniffer 16 demo_sniffers False Network_TCP [(None, 5), (None, 5)]
              \<lparr>cr_reader = [Inr ''x'', Inr ''y'', Inr ''z''], cr_cache = []\<rparr> = Some (out, r) \<and> 1 \<le> length (cr_reader r))"
  using sniffer_returns [of "[(None, 5), (None, 5)]" 16 demo_sniffers False Network_TCP
      "\<lparr>cr_reader = [Inr ''x'', Inr ''y'', Inr ''z''], cr_cache = []\<rparr>"] by fastforce

text \<open>
  A recogniser that answers that it needs more data is not kept for the next round: when every
  recogniser of the network gives that answer, \<open>Sniff\<close> reports unknown content and the loop
  stops with that error instead of reading on until its timeout.
\<close>

theorem Sniff_drops_need_more:
  assumes "\<And>si. si \<in> set s \<Longrightarrow> \<not> ps_metadataSniffer si \<Longrightarrow> ps_network si = network \<Longrightarrow>
             snd (ps_protocolSniffer si (Some payload)) = Some ErrProtoNeedMoreData"
  shows "Sniff s payload network = ((None, Some errUnknownContent), s)"
proof -
  have "sniff_loop (\<lambda>si. ps_metadataSniffer si \<or> ps_network si \<noteq> network) False (Some payload) s [] = Inr []"
    by (rule sniff_loop_all_skip) (use assms in auto)
  then show ?thesis by (simp add: Sniff_def sniff_finish_def)
qed

theorem Sniff_drops_need_more_witness:
  "Sniff [\<lparr>ps_protocolSniffer = (\<lambda>_. (None, Some ErrProtoNeedMoreData)), ps_metadataSniffer = False, ps_network = Network_UDP\<rparr>]
     ''Q'' Network_UDP =
   ((None, Some errUnknownContent),
    [\<lparr>ps_protocolSniffer = (\<lambda>_. (None, Some ErrProtoNeedMoreData)), ps_metadataSniffer = False, ps_network = Network_UDP\<rparr>])"
  by (rule Sniff_drops_need_more) simp

text \<open>
  C23. The recogniser that combines fake DNS with the other protocols is registered without a network and
  is therefore never consulted: on TCP and UDP, content sniffing gives the same outcome with a
  fake-DNS engine as without one.
\<close>

theorem fake_dns_then_others_unused:
  assumes "network = Network_TCP \<or> network = Network_UDP"
  shows "fst (Sniff (NewSniffer base engine target) payload network) = fst (Sniff base payload network)"
proof (cases engine)
  case None
  then show ?thesis by (simp add: NewSniffer_def)
next
  case (Some e)
  let ?skip = "\<lambda>si. ps_metadataSniffer si \<or> ps_network si \<noteq> network"
  have "?skip (newFakeDNSThenOthers e target base)" "?skip (newFakeDNSSniffer e target)"
    using assms by (auto simp: newFakeDNSThenOthers_def newFakeDNSSniffer_def)
  then have "sniff_loop ?skip False (Some payload) (NewSniffer base engine target) []
           = sniff_loop ?skip False (Some payload) base []"
    by (simp add: Some NewSniffer_def sniff_loop_append_skip)
  then show ?thesis unfolding Sniff_def by (metis fst_sniff_finish)
qed

theorem fake_dns_then_others_unused_witness:
  "fst (Sniff (NewSniffer demo_sniffers
          (Some \<lparr>fe_GetDomainFromFakeDNS = (\<lambda>_. []), fe_IsIPInIPPool = Some (\<lambda>_. True)\<rparr>)
          \<lparr>sg_Network = Network_TCP, sg_Address = ''198.18.0.1''\<rparr>) ''abcd'' Network_TCP)
   = fst (Sniff demo_sniffers ''abcd'' Network_TCP)"
  by (rule fake_dns_then_others_unused) simp

end
