(* ===== verification/Link_Dispatch.thy ===== *)
theory Link_Dispatch
  imports Device_Limiter Traffic_Counter Sniffing
begin

text \<open>
  The dispatcher every proxied connection passes (\<open>core/app/dispatcher/default.go\<close>,
  \<open>core/app/dispatcher/linkmanager.go\<close>, \<open>core/app/dispatcher/countreader.go\<close>,
  \<open>common/rate/writer.go\<close>): it asks the limiter, wraps the connection's writers and readers with the
  user's rate bucket and byte counters, registers the connection with the user's link manager so
  that it can be cut when the user is removed, and chooses the outbound. Pipes, outbound
  handlers and the router of Xray are arguments or numbered objects; what the code does to them
  (closing a writer, interrupting a reader) is recorded in two logs of the dispatcher state.
\<close>

section \<open>Writers, readers and link managers\<close>

datatype raw_writer = PipeWriter nat | OuterWriter nat

datatype 'b writer =
    RawW raw_writer
  | ManagedW nat
  | RateLimitW "'b writer" 'b
  | SizeStatW "'b writer" string counter_ref

datatype reader =
    PipeReader nat
  | OuterReader nat
  | TimeoutWrapperReader reader
  | CounterReader reader string nat

record ManagedWriter =
  mw_writer :: raw_writer
  mw_manager :: nat

record LinkManager =
  lk_links :: "(nat, reader) go_map"

record DefaultDispatcher =
  dd_Counter :: "(string, TrafficCounter) go_map"
  dd_LinkManagers :: "(string, nat) go_map"
  dd_managers :: "LinkManager list"
  dd_writers :: "ManagedWriter list"
  dd_pipes :: nat
  dd_closed :: "raw_writer list"
  dd_interrupted :: "reader list"

definition new_dispatcher :: DefaultDispatcher where
  "new_dispatcher =
     \<lparr>dd_Counter = [], dd_LinkManagers = [], dd_managers = [], dd_writers = [], dd_pipes = 0,
      dd_closed = [], dd_interrupted = []\<rparr>"

definition links_of :: "DefaultDispatcher \<Rightarrow> nat \<Rightarrow> (nat, reader) go_map" where
  "links_of d lm = (if lm < length (dd_managers d) then lk_links (dd_managers d ! lm) else [])"

definition set_links :: "nat \<Rightarrow> (nat, reader) go_map \<Rightarrow> DefaultDispatcher \<Rightarrow> DefaultDispatcher" where
  "set_links lm links d =
     (if lm < length (dd_managers d)
      then d\<lparr>dd_managers := (dd_managers d)[lm := \<lparr>lk_links = links\<rparr>]\<rparr> else d)"

definition AddLink :: "nat \<Rightarrow> nat \<Rightarrow> reader \<Rightarrow> DefaultDispatcher \<Rightarrow> DefaultDispatcher" where
  "AddLink lm writer rd d = set_links lm (go_store writer rd (links_of d lm)) d"

definition RemoveWriter :: "nat \<Rightarrow> nat \<Rightarrow> DefaultDispatcher \<Rightarrow> DefaultDispatcher" where
  "RemoveWriter lm writer d = set_links lm (go_delete writer (links_of d lm)) d"

definition close_raw :: "raw_writer \<Rightarrow> DefaultDispatcher \<Rightarrow> DefaultDispatcher" where
  "close_raw w d = d\<lparr>dd_closed := dd_closed d @ [w]\<rparr>"

definition interrupt_reader :: "reader \<Rightarrow> DefaultDispatcher \<Rightarrow> DefaultDispatcher" where
  "interrupt_reader r d = d\<lparr>dd_interrupted := dd_interrupted d @ [r]\<rparr>"

definition ManagedWriter_Close :: "nat \<Rightarrow> DefaultDispatcher \<Rightarrow> DefaultDispatcher" where
  "ManagedWriter_Close p d =
     (if p < length (dd_writers d)
      then let w = dd_writers d ! p in close_raw (mw_writer w) (RemoveWriter (mw_manager w) p d)
      else d)"

text \<open>The body of the inner loop of \<open>CloseAll\<close>.\<close>

definition close_link :: "nat \<times> reader \<Rightarrow> DefaultDispatcher \<Rightarrow> DefaultDispatcher" where
  "close_link e d = interrupt_reader (snd e) (ManagedWriter_Close (fst e) d)"

lemma links_of_set: "links_of (set_links lm m d) lm' =
    (if lm' = lm \<and> lm < length (dd_managers d) then m else links_of d lm')"
  by (simp add: links_of_def set_links_def)

lemma links_of_frame [simp]:
  "links_of (close_raw w d) lm = links_of d lm"
  "links_of (interrupt_reader r d) lm = links_of d lm"
  by (simp_all add: links_of_def close_raw_def interrupt_reader_def)

lemma links_of_close_link: "set (links_of (close_link e d) lm) \<subseteq> set (links_of d lm)"
  by (auto simp: close_link_def ManagedWriter_Close_def RemoveWriter_def links_of_set Let_def
      go_delete_filter split: if_splits)

lemma links_of_close_links: "set (links_of (fold close_link es d) lm) \<subseteq> set (links_of d lm)"
  by (induction es arbitrary: d) (use links_of_close_link in fastforce)+

lemma CloseAll_pass_empty:
  "links_of d lm \<noteq> [] \<Longrightarrow> links_of (fold close_link es (set_links lm [] d)) lm = []"
proof -
  assume "links_of d lm \<noteq> []"
  then have "lm < length (dd_managers d)" by (simp add: links_of_def split: if_splits)
  then have "links_of (set_links lm [] d) lm = []" by (simp add: links_of_set)
  then show ?thesis using links_of_close_links [of es "set_links lm [] d" lm] by simp
qed

text \<open>
  \<open>CloseAll\<close>: take all links out and close them, until there is none. The recursion ends because
  closing a link never adds one.
\<close>

function (sequential) CloseAll :: "nat \<Rightarrow> DefaultDispatcher \<Rightarrow> DefaultDispatcher" where
  "CloseAll lm d =
     (if links_of d lm = [] then d
      else CloseAll lm (fold close_link (go_range (links_of d lm)) (set_links lm [] d)))"
  by pat_completeness auto

termination
  by (relation "measure (\<lambda>(lm, d). length (links_of d lm))") (auto simp: CloseAll_pass_empty)

declare CloseAll.simps [simp del]

section \<open>Opening a link\<close>

record session_inbound =
  si_Tag :: string
  si_User :: "string option"
  si_SourceIP :: string
  si_SourceTCP :: bool
  si_CanSpliceCopy :: int

record 'b link =
  ln_Reader :: reader
  ln_Writer :: "'b writer"

datatype dispatch_error = GetLimiterError string | LimitedByConnOrIP string | InvalidDestination

text \<open>The state a connection touches: the limiters, the dispatcher and the session of the inbound.\<close>

record 'b dispatch_state =
  ds_limiters :: "'b registry"
  ds_disp :: DefaultDispatcher
  ds_session :: "session_inbound option"

text \<open>Load the user's link manager or store a new one; likewise the node's traffic counter.\<close>

definition new_link_manager :: "string \<Rightarrow> DefaultDispatcher \<Rightarrow> nat \<times> DefaultDispatcher" where
  "new_link_manager email d =
     (length (dd_managers d),
      d\<lparr>dd_managers := dd_managers d @ [\<lparr>lk_links = []\<rparr>],
        dd_LinkManagers := go_store email (length (dd_managers d)) (dd_LinkManagers d)\<rparr>)"

definition link_manager_for :: "string \<Rightarrow> DefaultDispatcher \<Rightarrow> nat \<times> DefaultDispatcher" where
  "link_manager_for email d =
     (case go_load (dd_LinkManagers d) email of
        None \<Rightarrow> new_link_manager email d
      | Some lm \<Rightarrow> (lm, d))"

definition new_managed_writer :: "raw_writer \<Rightarrow> nat \<Rightarrow> DefaultDispatcher \<Rightarrow> nat \<times> DefaultDispatcher" where
  "new_managed_writer w lm d =
     (length (dd_writers d), d\<lparr>dd_writers := dd_writers d @ [\<lparr>mw_writer = w, mw_manager = lm\<rparr>]\<rparr>)"

definition user_storage :: "string \<Rightarrow> string \<Rightarrow> DefaultDispatcher \<Rightarrow> nat \<times> DefaultDispatcher" where
  "user_storage tag email d =
     (let t = (case go_load (dd_Counter d) tag of None \<Rightarrow> NewTrafficCounter | Some c \<Rightarrow> c);
          (ts, t') = GetCounter email t
      in (ts, d\<lparr>dd_Counter := go_store tag t' (dd_Counter d)\<rparr>))"

definition rate_limited :: "'b option \<Rightarrow> 'b writer \<Rightarrow> 'b writer" where
  "rate_limited w wr = (case w of None \<Rightarrow> wr | Some b \<Rightarrow> RateLimitW wr b)"

definition forbid_splice :: "'b option \<Rightarrow> session_inbound \<Rightarrow> session_inbound" where
  "forbid_splice w si = (case w of None \<Rightarrow> si | Some b \<Rightarrow> si\<lparr>si_CanSpliceCopy := 3\<rparr>)"

definition authenticated_email :: "session_inbound option \<Rightarrow> (session_inbound \<times> string) option" where
  "authenticated_email sess =
     (case sess of
        None \<Rightarrow> None
      | Some si \<Rightarrow>
          (case si_User si of
             None \<Rightarrow> None
           | Some email \<Rightarrow> if email \<noteq> [] then Some (si, email) else None))"

text \<open>Both directions of a refused link are closed for writing and interrupted for reading.\<close>

definition refuse_link :: "'b link \<Rightarrow> 'b link \<Rightarrow> nat \<Rightarrow> nat \<Rightarrow> DefaultDispatcher \<Rightarrow> DefaultDispatcher" where
  "refuse_link inbound outbound uplink downlink d =
     interrupt_reader (ln_Reader inbound) (interrupt_reader (ln_Reader outbound)
       (close_raw (PipeWriter uplink) (close_raw (PipeWriter downlink) d)))"

definition getLink ::
  "(int \<Rightarrow> int \<Rightarrow> int \<Rightarrow> 'b) \<Rightarrow> clock \<Rightarrow> 'b dispatch_state \<Rightarrow>
   (dispatch_error + 'b link \<times> 'b link) \<times> 'b dispatch_state" where
  "getLink NewBucketWithQuantum now st =
     (let uplink = dd_pipes (ds_disp st);
          downlink = uplink + 1;
          d0 = (ds_disp st)\<lparr>dd_pipes := uplink + 2\<rparr>;
          inboundLink = \<lparr>ln_Reader = PipeReader downlink, ln_Writer = RawW (PipeWriter uplink)\<rparr>;
          outboundLink = \<lparr>ln_Reader = PipeReader uplink, ln_Writer = RawW (PipeWriter downlink)\<rparr>
      in case authenticated_email (ds_session st) of
           None \<Rightarrow> (Inr (inboundLink, outboundLink), st\<lparr>ds_disp := d0\<rparr>)
         | Some (si, email) \<Rightarrow>
             (case GetLimiter (ds_limiters st) (si_Tag si) of
                Inl err \<Rightarrow> (Inl (GetLimiterError (si_Tag si)),
                            st\<lparr>ds_disp := refuse_link inboundLink outboundLink uplink downlink d0\<rparr>)
              | Inr limit \<Rightarrow>
                  (case CheckLimit NewBucketWithQuantum now email (si_SourceIP si) (si_SourceTCP si) limit of
                     (limit', w, reject) \<Rightarrow>
                       let reg = go_store (si_Tag si) limit' (ds_limiters st)
                       in if reject then
                            (Inl (LimitedByConnOrIP email),
                             st\<lparr>ds_limiters := reg,
                               ds_disp := refuse_link inboundLink outboundLink uplink downlink d0\<rparr>)
                          else
                            let (lm, d1) = link_manager_for email d0;
                                (mw, d2) = new_managed_writer (PipeWriter uplink) lm d1;
                                d3 = AddLink lm mw (ln_Reader outboundLink) d2;
                                (ts, d4) = user_storage (si_Tag si) email d3
                            in (Inr (inboundLink\<lparr>ln_Writer := SizeStatW (rate_limited w (ManagedW mw)) (si_Tag si) (UpRef ts)\<rparr>,
                                     outboundLink\<lparr>ln_Writer := SizeStatW (rate_limited w (ln_Writer outboundLink)) (si_Tag si) (DownRef ts)\<rparr>),
                                st\<lparr>ds_limiters := reg, ds_disp := d4, ds_session := Some (forbid_splice w si)\<rparr>))))"

text \<open>
  The part of \<open>DispatchLink\<close> before sniffing: the link comes from the protocol handler, its
  reader counts the upload.
\<close>

definition meter_link ::
  "(int \<Rightarrow> int \<Rightarrow> int \<Rightarrow> 'b) \<Rightarrow> clock \<Rightarrow> nat \<Rightarrow> nat \<Rightarrow> 'b dispatch_state \<Rightarrow>
   (dispatch_error + 'b link) \<times> 'b dispatch_state" where
  "meter_link NewBucketWithQuantum now outer_reader outer_writer st =
     (let d0 = ds_disp st;
          outbound = \<lparr>ln_Reader = OuterReader outer_reader, ln_Writer = RawW (OuterWriter outer_writer)\<rparr>;
          refused = interrupt_reader (ln_Reader outbound) (close_raw (OuterWriter outer_writer) d0)
      in case authenticated_email (ds_session st) of
           None \<Rightarrow> (Inr outbound, st)
         | Some (si, email) \<Rightarrow>
             (case GetLimiter (ds_limiters st) (si_Tag si) of
                Inl err \<Rightarrow> (Inl (GetLimiterError (si_Tag si)), st\<lparr>ds_disp := refused\<rparr>)
              | Inr limit \<Rightarrow>
                  (case CheckLimit NewBucketWithQuantum now email (si_SourceIP si) (si_SourceTCP si) limit of
                     (limit', w, reject) \<Rightarrow>
                       let reg = go_store (si_Tag si) limit' (ds_limiters st)
                       in if reject then
                            (Inl (LimitedByConnOrIP email), st\<lparr>ds_limiters := reg, ds_disp := refused\<rparr>)
                          else
                            let (lm, d1) = link_manager_for email d0;
                                (mw, d2) = new_managed_writer (OuterWriter outer_writer) lm d1;
                                (ts, d3) = user_storage (si_Tag si) email d2;
                                rd = CounterReader (TimeoutWrapperReader (ln_Reader outbound)) (si_Tag si) ts
                            in (Inr \<lparr>ln_Reader = rd,
                                     ln_Writer = SizeStatW (rate_limited w (ManagedW mw)) (si_Tag si) (DownRef ts)\<rparr>,
                                st\<lparr>ds_limiters := reg, ds_disp := AddLink lm mw rd d3,
                                  ds_session := Some (forbid_splice w si)\<rparr>))))"

text \<open>\<open>CounterReader\<close>: both read methods count the bytes of a successful non-empty read.\<close>

definition CounterReader_read ::
  "counter_ref \<Rightarrow> sniff_error + string \<Rightarrow> TrafficCounter \<Rightarrow> (sniff_error + string) \<times> TrafficCounter" where
  "CounterReader_read r res c =
     (case res of
        Inl err \<Rightarrow> (Inl err, c)
      | Inr mb \<Rightarrow> (Inr mb, if length mb > 0 then snd (XrayTrafficCounter_Add r (int (length mb)) c) else c))"

section \<open>Sniffing and routing\<close>

record destination =
  dn_Address :: string
  dn_Network :: network
  dn_Valid :: bool

record outbound_session =
  ob_OriginalTarget :: destination
  ob_Target :: destination
  ob_RouteTarget :: "destination option"
  ob_Tag :: string

text \<open>
  What a connection meets: the recognisers and reads for sniffing, the pool test of the fake-DNS
  engine, address parsing, the outbound handlers with their tags, the router.
\<close>

record 'h dispatch_env =
  de_cap :: nat
  de_sniffers :: Sniffer
  de_rounds :: "sniff_round list"
  de_regexp :: "string \<Rightarrow> string \<Rightarrow> bool option"
  de_in_pool :: "string \<Rightarrow> bool option"
  de_is_ip :: "string \<Rightarrow> bool"
  de_ParseAddress :: "string \<Rightarrow> string"
  de_GetHandler :: "string \<Rightarrow> 'h option"
  de_GetDefaultHandler :: "'h option"
  de_handler_Tag :: "'h \<Rightarrow> string"
  de_router :: "(outbound_session \<Rightarrow> string option) option"
  de_forcedOutboundTag :: string
  de_inTag :: string

datatype 'h route_decision = Dropped | Routed 'h nat string

text \<open>The detour text of the access log, by the way the handler was picked.\<close>

definition detour :: "string \<Rightarrow> nat \<Rightarrow> string \<Rightarrow> string" where
  "detour inTag isPickRoute tag =
     (if tag = [] then []
      else if inTag = [] then tag
      else if isPickRoute = 1 then inTag @ '' ==> '' @ tag
      else if isPickRoute = 2 then inTag @ '' -> '' @ tag
      else inTag @ '' >> '' @ tag)"

definition pick_handler :: "'h dispatch_env \<Rightarrow> outbound_session \<Rightarrow> ('h option \<times> nat) option" where
  "pick_handler env ob =
     (if de_forcedOutboundTag env \<noteq> [] then
        (case de_GetHandler env (de_forcedOutboundTag env) of
           Some h \<Rightarrow> Some (Some h, 1)
         | None \<Rightarrow> None)
      else case de_router env of
             None \<Rightarrow> Some (None, 0)
           | Some PickRoute \<Rightarrow>
               (case PickRoute ob of
                  None \<Rightarrow> Some (None, 0)
                | Some outTag \<Rightarrow>
                    (case de_GetHandler env outTag of
                       Some h \<Rightarrow> Some (Some h, 2)
                     | None \<Rightarrow> None)))"

definition routedDispatch ::
  "'h dispatch_env \<Rightarrow> outbound_session \<Rightarrow> 'h route_decision \<times> outbound_session" where
  "routedDispatch env ob =
     (case pick_handler env ob of
        None \<Rightarrow> (Dropped, ob)
      | Some (picked, isPickRoute) \<Rightarrow>
          (case (case picked of None \<Rightarrow> de_GetDefaultHandler env | Some h \<Rightarrow> Some h) of
             None \<Rightarrow> (Dropped, ob)
           | Some h \<Rightarrow>
               (Routed h isPickRoute (detour (de_inTag env) isPickRoute (de_handler_Tag env h)),
                ob\<lparr>ob_Tag := de_handler_Tag env h\<rparr>)))"

text \<open>
  What sniffing does to the destination. \<open>Dispatch\<close> asks for an IP address before the pool test,
  \<open>DispatchLink\<close> does not: the flag \<open>ip_only\<close> tells them apart.
\<close>

definition apply_sniff ::
  "'h dispatch_env \<Rightarrow> bool \<Rightarrow> SniffingRequest \<Rightarrow> sniff_outcome \<Rightarrow> destination \<Rightarrow> outbound_session \<Rightarrow> outbound_session" where
  "apply_sniff env ip_only request outcome destination ob =
     (case outcome of
        (Some result, None) \<Rightarrow>
          if shouldOverride (de_regexp env) (de_in_pool env (dn_Address destination))
               (de_is_ip env (dn_Address destination)) result request
          then let dest' = destination\<lparr>dn_Address := de_ParseAddress env (Domain result)\<rparr>;
                   protocol = (case ProtocolForDomainResult result of Some p \<Rightarrow> p | None \<Rightarrow> Protocol result);
                   isFakeIP = (de_in_pool env (dn_Address (ob_Target ob)) = Some True \<and>
                               (ip_only \<longrightarrow> de_is_ip env (dn_Address (ob_Target ob))))
               in if sr_RouteOnly request \<and> protocol \<noteq> ''fakedns'' \<and> protocol \<noteq> ''fakedns+others'' \<and> \<not> isFakeIP
                  then ob\<lparr>ob_RouteTarget := Some dest'\<rparr>
                  else ob\<lparr>ob_Target := dest'\<rparr>
          else ob
      | _ \<Rightarrow> ob)"

text \<open>
  The part after the link is ready. With sniffing on, the loop runs over the first reads of the link; the
  decision is \<open>None\<close> while the loop is still running.
\<close>

definition sniff_and_route ::
  "'h dispatch_env \<Rightarrow> bool \<Rightarrow> SniffingRequest \<Rightarrow> read_results \<Rightarrow> destination \<Rightarrow> outbound_session \<Rightarrow>
   ('h route_decision \<times> outbound_session) option" where
  "sniff_and_route env ip_only request reads destination ob =
     (if \<not> sr_Enabled request then Some (routedDispatch env ob)
      else map_option (\<lambda>(outcome, r). routedDispatch env (apply_sniff env ip_only request outcome destination ob))
             (sniffer (de_cap env) (de_sniffers env) (sr_MetadataOnly request) (dn_Network destination)
                (de_rounds env) \<lparr>cr_reader = reads, cr_cache = []\<rparr>))"

definition fresh_outbound :: "destination \<Rightarrow> outbound_session \<Rightarrow> outbound_session" where
  "fresh_outbound destination ob = ob\<lparr>ob_OriginalTarget := destination, ob_Target := destination\<rparr>"

text \<open>
  The two entry points. \<open>Dispatch\<close> panics on an invalid destination, \<open>DispatchLink\<close>
  returns an error; both are the error value here.
\<close>

definition Dispatch ::
  "(int \<Rightarrow> int \<Rightarrow> int \<Rightarrow> 'b) \<Rightarrow> clock \<Rightarrow> 'h dispatch_env \<Rightarrow> SniffingRequest \<Rightarrow> read_results \<Rightarrow> destination \<Rightarrow>
   outbound_session \<Rightarrow> 'b dispatch_state \<Rightarrow>
   (dispatch_error + 'b link \<times> ('h route_decision \<times> outbound_session) option) \<times> 'b dispatch_state" where
  "Dispatch NewBucketWithQuantum now env request reads destination ob st =
     (if \<not> dn_Valid destination then (Inl InvalidDestination, st)
      else case getLink NewBucketWithQuantum now st of
             (Inl err, st') \<Rightarrow> (Inl err, st')
           | (Inr (inbound, outbound), st') \<Rightarrow>
               (Inr (inbound, sniff_and_route env True request reads destination (fresh_outbound destination ob)), st'))"

definition DispatchLink ::
  "(int \<Rightarrow> int \<Rightarrow> int \<Rightarrow> 'b) \<Rightarrow> clock \<Rightarrow> 'h dispatch_env \<Rightarrow> SniffingRequest \<Rightarrow> read_results \<Rightarrow> destination \<Rightarrow>
   outbound_session \<Rightarrow> nat \<Rightarrow> nat \<Rightarrow> 'b dispatch_state \<Rightarrow>
   (dispatch_error + 'b link \<times> ('h route_decision \<times> outbound_session) option) \<times> 'b dispatch_state" where
  "DispatchLink NewBucketWithQuantum now env request reads destination ob outer_reader outer_writer st =
     (if \<not> dn_Valid destination then (Inl InvalidDestination, st)
      else case meter_link NewBucketWithQuantum now outer_reader outer_writer st of
             (Inl err, st') \<Rightarrow> (Inl err, st')
           | (Inr outbound, st') \<Rightarrow>
               (Inr (outbound, sniff_and_route env False request reads destination (fresh_outbound destination ob)), st'))"

section \<open>Closing all links of a user\<close>

lemma close_frame [simp]:
  "dd_closed (set_links lm m d) = dd_closed d" "dd_interrupted (set_links lm m d) = dd_interrupted d"
  "dd_writers (set_links lm m d) = dd_writers d" "dd_Counter (set_links lm m d) = dd_Counter d"
  "dd_LinkManagers (set_links lm m d) = dd_LinkManagers d" "dd_pipes (set_links lm m d) = dd_pipes d"
  "length (dd_managers (set_links lm m d)) = length (dd_managers d)"
  by (simp_all add: set_links_def)

lemma close_link_frame [simp]:
  "dd_writers (close_link e d) = dd_writers d" "dd_Counter (close_link e d) = dd_Counter d"
  "dd_LinkManagers (close_link e d) = dd_LinkManagers d" "dd_pipes (close_link e d) = dd_pipes d"
  "length (dd_managers (close_link e d)) = length (dd_managers d)"
  by (simp_all add: close_link_def ManagedWriter_Close_def RemoveWriter_def close_raw_def interrupt_reader_def Let_def)

lemma close_link_logs:
  "dd_closed (close_link e d) =
     dd_closed d @ (if fst e < length (dd_writers d) then [mw_writer (dd_writers d ! fst e)] else [])"
  "dd_interrupted (close_link e d) = dd_interrupted d @ [snd e]"
  by (simp_all add: close_link_def ManagedWriter_Close_def RemoveWriter_def close_raw_def interrupt_reader_def Let_def)

lemma close_links_frame [simp]:
  "dd_writers (fold close_link es d) = dd_writers d" "dd_Counter (fold close_link es d) = dd_Counter d"
  "dd_LinkManagers (fold close_link es d) = dd_LinkManagers d" "dd_pipes (fold close_link es d) = dd_pipes d"
  "length (dd_managers (fold close_link es d)) = length (dd_managers d)"
  by (induction es arbitrary: d) simp_all

lemma close_links_closed:
  "(p, r) \<in> set es \<Longrightarrow> p < length (dd_writers d) \<Longrightarrow> mw_writer (dd_writers d ! p) \<in> set (dd_closed (fold close_link es d))"
  "(p, r) \<in> set es \<Longrightarrow> r \<in> set (dd_interrupted (fold close_link es d))"
  "w \<in> set (dd_closed d) \<Longrightarrow> w \<in> set (dd_closed (fold close_link es d))"
  "r \<in> set (dd_interrupted d) \<Longrightarrow> r \<in> set (dd_interrupted (fold close_link es d))"
proof -
  have keep: "set (dd_closed d) \<subseteq> set (dd_closed (fold close_link es d))"
    "set (dd_interrupted d) \<subseteq> set (dd_interrupted (fold close_link es d))" for es d
    by (induction es arbitrary: d) (fastforce simp: close_link_logs)+
  show "w \<in> set (dd_closed d) \<Longrightarrow> w \<in> set (dd_closed (fold close_link es d))"
    and "r \<in> set (dd_interrupted d) \<Longrightarrow> r \<in> set (dd_interrupted (fold close_link es d))"
    using keep by blast+
  show "(p, r) \<in> set es \<Longrightarrow> p < length (dd_writers d) \<Longrightarrow> mw_writer (dd_writers d ! p) \<in> set (dd_closed (fold close_link es d))"
  proof (induction es arbitrary: d)
    case (Cons e es)
    show ?case
    proof (cases "e = (p, r)")
      case True
      then have "mw_writer (dd_writers d ! p) \<in> set (dd_closed (close_link e d))"
        using Cons.prems by (simp add: close_link_logs)
      then show ?thesis using keep(1) [of "close_link e d" es] by auto
    next
      case False
      then show ?thesis using Cons.prems Cons.IH [of "close_link e d"] by simp
    qed
  qed simp
  show "(p, r) \<in> set es \<Longrightarrow> r \<in> set (dd_interrupted (fold close_link es d))"
  proof (induction es arbitrary: d)
    case (Cons e es)
    show ?case
    proof (cases "e = (p, r)")
      case True
      then have "r \<in> set (dd_interrupted (close_link e d))" by (simp add: close_link_logs)
      then show ?thesis using keep(2) [of "close_link e d" es] by auto
    next
      case False
      then show ?thesis using Cons.prems Cons.IH [of "close_link e d"] by simp
    qed
  qed simp
qed

lemma CloseAll_eq:
  "CloseAll lm d = (if links_of d lm = [] then d else fold close_link (go_range (links_of d lm)) (set_links lm [] d))"
proof (cases "links_of d lm = []")
  case True
  then show ?thesis by (subst CloseAll.simps) simp
next
  case False
  let ?d = "fold close_link (go_range (links_of d lm)) (set_links lm [] d)"
  have "CloseAll lm ?d = ?d" by (subst CloseAll.simps) (simp add: CloseAll_pass_empty [OF False])
  with False show ?thesis by (subst CloseAll.simps) simp
qed

lemma CloseAll_frame [simp]:
  "dd_writers (CloseAll lm d) = dd_writers d" "dd_Counter (CloseAll lm d) = dd_Counter d"
  "dd_LinkManagers (CloseAll lm d) = dd_LinkManagers d" "dd_pipes (CloseAll lm d) = dd_pipes d"
  "length (dd_managers (CloseAll lm d)) = length (dd_managers d)"
  by (simp_all add: CloseAll_eq)

lemma CloseAll_links: "links_of (CloseAll lm d) lm = []"
  by (simp add: CloseAll_eq CloseAll_pass_empty)

lemma CloseAll_monotone:
  "w \<in> set (dd_closed d) \<Longrightarrow> w \<in> set (dd_closed (CloseAll lm d))"
  "r \<in> set (dd_interrupted d) \<Longrightarrow> r \<in> set (dd_interrupted (CloseAll lm d))"
  by (simp_all add: CloseAll_eq close_links_closed)

lemma CloseAll_closes:
  assumes "(p, r) \<in> set (links_of d lm)"
  shows "p < length (dd_writers d) \<Longrightarrow> mw_writer (dd_writers d ! p) \<in> set (dd_closed (CloseAll lm d))"
    and "r \<in> set (dd_interrupted (CloseAll lm d))"
proof -
  have ne: "links_of d lm \<noteq> []" and mem: "(p, r) \<in> set (go_range (links_of d lm))"
    using assms by (auto simp: go_range_def)
  show "p < length (dd_writers d) \<Longrightarrow> mw_writer (dd_writers d ! p) \<in> set (dd_closed (CloseAll lm d))"
    using close_links_closed(1) [OF mem, of "set_links lm [] d"] ne by (simp add: CloseAll_eq)
  show "r \<in> set (dd_interrupted (CloseAll lm d))"
    using close_links_closed(2) [OF mem, of "set_links lm [] d"] ne by (simp add: CloseAll_eq)
qed

section \<open>Well-formed dispatchers\<close>

definition managers_wf :: "DefaultDispatcher \<Rightarrow> bool" where
  "managers_wf d \<longleftrightarrow>
     go_wf (dd_LinkManagers d) \<and> list_all (\<lambda>e. snd e < length (dd_managers d)) (dd_LinkManagers d) \<and>
     list_all (\<lambda>m. go_wf (lk_links m) \<and> list_all (\<lambda>e. fst e < length (dd_writers d)) (lk_links m)) (dd_managers d)"

definition counters_wf :: "DefaultDispatcher \<Rightarrow> bool" where
  "counters_wf d \<longleftrightarrow> go_wf (dd_Counter d) \<and> list_all (\<lambda>e. counter_wf (snd e)) (dd_Counter d)"

definition disp_wf :: "DefaultDispatcher \<Rightarrow> bool" where
  "disp_wf d \<longleftrightarrow> managers_wf d \<and> counters_wf d"

lemma disp_wf_new [simp]: "disp_wf new_dispatcher"
  by (simp add: disp_wf_def managers_wf_def counters_wf_def new_dispatcher_def)

lemma managers_wf_load: "managers_wf d \<Longrightarrow> go_load (dd_LinkManagers d) e = Some lm \<Longrightarrow> lm < length (dd_managers d)"
  by (auto simp: managers_wf_def list_all_iff dest!: go_load_Some_in)

lemma managers_wf_links:
  "managers_wf d \<Longrightarrow> go_wf (links_of d lm)"
  "managers_wf d \<Longrightarrow> (w, r) \<in> set (links_of d lm) \<Longrightarrow> w < length (dd_writers d)"
proof -
  assume wf: "managers_wf d"
  show "go_wf (links_of d lm)"
    using wf by (simp add: managers_wf_def links_of_def list_all_length)
  show "(w, r) \<in> set (links_of d lm) \<Longrightarrow> w < length (dd_writers d)"
    using wf by (auto simp: managers_wf_def links_of_def list_all_length split: if_splits)
       (metis (no_types, lifting) fst_conv in_set_conv_nth)
qed

lemma list_all_update: "list_all P xs \<Longrightarrow> P x \<Longrightarrow> list_all P (xs[i := x])"
  by (simp add: list_all_length) (metis nth_list_update_eq nth_list_update_neq)

lemma managers_wf_set_links:
  "managers_wf d \<Longrightarrow> go_wf m \<Longrightarrow> list_all (\<lambda>e. fst e < length (dd_writers d)) m \<Longrightarrow> managers_wf (set_links lm m d)"
  by (auto simp: managers_wf_def set_links_def intro!: list_all_update)

lemma go_store_range: "set (go_store k v m) \<subseteq> insert (k, v) (set m)"
  by (induction m) (auto simp: go_store_def)

lemma managers_wf_AddLink:
  assumes "managers_wf d" "w < length (dd_writers d)"
  shows "managers_wf (AddLink lm w r d)"
  unfolding AddLink_def
proof (rule managers_wf_set_links [OF assms(1)])
  show "go_wf (go_store w r (links_of d lm))" using managers_wf_links(1) [OF assms(1)] by simp
  show "list_all (\<lambda>e. fst e < length (dd_writers d)) (go_store w r (links_of d lm))"
    using go_store_range [of w r "links_of d lm"] managers_wf_links(2) [OF assms(1)] assms(2)
    by (fastforce simp: list_all_iff)
qed

lemma managers_wf_RemoveWriter:
  assumes "managers_wf d" shows "managers_wf (RemoveWriter lm w d)"
  unfolding RemoveWriter_def
proof (rule managers_wf_set_links [OF assms])
  show "go_wf (go_delete w (links_of d lm))" using managers_wf_links(1) [OF assms] by simp
  show "list_all (\<lambda>e. fst e < length (dd_writers d)) (go_delete w (links_of d lm))"
    using managers_wf_links(2) [OF assms] by (fastforce simp: go_delete_filter list_all_iff)
qed

lemma managers_wf_frame [simp]:
  "managers_wf (close_raw w d) = managers_wf d"
  "managers_wf (interrupt_reader r d) = managers_wf d"
  "managers_wf (d\<lparr>dd_Counter := c\<rparr>) = managers_wf d"
  "managers_wf (d\<lparr>dd_pipes := n\<rparr>) = managers_wf d"
  by (simp_all add: managers_wf_def close_raw_def interrupt_reader_def)

lemma managers_wf_close_links: "managers_wf d \<Longrightarrow> managers_wf (fold close_link es d)"
  by (rule fold_wf [where P = managers_wf])
     (simp_all add: close_link_def ManagedWriter_Close_def managers_wf_RemoveWriter Let_def)

lemma managers_wf_CloseAll: "managers_wf d \<Longrightarrow> managers_wf (CloseAll lm d)"
  by (simp add: CloseAll_eq managers_wf_close_links managers_wf_set_links)

lemma less_Suc_all:
  "list_all (\<lambda>e. f e < n) xs \<Longrightarrow> list_all (\<lambda>e. f e < Suc n) xs"
  by (erule list.pred_mono_strong) simp

lemma managers_wf_new_manager:
  assumes "managers_wf d" and "go_load (dd_LinkManagers d) email = None"
  shows "managers_wf (snd (new_link_manager email d))"
proof -
  have "list_all (\<lambda>e. snd e < Suc (length (dd_managers d))) (dd_LinkManagers d)"
    using assms(1) by (simp add: managers_wf_def less_Suc_all)
  moreover have "go_wf (go_store email (length (dd_managers d)) (dd_LinkManagers d))"
    using assms(1) by (simp add: managers_wf_def)
  ultimately show ?thesis
    using assms by (simp add: managers_wf_def new_link_manager_def go_store_new)
qed

lemma link_manager_for_spec:
  assumes "managers_wf d" and "link_manager_for email d = (lm, d')"
  shows "managers_wf d'" and "go_load (dd_LinkManagers d') email = Some lm"
    and "lm < length (dd_managers d')" and "dd_writers d' = dd_writers d" and "dd_Counter d' = dd_Counter d"
    and "dd_closed d' = dd_closed d" and "dd_interrupted d' = dd_interrupted d"
proof -
  have "managers_wf d' \<and> go_load (dd_LinkManagers d') email = Some lm \<and> lm < length (dd_managers d') \<and>
    dd_writers d' = dd_writers d \<and> dd_Counter d' = dd_Counter d \<and>
    dd_closed d' = dd_closed d \<and> dd_interrupted d' = dd_interrupted d"
  proof (cases "go_load (dd_LinkManagers d) email")
    case None
    then show ?thesis
      using assms managers_wf_new_manager [OF assms(1) None] by (auto simp: link_manager_for_def new_link_manager_def)
  next
    case (Some q)
    then show ?thesis using assms managers_wf_load [OF assms(1) Some] by (simp add: link_manager_for_def)
  qed
  then show "managers_wf d'" and "go_load (dd_LinkManagers d') email = Some lm"
    and "lm < length (dd_managers d')" and "dd_writers d' = dd_writers d" and "dd_Counter d' = dd_Counter d"
    and "dd_closed d' = dd_closed d" and "dd_interrupted d' = dd_interrupted d" by auto
qed

lemma new_managed_writer_spec:
  assumes "new_managed_writer w lm d = (mw, d')"
  shows "managers_wf d \<Longrightarrow> managers_wf d'" and "mw < length (dd_writers d')"
    and "dd_writers d' ! mw = \<lparr>mw_writer = w, mw_manager = lm\<rparr>"
    and "dd_LinkManagers d' = dd_LinkManagers d" and "dd_Counter d' = dd_Counter d"
    and "dd_managers d' = dd_managers d"
proof -
  have d': "d' = d\<lparr>dd_writers := dd_writers d @ [\<lparr>mw_writer = w, mw_manager = lm\<rparr>]\<rparr>" and mw: "mw = length (dd_writers d)"
    using assms by (simp_all add: new_managed_writer_def)
  show "managers_wf d \<Longrightarrow> managers_wf d'"
    by (auto simp: d' managers_wf_def less_Suc_all elim!: list.pred_mono_strong)
  show "mw < length (dd_writers d')" and "dd_writers d' ! mw = \<lparr>mw_writer = w, mw_manager = lm\<rparr>"
    and "dd_LinkManagers d' = dd_LinkManagers d" and "dd_Counter d' = dd_Counter d"
    and "dd_managers d' = dd_managers d" by (simp_all add: d' mw)
qed

lemma counters_wf_load: "counters_wf d \<Longrightarrow> go_load (dd_Counter d) t = Some c \<Longrightarrow> counter_wf c"
  by (auto simp: counters_wf_def list_all_iff dest!: go_load_Some_in)

lemma user_storage_spec:
  assumes "counters_wf d" and "user_storage tag email d = (ts, d')"
  shows "counters_wf d'"
    and "\<exists>t. go_load (dd_Counter d') tag = Some t \<and> go_load (tc_Counters t) email = Some ts"
    and "\<exists>c. d' = d\<lparr>dd_Counter := c\<rparr>"
proof -
  let ?t = "case go_load (dd_Counter d) tag of None \<Rightarrow> NewTrafficCounter | Some c \<Rightarrow> c"
  have wf: "counter_wf ?t" using counters_wf_load [OF assms(1)] by (simp split: option.splits)
  obtain p t' where g: "GetCounter email ?t = (p, t')" by (cases "GetCounter email ?t")
  have d': "d' = d\<lparr>dd_Counter := go_store tag t' (dd_Counter d)\<rparr>" and ts: "ts = p"
    using assms(2) g by (simp_all add: user_storage_def Let_def)
  have "counter_wf t'" using counter_wf_GetCounter [OF wf, of email] g by simp
  then show "counters_wf d'"
    using assms(1) go_store_range [of tag t' "dd_Counter d"] by (fastforce simp: d' counters_wf_def list_all_iff)
  show "\<exists>t. go_load (dd_Counter d') tag = Some t \<and> go_load (tc_Counters t) email = Some ts"
    using GetCounter_spec(1) [OF wf g] by (simp add: d' ts)
  show "\<exists>c. d' = d\<lparr>dd_Counter := c\<rparr>" using d' by blast
qed

lemma disp_wf_frame [simp]:
  "disp_wf (close_raw w d) = disp_wf d" "disp_wf (interrupt_reader r d) = disp_wf d"
  "disp_wf (d\<lparr>dd_pipes := n\<rparr>) = disp_wf d"
  by (simp_all add: disp_wf_def counters_wf_def close_raw_def interrupt_reader_def managers_wf_def)

lemma counters_wf_Counter: "dd_Counter d' = dd_Counter d \<Longrightarrow> counters_wf d' = counters_wf d"
  by (simp add: counters_wf_def)

lemma links_of_update [simp]: "links_of (d\<lparr>dd_Counter := c\<rparr>) lm = links_of d lm"
  by (simp add: links_of_def)

lemma links_of_AddLink: "lm < length (dd_managers d) \<Longrightarrow> go_load (links_of (AddLink lm w r d) lm) w = Some r"
  by (simp add: AddLink_def links_of_set)

lemma AddLink_frame [simp]:
  "dd_writers (AddLink lm w r d) = dd_writers d" "dd_LinkManagers (AddLink lm w r d) = dd_LinkManagers d"
  "dd_Counter (AddLink lm w r d) = dd_Counter d" "length (dd_managers (AddLink lm w r d)) = length (dd_managers d)"
  by (simp_all add: AddLink_def)

text \<open>
  What both entry points establish for a user's connection: it is in the links of the user's manager
  under a managed writer for the raw writer, and the storage it counts into is the one
  bound to the user in the node's counter.
\<close>

definition registered_link :: "DefaultDispatcher \<Rightarrow> string \<Rightarrow> string \<Rightarrow> raw_writer \<Rightarrow> nat \<Rightarrow> reader \<Rightarrow> nat \<Rightarrow> bool" where
  "registered_link d tag email raw mw rd ts \<longleftrightarrow>
     (\<exists>lm t. go_load (dd_LinkManagers d) email = Some lm \<and> go_load (links_of d lm) mw = Some rd \<and>
             mw < length (dd_writers d) \<and> dd_writers d ! mw = \<lparr>mw_writer = raw, mw_manager = lm\<rparr> \<and>
             go_load (dd_Counter d) tag = Some t \<and> go_load (tc_Counters t) email = Some ts)"

lemma open_link_spec:
  assumes wf: "disp_wf d" and lm: "link_manager_for email d = (lm, d1)"
    and mw: "new_managed_writer raw lm d1 = (mw, d2)"
    and ts: "user_storage tag email (AddLink lm mw rd d2) = (ts, d4)"
  shows "registered_link d4 tag email raw mw rd ts" and "disp_wf d4"
proof -
  note l = link_manager_for_spec [OF _ lm] and m = new_managed_writer_spec [OF mw]
  have m0: "managers_wf d" and c0: "counters_wf d" using wf by (auto simp: disp_wf_def)
  have m3: "managers_wf (AddLink lm mw rd d2)"
    using m(1) [OF l(1) [OF m0]] m(2) by (rule managers_wf_AddLink)
  have c3: "counters_wf (AddLink lm mw rd d2)" using c0 l(5) [OF m0] m(5) by (simp add: counters_wf_def)
  note u = user_storage_spec [OF c3 ts]
  from u(3) obtain c where d4: "d4 = (AddLink lm mw rd d2)\<lparr>dd_Counter := c\<rparr>" by blast
  have "lm < length (dd_managers d2)" using l(3) [OF m0] m(6) by simp
  then show "registered_link d4 tag email raw mw rd ts"
    using u(2) l(2) [OF m0] m(2,3,4) by (auto simp: registered_link_def d4 links_of_AddLink)
  show "disp_wf d4" using m3 u(1) by (simp add: disp_wf_def d4)
qed

lemma open_outer_link_spec:
  assumes wf: "disp_wf d" and lm: "link_manager_for email d = (lm, d1)"
    and mw: "new_managed_writer raw lm d1 = (mw, d2)" and ts: "user_storage tag email d2 = (ts, d3)"
  shows "registered_link (AddLink lm mw rd d3) tag email raw mw rd ts" and "disp_wf (AddLink lm mw rd d3)"
proof -
  note l = link_manager_for_spec [OF _ lm] and m = new_managed_writer_spec [OF mw]
  have m0: "managers_wf d" and c0: "counters_wf d" using wf by (auto simp: disp_wf_def)
  have c2: "counters_wf d2" using c0 l(5) [OF m0] m(5) by (simp add: counters_wf_def)
  note u = user_storage_spec [OF c2 ts]
  from u(3) obtain c where d3: "d3 = d2\<lparr>dd_Counter := c\<rparr>" by blast
  have m3: "managers_wf (AddLink lm mw rd d3)"
    using m(1) [OF l(1) [OF m0]] m(2) by (intro managers_wf_AddLink) (simp_all add: d3)
  have "lm < length (dd_managers d3)" using l(3) [OF m0] m(6) by (simp add: d3)
  then show "registered_link (AddLink lm mw rd d3) tag email raw mw rd ts"
    using u(2) l(2) [OF m0] m(2,3,4) by (auto simp: registered_link_def d3 links_of_AddLink)
  show "disp_wf (AddLink lm mw rd d3)" using m3 u(1) by (simp add: disp_wf_def counters_wf_def)
qed

text \<open>Cutting all links of the user, as the removal of a user does.\<close>

definition cut_user :: "string \<Rightarrow> DefaultDispatcher \<Rightarrow> DefaultDispatcher" where
  "cut_user user d =
     (case go_load (dd_LinkManagers d) user of
        Some lm \<Rightarrow> (CloseAll lm d)\<lparr>dd_LinkManagers := go_delete user (dd_LinkManagers d)\<rparr>
      | None \<Rightarrow> d)"

lemma cut_registered:
  assumes "registered_link d tag email raw mw rd ts"
  shows "raw \<in> set (dd_closed (cut_user email d))" and "rd \<in> set (dd_interrupted (cut_user email d))"
    and "go_load (dd_LinkManagers (cut_user email d)) email = None"
proof -
  from assms obtain lm where lm: "go_load (dd_LinkManagers d) email = Some lm"
    and mem: "(mw, rd) \<in> set (links_of d lm)"
    and w: "mw < length (dd_writers d)" "mw_writer (dd_writers d ! mw) = raw"
    by (auto simp: registered_link_def dest: go_load_Some_in)
  show "raw \<in> set (dd_closed (cut_user email d))" and "rd \<in> set (dd_interrupted (cut_user email d))"
    and "go_load (dd_LinkManagers (cut_user email d)) email = None"
    using CloseAll_closes [OF mem] w by (simp_all add: cut_user_def lm)
qed

section \<open>The two entry points\<close>

lemma getLink_accepted:
  assumes wf: "disp_wf (ds_disp st)" and auth: "authenticated_email (ds_session st) = Some (si, email)"
    and run: "getLink mk now st = (Inr (inb, outb), st')"
  shows "\<exists>mw ts w. registered_link (ds_disp st') (si_Tag si) email (PipeWriter (dd_pipes (ds_disp st))) mw (ln_Reader outb) ts \<and>
           ln_Writer inb = SizeStatW (rate_limited w (ManagedW mw)) (si_Tag si) (UpRef ts) \<and>
           ln_Writer outb = SizeStatW (rate_limited w (RawW (PipeWriter (dd_pipes (ds_disp st) + 1)))) (si_Tag si) (DownRef ts) \<and>
           disp_wf (ds_disp st')"
proof -
  let ?n = "dd_pipes (ds_disp st)"
  let ?d0 = "(ds_disp st)\<lparr>dd_pipes := ?n + 2\<rparr>"
  have wf0: "disp_wf ?d0" using wf by simp
  obtain limit where l: "GetLimiter (ds_limiters st) (si_Tag si) = Inr limit"
    using run by (cases "GetLimiter (ds_limiters st) (si_Tag si)") (auto simp: getLink_def auth Let_def)
  obtain limit' w reject where c: "CheckLimit mk now email (si_SourceIP si) (si_SourceTCP si) limit = (limit', w, reject)"
    by (metis prod.exhaust)
  have ok: "\<not> reject" using run by (auto simp: getLink_def auth Let_def l c)
  obtain lm d1 where lm: "link_manager_for email ?d0 = (lm, d1)" by (cases "link_manager_for email ?d0")
  obtain mw d2 where mw: "new_managed_writer (PipeWriter ?n) lm d1 = (mw, d2)" by (metis prod.exhaust)
  obtain ts d4 where ts: "user_storage (si_Tag si) email (AddLink lm mw (PipeReader ?n) d2) = (ts, d4)" by (metis prod.exhaust)
  have "ds_disp st' = d4" "ln_Reader outb = PipeReader ?n"
    "ln_Writer inb = SizeStatW (rate_limited w (ManagedW mw)) (si_Tag si) (UpRef ts)"
    "ln_Writer outb = SizeStatW (rate_limited w (RawW (PipeWriter (?n + 1)))) (si_Tag si) (DownRef ts)"
    using run ok lm mw ts by (auto simp: getLink_def auth Let_def l c)
  then show ?thesis using open_link_spec [OF wf0 lm mw ts] by auto
qed

lemma meter_link_accepted:
  assumes wf: "disp_wf (ds_disp st)" and auth: "authenticated_email (ds_session st) = Some (si, email)"
    and run: "meter_link mk now rn wn st = (Inr outb, st')"
  shows "\<exists>mw ts w. registered_link (ds_disp st') (si_Tag si) email (OuterWriter wn) mw (ln_Reader outb) ts \<and>
           ln_Reader outb = CounterReader (TimeoutWrapperReader (OuterReader rn)) (si_Tag si) ts \<and>
           ln_Writer outb = SizeStatW (rate_limited w (ManagedW mw)) (si_Tag si) (DownRef ts) \<and>
           disp_wf (ds_disp st')"
proof -
  obtain limit where l: "GetLimiter (ds_limiters st) (si_Tag si) = Inr limit"
    using run by (cases "GetLimiter (ds_limiters st) (si_Tag si)") (auto simp: meter_link_def auth Let_def)
  obtain limit' w reject where c: "CheckLimit mk now email (si_SourceIP si) (si_SourceTCP si) limit = (limit', w, reject)"
    by (metis prod.exhaust)
  have ok: "\<not> reject" using run by (auto simp: meter_link_def auth Let_def l c)
  obtain lm d1 where lm: "link_manager_for email (ds_disp st) = (lm, d1)" by (metis prod.exhaust)
  obtain mw d2 where mw: "new_managed_writer (OuterWriter wn) lm d1 = (mw, d2)" by (metis prod.exhaust)
  obtain ts d3 where ts: "user_storage (si_Tag si) email d2 = (ts, d3)" by (metis prod.exhaust)
  let ?rd = "CounterReader (TimeoutWrapperReader (OuterReader rn)) (si_Tag si) ts"
  have "ds_disp st' = AddLink lm mw ?rd d3" "ln_Reader outb = ?rd"
    "ln_Writer outb = SizeStatW (rate_limited w (ManagedW mw)) (si_Tag si) (DownRef ts)"
    using run ok lm mw ts by (auto simp: meter_link_def auth Let_def l c)
  then show ?thesis using open_outer_link_spec [OF wf lm mw ts, of ?rd] by auto
qed

lemma getLink_refused:
  assumes "getLink mk now st = (Inl err, st')"
  shows "ds_disp st' = (ds_disp st)
           \<lparr>dd_pipes := dd_pipes (ds_disp st) + 2,
            dd_closed := dd_closed (ds_disp st) @ [PipeWriter (dd_pipes (ds_disp st) + 1), PipeWriter (dd_pipes (ds_disp st))],
            dd_interrupted := dd_interrupted (ds_disp st) @ [PipeReader (dd_pipes (ds_disp st)), PipeReader (dd_pipes (ds_disp st) + 1)]\<rparr>"
  using assms
  by (auto simp: getLink_def Let_def refuse_link_def close_raw_def interrupt_reader_def
      split: option.splits sum.splits prod.splits if_splits)

text \<open>A concrete user with one node, used in the witnesses.\<close>

definition demo_session :: session_inbound where
  "demo_session = \<lparr>si_Tag = ''T'', si_User = Some ''T|u'', si_SourceIP = ''10.0.0.1'', si_SourceTCP = True, si_CanSpliceCopy = 0\<rparr>"

definition demo_state :: "int dispatch_state" where
  "demo_state = \<lparr>ds_limiters = [(''T'', demo_limiter)], ds_disp = new_dispatcher, ds_session = Some demo_session\<rparr>"

definition accepts :: "(dispatch_error + 'x) \<times> 'y \<Rightarrow> bool" where
  "accepts r = (case fst r of Inl _ \<Rightarrow> False | Inr _ \<Rightarrow> True)"

lemma accepts_elim: "accepts r \<Longrightarrow> \<exists>x y. r = (Inr x, y)"
  by (cases r) (auto simp: accepts_def split: sum.splits)

lemma demo_authenticated: "authenticated_email (ds_session demo_state) = Some (demo_session, ''T|u'')"
  by (simp add: authenticated_email_def demo_state_def demo_session_def)

lemma demo_disp [simp]: "ds_disp demo_state = new_dispatcher"
  by (simp add: demo_state_def)

lemma demo_disp_wf: "disp_wf (ds_disp demo_state)"
  by simp

lemma new_dispatcher_pipes [simp]: "dd_pipes new_dispatcher = 0"
  by (simp add: new_dispatcher_def)

section \<open>Properties\<close>

text \<open>
  C9. A connection of a user that the dispatcher accepts is metered and can be cut: both returned
  writers count into the storage bound to that user in the node's traffic counter, and cutting the
  user's links closes the writer of the connection, interrupts its reader and forgets the link
  manager.
\<close>

theorem getLink_metered_and_cuttable:
  assumes "disp_wf (ds_disp st)" and "authenticated_email (ds_session st) = Some (si, email)"
    and "getLink mk now st = (Inr (inb, outb), st')"
  shows "\<exists>mw ts w t. ln_Writer inb = SizeStatW (rate_limited w (ManagedW mw)) (si_Tag si) (UpRef ts) \<and>
           ln_Writer outb = SizeStatW (rate_limited w (RawW (PipeWriter (dd_pipes (ds_disp st) + 1)))) (si_Tag si) (DownRef ts) \<and>
           go_load (dd_Counter (ds_disp st')) (si_Tag si) = Some t \<and> go_load (tc_Counters t) email = Some ts \<and>
           mw_writer (dd_writers (ds_disp st') ! mw) = PipeWriter (dd_pipes (ds_disp st)) \<and>
           PipeWriter (dd_pipes (ds_disp st)) \<in> set (dd_closed (cut_user email (ds_disp st'))) \<and>
           ln_Reader outb \<in> set (dd_interrupted (cut_user email (ds_disp st'))) \<and>
           go_load (dd_LinkManagers (cut_user email (ds_disp st'))) email = None"
proof -
  from getLink_accepted [OF assms] obtain mw ts w
    where r: "registered_link (ds_disp st') (si_Tag si) email (PipeWriter (dd_pipes (ds_disp st))) mw (ln_Reader outb) ts"
      and w: "ln_Writer inb = SizeStatW (rate_limited w (ManagedW mw)) (si_Tag si) (UpRef ts)"
        "ln_Writer outb = SizeStatW (rate_limited w (RawW (PipeWriter (dd_pipes (ds_disp st) + 1)))) (si_Tag si) (DownRef ts)"
    by blast
  from r obtain t where t: "go_load (dd_Counter (ds_disp st')) (si_Tag si) = Some t" "go_load (tc_Counters t) email = Some ts"
    and m: "mw_writer (dd_writers (ds_disp st') ! mw) = PipeWriter (dd_pipes (ds_disp st))"
    by (auto simp: registered_link_def)
  show ?thesis using w t m cut_registered [OF r] by blast
qed

theorem getLink_metered_and_cuttable_witness:
  "\<exists>inb outb st'. getLink demo_bucket 0 demo_state = (Inr (inb, outb), st') \<and>
     PipeWriter 0 \<in> set (dd_closed (cut_user ''T|u'' (ds_disp st')))"
proof -
  have "accepts (getLink demo_bucket 0 demo_state)" by code_simp
  then obtain inb outb st' where run: "getLink demo_bucket 0 demo_state = (Inr (inb, outb), st')"
    using accepts_elim by (metis prod.collapse)
  from getLink_metered_and_cuttable [OF demo_disp_wf demo_authenticated run]
  show ?thesis using run by auto
qed

text \<open>
  A link handed in by a protocol handler that the dispatcher accepts counts its uploads on the
  reader and its downloads on the writer, both on the user's own storage, and cutting the user's
  links closes the handler's writer and interrupts the counted reader.
\<close>

theorem meter_link_metered_and_cuttable:
  assumes "disp_wf (ds_disp st)" and "authenticated_email (ds_session st) = Some (si, email)"
    and "meter_link mk now rn wn st = (Inr outb, st')"
  shows "\<exists>ts mw w t. ln_Reader outb = CounterReader (TimeoutWrapperReader (OuterReader rn)) (si_Tag si) ts \<and>
           ln_Writer outb = SizeStatW (rate_limited w (ManagedW mw)) (si_Tag si) (DownRef ts) \<and>
           go_load (dd_Counter (ds_disp st')) (si_Tag si) = Some t \<and> go_load (tc_Counters t) email = Some ts \<and>
           OuterWriter wn \<in> set (dd_closed (cut_user email (ds_disp st'))) \<and>
           ln_Reader outb \<in> set (dd_interrupted (cut_user email (ds_disp st')))"
proof -
  from meter_link_accepted [OF assms] obtain mw ts w
    where r: "registered_link (ds_disp st') (si_Tag si) email (OuterWriter wn) mw (ln_Reader outb) ts"
      and w: "ln_Reader outb = CounterReader (TimeoutWrapperReader (OuterReader rn)) (si_Tag si) ts"
        "ln_Writer outb = SizeStatW (rate_limited w (ManagedW mw)) (si_Tag si) (DownRef ts)"
    by blast
  from r obtain t where t: "go_load (dd_Counter (ds_disp st')) (si_Tag si) = Some t" "go_load (tc_Counters t) email = Some ts"
    by (auto simp: registered_link_def)
  show ?thesis using w t cut_registered [OF r] by blast
qed

theorem meter_link_metered_and_cuttable_witness:
  "\<exists>outb st'. meter_link demo_bucket 0 7 8 demo_state = (Inr outb, st') \<and>
     OuterWriter 8 \<in> set (dd_closed (cut_user ''T|u'' (ds_disp st')))"
proof -
  have "accepts (meter_link demo_bucket 0 7 8 demo_state)" by code_simp
  then obtain outb st' where run: "meter_link demo_bucket 0 7 8 demo_state = (Inr outb, st')"
    using accepts_elim by metis
  from meter_link_metered_and_cuttable [OF demo_disp_wf demo_authenticated run]
  show ?thesis using run by auto
qed

text \<open>
  A refused connection leaves nothing behind: both writers are closed, both readers interrupted,
  and the link managers and the traffic counters are as before.
\<close>

theorem getLink_refused_clean:
  assumes "getLink mk now st = (Inl err, st')"
  shows "dd_LinkManagers (ds_disp st') = dd_LinkManagers (ds_disp st) \<and>
         dd_managers (ds_disp st') = dd_managers (ds_disp st) \<and> dd_Counter (ds_disp st') = dd_Counter (ds_disp st) \<and>
         (let n = dd_pipes (ds_disp st)
          in {PipeWriter n, PipeWriter (n + 1)} \<subseteq> set (dd_closed (ds_disp st')) \<and>
             {PipeReader n, PipeReader (n + 1)} \<subseteq> set (dd_interrupted (ds_disp st')))"
  by (simp add: getLink_refused [OF assms] Let_def)

theorem getLink_refused_clean_witness:
  "\<exists>err st'. getLink demo_bucket 0 (demo_state\<lparr>ds_limiters := []\<rparr>) = (Inl err, st') \<and>
     dd_Counter (ds_disp st') = [] \<and> {PipeWriter 0, PipeWriter 1} \<subseteq> set (dd_closed (ds_disp st'))"
proof -
  have "fst (getLink demo_bucket 0 (demo_state\<lparr>ds_limiters := []\<rparr>)) = Inl (GetLimiterError ''T'')"
    by (simp add: getLink_def demo_state_def demo_session_def authenticated_email_def GetLimiter_def Let_def)
  then obtain st' where run: "getLink demo_bucket 0 (demo_state\<lparr>ds_limiters := []\<rparr>) = (Inl (GetLimiterError ''T''), st')"
    by (metis prod.collapse)
  show ?thesis using getLink_refused_clean [OF run] run by (auto simp: new_dispatcher_def Let_def)
qed

text \<open>
  The default outbound is taken only when nothing was asked for: a forced tag or a routing rule that
  names a missing outbound drops the connection instead.
\<close>

theorem routedDispatch_default_only_unrouted:
  "fst (routedDispatch env ob) = Routed h 0 det \<longleftrightarrow>
     de_forcedOutboundTag env = [] \<and> (case de_router env of None \<Rightarrow> True | Some pick \<Rightarrow> pick ob = None) \<and>
     de_GetDefaultHandler env = Some h \<and> det = detour (de_inTag env) 0 (de_handler_Tag env h)"
  by (auto simp: routedDispatch_def pick_handler_def split: option.splits if_splits)

text \<open>
  Two first connections of a user that both find no link manager each store their own; the second
  store replaces the first, so cutting the user's links afterwards closes the second connection and
  leaves the first one open.
\<close>

theorem link_manager_race_leaks:
  assumes "go_load (dd_LinkManagers d) email = None"
    and a: "new_link_manager email d = (lmA, d1)" "new_managed_writer wA lmA d1 = (mwA, d2)"
    and b: "new_link_manager email (AddLink lmA mwA rA d2) = (lmB, d4)" "new_managed_writer wB lmB d4 = (mwB, d5)"
    and "wA \<notin> set (dd_closed d)" and "wA \<noteq> wB"
  shows "wB \<in> set (dd_closed (cut_user email (AddLink lmB mwB rB d5))) \<and>
         wA \<notin> set (dd_closed (cut_user email (AddLink lmB mwB rB d5)))"
proof -
  let ?d6 = "AddLink lmB mwB rB d5"
  have d1: "d1 = d\<lparr>dd_managers := dd_managers d @ [\<lparr>lk_links = []\<rparr>],
      dd_LinkManagers := go_store email (length (dd_managers d)) (dd_LinkManagers d)\<rparr>"
    and lmA: "lmA = length (dd_managers d)" using a(1) by (auto simp: new_link_manager_def)
  have d2: "dd_closed d2 = dd_closed d" "length (dd_managers d2) = Suc (length (dd_managers d))"
    using a(2) by (auto simp: new_managed_writer_def d1)
  have lmB: "lmB = Suc (length (dd_managers d))" using b(1) d2 by (auto simp: new_link_manager_def)
  have d5: "links_of d5 lmB = []" "dd_closed d5 = dd_closed d" "lmB < length (dd_managers d5)"
      "mwB < length (dd_writers d5)" "dd_writers d5 ! mwB = \<lparr>mw_writer = wB, mw_manager = lmB\<rparr>"
      "go_load (dd_LinkManagers d5) email = Some lmB"
    using b d2 lmB by (auto simp: new_link_manager_def new_managed_writer_def links_of_def AddLink_def nth_append)
  have links: "links_of ?d6 lmB = [(mwB, rB)]" using d5 by (simp add: AddLink_def links_of_set go_store_def)
  then have "dd_closed (CloseAll lmB ?d6) = dd_closed d @ [wB]"
    using d5 by (simp add: CloseAll_eq go_range_def close_link_logs AddLink_def)
  then show ?thesis using assms d5 by (simp add: cut_user_def)
qed

theorem link_manager_race_leaks_witness:
  "PipeWriter 0 \<notin> set (dd_closed (cut_user ''T|u''
     (AddLink 1 1 (PipeReader 2)
       (snd (new_managed_writer (PipeWriter 2) 1
         (snd (new_link_manager ''T|u''
           (AddLink 0 0 (PipeReader 0)
             (snd (new_managed_writer (PipeWriter 0) 0 (snd (new_link_manager ''T|u'' new_dispatcher))))))))))))"
  using link_manager_race_leaks [of new_dispatcher "''T|u''" 0 _ "PipeWriter 0" 0 _ "PipeReader 0" 1 _ "PipeWriter 2" 1 _ "PipeReader 2"]
  by (simp add: new_dispatcher_def new_link_manager_def new_managed_writer_def AddLink_def)

end
