(* ===== verification/Inbound_Config.thy ===== *)
theory Inbound_Config
  imports Panel_Types
begin

text \<open>
  How the node description of the panel becomes the configuration of an Xray inbound
  (\<open>core/inbound.go\<close>): protocol settings, transport, PROXY protocol, port, listen address,
  sniffing, TLS or REALITY. The configuration structures of Xray are records with the fields the
  code sets. Decoding the panel's raw network settings, parsing an address and the final
  \<open>Build\<close> belong to Xray and to the JSON package and are arguments, as are the random bytes.
\<close>

section \<open>Configuration structures\<close>

datatype build_error =
    UnsupportedNodeType string | UnmarshalNetworkSettings | CertInfoMissing
  | UnsupportedDecryption string | UnmarshalTransport string | NetworkTypeInvalid
  | UnmarshalShadowsocks | BuildFailed string

datatype transport_kind = TCPSettings | WSSettings | GRPCSettings | HTTPUPGRADESettings | SplitHTTPSettings

record TLSConfig =
  tl_CertFile :: string
  tl_KeyFile :: string
  tl_OcspStapling :: int
  tl_RejectUnknownSNI :: bool
  tl_ALPN :: "string list option"

record REALITYConfig =
  ry_Dest :: string
  ry_Xver :: "64 word"
  ry_Show :: bool
  ry_ServerNames :: "string list"
  ry_PrivateKey :: string
  ry_ShortIds :: "string list"
  ry_Mldsa65Seed :: string

record QuicParamsConfig =
  qp_Congestion :: string
  qp_BrutalUp :: string
  qp_BrutalDown :: string

record FinalMask =
  fm_QuicParams :: "QuicParamsConfig option"
  fm_Udp :: "(string \<times> string) list"

text \<open>
  The HTTP header the shadowsocks obfuscation puts on TCP: path and host. Decoded transport settings
  of type \<open>'t\<close> are what \<open>json.Unmarshal\<close> makes of the panel's text.
\<close>

datatype 't transport_settings =
    Decoded transport_kind 't
  | ShadowsocksTCP bool "(string \<times> string option) option"

record 't StreamConfig =
  sc_Network :: "string option"
  sc_Security :: string
  sc_Transport :: "'t transport_settings option"
  sc_AcceptProxyProtocol :: "bool option"
  sc_TLSSettings :: "TLSConfig option"
  sc_REALITYSettings :: "REALITYConfig option"
  sc_FinalMask :: "FinalMask option"
  sc_HysteriaVersion :: "int option"

definition empty_StreamConfig :: "'t StreamConfig" where
  "empty_StreamConfig =
     \<lparr>sc_Network = None, sc_Security = [], sc_Transport = None, sc_AcceptProxyProtocol = None,
      sc_TLSSettings = None, sc_REALITYSettings = None, sc_FinalMask = None, sc_HysteriaVersion = None\<rparr>"

text \<open>The protocol settings, before they are marshalled.\<close>

datatype protocol_settings =
    VLessSettings string
  | VMessSettings
  | TrojanSettings
  | ShadowsocksSettings string string "(string \<times> string) list" "string list"
  | SocksSettings bool
  | HTTPSettings string
  | HysteriaSettings int
  | TuicSettings string bool
  | AnyTLSSettings "string list"

record 't InboundDetourConfig =
  in_Protocol :: string
  in_Settings :: "protocol_settings option"
  in_StreamSetting :: "'t StreamConfig option"
  in_PortFrom :: "32 word"
  in_PortTo :: "32 word"
  in_ListenOn :: string
  in_SniffingEnabled :: bool
  in_DestOverride :: "string list"
  in_Tag :: string

definition empty_inbound :: "'t InboundDetourConfig" where
  "empty_inbound =
     \<lparr>in_Protocol = [], in_Settings = None, in_StreamSetting = None, in_PortFrom = 0, in_PortTo = 0,
      in_ListenOn = [], in_SniffingEnabled = False, in_DestOverride = [], in_Tag = []\<rparr>"

text \<open>What the JSON and random sources give: see the builders.\<close>

record 't build_env =
  be_transport :: "transport_kind \<Rightarrow> string \<Rightarrow> 't option"
  be_proxy_protocol :: "string \<Rightarrow> bool option"
  be_shadowsocks_http :: "string \<Rightarrow> (bool \<times> string \<times> string) option"
  be_random_hex :: string
  be_authGuard :: string
  be_ParseAddress :: "string \<Rightarrow> string"

section \<open>Listen addresses and ALPN\<close>

definition HasSuffix :: "string \<Rightarrow> string \<Rightarrow> bool" where
  "HasSuffix s p = HasPrefix (rev s) (rev p)"

definition TrimSuffix :: "string \<Rightarrow> string \<Rightarrow> string" where
  "TrimSuffix s p = (if HasSuffix s p then take (length s - length p) s else s)"

definition normalizeNodeListenIP :: "string \<Rightarrow> string" where
  "normalizeNodeListenIP raw =
     (let listenIP = TrimSpace raw
      in if HasPrefix listenIP ''['' \<and> HasSuffix listenIP '']''
         then TrimPrefix (TrimSuffix listenIP '']'') ''[''
         else listenIP)"

definition resolveNodeListenIP :: "string \<Rightarrow> string" where
  "resolveNodeListenIP raw =
     (let listenIP = normalizeNodeListenIP raw
      in if listenIP = [] \<or> listenIP = ''0.0.0.0'' then ''::'' else listenIP)"

definition shouldFallbackNodeListenIP :: "string \<Rightarrow> bool" where
  "shouldFallbackNodeListenIP raw \<longleftrightarrow> normalizeNodeListenIP raw \<in> {[], ''0.0.0.0'', ''::''}"

fun alpn_loop :: "string list \<Rightarrow> (string, unit) go_map \<Rightarrow> string list \<Rightarrow> string list" where
  "alpn_loop [] seen normalized = normalized"
| "alpn_loop (value # rest) seen normalized =
     (let txt = TrimSpace value
      in if txt = [] then alpn_loop rest seen normalized
         else if go_load seen txt \<noteq> None then alpn_loop rest seen normalized
         else alpn_loop rest (go_store txt () seen) (normalized @ [txt]))"

definition resolveTLSALPN :: "NodeInfo option \<Rightarrow> string list option" where
  "resolveTLSALPN nodeInfo =
     (case nodeInfo of
        None \<Rightarrow> None
      | Some info \<Rightarrow>
          (case ni_Common info of
             None \<Rightarrow> None
           | Some common \<Rightarrow>
               let normalized = alpn_loop (ts_ALPN (cm_TlsSettings common)) [] []
               in if normalized = [] then
                    (if ni_Type info = ''hysteria2'' \<or> ni_Type info = ''tuic'' then Some [''h3''] else None)
                  else Some normalized))"

section \<open>Transports\<close>

text \<open>The \<open>switch v.Network\<close> the builders share, with the networks the builder accepts.\<close>

definition decode_as ::
  "'t build_env \<Rightarrow> transport_kind \<Rightarrow> string \<Rightarrow> string \<Rightarrow> 't StreamConfig \<Rightarrow> build_error + 't StreamConfig" where
  "decode_as env kind name settings stream =
     (case be_transport env kind settings of
        None \<Rightarrow> Inl (UnmarshalTransport name)
      | Some t \<Rightarrow> Inr (stream\<lparr>sc_Transport := Some (Decoded kind t)\<rparr>))"

definition decode_basic_transport ::
  "'t build_env \<Rightarrow> string \<Rightarrow> string \<Rightarrow> 't StreamConfig \<Rightarrow> build_error + 't StreamConfig" where
  "decode_basic_transport env network settings stream =
     (if network = ''tcp'' then decode_as env TCPSettings ''tcp'' settings stream
      else if network = ''ws'' then decode_as env WSSettings ''ws'' settings stream
      else if network = ''grpc'' then decode_as env GRPCSettings ''grpc'' settings stream
      else Inl NetworkTypeInvalid)"

definition decode_transport ::
  "'t build_env \<Rightarrow> string \<Rightarrow> string \<Rightarrow> 't StreamConfig \<Rightarrow> build_error + 't StreamConfig" where
  "decode_transport env network settings stream =
     (if network = ''httpupgrade'' then decode_as env HTTPUPGRADESettings ''httpupgrade'' settings stream
      else if network = ''splithttp'' \<or> network = ''xhttp'' then decode_as env SplitHTTPSettings ''xhttp'' settings stream
      else decode_basic_transport env network settings stream)"

definition with_stream ::
  "build_error + 't StreamConfig \<Rightarrow> 't InboundDetourConfig \<Rightarrow> build_error + 't InboundDetourConfig" where
  "with_stream res inbound =
     (case res of Inl e \<Rightarrow> Inl e | Inr stream \<Rightarrow> Inr (inbound\<lparr>in_StreamSetting := Some stream\<rparr>))"

section \<open>The protocol builders\<close>

definition vless_decryption :: "CommonNode \<Rightarrow> build_error + string" where
  "vless_decryption v =
     (if cm_Encryption v = [] then Inr ''none''
      else if cm_Encryption v = ''mlkem768x25519plus'' then
        let e = cm_EncryptionSettings v
        in Inr (Join ([''mlkem768x25519plus'', es_Mode e, es_Ticket e] @
                      (if es_ServerPadding e \<noteq> [] then [es_ServerPadding e] else []) @
                      [es_PrivateKey e]) ''.'')
      else Inl (UnsupportedDecryption (cm_Encryption v)))"

definition buildVLess :: "'t build_env \<Rightarrow> CommonNode \<Rightarrow> 't InboundDetourConfig \<Rightarrow> build_error + 't InboundDetourConfig" where
  "buildVLess env v inbound =
     (case vless_decryption v of
        Inl e \<Rightarrow> Inl e
      | Inr decryption \<Rightarrow>
          let inb = inbound\<lparr>in_Protocol := ''vless'', in_Settings := Some (VLessSettings decryption)\<rparr>
          in if cm_NetworkSettings v = [] then Inr inb
             else with_stream (decode_transport env (cm_Network v) (cm_NetworkSettings v)
                                 (empty_StreamConfig\<lparr>sc_Network := Some (cm_Network v)\<rparr>)) inb)"

definition buildVMess :: "'t build_env \<Rightarrow> CommonNode \<Rightarrow> 't InboundDetourConfig \<Rightarrow> build_error + 't InboundDetourConfig" where
  "buildVMess env v inbound =
     (let inb = inbound\<lparr>in_Protocol := ''vmess'', in_Settings := Some VMessSettings\<rparr>
      in if cm_NetworkSettings v = [] then Inr inb
         else with_stream (decode_transport env (cm_Network v) (cm_NetworkSettings v)
                             (empty_StreamConfig\<lparr>sc_Network := Some (cm_Network v)\<rparr>)) inb)"

definition buildTrojan :: "'t build_env \<Rightarrow> CommonNode \<Rightarrow> 't InboundDetourConfig \<Rightarrow> build_error + 't InboundDetourConfig" where
  "buildTrojan env v inbound =
     (let network = (if cm_Network v = [] then ''tcp'' else cm_Network v);
          inb = inbound\<lparr>in_Protocol := ''trojan'', in_Settings := Some TrojanSettings\<rparr>;
          stream = empty_StreamConfig\<lparr>sc_Network := Some network\<rparr>
      in if cm_NetworkSettings v = [] then Inr (inb\<lparr>in_StreamSetting := Some stream\<rparr>)
         else with_stream (decode_basic_transport env network (cm_NetworkSettings v) stream) inb)"

definition shadowsocks_stream :: "bool \<times> string \<times> string \<Rightarrow> 't StreamConfig option" where
  "shadowsocks_stream shttp =
     (case shttp of (acceptProxyProtocol, path, host) \<Rightarrow>
        if acceptProxyProtocol \<or> path \<noteq> [] \<or> host \<noteq> [] then
          Some (empty_StreamConfig
                  \<lparr>sc_Network := Some ''tcp'',
                   sc_Transport := Some (ShadowsocksTCP acceptProxyProtocol
                     (if path \<noteq> [] \<or> host \<noteq> []
                      then Some (if path = [] then ''/'' else path, if host \<noteq> [] then Some host else None)
                      else None))\<rparr>)
        else None)"

definition buildShadowsocks :: "'t build_env \<Rightarrow> CommonNode \<Rightarrow> 't InboundDetourConfig \<Rightarrow> build_error + 't InboundDetourConfig" where
  "buildShadowsocks env s inbound =
     (let password = (if cm_ServerKey s \<noteq> [] then cm_ServerKey s else []);
          user = (if cm_ServerKey s \<noteq> [] then ([], base64_encode (be_random_hex env))
                  else (cm_Cipher s, be_random_hex env));
          inb = inbound\<lparr>in_Protocol := ''shadowsocks''\<rparr>
      in if cm_NetworkSettings s = [] then
           Inr (inb\<lparr>in_Settings := Some (ShadowsocksSettings (cm_Cipher s) password [user] [''tcp'', ''udp''])\<rparr>)
         else case be_shadowsocks_http env (cm_NetworkSettings s) of
                None \<Rightarrow> Inl UnmarshalShadowsocks
              | Some shttp \<Rightarrow>
                  let networks = (if fst (snd shttp) \<noteq> [] \<or> snd (snd shttp) \<noteq> [] then [''tcp''] else [''tcp'', ''udp''])
                  in Inr (inb\<lparr>in_Settings := Some (ShadowsocksSettings (cm_Cipher s) password [user] networks),
                              in_StreamSetting :=
                                (case shadowsocks_stream shttp of
                                   Some st \<Rightarrow> Some st | None \<Rightarrow> in_StreamSetting inb)\<rparr>))"

definition buildSocks :: "'t InboundDetourConfig \<Rightarrow> build_error + 't InboundDetourConfig" where
  "buildSocks inbound = Inr (inbound\<lparr>in_Protocol := ''socks'', in_Settings := Some (SocksSettings True)\<rparr>)"

definition buildHTTP :: "'t build_env \<Rightarrow> 't InboundDetourConfig \<Rightarrow> build_error + 't InboundDetourConfig" where
  "buildHTTP env inbound =
     Inr (inbound\<lparr>in_Protocol := ''http'', in_Settings := Some (HTTPSettings (be_authGuard env))\<rparr>)"

definition hysteria_mask :: "CommonNode \<Rightarrow> FinalMask option" where
  "hysteria_mask s =
     (let up = Itoa (cm_UpMbps s) @ ''mbps'';
          down = Itoa (cm_DownMbps s) @ ''mbps'';
          finalMask = (if \<not> cm_Ignore_Client_Bandwidth s \<and> (cm_UpMbps s > 0 \<or> cm_DownMbps s > 0)
                       then Some \<lparr>fm_QuicParams =
                                    Some \<lparr>qp_Congestion = ''force-brutal'', qp_BrutalUp = up, qp_BrutalDown = down\<rparr>,
                                  fm_Udp = []\<rparr>
                       else None)
      in if cm_Obfs s \<noteq> [] \<and> cm_ObfsPassword s \<noteq> [] then
           let udp = [(cm_Obfs s, [CHR ''{'', CHR 0x22] @ ''password'' @ [CHR 0x22, CHR '':'', CHR 0x22] @
                                  cm_ObfsPassword s @ [CHR 0x22, CHR ''}''])]
           in (case finalMask of
                 None \<Rightarrow> Some \<lparr>fm_QuicParams = None, fm_Udp = udp\<rparr>
               | Some m \<Rightarrow> Some (m\<lparr>fm_Udp := udp\<rparr>))
         else finalMask)"

definition buildHysteria2 :: "CommonNode \<Rightarrow> 't InboundDetourConfig \<Rightarrow> build_error + 't InboundDetourConfig" where
  "buildHysteria2 s inbound =
     Inr (inbound\<lparr>in_Protocol := ''hysteria'', in_Settings := Some (HysteriaSettings 2),
                  in_StreamSetting :=
                    Some (empty_StreamConfig\<lparr>sc_Network := Some ''hysteria'', sc_FinalMask := hysteria_mask s,
                                             sc_HysteriaVersion := Some 2\<rparr>)\<rparr>)"

definition buildTuic :: "CommonNode \<Rightarrow> 't InboundDetourConfig \<Rightarrow> build_error + 't InboundDetourConfig" where
  "buildTuic s inbound =
     Inr (inbound\<lparr>in_Protocol := ''tuic'',
                  in_Settings := Some (TuicSettings (cm_CongestionControl s) (cm_ZeroRTTHandshake s)),
                  in_StreamSetting := Some (empty_StreamConfig\<lparr>sc_Network := Some ''tuic''\<rparr>)\<rparr>)"

definition buildAnyTLS :: "'t build_env \<Rightarrow> CommonNode \<Rightarrow> 't InboundDetourConfig \<Rightarrow> build_error + 't InboundDetourConfig" where
  "buildAnyTLS env v inbound =
     (let inb = inbound\<lparr>in_Protocol := ''anytls'', in_Settings := Some (AnyTLSSettings (cm_PaddingScheme v))\<rparr>;
          stream = empty_StreamConfig\<lparr>sc_Network := Some (cm_Network v)\<rparr>
      in if cm_NetworkSettings v = [] then Inr (inb\<lparr>in_StreamSetting := Some stream\<rparr>)
         else with_stream (decode_transport env (cm_Network v) (cm_NetworkSettings v) stream) inb)"

section \<open>The inbound\<close>

definition build_protocol :: "'t build_env \<Rightarrow> string \<Rightarrow> CommonNode \<Rightarrow> build_error + 't InboundDetourConfig" where
  "build_protocol env typ v =
     (if typ = ''vless'' then buildVLess env v empty_inbound
      else if typ = ''vmess'' then buildVMess env v empty_inbound
      else if typ = ''trojan'' then buildTrojan env v empty_inbound
      else if typ = ''shadowsocks'' then buildShadowsocks env v empty_inbound
      else if typ = ''socks'' then buildSocks empty_inbound
      else if typ = ''http'' then buildHTTP env empty_inbound
      else if typ = ''hysteria2'' then buildHysteria2 v empty_inbound
      else if typ = ''tuic'' then buildTuic v empty_inbound
      else if typ = ''anytls'' then buildAnyTLS env v empty_inbound
      else Inl (UnsupportedNodeType typ))"

definition set_proxy_protocol ::
  "'t build_env \<Rightarrow> CommonNode \<Rightarrow> 't InboundDetourConfig \<Rightarrow> build_error + 't InboundDetourConfig" where
  "set_proxy_protocol env v inb =
     (if cm_NetworkSettings v = [] then Inr inb
      else case be_proxy_protocol env (cm_NetworkSettings v) of
             None \<Rightarrow> Inl UnmarshalNetworkSettings
           | Some accept \<Rightarrow>
               if \<not> accept then Inr inb
               else case in_StreamSetting inb of
                      None \<Rightarrow> Inr (inb\<lparr>in_StreamSetting :=
                                    Some (empty_StreamConfig\<lparr>sc_Network := Some (cm_Network v),
                                                             sc_AcceptProxyProtocol := Some accept\<rparr>)\<rparr>)
                    | Some st \<Rightarrow> Inr (inb\<lparr>in_StreamSetting := Some (st\<lparr>sc_AcceptProxyProtocol := Some accept\<rparr>)\<rparr>))"

definition stream_or_new :: "'t InboundDetourConfig \<Rightarrow> 't StreamConfig" where
  "stream_or_new inb = (case in_StreamSetting inb of None \<Rightarrow> empty_StreamConfig | Some st \<Rightarrow> st)"

text \<open>\<open>panel.Tls\<close> is 1 and \<open>panel.Reality\<close> is 2.\<close>

definition Tls :: int where "Tls = 1"
definition Reality :: int where "Reality = 2"

definition set_security ::
  "NodeInfo \<Rightarrow> CommonNode \<Rightarrow> 't InboundDetourConfig \<Rightarrow> build_error + 't InboundDetourConfig" where
  "set_security info v inb =
     (if ni_Security info = Tls then
        (case cm_CertInfo v of
           None \<Rightarrow> Inl CertInfoMissing
         | Some ci \<Rightarrow>
             if ci_CertMode ci = ''none'' \<or> ci_CertMode ci = [] then Inr inb
             else Inr (inb\<lparr>in_StreamSetting :=
                    Some ((stream_or_new inb)
                      \<lparr>sc_Security := ''tls'',
                       sc_TLSSettings :=
                         Some \<lparr>tl_CertFile = ci_CertFile ci, tl_KeyFile = ci_KeyFile ci, tl_OcspStapling = 3600,
                               tl_RejectUnknownSNI = ci_RejectUnknownSni ci,
                               tl_ALPN = resolveTLSALPN (Some info)\<rparr>\<rparr>)\<rparr>))
      else if ni_Security info = Reality then
        let t = cm_TlsSettings v;
            dest = (if ts_Dest t = [] then ts_ServerName t else ts_Dest t)
        in Inr (inb\<lparr>in_StreamSetting :=
                 Some ((stream_or_new inb)
                   \<lparr>sc_Security := ''reality'',
                    sc_REALITYSettings :=
                      Some \<lparr>ry_Dest = dest @ '':'' @ ts_ServerPort t, ry_Xver = ts_Xver t, ry_Show = False,
                            ry_ServerNames = [ts_ServerName t], ry_PrivateKey = ts_PrivateKey t,
                            ry_ShortIds = [ts_ShortId t], ry_Mldsa65Seed = ts_Mldsa65Seed t\<rparr>\<rparr>)\<rparr>)
      else Inr inb)"

text \<open>A nil \<open>Common\<close> makes the source panic; it is the error \<open>BuildFailed\<close> here.\<close>

definition buildInboundWithListenIP ::
  "'t build_env \<Rightarrow> NodeInfo \<Rightarrow> string \<Rightarrow> string \<Rightarrow> build_error + 't InboundDetourConfig" where
  "buildInboundWithListenIP env info tag listenIP =
     (case ni_Common info of
        None \<Rightarrow> Inl (BuildFailed ''nil Common'')
      | Some v \<Rightarrow>
          (case build_protocol env (ni_Type info) v of
             Inl e \<Rightarrow> Inl e
           | Inr inb0 \<Rightarrow>
               (case set_proxy_protocol env v inb0 of
                  Inl e \<Rightarrow> Inl e
                | Inr inb1 \<Rightarrow>
                    let inb2 = inb1\<lparr>in_PortFrom := word_of_int (cm_ServerPort v), in_PortTo := word_of_int (cm_ServerPort v),
                                    in_ListenOn := be_ParseAddress env listenIP,
                                    in_SniffingEnabled := True, in_DestOverride := [''http'', ''tls'']\<rparr>
                    in (case set_security info v inb2 of
                          Inl e \<Rightarrow> Inl e
                        | Inr inb3 \<Rightarrow> Inr (inb3\<lparr>in_Tag := tag\<rparr>)))))"

definition buildInbound :: "'t build_env \<Rightarrow> NodeInfo \<Rightarrow> string \<Rightarrow> build_error + 't InboundDetourConfig" where
  "buildInbound env info tag =
     (case ni_Common info of
        None \<Rightarrow> Inl (BuildFailed ''nil Common'')
      | Some v \<Rightarrow> buildInboundWithListenIP env info tag (resolveNodeListenIP (cm_ListenIP v)))"

section \<open>Lemmas\<close>

lemma alpn_loop_spec:
  "\<forall>t. go_load seen t \<noteq> None \<longleftrightarrow> t \<in> set acc \<Longrightarrow> distinct acc \<Longrightarrow>
   distinct (alpn_loop vs seen acc) \<and>
   set (alpn_loop vs seen acc) = set acc \<union> {t \<in> TrimSpace ` set vs. t \<noteq> []}"
proof (induction vs arbitrary: seen acc)
  case Nil
  then show ?case by simp
next
  case (Cons v vs)
  let ?t = "TrimSpace v"
  show ?case
  proof (cases "?t = [] \<or> ?t \<in> set acc")
    case True
    then have "alpn_loop (v # vs) seen acc = alpn_loop vs seen acc"
      using Cons.prems(1) by (auto simp: Let_def)
    then show ?thesis using Cons.IH [OF Cons.prems] True by auto
  next
    case False
    then have "alpn_loop (v # vs) seen acc = alpn_loop vs (go_store ?t () seen) (acc @ [?t])"
      using Cons.prems(1) by (auto simp: Let_def)
    moreover have "\<forall>t. go_load (go_store ?t () seen) t \<noteq> None \<longleftrightarrow> t \<in> set (acc @ [?t])"
      using Cons.prems(1) by auto
    ultimately show ?thesis using Cons.IH [of "go_store ?t () seen" "acc @ [?t]"] Cons.prems(2) False by auto
  qed
qed

lemma set_proxy_protocol_frame:
  "set_proxy_protocol env v inb = Inr inb' \<Longrightarrow>
   in_Protocol inb' = in_Protocol inb \<and> in_Settings inb' = in_Settings inb \<and>
   (be_proxy_protocol env (cm_NetworkSettings v) = Some True \<and> cm_NetworkSettings v \<noteq> [] \<longrightarrow>
      (\<exists>st. in_StreamSetting inb' = Some st \<and> sc_AcceptProxyProtocol st = Some True))"
  by (auto simp: set_proxy_protocol_def split: if_splits option.splits)

lemma set_security_frame:
  "set_security info v inb = Inr inb' \<Longrightarrow>
   in_Protocol inb' = in_Protocol inb \<and> in_Settings inb' = in_Settings inb \<and>
   in_PortFrom inb' = in_PortFrom inb \<and> in_PortTo inb' = in_PortTo inb \<and> in_ListenOn inb' = in_ListenOn inb \<and>
   in_SniffingEnabled inb' = in_SniffingEnabled inb \<and>
   (\<forall>st. in_StreamSetting inb = Some st \<longrightarrow>
      (\<exists>st'. in_StreamSetting inb' = Some st' \<and> sc_AcceptProxyProtocol st' = sc_AcceptProxyProtocol st))"
  by (auto simp: set_security_def stream_or_new_def Let_def split: if_splits option.splits)

definition tls_wanted :: "NodeInfo \<Rightarrow> CommonNode \<Rightarrow> CertInfo \<Rightarrow> bool" where
  "tls_wanted info v ci \<longleftrightarrow>
     ni_Security info = Tls \<and> cm_CertInfo v = Some ci \<and> ci_CertMode ci \<noteq> ''none'' \<and> ci_CertMode ci \<noteq> []"

lemma set_security_tls:
  "set_security info v inb = Inr inb' \<Longrightarrow> tls_wanted info v ci \<Longrightarrow>
   \<exists>st tl. in_StreamSetting inb' = Some st \<and> sc_Security st = ''tls'' \<and> sc_TLSSettings st = Some tl \<and>
           tl_CertFile tl = ci_CertFile ci \<and> tl_KeyFile tl = ci_KeyFile ci \<and> tl_ALPN tl = resolveTLSALPN (Some info)"
  by (auto simp: set_security_def tls_wanted_def)

lemma set_security_reality:
  "set_security info v inb = Inr inb' \<Longrightarrow> ni_Security info = Reality \<Longrightarrow>
   \<exists>st ry. in_StreamSetting inb' = Some st \<and> sc_Security st = ''reality'' \<and> sc_REALITYSettings st = Some ry \<and>
           ry_PrivateKey ry = ts_PrivateKey (cm_TlsSettings v)"
  by (auto simp: set_security_def Reality_def Tls_def Let_def)

definition demo_env :: "string build_env" where
  "demo_env = \<lparr>be_transport = (\<lambda>_. Some), be_proxy_protocol = (\<lambda>_. Some True),
               be_shadowsocks_http = (\<lambda>_. None), be_random_hex = ''00'',
               be_authGuard = ''g'', be_ParseAddress = id\<rparr>"

definition demo_cert :: CertInfo where
  "demo_cert = \<lparr>ci_CertMode = ''file'', ci_CertFile = ''c.pem'', ci_KeyFile = ''k.pem'', ci_Email = [],
                ci_CertDomain = [], ci_DNSEnv = [], ci_Provider = [], ci_RejectUnknownSni = False\<rparr>"

definition demo_common :: CommonNode where
  "demo_common = zero_CommonNode\<lparr>cm_ServerPort := 443, cm_CertInfo := Some demo_cert, cm_Network := ''ws'',
                                 cm_NetworkSettings := ''{}'', cm_ListenIP := '' 0.0.0.0 ''\<rparr>"

definition demo_node :: NodeInfo where
  "demo_node = \<lparr>ni_Id = 1, ni_Type = ''vless'', ni_Security = 1, ni_PushInterval = 60, ni_PullInterval = 60,
                ni_Tag = ''T'', ni_Common = Some demo_common\<rparr>"

section \<open>Properties\<close>

text \<open>
  An inbound that is built carries what the panel asked for: the tag, the port at 32 bits, the resolved
  listen address, sniffing on; PROXY protocol when the network settings accept it; and with TLS and
  a certificate mode the certificate files and the resolved ALPN list under security \<open>tls\<close>.
\<close>

theorem buildInbound_complete:
  assumes "buildInbound env info tag = Inr inb" and "ni_Common info = Some v"
  shows "in_Tag inb = tag \<and> in_PortFrom inb = word_of_int (cm_ServerPort v) \<and> in_PortTo inb = in_PortFrom inb \<and>
         in_ListenOn inb = be_ParseAddress env (resolveNodeListenIP (cm_ListenIP v)) \<and> in_SniffingEnabled inb \<and>
         (cm_NetworkSettings v \<noteq> [] \<and> be_proxy_protocol env (cm_NetworkSettings v) = Some True \<longrightarrow>
            (\<exists>st. in_StreamSetting inb = Some st \<and> sc_AcceptProxyProtocol st = Some True)) \<and>
         (\<forall>ci. tls_wanted info v ci \<longrightarrow>
            (\<exists>st tl. in_StreamSetting inb = Some st \<and> sc_Security st = ''tls'' \<and> sc_TLSSettings st = Some tl \<and>
               tl_CertFile tl = ci_CertFile ci \<and> tl_KeyFile tl = ci_KeyFile ci \<and> tl_ALPN tl = resolveTLSALPN (Some info)))"
proof -
  obtain inb0 where b: "build_protocol env (ni_Type info) v = Inr inb0"
    using assms by (auto simp: buildInbound_def buildInboundWithListenIP_def split: sum.splits)
  obtain inb1 where p: "set_proxy_protocol env v inb0 = Inr inb1"
    using assms b by (auto simp: buildInbound_def buildInboundWithListenIP_def split: sum.splits)
  let ?inb2 = "inb1\<lparr>in_PortFrom := word_of_int (cm_ServerPort v), in_PortTo := word_of_int (cm_ServerPort v),
      in_ListenOn := be_ParseAddress env (resolveNodeListenIP (cm_ListenIP v)),
      in_SniffingEnabled := True, in_DestOverride := [''http'', ''tls'']\<rparr>"
  obtain inb3 where s: "set_security info v ?inb2 = Inr inb3" and r: "inb = inb3\<lparr>in_Tag := tag\<rparr>"
    using assms b p by (auto simp: buildInbound_def buildInboundWithListenIP_def Let_def split: sum.splits)
  have proxy: "\<exists>st. in_StreamSetting inb3 = Some st \<and> sc_AcceptProxyProtocol st = Some True"
    if "cm_NetworkSettings v \<noteq> [] \<and> be_proxy_protocol env (cm_NetworkSettings v) = Some True"
  proof -
    from set_proxy_protocol_frame [OF p] that obtain st
      where "in_StreamSetting inb1 = Some st" "sc_AcceptProxyProtocol st = Some True" by blast
    then show ?thesis using set_security_frame [OF s] by simp
  qed
  show ?thesis
    using proxy set_security_frame [OF s] set_security_tls [OF s] by (simp add: r)
qed

theorem buildInbound_complete_witness:
  "\<exists>inb st tl. buildInbound demo_env demo_node ''T'' = Inr inb \<and> in_PortFrom inb = 443 \<and> in_ListenOn inb = ''::'' \<and>
     in_StreamSetting inb = Some st \<and> sc_Security st = ''tls'' \<and> sc_TLSSettings st = Some tl \<and> tl_CertFile tl = ''c.pem''"
proof -
  have "\<exists>inb. buildInbound demo_env demo_node ''T'' = Inr inb"
    by (simp add: buildInbound_def buildInboundWithListenIP_def demo_node_def demo_common_def build_protocol_def
        buildVLess_def vless_decryption_def zero_CommonNode_def with_stream_def decode_transport_def
        decode_basic_transport_def decode_as_def demo_env_def set_proxy_protocol_def set_security_def Tls_def
        demo_cert_def Let_def)
  then obtain inb where run: "buildInbound demo_env demo_node ''T'' = Inr inb" ..
  have c: "ni_Common demo_node = Some demo_common" and w: "tls_wanted demo_node demo_common demo_cert"
    by (simp_all add: demo_node_def tls_wanted_def Tls_def demo_common_def demo_cert_def)
  have "resolveNodeListenIP (cm_ListenIP demo_common) = ''::''" by code_simp
  then show ?thesis
    using buildInbound_complete [OF run c] run w by (fastforce simp: demo_common_def demo_env_def demo_cert_def)
qed

text \<open>
  The ALPN list offered to TLS clients: for a node whose panel entries trim to something, it lists each
  of them once and nothing else; otherwise it is \<open>h3\<close> for the QUIC protocols and absent for all
  others.
\<close>

theorem resolveTLSALPN_spec:
  "let wanted = TrimSpace ` set (ts_ALPN (cm_TlsSettings v)) - {[]};
       result = resolveTLSALPN (Some (info\<lparr>ni_Common := Some v\<rparr>))
   in if wanted = {}
      then result = (if ni_Type info = ''hysteria2'' \<or> ni_Type info = ''tuic'' then Some [''h3''] else None)
      else \<exists>alpn. result = Some alpn \<and> distinct alpn \<and> set alpn = wanted"
proof -
  let ?vs = "ts_ALPN (cm_TlsSettings v)"
  have spec: "distinct (alpn_loop ?vs [] [])" "set (alpn_loop ?vs [] []) = TrimSpace ` set ?vs - {[]}"
    using alpn_loop_spec [of "[]" "[]" ?vs] by auto
  then have "alpn_loop ?vs [] [] = [] \<longleftrightarrow> TrimSpace ` set ?vs - {[]} = {}" by (metis set_empty)
  then show ?thesis using spec by (simp add: resolveTLSALPN_def Let_def)
qed

text \<open>
  The IPv4 fallback of \<open>AddNode\<close> is tried exactly for the addresses that were resolved to the
  IPv6 wildcard, whichever way the panel wrote them.
\<close>

theorem fallback_iff_wildcard:
  "shouldFallbackNodeListenIP raw \<longleftrightarrow> resolveNodeListenIP raw = ''::''"
  by (auto simp: shouldFallbackNodeListenIP_def resolveNodeListenIP_def Let_def)

end
