(* ===== verification/Core_Users.thy ===== *)
theory Core_Users
  imports Link_Dispatch Inbound_Config
begin

text \<open>
  The core that sits on top of Xray (\<open>core/core.go\<close>, \<open>core/user.go\<close>, \<open>core/node.go\<close>): user
  accounts added to and removed from an inbound, the map from user tags to panel ids, the collection
  of traffic with its rollback, and the addition and removal of nodes. The Xray instance is a
  state of type \<open>'x\<close>; its inbound manager and user managers are the functions of the record
  \<open>xray\<close>, which every operation takes as an argument. The context of a call is the function
  that gives its error at the successive times the code asks for it.
\<close>

section \<open>Accounts\<close>

datatype CipherType = CipherType_UNKNOWN | CipherType_AES_128_GCM | CipherType_AES_256_GCM
  | CipherType_CHACHA20_POLY1305 | CipherType_NONE

datatype account =
    VMessAccount string string
  | VLessAccount string string
  | TrojanAccount string
  | ShadowsocksAccount string CipherType
  | Shadowsocks2022Account string
  | SocksAccount string string
  | HTTPAccount string string
  | HysteriaAccount string
  | TuicAccount string string
  | AnyTLSAccount string

record protocol_user =
  pu_Level :: int
  pu_Email :: string
  pu_Account :: account

definition make_user :: "string \<Rightarrow> UserInfo \<Rightarrow> account \<Rightarrow> protocol_user" where
  "make_user tag u acc = \<lparr>pu_Level = 0, pu_Email = UserTag tag (ui_Uuid u), pu_Account = acc\<rparr>"

definition buildVmessUser :: "string \<Rightarrow> UserInfo \<Rightarrow> protocol_user" where
  "buildVmessUser tag u = make_user tag u (VMessAccount (ui_Uuid u) ''auto'')"

definition buildVlessUser :: "string \<Rightarrow> string \<Rightarrow> UserInfo \<Rightarrow> protocol_user" where
  "buildVlessUser tag flow u = make_user tag u (VLessAccount (ui_Uuid u) flow)"

definition buildTrojanUser :: "string \<Rightarrow> UserInfo \<Rightarrow> protocol_user" where
  "buildTrojanUser tag u = make_user tag u (TrojanAccount (ui_Uuid u))"

definition getCipherFromString :: "string \<Rightarrow> CipherType" where
  "getCipherFromString c =
     (let s = ToLower c
      in if s \<in> {''aes-128-gcm'', ''aead_aes_128_gcm''} then CipherType_AES_128_GCM
         else if s \<in> {''aes-256-gcm'', ''aead_aes_256_gcm''} then CipherType_AES_256_GCM
         else if s \<in> {''chacha20-poly1305'', ''aead_chacha20_poly1305'', ''chacha20-ietf-poly1305''}
              then CipherType_CHACHA20_POLY1305
         else if s \<in> {''none'', ''plain''} then CipherType_NONE
         else CipherType_UNKNOWN)"

definition ss2022_key_length :: "string \<Rightarrow> nat" where
  "ss2022_key_length cypher =
     (if cypher = ''2022-blake3-aes-128-gcm'' then 16
      else if cypher = ''2022-blake3-aes-256-gcm'' then 32
      else if cypher = ''2022-blake3-chacha20-poly1305'' then 32
      else 0)"

text \<open>Slicing a uuid shorter than the key length panics: \<open>None\<close>.\<close>

definition buildSSUser :: "string \<Rightarrow> string \<Rightarrow> string \<Rightarrow> UserInfo \<Rightarrow> protocol_user option" where
  "buildSSUser tag cypher serverKey u =
     (if serverKey = [] then
        Some (make_user tag u (ShadowsocksAccount (ui_Uuid u) (getCipherFromString cypher)))
      else let keyLength = ss2022_key_length cypher
           in if keyLength \<le> length (ui_Uuid u)
              then Some (make_user tag u (Shadowsocks2022Account (base64_encode (take keyLength (ui_Uuid u)))))
              else None)"

definition buildSocksUser :: "string \<Rightarrow> UserInfo \<Rightarrow> protocol_user" where
  "buildSocksUser tag u = make_user tag u (SocksAccount (ui_Uuid u) (ui_Uuid u))"

definition buildHTTPUser :: "string \<Rightarrow> UserInfo \<Rightarrow> protocol_user" where
  "buildHTTPUser tag u = make_user tag u (HTTPAccount (ui_Uuid u) (ui_Uuid u))"

definition buildHysteria2User :: "string \<Rightarrow> UserInfo \<Rightarrow> protocol_user" where
  "buildHysteria2User tag u = make_user tag u (HysteriaAccount (ui_Uuid u))"

definition buildTuicUser :: "string \<Rightarrow> UserInfo \<Rightarrow> protocol_user" where
  "buildTuicUser tag u = make_user tag u (TuicAccount (ui_Uuid u) (ui_Uuid u))"

definition buildAnyTLSUser :: "string \<Rightarrow> UserInfo \<Rightarrow> protocol_user" where
  "buildAnyTLSUser tag u = make_user tag u (AnyTLSAccount (ui_Uuid u))"

definition buildSSUsers :: "string \<Rightarrow> string \<Rightarrow> string \<Rightarrow> UserInfo list \<Rightarrow> protocol_user list option" where
  "buildSSUsers tag cypher serverKey us = those (map (buildSSUser tag cypher serverKey) us)"

section \<open>Errors and the state\<close>

datatype go_error = Canceled | DeadlineExceeded | ErrText string

datatype core_error =
    CoreNotReady | NoSuchInbound string | NotGetInbound string | NotUserManager string
  | GoError go_error | UnsupportedType string | CorePanic
  | BuildInboundError build_error | BuildFallbackError build_error | AddInboundError go_error
  | FallbackError go_error go_error | RemoveInError go_error

datatype handler_kind = HandlerMissing string | HandlerNoInbound | HandlerNoUserManager | HandlerUserManager

text \<open>The Xray instance: handler lookup, the user manager behind a tag, handlers, start and stop.\<close>

record ('x, 't, 'u, 'h) xray =
  xr_handler :: "'x \<Rightarrow> string \<Rightarrow> handler_kind"
  xr_RemoveUser :: "string \<Rightarrow> string \<Rightarrow> 'x \<Rightarrow> go_error option \<times> 'x"
  xr_ToMemoryUser :: "protocol_user \<Rightarrow> go_error + 'u"
  xr_AddUser :: "string \<Rightarrow> 'u \<Rightarrow> 'x \<Rightarrow> go_error option \<times> 'x"
  xr_RemoveHandler :: "string \<Rightarrow> 'x \<Rightarrow> go_error option \<times> 'x"
  xr_CreateObject :: "'t InboundDetourConfig \<Rightarrow> 'x \<Rightarrow> go_error + 'h option"
  xr_AddHandler :: "'h \<Rightarrow> 'x \<Rightarrow> go_error option \<times> 'x"
  xr_New :: "'x"
  xr_Start :: "'x \<Rightarrow> go_error option \<times> 'x"
  xr_Close :: "'x \<Rightarrow> go_error option"

record 'x V2Core =
  vc_Config :: bool
  vc_Server :: "'x option"
  vc_users :: "(string, int) go_map option"
  vc_externalSidecarTags :: "(string, unit) go_map"
  vc_ihm :: bool
  vc_ohm :: bool
  vc_dispatcher :: "DefaultDispatcher option"

definition new_core :: "'x V2Core" where
  "new_core = \<lparr>vc_Config = True, vc_Server = None, vc_users = Some [], vc_externalSidecarTags = [],
               vc_ihm = False, vc_ohm = False, vc_dispatcher = None\<rparr>"

definition core_Start :: "('x, 't, 'u, 'h) xray \<Rightarrow> 'x V2Core \<Rightarrow> go_error option \<times> 'x V2Core" where
  "core_Start xr v =
     (case xr_Start xr (xr_New xr) of
        (Some err, x) \<Rightarrow> (Some err, v\<lparr>vc_Server := Some x\<rparr>)
      | (None, x) \<Rightarrow>
          (None, v\<lparr>vc_Server := Some x, vc_ihm := True, vc_ohm := True, vc_dispatcher := Some new_dispatcher\<rparr>))"

definition core_Close :: "('x, 't, 'u, 'h) xray \<Rightarrow> 'x V2Core \<Rightarrow> go_error option \<times> 'x V2Core" where
  "core_Close xr v =
     (case vc_Server v of None \<Rightarrow> None | Some x \<Rightarrow> xr_Close xr x,
      v\<lparr>vc_Config := False, vc_Server := None, vc_ihm := False, vc_ohm := False, vc_dispatcher := None\<rparr>)"

definition getUserManagerLocked :: "('x, 't, 'u, 'h) xray \<Rightarrow> 'x V2Core \<Rightarrow> string \<Rightarrow> core_error + 'x" where
  "getUserManagerLocked xr v tag =
     (case vc_Server v of
        None \<Rightarrow> Inl CoreNotReady
      | Some x \<Rightarrow>
          if \<not> vc_ihm v then Inl CoreNotReady
          else (case xr_handler xr x tag of
                  HandlerMissing err \<Rightarrow> Inl (NoSuchInbound err)
                | HandlerNoInbound \<Rightarrow> Inl (NotGetInbound tag)
                | HandlerNoUserManager \<Rightarrow> Inl (NotUserManager tag)
                | HandlerUserManager \<Rightarrow> Inr x))"

section \<open>Removing users\<close>

definition isBenignRemoveUserError :: "go_error option \<Rightarrow> bool" where
  "isBenignRemoveUserError err =
     (case err of
        None \<Rightarrow> False
      | Some Canceled \<Rightarrow> False
      | Some DeadlineExceeded \<Rightarrow> False
      | Some (ErrText s) \<Rightarrow> Contains (ToLower s) ''not found'')"

definition isBenignAddUserError :: "go_error option \<Rightarrow> bool" where
  "isBenignAddUserError err =
     (case err of
        None \<Rightarrow> False
      | Some Canceled \<Rightarrow> False
      | Some DeadlineExceeded \<Rightarrow> False
      | Some (ErrText s) \<Rightarrow> Contains (ToLower s) ''already exists'')"

text \<open>What one iteration does after Xray removed the user: the id, the counter and the links.\<close>

definition delete_counter :: "string \<Rightarrow> string \<Rightarrow> DefaultDispatcher \<Rightarrow> DefaultDispatcher" where
  "delete_counter tag user d =
     (case go_load (dd_Counter d) tag of
        Some tc \<Rightarrow> d\<lparr>dd_Counter := go_store tag (counter_delete user tc) (dd_Counter d)\<rparr>
      | None \<Rightarrow> d)"

definition drop_user :: "string \<Rightarrow> string \<Rightarrow> 'x V2Core \<Rightarrow> 'x V2Core" where
  "drop_user tag user v =
     v\<lparr>vc_users := map_option (go_delete user) (vc_users v),
       vc_dispatcher := map_option (\<lambda>d. cut_user user (delete_counter tag user d)) (vc_dispatcher v)\<rparr>"

fun del_users_loop ::
  "('x, 't, 'u, 'h) xray \<Rightarrow> (nat \<Rightarrow> go_error option) \<Rightarrow> string \<Rightarrow> nat \<Rightarrow> UserInfo list \<Rightarrow> 'x \<Rightarrow> 'x V2Core \<Rightarrow>
   go_error option \<times> 'x V2Core" where
  "del_users_loop xr ctx_err tag i [] x v = (None, v\<lparr>vc_Server := Some x\<rparr>)"
| "del_users_loop xr ctx_err tag i (u # us) x v =
     (case ctx_err i of
        Some e \<Rightarrow> (Some e, v\<lparr>vc_Server := Some x\<rparr>)
      | None \<Rightarrow>
          let user = UserTag tag (ui_Uuid u)
          in (case xr_RemoveUser xr tag user x of
                (err, x') \<Rightarrow>
                  if err \<noteq> None \<and> \<not> isBenignRemoveUserError err then (err, v\<lparr>vc_Server := Some x'\<rparr>)
                  else del_users_loop xr ctx_err tag (Suc i) us x' (drop_user tag user v)))"

definition DelUsers ::
  "('x, 't, 'u, 'h) xray \<Rightarrow> (nat \<Rightarrow> go_error option) \<Rightarrow> UserInfo list \<Rightarrow> string \<Rightarrow> 'x V2Core \<Rightarrow>
   core_error option \<times> 'x V2Core" where
  "DelUsers xr ctx_err users tag v =
     (case vc_dispatcher v of
        None \<Rightarrow> (Some CoreNotReady, v)
      | Some d \<Rightarrow>
          (case getUserManagerLocked xr v tag of
             Inl err \<Rightarrow> (Some err, v)
           | Inr x \<Rightarrow>
               (case del_users_loop xr ctx_err tag 0 users x v of (err, v') \<Rightarrow> (map_option GoError err, v'))))"

section \<open>Collecting traffic\<close>

record trafficRollbackItem =
  ri_storage :: nat
  ri_up :: int
  ri_down :: int

definition above_min :: "int \<Rightarrow> TrafficStorage \<Rightarrow> bool" where
  "above_min mintraffic s \<longleftrightarrow> wrap64 (st_UpCounter s + st_DownCounter s) > wrap64 (mintraffic * 1000)"

definition collect_entry ::
  "(string \<Rightarrow> int) \<Rightarrow> int \<Rightarrow> string \<times> nat \<Rightarrow> UserTraffic list \<times> trafficRollbackItem list \<times> TrafficCounter \<Rightarrow>
   UserTraffic list \<times> trafficRollbackItem list \<times> TrafficCounter" where
  "collect_entry uid mintraffic e acc =
     (case acc of (trafficSlice, rollbackItems, c) \<Rightarrow>
        let email = fst e; p = snd e; s = storage_at c p
        in if above_min mintraffic s then
             let c1 = update_storage p (\<lambda>_. zero_storage) c
             in if uid email = 0 then (trafficSlice, rollbackItems, counter_delete email c1)
                else (trafficSlice @ [\<lparr>ut_UID = uid email, ut_Upload = st_UpCounter s, ut_Download = st_DownCounter s\<rparr>],
                      rollbackItems @ [\<lparr>ri_storage = p, ri_up = st_UpCounter s, ri_down = st_DownCounter s\<rparr>], c1)
           else acc)"

definition collect_traffic ::
  "(string \<Rightarrow> int) \<Rightarrow> int \<Rightarrow> TrafficCounter \<Rightarrow> UserTraffic list \<times> trafficRollbackItem list \<times> TrafficCounter" where
  "collect_traffic uid mintraffic c = fold (collect_entry uid mintraffic) (go_range (tc_Counters c)) ([], [], c)"

text \<open>The closure \<open>GetUserTrafficSlice\<close> returns: it adds the collected amounts back.\<close>

definition rollback_item :: "trafficRollbackItem \<Rightarrow> TrafficCounter \<Rightarrow> TrafficCounter" where
  "rollback_item item c =
     (let c1 = (if ri_up item \<noteq> 0 then update_storage (ri_storage item) (add_up (ri_up item)) c else c)
      in if ri_down item \<noteq> 0 then update_storage (ri_storage item) (add_down (ri_down item)) c1 else c1)"

definition rollback_traffic :: "trafficRollbackItem list \<Rightarrow> TrafficCounter \<Rightarrow> TrafficCounter" where
  "rollback_traffic items c = fold rollback_item items c"

definition uid_of :: "'x V2Core \<Rightarrow> string \<Rightarrow> int" where
  "uid_of v email = (case vc_users v of None \<Rightarrow> 0 | Some m \<Rightarrow> go_get 0 m email)"

text \<open>The traffic, the rollback items when there is any traffic, and the core with the counters reset.\<close>

definition GetUserTrafficSlice ::
  "string \<Rightarrow> int \<Rightarrow> 'x V2Core \<Rightarrow> UserTraffic list \<times> trafficRollbackItem list option \<times> 'x V2Core" where
  "GetUserTrafficSlice tag mintraffic v =
     (case vc_dispatcher v of
        None \<Rightarrow> ([], None, v)
      | Some d \<Rightarrow>
          (case go_load (dd_Counter d) tag of
             None \<Rightarrow> ([], None, v)
           | Some c \<Rightarrow>
               (case collect_traffic (uid_of v) mintraffic c of
                  (trafficSlice, rollbackItems, c') \<Rightarrow>
                    (trafficSlice, if trafficSlice = [] then None else Some rollbackItems,
                     v\<lparr>vc_dispatcher := Some (d\<lparr>dd_Counter := go_store tag c' (dd_Counter d)\<rparr>)\<rparr>))))"

definition rollback_slice :: "string \<Rightarrow> trafficRollbackItem list option \<Rightarrow> 'x V2Core \<Rightarrow> 'x V2Core" where
  "rollback_slice tag items v =
     (case (items, vc_dispatcher v) of
        (Some its, Some d) \<Rightarrow>
          (case go_load (dd_Counter d) tag of
             Some c \<Rightarrow> v\<lparr>vc_dispatcher := Some (d\<lparr>dd_Counter := go_store tag (rollback_traffic its c) (dd_Counter d)\<rparr>)\<rparr>
           | None \<Rightarrow> v)
      | _ \<Rightarrow> v)"

section \<open>Adding users\<close>

definition IsExternalSidecarNodeType :: "string \<Rightarrow> bool" where
  "IsExternalSidecarNodeType nodeType \<longleftrightarrow> nodeType = ''mieru'' \<or> nodeType = ''naive''"

definition register_ids :: "string \<Rightarrow> UserInfo list \<Rightarrow> 'x V2Core \<Rightarrow> 'x V2Core" where
  "register_ids tag users v =
     v\<lparr>vc_users := map_option (fold (\<lambda>u. go_store (UserTag tag (ui_Uuid u)) (ui_Id u)) users) (vc_users v)\<rparr>"

definition UpdateUserIDs :: "string \<Rightarrow> UserInfo list \<Rightarrow> 'x V2Core \<Rightarrow> core_error option \<times> 'x V2Core" where
  "UpdateUserIDs tag users v =
     (case vc_users v of None \<Rightarrow> (Some CoreNotReady, v) | Some m \<Rightarrow> (None, register_ids tag users v))"

definition build_users :: "string \<Rightarrow> NodeInfo \<Rightarrow> UserInfo list \<Rightarrow> core_error + protocol_user list" where
  "build_users tag info us =
     (case ni_Common info of
        None \<Rightarrow> (if ni_Type info \<in> {''vless'', ''shadowsocks''} then Inl CorePanic
                  else if ni_Type info = ''vmess'' then Inr (map (buildVmessUser tag) us)
                  else if ni_Type info = ''trojan'' then Inr (map (buildTrojanUser tag) us)
                  else if ni_Type info = ''socks'' then Inr (map (buildSocksUser tag) us)
                  else if ni_Type info = ''http'' then Inr (map (buildHTTPUser tag) us)
                  else if ni_Type info = ''hysteria2'' then Inr (map (buildHysteria2User tag) us)
                  else if ni_Type info = ''tuic'' then Inr (map (buildTuicUser tag) us)
                  else if ni_Type info = ''anytls'' then Inr (map (buildAnyTLSUser tag) us)
                  else Inl (UnsupportedType (ni_Type info)))
      | Some common \<Rightarrow>
          if ni_Type info = ''vmess'' then Inr (map (buildVmessUser tag) us)
          else if ni_Type info = ''vless'' then Inr (map (buildVlessUser tag (cm_Flow common)) us)
          else if ni_Type info = ''trojan'' then Inr (map (buildTrojanUser tag) us)
          else if ni_Type info = ''shadowsocks'' then
            (case buildSSUsers tag (cm_Cipher common) (cm_ServerKey common) us of
               None \<Rightarrow> Inl CorePanic | Some users \<Rightarrow> Inr users)
          else if ni_Type info = ''socks'' then Inr (map (buildSocksUser tag) us)
          else if ni_Type info = ''http'' then Inr (map (buildHTTPUser tag) us)
          else if ni_Type info = ''hysteria2'' then Inr (map (buildHysteria2User tag) us)
          else if ni_Type info = ''tuic'' then Inr (map (buildTuicUser tag) us)
          else if ni_Type info = ''anytls'' then Inr (map (buildAnyTLSUser tag) us)
          else Inl (UnsupportedType (ni_Type info)))"

fun add_users_loop ::
  "('x, 't, 'u, 'h) xray \<Rightarrow> (nat \<Rightarrow> go_error option) \<Rightarrow> string \<Rightarrow> nat \<Rightarrow> protocol_user list \<Rightarrow> 'x \<Rightarrow>
   (nat \<times> go_error option) \<times> 'x" where
  "add_users_loop xr ctx_err tag added [] x = ((added, None), x)"
| "add_users_loop xr ctx_err tag added (u # us) x =
     (case ctx_err added of
        Some e \<Rightarrow> ((added, Some e), x)
      | None \<Rightarrow>
          (case xr_ToMemoryUser xr u of
             Inl err \<Rightarrow> ((0, Some err), x)
           | Inr mUser \<Rightarrow>
               (case xr_AddUser xr tag mUser x of
                  (err, x') \<Rightarrow>
                    if err \<noteq> None \<and> \<not> isBenignAddUserError err then ((added, err), x')
                    else add_users_loop xr ctx_err tag (Suc added) us x')))"

text \<open>\<open>None\<close> for the node information is the nil pointer, which panics after the manager was found.\<close>

definition AddUsersWithContext ::
  "('x, 't, 'u, 'h) xray \<Rightarrow> (nat \<Rightarrow> go_error option) \<Rightarrow> string \<Rightarrow> NodeInfo option \<Rightarrow> UserInfo list \<Rightarrow> 'x V2Core \<Rightarrow>
   (nat \<times> core_error option) \<times> 'x V2Core" where
  "AddUsersWithContext xr ctx_err tag info users v =
     (if (case info of None \<Rightarrow> False | Some i \<Rightarrow> IsExternalSidecarNodeType (ni_Type i))
      then ((length users, None), register_ids tag users v)
      else case getUserManagerLocked xr v tag of
             Inl err \<Rightarrow> ((0, Some err), v)
           | Inr x \<Rightarrow>
               let v1 = register_ids tag users v
               in (case info of
                     None \<Rightarrow> ((0, Some CorePanic), v1)
                   | Some i \<Rightarrow>
                       (case build_users tag i users of
                          Inl err \<Rightarrow> ((0, Some err), v1)
                        | Inr us \<Rightarrow>
                            (case add_users_loop xr ctx_err tag 0 us x of
                               ((added, err), x') \<Rightarrow>
                                 ((added, map_option GoError err), v1\<lparr>vc_Server := Some x'\<rparr>)))))"

section \<open>Nodes\<close>

definition removeInbound :: "('x, 't, 'u, 'h) xray \<Rightarrow> string \<Rightarrow> 'x \<Rightarrow> go_error option \<times> 'x" where
  "removeInbound xr tag x = xr_RemoveHandler xr tag x"

definition addInbound :: "('x, 't, 'u, 'h) xray \<Rightarrow> 't InboundDetourConfig \<Rightarrow> 'x \<Rightarrow> go_error option \<times> 'x" where
  "addInbound xr config x =
     (case xr_CreateObject xr config x of
        Inl err \<Rightarrow> (Some err, x)
      | Inr None \<Rightarrow> (Some (ErrText ''not an InboundHandler''), x)
      | Inr (Some handler) \<Rightarrow> xr_AddHandler xr handler x)"

definition AddNode ::
  "('x, 't, 'u, 'h) xray \<Rightarrow> 't build_env \<Rightarrow> string \<Rightarrow> NodeInfo option \<Rightarrow> 'x V2Core \<Rightarrow> core_error option \<times> 'x V2Core" where
  "AddNode xr env tag info v =
     (if (case info of None \<Rightarrow> False | Some i \<Rightarrow> IsExternalSidecarNodeType (ni_Type i))
      then (None, v\<lparr>vc_externalSidecarTags := go_store tag () (vc_externalSidecarTags v)\<rparr>)
      else case (vc_Server v, vc_ihm v) of
             (Some x, True) \<Rightarrow>
               (case info of
                  None \<Rightarrow> (Some CorePanic, v)
                | Some i \<Rightarrow>
                    (case buildInbound env i tag of
                       Inl err \<Rightarrow> (Some (BuildInboundError err), v)
                     | Inr config \<Rightarrow>
                         (case addInbound xr config x of
                            (None, x1) \<Rightarrow> (None, v\<lparr>vc_Server := Some x1\<rparr>)
                          | (Some err, x1) \<Rightarrow>
                              if (case ni_Common i of None \<Rightarrow> False | Some c \<Rightarrow> shouldFallbackNodeListenIP (cm_ListenIP c)) then
                                (case removeInbound xr tag x1 of
                                   (ignored, x2) \<Rightarrow>
                                     (case buildInboundWithListenIP env i tag ''0.0.0.0'' of
                                        Inl buildErr \<Rightarrow> (Some (BuildFallbackError buildErr), v\<lparr>vc_Server := Some x2\<rparr>)
                                      | Inr ipv4Config \<Rightarrow>
                                          (case addInbound xr ipv4Config x2 of
                                             (None, x3) \<Rightarrow> (None, v\<lparr>vc_Server := Some x3\<rparr>)
                                           | (Some fallbackErr, x3) \<Rightarrow>
                                               (Some (FallbackError err fallbackErr), v\<lparr>vc_Server := Some x3\<rparr>))))
                              else (Some (AddInboundError err), v\<lparr>vc_Server := Some x1\<rparr>))))
           | _ \<Rightarrow> (Some CoreNotReady, v))"

definition deleteUserIDsForTag :: "string \<Rightarrow> 'x V2Core \<Rightarrow> 'x V2Core" where
  "deleteUserIDsForTag tag v =
     v\<lparr>vc_users := map_option
        (\<lambda>m. fold (\<lambda>e m. if HasPrefix (fst e) (tag @ ''|'') then go_delete (fst e) m else m) (go_range m) m)
        (vc_users v)\<rparr>"

definition DelNode :: "('x, 't, 'u, 'h) xray \<Rightarrow> string \<Rightarrow> 'x V2Core \<Rightarrow> core_error option \<times> 'x V2Core" where
  "DelNode xr tag v =
     (if go_load (vc_externalSidecarTags v) tag \<noteq> None then
        (None, deleteUserIDsForTag tag (v\<lparr>vc_externalSidecarTags := go_delete tag (vc_externalSidecarTags v)\<rparr>))
      else case (vc_Server v, vc_ihm v) of
             (Some x, True) \<Rightarrow>
               (case removeInbound xr tag x of
                  (None, x') \<Rightarrow> (None, v\<lparr>vc_Server := Some x'\<rparr>)
                | (Some err, x') \<Rightarrow> (Some (RemoveInError err), v\<lparr>vc_Server := Some x'\<rparr>))
           | _ \<Rightarrow> (Some CoreNotReady, v))"

section \<open>Lemmas on collecting traffic\<close>

definition dropped_keys :: "(string \<Rightarrow> int) \<Rightarrow> int \<Rightarrow> TrafficCounter \<Rightarrow> (string \<times> nat) list \<Rightarrow> string set" where
  "dropped_keys uid mint c es = fst ` {e \<in> set es. above_min mint (storage_at c (snd e)) \<and> uid (fst e) = 0}"

definition reported :: "(string \<Rightarrow> int) \<Rightarrow> int \<Rightarrow> TrafficCounter \<Rightarrow> (string \<times> nat) list \<Rightarrow> (string \<times> nat) list" where
  "reported uid mint c es = filter (\<lambda>e. above_min mint (storage_at c (snd e)) \<and> uid (fst e) \<noteq> 0) es"

definition slice_entry :: "(string \<Rightarrow> int) \<Rightarrow> TrafficCounter \<Rightarrow> string \<times> nat \<Rightarrow> UserTraffic" where
  "slice_entry uid c e =
     \<lparr>ut_UID = uid (fst e), ut_Upload = st_UpCounter (storage_at c (snd e)),
      ut_Download = st_DownCounter (storage_at c (snd e))\<rparr>"

definition rollback_entry :: "TrafficCounter \<Rightarrow> string \<times> nat \<Rightarrow> trafficRollbackItem" where
  "rollback_entry c e =
     \<lparr>ri_storage = snd e, ri_up = st_UpCounter (storage_at c (snd e)), ri_down = st_DownCounter (storage_at c (snd e))\<rparr>"

lemma counter_delete_simps [simp]:
  "storage_at (counter_delete u c) p = storage_at c p" "tc_heap (counter_delete u c) = tc_heap c"
  "go_load (tc_Counters (counter_delete u c)) k = (if k = u then None else go_load (tc_Counters c) k)"
  by (simp_all add: counter_delete_def storage_at_def)

text \<open>
  What the loop over the counters does, for entries with distinct storages: the effect of each entry
  depends on its own storage only.
\<close>

lemma collect_spec:
  assumes "distinct (map snd es)" and "\<forall>e \<in> set es. snd e < length (tc_heap c)"
    and "fold (collect_entry uid mint) es (sl, it, c) = (sl', it', c')"
  shows "sl' = sl @ map (slice_entry uid c) (reported uid mint c es) \<and>
         it' = it @ map (rollback_entry c) (reported uid mint c es) \<and>
         length (tc_heap c') = length (tc_heap c) \<and>
         (\<forall>q. storage_at c' q = (if \<exists>e \<in> set es. snd e = q \<and> above_min mint (storage_at c q) then zero_storage else storage_at c q)) \<and>
         (\<forall>k. go_load (tc_Counters c') k = (if k \<in> dropped_keys uid mint c es then None else go_load (tc_Counters c) k))"
  using assms
proof (induction es arbitrary: sl it c)
  case Nil
  then show ?case by (simp add: reported_def dropped_keys_def)
next
  case (Cons e es)
  let ?s = "storage_at c (snd e)"
  obtain sl1 it1 c1 where step: "collect_entry uid mint e (sl, it, c) = (sl1, it1, c1)" by (metis prod.exhaust)
  have c1: "storage_at c1 q = (if q = snd e \<and> above_min mint ?s then zero_storage else storage_at c q)"
    and len: "length (tc_heap c1) = length (tc_heap c)"
    and keys: "go_load (tc_Counters c1) k = (if k = fst e \<and> above_min mint ?s \<and> uid (fst e) = 0 then None else go_load (tc_Counters c) k)"
    and sl1: "sl1 = sl @ (if above_min mint ?s \<and> uid (fst e) \<noteq> 0 then [slice_entry uid c e] else [])"
    and it1: "it1 = it @ (if above_min mint ?s \<and> uid (fst e) \<noteq> 0 then [rollback_entry c e] else [])" for q k
    using step Cons.prems(2)
    by (auto simp: collect_entry_def Let_def slice_entry_def rollback_entry_def split: if_splits)
  have same: "storage_at c1 (snd e') = storage_at c (snd e')" if "e' \<in> set es" for e'
  proof -
    have "snd e' \<in> snd ` set es" using that by (rule imageI)
    then have "snd e' \<noteq> snd e" using Cons.prems(1) by (metis distinct.simps(2) list.set_map list.simps(9))
    then show ?thesis by (simp add: c1)
  qed
  have rep: "reported uid mint c1 es = reported uid mint c es" "dropped_keys uid mint c1 es = dropped_keys uid mint c es"
    "map (slice_entry uid c1) (reported uid mint c es) = map (slice_entry uid c) (reported uid mint c es)"
    "map (rollback_entry c1) (reported uid mint c es) = map (rollback_entry c) (reported uid mint c es)"
    using same by (auto simp: reported_def dropped_keys_def slice_entry_def rollback_entry_def intro!: filter_cong)
  have IH: "sl' = sl1 @ map (slice_entry uid c1) (reported uid mint c1 es) \<and>
      it' = it1 @ map (rollback_entry c1) (reported uid mint c1 es) \<and> length (tc_heap c') = length (tc_heap c1) \<and>
      (\<forall>q. storage_at c' q = (if \<exists>e \<in> set es. snd e = q \<and> above_min mint (storage_at c1 q) then zero_storage else storage_at c1 q)) \<and>
      (\<forall>k. go_load (tc_Counters c') k = (if k \<in> dropped_keys uid mint c1 es then None else go_load (tc_Counters c1) k))"
    by (rule Cons.IH) (use Cons.prems step len in auto)
  have stor: "storage_at c' q = (if \<exists>e' \<in> set (e # es). snd e' = q \<and> above_min mint (storage_at c q) then zero_storage else storage_at c q)" for q
    using IH c1 [of q] same Cons.prems(1) by (cases "q = snd e") auto
  show ?case
    using IH stor keys sl1 it1 len rep by (auto simp: reported_def dropped_keys_def)
qed

lemma rollback_item_storage:
  assumes "ri_storage i < length (tc_heap c)" and "counter_wf c"
  shows "st_UpCounter (storage_at (rollback_item i c) q) =
           (if q = ri_storage i then wrap64 (st_UpCounter (storage_at c q) + ri_up i) else st_UpCounter (storage_at c q))"
    and "st_DownCounter (storage_at (rollback_item i c) q) =
           (if q = ri_storage i then wrap64 (st_DownCounter (storage_at c q) + ri_down i) else st_DownCounter (storage_at c q))"
  using assms storage_at_ok [OF assms(2), of q]
  by (auto simp: rollback_item_def Let_def add_up_def add_down_def storage_ok_def)

lemma rollback_item_frame [simp]:
  "tc_Counters (rollback_item i c) = tc_Counters c" "length (tc_heap (rollback_item i c)) = length (tc_heap c)"
  by (simp_all add: rollback_item_def Let_def)

lemma rollback_item_wf: "counter_wf c \<Longrightarrow> counter_wf (rollback_item i c)"
  by (simp add: rollback_item_def Let_def counter_wf_update_storage)

lemma rollback_frame [simp]:
  "tc_Counters (rollback_traffic items c) = tc_Counters c"
  "length (tc_heap (rollback_traffic items c)) = length (tc_heap c)"
  by (induction items arbitrary: c) (simp_all add: rollback_traffic_def)

lemma rollback_wf: "counter_wf c \<Longrightarrow> counter_wf (rollback_traffic items c)"
  unfolding rollback_traffic_def by (rule fold_wf [where P = counter_wf]) (simp_all add: rollback_item_wf)

lemma rollback_other:
  "counter_wf c \<Longrightarrow> \<forall>i \<in> set items. ri_storage i < length (tc_heap c) \<Longrightarrow> q \<notin> ri_storage ` set items \<Longrightarrow>
   st_UpCounter (storage_at (rollback_traffic items c) q) = st_UpCounter (storage_at c q) \<and>
   st_DownCounter (storage_at (rollback_traffic items c) q) = st_DownCounter (storage_at c q)"
  by (induction items arbitrary: c) (simp_all add: rollback_traffic_def rollback_item_storage rollback_item_wf)

lemma rollback_item_mem:
  assumes "counter_wf c" "\<forall>i \<in> set items. ri_storage i < length (tc_heap c)" "distinct (map ri_storage items)" "i \<in> set items"
  shows "st_UpCounter (storage_at (rollback_traffic items c) (ri_storage i)) = wrap64 (st_UpCounter (storage_at c (ri_storage i)) + ri_up i) \<and>
         st_DownCounter (storage_at (rollback_traffic items c) (ri_storage i)) = wrap64 (st_DownCounter (storage_at c (ri_storage i)) + ri_down i)"
  using assms
proof (induction items arbitrary: c)
  case Nil
  then show ?case by simp
next
  case (Cons j items)
  have wf: "counter_wf (rollback_item j c)" by (rule rollback_item_wf [OF Cons.prems(1)])
  have lt: "\<forall>i \<in> set items. ri_storage i < length (tc_heap (rollback_item j c))" using Cons.prems(2) by simp
  have r: "rollback_traffic (j # items) c = rollback_traffic items (rollback_item j c)" by (simp add: rollback_traffic_def)
  note j = rollback_item_storage [of j c, OF _ Cons.prems(1)]
  show ?case
  proof (cases "i = j")
    case True
    then have "ri_storage i \<notin> ri_storage ` set items" using Cons.prems(3) by auto
    then show ?thesis using rollback_other [OF wf lt] j Cons.prems(2) True by (simp add: r)
  next
    case False
    then have "i \<in> set items" "ri_storage i \<noteq> ri_storage j" using Cons.prems(3,4) by (auto simp: image_iff)
    then show ?thesis using Cons.IH [OF wf lt] j Cons.prems(2,3) by (simp add: r)
  qed
qed

lemma collect_entry_wf: "counter_wf (snd (snd acc)) \<Longrightarrow> counter_wf (snd (snd (collect_entry uid mint e acc)))"
  by (cases acc) (auto simp: collect_entry_def Let_def counter_wf_delete counter_wf_update_storage storage_ok_def zero_storage_def)

lemma collect_wf: "counter_wf c \<Longrightarrow> collect_traffic uid mint c = (sl, it, c') \<Longrightarrow> counter_wf c'"
  using fold_wf [where P = "\<lambda>acc. counter_wf (snd (snd acc))" and f = "collect_entry uid mint"
      and xs = "go_range (tc_Counters c)" and l = "([], [], c)"]
  by (simp add: collect_traffic_def collect_entry_wf)

lemma collect_traffic_spec:
  assumes "counter_wf c" and "collect_traffic uid mint c = (sl, it, c')"
  shows "sl = map (slice_entry uid c) (reported uid mint c (tc_Counters c))"
    and "it = map (rollback_entry c) (reported uid mint c (tc_Counters c))"
    and "length (tc_heap c') = length (tc_heap c)"
    and "storage_at c' q = (if \<exists>e \<in> set (tc_Counters c). snd e = q \<and> above_min mint (storage_at c q) then zero_storage else storage_at c q)"
    and "go_load (tc_Counters c') k = (if k \<in> dropped_keys uid mint c (tc_Counters c) then None else go_load (tc_Counters c) k)"
  using collect_spec [of "tc_Counters c" c uid mint "[]" "[]" sl it c'] assms
  by (auto simp: counter_wf_def collect_traffic_def go_range_def list_all_iff)

text \<open>A user with a panel id keeps the counter; it shows zero when the traffic was collected.\<close>

lemma collect_counts:
  assumes wf: "counter_wf c" and col: "collect_traffic uid mint c = (sl, it, c')" and u: "uid u \<noteq> 0"
  shows "go_load (tc_Counters c') u = go_load (tc_Counters c) u"
    and "go_load (tc_Counters c) u = Some p \<Longrightarrow>
         storage_at c' p = (if above_min mint (storage_at c p) then zero_storage else storage_at c p)"
proof -
  note s = collect_traffic_spec [OF wf col]
  show "go_load (tc_Counters c') u = go_load (tc_Counters c) u" using s(5) u by (auto simp: dropped_keys_def)
  show "go_load (tc_Counters c) u = Some p \<Longrightarrow>
         storage_at c' p = (if above_min mint (storage_at c p) then zero_storage else storage_at c p)"
    using s(4) [of p] go_load_Some_in [of "tc_Counters c" u p] by auto
qed

lemma event_heap_mono: "length (tc_heap c) \<le> length (tc_heap (traffic_event_step e c))"
  by (cases e) (auto simp: Tx_def Rx_def GetCounter_def get_counter_slow_eq Let_def split: option.splits prod.splits)

lemma run_heap_mono: "length (tc_heap c) \<le> length (tc_heap (fold traffic_event_step es c))"
proof (induction es arbitrary: c)
  case (Cons e es)
  show ?case using order_trans [OF event_heap_mono [of c e] Cons.IH [of "traffic_event_step e c"]] by simp
qed simp

lemma run_wf: "counter_wf c \<Longrightarrow> counter_wf (fold traffic_event_step es c)"
  by (rule fold_wf [where P = counter_wf]) (simp_all add: traffic_event_step_wf)

lemma item_binding:
  assumes wf: "counter_wf c" and col: "collect_traffic uid mint c = (sl, it, c1)" and i: "i \<in> set it"
  obtains k where "uid k \<noteq> 0" "go_load (tc_Counters c) k = Some (ri_storage i)" "go_load (tc_Counters c1) k = Some (ri_storage i)"
    "above_min mint (storage_at c (ri_storage i))" "i = rollback_entry c (k, ri_storage i)"
proof -
  from i collect_traffic_spec(2) [OF wf col] obtain e
    where e: "e \<in> set (tc_Counters c)" "above_min mint (storage_at c (snd e))" "uid (fst e) \<noteq> 0" "i = rollback_entry c e"
    by (auto simp: reported_def)
  have "go_load (tc_Counters c) (fst e) = Some (snd e)"
    using wf e(1) in_range_iff [of "tc_Counters c" "fst e" "snd e"] by (simp add: counter_wf_def go_range_def)
  then show thesis
    using that [of "fst e"] e collect_counts(1) [OF wf col e(3)] by (simp add: rollback_entry_def)
qed

lemma items_ok:
  assumes wf: "counter_wf c" and col: "collect_traffic uid mint c = (sl, it, c1)"
  shows "distinct (map ri_storage it)" and "i \<in> set it \<Longrightarrow> ri_storage i < length (tc_heap c1)"
proof -
  note s = collect_traffic_spec [OF wf col]
  have "map ri_storage it = map snd (reported uid mint c (tc_Counters c))"
    by (simp add: s(2) rollback_entry_def)
  then show "distinct (map ri_storage it)"
    using wf by (simp add: counter_wf_def reported_def distinct_map_filter)
  show "i \<in> set it \<Longrightarrow> ri_storage i < length (tc_heap c1)"
    using item_binding [OF wf col] counter_wf_load [OF wf] s(3) by metis
qed

lemma above_bound_reported:
  assumes wf: "counter_wf c" and col: "collect_traffic uid mint c = (sl, it, c1)" and u: "uid u \<noteq> 0"
    and p: "go_load (tc_Counters c) u = Some p" "above_min mint (storage_at c p)"
  shows "rollback_entry c (u, p) \<in> set it" and "slice_entry uid c (u, p) \<in> set sl"
  using collect_traffic_spec(1,2) [OF wf col] p u go_load_Some_in [OF p(1)] by (auto simp: reported_def)

lemma rollback_lossless:
  assumes wf: "counter_wf c" and col: "collect_traffic uid mint c = (sl, it, c1)" and u: "uid u \<noteq> 0"
  shows "GetUpCount (rollback_traffic it (fold traffic_event_step es c1)) u = wrap64 (GetUpCount c u + up_bytes u es) \<and>
         GetDownCount (rollback_traffic it (fold traffic_event_step es c1)) u = wrap64 (GetDownCount c u + down_bytes u es)"
proof -
  let ?c2 = "fold traffic_event_step es c1"
  have wf1: "counter_wf c1" by (rule collect_wf [OF wf col])
  have wf2: "counter_wf ?c2" by (rule run_wf [OF wf1])
  have lt: "\<forall>i \<in> set it. ri_storage i < length (tc_heap ?c2)"
    using items_ok(2) [OF wf col] run_heap_mono [of c1 es] by fastforce
  note run = run_counts [OF wf1, of es u]
  show ?thesis
  proof (cases "\<exists>p. go_load (tc_Counters c) u = Some p \<and> above_min mint (storage_at c p)")
    case True
    then obtain p where p: "go_load (tc_Counters c) u = Some p" "above_min mint (storage_at c p)" by blast
    let ?i = "rollback_entry c (u, p)"
    have p1: "go_load (tc_Counters c1) u = Some p" using collect_counts(1) [OF wf col u] p by simp
    have zero: "GetUpCount c1 u = 0" "GetDownCount c1 u = 0"
      using collect_counts(2) [OF wf col u p(1)] p by (simp_all add: GetUpCount_def GetDownCount_def p1 zero_storage_def)
    have p2: "go_load (tc_Counters ?c2) u = Some p" by (rule run_keeps_binding [OF p1])
    have "st_UpCounter (storage_at ?c2 p) = GetUpCount ?c2 u" "st_DownCounter (storage_at ?c2 p) = GetDownCount ?c2 u"
      by (simp_all add: GetUpCount_def GetDownCount_def p2)
    then show ?thesis
      using rollback_item_mem [OF wf2 lt items_ok(1) [OF wf col] above_bound_reported(1) [OF wf col u p]] run zero p
      by (simp add: GetUpCount_def [of "rollback_traffic it ?c2"] GetDownCount_def [of "rollback_traffic it ?c2"] p2
          rollback_entry_def wrap64_add_left GetUpCount_def [of c] GetDownCount_def [of c] add.commute)
  next
    case False
    have same: "GetUpCount c1 u = GetUpCount c u" "GetDownCount c1 u = GetDownCount c u"
      using False collect_counts [OF wf col u] by (auto simp: GetUpCount_def GetDownCount_def split: option.splits)
    have notin: "q \<notin> ri_storage ` set it" if "go_load (tc_Counters ?c2) u = Some q" for q
    proof
      assume "q \<in> ri_storage ` set it"
      then obtain i where i: "i \<in> set it" "q = ri_storage i" by blast
      obtain k where k: "go_load (tc_Counters c1) k = Some q" "go_load (tc_Counters c) k = Some q" "above_min mint (storage_at c q)"
        using item_binding [OF wf col i(1)] i(2) by metis
      have "k = u" by (rule counter_wf_inj [OF wf2 run_keeps_binding [OF k(1)] that])
      then show False using False k by blast
    qed
    have "GetUpCount (rollback_traffic it ?c2) u = GetUpCount ?c2 u \<and> GetDownCount (rollback_traffic it ?c2) u = GetDownCount ?c2 u"
      using rollback_other [OF wf2 lt notin] by (auto simp: GetUpCount_def GetDownCount_def split: option.splits)
    then show ?thesis using run same by simp
  qed
qed

section \<open>The counters of a node as the core sees them\<close>

definition node_counter :: "'x V2Core \<Rightarrow> string \<Rightarrow> TrafficCounter option" where
  "node_counter v tag = (case vc_dispatcher v of None \<Rightarrow> None | Some d \<Rightarrow> go_load (dd_Counter d) tag)"

definition counted_up :: "'x V2Core \<Rightarrow> string \<Rightarrow> string \<Rightarrow> int" where
  "counted_up v tag u = (case node_counter v tag of None \<Rightarrow> 0 | Some c \<Rightarrow> GetUpCount c u)"

definition counted_down :: "'x V2Core \<Rightarrow> string \<Rightarrow> string \<Rightarrow> int" where
  "counted_down v tag u = (case node_counter v tag of None \<Rightarrow> 0 | Some c \<Rightarrow> GetDownCount c u)"

text \<open>Traffic of the node's connections on the storages of its counter.\<close>

definition core_traffic :: "string \<Rightarrow> traffic_event list \<Rightarrow> 'x V2Core \<Rightarrow> 'x V2Core" where
  "core_traffic tag es v =
     (case (vc_dispatcher v, node_counter v tag) of
        (Some d, Some c) \<Rightarrow>
          v\<lparr>vc_dispatcher := Some (d\<lparr>dd_Counter := go_store tag (fold traffic_event_step es c) (dd_Counter d)\<rparr>)\<rparr>
      | _ \<Rightarrow> v)"

definition core_wf :: "'x V2Core \<Rightarrow> bool" where
  "core_wf v \<longleftrightarrow> (case vc_dispatcher v of None \<Rightarrow> True | Some d \<Rightarrow> disp_wf d)"

lemma node_counter_wf: "core_wf v \<Longrightarrow> node_counter v tag = Some c \<Longrightarrow> counter_wf c"
  by (auto simp: core_wf_def node_counter_def disp_wf_def dest: counters_wf_load split: option.splits)

lemma GetUserTrafficSlice_node:
  assumes "GetUserTrafficSlice tag mint v = (sl, items, v1)"
  shows "node_counter v tag = None \<and> sl = [] \<and> items = None \<and> v1 = v \<or>
         (\<exists>c it c1. node_counter v tag = Some c \<and> collect_traffic (uid_of v) mint c = (sl, it, c1) \<and>
            items = (if sl = [] then None else Some it) \<and> node_counter v1 tag = Some c1)"
  using assms by (auto simp: GetUserTrafficSlice_def node_counter_def split: option.splits prod.splits)

lemma node_counter_traffic:
  "node_counter v tag = Some c \<Longrightarrow> node_counter (core_traffic tag es v) tag = Some (fold traffic_event_step es c)"
  by (auto simp: core_traffic_def node_counter_def split: option.splits)

lemma node_counter_rollback:
  "node_counter v tag = Some c \<Longrightarrow> node_counter (rollback_slice tag (Some its) v) tag = Some (rollback_traffic its c)"
  by (auto simp: rollback_slice_def node_counter_def split: option.splits)

section \<open>Revoked users\<close>

definition revoked :: "string \<Rightarrow> string \<Rightarrow> 'x V2Core \<Rightarrow> bool" where
  "revoked tag user v \<longleftrightarrow>
     (case vc_users v of None \<Rightarrow> True | Some m \<Rightarrow> go_load m user = None) \<and>
     (case vc_dispatcher v of
        None \<Rightarrow> True
      | Some d \<Rightarrow> go_load (dd_LinkManagers d) user = None \<and>
                  (case go_load (dd_Counter d) tag of None \<Rightarrow> True | Some c \<Rightarrow> go_load (tc_Counters c) user = None))"

definition live_link :: "DefaultDispatcher \<Rightarrow> string \<Rightarrow> raw_writer \<Rightarrow> nat \<Rightarrow> bool" where
  "live_link d user raw mw \<longleftrightarrow>
     (\<exists>lm rd. go_load (dd_LinkManagers d) user = Some lm \<and> go_load (links_of d lm) mw = Some rd \<and>
              mw < length (dd_writers d) \<and> mw_writer (dd_writers d ! mw) = raw)"

lemma cut_user_frame [simp]:
  "dd_Counter (cut_user user d) = dd_Counter d" "dd_writers (cut_user user d) = dd_writers d"
  "go_load (dd_LinkManagers (cut_user user d)) k = (if k = user then None else go_load (dd_LinkManagers d) k)"
  by (auto simp: cut_user_def split: option.splits)

lemma delete_counter_frame [simp]:
  "dd_LinkManagers (delete_counter tag user d) = dd_LinkManagers d" "dd_writers (delete_counter tag user d) = dd_writers d"
  "dd_closed (delete_counter tag user d) = dd_closed d" "links_of (delete_counter tag user d) lm = links_of d lm"
  by (auto simp: delete_counter_def links_of_def split: option.splits)

lemma delete_counter_load:
  "go_load (dd_Counter (delete_counter tag user d)) t =
     (if t = tag then map_option (counter_delete user) (go_load (dd_Counter d) tag) else go_load (dd_Counter d) t)"
  by (auto simp: delete_counter_def split: option.splits)

lemma drop_user_revokes: "revoked tag user (drop_user tag user v)"
  by (auto simp: revoked_def drop_user_def delete_counter_load option.case_eq_if split: option.splits)

lemma drop_user_keeps_revoked: "revoked tag w v \<Longrightarrow> revoked tag w (drop_user tag user v)"
  by (auto simp: revoked_def drop_user_def delete_counter_load option.case_eq_if split: option.splits)

lemma revoked_server [simp]: "revoked tag w (v\<lparr>vc_Server := s\<rparr>) = revoked tag w v"
  by (simp add: revoked_def)

lemma close_link_live:
  assumes "go_load (links_of d lm) mw = Some rd" and "fst e \<noteq> mw"
  shows "go_load (links_of (close_link e d) lm) mw = Some rd"
  using assms by (auto simp: close_link_def ManagedWriter_Close_def RemoveWriter_def links_of_set Let_def)

lemma close_links_live:
  assumes "go_load (links_of d lm) mw = Some rd" and "mw < length (dd_writers d)"
  shows "mw_writer (dd_writers d ! mw) \<in> set (dd_closed (fold close_link es d)) \<or>
         go_load (links_of (fold close_link es d) lm) mw = Some rd"
proof (cases "mw \<in> fst ` set es")
  case True
  then show ?thesis using close_links_closed(1) [of mw _ es d] assms(2) by force
next
  case False
  then have "go_load (links_of (fold close_link es d) lm) mw = Some rd"
    using assms(1) by (induction es arbitrary: d) (auto simp: close_link_live)
  then show ?thesis ..
qed

lemma cut_other_live:
  assumes "live_link d user raw mw" and "user \<noteq> other"
  shows "raw \<in> set (dd_closed (cut_user other d)) \<or> live_link (cut_user other d) user raw mw"
proof (cases "go_load (dd_LinkManagers d) other")
  case None
  then show ?thesis using assms by (simp add: cut_user_def)
next
  case (Some lo)
  from assms(1) obtain lm rd where l: "go_load (dd_LinkManagers d) user = Some lm" "go_load (links_of d lm) mw = Some rd"
    "mw < length (dd_writers d)" "mw_writer (dd_writers d ! mw) = raw" by (auto simp: live_link_def)
  have "raw \<in> set (dd_closed (CloseAll lo d)) \<or> go_load (links_of (CloseAll lo d) lm) mw = Some rd"
  proof (cases "lo = lm")
    case True
    then show ?thesis using CloseAll_closes(1) [OF go_load_Some_in [OF l(2)]] l by simp
  next
    case False
    then have "go_load (links_of (set_links lo [] d) lm) mw = Some rd" using l(2) by (simp add: links_of_set)
    then show ?thesis using close_links_live [of "set_links lo [] d" lm mw rd] l by (auto simp: CloseAll_eq)
  qed
  then show ?thesis using l assms(2) Some by (auto simp: cut_user_def live_link_def links_of_def)
qed

lemma cut_live: "live_link d user raw mw \<Longrightarrow> raw \<in> set (dd_closed (cut_user user d))"
  by (auto simp: live_link_def cut_user_def intro: CloseAll_closes(1) [OF go_load_Some_in])

lemma cut_closed: "raw \<in> set (dd_closed d) \<Longrightarrow> raw \<in> set (dd_closed (cut_user user d))"
  by (auto simp: cut_user_def CloseAll_monotone split: option.splits)

text \<open>What the removal of a list of users does to one link: it is closed, or still waiting for its user.\<close>

definition closed_or_live :: "'x V2Core \<Rightarrow> string \<Rightarrow> raw_writer \<Rightarrow> nat \<Rightarrow> bool" where
  "closed_or_live v user raw mw \<longleftrightarrow>
     (case vc_dispatcher v of None \<Rightarrow> False | Some d \<Rightarrow> raw \<in> set (dd_closed d) \<or> live_link d user raw mw)"

definition link_closed :: "'x V2Core \<Rightarrow> raw_writer \<Rightarrow> bool" where
  "link_closed v raw \<longleftrightarrow> (case vc_dispatcher v of None \<Rightarrow> False | Some d \<Rightarrow> raw \<in> set (dd_closed d))"

lemma live_link_delete_counter [simp]: "live_link (delete_counter tag w d) user raw mw = live_link d user raw mw"
  by (simp add: live_link_def)

lemma drop_user_closed:
  "closed_or_live v user raw mw \<Longrightarrow> link_closed (drop_user tag user v) raw"
  "link_closed v raw \<Longrightarrow> link_closed (drop_user tag w v) raw"
  "closed_or_live v user raw mw \<Longrightarrow> user \<noteq> w \<Longrightarrow> closed_or_live (drop_user tag w v) user raw mw"
proof -
  show "link_closed v raw \<Longrightarrow> link_closed (drop_user tag w v) raw"
    by (cases "vc_dispatcher v") (simp_all add: link_closed_def drop_user_def cut_closed)
  assume a: "closed_or_live v user raw mw"
  then obtain d where d: "vc_dispatcher v = Some d" "raw \<in> set (dd_closed d) \<or> live_link d user raw mw"
    by (auto simp: closed_or_live_def split: option.splits)
  show "link_closed (drop_user tag user v) raw"
    using d cut_live [of "delete_counter tag user d" user raw mw] cut_closed [of raw "delete_counter tag user d" user]
    by (auto simp: link_closed_def drop_user_def)
  show "user \<noteq> w \<Longrightarrow> closed_or_live (drop_user tag w v) user raw mw"
    using d cut_other_live [of "delete_counter tag w d" user raw mw w] cut_closed [of raw "delete_counter tag w d" w]
    by (auto simp: closed_or_live_def drop_user_def)
qed

lemma del_loop_revoked:
  "del_users_loop xr ctx tag i us x v = (None, v') \<Longrightarrow>
   (\<forall>u \<in> set us. revoked tag (UserTag tag (ui_Uuid u)) v') \<and>
   (\<forall>w. revoked tag w v \<longrightarrow> revoked tag w v') \<and> (\<forall>raw. link_closed v raw \<longrightarrow> link_closed v' raw)"
proof (induction us arbitrary: i x v)
  case Nil
  then show ?case by (auto simp: link_closed_def)
next
  case (Cons u us)
  let ?w = "UserTag tag (ui_Uuid u)"
  obtain x' where "del_users_loop xr ctx tag (Suc i) us x' (drop_user tag ?w v) = (None, v')"
    using Cons.prems by (auto simp: Let_def split: option.splits prod.splits if_splits)
  from Cons.IH [OF this] show ?case
    using drop_user_revokes [of tag ?w v] drop_user_keeps_revoked [of tag _ v ?w] drop_user_closed(2) [of v _ tag ?w]
    by auto
qed

lemma del_loop_closes:
  "del_users_loop xr ctx tag i us x v = (None, v') \<Longrightarrow> user \<in> (UserTag tag \<circ> ui_Uuid) ` set us \<Longrightarrow>
   closed_or_live v user raw mw \<Longrightarrow> link_closed v' raw"
proof (induction us arbitrary: i x v)
  case Nil
  then show ?case by simp
next
  case (Cons u us)
  let ?w = "UserTag tag (ui_Uuid u)"
  obtain x' where rest: "del_users_loop xr ctx tag (Suc i) us x' (drop_user tag ?w v) = (None, v')"
    using Cons.prems(1) by (auto simp: Let_def split: option.splits prod.splits if_splits)
  show ?case
  proof (cases "user = ?w")
    case True
    then show ?thesis using del_loop_revoked [OF rest] drop_user_closed(1) [OF Cons.prems(3)] by simp
  next
    case False
    then show ?thesis using Cons.IH [OF rest] Cons.prems(2) drop_user_closed(3) [OF Cons.prems(3) False] by auto
  qed
qed

section \<open>Users and their tags\<close>

lemma those_map_emails:
  "those (map f us) = Some pus \<Longrightarrow> (\<And>u p. f u = Some p \<Longrightarrow> pu_Email p = g u) \<Longrightarrow> map pu_Email pus = map g us"
  by (induction us arbitrary: pus) (auto split: option.splits)

lemma builders_email [simp]:
  "pu_Email (make_user tag u acc) = UserTag tag (ui_Uuid u)"
  "pu_Email (buildVmessUser tag u) = UserTag tag (ui_Uuid u)" "pu_Email (buildVlessUser tag fl u) = UserTag tag (ui_Uuid u)"
  "pu_Email (buildTrojanUser tag u) = UserTag tag (ui_Uuid u)" "pu_Email (buildSocksUser tag u) = UserTag tag (ui_Uuid u)"
  "pu_Email (buildHTTPUser tag u) = UserTag tag (ui_Uuid u)" "pu_Email (buildHysteria2User tag u) = UserTag tag (ui_Uuid u)"
  "pu_Email (buildTuicUser tag u) = UserTag tag (ui_Uuid u)" "pu_Email (buildAnyTLSUser tag u) = UserTag tag (ui_Uuid u)"
  by (simp_all add: make_user_def buildVmessUser_def buildVlessUser_def buildTrojanUser_def buildSocksUser_def
      buildHTTPUser_def buildHysteria2User_def buildTuicUser_def buildAnyTLSUser_def)

lemma build_users_emails:
  assumes "build_users tag info us = Inr pus"
  shows "map pu_Email pus = map (\<lambda>u. UserTag tag (ui_Uuid u)) us"
proof -
  have ss: "map pu_Email ps = map (\<lambda>u. UserTag tag (ui_Uuid u)) us" if "buildSSUsers tag cy key us = Some ps" for cy key ps
    using that unfolding buildSSUsers_def
    by (rule those_map_emails) (auto simp: buildSSUser_def Let_def split: if_splits)
  show ?thesis
    using assms ss by (auto simp: build_users_def comp_def split: option.splits if_splits)
qed

lemma uid_of_register_ids:
  assumes "vc_users v = Some m" "distinct (map ui_Uuid us)" "u \<in> set us"
  shows "uid_of (register_ids tag us v) (UserTag tag (ui_Uuid u)) = ui_Id u"
proof -
  have "map_of (rev (map (\<lambda>u. (UserTag tag (ui_Uuid u), ui_Id u)) us)) (UserTag tag (ui_Uuid u)) = Some (ui_Id u)"
    using assms(2,3) by (intro map_of_is_SomeI) (auto simp: rev_map [symmetric] distinct_map inj_on_def)
  then show ?thesis
    by (simp add: uid_of_def register_ids_def assms(1) go_get_def gmap.lookup_fold_store map_add_def)
qed

lemma prefix_delete_load:
  "go_load (fold (\<lambda>e m. if HasPrefix (fst e) p then go_delete (fst e) m else m) es m) k =
     (if HasPrefix k p \<and> k \<in> fst ` set es then None else go_load m k)"
  by (induction es arbitrary: m) auto

lemma deleteUserIDs_load:
  "vc_users v = Some m \<Longrightarrow>
   vc_users (deleteUserIDsForTag tag v) = Some m' \<Longrightarrow>
   go_load m' k = (if HasPrefix k (tag @ ''|'') then None else go_load m k)"
  by (cases "k \<in> fst ` set m")
     (auto simp: deleteUserIDsForTag_def prefix_delete_load go_range_def go_load_None_iff [THEN iffD2])

section \<open>A core with one user\<close>

definition demo_xray :: "(nat, string, protocol_user, nat) xray" where
  "demo_xray =
     \<lparr>xr_handler = (\<lambda>_ _. HandlerUserManager), xr_RemoveUser = (\<lambda>_ _ x. (Some (ErrText ''User T|u not found.''), x + 1)),
      xr_ToMemoryUser = Inr, xr_AddUser = (\<lambda>_ _ x. (None, x + 1)), xr_RemoveHandler = (\<lambda>_ x. (None, x)),
      xr_CreateObject = (\<lambda>_ _. Inr (Some 0)), xr_AddHandler = (\<lambda>_ x. (None, x)), xr_New = 0,
      xr_Start = (\<lambda>x. (None, x)), xr_Close = (\<lambda>_. None)\<rparr>"

definition demo_counter :: TrafficCounter where
  "demo_counter = Rx ''T|u'' 700 (Tx ''T|u'' 500 NewTrafficCounter)"

definition demo_dispatcher :: DefaultDispatcher where
  "demo_dispatcher =
     \<lparr>dd_Counter = [(''T'', demo_counter)], dd_LinkManagers = [(''T|u'', 0)],
      dd_managers = [\<lparr>lk_links = [(0, PipeReader 0)]\<rparr>],
      dd_writers = [\<lparr>mw_writer = PipeWriter 0, mw_manager = 0\<rparr>], dd_pipes = 2, dd_closed = [], dd_interrupted = []\<rparr>"

definition demo_core :: "nat V2Core" where
  "demo_core = \<lparr>vc_Config = True, vc_Server = Some 0, vc_users = Some [(''T|u'', 7)], vc_externalSidecarTags = [],
               vc_ihm = True, vc_ohm = True, vc_dispatcher = Some demo_dispatcher\<rparr>"

lemma demo_core_wf: "core_wf demo_core"
  by (simp add: core_wf_def demo_core_def demo_dispatcher_def disp_wf_def managers_wf_def counters_wf_def
      demo_counter_def counter_wf_Rx counter_wf_Tx)

lemma demo_core_users: "uid_of demo_core ''T|u'' = 7"
  by (simp add: uid_of_def demo_core_def go_get_def)

section \<open>Properties\<close>

text \<open>
  C6. Rolling back a failed report loses nothing: whatever the connections of the node transfer between
  the collection and the rollback, the counters of every user with a panel id end at the
  value before the collection plus those transfers.
\<close>

theorem traffic_rollback_lossless:
  assumes "core_wf v" and "GetUserTrafficSlice tag mint v = (sl, Some items, v1)" and "uid_of v u \<noteq> 0"
  shows "counted_up (rollback_slice tag (Some items) (core_traffic tag es v1)) tag u = wrap64 (counted_up v tag u + up_bytes u es) \<and>
         counted_down (rollback_slice tag (Some items) (core_traffic tag es v1)) tag u = wrap64 (counted_down v tag u + down_bytes u es)"
proof -
  obtain c c1 where c: "node_counter v tag = Some c" "collect_traffic (uid_of v) mint c = (sl, items, c1)"
    "node_counter v1 tag = Some c1"
    using GetUserTrafficSlice_node [OF assms(2)] by (auto split: if_splits)
  have "node_counter (rollback_slice tag (Some items) (core_traffic tag es v1)) tag =
      Some (rollback_traffic items (fold traffic_event_step es c1))"
    by (rule node_counter_rollback [OF node_counter_traffic [OF c(3)]])
  then show ?thesis
    using rollback_lossless [OF node_counter_wf [OF assms(1) c(1)] c(2) assms(3)] c(1)
    by (simp add: counted_up_def counted_down_def)
qed

theorem traffic_rollback_lossless_witness:
  "\<exists>items v1. GetUserTrafficSlice ''T'' 1 demo_core =
       ([\<lparr>ut_UID = 7, ut_Upload = 500, ut_Download = 700\<rparr>], Some items, v1) \<and>
     counted_up (rollback_slice ''T'' (Some items) (core_traffic ''T'' [TxEv ''T|u'' 40] v1)) ''T'' ''T|u'' = 540"
proof -
  have g: "fst (GetUserTrafficSlice ''T'' 1 demo_core) = [\<lparr>ut_UID = 7, ut_Upload = 500, ut_Download = 700\<rparr>]"
    and "fst (snd (GetUserTrafficSlice ''T'' 1 demo_core)) \<noteq> None" by code_simp+
  then obtain items v1 where run: "GetUserTrafficSlice ''T'' 1 demo_core =
      ([\<lparr>ut_UID = 7, ut_Upload = 500, ut_Download = 700\<rparr>], Some items, v1)"
    by (metis option.exhaust prod.collapse)
  have "counted_up demo_core ''T'' ''T|u'' = 500" by code_simp
  then show ?thesis
    using traffic_rollback_lossless [OF demo_core_wf run, of "''T|u''" "[TxEv ''T|u'' 40]"] run
    by (simp add: demo_core_users wrap64_def)
qed

text \<open>
  A collection moves traffic exactly: for every user with a panel id either the counters exceed the
  threshold, the slice carries exactly them under the user's id and they are zero afterwards, or
  they stay as they were; and the slice has no other entries.
\<close>

theorem traffic_slice_exact:
  assumes "core_wf v" and "node_counter v tag = Some c" and "GetUserTrafficSlice tag mint v = (sl, items, v1)"
  shows "(\<forall>u. uid_of v u \<noteq> 0 \<longrightarrow>
            (if \<exists>p. go_load (tc_Counters c) u = Some p \<and> above_min mint (storage_at c p)
             then \<lparr>ut_UID = uid_of v u, ut_Upload = counted_up v tag u, ut_Download = counted_down v tag u\<rparr> \<in> set sl \<and>
                  counted_up v1 tag u = 0 \<and> counted_down v1 tag u = 0
             else counted_up v1 tag u = counted_up v tag u \<and> counted_down v1 tag u = counted_down v tag u)) \<and>
         (\<forall>t \<in> set sl. \<exists>u. uid_of v u \<noteq> 0 \<and>
            t = \<lparr>ut_UID = uid_of v u, ut_Upload = counted_up v tag u, ut_Download = counted_down v tag u\<rparr>)"
proof -
  obtain it c1 where c: "collect_traffic (uid_of v) mint c = (sl, it, c1)" "node_counter v1 tag = Some c1"
    using GetUserTrafficSlice_node [OF assms(3)] assms(2) by auto
  have wf: "counter_wf c" by (rule node_counter_wf [OF assms(1,2)])
  have one: "if \<exists>p. go_load (tc_Counters c) u = Some p \<and> above_min mint (storage_at c p)
      then \<lparr>ut_UID = uid_of v u, ut_Upload = counted_up v tag u, ut_Download = counted_down v tag u\<rparr> \<in> set sl \<and>
           counted_up v1 tag u = 0 \<and> counted_down v1 tag u = 0
      else counted_up v1 tag u = counted_up v tag u \<and> counted_down v1 tag u = counted_down v tag u"
    if u: "uid_of v u \<noteq> 0" for u
    using collect_counts [OF wf c(1) u] above_bound_reported(2) [OF wf c(1) u]
    by (auto simp: counted_up_def counted_down_def assms(2) c(2) GetUpCount_def GetDownCount_def slice_entry_def
        zero_storage_def split: option.splits)
  have all: "\<exists>u. uid_of v u \<noteq> 0 \<and>
      t = \<lparr>ut_UID = uid_of v u, ut_Upload = counted_up v tag u, ut_Download = counted_down v tag u\<rparr>" if t: "t \<in> set sl" for t
  proof -
    from t collect_traffic_spec(1) [OF wf c(1)] obtain e where e: "e \<in> set (tc_Counters c)" "uid_of v (fst e) \<noteq> 0"
      "t = slice_entry (uid_of v) c e" by (auto simp: reported_def)
    have "go_load (tc_Counters c) (fst e) = Some (snd e)"
      using wf e(1) in_range_iff [of "tc_Counters c" "fst e" "snd e"] by (simp add: counter_wf_def go_range_def)
    then show ?thesis
      using e by (auto simp: slice_entry_def counted_up_def counted_down_def assms(2) GetUpCount_def GetDownCount_def
          intro!: exI [of _ "fst e"])
  qed
  show ?thesis using one all by blast
qed

theorem traffic_slice_exact_witness:
  "\<exists>sl items v1. GetUserTrafficSlice ''T'' 1 demo_core = (sl, items, v1) \<and> counted_up v1 ''T'' ''T|u'' = 0 \<and>
     \<lparr>ut_UID = 7, ut_Upload = 500, ut_Download = 700\<rparr> \<in> set sl"
proof -
  obtain sl items v1 where run: "GetUserTrafficSlice ''T'' 1 demo_core = (sl, items, v1)" by (metis prod.exhaust)
  have n: "node_counter demo_core ''T'' = Some demo_counter" by (simp add: node_counter_def demo_core_def demo_dispatcher_def)
  have l: "go_load (tc_Counters demo_counter) ''T|u'' = Some 0" "above_min 1 (storage_at demo_counter 0)"
    "counted_up demo_core ''T'' ''T|u'' = 500" "counted_down demo_core ''T'' ''T|u'' = 700" by code_simp+
  show ?thesis
    using traffic_slice_exact [OF demo_core_wf n run] l run demo_core_users by (auto dest: spec [of _ "''T|u''"])
qed

text \<open>
  C8. Removing users cuts them off: when \<open>DelUsers\<close> succeeds, none of them has a panel id, a byte
  counter or a link manager any more, and every connection any of them had open is closed.
\<close>

theorem DelUsers_revokes:
  assumes "DelUsers xr ctx users tag v = (None, v')" and "u \<in> set users"
  shows "revoked tag (UserTag tag (ui_Uuid u)) v' \<and>
         (\<forall>d raw mw. vc_dispatcher v = Some d \<and> live_link d (UserTag tag (ui_Uuid u)) raw mw \<longrightarrow> link_closed v' raw)"
proof -
  obtain x where run: "del_users_loop xr ctx tag 0 users x v = (None, v')"
    using assms(1) by (auto simp: DelUsers_def split: option.splits sum.splits prod.splits)
  have "link_closed v' raw" if "vc_dispatcher v = Some d" "live_link d (UserTag tag (ui_Uuid u)) raw mw" for d raw mw
    using del_loop_closes [OF run, of "UserTag tag (ui_Uuid u)" raw mw] that assms(2)
    by (auto simp: closed_or_live_def)
  then show ?thesis using del_loop_revoked [OF run] assms(2) by auto
qed

theorem DelUsers_revokes_witness:
  "\<exists>v'. DelUsers demo_xray (\<lambda>_. None) [demo_user] ''T'' demo_core = (None, v') \<and> revoked ''T'' ''T|u'' v' \<and>
        link_closed v' (PipeWriter 0)"
proof -
  have "fst (DelUsers demo_xray (\<lambda>_. None) [demo_user] ''T'' demo_core) = None" by code_simp
  then obtain v' where run: "DelUsers demo_xray (\<lambda>_. None) [demo_user] ''T'' demo_core = (None, v')"
    by (metis prod.collapse)
  have u: "UserTag ''T'' (ui_Uuid demo_user) = ''T|u''" by code_simp
  have d: "vc_dispatcher demo_core = Some demo_dispatcher" by (simp add: demo_core_def)
  have l: "live_link demo_dispatcher ''T|u'' (PipeWriter 0) 0"
    by (simp add: live_link_def demo_dispatcher_def links_of_def)
  have "demo_user \<in> set [demo_user]" by simp
  from DelUsers_revokes [OF run this, unfolded u] show ?thesis using run d l by blast
qed

text \<open>
  One key names a user everywhere: the accounts handed to Xray carry, in order, the tag of each user,
  under which the limiter keeps the user's limits, and after the registration the core's id map gives
  the user's panel id for that same tag.
\<close>

theorem user_keys_agree:
  assumes "build_users tag info us = Inr pus" and "vc_users v = Some m" and "distinct (map ui_Uuid us)"
  shows "map pu_Email pus = map (\<lambda>u. UserTag tag (ui_Uuid u)) us \<and>
         (\<forall>u \<in> set us. uid_of (register_ids tag us v) (UserTag tag (ui_Uuid u)) = ui_Id u \<and>
            (\<exists>ul. go_load (lm_UserLimitInfo (new_limiter typ tag us alive)) (UserTag tag (ui_Uuid u)) = Some ul \<and>
                  ul_UID ul = ui_Id u))"
proof -
  have lim: "\<exists>ul. go_load (lm_UserLimitInfo (new_limiter typ tag us alive)) (UserTag tag (ui_Uuid u)) = Some ul \<and> ul_UID ul = ui_Id u"
    if "u \<in> set us" for u
  proof -
    have "map_of (rev (map (\<lambda>u. (UserTag tag (ui_Uuid u), new_user_limit u)) us)) (UserTag tag (ui_Uuid u)) = Some (new_user_limit u)"
      using assms(3) that by (intro map_of_is_SomeI) (auto simp: rev_map [symmetric] distinct_map inj_on_def)
    then show ?thesis
      by (simp add: new_limiter_def gmap.lookup_fold_store map_add_def new_user_limit_def)
  qed
  show ?thesis using build_users_emails [OF assms(1)] uid_of_register_ids [OF assms(2,3)] lim by blast
qed

theorem user_keys_agree_witness:
  "\<exists>pus. build_users ''T'' demo_node [demo_user] = Inr pus \<and> map pu_Email pus = [''T|u''] \<and>
         uid_of (register_ids ''T'' [demo_user] (new_core :: nat V2Core)) ''T|u'' = ui_Id demo_user"
proof -
  have "\<exists>pus. build_users ''T'' demo_node [demo_user] = Inr pus"
    by (simp add: build_users_def demo_node_def)
  then obtain pus where b: "build_users ''T'' demo_node [demo_user] = Inr pus" ..
  have u: "UserTag ''T'' (ui_Uuid demo_user) = ''T|u''" by code_simp
  have c: "vc_users (new_core :: nat V2Core) = Some []" by (simp add: new_core_def)
  have "distinct (map ui_Uuid [demo_user])" by simp
  from user_keys_agree [OF b c this, unfolded list.map u] show ?thesis using b by (auto simp: u)
qed

text \<open>
  Removing a sidecar node forgets the ids of exactly that node's users: every key that starts with the
  node's tag and the separator is gone, every other one is as before.
\<close>

theorem DelNode_sidecar_exact:
  assumes "go_load (vc_externalSidecarTags v) tag \<noteq> None" and "vc_users v = Some m"
  shows "\<exists>v' m'. DelNode xr tag v = (None, v') \<and> vc_users v' = Some m' \<and>
           go_load (vc_externalSidecarTags v') tag = None \<and>
           (\<forall>k. go_load m' k = (if HasPrefix k (tag @ ''|'') then None else go_load m k))"
proof -
  let ?v = "v\<lparr>vc_externalSidecarTags := go_delete tag (vc_externalSidecarTags v)\<rparr>"
  obtain m' where m': "vc_users (deleteUserIDsForTag tag ?v) = Some m'"
    using assms(2) by (simp add: deleteUserIDsForTag_def)
  have "vc_users ?v = Some m" using assms(2) by simp
  from deleteUserIDs_load [OF this m'] show ?thesis
    using assms(1) m' by (auto simp: DelNode_def deleteUserIDsForTag_def)
qed

theorem DelNode_sidecar_exact_witness:
  "\<exists>v' m'. DelNode demo_xray ''S'' (new_core\<lparr>vc_externalSidecarTags := [(''S'', ())], vc_users := Some [(''S|a'', 1), (''T|a'', 2)]\<rparr>)
       = (None, v') \<and> vc_users v' = Some m' \<and> go_load m' ''S|a'' = None \<and> go_load m' ''T|a'' = Some 2"
proof -
  let ?v = "new_core\<lparr>vc_externalSidecarTags := [(''S'', ())], vc_users := Some [(''S|a'', 1), (''T|a'', 2)]\<rparr> :: nat V2Core"
  have "go_load (vc_externalSidecarTags ?v) ''S'' \<noteq> None" "vc_users ?v = Some [(''S|a'', 1), (''T|a'', 2)]" by simp_all
  from DelNode_sidecar_exact [OF this, of demo_xray] show ?thesis by (auto simp: HasPrefix_def)
qed

end
