(* ===== verification/Edge_Sidecar.thy ===== *)
theory Edge_Sidecar
  imports Panel_Types
begin

text \<open>
  The sidecar processes of the protocols Xray does not speak (\<open>node/edge_sidecar.go\<close>): the
  configuration of \<open>mita\<close> for mieru nodes and of \<open>caddy\<close> for naive nodes, and its hand-over to the
  edge agent. The SHA-1 digest, the JSON encoder and the agent (\<open>UpsertSidecar\<close>) are arguments.
\<close>

section \<open>Data\<close>

record EdgeGeneratedFile =
  gf_Path :: string
  gf_Contents :: string

record EdgeSidecarSpec =
  ss_Name :: string
  ss_Protocol :: string
  ss_Enabled :: bool
  ss_Binary :: string
  ss_Args :: "string list"
  ss_Env :: "(string, string) go_map"
  ss_GeneratedFiles :: "EdgeGeneratedFile list"

record mieruPortBinding =
  pb_Port :: int
  pb_PortRange :: string
  pb_Protocol :: string

record mieruUser =
  mu_Name :: string
  mu_Password :: string

record mieruServerConfig =
  ms_PortBindings :: "mieruPortBinding list"
  ms_Users :: "mieruUser list"
  ms_LoggingLevel :: string
  ms_MTU :: int

datatype sidecar_error =
    SidecarNodeEmpty | SidecarUnsupported string | SidecarCommonEmpty string | SidecarNoUsers string
  | SidecarBridgeMissing string | SidecarBridgeError string | SidecarFailed string string

section \<open>mieru\<close>

definition mieruPortBindingFromNode :: "CommonNode \<Rightarrow> mieruPortBinding" where
  "mieruPortBindingFromNode node =
     (let protocol0 = ToUpper (TrimSpace (cm_Transport node));
          protocol = (if protocol0 = [] then ''TCP'' else protocol0);
          ports = TrimSpace (cm_Ports node);
          port = TrimSpace (cm_Port node)
      in if ports \<noteq> [] then \<lparr>pb_Port = 0, pb_PortRange = ports, pb_Protocol = protocol\<rparr>
         else if port \<noteq> [] \<and> Contains port ''-'' then \<lparr>pb_Port = 0, pb_PortRange = port, pb_Protocol = protocol\<rparr>
         else if cm_ServerPort node > 0 then \<lparr>pb_Port = cm_ServerPort node, pb_PortRange = [], pb_Protocol = protocol\<rparr>
         else case Atoi port of
                Some p \<Rightarrow> (if p > 0 then \<lparr>pb_Port = p, pb_PortRange = [], pb_Protocol = protocol\<rparr>
                           else \<lparr>pb_Port = 0, pb_PortRange = [], pb_Protocol = protocol\<rparr>)
              | None \<Rightarrow> \<lparr>pb_Port = 0, pb_PortRange = [], pb_Protocol = protocol\<rparr>)"

definition mieruUsersFromPanel :: "UserInfo list \<Rightarrow> mieruUser list" where
  "mieruUsersFromPanel users =
     map (\<lambda>u. \<lparr>mu_Name = ui_Uuid u, mu_Password = ui_Uuid u\<rparr>) (filter (\<lambda>u. TrimSpace (ui_Uuid u) \<noteq> []) users)"

text \<open>The digest argument gives the hexadecimal form of the first six bytes.\<close>

definition edgeSidecarName :: "(string \<Rightarrow> string) \<Rightarrow> string \<Rightarrow> string \<Rightarrow> string" where
  "edgeSidecarName sha1_hex6 protocol tag = protocol @ ''-'' @ sha1_hex6 tag"

definition buildMieruSidecarSpec ::
  "(string \<Rightarrow> string) \<Rightarrow> (mieruServerConfig \<Rightarrow> string) \<Rightarrow> NodeInfo \<Rightarrow> string \<Rightarrow> UserInfo list \<Rightarrow> sidecar_error + EdgeSidecarSpec" where
  "buildMieruSidecarSpec sha1_hex6 json_Marshal info tag userList =
     (case ni_Common info of
        None \<Rightarrow> Inl (SidecarCommonEmpty ''mieru'')
      | Some common \<Rightarrow>
          if userList = [] then Inl (SidecarNoUsers ''mieru'')
          else let name = edgeSidecarName sha1_hex6 ''mieru'' tag;
                   configPath = ''runtime/'' @ name @ ''/server.conf.json'';
                   config = \<lparr>ms_PortBindings = [mieruPortBindingFromNode common],
                             ms_Users = mieruUsersFromPanel userList, ms_LoggingLevel = ''INFO'', ms_MTU = 1400\<rparr>
               in Inr \<lparr>ss_Name = name, ss_Protocol = ''mieru'', ss_Enabled = True, ss_Binary = ''mita'', ss_Args = [''run''],
                       ss_Env = [(''MITA_CONFIG_JSON_FILE'', configPath)],
                       ss_GeneratedFiles = [\<lparr>gf_Path = configPath, gf_Contents = json_Marshal config\<rparr>]\<rparr>)"

section \<open>naive\<close>

definition naiveListen :: "CommonNode \<Rightarrow> string" where
  "naiveListen node =
     (if cm_ServerPort node > 0 then '':'' @ Itoa (cm_ServerPort node)
      else let port = TrimSpace (cm_Port node)
           in if port \<noteq> [] \<and> \<not> Contains port ''-'' then '':'' @ port else '':443'')"

definition naiveServerName :: "CommonNode \<Rightarrow> string" where
  "naiveServerName node =
     (case cm_CertInfo node of
        Some ci \<Rightarrow> if TrimSpace (ci_CertDomain ci) \<noteq> [] then TrimSpace (ci_CertDomain ci)
                   else TrimSpace (ts_ServerName (cm_TlsSettings node))
      | None \<Rightarrow> TrimSpace (ts_ServerName (cm_TlsSettings node)))"

definition naiveCertFile :: "CommonNode \<Rightarrow> string" where
  "naiveCertFile node = (case cm_CertInfo node of None \<Rightarrow> [] | Some ci \<Rightarrow> TrimSpace (ci_CertFile ci))"

definition naiveKeyFile :: "CommonNode \<Rightarrow> string" where
  "naiveKeyFile node = (case cm_CertInfo node of None \<Rightarrow> [] | Some ci \<Rightarrow> TrimSpace (ci_KeyFile ci))"

abbreviation quote_char :: char where "quote_char \<equiv> CHR 0x22"
abbreviation backslash :: char where "backslash \<equiv> CHR 0x5C"
abbreviation newline :: char where "newline \<equiv> CHR 0x0A"

definition caddy_plain :: "char \<Rightarrow> bool" where
  "caddy_plain c \<longleftrightarrow>
     (let n = of_char c :: nat
      in (97 \<le> n \<and> n \<le> 122) \<or> (65 \<le> n \<and> n \<le> 90) \<or> (48 \<le> n \<and> n \<le> 57)) \<or>
     c \<in> {CHR ''.'', CHR ''_'', CHR ''-'', CHR ''/'', CHR '':'', CHR ''$''}"

definition caddyToken :: "string \<Rightarrow> string" where
  "caddyToken value =
     (if value = [] then [quote_char, quote_char]
      else if list_all caddy_plain value then value
      else [quote_char] @
           ReplaceAllChar (ReplaceAllChar value backslash [backslash, backslash]) quote_char [backslash, quote_char] @
           [quote_char])"

definition caddy_user_line :: "UserInfo \<Rightarrow> string" where
  "caddy_user_line u =
     (if TrimSpace (ui_Uuid u) = [] then []
      else ''            basic_auth '' @ caddyToken (ui_Uuid u) @ '' '' @ caddyToken (ui_Uuid u) @ [newline])"

definition renderNaiveCaddyfile ::
  "string \<Rightarrow> string \<Rightarrow> string \<Rightarrow> string \<Rightarrow> UserInfo list \<Rightarrow> string \<Rightarrow> string" where
  "renderNaiveCaddyfile listen serverName certFile keyFile users probeResistance =
     (let site0 = TrimSpace listen;
          site1 = (if site0 = [] then '':443'' else site0);
          name = TrimSpace serverName;
          site = (if name \<noteq> [] then site1 @ '', '' @ name else site1);
          probe = TrimSpace probeResistance
      in ''{'' @ [newline] @ ''    order forward_proxy first'' @ [newline] @ ''}'' @ [newline, newline] @
         site @ '' {'' @ [newline] @
         (if certFile \<noteq> [] \<and> keyFile \<noteq> []
          then ''    tls '' @ caddyToken certFile @ '' '' @ caddyToken keyFile @ [newline] else []) @
         ''    route {'' @ [newline] @ ''        forward_proxy {'' @ [newline] @
         concat (map caddy_user_line users) @
         ''            hide_ip'' @ [newline] @ ''            hide_via'' @ [newline] @
         (if probe \<noteq> [] then ''            probe_resistance '' @ caddyToken probe @ [newline] else []) @
         ''        }'' @ [newline] @ ''        respond '' @ [quote_char] @ ''OK'' @ [quote_char] @ '' 200'' @ [newline] @
         ''    }'' @ [newline] @ ''}'' @ [newline])"

definition buildNaiveSidecarSpec ::
  "(string \<Rightarrow> string) \<Rightarrow> NodeInfo \<Rightarrow> string \<Rightarrow> UserInfo list \<Rightarrow> sidecar_error + EdgeSidecarSpec" where
  "buildNaiveSidecarSpec sha1_hex6 info tag userList =
     (case ni_Common info of
        None \<Rightarrow> Inl (SidecarCommonEmpty ''naive'')
      | Some common \<Rightarrow>
          if userList = [] then Inl (SidecarNoUsers ''naive'')
          else let name = edgeSidecarName sha1_hex6 ''naive'' tag;
                   configPath = ''runtime/'' @ name @ ''/Caddyfile'';
                   caddyfile = renderNaiveCaddyfile (naiveListen common) (naiveServerName common)
                                 (naiveCertFile common) (naiveKeyFile common) userList []
               in Inr \<lparr>ss_Name = name, ss_Protocol = ''naive'', ss_Enabled = True, ss_Binary = ''caddy'',
                       ss_Args = [''run'', ''--config'', configPath], ss_Env = [],
                       ss_GeneratedFiles = [\<lparr>gf_Path = configPath, gf_Contents = caddyfile\<rparr>]\<rparr>)"

section \<open>Applying the sidecar\<close>

definition buildEdgeSidecarSpec ::
  "(string \<Rightarrow> string) \<Rightarrow> (mieruServerConfig \<Rightarrow> string) \<Rightarrow> NodeInfo option \<Rightarrow> string \<Rightarrow> UserInfo list \<Rightarrow> sidecar_error + EdgeSidecarSpec" where
  "buildEdgeSidecarSpec sha1_hex6 json_Marshal info tag userList =
     (case info of
        None \<Rightarrow> Inl SidecarNodeEmpty
      | Some i \<Rightarrow>
          if ni_Type i = ''mieru'' then buildMieruSidecarSpec sha1_hex6 json_Marshal i tag userList
          else if ni_Type i = ''naive'' then buildNaiveSidecarSpec sha1_hex6 i tag userList
          else Inl (SidecarUnsupported (ni_Type i)))"

text \<open>
  The edge agent: \<open>None\<close> when no bridge is configured; otherwise \<open>UpsertSidecar\<close> gives an error text
  or the list of failed sidecars with their errors.
\<close>

record edge_env =
  ee_sha1_hex6 :: "string \<Rightarrow> string"
  ee_json_Marshal :: "mieruServerConfig \<Rightarrow> string"
  ee_bridge :: "(EdgeSidecarSpec \<Rightarrow> string + (string \<times> string) list) option"

definition applyEdgeSidecar :: "edge_env \<Rightarrow> NodeInfo option \<Rightarrow> string \<Rightarrow> UserInfo list \<Rightarrow> sidecar_error option" where
  "applyEdgeSidecar env info tag userList =
     (case info of
        None \<Rightarrow> None
      | Some i \<Rightarrow>
          if \<not> (ni_Type i = ''mieru'' \<or> ni_Type i = ''naive'') then None
          else case ee_bridge env of
                 None \<Rightarrow> Some (SidecarBridgeMissing (ni_Type i))
               | Some UpsertSidecar \<Rightarrow>
                   (case buildEdgeSidecarSpec (ee_sha1_hex6 env) (ee_json_Marshal env) (Some i) tag userList of
                      Inl err \<Rightarrow> Some err
                    | Inr spec \<Rightarrow>
                        (case UpsertSidecar spec of
                           Inl err \<Rightarrow> Some (SidecarBridgeError err)
                         | Inr failed \<Rightarrow>
                             (case failed of
                                [] \<Rightarrow> None
                              | (name, err) # _ \<Rightarrow> Some (SidecarFailed name err)))))"

section \<open>Reading a token back\<close>

text \<open>
  How a configuration lexer that honours backslash escapes inside quotes reads one token: the token
  and the text after it; \<open>None\<close> for an unterminated quote.
\<close>

fun read_quoted :: "string \<Rightarrow> (string \<times> string) option" where
  "read_quoted [] = None"
| "read_quoted (c # s) =
     (if c = quote_char then Some ([], s)
      else if c = backslash then
        (case s of [] \<Rightarrow> None
         | d # s' \<Rightarrow> map_option (\<lambda>(t, rest). (d # t, rest)) (read_quoted s'))
      else map_option (\<lambda>(t, rest). (c # t, rest)) (read_quoted s))"

definition read_token :: "string \<Rightarrow> (string \<times> string) option" where
  "read_token s =
     (case s of
        c # s' \<Rightarrow> if c = quote_char then read_quoted s'
                  else Some (takeWhile (\<lambda>c. \<not> is_space c) s, dropWhile (\<lambda>c. \<not> is_space c) s)
      | [] \<Rightarrow> Some ([], []))"

definition escape_char :: "char \<Rightarrow> string" where
  "escape_char c = (if c = backslash then [backslash, backslash] else if c = quote_char then [backslash, quote_char] else [c])"

lemma escape_eq:
  "ReplaceAllChar (ReplaceAllChar v backslash [backslash, backslash]) quote_char [backslash, quote_char] =
   concat (map escape_char v)"
  by (induction v) (auto simp: ReplaceAllChar_def escape_char_def)

lemma read_quoted_escape: "read_quoted (concat (map escape_char v) @ quote_char # rest) = Some (v, rest)"
  by (induction v) (auto simp: escape_char_def)

lemma caddy_plain_no_space: "caddy_plain c \<Longrightarrow> \<not> is_space c"
  by (auto simp: caddy_plain_def is_space_def Let_def)

lemma caddy_plain_no_quote: "caddy_plain c \<Longrightarrow> c \<noteq> quote_char"
  by (auto simp: caddy_plain_def Let_def)

lemma read_plain:
  assumes "list_all caddy_plain v" and "v \<noteq> []" and "rest = [] \<or> is_space (hd rest)"
  shows "read_token (v @ rest) = Some (v, rest)"
proof -
  have p: "\<forall>c \<in> set v. \<not> is_space c" using assms(1) caddy_plain_no_space by (auto simp: list_all_iff)
  obtain c v' where v: "v = c # v'" using assms(2) by (cases v) auto
  have "c \<noteq> quote_char" using assms(1) v caddy_plain_no_quote by auto
  moreover have "takeWhile (\<lambda>c. \<not> is_space c) (v @ rest) = v" "dropWhile (\<lambda>c. \<not> is_space c) (v @ rest) = rest"
    using p assms(3) by (cases rest; simp add: takeWhile_append dropWhile_append)+
  ultimately show ?thesis using v by (simp add: read_token_def)
qed

section \<open>Properties\<close>

text \<open>
  The token written into the Caddyfile for any value is read back as exactly that value, with the rest
  of the line untouched: no user id, path or domain can break out of its token.
\<close>

theorem caddyToken_roundtrip:
  assumes "rest = [] \<or> is_space (hd rest)"
  shows "read_token (caddyToken value @ rest) = Some (value, rest)"
proof (cases "value = [] \<or> \<not> list_all caddy_plain value")
  case True
  then have "caddyToken value = [quote_char] @ concat (map escape_char value) @ [quote_char]"
    by (auto simp: caddyToken_def escape_eq)
  then show ?thesis using read_quoted_escape [of "value" rest] by (simp add: read_token_def)
next
  case False
  then show ?thesis using read_plain [OF _ _ assms, of "value"] by (simp add: caddyToken_def)
qed

theorem caddyToken_roundtrip_witness:
  "read_token (caddyToken [CHR ''a'', quote_char, CHR '' '', backslash] @ '' x'') =
   Some ([CHR ''a'', quote_char, CHR '' '', backslash], '' x'')"
  by (rule caddyToken_roundtrip) (simp add: is_space_def)

end
