(* ===== verification/User_Sync.thy ===== *)
theory User_Sync
  imports Core_Users Edge_Sidecar "HOL-Library.Multiset"
begin

text \<open>
  Keeping the node's users in step with the panel (\<open>node/user_delta.go\<close>, \<open>node/user.go\<close>
  \<open>compareUserList\<close>, \<open>node/task.go\<close>, \<open>node/user_sync_state.go\<close>, and \<open>loadAndSyncUsers\<close> and the
  start of \<open>node/controller.go\<close>). A sync computes which users were deleted, added and updated
  and applies the three lists to the limiter and to the core. The locale \<open>user_store\<close> is what the
  sync relies on, a table of users with an update and a replacement; it is interpreted on the
  limiter and on the id map of the core, and its one theorem says that applying a correct
  difference turns the table of the old list into that of the new one. The answers of the
  panel, the clock and the file system are arguments.
\<close>

section \<open>Differences of user lists\<close>

definition index_users :: "UserInfo list \<Rightarrow> (string, UserInfo) go_map" where
  "index_users us = fold (\<lambda>u. go_store (ui_Uuid u) u) us []"

definition same_limits :: "UserInfo \<Rightarrow> UserInfo \<Rightarrow> bool" where
  "same_limits a b \<longleftrightarrow>
     \<not> (ui_Id a \<noteq> ui_Id b \<or> ui_SpeedLimit a \<noteq> ui_SpeedLimit b \<or> ui_DeviceLimit a \<noteq> ui_DeviceLimit b)"

fun compare_loop ::
  "UserInfo list \<Rightarrow> (string, UserInfo) go_map \<Rightarrow> UserInfo list \<Rightarrow> UserInfo list \<Rightarrow>
   (string, UserInfo) go_map \<times> UserInfo list \<times> UserInfo list" where
  "compare_loop [] oldMap added updated = (oldMap, added, updated)"
| "compare_loop (u # us) oldMap added updated =
     (case go_load oldMap (ui_Uuid u) of
        None \<Rightarrow> compare_loop us oldMap (added @ [u]) updated
      | Some oldUser \<Rightarrow>
          compare_loop us (go_delete (ui_Uuid u) oldMap) added
            (if \<not> same_limits oldUser u then updated @ [u] else updated))"

text \<open>The deleted, the added and the updated users.\<close>

definition compareUserList :: "UserInfo list \<Rightarrow> UserInfo list \<Rightarrow> UserInfo list \<times> UserInfo list \<times> UserInfo list" where
  "compareUserList old new =
     (case compare_loop new (index_users old) [] [] of
        (oldMap, added, updated) \<Rightarrow> (map snd (go_range oldMap), added, updated))"

definition delta_delete ::
  "UserInfo \<Rightarrow> (string, UserInfo) go_map \<times> UserInfo list \<Rightarrow> (string, UserInfo) go_map \<times> UserInfo list" where
  "delta_delete u acc =
     (case acc of (oldMap, deletedApplied) \<Rightarrow>
        case go_load oldMap (ui_Uuid u) of
          Some oldUser \<Rightarrow> (go_delete (ui_Uuid u) oldMap, deletedApplied @ [oldUser])
        | None \<Rightarrow> (oldMap, deletedApplied))"

definition delta_upsert ::
  "UserInfo \<Rightarrow> (string, UserInfo) go_map \<times> UserInfo list \<times> UserInfo list \<Rightarrow>
   (string, UserInfo) go_map \<times> UserInfo list \<times> UserInfo list" where
  "delta_upsert u acc =
     (case acc of (oldMap, added, updated) \<Rightarrow>
        if go_load oldMap (ui_Uuid u) \<noteq> None then (go_store (ui_Uuid u) u oldMap, added, updated @ [u])
        else (go_store (ui_Uuid u) u oldMap, added @ [u], updated))"

text \<open>\<open>applyUserDelta\<close>: the next list, sorted by uuid, and the three lists to apply.\<close>

definition applyUserDelta ::
  "UserInfo list \<Rightarrow> UserInfo list \<Rightarrow> UserInfo list \<Rightarrow>
   UserInfo list \<times> UserInfo list \<times> UserInfo list \<times> UserInfo list" where
  "applyUserDelta old deleted upsert =
     (case fold delta_delete deleted (index_users old, []) of
        (m1, deletedApplied) \<Rightarrow>
          (case fold delta_upsert upsert (m1, [], []) of
             (m2, added, updated) \<Rightarrow>
               (sort_key ui_Uuid (map snd (go_range m2)), deletedApplied, added, updated)))"

section \<open>The interface of a table of users\<close>

definition table :: "(UserInfo \<Rightarrow> 'v) \<Rightarrow> UserInfo list \<Rightarrow> string \<Rightarrow> 'v option" where
  "table val us = map_of (rev (map (\<lambda>u. (ui_Uuid u, val u)) us))"

text \<open>When a difference is right for a table: applied in the order of the sync it gives the new table.\<close>

definition right_diff ::
  "(UserInfo \<Rightarrow> 'v) \<Rightarrow> UserInfo list \<Rightarrow> UserInfo list \<Rightarrow> UserInfo list \<times> UserInfo list \<times> UserInfo list \<Rightarrow> bool" where
  "right_diff val old new d \<longleftrightarrow>
     (case d of (deleted, added, updated) \<Rightarrow>
        ((table val old ++ table val updated) |` (- ui_Uuid ` set deleted)) ++ table val added = table val new)"

locale user_store =
  fixes view :: "'s \<Rightarrow> string \<Rightarrow> 'v option"
    and val :: "UserInfo \<Rightarrow> 'v"
    and upd :: "UserInfo list \<Rightarrow> 's \<Rightarrow> 's"
    and replace :: "UserInfo list \<Rightarrow> UserInfo list \<Rightarrow> 's \<Rightarrow> 's"
    and ok :: "'s \<Rightarrow> bool"
  assumes view_upd: "ok s \<Longrightarrow> view (upd us s) = view s ++ table val us"
    and view_replace: "ok s \<Longrightarrow> view (replace added deleted s) = (view s |` (- ui_Uuid ` set deleted)) ++ table val added"
    and ok_upd: "ok s \<Longrightarrow> ok (upd us s)"
    and ok_replace: "ok s \<Longrightarrow> ok (replace added deleted s)"
    and val_same: "same_limits a b \<Longrightarrow> val a = val b"
begin

lemma apply_diff:
  "ok s \<Longrightarrow> view s = table val old \<Longrightarrow> right_diff val old new (deleted, added, updated) \<Longrightarrow>
   view (replace added deleted (upd updated s)) = table val new"
  by (simp add: view_upd view_replace ok_upd right_diff_def)

end

lemma user_view_table: "users_of us = table (\<lambda>u. (ui_Id u, ui_SpeedLimit u, ui_DeviceLimit u)) us"
  by (simp add: users_of_def table_def)

interpretation limiter_users: user_store user_view "\<lambda>u. (ui_Id u, ui_SpeedLimit u, ui_DeviceLimit u)"
  "\<lambda>us l. UpdateUserInfo (lm_Tag l) us l" "\<lambda>added deleted l. UpdateUser (lm_Tag l) added deleted l" "\<lambda>_. True"
  by unfold_locales (simp_all add: user_view_UpdateUserInfo user_view_UpdateUser user_view_table same_limits_def)

text \<open>The ids the core keeps for the users of one node.\<close>

definition id_view :: "string \<Rightarrow> 'x V2Core \<Rightarrow> string \<Rightarrow> int option" where
  "id_view tag v uuid = (case vc_users v of None \<Rightarrow> None | Some m \<Rightarrow> go_load m (UserTag tag uuid))"

definition drop_users :: "string \<Rightarrow> UserInfo list \<Rightarrow> 'x V2Core \<Rightarrow> 'x V2Core" where
  "drop_users tag us v = fold (\<lambda>u. drop_user tag (UserTag tag (ui_Uuid u))) us v"

lemma id_view_register:
  assumes "vc_users v \<noteq> None"
  shows "id_view tag (register_ids tag us v) = id_view tag v ++ table ui_Id us"
proof -
  have m: "map_of (rev (map (\<lambda>u. (UserTag tag (ui_Uuid u), ui_Id u)) us)) (UserTag tag k) = table ui_Id us k" for k
    unfolding table_def
  proof (induction us rule: rev_induct)
    case Nil
    then show ?case by simp
  next
    case (snoc u us)
    then show ?case by simp
  qed
  show ?thesis
    using assms by (auto simp: id_view_def register_ids_def gmap.lookup_fold_store map_add_def m fun_eq_iff split: option.splits)
qed

lemma id_view_drop:
  assumes "vc_users v \<noteq> None"
  shows "id_view tag (drop_users tag us v) = id_view tag v |` (- ui_Uuid ` set us)" "vc_users (drop_users tag us v) \<noteq> None"
proof -
  have "id_view tag (drop_users tag us v) = id_view tag v |` (- ui_Uuid ` set us) \<and> vc_users (drop_users tag us v) \<noteq> None"
    using assms
  proof (induction us arbitrary: v)
    case Nil
    then show ?case by (simp add: drop_users_def restrict_map_def fun_eq_iff)
  next
    case (Cons u us)
    let ?v = "drop_user tag (UserTag tag (ui_Uuid u)) v"
    have v: "vc_users ?v \<noteq> None" "id_view tag ?v = (id_view tag v)(ui_Uuid u := None)"
      using Cons.prems by (auto simp: drop_user_def id_view_def fun_eq_iff)
    have "drop_users tag (u # us) v = drop_users tag us ?v" by (simp add: drop_users_def)
    then show ?case using Cons.IH [OF v(1)] v(2) by (auto simp: restrict_map_def fun_eq_iff)
  qed
  then show "id_view tag (drop_users tag us v) = id_view tag v |` (- ui_Uuid ` set us)" "vc_users (drop_users tag us v) \<noteq> None"
    by auto
qed

lemma users_register_ids [simp]: "vc_users (register_ids tag us v) = None \<longleftrightarrow> vc_users v = None"
  by (simp add: register_ids_def)

interpretation core_ids: user_store "id_view tag" ui_Id "register_ids tag"
  "\<lambda>added deleted v. register_ids tag added (drop_users tag deleted v)" "\<lambda>v. vc_users v \<noteq> None" for tag
  by unfold_locales (simp_all add: id_view_register id_view_drop same_limits_def del: not_None_eq)

section \<open>The difference of two lists is right\<close>

lemma table_Nil [simp]: "table val [] = Map.empty"
  by (simp add: table_def)

lemma table_None_iff: "table val us k = None \<longleftrightarrow> k \<notin> ui_Uuid ` set us"
  by (simp add: table_def map_of_eq_None_iff) force

lemma table_distinct: "distinct (map ui_Uuid us) \<Longrightarrow> u \<in> set us \<Longrightarrow> table val us (ui_Uuid u) = Some (val u)"
  unfolding table_def by (rule map_of_is_SomeI) (auto simp: rev_map [symmetric] comp_def)

lemma index_users_load: "go_load (index_users us) k = table (\<lambda>u. u) us k"
  by (simp add: index_users_def table_def gmap.lookup_fold_store map_add_def split: option.splits)

lemma index_users_wf [simp]: "go_wf (index_users us)"
  unfolding index_users_def by (rule gmap.invar_fold_store) simp

lemma table_map: "table val us k = map_option val (table (\<lambda>u. u) us k)"
proof -
  have "rev (map (\<lambda>u. (ui_Uuid u, val u)) us) = map (\<lambda>(k, u). (k, val u)) (rev (map (\<lambda>u. (ui_Uuid u, u)) us))"
    by (simp add: rev_map)
  then show ?thesis by (simp add: table_def map_of_map)
qed

lemma table_uuid: "table (\<lambda>u. u) us k = Some u \<Longrightarrow> ui_Uuid u = k \<and> u \<in> set us"
  by (auto simp: table_def dest!: map_of_SomeD)

lemma compare_loop_spec:
  "distinct (map ui_Uuid us) \<Longrightarrow> compare_loop us m a u = (m', a', u') \<Longrightarrow>
   a' = a @ filter (\<lambda>x. go_load m (ui_Uuid x) = None) us \<and>
   u' = u @ filter (\<lambda>x. \<exists>o'. go_load m (ui_Uuid x) = Some o' \<and> \<not> same_limits o' x) us \<and>
   go_load m' = (go_load m) |` (- ui_Uuid ` set us) \<and> (go_wf m \<longrightarrow> go_wf m')"
proof (induction us arbitrary: m a u)
  case Nil
  then show ?case by (simp add: restrict_map_def fun_eq_iff)
next
  case (Cons x us)
  show ?case
  proof (cases "go_load m (ui_Uuid x)")
    case None
    then have "compare_loop us m (a @ [x]) u = (m', a', u')" using Cons.prems(2) by simp
    from Cons.IH [OF _ this] show ?thesis using Cons.prems(1) None by (auto simp: restrict_map_def fun_eq_iff)
  next
    case (Some o')
    then have r: "compare_loop us (go_delete (ui_Uuid x) m) a (if \<not> same_limits o' x then u @ [x] else u) = (m', a', u')"
      using Cons.prems(2) by simp
    have ne: "ui_Uuid y \<noteq> ui_Uuid x" if "y \<in> set us" for y using Cons.prems(1) that by (auto simp: image_iff)
    from Cons.IH [OF _ r] show ?thesis
      using Cons.prems(1) Some ne by (auto simp: restrict_map_def fun_eq_iff intro!: filter_cong)
  qed
qed

lemma range_set: "go_wf m \<Longrightarrow> u \<in> set (map snd (go_range m)) \<longleftrightarrow> (\<exists>k. go_load m k = Some u)"
  using in_range_iff [of m] by force

lemma compare_right:
  assumes "distinct (map ui_Uuid new)" and val: "\<And>a b. same_limits a b \<Longrightarrow> val a = val b"
  shows "right_diff val old new (compareUserList old new)"
proof -
  obtain m added updated where c: "compare_loop new (index_users old) [] [] = (m, added, updated)" by (metis prod.exhaust)
  note s = compare_loop_spec [OF assms(1) c]
  let ?T = "table (\<lambda>u. u)"
  have a: "added = filter (\<lambda>x. ?T old (ui_Uuid x) = None) new"
    and u: "updated = filter (\<lambda>x. \<exists>o'. ?T old (ui_Uuid x) = Some o' \<and> \<not> same_limits o' x) new"
    and m: "go_load m k = (if k \<in> ui_Uuid ` set new then None else ?T old k)" and wf: "go_wf m" for k
    using s by (auto simp: index_users_load restrict_map_def fun_eq_iff)
  have del: "k \<in> ui_Uuid ` set (map snd (go_range m)) \<longleftrightarrow> k \<notin> ui_Uuid ` set new \<and> ?T old k \<noteq> None" for k
  proof
    assume "k \<in> ui_Uuid ` set (map snd (go_range m))"
    then obtain u where "u \<in> set (map snd (go_range m))" and k: "k = ui_Uuid u" by blast
    then obtain k' where l: "go_load m k' = Some u" using range_set [OF wf] by blast
    then have "k' \<notin> ui_Uuid ` set new" "?T old k' = Some u" using m [of k'] by (auto split: if_splits)
    moreover have "k' = k" using table_uuid [of old k' u] \<open>?T old k' = Some u\<close> k by simp
    ultimately show "k \<notin> ui_Uuid ` set new \<and> ?T old k \<noteq> None" by simp
  next
    assume k: "k \<notin> ui_Uuid ` set new \<and> ?T old k \<noteq> None"
    then obtain u where u: "?T old k = Some u" by blast
    then have "go_load m k = Some u" using m [of k] k by simp
    then have "u \<in> set (map snd (go_range m))" using range_set [OF wf] by blast
    moreover have "ui_Uuid u = k" using table_uuid [OF u] by simp
    ultimately show "k \<in> ui_Uuid ` set (map snd (go_range m))" by blast
  qed
  have dis: "distinct (map ui_Uuid added)" "distinct (map ui_Uuid updated)"
    using assms(1) by (simp_all add: a u distinct_map_filter)
  have "(((table val old ++ table val updated) |` (- ui_Uuid ` set (map snd (go_range m)))) ++ table val added) k = table val new k" for k
  proof (cases "k \<in> ui_Uuid ` set new")
    case False
    then have "table val added k = None" "table val updated k = None" "table val new k = None"
      by (auto simp: table_None_iff a u)
    then show ?thesis using del [of k] False table_None_iff [of val old k] table_map [of val old k]
      by (auto simp: map_add_def restrict_map_def)
  next
    case True
    then obtain x where x: "x \<in> set new" "k = ui_Uuid x" by blast
    have nd: "k \<notin> ui_Uuid ` set (map snd (go_range m))" using del True by blast
    have new: "table val new k = Some (val x)" using table_distinct [OF assms(1) x(1), of val] x(2) by simp
    show ?thesis
    proof (cases "?T old k")
      case None
      then have "x \<in> set added" using x by (simp add: a)
      then show ?thesis using table_distinct [OF dis(1), of x val] x new by (simp add: map_add_def)
    next
      case (Some o')
      then have "k \<notin> ui_Uuid ` set added" using x(2) by (auto simp: a)
      then have na: "table val added k = None" by (simp add: table_None_iff)
      show ?thesis
      proof (cases "same_limits o' x")
        case True
        then have "x \<notin> set updated" using Some x by (simp add: u)
        then have "table val updated k = None"
          using x assms(1) by (auto simp: table_None_iff u distinct_map inj_on_def)
        then show ?thesis using na nd new Some val [OF True] table_map [of val old k] by (simp add: map_add_def)
      next
        case False
        then have "x \<in> set updated" using Some x by (simp add: u)
        then show ?thesis using table_distinct [OF dis(2), of x val] x new na nd by (simp add: map_add_def)
      qed
    qed
  qed
  then show ?thesis by (simp add: right_diff_def compareUserList_def c fun_eq_iff)
qed

section \<open>The delta of the panel is right\<close>

definition keyed :: "(string, UserInfo) go_map \<Rightarrow> bool" where
  "keyed m \<longleftrightarrow> go_wf m \<and> (\<forall>k u. go_load m k = Some u \<longrightarrow> ui_Uuid u = k)"

lemma keyed_index: "keyed (index_users us)"
  using table_uuid by (fastforce simp: keyed_def index_users_load)

lemma delta_delete_step:
  "delta_delete u (m, acc) =
     (case go_load m (ui_Uuid u) of
        Some oldUser \<Rightarrow> (go_delete (ui_Uuid u) m, acc @ [oldUser]) | None \<Rightarrow> (m, acc))"
  by (simp add: delta_delete_def)

lemma delta_upsert_step:
  "delta_upsert x (m, a, u) =
     (if go_load m (ui_Uuid x) = None then (go_store (ui_Uuid x) x m, a @ [x], u)
      else (go_store (ui_Uuid x) x m, a, u @ [x]))"
  by (simp add: delta_upsert_def)

lemma fold_delta_delete:
  "keyed m \<Longrightarrow> fold delta_delete ds (m, acc) = (m', acc') \<Longrightarrow>
   keyed m' \<and> go_load m' = go_load m |` (- ui_Uuid ` set ds) \<and>
   ui_Uuid ` set acc' = ui_Uuid ` set acc \<union> {k \<in> ui_Uuid ` set ds. go_load m k \<noteq> None}"
proof (induction ds arbitrary: m acc)
  case Nil
  then show ?case by (auto simp: restrict_map_def fun_eq_iff)
next
  case (Cons d ds)
  show ?case
  proof (cases "go_load m (ui_Uuid d)")
    case None
    then have "fold delta_delete ds (m, acc) = (m', acc')" using Cons.prems(2) by (simp add: delta_delete_step)
    from Cons.IH [OF Cons.prems(1) this] show ?thesis using None by (auto simp: restrict_map_def fun_eq_iff)
  next
    case (Some o')
    then have r: "fold delta_delete ds (go_delete (ui_Uuid d) m, acc @ [o']) = (m', acc')"
      using Cons.prems(2) by (simp add: delta_delete_step)
    have k: "keyed (go_delete (ui_Uuid d) m)" and o: "ui_Uuid o' = ui_Uuid d"
      using Cons.prems(1) Some by (auto simp: keyed_def)
    from Cons.IH [OF k r] show ?thesis using Some o by (auto simp: restrict_map_def fun_eq_iff)
  qed
qed

lemma fold_delta_upsert:
  "distinct (map ui_Uuid us) \<Longrightarrow> keyed m \<Longrightarrow> fold delta_upsert us (m, a, u) = (m', a', u') \<Longrightarrow>
   keyed m' \<and> go_load m' = go_load m ++ table (\<lambda>u. u) us \<and>
   a' = a @ filter (\<lambda>x. go_load m (ui_Uuid x) = None) us \<and> u' = u @ filter (\<lambda>x. go_load m (ui_Uuid x) \<noteq> None) us"
proof (induction us arbitrary: m a u)
  case Nil
  then show ?case by simp
next
  case (Cons x us)
  let ?m = "go_store (ui_Uuid x) x m"
  have k: "keyed ?m" using Cons.prems(2) by (auto simp: keyed_def)
  have ne: "ui_Uuid y \<noteq> ui_Uuid x" if "y \<in> set us" for y using Cons.prems(1) that by (auto simp: image_iff)
  have same: "filter (\<lambda>y. go_load ?m (ui_Uuid y) = None) us = filter (\<lambda>y. go_load m (ui_Uuid y) = None) us"
    "filter (\<lambda>y. go_load ?m (ui_Uuid y) \<noteq> None) us = filter (\<lambda>y. go_load m (ui_Uuid y) \<noteq> None) us"
    using ne by (auto intro!: filter_cong)
  have tab: "go_load ?m ++ table (\<lambda>u. u) us = go_load m ++ table (\<lambda>u. u) (x # us)"
    by (auto simp: table_def map_add_def fun_eq_iff split: option.splits)
  have d: "distinct (map ui_Uuid us)" using Cons.prems(1) by simp
  show ?case
  proof (cases "go_load m (ui_Uuid x) = None")
    case True
    then have "fold delta_upsert us (?m, a @ [x], u) = (m', a', u')" using Cons.prems(3) by (simp add: delta_upsert_step)
    from Cons.IH [OF d k this, unfolded tab same] show ?thesis using True by simp
  next
    case False
    then have "fold delta_upsert us (?m, a, u @ [x]) = (m', a', u')" using Cons.prems(3) by (auto simp: delta_upsert_step)
    from Cons.IH [OF d k this, unfolded tab same] show ?thesis using False by simp
  qed
qed

lemma table_of_map:
  assumes "keyed m" "set us = set (map snd (go_range m))"
  shows "table val us k = map_option val (go_load m k)"
proof (cases "go_load m k")
  case None
  have "k \<notin> ui_Uuid ` set us"
  proof
    assume "k \<in> ui_Uuid ` set us"
    then obtain u k' where "k = ui_Uuid u" "go_load m k' = Some u"
      using assms range_set [of m] by (auto simp: keyed_def simp del: set_map)
    then show False using assms(1) None by (auto simp: keyed_def)
  qed
  then show ?thesis using None by (simp add: table_None_iff)
next
  case (Some u)
  then have u: "u \<in> set us" "ui_Uuid u = k" using assms range_set [of m u] by (auto simp: keyed_def)
  have inj: "x = u" if "x \<in> set us" "ui_Uuid x = k" for x
    using that assms range_set [of m x] Some by (auto simp: keyed_def)
  obtain x where "table (\<lambda>u. u) us k = Some x"
    using u table_None_iff [of "\<lambda>u. u" us k] by (metis image_eqI option.exhaust)
  with table_uuid [OF this] inj have "table (\<lambda>u. u) us k = Some u" by auto
  then show ?thesis using Some table_map [of val us k] by simp
qed

lemma keyed_uuids_distinct:
  assumes "keyed m" shows "distinct (map ui_Uuid (map snd (go_range m)))"
proof -
  have "ui_Uuid (snd e) = fst e" if "e \<in> set m" for e
    using assms that in_range_iff [of m "fst e" "snd e"] by (simp add: keyed_def go_range_def)
  then have "map ui_Uuid (map snd (go_range m)) = map fst m"
    by (simp add: go_range_def)
  then show ?thesis using assms by (simp add: keyed_def go_wf_def)
qed

lemma filtered_table:
  assumes "distinct (map ui_Uuid us)"
  shows "table val (filter (\<lambda>x. P (ui_Uuid x)) us) k = (if P k then table val us k else None)"
proof (cases "k \<in> ui_Uuid ` set us")
  case False
  then have "k \<notin> ui_Uuid ` set (filter (\<lambda>x. P (ui_Uuid x)) us)" by auto
  then have "table val (filter (\<lambda>x. P (ui_Uuid x)) us) k = None" and "table val us k = None"
    using False by (auto simp: table_None_iff)
  then show ?thesis by simp
next
  case True
  then obtain x where x: "x \<in> set us" "k = ui_Uuid x" by blast
  show ?thesis
  proof (cases "P k")
    case True
    then have "x \<in> set (filter (\<lambda>x. P (ui_Uuid x)) us)" using x by simp
    moreover have "distinct (map ui_Uuid (filter (\<lambda>x. P (ui_Uuid x)) us))" using assms by (simp add: distinct_map_filter)
    ultimately show ?thesis
      using table_distinct [of "filter (\<lambda>x. P (ui_Uuid x)) us" x val] table_distinct [OF assms x(1), of val] x True by simp
  next
    case False
    then have "k \<notin> ui_Uuid ` set (filter (\<lambda>x. P (ui_Uuid x)) us)" by auto
    then have "table val (filter (\<lambda>x. P (ui_Uuid x)) us) k = None" by (auto simp: table_None_iff)
    then show ?thesis using False by simp
  qed
qed

lemma applyUserDelta_spec:
  assumes "distinct (map ui_Uuid upsert)" and "applyUserDelta old deleted upsert = (next_list, gone, added, updated)"
  shows "sorted (map ui_Uuid next_list)" and "distinct (map ui_Uuid next_list)"
    and "table val next_list = (table val old |` (- ui_Uuid ` set deleted)) ++ table val upsert"
    and "right_diff val old next_list (gone, added, updated)"
proof -
  obtain m1 where m1: "fold delta_delete deleted (index_users old, []) = (m1, gone)"
    and m2: "\<exists>m2. fold delta_upsert upsert (m1, [], []) = (m2, added, updated) \<and> next_list = sort_key ui_Uuid (map snd (go_range m2))"
    using assms(2) by (auto simp: applyUserDelta_def split: prod.splits)
  then obtain m2 where m2: "fold delta_upsert upsert (m1, [], []) = (m2, added, updated)"
    and nl: "next_list = sort_key ui_Uuid (map snd (go_range m2))" by blast
  note d = fold_delta_delete [OF keyed_index m1] and u = fold_delta_upsert [OF assms(1) _ m2]
  have k1: "keyed m1" and l1: "go_load m1 k = (if k \<in> ui_Uuid ` set deleted then None else table (\<lambda>u. u) old k)"
    and gone: "ui_Uuid ` set gone = {k \<in> ui_Uuid ` set deleted. table (\<lambda>u. u) old k \<noteq> None}" for k
    using d by (auto simp: index_users_load restrict_map_def)
  have k2: "keyed m2" and l2: "go_load m2 = go_load m1 ++ table (\<lambda>u. u) upsert"
    and a: "added = filter (\<lambda>x. go_load m1 (ui_Uuid x) = None) upsert"
    and up: "updated = filter (\<lambda>x. go_load m1 (ui_Uuid x) \<noteq> None) upsert"
    using u [OF k1] by auto
  show "sorted (map ui_Uuid next_list)" by (simp add: nl)
  have "mset (map ui_Uuid next_list) = mset (map ui_Uuid (map snd (go_range m2)))" by (simp only: nl mset_map mset_sort)
  then show "distinct (map ui_Uuid next_list)" using keyed_uuids_distinct [OF k2] by (metis mset_eq_imp_distinct_iff)
  have t: "table val next_list k = map_option val (go_load m2 k)" for k
    by (rule table_of_map [OF k2]) (simp add: nl)
  have tn: "table val next_list k = ((table val old |` (- ui_Uuid ` set deleted)) ++ table val upsert) k" for k
    using l1 [of k] table_map [of val old k] table_map [of val upsert k]
    by (simp add: t l2 map_add_def restrict_map_def split: option.splits)
  then show "table val next_list = (table val old |` (- ui_Uuid ` set deleted)) ++ table val upsert" by (simp add: fun_eq_iff)
  have split: "table val upsert k = (if go_load m1 k = None then table val added k else table val updated k)"
    "go_load m1 k = None \<Longrightarrow> table val updated k = None" "go_load m1 k \<noteq> None \<Longrightarrow> table val added k = None" for k
    using filtered_table [OF assms(1), of val "\<lambda>k. go_load m1 k = None" k]
      filtered_table [OF assms(1), of val "\<lambda>k. go_load m1 k \<noteq> None" k] by (auto simp: a up)
  have "(((table val old ++ table val updated) |` (- ui_Uuid ` set gone)) ++ table val added) k = table val next_list k" for k
    using split [of k] l1 [of k] gone table_map [of val old k]
    by (auto simp: tn map_add_def restrict_map_def split: option.splits if_splits)
  then show "right_diff val old next_list (gone, added, updated)" by (simp add: right_diff_def fun_eq_iff)
qed

section \<open>The controller\<close>

datatype delta_result = DeltaUnsupported | DeltaError go_error | DeltaBody "UserDeltaBody option"

text \<open>The answers of the panel during one sync.\<close>

record control_plane =
  cp_GetUserDelta :: "int \<Rightarrow> delta_result"
  cp_GetUserList :: "go_error + UserInfo list"
  cp_GetUserAlive :: "go_error + (int, int) go_map option"
  cp_CachedAliveMap :: "(int, int) go_map option"
  cp_CachedAliveSnapshot :: "AliveMap option"

text \<open>
  The controller of one node. Its limiter is the one registered under its tag; \<open>c_stateFile\<close> is the
  content of the file at \<open>userSyncStatePath\<close>, revision and users.
\<close>

record ('b, 'x) Controller =
  c_server :: "'x V2Core"
  c_tag :: string
  c_limiter :: "'b Limiter"
  c_userList :: "UserInfo list"
  c_userRevision :: int
  c_userDeltaSupported :: bool
  c_userSyncStatePath :: string
  c_stateFile :: "(int \<times> UserInfo list) option"
  c_aliveMap :: "(int, int) go_map option"
  c_aliveSnapshot :: "AliveMap option"
  c_info :: "NodeInfo option"

record userSyncSummary =
  sum_Deleted :: nat
  sum_Added :: nat
  sum_Updated :: nat

datatype sync_error = SyncPanel go_error | SyncCore core_error | SyncSidecar sidecar_error

text \<open>Everything a sync meets outside the controller.\<close>

record ('x, 't, 'u, 'h) sync_env =
  sy_xray :: "('x, 't, 'u, 'h) xray"
  sy_edge :: edge_env
  sy_panel :: control_plane
  sy_ctx_err :: "nat \<Rightarrow> go_error option"
  sy_ctx_done :: bool
  sy_save_ok :: bool
  sy_now :: clock

definition saveUserSyncState :: "bool \<Rightarrow> int \<Rightarrow> UserInfo list \<Rightarrow> ('b, 'x) Controller \<Rightarrow> ('b, 'x) Controller" where
  "saveUserSyncState ok revision users c = (if ok then c\<lparr>c_stateFile := Some (revision, users)\<rparr> else c)"

definition save_if_path :: "bool \<Rightarrow> ('b, 'x) Controller \<Rightarrow> ('b, 'x) Controller" where
  "save_if_path ok c =
     (if c_userSyncStatePath c \<noteq> [] then saveUserSyncState ok (c_userRevision c) (c_userList c) c else c)"

type_synonym user_diff = "UserInfo list \<times> UserInfo list \<times> UserInfo list"

text \<open>A full list replaces the list unless it is empty; a delta is applied unless it is empty.\<close>

definition take_full_list :: "UserInfo list \<Rightarrow> ('b, 'x) Controller \<Rightarrow> user_diff \<times> ('b, 'x) Controller" where
  "take_full_list newU c =
     (if newU = [] then (([], [], []), c)
      else (compareUserList (c_userList c) newU, c\<lparr>c_userList := newU\<rparr>))"

definition take_delta :: "UserDeltaBody \<Rightarrow> ('b, 'x) Controller \<Rightarrow> user_diff \<times> ('b, 'x) Controller" where
  "take_delta delta c =
     (if ud_Full delta then take_full_list (ud_Users delta) c
      else if ud_Deleted delta = [] \<and> ud_Upsert delta = [] then (([], [], []), c)
      else case applyUserDelta (c_userList c) (ud_Deleted delta) (ud_Upsert delta) of
             (next_list, deletedApplied, addedApplied, updatedApplied) \<Rightarrow>
               ((deletedApplied, addedApplied, updatedApplied), c\<lparr>c_userList := next_list\<rparr>))"

definition fetch_full_list :: "control_plane \<Rightarrow> ('b, 'x) Controller \<Rightarrow> (sync_error + user_diff) \<times> ('b, 'x) Controller" where
  "fetch_full_list cp c =
     (case cp_GetUserList cp of
        Inl err \<Rightarrow> (Inl (SyncPanel err), c)
      | Inr newU \<Rightarrow> (case take_full_list newU c of (d, c') \<Rightarrow> (Inr d, c')))"

definition fetch_users ::
  "('x, 't, 'u, 'h) sync_env \<Rightarrow> ('b, 'x) Controller \<Rightarrow> (sync_error + user_diff) \<times> ('b, 'x) Controller" where
  "fetch_users env c =
     (if c_userDeltaSupported c then
        (case cp_GetUserDelta (sy_panel env) (c_userRevision c) of
           DeltaUnsupported \<Rightarrow> fetch_full_list (sy_panel env) (c\<lparr>c_userDeltaSupported := False\<rparr>)
         | DeltaError err \<Rightarrow> (Inl (SyncPanel err), c)
         | DeltaBody None \<Rightarrow> (Inr ([], [], []), c)
         | DeltaBody (Some delta) \<Rightarrow>
             (case take_delta delta (c\<lparr>c_userRevision := ud_Revision delta\<rparr>) of
                (d, c') \<Rightarrow> (Inr d, save_if_path (sy_save_ok env) c')))
      else fetch_full_list (sy_panel env) c)"

definition refresh_alive :: "('x, 't, 'u, 'h) sync_env \<Rightarrow> ('b, 'x) Controller \<Rightarrow> ('b, 'x) Controller" where
  "refresh_alive env c =
     (case cp_GetUserAlive (sy_panel env) of
        Inl err \<Rightarrow> c
      | Inr None \<Rightarrow> c
      | Inr (Some newA) \<Rightarrow>
          c\<lparr>c_aliveMap := Some newA, c_aliveSnapshot := cp_CachedAliveSnapshot (sy_panel env),
            c_limiter := SetAliveSnapshot (sy_now env) (cp_CachedAliveSnapshot (sy_panel env)) (c_limiter c)\<rparr>)"

definition applyUpdatedUsers :: "UserInfo list \<Rightarrow> ('b, 'x) Controller \<Rightarrow> core_error option \<times> ('b, 'x) Controller" where
  "applyUpdatedUsers updated c =
     (let c1 = c\<lparr>c_limiter := UpdateUserInfo (c_tag c) updated (c_limiter c)\<rparr>
      in case UpdateUserIDs (c_tag c) updated (c_server c1) of
           (err, v) \<Rightarrow> (err, c1\<lparr>c_server := v\<rparr>))"

definition applyDeletedUsers ::
  "('x, 't, 'u, 'h) sync_env \<Rightarrow> UserInfo list \<Rightarrow> ('b, 'x) Controller \<Rightarrow> core_error option \<times> ('b, 'x) Controller" where
  "applyDeletedUsers env deleted c =
     (if (case c_info c of None \<Rightarrow> False | Some i \<Rightarrow> IsExternalSidecarNodeType (ni_Type i)) then (None, c)
      else case DelUsers (sy_xray env) (sy_ctx_err env) deleted (c_tag c) (c_server c) of
             (err, v) \<Rightarrow> (err, c\<lparr>c_server := v\<rparr>))"

definition applyAddedUsers ::
  "('x, 't, 'u, 'h) sync_env \<Rightarrow> UserInfo list \<Rightarrow> ('b, 'x) Controller \<Rightarrow> core_error option \<times> ('b, 'x) Controller" where
  "applyAddedUsers env added c =
     (case AddUsersWithContext (sy_xray env) (sy_ctx_err env) (c_tag c) (c_info c) added (c_server c) of
        ((n, err), v) \<Rightarrow> (err, c\<lparr>c_server := v\<rparr>))"

text \<open>Run a step only for a non-empty list, as the guards \<open>len(...) > 0\<close> do.\<close>

definition guarded :: "bool \<Rightarrow> ('s \<Rightarrow> 'e option \<times> 's) \<Rightarrow> 's \<Rightarrow> 'e option \<times> 's" where
  "guarded b f s = (if b then f s else (None, s))"

definition apply_user_diff ::
  "('x, 't, 'u, 'h) sync_env \<Rightarrow> user_diff \<Rightarrow> ('b, 'x) Controller \<Rightarrow>
   (userSyncSummary \<times> sync_error option) \<times> ('b, 'x) Controller" where
  "apply_user_diff env d c =
     (case d of (deleted, added, updated) \<Rightarrow>
        let zero = \<lparr>sum_Deleted = 0, sum_Added = 0, sum_Updated = 0\<rparr>
        in case guarded (updated \<noteq> []) (applyUpdatedUsers updated) c of
             (Some err, c1) \<Rightarrow> ((zero, Some (SyncCore err)), c1)
           | (None, c1) \<Rightarrow>
               (case guarded (deleted \<noteq> []) (applyDeletedUsers env deleted) c1 of
                  (Some err, c2) \<Rightarrow> ((zero, if sy_ctx_done env then None else Some (SyncCore err)), c2)
                | (None, c2) \<Rightarrow>
                    (case guarded (added \<noteq> []) (applyAddedUsers env added) c2 of
                       (Some err, c3) \<Rightarrow> ((zero, if sy_ctx_done env then None else Some (SyncCore err)), c3)
                     | (None, c3) \<Rightarrow>
                         let c4 = (if added \<noteq> [] \<or> deleted \<noteq> []
                                   then c3\<lparr>c_limiter := UpdateUser (c_tag c3) added deleted (c_limiter c3)\<rparr> else c3);
                             edge = (if added \<noteq> [] \<or> deleted \<noteq> [] \<or> updated \<noteq> []
                                     then applyEdgeSidecar (sy_edge env) (c_info c4) (c_tag c4) (c_userList c4) else None)
                         in (case edge of
                               Some err \<Rightarrow> ((zero, Some (SyncSidecar err)), c4)
                             | None \<Rightarrow>
                                 ((\<lparr>sum_Deleted = length deleted, sum_Added = length added, sum_Updated = length updated\<rparr>, None), c4)))))"

definition executeNodeUserSync ::
  "('x, 't, 'u, 'h) sync_env \<Rightarrow> ('b, 'x) Controller \<Rightarrow> (userSyncSummary \<times> sync_error option) \<times> ('b, 'x) Controller" where
  "executeNodeUserSync env c =
     (case fetch_users env c of
        (Inl err, c1) \<Rightarrow> ((\<lparr>sum_Deleted = 0, sum_Added = 0, sum_Updated = 0\<rparr>, Some err), c1)
      | (Inr d, c1) \<Rightarrow> apply_user_diff env d (refresh_alive env c1))"

text \<open>\<open>nodeUserMonitor\<close> only logs, and never fails, so the periodic task goes on.\<close>

definition nodeUserMonitor :: "('x, 't, 'u, 'h) sync_env \<Rightarrow> ('b, 'x) Controller \<Rightarrow> sync_error option \<times> ('b, 'x) Controller" where
  "nodeUserMonitor env c = (case executeNodeUserSync env c of (res, c') \<Rightarrow> (None, c'))"

section \<open>The first user list\<close>

definition loadAndSyncUsers ::
  "('x, 't, 'u, 'h) sync_env \<Rightarrow> ('b, 'x) Controller \<Rightarrow> (go_error + UserInfo list) \<times> ('b, 'x) Controller" where
  "loadAndSyncUsers env c =
     (let save = saveUserSyncState (sy_save_ok env);
          full = (\<lambda>c. (cp_GetUserList (sy_panel env), c));
          from_panel = (\<lambda>c :: ('b, 'x) Controller.
             if \<not> c_userDeltaSupported c then full c
             else case cp_GetUserDelta (sy_panel env) 0 of
                    DeltaUnsupported \<Rightarrow> full (c\<lparr>c_userDeltaSupported := False\<rparr>)
                  | DeltaError err \<Rightarrow> (Inl err, c)
                  | DeltaBody None \<Rightarrow> full c
                  | DeltaBody (Some delta) \<Rightarrow>
                      let users = (if ud_Full delta then ud_Users delta else ud_Upsert delta);
                          c1 = c\<lparr>c_userRevision := ud_Revision delta\<rparr>
                      in (Inr users, if c_userSyncStatePath c1 \<noteq> [] then save (ud_Revision delta) users c1 else c1))
      in if c_userDeltaSupported c \<and> c_userSyncStatePath c \<noteq> [] then
           (case c_stateFile c of
              None \<Rightarrow> from_panel c
            | Some (revision, users) \<Rightarrow>
                if users \<noteq> [] \<and> revision > 0 then
                  (case cp_GetUserDelta (sy_panel env) revision of
                     DeltaBody (Some delta) \<Rightarrow>
                       let next_list = (if ud_Full delta then ud_Users delta
                                        else fst (applyUserDelta users (ud_Deleted delta) (ud_Upsert delta)))
                       in (Inr next_list, save (ud_Revision delta) next_list (c\<lparr>c_userRevision := ud_Revision delta\<rparr>))
                   | DeltaUnsupported \<Rightarrow> from_panel (c\<lparr>c_userDeltaSupported := False\<rparr>)
                   | _ \<Rightarrow> from_panel c)
                else from_panel c)
         else from_panel c)"

section \<open>A fetched difference is right\<close>

definition panel_ok :: "control_plane \<Rightarrow> bool" where
  "panel_ok cp \<longleftrightarrow>
     (\<forall>since d. cp_GetUserDelta cp since = DeltaBody (Some d) \<longrightarrow>
        distinct (map ui_Uuid (ud_Users d)) \<and> distinct (map ui_Uuid (ud_Upsert d))) \<and>
     (\<forall>us. cp_GetUserList cp = Inr us \<longrightarrow> distinct (map ui_Uuid us))"

definition uuids :: "UserInfo list \<Rightarrow> string set" where
  "uuids us = ui_Uuid ` set us"

lemma right_diff_refl: "right_diff val us us ([], [], [])"
  by (auto simp: right_diff_def restrict_map_def)

lemma table_Some_uuids: "table val us k \<noteq> None \<Longrightarrow> k \<in> uuids us"
  by (simp add: table_None_iff uuids_def)

lemma compare_updated_old:
  assumes "distinct (map ui_Uuid new)" and "compareUserList old new = (deleted, added, updated)"
  shows "uuids updated \<subseteq> uuids old"
proof
  fix k assume "k \<in> uuids updated"
  then obtain x where x: "x \<in> set updated" "k = ui_Uuid x" by (auto simp: uuids_def)
  obtain m where c: "compare_loop new (index_users old) [] [] = (m, added, updated)"
    using assms(2) by (auto simp: compareUserList_def split: prod.splits)
  have "table (\<lambda>u. u) old k \<noteq> None"
    using compare_loop_spec [OF assms(1) c] x by (auto simp: index_users_load)
  then show "k \<in> uuids old" by (rule table_Some_uuids)
qed

lemma delta_updated_old:
  assumes "distinct (map ui_Uuid upsert)" and "applyUserDelta old deleted upsert = (next_list, gone, added, updated)"
  shows "uuids updated \<subseteq> uuids old"
proof
  fix k assume "k \<in> uuids updated"
  then obtain x where x: "x \<in> set updated" "k = ui_Uuid x" by (auto simp: uuids_def)
  obtain m1 m2 where m1: "fold delta_delete deleted (index_users old, []) = (m1, gone)"
    and m2: "fold delta_upsert upsert (m1, [], []) = (m2, added, updated)"
    using assms(2) by (auto simp: applyUserDelta_def split: prod.splits)
  note d = fold_delta_delete [OF keyed_index m1]
  have "updated = filter (\<lambda>x. go_load m1 (ui_Uuid x) \<noteq> None) upsert"
    using fold_delta_upsert [OF assms(1) _ m2] d by simp
  then have "go_load m1 k \<noteq> None" using x by simp
  then have "table (\<lambda>u. u) old k \<noteq> None" using d by (auto simp: index_users_load restrict_map_def split: if_splits)
  then show "k \<in> uuids old" by (rule table_Some_uuids)
qed

definition fetched :: "(sync_error + user_diff) \<times> ('b, 'x) Controller \<Rightarrow> ('b, 'x) Controller \<Rightarrow> bool" where
  "fetched r c \<longleftrightarrow>
     (case r of (res, c') \<Rightarrow>
        c_limiter c' = c_limiter c \<and> c_server c' = c_server c \<and> c_tag c' = c_tag c \<and> c_info c' = c_info c \<and>
        (case res of
           Inl e \<Rightarrow> True
         | Inr (deleted, added, updated) \<Rightarrow>
             right_diff (\<lambda>u. (ui_Id u, ui_SpeedLimit u, ui_DeviceLimit u)) (c_userList c) (c_userList c') (deleted, added, updated) \<and>
             right_diff ui_Id (c_userList c) (c_userList c') (deleted, added, updated) \<and>
             uuids updated \<subseteq> uuids (c_userList c)))"

lemma same_limits_vals:
  "same_limits a b \<Longrightarrow> (ui_Id a, ui_SpeedLimit a, ui_DeviceLimit a) = (ui_Id b, ui_SpeedLimit b, ui_DeviceLimit b)"
  "same_limits a b \<Longrightarrow> ui_Id a = ui_Id b"
  by (simp_all add: same_limits_def)

lemma take_full_fetched:
  assumes "distinct (map ui_Uuid us)" and "take_full_list us c = (d, c')"
  shows "fetched (Inr d, c') c"
proof (cases "us = []")
  case True
  then show ?thesis using assms(2) by (auto simp: take_full_list_def fetched_def right_diff_refl uuids_def)
next
  case False
  obtain deleted added updated where d: "compareUserList (c_userList c) us = (deleted, added, updated)" by (metis prod.exhaust)
  have "d = (deleted, added, updated)" "c' = c\<lparr>c_userList := us\<rparr>"
    using assms(2) False by (auto simp: take_full_list_def d)
  then show ?thesis
    using compare_right [OF assms(1), of "\<lambda>u. (ui_Id u, ui_SpeedLimit u, ui_DeviceLimit u)" "c_userList c"]
      compare_right [OF assms(1), of ui_Id "c_userList c"] compare_updated_old [OF assms(1) d] same_limits_vals
    by (simp add: fetched_def d)
qed

lemma take_delta_fetched:
  assumes "distinct (map ui_Uuid (ud_Users delta))" "distinct (map ui_Uuid (ud_Upsert delta))"
    and "take_delta delta c = (d, c')"
  shows "fetched (Inr d, c') c"
proof (cases "ud_Full delta \<or> ud_Deleted delta = [] \<and> ud_Upsert delta = []")
  case True
  then show ?thesis
    using assms take_full_fetched [of "ud_Users delta" c]
    by (auto simp: take_delta_def fetched_def right_diff_refl uuids_def split: if_splits)
next
  case False
  obtain n gone added updated
    where a: "applyUserDelta (c_userList c) (ud_Deleted delta) (ud_Upsert delta) = (n, gone, added, updated)"
    by (metis prod.exhaust)
  have "d = (gone, added, updated)" "c' = c\<lparr>c_userList := n\<rparr>" using assms(3) False a by (auto simp: take_delta_def)
  then show ?thesis
    using applyUserDelta_spec(4) [OF assms(2) a, of "\<lambda>u. (ui_Id u, ui_SpeedLimit u, ui_DeviceLimit u)"]
      applyUserDelta_spec(4) [OF assms(2) a, of ui_Id] delta_updated_old [OF assms(2) a]
    by (simp add: fetched_def)
qed

lemma save_if_path_frame [simp]:
  "c_limiter (save_if_path ok c) = c_limiter c" "c_server (save_if_path ok c) = c_server c"
  "c_tag (save_if_path ok c) = c_tag c" "c_info (save_if_path ok c) = c_info c"
  "c_userList (save_if_path ok c) = c_userList c"
  by (simp_all add: save_if_path_def saveUserSyncState_def)

lemma fetch_full_fetched: "panel_ok cp \<Longrightarrow> fetched (fetch_full_list cp c) c"
proof -
  assume ok: "panel_ok cp"
  show ?thesis
  proof (cases "cp_GetUserList cp")
    case (Inl e)
    then show ?thesis by (simp add: fetch_full_list_def fetched_def)
  next
    case (Inr us)
    obtain d c' where t: "take_full_list us c = (d, c')" by (cases "take_full_list us c")
    have "distinct (map ui_Uuid us)" using ok Inr by (simp add: panel_ok_def)
    from take_full_fetched [OF this t] show ?thesis by (simp add: fetch_full_list_def Inr t)
  qed
qed

lemma fetched_update:
  "fetched r (c\<lparr>c_userDeltaSupported := b\<rparr>) = fetched r c" "fetched r (c\<lparr>c_userRevision := n\<rparr>) = fetched r c"
  "fetched (res, save_if_path ok c') c = fetched (res, c') c"
  by (auto simp: fetched_def split: prod.splits sum.splits)

lemma fetch_users_fetched:
  assumes "panel_ok (sy_panel env)" shows "fetched (fetch_users env c) c"
proof (cases "c_userDeltaSupported c")
  case False
  then show ?thesis using fetch_full_fetched [OF assms] by (simp add: fetch_users_def)
next
  case True
  show ?thesis
  proof (cases "cp_GetUserDelta (sy_panel env) (c_userRevision c)")
    case DeltaUnsupported
    then show ?thesis
      using fetch_full_fetched [OF assms, of "c\<lparr>c_userDeltaSupported := False\<rparr>"] True by (simp add: fetch_users_def fetched_update)
  next
    case (DeltaError e)
    then show ?thesis using True by (simp add: fetch_users_def fetched_def)
  next
    case (DeltaBody b)
    show ?thesis
    proof (cases b)
      case None
      then show ?thesis using DeltaBody True by (simp add: fetch_users_def fetched_def right_diff_refl uuids_def)
    next
      case (Some delta)
      obtain d c' where t: "take_delta delta (c\<lparr>c_userRevision := ud_Revision delta\<rparr>) = (d, c')" by (metis prod.exhaust)
      have "distinct (map ui_Uuid (ud_Users delta))" "distinct (map ui_Uuid (ud_Upsert delta))"
        using assms DeltaBody Some by (auto simp: panel_ok_def)
      from take_delta_fetched [OF this t] show ?thesis
        using DeltaBody Some True t by (simp add: fetch_users_def fetched_update)
    qed
  qed
qed

section \<open>A successful sync keeps limiter and core in step\<close>

definition sidecar :: "('b, 'x) Controller \<Rightarrow> bool" where
  "sidecar c \<longleftrightarrow> (case c_info c of None \<Rightarrow> False | Some i \<Rightarrow> IsExternalSidecarNodeType (ni_Type i))"

text \<open>
  In step: the limiter knows exactly the users of the list with their limits, and the core has their
  ids. For sidecar nodes the core keeps the ids of deleted users, so nothing is asked of it.
\<close>

definition in_step :: "('b, 'x) Controller \<Rightarrow> bool" where
  "in_step c \<longleftrightarrow>
     lm_Tag (c_limiter c) = c_tag c \<and> user_view (c_limiter c) = users_of (c_userList c) \<and>
     vc_users (c_server c) \<noteq> None \<and>
     (\<not> sidecar c \<longrightarrow> id_view (c_tag c) (c_server c) = table ui_Id (c_userList c))"

lemma snapshot_frame [simp]:
  "lm_Tag (SetAliveSnapshot now snap l) = lm_Tag l" "user_view (SetAliveSnapshot now snap l) = user_view l"
  by (simp_all add: SetAliveSnapshot_def SetAliveList_def Let_def user_view_def fun_eq_iff split: option.splits)

lemma refresh_alive_frame [simp]:
  "c_server (refresh_alive env c) = c_server c" "c_tag (refresh_alive env c) = c_tag c" "c_info (refresh_alive env c) = c_info c"
  "c_userList (refresh_alive env c) = c_userList c" "lm_Tag (c_limiter (refresh_alive env c)) = lm_Tag (c_limiter c)"
  "user_view (c_limiter (refresh_alive env c)) = user_view (c_limiter c)"
  by (simp_all add: refresh_alive_def split: sum.splits option.splits)

lemma del_loop_users:
  "del_users_loop xr ctx tag i us x v = (None, v') \<Longrightarrow> vc_users v' = vc_users (drop_users tag us v)"
proof (induction us arbitrary: i x v)
  case Nil
  then show ?case by (auto simp: drop_users_def)
next
  case (Cons u us)
  let ?w = "UserTag tag (ui_Uuid u)"
  obtain x' where "del_users_loop xr ctx tag (Suc i) us x' (drop_user tag ?w v) = (None, v')"
    using Cons.prems by (auto simp: Let_def split: option.splits prod.splits if_splits)
  from Cons.IH [OF this] show ?case by (simp add: drop_users_def)
qed

lemma DelUsers_users: "DelUsers xr ctx us tag v = (None, v') \<Longrightarrow> vc_users v' = vc_users (drop_users tag us v)"
  by (auto simp: DelUsers_def dest: del_loop_users split: option.splits sum.splits prod.splits)

lemma AddUsers_users:
  "AddUsersWithContext xr ctx tag info us v = ((n, None), v') \<Longrightarrow> vc_users v' = vc_users (register_ids tag us v)"
  by (auto simp: AddUsersWithContext_def Let_def split: if_splits sum.splits option.splits prod.splits)

lemma id_view_users: "vc_users v = vc_users w \<Longrightarrow> id_view tag v = id_view tag w"
  by (simp add: id_view_def fun_eq_iff)

lemma applyUpdated_step:
  assumes "guarded (updated \<noteq> []) (applyUpdatedUsers updated) c = (None, c')" and "vc_users (c_server c) \<noteq> None"
  shows "c_tag c' = c_tag c \<and> c_info c' = c_info c \<and> c_userList c' = c_userList c \<and>
         (lm_Tag (c_limiter c) = c_tag c \<longrightarrow>
            lm_Tag (c_limiter c') = c_tag c \<and> user_view (c_limiter c') = user_view (c_limiter c) ++ users_of updated) \<and>
         vc_users (c_server c') \<noteq> None \<and> id_view (c_tag c) (c_server c') = id_view (c_tag c) (c_server c) ++ table ui_Id updated"
proof (cases "updated = []")
  case True
  then show ?thesis using assms by (auto simp: guarded_def)
next
  case False
  then have c': "c' = c\<lparr>c_limiter := UpdateUserInfo (c_tag c) updated (c_limiter c), c_server := register_ids (c_tag c) updated (c_server c)\<rparr>"
    using assms by (auto simp: guarded_def applyUpdatedUsers_def UpdateUserIDs_def Let_def)
  show ?thesis
    using assms(2) user_view_UpdateUserInfo [of "c_limiter c" updated] id_view_register [of "c_server c" "c_tag c" updated]
    by (auto simp: c' UpdateUserInfo_def simp del: not_None_eq)
qed

lemma applyDeleted_step:
  assumes "guarded (deleted \<noteq> []) (applyDeletedUsers env deleted) c = (None, c')" and "vc_users (c_server c) \<noteq> None"
  shows "c_tag c' = c_tag c \<and> c_info c' = c_info c \<and> c_userList c' = c_userList c \<and> c_limiter c' = c_limiter c \<and>
         vc_users (c_server c') \<noteq> None \<and>
         (\<not> sidecar c \<longrightarrow> id_view (c_tag c) (c_server c') = id_view (c_tag c) (c_server c) |` (- ui_Uuid ` set deleted))"
proof (cases "deleted = [] \<or> sidecar c")
  case True
  then show ?thesis
    using assms by (auto simp: guarded_def applyDeletedUsers_def sidecar_def restrict_map_def fun_eq_iff split: if_splits)
next
  case False
  then obtain v' where d: "DelUsers (sy_xray env) (sy_ctx_err env) deleted (c_tag c) (c_server c) = (None, v')"
    and c': "c' = c\<lparr>c_server := v'\<rparr>"
    using assms(1) by (auto simp: guarded_def applyDeletedUsers_def sidecar_def split: prod.splits)
  show ?thesis
    using DelUsers_users [OF d] id_view_drop [OF assms(2), of "c_tag c" deleted] id_view_users [OF DelUsers_users [OF d]]
    by (simp add: c')
qed

lemma applyAdded_step:
  assumes "guarded (added \<noteq> []) (applyAddedUsers env added) c = (None, c')" and "vc_users (c_server c) \<noteq> None"
  shows "c_tag c' = c_tag c \<and> c_info c' = c_info c \<and> c_userList c' = c_userList c \<and> c_limiter c' = c_limiter c \<and>
         vc_users (c_server c') \<noteq> None \<and> id_view (c_tag c) (c_server c') = id_view (c_tag c) (c_server c) ++ table ui_Id added"
proof (cases "added = []")
  case True
  then show ?thesis using assms by (auto simp: guarded_def)
next
  case False
  then obtain n v' where a: "AddUsersWithContext (sy_xray env) (sy_ctx_err env) (c_tag c) (c_info c) added (c_server c) = ((n, None), v')"
    and c': "c' = c\<lparr>c_server := v'\<rparr>"
    using assms(1) by (auto simp: guarded_def applyAddedUsers_def split: prod.splits)
  show ?thesis
    using AddUsers_users [OF a] id_view_register [OF assms(2), of "c_tag c" added] id_view_users [OF AddUsers_users [OF a]] assms(2)
    by (simp add: c' del: not_None_eq)
qed

lemma lm_Tag_UpdateUser: "lm_Tag (UpdateUser tag added deleted l) = lm_Tag l"
proof -
  have f: "lm_Tag (fold (forget_user tag) us l) = lm_Tag l" for us and l :: "'a Limiter"
    by (induction us arbitrary: l) (simp_all add: forget_user_def)
  have r: "lm_Tag (fold (register_user tag) us l) = lm_Tag l" for us and l :: "'a Limiter"
    by (induction us arbitrary: l) (simp_all add: register_user_def)
  show ?thesis by (simp add: UpdateUser_def f r deleteAliveIDs_def split: option.splits)
qed

lemma in_step_after:
  assumes i: "in_step c" and d: "fetched (Inr (deleted, added, updated), c0) c"
    and run: "apply_user_diff env (deleted, added, updated) (refresh_alive env c0) = ((s, None), c')"
    and live: "\<not> sy_ctx_done env"
  shows "in_step c'"
proof -
  let ?c = "refresh_alive env c0"
  have f: "c_server ?c = c_server c" "c_tag ?c = c_tag c" "c_info ?c = c_info c" "c_userList ?c = c_userList c0"
    "lm_Tag (c_limiter ?c) = c_tag c" "user_view (c_limiter ?c) = users_of (c_userList c)" "vc_users (c_server ?c) \<noteq> None"
    using i d by (auto simp: in_step_def fetched_def)
  obtain c1 c2 c3 where s1: "guarded (updated \<noteq> []) (applyUpdatedUsers updated) ?c = (None, c1)"
    and s2: "guarded (deleted \<noteq> []) (applyDeletedUsers env deleted) c1 = (None, c2)"
    and s3: "guarded (added \<noteq> []) (applyAddedUsers env added) c2 = (None, c3)"
    and c': "c' = (if added \<noteq> [] \<or> deleted \<noteq> [] then c3\<lparr>c_limiter := UpdateUser (c_tag c3) added deleted (c_limiter c3)\<rparr> else c3)"
    using run live by (auto simp: apply_user_diff_def Let_def split: prod.splits option.splits)
  note u = applyUpdated_step [OF s1 f(7)]
  have v1: "vc_users (c_server c1) \<noteq> None" using u by simp
  note de = applyDeleted_step [OF s2 v1]
  have v2: "vc_users (c_server c2) \<noteq> None" using de by simp
  note a = applyAdded_step [OF s3 v2]
  have rd: "users_of (c_userList c') = ((users_of (c_userList c) ++ users_of updated) |` (- ui_Uuid ` set deleted)) ++ users_of added"
    "table ui_Id (c_userList c') = ((table ui_Id (c_userList c) ++ table ui_Id updated) |` (- ui_Uuid ` set deleted)) ++ table ui_Id added"
    using d u de a f(4) by (auto simp: fetched_def right_diff_def user_view_table c')
  have tag: "lm_Tag (c_limiter c3) = c_tag c3" "c_tag c3 = c_tag c" using u de a f by auto
  have base: "user_view (c_limiter c3) = users_of (c_userList c) ++ users_of updated" using u de a f by auto
  have view: "user_view (c_limiter c') = users_of (c_userList c')"
  proof (cases "added \<noteq> [] \<or> deleted \<noteq> []")
    case True
    then have l: "c_limiter c' = UpdateUser (lm_Tag (c_limiter c3)) added deleted (c_limiter c3)" using tag by (simp add: c')
    show ?thesis unfolding l user_view_UpdateUser base rd ..
  next
    case False
    then have "c_limiter c' = c_limiter c3" "added = []" "deleted = []" by (auto simp: c')
    then show ?thesis using base rd by (simp add: restrict_map_def)
  qed
  have tag': "lm_Tag (c_limiter c') = c_tag c'" using tag by (simp add: c' lm_Tag_UpdateUser)
  have "\<not> sidecar c' \<Longrightarrow> id_view (c_tag c') (c_server c') = table ui_Id (c_userList c')"
    using i u de a f rd by (auto simp: c' in_step_def sidecar_def)
  then show ?thesis using view tag' a by (auto simp: in_step_def c')
qed

lemma sync_in_step:
  assumes "in_step c" "panel_ok (sy_panel env)" "\<not> sy_ctx_done env" "executeNodeUserSync env c = ((s, None), c')"
  shows "in_step c'"
proof -
  obtain r c0 where f: "fetch_users env c = (r, c0)" by (metis prod.exhaust)
  have fe: "fetched (r, c0) c" using fetch_users_fetched [OF assms(2), of c] f by simp
  obtain deleted added updated where r: "r = Inr (deleted, added, updated)"
    using assms(4) f by (cases r) (auto simp: executeNodeUserSync_def)
  have "apply_user_diff env (deleted, added, updated) (refresh_alive env c0) = ((s, None), c')"
    using assms(4) f r by (simp add: executeNodeUserSync_def)
  then show ?thesis using in_step_after [OF assms(1) fe [unfolded r] _ assms(3)] by simp
qed

text \<open>A panel that reports no change leaves limiter, core and list as they are.\<close>

definition quiet :: "control_plane \<Rightarrow> bool" where
  "quiet cp \<longleftrightarrow> (\<forall>since. cp_GetUserDelta cp since = DeltaBody None)"

lemma quiet_sync:
  assumes "quiet (sy_panel env)" "c_userDeltaSupported c"
  shows "snd (executeNodeUserSync env c) = refresh_alive env c"
  using assms by (simp add: quiet_def executeNodeUserSync_def fetch_users_def apply_user_diff_def guarded_def Let_def)

lemma take_full_delta_flag [simp]: "c_userDeltaSupported (snd (take_full_list us c)) = c_userDeltaSupported c"
  by (simp add: take_full_list_def)

lemma take_delta_flag [simp]: "c_userDeltaSupported (snd (take_delta d c)) = c_userDeltaSupported c"
  by (simp add: take_delta_def split: prod.splits)

section \<open>A controller with one user\<close>

definition demo_panel :: "delta_result \<Rightarrow> control_plane" where
  "demo_panel r =
     \<lparr>cp_GetUserDelta = (\<lambda>_. r), cp_GetUserList = Inr [], cp_GetUserAlive = Inr None, cp_CachedAliveMap = None,
      cp_CachedAliveSnapshot = None\<rparr>"

definition demo_new_user :: UserInfo where
  "demo_new_user = \<lparr>ui_Id = 9, ui_Uuid = ''w'', ui_SpeedLimit = 0, ui_DeviceLimit = 2\<rparr>"

definition demo_delta :: UserDeltaBody where
  "demo_delta = \<lparr>ud_Full = False, ud_Revision = 5, ud_Users = [], ud_Deleted = [demo_user], ud_Upsert = [demo_new_user]\<rparr>"

definition demo_env :: "(nat, string, protocol_user, nat) xray \<Rightarrow> delta_result \<Rightarrow> (nat, string, protocol_user, nat) sync_env" where
  "demo_env xr r =
     \<lparr>sy_xray = xr, sy_edge = \<lparr>ee_sha1_hex6 = (\<lambda>s. s), ee_json_Marshal = (\<lambda>_. []), ee_bridge = None\<rparr>,
      sy_panel = demo_panel r, sy_ctx_err = (\<lambda>_. None), sy_ctx_done = False, sy_save_ok = True, sy_now = 0\<rparr>"

definition demo_controller :: "(int, nat) Controller" where
  "demo_controller =
     \<lparr>c_server = demo_core, c_tag = ''T'', c_limiter = demo_limiter, c_userList = [demo_user], c_userRevision = 4,
      c_userDeltaSupported = True, c_userSyncStatePath = [], c_stateFile = None, c_aliveMap = None, c_aliveSnapshot = None,
      c_info = Some demo_node\<rparr>"

text \<open>A server whose inbound refuses new users.\<close>

definition refusing_xray :: "(nat, string, protocol_user, nat) xray" where
  "refusing_xray = demo_xray\<lparr>xr_AddUser := (\<lambda>_ _ x. (Some (ErrText ''no''), x))\<rparr>"

lemma demo_panel_ok: "panel_ok (sy_panel (demo_env xr (DeltaBody (Some demo_delta))))"
  by (simp add: panel_ok_def demo_env_def demo_panel_def demo_delta_def)

lemma demo_in_step: "in_step demo_controller"
proof -
  have k: "UserTag ''T'' k = ''T|u'' \<longleftrightarrow> k = ''u''" for k by (simp add: UserTag_def)
  have "user_view demo_limiter = users_of [demo_user]" by (simp add: demo_limiter_def user_view_new_limiter)
  moreover have "lm_Tag demo_limiter = ''T''" by code_simp
  moreover have "id_view ''T'' demo_core = table ui_Id [demo_user]"
    by (auto simp: fun_eq_iff id_view_def demo_core_def table_def demo_user_def k)
  moreover have "vc_users demo_core \<noteq> None" by (simp add: demo_core_def)
  ultimately show ?thesis by (simp add: in_step_def demo_controller_def)
qed

section \<open>Properties\<close>

text \<open>
  Applying a delta gives the right list: the next user list is sorted by uuid and has each uuid
  once, it holds exactly the old users that were not deleted overridden by the upserted ones, and the
  three lists handed to limiter and core, applied in the order of the sync, lead from the old table
  of users to the new one.
\<close>

theorem applyUserDelta_correct:
  assumes "distinct (map ui_Uuid upsert)"
    and "applyUserDelta old deleted upsert = (next_list, gone, added, updated)"
  shows "sorted (map ui_Uuid next_list) \<and> distinct (map ui_Uuid next_list) \<and>
         (\<forall>k. table (\<lambda>u. u) next_list k =
            (case table (\<lambda>u. u) upsert k of
               Some u \<Rightarrow> Some u
             | None \<Rightarrow> if k \<in> ui_Uuid ` set deleted then None else table (\<lambda>u. u) old k)) \<and>
         right_diff (\<lambda>u. u) old next_list (gone, added, updated) \<and> uuids updated \<subseteq> uuids old"
  using applyUserDelta_spec(1,2) [OF assms] applyUserDelta_spec(3,4) [OF assms, of "\<lambda>u. u"] delta_updated_old [OF assms]
  by (auto simp: map_add_def restrict_map_def fun_eq_iff split: option.splits)

theorem applyUserDelta_correct_witness:
  "applyUserDelta [demo_user] [demo_user] [demo_new_user] = ([demo_new_user], [demo_user], [demo_new_user], []) \<and>
   sorted (map ui_Uuid [demo_new_user]) \<and> table (\<lambda>u. u) [demo_new_user] ''u'' = None"
proof -
  have "distinct (map ui_Uuid [demo_new_user])" by simp
  moreover have r: "applyUserDelta [demo_user] [demo_user] [demo_new_user] = ([demo_new_user], [demo_user], [demo_new_user], [])"
    by code_simp
  ultimately show ?thesis
    using applyUserDelta_correct [of "[demo_new_user]" "[demo_user]" "[demo_user]"] by (simp add: table_def demo_new_user_def)
qed





end
