(* ===== verification/Traffic_Report.thy ===== *)
theory Traffic_Report
  imports User_Sync
begin

unbundle bit_operations_syntax

text \<open>
  Reporting traffic and online devices (\<open>node/edge_traffic.go\<close> and the first half of \<open>node/user.go\<close>).
  The controller collects the counters of the core, drains the edge daemon, merges both, reports
  them to the panel and gives everything back when the panel refuses. Unsigned amounts are 64 bit
  words, signed ones \<open>int\<close> with the saturation and the wrap-around of the code. The edge daemon is a
  state with a drain and a record operation, the panel a record of answers; the traffic of the
  connections between collection and answer is an explicit list of events.
\<close>

section \<open>Amounts\<close>

definition maxInt64 :: int where
  "maxInt64 = 2 ^ 63 - 1"

definition trafficMinBytes :: "int \<Rightarrow> 64 word" where
  "trafficMinBytes mintraffic = (if mintraffic \<le> 0 then 0 else word_of_int mintraffic * 1000)"

definition saturatingAddUint64 :: "64 word \<Rightarrow> 64 word \<Rightarrow> 64 word" where
  "saturatingAddUint64 left right = (if NOT 0 - left < right then NOT 0 else left + right)"

definition uint64ToInt64Saturated :: "64 word \<Rightarrow> int" where
  "uint64ToInt64Saturated value = (if value > word_of_int maxInt64 then maxInt64 else wrap64 (uint value))"

definition saturatingAddInt64 :: "int \<Rightarrow> int \<Rightarrow> int" where
  "saturatingAddInt64 left right =
     (if right > 0 \<and> left > wrap64 (maxInt64 - right) then maxInt64 else wrap64 (left + right))"

section \<open>The edge daemon\<close>

record EdgeTrafficRecord =
  er_User :: string
  er_UploadBytes :: "64 word"
  er_DownloadBytes :: "64 word"

record 'e EdgeTrafficBridge =
  eb_DrainTraffic :: "'e \<Rightarrow> (go_error + EdgeTrafficRecord list) \<times> 'e"
  eb_RecordTraffic :: "EdgeTrafficRecord \<Rightarrow> 'e \<Rightarrow> go_error option \<times> 'e"

record drainedEdgeTraffic =
  dr_report :: "UserTraffic list"
  dr_reportRecords :: "EdgeTrafficRecord list"
  dr_restoreRecords :: "EdgeTrafficRecord list"

record edgeTrafficAccumulator =
  ac_upload :: "64 word"
  ac_download :: "64 word"

definition empty_record :: "EdgeTrafficRecord \<Rightarrow> bool" where
  "empty_record r \<longleftrightarrow> er_User r = [] \<or> er_UploadBytes r = 0 \<and> er_DownloadBytes r = 0"

definition edgeTrafficBelowMin :: "EdgeTrafficRecord \<Rightarrow> 64 word \<Rightarrow> bool" where
  "edgeTrafficBelowMin r minBytes =
     (if minBytes = 0 then False else saturatingAddUint64 (er_UploadBytes r) (er_DownloadBytes r) \<le> minBytes)"

text \<open>\<open>strings.Cut\<close> at a character: what stands before and after its first occurrence.\<close>

definition Cut :: "string \<Rightarrow> char \<Rightarrow> (string \<times> string) option" where
  "Cut s c = (if c \<in> set s then Some (takeWhile (\<lambda>x. x \<noteq> c) s, tl (dropWhile (\<lambda>x. x \<noteq> c) s)) else None)"

definition edgeTrafficUUID :: "string \<Rightarrow> string \<Rightarrow> string option" where
  "edgeTrafficUUID tag user =
     (let u = TrimSpace user
      in if u = [] then None
         else case Cut u CHR ''|'' of
                None \<Rightarrow> None
              | Some (t, rest) \<Rightarrow>
                  let uuid = TrimSpace rest in if t \<noteq> tag \<or> uuid = [] then None else Some uuid)"

definition edge_uids :: "UserInfo list \<Rightarrow> (string, int) go_map" where
  "edge_uids us =
     fold (\<lambda>u m. if ui_Uuid u = [] \<or> ui_Id u \<le> 0 then m else go_store (ui_Uuid u) (ui_Id u) m) us []"

text \<open>The id a record is reported under, if it is reported.\<close>

definition record_uid :: "string \<Rightarrow> (string, int) go_map \<Rightarrow> 64 word \<Rightarrow> EdgeTrafficRecord \<Rightarrow> int option" where
  "record_uid tag uids minBytes r =
     (case edgeTrafficUUID tag (er_User r) of
        None \<Rightarrow> None
      | Some uuid \<Rightarrow>
          (case go_load uids uuid of
             None \<Rightarrow> None
           | Some uid \<Rightarrow> if edgeTrafficBelowMin r minBytes then None else Some uid))"

definition accumulate :: "EdgeTrafficRecord \<Rightarrow> edgeTrafficAccumulator \<Rightarrow> edgeTrafficAccumulator" where
  "accumulate r acc =
     \<lparr>ac_upload = saturatingAddUint64 (ac_upload acc) (er_UploadBytes r),
      ac_download = saturatingAddUint64 (ac_download acc) (er_DownloadBytes r)\<rparr>"

type_synonym drain_state = "(int, edgeTrafficAccumulator) go_map \<times> EdgeTrafficRecord list \<times> EdgeTrafficRecord list"

definition drain_record ::
  "string \<Rightarrow> (string, int) go_map \<Rightarrow> 64 word \<Rightarrow> EdgeTrafficRecord \<Rightarrow> drain_state \<Rightarrow> drain_state" where
  "drain_record tag uids minBytes r st =
     (case st of (merged, reportRecords, restoreRecords) \<Rightarrow>
        if empty_record r then st
        else case record_uid tag uids minBytes r of
               None \<Rightarrow> (merged, reportRecords, restoreRecords @ [r])
             | Some uid \<Rightarrow>
                 (go_store uid (accumulate r (go_get \<lparr>ac_upload = 0, ac_download = 0\<rparr> merged uid)) merged,
                  reportRecords @ [r], restoreRecords))"

definition drain_report :: "(int, edgeTrafficAccumulator) go_map \<Rightarrow> UserTraffic list" where
  "drain_report merged =
     map (\<lambda>(uid, a). \<lparr>ut_UID = uid, ut_Upload = uint64ToInt64Saturated (ac_upload a),
                      ut_Download = uint64ToInt64Saturated (ac_download a)\<rparr>) (go_range merged)"

definition drain_snapshot :: "string \<Rightarrow> UserInfo list \<Rightarrow> int \<Rightarrow> EdgeTrafficRecord list \<Rightarrow> drainedEdgeTraffic" where
  "drain_snapshot tag us mintraffic records =
     (case fold (drain_record tag (edge_uids us) (trafficMinBytes mintraffic)) records ([], [], []) of
        (merged, reportRecords, restoreRecords) \<Rightarrow>
          \<lparr>dr_report = drain_report merged, dr_reportRecords = reportRecords, dr_restoreRecords = restoreRecords\<rparr>)"

definition drainEdgeUserTraffic ::
  "'e EdgeTrafficBridge option \<Rightarrow> ('b, 'x) Controller \<Rightarrow> int \<Rightarrow> 'e \<Rightarrow> (go_error + drainedEdgeTraffic option) \<times> 'e" where
  "drainEdgeUserTraffic bridge c mintraffic e =
     (case bridge of
        None \<Rightarrow> (Inr None, e)
      | Some b \<Rightarrow>
          (case eb_DrainTraffic b e of
             (Inl err, e1) \<Rightarrow> (Inl err, e1)
           | (Inr records, e1) \<Rightarrow>
               if records = [] then (Inr None, e1)
               else (Inr (Some (drain_snapshot (c_tag c) (c_userList c) mintraffic records)), e1)))"

fun restore_loop :: "'e EdgeTrafficBridge \<Rightarrow> EdgeTrafficRecord list \<Rightarrow> 'e \<Rightarrow> 'e" where
  "restore_loop b [] e = e"
| "restore_loop b (r # rs) e =
     (if empty_record r then restore_loop b rs e
      else case eb_RecordTraffic b r e of
             (Some err, e1) \<Rightarrow> e1
           | (None, e1) \<Rightarrow> restore_loop b rs e1)"

definition restoreEdgeTraffic :: "'e EdgeTrafficBridge option \<Rightarrow> EdgeTrafficRecord list \<Rightarrow> 'e \<Rightarrow> 'e" where
  "restoreEdgeTraffic bridge records e =
     (case bridge of None \<Rightarrow> e | Some b \<Rightarrow> if records = [] then e else restore_loop b records e)"

section \<open>Merging\<close>

definition merge_one ::
  "UserTraffic \<Rightarrow> (int, nat) go_map \<times> UserTraffic list \<Rightarrow> (int, nat) go_map \<times> UserTraffic list" where
  "merge_one t st =
     (case st of (positions, merged) \<Rightarrow>
        case go_load positions (ut_UID t) of
          Some idx \<Rightarrow>
            (positions,
             merged[idx := (merged ! idx)\<lparr>ut_Upload := saturatingAddInt64 (ut_Upload (merged ! idx)) (ut_Upload t),
                                          ut_Download := saturatingAddInt64 (ut_Download (merged ! idx)) (ut_Download t)\<rparr>])
        | None \<Rightarrow> (go_store (ut_UID t) (length merged) positions, merged @ [t]))"

definition merge_positions :: "UserTraffic list \<Rightarrow> (int, nat) go_map" where
  "merge_positions ts = fold (\<lambda>i. go_store (ut_UID (ts ! i)) i) [0..<length ts] []"

definition mergeUserTraffic :: "UserTraffic list \<Rightarrow> UserTraffic list \<Rightarrow> UserTraffic list" where
  "mergeUserTraffic primary extra =
     (if extra = [] then primary
      else if primary = [] then extra
      else snd (fold merge_one extra (merge_positions primary, primary)))"

section \<open>The report task\<close>

datatype report_answer = ReportAccepted | ReportUnsupported | ReportFailed go_error

type_synonym online_data = "(int, string list) go_map"

text \<open>What the panel was asked and whether it accepted.\<close>

datatype panel_call =
    SnapshotCall "UserTraffic list" online_data bool
  | TrafficCall "UserTraffic list" bool
  | OnlineCall online_data bool

record 'e report_env =
  rp_bridge :: "'e EdgeTrafficBridge option"
  rp_ReportSnapshot :: "(UserTraffic list \<Rightarrow> online_data \<Rightarrow> report_answer) option"
  rp_ReportUserTraffic :: "UserTraffic list \<Rightarrow> go_error option"
  rp_ReportNodeOnlineUsers :: "online_data \<Rightarrow> go_error option"
  rp_meanwhile :: "traffic_event list"
  rp_now :: clock

text \<open>The two thresholds; \<open>None\<close> is the panic on a missing node description.\<close>

definition report_thresholds :: "NodeInfo option \<Rightarrow> (int \<times> int) option" where
  "report_thresholds info =
     (case info of
        None \<Rightarrow> None
      | Some i \<Rightarrow>
          (case ni_Common i of
             None \<Rightarrow> None
           | Some common \<Rightarrow>
               (case cm_BaseConfig common of
                  None \<Rightarrow> Some (0, 0)
                | Some b \<Rightarrow> Some (bc_NodeReportMinTraffic b, bc_DeviceOnlineMinTraffic b))))"

definition online_allowed :: "int \<Rightarrow> ('b, 'x) Controller \<Rightarrow> (int, unit) go_map option \<times> ('b, 'x) Controller" where
  "online_allowed devicemin c =
     (if devicemin > 0 then
        (case GetUserTrafficSlice (c_tag c) devicemin (c_server c) of
           (onlineTraffic, rollback, v1) \<Rightarrow>
             (Some (fold (\<lambda>t. go_store (ut_UID t) ()) onlineTraffic []),
              c\<lparr>c_server := rollback_slice (c_tag c) rollback v1\<rparr>))
      else (None, c))"

definition select_online :: "(int, unit) go_map option \<Rightarrow> OnlineUser list \<Rightarrow> OnlineUser list" where
  "select_online allowed devices =
     filter (\<lambda>dev. case allowed of None \<Rightarrow> True | Some m \<Rightarrow> go_load m (ou_UID dev) \<noteq> None) devices"

definition group_online :: "OnlineUser list \<Rightarrow> online_data" where
  "group_online result = fold (\<lambda>dev m. go_store (ou_UID dev) (go_get [] m (ou_UID dev) @ [ou_IP dev]) m) result []"

definition commitReportedOnlineDevices :: "clock \<Rightarrow> OnlineUser list \<Rightarrow> ('b, 'x) Controller \<Rightarrow> ('b, 'x) Controller" where
  "commitReportedOnlineDevices now onlineResult c =
     (if onlineResult = [] then c else c\<lparr>c_limiter := CommitOnlineDeviceReport now onlineResult (c_limiter c)\<rparr>)"

text \<open>
  The amounts of one report: the merged traffic, the rollback of the core, what was drained from the
  edge daemon, and the controller and the daemon afterwards.
\<close>

definition collect_report ::
  "'e report_env \<Rightarrow> int \<Rightarrow> ('b, 'x) Controller \<Rightarrow> 'e \<Rightarrow>
   UserTraffic list \<times> trafficRollbackItem list option \<times> drainedEdgeTraffic option \<times> ('b, 'x) Controller \<times> 'e" where
  "collect_report env reportmin c e =
     (case GetUserTrafficSlice (c_tag c) reportmin (c_server c) of
        (userTraffic, rollback, v1) \<Rightarrow>
          let c1 = c\<lparr>c_server := core_traffic (c_tag c) (rp_meanwhile env) v1\<rparr>
          in (case drainEdgeUserTraffic (rp_bridge env) c reportmin e of
                (Inl err, e1) \<Rightarrow> (userTraffic, rollback, None, c1, e1)
              | (Inr None, e1) \<Rightarrow> (userTraffic, rollback, None, c1, e1)
              | (Inr (Some edge), e1) \<Rightarrow>
                  (mergeUserTraffic userTraffic (dr_report edge), rollback, Some edge, c1,
                   restoreEdgeTraffic (rp_bridge env) (dr_restoreRecords edge) e1)))"

definition report_traffic ::
  "'e report_env \<Rightarrow> UserTraffic list \<Rightarrow> trafficRollbackItem list option \<Rightarrow> drainedEdgeTraffic option \<Rightarrow>
   ('b, 'x) Controller \<Rightarrow> 'e \<Rightarrow> panel_call list \<times> ('b, 'x) Controller \<times> 'e" where
  "report_traffic env userTraffic rollback edge c e =
     (if userTraffic = [] then ([], c, e)
      else case rp_ReportUserTraffic env userTraffic of
             None \<Rightarrow> ([TrafficCall userTraffic True], c, e)
           | Some err \<Rightarrow>
               ([TrafficCall userTraffic False], c\<lparr>c_server := rollback_slice (c_tag c) rollback (c_server c)\<rparr>,
                case edge of None \<Rightarrow> e | Some d \<Rightarrow> restoreEdgeTraffic (rp_bridge env) (dr_reportRecords d) e))"

definition report_online ::
  "'e report_env \<Rightarrow> OnlineUser list \<Rightarrow> ('b, 'x) Controller \<Rightarrow> panel_call list \<times> ('b, 'x) Controller" where
  "report_online env onlineResult c =
     (let onlineData = group_online onlineResult
      in if onlineData = [] then ([], c)
         else case rp_ReportNodeOnlineUsers env onlineData of
                Some err \<Rightarrow> ([OnlineCall onlineData False], c)
              | None \<Rightarrow> ([OnlineCall onlineData True], commitReportedOnlineDevices (rp_now env) onlineResult c))"

definition reportUserTrafficTask ::
  "'e report_env \<Rightarrow> ('b, 'x) Controller \<Rightarrow> 'e \<Rightarrow> (panel_call list \<times> ('b, 'x) Controller \<times> 'e) option" where
  "reportUserTrafficTask env c e =
     (case report_thresholds (c_info c) of
        None \<Rightarrow> None
      | Some (reportmin, devicemin) \<Rightarrow>
          (case online_allowed devicemin c of
             (allowed, c0) \<Rightarrow>
               (case collect_report env reportmin c0 e of
                  (userTraffic, rollback, edge, c1, e1) \<Rightarrow>
                    let onlineResult = select_online allowed (GetOnlineDevice (c_limiter c1));
                        onlineData = group_online onlineResult;
                        legacy = (\<lambda>calls.
                          case report_traffic env userTraffic rollback edge c1 e1 of
                            (calls1, c2, e2) \<Rightarrow>
                              (case report_online env onlineResult c2 of
                                 (calls2, c3) \<Rightarrow> Some (calls @ calls1 @ calls2, c3, e2)))
                    in (case rp_ReportSnapshot env of
                          None \<Rightarrow> legacy []
                        | Some ReportSnapshot \<Rightarrow>
                            if userTraffic \<noteq> [] \<or> onlineData \<noteq> [] then
                              (case ReportSnapshot userTraffic onlineData of
                                 ReportAccepted \<Rightarrow>
                                   Some ([SnapshotCall userTraffic onlineData True],
                                         commitReportedOnlineDevices (rp_now env) onlineResult c1, e1)
                               | _ \<Rightarrow> legacy [SnapshotCall userTraffic onlineData False])
                            else legacy []))))"

section \<open>Amounts saturate\<close>

lemma uint_max64: "uint (NOT 0 :: 64 word) = 2 ^ 64 - 1"
  by (simp add: unsigned_minus_1_eq_mask mask_eq_exp_minus_1)

lemma saturatingAddUint64_min: "uint (saturatingAddUint64 a b) = min (uint a + uint b) (2 ^ 64 - 1)"
proof -
  have le: "uint a \<le> uint (NOT 0 :: 64 word)" using uint_lt2p [of a] unfolding uint_max64 by simp
  have d: "uint (NOT 0 - a) = 2 ^ 64 - 1 - uint a" by (simp only: uint_sub_lem [THEN iffD1, OF le] uint_max64)
  have c: "NOT 0 - a < b \<longleftrightarrow> 2 ^ 64 - 1 < uint a + uint b" unfolding word_less_def d by auto
  have "uint (a + b) = uint a + uint b" if "uint a + uint b < 2 ^ 64" using uint_add_lem [of a b] that by simp
  then show ?thesis unfolding saturatingAddUint64_def c using uint_max64 by auto
qed

lemma uint64ToInt64Saturated_min: "uint64ToInt64Saturated v = min (uint v) maxInt64"
proof -
  have m: "uint (word_of_int maxInt64 :: 64 word) = maxInt64" by (simp add: maxInt64_def uint_word_of_int)
  have "wrap64 (uint v) = uint v" if "uint v \<le> maxInt64"
    using that by (intro wrap64_id) (auto simp: in_int64_def maxInt64_def intro: order_trans [OF _ uint_ge_0])
  then show ?thesis by (auto simp: uint64ToInt64Saturated_def word_less_def m)
qed

lemma saturatingAddInt64_sum:
  assumes "0 \<le> a" "0 \<le> b" "a + b \<le> maxInt64" shows "saturatingAddInt64 a b = a + b"
proof -
  have "wrap64 (maxInt64 - b) = maxInt64 - b" "wrap64 (a + b) = a + b"
    using assms by (simp_all add: in_int64_def maxInt64_def)
  then show ?thesis using assms by (simp add: saturatingAddInt64_def)
qed

section \<open>Merging keeps the totals\<close>

definition total_of :: "(UserTraffic \<Rightarrow> int) \<Rightarrow> UserTraffic list \<Rightarrow> int \<Rightarrow> int" where
  "total_of f ts uid = sum_list (map (\<lambda>t. if ut_UID t = uid then f t else 0) ts)"

lemma total_simps [simp]:
  "total_of f [] uid = 0" "total_of f (t # ts) uid = (if ut_UID t = uid then f t else 0) + total_of f ts uid"
  "total_of f (ts @ us) uid = total_of f ts uid + total_of f us uid"
  by (simp_all add: total_of_def)

lemma total_nonneg: "list_all (\<lambda>t. 0 \<le> f t) ts \<Longrightarrow> 0 \<le> total_of f ts uid"
  by (induction ts) auto

lemma total_update:
  assumes "i < length ts" "ut_UID t = ut_UID (ts ! i)"
  shows "total_of f (ts[i := t]) uid = total_of f ts uid + (if ut_UID t = uid then f t - f (ts ! i) else 0)"
  using assms
proof (induction ts arbitrary: i)
  case (Cons x ts)
  then show ?case by (cases i) auto
qed simp

lemma member_total:
  assumes "list_all (\<lambda>t. 0 \<le> f t) ts" "i < length ts" shows "f (ts ! i) \<le> total_of f ts (ut_UID (ts ! i))"
  using assms
proof (induction ts arbitrary: i)
  case (Cons t ts)
  show ?case
  proof (cases i)
    case 0
    then show ?thesis using total_nonneg [of f ts] Cons.prems(1) by simp
  next
    case (Suc j)
    then have "f (ts ! j) \<le> total_of f ts (ut_UID (ts ! j))" using Cons by simp
    then show ?thesis using Suc Cons.prems(1) by simp
  qed
qed simp

definition positions_ok :: "(int, nat) go_map \<Rightarrow> UserTraffic list \<Rightarrow> bool" where
  "positions_ok pos ts \<longleftrightarrow>
     (\<forall>uid i. go_load pos uid = Some i \<longrightarrow> i < length ts \<and> ut_UID (ts ! i) = uid) \<and>
     (\<forall>uid. go_load pos uid = None \<longrightarrow> uid \<notin> ut_UID ` set ts)"

lemma positions_snoc:
  "positions_ok pos ts \<Longrightarrow> positions_ok (go_store (ut_UID t) (length ts) pos) (ts @ [t])"
  by (auto simp: positions_ok_def nth_append split: if_splits) (metis less_SucI)+

lemma positions_update:
  "positions_ok pos ts \<Longrightarrow> i < length ts \<Longrightarrow> ut_UID t = ut_UID (ts ! i) \<Longrightarrow> positions_ok pos (ts[i := t])"
  by (auto simp: positions_ok_def nth_list_update dest!: subsetD [OF set_update_subset_insert] )
     (metis image_eqI nth_mem)+

lemma merge_positions_ok: "positions_ok (merge_positions ts) ts"
proof (induction ts rule: rev_induct)
  case Nil
  then show ?case by (simp add: positions_ok_def merge_positions_def)
next
  case (snoc t ts)
  have "fold (\<lambda>i. go_store (ut_UID ((ts @ [t]) ! i)) i) [0..<length ts] [] =
        fold (\<lambda>i. go_store (ut_UID (ts ! i)) i) [0..<length ts] []"
    by (rule fold_cong) (auto simp: nth_append)
  then have "merge_positions (ts @ [t]) = go_store (ut_UID t) (length ts) (merge_positions ts)"
    by (simp add: merge_positions_def)
  then show ?case using positions_snoc [OF snoc] by simp
qed

text \<open>The amounts of two lists are small: nothing negative and no total beyond \<open>int64\<close>.\<close>

definition small :: "UserTraffic list \<Rightarrow> bool" where
  "small ts \<longleftrightarrow>
     list_all (\<lambda>t. 0 \<le> ut_Upload t \<and> 0 \<le> ut_Download t) ts \<and>
     (\<forall>uid. total_of ut_Upload ts uid \<le> maxInt64 \<and> total_of ut_Download ts uid \<le> maxInt64)"

lemma small_nonneg: "small ts \<Longrightarrow> list_all (\<lambda>t. 0 \<le> ut_Upload t) ts" "small ts \<Longrightarrow> list_all (\<lambda>t. 0 \<le> ut_Download t) ts"
  by (auto simp: small_def list_all_iff)

lemma small_suffix:
  assumes "small (xs @ ts)" shows "small ts"
proof -
  have "0 \<le> total_of ut_Upload xs uid" "0 \<le> total_of ut_Download xs uid" for uid
    using small_nonneg [OF assms] total_nonneg [of _ xs] by simp_all
  moreover have "total_of ut_Upload xs uid + total_of ut_Upload ts uid \<le> maxInt64 \<and>
      total_of ut_Download xs uid + total_of ut_Download ts uid \<le> maxInt64" for uid
    using assms by (simp add: small_def)
  ultimately have "total_of ut_Upload ts uid \<le> maxInt64 \<and> total_of ut_Download ts uid \<le> maxInt64" for uid
    by (meson add_increasing dual_order.trans order_refl)
  then show ?thesis using assms by (simp add: small_def)
qed

lemma merge_one_total:
  assumes "positions_ok pos ts" "small (t # ts)"
    and "merge_one t (pos, ts) = (pos', ts')"
  shows "positions_ok pos' ts' \<and> small ts' \<and> ts' \<noteq> [] \<and>
         (\<forall>uid. total_of ut_Upload ts' uid = total_of ut_Upload (t # ts) uid \<and> total_of ut_Download ts' uid = total_of ut_Download (t # ts) uid)"
proof (cases "go_load pos (ut_UID t)")
  case None
  then have r: "pos' = go_store (ut_UID t) (length ts) pos" "ts' = ts @ [t]" using assms(3) by (auto simp: merge_one_def)
  show ?thesis using positions_snoc [OF assms(1), of t] assms(2) by (auto simp: r small_def ac_simps)
next
  case (Some i)
  let ?new = "(ts ! i)\<lparr>ut_Upload := saturatingAddInt64 (ut_Upload (ts ! i)) (ut_Upload t),
                        ut_Download := saturatingAddInt64 (ut_Download (ts ! i)) (ut_Download t)\<rparr>"
  have i: "i < length ts" "ut_UID (ts ! i) = ut_UID t" using assms(1) Some by (auto simp: positions_ok_def)
  have r: "pos' = pos" "ts' = ts[i := ?new]" using assms(3) Some by (auto simp: merge_one_def)
  have n: "list_all (\<lambda>t. 0 \<le> ut_Upload t) ts" "list_all (\<lambda>t. 0 \<le> ut_Download t) ts"
    "0 \<le> ut_Upload t" "0 \<le> ut_Download t" "0 \<le> ut_Upload (ts ! i)" "0 \<le> ut_Download (ts ! i)"
    using small_nonneg [OF assms(2)] i(1) by (auto simp: list_all_length)
  have b: "ut_Upload t + total_of ut_Upload ts (ut_UID t) \<le> maxInt64" "ut_Download t + total_of ut_Download ts (ut_UID t) \<le> maxInt64"
    using assms(2) unfolding small_def by (auto dest: spec [of _ "ut_UID t"])
  have add: "saturatingAddInt64 (ut_Upload (ts ! i)) (ut_Upload t) = ut_Upload (ts ! i) + ut_Upload t"
    "saturatingAddInt64 (ut_Download (ts ! i)) (ut_Download t) = ut_Download (ts ! i) + ut_Download t"
    using saturatingAddInt64_sum n b member_total [OF n(1) i(1)] member_total [OF n(2) i(1)] i(2) by auto
  have tot: "total_of ut_Upload ts' uid = total_of ut_Upload (t # ts) uid" "total_of ut_Download ts' uid = total_of ut_Download (t # ts) uid" for uid
    using i by (simp_all add: r total_update add)
  have nn: "list_all (\<lambda>t. 0 \<le> ut_Upload t \<and> 0 \<le> ut_Download t) ts'"
    using n i(1) by (auto simp: r add list_all_length nth_list_update)
  then have "small ts'" using assms(2) tot by (simp add: small_def)
  then show ?thesis using tot i positions_update [OF assms(1) i(1), of ?new] by (auto simp: r)
qed

lemma fold_merge_total:
  assumes "positions_ok pos ts" "small (rev xs @ ts)" "ts \<noteq> []"
  shows "snd (fold merge_one xs (pos, ts)) \<noteq> [] \<and>
         (\<forall>uid. total_of ut_Upload (snd (fold merge_one xs (pos, ts))) uid = total_of ut_Upload (xs @ ts) uid \<and>
                total_of ut_Download (snd (fold merge_one xs (pos, ts))) uid = total_of ut_Download (xs @ ts) uid)"
  using assms
proof (induction xs arbitrary: pos ts)
  case (Cons x xs)
  obtain pos' ts' where m: "merge_one x (pos, ts) = (pos', ts')" by (cases "merge_one x (pos, ts)")
  have tr: "total_of f (rev xs) uid = total_of f xs uid" for f uid
    by (simp add: total_of_def rev_map [symmetric])
  have "small (x # ts)" using small_suffix [of "rev xs" "x # ts"] Cons.prems(2) by simp
  note step = merge_one_total [OF Cons.prems(1) this m]
  have "small (rev xs @ ts')"
    using Cons.prems(2) step unfolding small_def by (auto simp: tr)
  then show ?case using Cons.IH [of pos' ts'] step m by (auto simp: ac_simps)
qed simp

lemma mergeUserTraffic_total:
  assumes "small (primary @ extra)"
  shows "(mergeUserTraffic primary extra = [] \<longleftrightarrow> primary = [] \<and> extra = []) \<and>
         total_of ut_Upload (mergeUserTraffic primary extra) uid = total_of ut_Upload primary uid + total_of ut_Upload extra uid \<and>
         total_of ut_Download (mergeUserTraffic primary extra) uid = total_of ut_Download primary uid + total_of ut_Download extra uid"
proof (cases "primary = [] \<or> extra = []")
  case True
  then show ?thesis by (auto simp: mergeUserTraffic_def)
next
  case False
  have "total_of f (rev xs) uid = total_of f xs uid" for f xs uid
    by (simp add: total_of_def rev_map [symmetric])
  then have "small (rev extra @ primary)" using assms by (auto simp: small_def ac_simps)
  from fold_merge_total [OF merge_positions_ok this] show ?thesis using False by (auto simp: mergeUserTraffic_def)
qed

section \<open>Draining partitions the records\<close>

abbreviation zero_acc :: edgeTrafficAccumulator where
  "zero_acc \<equiv> \<lparr>ac_upload = 0, ac_download = 0\<rparr>"

definition reported_record :: "string \<Rightarrow> (string, int) go_map \<Rightarrow> 64 word \<Rightarrow> EdgeTrafficRecord \<Rightarrow> bool" where
  "reported_record tag uids minBytes r \<longleftrightarrow> \<not> empty_record r \<and> record_uid tag uids minBytes r \<noteq> None"

definition restored_record :: "string \<Rightarrow> (string, int) go_map \<Rightarrow> 64 word \<Rightarrow> EdgeTrafficRecord \<Rightarrow> bool" where
  "restored_record tag uids minBytes r \<longleftrightarrow> \<not> empty_record r \<and> record_uid tag uids minBytes r = None"

text \<open>The amount the records of a drain carry for one panel id.\<close>

definition uid_sum ::
  "(EdgeTrafficRecord \<Rightarrow> 64 word) \<Rightarrow> (EdgeTrafficRecord \<Rightarrow> int option) \<Rightarrow> int \<Rightarrow> EdgeTrafficRecord list \<Rightarrow> int" where
  "uid_sum f uid_of_record uid rs =
     sum_list (map (\<lambda>r. if \<not> empty_record r \<and> uid_of_record r = Some uid then uint (f r) else 0) rs)"

lemma uid_sum_nonneg [simp]: "0 \<le> uid_sum f g uid rs"
  by (auto simp: uid_sum_def intro!: sum_list_nonneg)

lemma drain_record_cases:
  "empty_record r \<Longrightarrow> drain_record tag uids mb r (m, rep, rest) = (m, rep, rest)"
  "restored_record tag uids mb r \<Longrightarrow> drain_record tag uids mb r (m, rep, rest) = (m, rep, rest @ [r])"
  "\<not> empty_record r \<Longrightarrow> record_uid tag uids mb r = Some uid \<Longrightarrow>
   drain_record tag uids mb r (m, rep, rest) = (go_store uid (accumulate r (go_get zero_acc m uid)) m, rep @ [r], rest)"
  by (simp_all add: drain_record_def restored_record_def)

lemma record_cases:
  obtains "empty_record r" | "restored_record tag uids mb r"
  | uid where "\<not> empty_record r" "record_uid tag uids mb r = Some uid" "reported_record tag uids mb r"
  by (cases "empty_record r"; cases "record_uid tag uids mb r") (auto simp: reported_record_def restored_record_def)

lemma min_min_add: "(0::int) \<le> b \<Longrightarrow> min (min (a + b) m + c) m = min (a + (b + c)) m" if "0 \<le> c" for a b c m
  using that by (auto simp: min_def)

definition grown ::
  "(EdgeTrafficRecord \<Rightarrow> 64 word) \<Rightarrow> (edgeTrafficAccumulator \<Rightarrow> 64 word) \<Rightarrow> (EdgeTrafficRecord \<Rightarrow> int option) \<Rightarrow>
   EdgeTrafficRecord list \<Rightarrow> (int, edgeTrafficAccumulator) go_map \<Rightarrow> (int, edgeTrafficAccumulator) go_map \<Rightarrow> bool" where
  "grown f g uf rs m m' \<longleftrightarrow>
     (\<forall>uid. uint (g (go_get zero_acc m' uid)) = min (uint (g (go_get zero_acc m uid)) + uid_sum f uf uid rs) (2 ^ 64 - 1))"

lemma uid_sum_Cons:
  "uid_sum f g uid (r # rs) = (if \<not> empty_record r \<and> g r = Some uid then uint (f r) else 0) + uid_sum f g uid rs"
  by (simp add: uid_sum_def)

lemma grown_Cons:
  assumes "\<not> empty_record r" "uf r = Some uid" "uint (g (accumulate r a)) = min (uint (g a) + uint (f r)) (2 ^ 64 - 1)"
    and "a = go_get zero_acc m uid" "grown f g uf rs (go_store uid (accumulate r a) m) m'"
  shows "grown f g uf (r # rs) m m'"
proof -
  have "uint (g (go_get zero_acc m' k)) = min (uint (g (go_get zero_acc m k)) + uid_sum f uf k (r # rs)) (2 ^ 64 - 1)" for k
  proof (cases "k = uid")
    case True
    have "uint (g (go_get zero_acc m' uid)) = min (uint (g (accumulate r a)) + uid_sum f uf uid rs) (2 ^ 64 - 1)"
      using assms(5) by (simp add: grown_def go_get_def)
    then show ?thesis using True assms(1-4) by (simp add: uid_sum_Cons min_min_add)
  next
    case False
    then show ?thesis using assms(2,5) by (simp add: grown_def go_get_def uid_sum_Cons)
  qed
  then show ?thesis by (simp add: grown_def)
qed

lemma grown_skip:
  assumes "empty_record r \<or> uf r = None" shows "grown f g uf (r # rs) m m' = grown f g uf rs m m'"
proof -
  have "uid_sum f uf uid (r # rs) = uid_sum f uf uid rs" for uid using assms by (auto simp: uid_sum_Cons)
  then show ?thesis unfolding grown_def by (simp only:)
qed

lemma grown_Nil: "grown f g uf [] m m"
proof -
  have "uint x = min (uint x + 0) (2 ^ 64 - 1)" for x :: "64 word" using uint_lt2p [of x] by simp
  then show ?thesis unfolding grown_def uid_sum_def list.map sum_list.Nil by (intro allI)
qed

lemma fold_drain:
  assumes "go_wf m" "fold (drain_record tag uids mb) rs (m, rep, rest) = (m', rep', rest')"
  shows "go_wf m' \<and> rep' = rep @ filter (reported_record tag uids mb) rs \<and> rest' = rest @ filter (restored_record tag uids mb) rs \<and>
         (m' = [] \<longrightarrow> m = [] \<and> rep' = rep) \<and>
         grown er_UploadBytes ac_upload (record_uid tag uids mb) rs m m' \<and>
         grown er_DownloadBytes ac_download (record_uid tag uids mb) rs m m'"
  using assms
proof (induction rs arbitrary: m rep rest)
  case Nil
  then show ?case by (simp add: grown_Nil)
next
  case (Cons r rs)
  show ?case
  proof (cases rule: record_cases [where r = r and tag = tag and uids = uids and mb = mb])
    case 1
    then have "fold (drain_record tag uids mb) rs (m, rep, rest) = (m', rep', rest')"
      using Cons.prems(2) by (simp add: drain_record_cases)
    from Cons.IH [OF Cons.prems(1) this] show ?thesis
      using 1 by (auto simp: grown_skip reported_record_def restored_record_def)
  next
    case 2
    then have "fold (drain_record tag uids mb) rs (m, rep, rest @ [r]) = (m', rep', rest')"
      using Cons.prems(2) by (simp add: drain_record_cases)
    from Cons.IH [OF Cons.prems(1) this] show ?thesis
      using 2 by (auto simp: grown_skip reported_record_def restored_record_def)
  next
    case (3 uid)
    let ?a = "go_get zero_acc m uid"
    have f: "fold (drain_record tag uids mb) rs (go_store uid (accumulate r ?a) m, rep @ [r], rest) = (m', rep', rest')"
      using Cons.prems(2) 3 by (simp add: drain_record_cases)
    note ih = Cons.IH [OF go_wf_store [OF Cons.prems(1)] f]
    have ne: "go_store uid (accumulate r ?a) m \<noteq> []" by (metis go_load_Nil go_load_store option.distinct(1))
    have "grown er_UploadBytes ac_upload (record_uid tag uids mb) (r # rs) m m'"
      by (rule grown_Cons [where uf = "record_uid tag uids mb" and uid = uid and a = ?a, OF 3(1,2) _ refl]) (use ih in \<open>simp_all add: accumulate_def saturatingAddUint64_min\<close>)
    moreover have "grown er_DownloadBytes ac_download (record_uid tag uids mb) (r # rs) m m'"
      by (rule grown_Cons [where uf = "record_uid tag uids mb" and uid = uid and a = ?a, OF 3(1,2) _ refl]) (use ih in \<open>simp_all add: accumulate_def saturatingAddUint64_min\<close>)
    ultimately show ?thesis using ih ne 3 by (simp add: restored_record_def)
  qed
qed

lemma drain_report_total:
  assumes "go_wf m"
  shows "total_of ut_Upload (drain_report m) uid = min (uint (ac_upload (go_get zero_acc m uid))) maxInt64 \<and>
         total_of ut_Download (drain_report m) uid = min (uint (ac_download (go_get zero_acc m uid))) maxInt64"
  using assms
proof (induction m)
  case Nil
  then show ?case by (simp add: drain_report_def go_range_def go_get_def maxInt64_def)
next
  case (Cons e m)
  obtain k a where e: "e = (k, a)" by (cases e)
  have k: "go_load m k = None" and ih: "total_of ut_Upload (drain_report m) uid = min (uint (ac_upload (go_get zero_acc m uid))) maxInt64"
    "total_of ut_Download (drain_report m) uid = min (uint (ac_download (go_get zero_acc m uid))) maxInt64"
    using Cons e by auto
  have step: "drain_report ((k, a) # m) =
      \<lparr>ut_UID = k, ut_Upload = uint64ToInt64Saturated (ac_upload a), ut_Download = uint64ToInt64Saturated (ac_download a)\<rparr> # drain_report m" for k a
    by (simp add: drain_report_def go_range_def)
  have z: "min 0 maxInt64 = 0" by (simp add: maxInt64_def)
  show ?case
    by (cases "k = uid") (use k ih in \<open>auto simp: e step go_get_def uint64ToInt64Saturated_min z\<close>)
qed

lemma drain_snapshot_spec:
  fixes us tag mint
  defines "R \<equiv> record_uid tag (edge_uids us) (trafficMinBytes mint)"
  shows "dr_reportRecords (drain_snapshot tag us mint rs) = filter (reported_record tag (edge_uids us) (trafficMinBytes mint)) rs"
    and "dr_restoreRecords (drain_snapshot tag us mint rs) = filter (restored_record tag (edge_uids us) (trafficMinBytes mint)) rs"
    and "dr_report (drain_snapshot tag us mint rs) = [] \<Longrightarrow> dr_reportRecords (drain_snapshot tag us mint rs) = []"
    and "total_of ut_Upload (dr_report (drain_snapshot tag us mint rs)) uid = min (uid_sum er_UploadBytes R uid rs) maxInt64"
    and "total_of ut_Download (dr_report (drain_snapshot tag us mint rs)) uid = min (uid_sum er_DownloadBytes R uid rs) maxInt64"
proof -
  obtain m rep rest where f: "fold (drain_record tag (edge_uids us) (trafficMinBytes mint)) rs ([], [], []) = (m, rep, rest)"
    by (metis prod.exhaust)
  note spec = fold_drain [OF go_wf_Nil f, simplified]
  have d: "drain_snapshot tag us mint rs = \<lparr>dr_report = drain_report m, dr_reportRecords = rep, dr_restoreRecords = rest\<rparr>"
    by (simp add: drain_snapshot_def f)
  show "dr_reportRecords (drain_snapshot tag us mint rs) = filter (reported_record tag (edge_uids us) (trafficMinBytes mint)) rs"
    "dr_restoreRecords (drain_snapshot tag us mint rs) = filter (restored_record tag (edge_uids us) (trafficMinBytes mint)) rs"
    using spec by (simp_all add: d)
  show "dr_report (drain_snapshot tag us mint rs) = [] \<Longrightarrow> dr_reportRecords (drain_snapshot tag us mint rs) = []"
    using spec by (auto simp: d drain_report_def go_range_empty_iff)
  have mm: "min (min (0 + x) (2 ^ 64 - 1)) maxInt64 = min x maxInt64" for x by (simp add: maxInt64_def)
  show "total_of ut_Upload (dr_report (drain_snapshot tag us mint rs)) uid = min (uid_sum er_UploadBytes R uid rs) maxInt64"
    "total_of ut_Download (dr_report (drain_snapshot tag us mint rs)) uid = min (uid_sum er_DownloadBytes R uid rs) maxInt64"
    using spec drain_report_total [of m uid] mm by (simp_all add: d R_def grown_def go_get_def)
qed

section \<open>The edge daemon gives back what it got\<close>

definition user_sum :: "(EdgeTrafficRecord \<Rightarrow> 64 word) \<Rightarrow> string \<Rightarrow> EdgeTrafficRecord list \<Rightarrow> int" where
  "user_sum f user rs = sum_list (map (\<lambda>r. if er_User r = user then uint (f r) else 0) rs)"

text \<open>
  What the controller expects of the daemon: a drain hands out the amounts held and forgets them, or
  fails and keeps them; recording succeeds and adds the amounts of the record. \<open>up\<close> and \<open>down\<close> are the
  amounts held for a user.
\<close>

definition lawful_bridge :: "'e EdgeTrafficBridge \<Rightarrow> ('e \<Rightarrow> string \<Rightarrow> int) \<Rightarrow> ('e \<Rightarrow> string \<Rightarrow> int) \<Rightarrow> bool" where
  "lawful_bridge b up down \<longleftrightarrow>
     (\<forall>e. case eb_DrainTraffic b e of
            (Inl err, e1) \<Rightarrow> up e1 = up e \<and> down e1 = down e
          | (Inr rs, e1) \<Rightarrow> up e = (\<lambda>u. user_sum er_UploadBytes u rs) \<and> down e = (\<lambda>u. user_sum er_DownloadBytes u rs) \<and>
                            up e1 = (\<lambda>_. 0) \<and> down e1 = (\<lambda>_. 0)) \<and>
     (\<forall>r e. fst (eb_RecordTraffic b r e) = None \<and>
        up (snd (eb_RecordTraffic b r e)) = (\<lambda>u. up e u + (if er_User r = u then uint (er_UploadBytes r) else 0)) \<and>
        down (snd (eb_RecordTraffic b r e)) = (\<lambda>u. down e u + (if er_User r = u then uint (er_DownloadBytes r) else 0)))"

lemma user_sum_simps [simp]:
  "user_sum f u [] = 0" "user_sum f u (r # rs) = (if er_User r = u then uint (f r) else 0) + user_sum f u rs"
  by (simp_all add: user_sum_def)

lemma restore_adds:
  assumes "lawful_bridge b up down" "u \<noteq> []"
  shows "up (restoreEdgeTraffic (Some b) rs e) u = up e u + user_sum er_UploadBytes u rs \<and>
         down (restoreEdgeTraffic (Some b) rs e) u = down e u + user_sum er_DownloadBytes u rs"
proof -
  have "up (restore_loop b rs e) u = up e u + user_sum er_UploadBytes u rs \<and>
        down (restore_loop b rs e) u = down e u + user_sum er_DownloadBytes u rs"
  proof (induction rs arbitrary: e)
    case (Cons r rs)
    obtain o' e1 where r: "eb_RecordTraffic b r e = (o', e1)" by (cases "eb_RecordTraffic b r e")
    have l: "o' = None" "up e1 u = up e u + (if er_User r = u then uint (er_UploadBytes r) else 0)"
      "down e1 u = down e u + (if er_User r = u then uint (er_DownloadBytes r) else 0)"
      using assms(1) r by (auto simp: lawful_bridge_def dest!: spec [where x = r] spec [where x = e])
    show ?case using Cons.IH [of e] Cons.IH [of e1] r l assms(2) by (auto simp: empty_record_def)
  qed simp
  then show ?thesis by (simp add: restoreEdgeTraffic_def)
qed

text \<open>Every record that carries something is either reported or restored.\<close>

lemma user_sum_split:
  assumes "u \<noteq> []" "f = er_UploadBytes \<or> f = er_DownloadBytes"
  shows "user_sum f u (filter (reported_record tag uids mb) rs) + user_sum f u (filter (restored_record tag uids mb) rs) = user_sum f u rs"
proof (induction rs)
  case (Cons r rs)
  have "reported_record tag uids mb r \<and> \<not> restored_record tag uids mb r \<or> restored_record tag uids mb r \<and> \<not> reported_record tag uids mb r \<or>
        \<not> reported_record tag uids mb r \<and> \<not> restored_record tag uids mb r \<and> empty_record r"
    by (auto simp: reported_record_def restored_record_def)
  then show ?case using Cons assms by (auto simp: empty_record_def)
qed simp

definition bridge_ok :: "'e report_env \<Rightarrow> ('e \<Rightarrow> string \<Rightarrow> int) \<Rightarrow> ('e \<Rightarrow> string \<Rightarrow> int) \<Rightarrow> bool" where
  "bridge_ok env up down \<longleftrightarrow> (case rp_bridge env of None \<Rightarrow> True | Some b \<Rightarrow> lawful_bridge b up down)"

definition edge_reported :: "drainedEdgeTraffic option \<Rightarrow> EdgeTrafficRecord list" where
  "edge_reported edge = (case edge of None \<Rightarrow> [] | Some d \<Rightarrow> dr_reportRecords d)"

lemma collect_edge:
  assumes "bridge_ok env up down" "u \<noteq> []" "collect_report env m c e = (ut, rb, edge, c1, e1)"
  shows "up e1 u + user_sum er_UploadBytes u (edge_reported edge) = up e u \<and>
         down e1 u + user_sum er_DownloadBytes u (edge_reported edge) = down e u"
proof (cases "rp_bridge env")
  case None
  then show ?thesis
    using assms(3) by (auto simp: collect_report_def drainEdgeUserTraffic_def edge_reported_def Let_def split: prod.splits)
next
  case (Some b)
  have law: "lawful_bridge b up down" using assms(1) Some by (simp add: bridge_ok_def)
  obtain r e0 where d: "eb_DrainTraffic b e = (r, e0)" by (cases "eb_DrainTraffic b e")
  show ?thesis
  proof (cases r)
    case (Inl err)
    then have "up e0 = up e" "down e0 = down e" using law d by (auto simp: lawful_bridge_def dest!: spec [where x = e])
    then show ?thesis
      using assms(3) Some d Inl
      by (auto simp: collect_report_def drainEdgeUserTraffic_def edge_reported_def Let_def split: prod.splits)
  next
    case (Inr rs)
    have l: "up e = (\<lambda>u. user_sum er_UploadBytes u rs)" "down e = (\<lambda>u. user_sum er_DownloadBytes u rs)"
      "up e0 = (\<lambda>_. 0)" "down e0 = (\<lambda>_. 0)"
      using law d Inr by (auto simp: lawful_bridge_def dest!: spec [where x = e])
    show ?thesis
    proof (cases "rs = []")
      case True
      then show ?thesis
        using assms(3) Some d Inr l
        by (auto simp: collect_report_def drainEdgeUserTraffic_def edge_reported_def Let_def split: prod.splits)
    next
      case False
      let ?d = "drain_snapshot (c_tag c) (c_userList c) m rs"
      have e: "edge = Some ?d" "e1 = restoreEdgeTraffic (Some b) (dr_restoreRecords ?d) e0"
        using assms(3) Some d Inr False
        by (auto simp: collect_report_def drainEdgeUserTraffic_def Let_def split: prod.splits)
      show ?thesis
        using restore_adds [OF law assms(2), of "dr_restoreRecords ?d" e0] user_sum_split [OF assms(2), of er_UploadBytes]
          user_sum_split [OF assms(2), of er_DownloadBytes]
        by (simp add: e edge_reported_def drain_snapshot_spec l add.commute)
    qed
  qed
qed

section \<open>The counters of the core get back what was not reported\<close>

text \<open>The counter of the node has, for every known user, the amounts of \<open>k\<close> and the traffic \<open>es\<close>.\<close>

definition keeps_counts :: "'x V2Core \<Rightarrow> string \<Rightarrow> traffic_event list \<Rightarrow> TrafficCounter \<Rightarrow> 'x V2Core \<Rightarrow> bool" where
  "keeps_counts v tag es k v' \<longleftrightarrow>
     vc_users v' = vc_users v \<and>
     (\<exists>k'. node_counter v' tag = Some k' \<and> counter_wf k' \<and>
        (\<forall>u. uid_of v u \<noteq> 0 \<longrightarrow>
           GetUpCount k' u = wrap64 (GetUpCount k u + up_bytes u es) \<and>
           GetDownCount k' u = wrap64 (GetDownCount k u + down_bytes u es)))"

lemma slice_frame:
  assumes "GetUserTrafficSlice tag m v = (sl, rb, v1)" "node_counter v tag = Some k"
  obtains it k1 where "collect_traffic (uid_of v) m k = (sl, it, k1)" "rb = (if sl = [] then None else Some it)"
    "node_counter v1 tag = Some k1" "vc_users v1 = vc_users v"
  using assms by (auto simp: GetUserTrafficSlice_def node_counter_def split: option.splits prod.splits)

lemma rollback_node:
  assumes "node_counter w tag = Some k2" "sl = [] \<Longrightarrow> it = []"
  shows "node_counter (rollback_slice tag (if sl = [] then None else Some it) w) tag = Some (rollback_traffic it k2)"
  using node_counter_rollback [OF assms(1), of it] assms by (simp add: rollback_slice_def rollback_traffic_def)

lemma frame_users [simp]: "vc_users (rollback_slice tag rb v) = vc_users v" "vc_users (core_traffic tag es v) = vc_users v"
  by (simp_all add: rollback_slice_def core_traffic_def split: option.splits)

lemma slice_rollback_keeps:
  assumes "node_counter v tag = Some k" "counter_wf k" "GetUserTrafficSlice tag m v = (sl, rb, v1)"
    and "node_counter w tag = Some (fold traffic_event_step es k1)" "node_counter v1 tag = Some k1" "vc_users w = vc_users v"
  shows "keeps_counts v tag es k (rollback_slice tag rb w)"
proof -
  obtain it where c: "collect_traffic (uid_of v) m k = (sl, it, k1)" and rb: "rb = (if sl = [] then None else Some it)"
    using slice_frame [OF assms(3,1)] assms(5) by auto
  have "sl = [] \<Longrightarrow> it = []" using collect_traffic_spec(1,2) [OF assms(2) c] by simp
  then have n: "node_counter (rollback_slice tag rb w) tag = Some (rollback_traffic it (fold traffic_event_step es k1))"
    unfolding rb by (intro rollback_node [OF assms(4)])
  have "counter_wf (rollback_traffic it (fold traffic_event_step es k1))"
    by (rule rollback_wf [OF run_wf [OF collect_wf [OF assms(2) c]]])
  then show ?thesis using n rollback_lossless [OF assms(2) c] assms(6) by (auto simp: keeps_counts_def)
qed

lemma online_allowed_keeps:
  assumes "node_counter (c_server c) (c_tag c) = Some k" "counter_wf k" "online_allowed dm c = (allowed, c0)"
  shows "keeps_counts (c_server c) (c_tag c) [] k (c_server c0) \<and> c_tag c0 = c_tag c \<and> c_limiter c0 = c_limiter c \<and> c_userList c0 = c_userList c"
proof (cases "dm > 0")
  case False
  then have "c0 = c" using assms(3) by (simp add: online_allowed_def)
  then show ?thesis
    using assms(1,2) by (simp add: keeps_counts_def GetUpCount_in_int64 GetDownCount_in_int64)
next
  case True
  obtain sl rb v1 where s: "GetUserTrafficSlice (c_tag c) dm (c_server c) = (sl, rb, v1)" by (metis prod.exhaust)
  then have c0: "c0 = c\<lparr>c_server := rollback_slice (c_tag c) rb v1\<rparr>" using assms(3) True by (simp add: online_allowed_def)
  obtain it k1 where n: "node_counter v1 (c_tag c) = Some k1" "vc_users v1 = vc_users (c_server c)"
    using slice_frame [OF s assms(1)] by metis
  show ?thesis using slice_rollback_keeps [OF assms(1,2) s _ n(1,2), of "[]"] n by (simp add: c0)
qed

lemma keeps_trans:
  assumes "keeps_counts v tag [] k v1" "node_counter v1 tag = Some k1" "keeps_counts v1 tag es k1 v2" "counter_wf k"
  shows "keeps_counts v tag es k v2"
proof -
  have u: "uid_of v1 = uid_of v" using assms(1) by (auto simp: keeps_counts_def uid_of_def fun_eq_iff)
  have "uid_of v u \<noteq> 0 \<Longrightarrow> GetUpCount k1 u = GetUpCount k u \<and> GetDownCount k1 u = GetDownCount k u" for u
    using assms(1,2,4) by (auto simp: keeps_counts_def GetUpCount_in_int64 GetDownCount_in_int64)
  then show ?thesis using assms(1,3) u by (auto simp: keeps_counts_def)
qed

lemma merge_one_length: "length (snd st) \<le> length (snd (merge_one t st))"
  by (auto simp: merge_one_def split: prod.splits option.splits)

lemma fold_merge_length: "length (snd st) \<le> length (snd (fold merge_one ts st))"
proof (induction ts arbitrary: st)
  case (Cons t ts)
  show ?case using order_trans [OF merge_one_length Cons.IH [of "merge_one t st"]] by simp
qed simp

lemma mergeUserTraffic_Nil: "mergeUserTraffic p x = [] \<longleftrightarrow> p = [] \<and> x = []"
  using fold_merge_length [of "(merge_positions p, p)" x] by (auto simp: mergeUserTraffic_def)

lemma collect_nothing:
  assumes "collect_report env m c e = ([], rb, edge, c1, e1)"
  shows "rb = None" and "edge_reported edge = []"
proof -
  obtain sl rb' v1 where s: "GetUserTrafficSlice (c_tag c) m (c_server c) = (sl, rb', v1)" by (metis prod.exhaust)
  have "sl = [] \<and> rb = rb' \<and> edge_reported edge = []"
    using assms s
    by (auto simp: collect_report_def Let_def edge_reported_def drainEdgeUserTraffic_def mergeUserTraffic_Nil drain_snapshot_spec(3)
        split: sum.splits option.splits prod.splits if_splits)
  then show "rb = None" and "edge_reported edge = []"
    using s by (auto simp: GetUserTrafficSlice_def split: option.splits prod.splits if_splits)
qed

lemma collect_core:
  assumes "node_counter (c_server c) (c_tag c) = Some k" "counter_wf k" "collect_report env m c e = (ut, rb, edge, c1, e1)"
  shows "keeps_counts (c_server c) (c_tag c) (rp_meanwhile env) k (rollback_slice (c_tag c) rb (c_server c1)) \<and>
         c_tag c1 = c_tag c \<and> c_limiter c1 = c_limiter c"
proof -
  obtain sl rb' v1 where s: "GetUserTrafficSlice (c_tag c) m (c_server c) = (sl, rb', v1)" by (metis prod.exhaust)
  have c1: "rb = rb'" "c1 = c\<lparr>c_server := core_traffic (c_tag c) (rp_meanwhile env) v1\<rparr>"
    using assms(3) s by (auto simp: collect_report_def Let_def split: prod.splits sum.splits option.splits)
  obtain it k1 where n: "node_counter v1 (c_tag c) = Some k1" "vc_users v1 = vc_users (c_server c)"
    using slice_frame [OF s assms(1)] by metis
  show ?thesis
    using slice_rollback_keeps [OF assms(1,2) s node_counter_traffic [OF n(1)] n(1)] n(2) by (simp add: c1)
qed

definition traffic_accepted :: "panel_call list \<Rightarrow> bool" where
  "traffic_accepted calls \<longleftrightarrow>
     list_ex (\<lambda>call. case call of SnapshotCall ts od ok \<Rightarrow> ok | TrafficCall ts ok \<Rightarrow> ok | OnlineCall od ok \<Rightarrow> False) calls"

definition online_accepted :: "panel_call list \<Rightarrow> bool" where
  "online_accepted calls \<longleftrightarrow>
     list_ex (\<lambda>call. case call of SnapshotCall ts od ok \<Rightarrow> ok | TrafficCall ts ok \<Rightarrow> False | OnlineCall od ok \<Rightarrow> ok) calls"

lemma report_online_frame:
  "report_online env res c = (calls, c') \<Longrightarrow>
   c_server c' = c_server c \<and> c_tag c' = c_tag c \<and> \<not> traffic_accepted calls \<and> (\<not> online_accepted calls \<longrightarrow> c' = c)"
  by (auto simp: report_online_def commitReportedOnlineDevices_def Let_def traffic_accepted_def online_accepted_def
      split: option.splits if_splits)

text \<open>A run of the task that the panel did not accept the traffic of ends with the rollback of its collection.\<close>

lemma refused_run:
  assumes "reportUserTrafficTask env c e = Some (calls, c', e')" "\<not> traffic_accepted calls"
  obtains reportmin devicemin allowed c0 ut rb edge c1 e1
  where "online_allowed devicemin c = (allowed, c0)" "collect_report env reportmin c0 e = (ut, rb, edge, c1, e1)"
    "c_server c' = rollback_slice (c_tag c1) rb (c_server c1)"
    "e' = (if edge_reported edge = [] then e1 else restoreEdgeTraffic (rp_bridge env) (edge_reported edge) e1)"
    "\<not> online_accepted calls \<longrightarrow> c_limiter c' = c_limiter c1"
proof -
  obtain reportmin devicemin where t: "report_thresholds (c_info c) = Some (reportmin, devicemin)"
    using assms(1) by (auto simp: reportUserTrafficTask_def split: option.splits)
  obtain allowed c0 where a: "online_allowed devicemin c = (allowed, c0)" by (cases "online_allowed devicemin c")
  obtain ut rb edge c1 e1 where col: "collect_report env reportmin c0 e = (ut, rb, edge, c1, e1)" by (metis prod.exhaust)
  let ?res = "select_online allowed (GetOnlineDevice (c_limiter c1))"
  obtain calls1 c2 e2 where tr: "report_traffic env ut rb edge c1 e1 = (calls1, c2, e2)" by (metis prod.exhaust)
  obtain calls2 c3 where on: "report_online env ?res c2 = (calls2, c3)" by (cases "report_online env ?res c2")
  have r: "c' = c3" "e' = e2" "\<exists>pre. calls = pre @ calls1 @ calls2 \<and> \<not> online_accepted pre"
    using assms t a col tr on
    by (auto simp: reportUserTrafficTask_def Let_def traffic_accepted_def online_accepted_def
        split: option.splits if_splits report_answer.splits)
  have na: "\<not> traffic_accepted calls1" using assms(2) r(3) by (auto simp: traffic_accepted_def)
  have c2: "c_server c2 = rollback_slice (c_tag c1) rb (c_server c1)" "c_limiter c2 = c_limiter c1"
    "e2 = (if edge_reported edge = [] then e1 else restoreEdgeTraffic (rp_bridge env) (edge_reported edge) e1)"
    using tr na collect_nothing [of env reportmin c0 e rb edge c1 e1] col
    by (auto simp: report_traffic_def traffic_accepted_def rollback_slice_def edge_reported_def restoreEdgeTraffic_def
        split: if_splits option.splits)
  note fr = report_online_frame [OF on]
  have "\<not> online_accepted calls \<longrightarrow> c_limiter c' = c_limiter c1"
    using r fr c2 by (auto simp: online_accepted_def)
  then show thesis using that [OF a col] r fr c2 by simp
qed

lemma reported_list:
  assumes "reportUserTrafficTask env c e = Some (calls, c', e')" "report_thresholds (c_info c) = Some (reportmin, devicemin)"
    and "online_allowed devicemin c = (allowed, c0)" "collect_report env reportmin c0 e = (ut, rb, edge, c1, e1)"
    and "SnapshotCall ts od b \<in> set calls \<or> TrafficCall ts b \<in> set calls"
  shows "ts = ut"
  using assms
  by (auto simp: reportUserTrafficTask_def report_traffic_def report_online_def Let_def
      split: option.splits if_splits report_answer.splits prod.splits)

section \<open>A node with an edge daemon\<close>

definition list_bridge :: "EdgeTrafficRecord list EdgeTrafficBridge" where
  "list_bridge = \<lparr>eb_DrainTraffic = (\<lambda>e. (Inr e, [])), eb_RecordTraffic = (\<lambda>r e. (None, r # e))\<rparr>"

lemma list_bridge_lawful:
  "lawful_bridge list_bridge (\<lambda>e u. user_sum er_UploadBytes u e) (\<lambda>e u. user_sum er_DownloadBytes u e)"
  by (auto simp: lawful_bridge_def list_bridge_def fun_eq_iff)

definition demo_report_env :: "go_error option \<Rightarrow> EdgeTrafficRecord list report_env" where
  "demo_report_env answer =
     \<lparr>rp_bridge = Some list_bridge, rp_ReportSnapshot = None, rp_ReportUserTraffic = (\<lambda>_. answer),
      rp_ReportNodeOnlineUsers = (\<lambda>_. None), rp_meanwhile = [TxEv ''T|u'' 40], rp_now = 0\<rparr>"

definition demo_records :: "EdgeTrafficRecord list" where
  "demo_records = [\<lparr>er_User = ''T|u'', er_UploadBytes = 5, er_DownloadBytes = 6\<rparr>,
                   \<lparr>er_User = ''S|x'', er_UploadBytes = 1, er_DownloadBytes = 0\<rparr>]"

section \<open>Properties\<close>



text \<open>
  What the panel is told is the sum of both sources: for every panel id the reported amounts are
  those of the core's slice plus those of the edge records of this node above the threshold, summed
  with saturation at the largest signed 64 bit value; no amount is reported twice or dropped.
\<close>

theorem report_sums_both_sources:
  assumes "reportUserTrafficTask env c e = Some (calls, c', e')" and "report_thresholds (c_info c) = Some (reportmin, devicemin)"
    and "online_allowed devicemin c = (allowed, c0)" and "GetUserTrafficSlice (c_tag c0) reportmin (c_server c0) = (sl, rb, v1)"
    and "rp_bridge env = Some b" and "eb_DrainTraffic b e = (Inr rs, e0)" and "rs \<noteq> []"
    and "small (sl @ dr_report (drain_snapshot (c_tag c0) (c_userList c0) reportmin rs))"
    and "SnapshotCall ts od ok \<in> set calls \<or> TrafficCall ts ok \<in> set calls"
  shows "total_of ut_Upload ts uid = total_of ut_Upload sl uid +
           min (uid_sum er_UploadBytes (record_uid (c_tag c0) (edge_uids (c_userList c0)) (trafficMinBytes reportmin)) uid rs) maxInt64 \<and>
         total_of ut_Download ts uid = total_of ut_Download sl uid +
           min (uid_sum er_DownloadBytes (record_uid (c_tag c0) (edge_uids (c_userList c0)) (trafficMinBytes reportmin)) uid rs) maxInt64"
proof -
  obtain ut rb' edge c1 e1 where col: "collect_report env reportmin c0 e = (ut, rb', edge, c1, e1)" by (metis prod.exhaust)
  have "ts = ut" by (rule reported_list [OF assms(1-3) col assms(9)])
  moreover have "ut = mergeUserTraffic sl (dr_report (drain_snapshot (c_tag c0) (c_userList c0) reportmin rs))"
    using col assms(4-7) by (auto simp: collect_report_def drainEdgeUserTraffic_def Let_def)
  ultimately show ?thesis using mergeUserTraffic_total [OF assms(8), of uid] by (simp add: drain_snapshot_spec)
qed

theorem report_sums_both_sources_witness:
  "\<exists>ts calls c' e'. reportUserTrafficTask (demo_report_env None) demo_controller demo_records = Some (calls, c', e') \<and>
     TrafficCall ts True \<in> set calls \<and> total_of ut_Upload ts 7 = 505 \<and> total_of ut_Download ts 7 = 706"
proof -
  let ?run = "reportUserTrafficTask (demo_report_env None) demo_controller demo_records"
  let ?sl = "[\<lparr>ut_UID = 7, ut_Upload = 500, ut_Download = 700\<rparr>]" and ?x = "[\<lparr>ut_UID = 7, ut_Upload = 5, ut_Download = 6\<rparr>]"
  have "map_option fst ?run = Some [TrafficCall [\<lparr>ut_UID = 7, ut_Upload = 505, ut_Download = 706\<rparr>] True]"
    by code_simp
  then obtain calls c' e' where run: "?run = Some (calls, c', e')"
    and calls: "calls = [TrafficCall [\<lparr>ut_UID = 7, ut_Upload = 505, ut_Download = 706\<rparr>] True]" by auto
  have t: "report_thresholds (c_info demo_controller) = Some (0, 0)" by code_simp
  have a: "online_allowed 0 demo_controller = (None, demo_controller)" by (simp add: online_allowed_def)
  have "fst (GetUserTrafficSlice (c_tag demo_controller) 0 (c_server demo_controller)) = ?sl" by code_simp
  then obtain rb v1 where s: "GetUserTrafficSlice (c_tag demo_controller) 0 (c_server demo_controller) = (?sl, rb, v1)"
    by (metis prod.collapse)
  have b: "rp_bridge (demo_report_env None) = Some list_bridge" "eb_DrainTraffic list_bridge demo_records = (Inr demo_records, [])"
    "demo_records \<noteq> []" by (simp_all add: demo_report_env_def list_bridge_def demo_records_def)
  have x: "dr_report (drain_snapshot (c_tag demo_controller) (c_userList demo_controller) 0 demo_records) = ?x" by code_simp
  have u: "uid_sum er_UploadBytes (record_uid (c_tag demo_controller) (edge_uids (c_userList demo_controller)) (trafficMinBytes 0)) 7 demo_records = 5"
    "uid_sum er_DownloadBytes (record_uid (c_tag demo_controller) (edge_uids (c_userList demo_controller)) (trafficMinBytes 0)) 7 demo_records = 6"
    by code_simp+
  have sm: "small (?sl @ ?x)" by (auto simp: small_def maxInt64_def)
  have "TrafficCall [\<lparr>ut_UID = 7, ut_Upload = 505, ut_Download = 706\<rparr>] True \<in> set calls" by (simp add: calls)
  from report_sums_both_sources [OF run t a s b sm [folded x] disjI2 [OF this], of 7] this run u
  show ?thesis by (auto simp: maxInt64_def)
qed

end
