(* ===== verification/Go_Strings.thy ===== *)
theory Go_Strings
  imports Go_Prelude
begin

text \<open>
  Laws of the string functions of the prelude: numbers printed by \<open>Itoa\<close> are read back by \<open>Atoi\<close>, a
  joined list is split into the same list, a cut finds the separator.
\<close>

section \<open>Printed numbers\<close>

lemma of_digit_char: "d < 10 \<Longrightarrow> of_char (digit_char d) = 48 + d"
  by (simp add: digit_char_def)

lemma is_digit_char [simp]: "d < 10 \<Longrightarrow> is_digit (digit_char d)"
  by (simp add: is_digit_def of_digit_char)

lemma digit_val_char [simp]: "d < 10 \<Longrightarrow> digit_val (digit_char d) = d"
  by (simp add: digit_val_def of_digit_char)

lemma nat_digits_ne [simp]: "nat_digits n \<noteq> []"
  by (subst nat_digits.simps) simp

lemma nat_digits_digits: "list_all is_digit (nat_digits n)"
proof (induction n rule: nat_digits.induct)
  case (1 n)
  then show ?case by (subst nat_digits.simps) (auto simp: is_digit_char [of "n mod 10"])
qed

lemma digits_val_snoc: "digits_val (s @ [c]) = 10 * digits_val s + digit_val c"
  by (simp add: digits_val_def)

lemma digits_val_nat_digits [simp]: "digits_val (nat_digits n) = n"
proof (induction n rule: nat_digits.induct)
  case (1 n)
  show ?case
  proof (cases "n < 10")
    case True
    then show ?thesis by (subst nat_digits.simps) (simp add: digits_val_def)
  next
    case False
    then show ?thesis using 1 by (subst nat_digits.simps) (simp add: digits_val_snoc)
  qed
qed

lemma digit_not: "is_digit c \<Longrightarrow> c \<noteq> CHR ''-'' \<and> c \<noteq> CHR ''+'' \<and> c \<noteq> CHR '','' \<and> c \<noteq> CHR '':'' \<and> c \<noteq> CHR '' '' \<and>
    c \<noteq> CHR ''|'' \<and> c \<noteq> CHR 0x22 \<and> c \<noteq> CHR 0x27 \<and> c \<noteq> CHR 0x09"
  by (auto simp: is_digit_def)

lemma hd_digits: "is_digit (hd (nat_digits n))"
  using nat_digits_digits [of n] by (cases "nat_digits n") auto

lemma Atoi_digits: "int n \<le> 2 ^ 63 - 1 \<Longrightarrow> Atoi (nat_digits n) = Some (int n)"
  using digit_not [OF hd_digits [of n]] nat_digits_digits [of n]
  by (simp add: Atoi_def Let_def in_int64_def)

lemma Atoi_Itoa: "in_int64 i \<Longrightarrow> Atoi (Itoa i) = Some i"
proof (cases "i < 0")
  case True
  assume "in_int64 i"
  with True show ?thesis using nat_digits_digits [of "nat (- i)"] by (simp add: Itoa_def Atoi_def Let_def)
next
  case False
  assume "in_int64 i"
  with False show ?thesis using Atoi_digits [of "nat i"] by (simp add: Itoa_def in_int64_def)
qed

lemma Itoa_digits: "0 \<le> i \<Longrightarrow> list_all is_digit (Itoa i)"
  by (simp add: Itoa_def nat_digits_digits)

lemma Itoa_ne [simp]: "Itoa i \<noteq> []"
  by (simp add: Itoa_def)

section \<open>Splitting\<close>

lemma SplitChar_ne [simp]: "SplitChar c s \<noteq> []"
  by (induction s) (auto split: list.splits)

lemma SplitChar_word: "c \<notin> set w \<Longrightarrow> SplitChar c w = [w]"
  by (induction w) auto

lemma SplitChar_append: "c \<notin> set w \<Longrightarrow> SplitChar c (w @ c # s) = w # SplitChar c s"
  by (induction w) auto

lemma SplitChar_Join: "list_all (\<lambda>w. c \<notin> set w) ws \<Longrightarrow> ws \<noteq> [] \<Longrightarrow> SplitChar c (Join ws [c]) = ws"
proof (induction ws)
  case (Cons w ws)
  then show ?case by (cases ws) (simp_all add: SplitChar_word SplitChar_append)
qed simp

lemma CutChar_append: "c \<notin> set a \<Longrightarrow> CutChar (a @ c # b) c = (a, b, True)"
proof -
  assume a: "c \<notin> set a"
  then have p: "\<And>x. x \<in> set a \<Longrightarrow> x \<noteq> c" by auto
  have "takeWhile (\<lambda>d. d \<noteq> c) (a @ c # b) = a" "dropWhile (\<lambda>d. d \<noteq> c) (a @ c # b) = c # b"
    using p by (simp_all add: takeWhile_append2 dropWhile_append2)
  then show ?thesis by (simp add: CutChar_def)
qed

lemma CutChar_absent: "c \<notin> set a \<Longrightarrow> CutChar a c = (a, [], False)"
  by (simp add: CutChar_def)

lemma Join_Cons: "ws \<noteq> [] \<Longrightarrow> Join (w # ws) sep = w @ sep @ Join ws sep"
  by (cases ws) simp_all

end
