(* ===== verification/Port_Forward.thy ===== *)
theory Port_Forward
  imports Panel_Types Go_Strings
begin

text \<open>
  The redirect rules of Hysteria port hopping (first half of \<open>node/port_forward.go\<close>). The panel gives a
  list of external ports per node; the code parses it, splits it into matchers of \<open>iptables\<close> and
  checks for conflicts between nodes. The meaning of a matcher is the set of destination ports it
  matches, so that correctness is stated on ports. Errors are values of a datatype instead of
  formatted strings.
\<close>

section \<open>Port lists\<close>

datatype port_error = EmptyPort | EmptyToken | InvalidPort string | PortOutOfRange string | InvalidRange string | ReversedRange string

record portForwardMatcher =
  pm_args :: "string list"
  pm_singlePort :: int

record portForwardRule =
  pr_matcher :: portForwardMatcher
  pr_targetPort :: int

record portForwardRange =
  rg_start :: int
  rg_end :: int

record allocatedPortForwardRange =
  al_nodeID :: int
  al_targetPort :: int
  al_rng :: portForwardRange

definition parsePortNumber :: "string \<Rightarrow> port_error + int" where
  "parsePortNumber token =
     (if token = [] then Inl EmptyPort
      else case Atoi token of
             None \<Rightarrow> Inl (InvalidPort token)
           | Some port \<Rightarrow> if port \<le> 0 \<or> port > 65535 then Inl (PortOutOfRange token) else Inr port)"

definition parsePortRange :: "string \<Rightarrow> port_error + int \<times> int" where
  "parsePortRange token =
     (case FieldsFunc token (\<lambda>r. r = CHR ''-'' \<or> r = CHR '':'') of
        [a, b] \<Rightarrow>
          (case parsePortNumber a of
             Inl err \<Rightarrow> Inl err
           | Inr s \<Rightarrow>
               (case parsePortNumber b of
                  Inl err \<Rightarrow> Inl err
                | Inr e \<Rightarrow> if s > e then Inl (ReversedRange token) else Inr (s, e)))
      | _ \<Rightarrow> Inl (InvalidRange token))"

definition single_matcher :: "string list \<Rightarrow> portForwardMatcher" where
  "single_matcher chunk =
     (if length chunk = 1
      then \<lparr>pm_args = [''--dport'', hd chunk], pm_singlePort = (case Atoi (hd chunk) of None \<Rightarrow> 0 | Some p \<Rightarrow> p)\<rparr>
      else \<lparr>pm_args = [''-m'', ''multiport'', ''--dports'', Join chunk '',''], pm_singlePort = 0\<rparr>)"

function flushSingles :: "string list \<Rightarrow> portForwardMatcher list" where
  "flushSingles singles =
     (if singles = [] then [] else single_matcher (take 15 singles) # flushSingles (drop 15 singles))"
  by pat_completeness auto
termination by (relation "measure length") auto

declare flushSingles.simps [simp del]

text \<open>The state of the parser: the pending single ports, the matchers and the ranges so far.\<close>

type_synonym parse_state = "string list \<times> portForwardMatcher list \<times> portForwardRange list"

definition addSingle :: "int \<Rightarrow> int \<Rightarrow> parse_state \<Rightarrow> parse_state" where
  "addSingle excludedPort port st =
     (case st of (singles, matchers, ranges) \<Rightarrow>
        if port = excludedPort then st
        else (singles @ [Itoa port], matchers, ranges @ [\<lparr>rg_start = port, rg_end = port\<rparr>]))"

definition range_matcher :: "int \<Rightarrow> int \<Rightarrow> portForwardMatcher" where
  "range_matcher s e = \<lparr>pm_args = [''--dport'', Itoa s @ '':'' @ Itoa e], pm_singlePort = 0\<rparr>"

definition appendRange :: "int \<Rightarrow> int \<Rightarrow> parse_state \<Rightarrow> parse_state" where
  "appendRange s e st =
     (case st of (singles, matchers, ranges) \<Rightarrow>
        (singles, matchers @ [range_matcher s e], ranges @ [\<lparr>rg_start = s, rg_end = e\<rparr>]))"

definition addRange :: "int \<Rightarrow> int \<Rightarrow> int \<Rightarrow> parse_state \<Rightarrow> parse_state" where
  "addRange excludedPort s e st =
     (if excludedPort > 0 \<and> s \<le> excludedPort \<and> excludedPort \<le> e then
        let st1 = (if s \<le> excludedPort - 1 then appendRange s (excludedPort - 1) st else st)
        in (if excludedPort + 1 \<le> e then appendRange (excludedPort + 1) e st1 else st1)
      else appendRange s e st)"

definition flush :: "parse_state \<Rightarrow> parse_state" where
  "flush st = (case st of (singles, matchers, ranges) \<Rightarrow> ([], matchers @ flushSingles singles, ranges))"

definition parse_token :: "int \<Rightarrow> string \<Rightarrow> parse_state \<Rightarrow> port_error + parse_state" where
  "parse_token excludedPort token st =
     (if token = [] then Inl EmptyToken
      else if ContainsAny token ''-:'' then
        (case parsePortRange token of
           Inl err \<Rightarrow> Inl err
         | Inr (s, e) \<Rightarrow>
             if s = e then Inr (addSingle excludedPort s st) else Inr (addRange excludedPort s e (flush st)))
      else case parsePortNumber token of
             Inl err \<Rightarrow> Inl err
           | Inr port \<Rightarrow> Inr (addSingle excludedPort port st))"

fun parse_tokens :: "int \<Rightarrow> string list \<Rightarrow> parse_state \<Rightarrow> port_error + parse_state" where
  "parse_tokens excludedPort [] st = Inr st"
| "parse_tokens excludedPort (token # tokens) st =
     (case parse_token excludedPort token st of
        Inl err \<Rightarrow> Inl err
      | Inr st' \<Rightarrow> parse_tokens excludedPort tokens st')"

definition clean_ports :: "string \<Rightarrow> string" where
  "clean_ports raw = RemoveChar CHR '' '' (TrimSpace raw)"

definition parsePortForwardMatchersAndRangesExcept ::
  "string \<Rightarrow> int \<Rightarrow> port_error + portForwardMatcher list \<times> portForwardRange list" where
  "parsePortForwardMatchersAndRangesExcept raw excludedPort =
     (if clean_ports raw = [] then Inl EmptyPort
      else case parse_tokens excludedPort (SplitChar CHR '','' (clean_ports raw)) ([], [], []) of
             Inl err \<Rightarrow> Inl err
           | Inr st \<Rightarrow> (case flush st of (_, matchers, ranges) \<Rightarrow> Inr (matchers, ranges)))"

definition parsePortForwardMatchersExcept :: "string \<Rightarrow> int \<Rightarrow> port_error + portForwardMatcher list" where
  "parsePortForwardMatchersExcept raw excludedPort =
     (case parsePortForwardMatchersAndRangesExcept raw excludedPort of
        Inl err \<Rightarrow> Inl err | Inr (matchers, _) \<Rightarrow> Inr matchers)"

definition parsePortForwardMatchers :: "string \<Rightarrow> port_error + portForwardMatcher list" where
  "parsePortForwardMatchers raw = parsePortForwardMatchersExcept raw 0"

section \<open>Rules\<close>

definition rg_contains :: "portForwardRange \<Rightarrow> int \<Rightarrow> bool" where
  "rg_contains r port \<longleftrightarrow> rg_start r \<le> port \<and> port \<le> rg_end r"

definition rg_overlaps :: "portForwardRange \<Rightarrow> portForwardRange \<Rightarrow> bool" where
  "rg_overlaps r other \<longleftrightarrow> rg_start r \<le> rg_end other \<and> rg_start other \<le> rg_end r"

definition isHysteriaNode :: "string \<Rightarrow> bool" where
  "isHysteriaNode nodeType \<longleftrightarrow> ToLower (TrimSpace nodeType) \<in> {''hysteria'', ''hysteria2''}"

text \<open>The description of a node the rules are built for: a Hysteria node with its common part.\<close>

definition hysteria_common :: "NodeInfo option \<Rightarrow> (NodeInfo \<times> CommonNode) option" where
  "hysteria_common info =
     (case info of
        None \<Rightarrow> None
      | Some i \<Rightarrow>
          (case ni_Common i of
             None \<Rightarrow> None
           | Some c \<Rightarrow> if isHysteriaNode (ni_Type i) then Some (i, c) else None))"

definition valid_port :: "int \<Rightarrow> bool" where
  "valid_port p \<longleftrightarrow> \<not> (p \<le> 0 \<or> p > 65535)"

definition collectHysteriaTargetPorts :: "NodeInfo option list \<Rightarrow> (int, unit) go_map" where
  "collectHysteriaTargetPorts infos =
     fold (\<lambda>info targets.
             case hysteria_common info of
               None \<Rightarrow> targets
             | Some (i, c) \<Rightarrow> if valid_port (cm_ServerPort c) then go_store (cm_ServerPort c) () targets else targets)
       infos []"

definition findPortForwardTargetPortConflict ::
  "portForwardRange list \<Rightarrow> int \<Rightarrow> (int, unit) go_map \<Rightarrow> int option" where
  "findPortForwardTargetPortConflict ranges targetPort targetPorts =
     find (\<lambda>port. port \<noteq> targetPort \<and> list_ex (\<lambda>r. rg_contains r port) ranges) (map fst (go_range targetPorts))"

definition findPortForwardRangeConflict ::
  "portForwardRange list \<Rightarrow> int \<Rightarrow> allocatedPortForwardRange list \<Rightarrow> allocatedPortForwardRange option" where
  "findPortForwardRangeConflict ranges targetPort allocated =
     find (\<lambda>_. True)
       (concat (map (\<lambda>candidate. filter (\<lambda>a. al_targetPort a \<noteq> targetPort \<and> rg_overlaps candidate (al_rng a)) allocated) ranges))"

datatype rule_error =
    InvalidServerPort int int
  | InvalidPortList int string port_error
  | OverlapsTarget int string int
  | OverlapsNode int string int portForwardRange

text \<open>Rules, errors, the keys of the rules and the allocated ranges.\<close>

type_synonym build_state =
  "portForwardRule list \<times> rule_error list \<times> (string, unit) go_map \<times> allocatedPortForwardRange list"

definition rule_key :: "int \<Rightarrow> portForwardMatcher \<Rightarrow> string" where
  "rule_key targetPort matcher = Itoa targetPort @ ''|'' @ Join (pm_args matcher) [CHR 0x00]"

definition add_rule ::
  "int \<Rightarrow> portForwardMatcher \<Rightarrow> portForwardRule list \<times> (string, unit) go_map \<Rightarrow> portForwardRule list \<times> (string, unit) go_map" where
  "add_rule targetPort matcher st =
     (case st of (rules, seen) \<Rightarrow>
        if go_load seen (rule_key targetPort matcher) \<noteq> None then st
        else (rules @ [\<lparr>pr_matcher = matcher, pr_targetPort = targetPort\<rparr>], go_store (rule_key targetPort matcher) () seen))"

definition external_port :: "CommonNode \<Rightarrow> string" where
  "external_port c =
     (let p = TrimSpace (cm_Port c) in if p = [] then TrimSpace (cm_Ports c) else p)"

definition build_node :: "(int, unit) go_map \<Rightarrow> NodeInfo option \<Rightarrow> build_state \<Rightarrow> build_state" where
  "build_node targetPorts info st =
     (case (hysteria_common info, st) of
        (None, _) \<Rightarrow> st
      | (Some (i, c), (rules, errs, seen, allocated)) \<Rightarrow>
          let targetPort = cm_ServerPort c; externalPort = external_port c
          in if \<not> valid_port targetPort then (rules, errs @ [InvalidServerPort (ni_Id i) targetPort], seen, allocated)
             else if externalPort = [] then st
             else case parsePortForwardMatchersAndRangesExcept externalPort targetPort of
                    Inl err \<Rightarrow> (rules, errs @ [InvalidPortList (ni_Id i) externalPort err], seen, allocated)
                  | Inr (matchers, ranges) \<Rightarrow>
                      (case findPortForwardTargetPortConflict ranges targetPort targetPorts of
                         Some port \<Rightarrow> (rules, errs @ [OverlapsTarget (ni_Id i) externalPort port], seen, allocated)
                       | None \<Rightarrow>
                           (case findPortForwardRangeConflict ranges targetPort allocated of
                              Some conflict \<Rightarrow>
                                (rules, errs @ [OverlapsNode (ni_Id i) externalPort (al_nodeID conflict) (al_rng conflict)], seen, allocated)
                            | None \<Rightarrow>
                                (case fold (add_rule targetPort) matchers (rules, seen) of
                                   (rules', seen') \<Rightarrow>
                                     (rules', errs, seen',
                                      allocated @ map (\<lambda>r. \<lparr>al_nodeID = ni_Id i, al_targetPort = targetPort, al_rng = r\<rparr>) ranges)))))"

definition buildHysteriaPortForwardRules :: "NodeInfo option list \<Rightarrow> portForwardRule list \<times> rule_error list" where
  "buildHysteriaPortForwardRules infos =
     (case fold (build_node (collectHysteriaTargetPorts infos)) infos ([], [], [], []) of
        (rules, errs, _, _) \<Rightarrow> (rules, errs))"

section \<open>The ports a matcher matches\<close>

text \<open>The port arguments of \<open>iptables\<close>: one port or an inclusive range; \<open>multiport\<close> takes a list of them.\<close>

definition dport_spec :: "string \<Rightarrow> int \<Rightarrow> bool" where
  "dport_spec s p =
     (case CutChar s CHR '':'' of
        (a, b, found) \<Rightarrow>
          if found then (case (Atoi a, Atoi b) of (Some x, Some y) \<Rightarrow> x \<le> p \<and> p \<le> y | _ \<Rightarrow> False)
          else Atoi s = Some p)"

definition args_match :: "string list \<Rightarrow> int \<Rightarrow> bool" where
  "args_match args p =
     (if length args = 2 \<and> args ! 0 = ''--dport'' then dport_spec (args ! 1) p
      else if length args = 4 \<and> take 3 args = [''-m'', ''multiport'', ''--dports'']
      then list_ex (\<lambda>w. dport_spec w p) (SplitChar CHR '','' (args ! 3))
      else False)"

definition matched :: "portForwardMatcher list \<Rightarrow> int \<Rightarrow> bool" where
  "matched ms p = list_ex (\<lambda>m. args_match (pm_args m) p) ms"

definition covered :: "portForwardRange list \<Rightarrow> int \<Rightarrow> bool" where
  "covered rs p = list_ex (\<lambda>r. rg_contains r p) rs"

text \<open>The ports a token of the panel's list stands for.\<close>

definition token_port :: "string \<Rightarrow> int \<Rightarrow> bool" where
  "token_port token p =
     (if ContainsAny token ''-:''
      then (case parsePortRange token of Inl _ \<Rightarrow> False | Inr (s, e) \<Rightarrow> s \<le> p \<and> p \<le> e)
      else parsePortNumber token = Inr p)"

definition listed_port :: "string \<Rightarrow> int \<Rightarrow> bool" where
  "listed_port raw p = list_ex (\<lambda>t. token_port t p) (SplitChar CHR '','' (clean_ports raw))"

lemma matched_simps [simp]:
  "matched [] p = False" "matched (m # ms) p = (args_match (pm_args m) p \<or> matched ms p)"
  "matched (ms @ ns) p = (matched ms p \<or> matched ns p)"
  by (simp_all add: matched_def)

lemma covered_simps [simp]:
  "covered [] p = False" "covered (r # rs) p = (rg_contains r p \<or> covered rs p)"
  "covered (rs @ ss) p = (covered rs p \<or> covered ss p)"
  by (simp_all add: covered_def)

lemma valid_port_int64: "valid_port p \<Longrightarrow> in_int64 p"
  by (simp add: valid_port_def in_int64_def)

lemma Itoa_port: "valid_port q \<Longrightarrow> Atoi (Itoa q) = Some q"
  by (rule Atoi_Itoa [OF valid_port_int64])

lemma Itoa_port_chars:
  assumes "valid_port q"
  shows "CHR '','' \<notin> set (Itoa q)" "CHR '':'' \<notin> set (Itoa q)" "CHR ''|'' \<notin> set (Itoa q)"
  using Itoa_digits [of q] assms digit_not by (auto simp: valid_port_def list_all_iff)

lemma dport_single: "valid_port q \<Longrightarrow> dport_spec (Itoa q) p \<longleftrightarrow> p = q"
  by (auto simp: dport_spec_def CutChar_absent Itoa_port_chars Itoa_port)

lemma dport_range: "valid_port a \<Longrightarrow> valid_port b \<Longrightarrow> dport_spec (Itoa a @ '':'' @ Itoa b) p \<longleftrightarrow> a \<le> p \<and> p \<le> b"
  by (simp add: dport_spec_def CutChar_append Itoa_port_chars Itoa_port)

lemma range_matcher_ports: "valid_port a \<Longrightarrow> valid_port b \<Longrightarrow> args_match (pm_args (range_matcher a b)) p \<longleftrightarrow> a \<le> p \<and> p \<le> b"
  using dport_range [of a b p] by (simp add: args_match_def range_matcher_def)

lemma single_matcher_ports:
  assumes "list_all valid_port ps" "ps \<noteq> []"
  shows "args_match (pm_args (single_matcher (map Itoa ps))) p \<longleftrightarrow> p \<in> set ps"
proof (cases "length ps = 1")
  case True
  then obtain q where "ps = [q]" by (auto simp: length_Suc_conv)
  then show ?thesis using assms(1) by (auto simp: args_match_def single_matcher_def dport_single)
next
  case False
  have "SplitChar CHR '','' (Join (map Itoa ps) '','') = map Itoa ps"
    using assms by (intro SplitChar_Join) (auto simp: list_all_iff Itoa_port_chars)
  moreover have "list_ex (\<lambda>w. dport_spec w p) (map Itoa ps) \<longleftrightarrow> p \<in> set ps"
    using assms(1) by (auto simp: list_ex_iff list_all_iff dport_single)
  ultimately show ?thesis using False by (simp add: args_match_def single_matcher_def)
qed

lemma flushSingles_ports:
  "list_all valid_port ps \<Longrightarrow> matched (flushSingles (map Itoa ps)) p \<longleftrightarrow> p \<in> set ps"
proof (induction ps rule: length_induct)
  case (1 ps)
  show ?case
  proof (cases "ps = []")
    case True
    then show ?thesis by (simp add: flushSingles.simps)
  next
    case False
    have t: "list_all valid_port (take 15 ps)" and d: "list_all valid_port (drop 15 ps)"
      using 1(2) by (auto simp: list_all_iff dest: in_set_takeD in_set_dropD)
    have ih: "matched (flushSingles (map Itoa (drop 15 ps))) p \<longleftrightarrow> p \<in> set (drop 15 ps)"
      using 1(1) d False by auto
    have h: "args_match (pm_args (single_matcher (map Itoa (take 15 ps)))) p \<longleftrightarrow> p \<in> set (take 15 ps)"
      using single_matcher_ports [OF t, of p] False by simp
    have "set ps = set (take 15 ps) \<union> set (drop 15 ps)" by (metis append_take_drop_id set_append)
    then show ?thesis using False ih h by (subst flushSingles.simps) (simp add: take_map drop_map)
  qed
qed

text \<open>The bound of \<open>multiport\<close>: at most fifteen ports in one rule.\<close>

definition multiport_ok :: "portForwardMatcher \<Rightarrow> bool" where
  "multiport_ok m \<longleftrightarrow>
     (take 3 (pm_args m) = [''-m'', ''multiport'', ''--dports''] \<longrightarrow> length (SplitChar CHR '','' (pm_args m ! 3)) \<le> 15)"

text \<open>Words that survive being printed in a line and read again.\<close>

definition plain_word :: "string \<Rightarrow> bool" where
  "plain_word w \<longleftrightarrow> w \<noteq> [] \<and> list_all (\<lambda>c. \<not> is_space c \<and> c \<notin> {CHR 0x00, CHR 0x22, CHR 0x27}) w"

definition matcher_ok :: "portForwardMatcher \<Rightarrow> bool" where
  "matcher_ok m \<longleftrightarrow> multiport_ok m \<and> pm_args m \<noteq> [] \<and> list_all plain_word (pm_args m) \<and> ''udp'' \<notin> set (pm_args m)"

lemma digit_word_not_udp: "w \<noteq> [] \<Longrightarrow> is_digit (hd w) \<Longrightarrow> w \<noteq> ''udp''"
  by (auto simp: is_digit_def)

lemma hd_Join: "ws \<noteq> [] \<Longrightarrow> hd ws \<noteq> [] \<Longrightarrow> Join ws sep \<noteq> [] \<and> hd (Join ws sep) = hd (hd ws)"
  by (cases ws; cases "tl ws = []") (auto simp: Join_Cons)

lemma hd_Itoa: "valid_port q \<Longrightarrow> is_digit (hd (Itoa q))"
  by (simp add: valid_port_def Itoa_def hd_digits)

lemma plain_digits: "w \<noteq> [] \<Longrightarrow> list_all is_digit w \<Longrightarrow> plain_word w"
  by (auto simp: plain_word_def list_all_iff is_digit_def is_space_def)

lemma plain_Itoa [simp]: "valid_port q \<Longrightarrow> plain_word (Itoa q)"
  by (simp add: plain_digits Itoa_digits valid_port_def)

lemma plain_append [simp]: "plain_word u \<Longrightarrow> plain_word w \<Longrightarrow> plain_word (u @ w)"
  by (simp add: plain_word_def)

lemma plain_Join: "list_all plain_word ws \<Longrightarrow> ws \<noteq> [] \<Longrightarrow> plain_word (Join ws '','')"
proof (induction ws)
  case (Cons w ws)
  then show ?case by (cases "ws = []") (auto simp: Join_Cons plain_word_def is_space_def)
qed simp

lemma single_matcher_bound:
  assumes "list_all valid_port ps" "ps \<noteq> []" "length ps \<le> 15" shows "matcher_ok (single_matcher (map Itoa ps))"
proof -
  have "plain_word (Join (map Itoa ps) '','')" using assms(1,2) by (intro plain_Join) (auto simp: list_all_iff)
  moreover have "plain_word (hd (map Itoa ps))" using assms(1,2) by (cases ps) auto
  moreover have "list_all plain_word [''--dport'', ''-m'', ''multiport'', ''--dports'']" by code_simp
  moreover have "hd (map Itoa ps) \<noteq> ''udp''"
    using assms(1,2) by (cases ps) (auto dest: digit_word_not_udp [OF Itoa_ne hd_Itoa])
  moreover have "Join (map Itoa ps) '','' \<noteq> ''udp''"
    using assms(1,2) hd_Join [of "map Itoa ps" "'',''"] by (intro digit_word_not_udp) (cases ps; simp add: hd_Itoa)+
  moreover have "SplitChar CHR '','' (Join (map Itoa ps) '','') = map Itoa ps"
    using assms by (intro SplitChar_Join) (auto simp: list_all_iff Itoa_port_chars)
  ultimately show ?thesis using assms by (simp add: matcher_ok_def multiport_ok_def single_matcher_def)
qed

lemma flushSingles_bound: "list_all valid_port ps \<Longrightarrow> list_all matcher_ok (flushSingles (map Itoa ps))"
proof (induction ps rule: length_induct)
  case (1 ps)
  show ?case
  proof (cases "ps = []")
    case True
    then show ?thesis by (simp add: flushSingles.simps)
  next
    case False
    have t: "list_all valid_port (take 15 ps)" and d: "list_all valid_port (drop 15 ps)"
      using 1(2) by (auto simp: list_all_iff dest: in_set_takeD in_set_dropD)
    have "list_all matcher_ok (flushSingles (map Itoa (drop 15 ps)))" using 1(1) d False by auto
    moreover have "matcher_ok (single_matcher (map Itoa (take 15 ps)))"
      using False by (intro single_matcher_bound [OF t]) auto
    ultimately show ?thesis using False by (subst flushSingles.simps) (simp add: take_map drop_map)
  qed
qed

section \<open>Parsing is exact\<close>

definition range_ok :: "portForwardRange \<Rightarrow> bool" where
  "range_ok r \<longleftrightarrow> valid_port (rg_start r) \<and> valid_port (rg_end r) \<and> rg_start r \<le> rg_end r"

text \<open>Between two tokens: pending ports and matchers together match what the ranges cover.\<close>

definition parse_inv :: "(int \<Rightarrow> bool) \<Rightarrow> parse_state \<Rightarrow> bool" where
  "parse_inv D st \<longleftrightarrow>
     (case st of (singles, ms, rs) \<Rightarrow>
        \<exists>ps. singles = map Itoa ps \<and> list_all valid_port ps \<and> list_all range_ok rs \<and> list_all matcher_ok ms \<and>
          (\<forall>p. covered rs p \<longleftrightarrow> p \<in> set ps \<or> matched ms p) \<and> (\<forall>p. covered rs p \<longleftrightarrow> D p))"

lemma parsePortNumber_valid: "parsePortNumber t = Inr p \<Longrightarrow> valid_port p"
  by (auto simp: parsePortNumber_def valid_port_def split: if_splits option.splits)

lemma parsePortRange_valid: "parsePortRange t = Inr (a, b) \<Longrightarrow> valid_port a \<and> valid_port b \<and> a \<le> b"
  by (auto simp: parsePortRange_def dest: parsePortNumber_valid split: list.splits sum.splits if_splits)

lemma parse_inv_cong: "parse_inv D st \<Longrightarrow> (\<And>p. D p \<longleftrightarrow> E p) \<Longrightarrow> parse_inv E st"
  by (auto simp: parse_inv_def)

lemma addSingle_inv:
  assumes "parse_inv D st" "valid_port q" shows "parse_inv (\<lambda>p. D p \<or> p = q \<and> p \<noteq> excl) (addSingle excl q st)"
proof -
  obtain singles ms rs where st: "st = (singles, ms, rs)" by (cases st)
  obtain ps where ps: "singles = map Itoa ps" "list_all valid_port ps" "list_all range_ok rs" "list_all matcher_ok ms"
    "\<forall>p. covered rs p \<longleftrightarrow> p \<in> set ps \<or> matched ms p" "\<forall>p. covered rs p \<longleftrightarrow> D p"
    using assms(1) by (auto simp: parse_inv_def st)
  show ?thesis
  proof (cases "q = excl")
    case True
    then show ?thesis using parse_inv_cong [OF assms(1), of "\<lambda>p. D p \<or> p = q \<and> p \<noteq> excl"] by (simp add: addSingle_def st)
  next
    case False
    have "singles @ [Itoa q] = map Itoa (ps @ [q])" by (simp add: ps)
    then show ?thesis
      using False ps assms(2)
      by (auto simp: addSingle_def st parse_inv_def range_ok_def rg_contains_def intro!: exI [of _ "ps @ [q]"])
  qed
qed

lemma flush_inv: "parse_inv D st \<Longrightarrow> parse_inv D (flush st)"
  by (auto simp: parse_inv_def flush_def flushSingles_ports flushSingles_bound intro!: exI [of _ "[]"])

lemma appendRange_inv:
  assumes "parse_inv D st" "valid_port a" "valid_port b" "a \<le> b"
  shows "parse_inv (\<lambda>p. D p \<or> a \<le> p \<and> p \<le> b) (appendRange a b st)"
proof -
  have "list_all plain_word ['':'', ''--dport'']" by code_simp
  moreover have "Itoa a @ '':'' @ Itoa b \<noteq> ''udp''"
    using assms(2) by (intro digit_word_not_udp) (simp_all add: hd_Itoa)
  ultimately have "matcher_ok (range_matcher a b)"
    using assms(2,3) plain_append [of "Itoa a" "'':'' @ Itoa b"] plain_append [of "'':''" "Itoa b"]
    by (simp add: matcher_ok_def multiport_ok_def range_matcher_def)
  then show ?thesis
    using assms by (auto simp: parse_inv_def appendRange_def range_ok_def rg_contains_def range_matcher_ports)
qed

lemma addRange_inv:
  assumes "parse_inv D st" "valid_port a" "valid_port b" "a \<le> b"
  shows "parse_inv (\<lambda>p. D p \<or> (a \<le> p \<and> p \<le> b) \<and> p \<noteq> excl) (addRange excl a b st)"
proof (cases "excl > 0 \<and> a \<le> excl \<and> excl \<le> b")
  case False
  then have "addRange excl a b st = appendRange a b st" by (auto simp: addRange_def)
  moreover have "D p \<or> a \<le> p \<and> p \<le> b \<longleftrightarrow> D p \<or> (a \<le> p \<and> p \<le> b) \<and> p \<noteq> excl" for p
    using False assms(2) by (auto simp: valid_port_def)
  note parse_inv_cong [OF appendRange_inv [OF assms] this]
  ultimately show ?thesis by simp
next
  case True
  define st1 where "st1 = (if a \<le> excl - 1 then appendRange a (excl - 1) st else st)"
  have v: "valid_port excl" using True assms(2,3) by (simp add: valid_port_def)
  have 1: "parse_inv (\<lambda>p. D p \<or> a \<le> p \<and> p < excl) st1"
  proof (cases "a \<le> excl - 1")
    case lo: True
    have "valid_port (excl - 1)" using lo v assms(2) by (simp add: valid_port_def)
    show ?thesis unfolding st1_def using lo by (simp, intro parse_inv_cong [OF appendRange_inv [OF assms(1,2) \<open>valid_port (excl - 1)\<close> lo]]) auto
  next
    case False
    then have "D p \<longleftrightarrow> D p \<or> a \<le> p \<and> p < excl" for p by auto
    from parse_inv_cong [OF assms(1) this] show ?thesis using False by (simp add: st1_def)
  qed
  have r: "addRange excl a b st = (if excl + 1 \<le> b then appendRange (excl + 1) b st1 else st1)"
    using True by (simp add: addRange_def st1_def Let_def)
  show ?thesis
  proof (cases "excl + 1 \<le> b")
    case hi: True
    have "valid_port (excl + 1)" using hi v assms(3) by (simp add: valid_port_def)
    note 2 = appendRange_inv [OF 1 this assms(3) hi]
    have "(D p \<or> a \<le> p \<and> p < excl) \<or> excl + 1 \<le> p \<and> p \<le> b \<longleftrightarrow> D p \<or> (a \<le> p \<and> p \<le> b) \<and> p \<noteq> excl" for p
      using True by auto
    from parse_inv_cong [OF 2 this] show ?thesis using hi by (simp add: r)
  next
    case False
    then have "D p \<or> a \<le> p \<and> p < excl \<longleftrightarrow> D p \<or> (a \<le> p \<and> p \<le> b) \<and> p \<noteq> excl" for p
      using True by auto
    from parse_inv_cong [OF 1 this] show ?thesis using False by (simp add: r)
  qed
qed

lemma parse_token_inv:
  assumes "parse_inv D st" "parse_token excl t st = Inr st'"
  shows "parse_inv (\<lambda>p. D p \<or> token_port t p \<and> p \<noteq> excl) st'"
proof (cases "ContainsAny t ''-:''")
  case True
  then obtain a b where r: "parsePortRange t = Inr (a, b)"
    using assms(2) by (auto simp: parse_token_def split: if_splits sum.splits)
  have v: "valid_port a" "valid_port b" "a \<le> b" using parsePortRange_valid [OF r] by auto
  show ?thesis
  proof (cases "a = b")
    case eq: True
    then have "st' = addSingle excl a st" using assms(2) True r by (auto simp: parse_token_def split: if_splits)
    moreover have "token_port t p \<longleftrightarrow> p = a" for p using True r eq by (auto simp: token_port_def)
    ultimately show ?thesis using addSingle_inv [OF assms(1) v(1), of excl] by simp
  next
    case False
    then have "st' = addRange excl a b (flush st)" using assms(2) True r by (auto simp: parse_token_def split: if_splits)
    moreover have "token_port t p \<longleftrightarrow> a \<le> p \<and> p \<le> b" for p using True r by (simp add: token_port_def)
    ultimately show ?thesis using addRange_inv [OF flush_inv [OF assms(1)] v, of excl] by simp
  qed
next
  case False
  then obtain q where q: "parsePortNumber t = Inr q" "st' = addSingle excl q st"
    using assms(2) by (auto simp: parse_token_def split: if_splits sum.splits)
  moreover have "token_port t p \<longleftrightarrow> p = q" for p using False q(1) by (auto simp: token_port_def)
  ultimately show ?thesis using addSingle_inv [OF assms(1) parsePortNumber_valid [OF q(1)], of excl] by simp
qed

lemma parse_tokens_inv:
  "parse_inv D st \<Longrightarrow> parse_tokens excl ts st = Inr st' \<Longrightarrow>
   parse_inv (\<lambda>p. D p \<or> list_ex (\<lambda>t. token_port t p) ts \<and> p \<noteq> excl) st'"
proof (induction ts arbitrary: D st)
  case Nil
  then show ?case by simp
next
  case (Cons t ts)
  obtain st1 where 1: "parse_token excl t st = Inr st1" "parse_tokens excl ts st1 = Inr st'"
    using Cons.prems(2) by (auto split: sum.splits)
  show ?case using Cons.IH [OF parse_token_inv [OF Cons.prems(1) 1(1)] 1(2)] by (rule parse_inv_cong) auto
qed

lemma parse_exact:
  assumes "parsePortForwardMatchersAndRangesExcept raw excl = Inr (ms, rs)"
  shows "covered rs p \<longleftrightarrow> listed_port raw p \<and> p \<noteq> excl" and "matched ms p \<longleftrightarrow> covered rs p"
    and "list_all range_ok rs" and "list_all matcher_ok ms"
proof -
  obtain st where st: "parse_tokens excl (SplitChar CHR '','' (clean_ports raw)) ([], [], []) = Inr st" "flush st = ([], ms, rs)"
    using assms by (auto simp: parsePortForwardMatchersAndRangesExcept_def flush_def split: if_splits sum.splits prod.splits)
  have "parse_inv (\<lambda>_. False) ([], [], [])" by (simp add: parse_inv_def)
  from flush_inv [OF parse_tokens_inv [OF this st(1)]] st(2)
  show "covered rs p \<longleftrightarrow> listed_port raw p \<and> p \<noteq> excl" "matched ms p \<longleftrightarrow> covered rs p" "list_all range_ok rs" "list_all matcher_ok ms"
    by (auto simp: parse_inv_def listed_port_def)
qed

section \<open>Rules do not collide\<close>

definition rule_matches :: "portForwardRule \<Rightarrow> int \<Rightarrow> bool" where
  "rule_matches r p = args_match (pm_args (pr_matcher r)) p"

text \<open>The server port of a Hysteria node with a valid one.\<close>

definition target_port :: "NodeInfo option list \<Rightarrow> int \<Rightarrow> bool" where
  "target_port infos p \<longleftrightarrow>
     list_ex (\<lambda>info. case hysteria_common info of None \<Rightarrow> False | Some (i, c) \<Rightarrow> valid_port (cm_ServerPort c) \<and> cm_ServerPort c = p) infos"

lemma collect_targets: "go_load (collectHysteriaTargetPorts infos) p \<noteq> None \<longleftrightarrow> target_port infos p"
proof -
  have "go_load (fold (\<lambda>info targets. case hysteria_common info of None \<Rightarrow> targets
          | Some (i, c) \<Rightarrow> if valid_port (cm_ServerPort c) then go_store (cm_ServerPort c) () targets else targets) infos m) p \<noteq> None
        \<longleftrightarrow> go_load m p \<noteq> None \<or> target_port infos p" for m
    by (induction infos arbitrary: m) (auto simp: target_port_def split: option.splits)
  from this [of "[]"] show ?thesis by (simp add: collectHysteriaTargetPorts_def)
qed

lemma no_target_conflict:
  assumes "findPortForwardTargetPortConflict rs t tp = None" "go_load tp p \<noteq> None" "p \<noteq> t" shows "\<not> covered rs p"
proof -
  obtain x where "go_load tp p = Some x" using assms(2) by auto
  then have "p \<in> set (map fst (go_range tp))" using go_load_Some_in by (force simp: go_range_def)
  then show ?thesis
    using assms(1,3) by (auto simp: findPortForwardTargetPortConflict_def find_None_iff covered_def simp del: set_map)
qed

lemma find_first_None: "find (\<lambda>_. True) xs = None \<longleftrightarrow> xs = []"
  by (cases xs) auto

lemma no_range_conflict:
  assumes "findPortForwardRangeConflict rs t al = None" "a \<in> set al" "al_targetPort a \<noteq> t" "rg_contains (al_rng a) p"
  shows "\<not> covered rs p"
proof
  assume "covered rs p"
  then obtain r where r: "r \<in> set rs" "rg_contains r p" by (auto simp: covered_def list_ex_iff)
  then have "rg_overlaps r (al_rng a)" using assms(4) by (auto simp: rg_contains_def rg_overlaps_def)
  then have "a \<in> set (concat (map (\<lambda>candidate. filter (\<lambda>a. al_targetPort a \<noteq> t \<and> rg_overlaps candidate (al_rng a)) al) rs))"
    using r assms(2,3) by auto
  then show False using assms(1) unfolding findPortForwardRangeConflict_def find_first_None by simp
qed

text \<open>
  The state of the builder: every rule matches only allocated ports of its target, allocated ports
  of different targets are apart and none of them is a server port; every key of \<open>seen\<close> has a rule.
\<close>

definition alloc_port :: "allocatedPortForwardRange list \<Rightarrow> int \<Rightarrow> int \<Rightarrow> bool" where
  "alloc_port al t p \<longleftrightarrow> list_ex (\<lambda>a. al_targetPort a = t \<and> rg_contains (al_rng a) p) al"

definition build_inv :: "(int, unit) go_map \<Rightarrow> build_state \<Rightarrow> bool" where
  "build_inv tp st \<longleftrightarrow>
     (case st of (rules, errs, seen, al) \<Rightarrow>
        (\<forall>r \<in> set rules. valid_port (pr_targetPort r) \<and> matcher_ok (pr_matcher r) \<and>
           (\<forall>p. rule_matches r p \<longrightarrow> alloc_port al (pr_targetPort r) p)) \<and>
        (\<forall>t u p. alloc_port al t p \<longrightarrow> alloc_port al u p \<longrightarrow> t = u) \<and>
        (\<forall>t p. alloc_port al t p \<longrightarrow> go_load tp p = None) \<and>
        (\<forall>k. go_load seen k \<noteq> None \<longrightarrow> (\<exists>r \<in> set rules. k = rule_key (pr_targetPort r) (pr_matcher r))))"

lemma add_rule_step:
  "add_rule t m (rules, seen) =
     (if go_load seen (rule_key t m) = None
      then (rules @ [\<lparr>pr_matcher = m, pr_targetPort = t\<rparr>], go_store (rule_key t m) () seen) else (rules, seen))"
  by (simp add: add_rule_def)

lemma add_rules:
  "fold (add_rule t) ms (rules, seen) = (rules', seen') \<Longrightarrow>
   set rules \<subseteq> set rules' \<and>
   (\<forall>r \<in> set rules'. r \<in> set rules \<or> pr_targetPort r = t \<and> pr_matcher r \<in> set ms) \<and>
   (\<forall>k. go_load seen k \<noteq> None \<longrightarrow> go_load seen' k \<noteq> None) \<and>
   (\<forall>m \<in> set ms. go_load seen' (rule_key t m) \<noteq> None)"
proof (induction ms arbitrary: rules seen)
  case (Cons m ms)
  show ?case
  proof (cases "go_load seen (rule_key t m) = None")
    case True
    then have "fold (add_rule t) ms (rules @ [\<lparr>pr_matcher = m, pr_targetPort = t\<rparr>], go_store (rule_key t m) () seen) = (rules', seen')"
      using Cons.prems by (simp add: add_rule_step)
    note ih = Cons.IH [OF this]
    have "go_load seen' k \<noteq> None" if "go_load seen k \<noteq> None" for k
      using ih [THEN conjunct2, THEN conjunct2, THEN conjunct1, THEN spec [of _ k]] that by simp
    moreover have "go_load seen' (rule_key t m) \<noteq> None"
      using ih [THEN conjunct2, THEN conjunct2, THEN conjunct1, THEN spec [of _ "rule_key t m"]] by simp
    moreover have "set rules \<subseteq> set rules'" using ih [THEN conjunct1] by simp
    moreover have "r \<in> set rules \<or> pr_targetPort r = t \<and> pr_matcher r \<in> set (m # ms)" if "r \<in> set rules'" for r
      using ih [THEN conjunct2, THEN conjunct1, THEN bspec, OF that] by auto
    ultimately show ?thesis using ih by simp
  next
    case False
    then have "fold (add_rule t) ms (rules, seen) = (rules', seen')" using Cons.prems by (simp add: add_rule_step)
    from Cons.IH [OF this] False show ?thesis by auto
  qed
qed simp

lemma add_rules_seen:
  "fold (add_rule t) ms (rules, seen) = (rules', seen') \<Longrightarrow> go_load seen' k \<noteq> None \<Longrightarrow>
   go_load seen k \<noteq> None \<or> (\<exists>r \<in> set rules'. k = rule_key (pr_targetPort r) (pr_matcher r))"
proof (induction ms arbitrary: rules seen)
  case (Cons m ms)
  show ?case
  proof (cases "go_load seen (rule_key t m) = None")
    case True
    let ?r = "\<lparr>pr_matcher = m, pr_targetPort = t\<rparr>"
    have f: "fold (add_rule t) ms (rules @ [?r], go_store (rule_key t m) () seen) = (rules', seen')"
      using True Cons.prems(1) by (simp add: add_rule_step)
    have "?r \<in> set rules'" using add_rules [OF f] by simp
    then have "\<exists>r \<in> set rules'. rule_key t m = rule_key (pr_targetPort r) (pr_matcher r)" by (rule bexI [rotated]) simp
    then show ?thesis using Cons.IH [OF f Cons.prems(2)] by (cases "k = rule_key t m") simp_all
  next
    case False
    then have "fold (add_rule t) ms (rules, seen) = (rules', seen')" using Cons.prems(1) by (simp add: add_rule_step)
    from Cons.IH [OF this Cons.prems(2)] show ?thesis .
  qed
qed simp

lemma Join_NUL_inj:
  assumes "list_all plain_word a" "a \<noteq> []" "list_all plain_word b" "b \<noteq> []" "Join a [CHR 0x00] = Join b [CHR 0x00]"
  shows "a = b"
proof -
  have nul: "list_all (\<lambda>w. CHR 0x00 \<notin> set w) ws" if "list_all plain_word ws" for ws
    using that by (auto simp: plain_word_def list_all_iff)
  have "a = SplitChar CHR 0x00 (Join a [CHR 0x00])" by (rule SplitChar_Join [OF nul [OF assms(1)] assms(2), symmetric])
  also have "\<dots> = SplitChar CHR 0x00 (Join b [CHR 0x00])" by (simp only: assms(5))
  also have "\<dots> = b" by (rule SplitChar_Join [OF nul [OF assms(3)] assms(4)])
  finally show ?thesis .
qed

lemma rule_key_inj:
  assumes "rule_key t m = rule_key u n" "valid_port t" "valid_port u" "matcher_ok m" "matcher_ok n"
  shows "t = u \<and> pm_args m = pm_args n"
proof -
  have bar: "CHR ''|'' \<notin> set (Itoa t)" "CHR ''|'' \<notin> set (Itoa u)"
    using assms(2,3) by (simp_all add: Itoa_port_chars)
  have t: "CutChar (rule_key t m) CHR ''|'' = (Itoa t, Join (pm_args m) [CHR 0x00], True)"
    using CutChar_append [OF bar(1)] by (simp add: rule_key_def)
  have u: "CutChar (rule_key u n) CHR ''|'' = (Itoa u, Join (pm_args n) [CHR 0x00], True)"
    using CutChar_append [OF bar(2)] by (simp add: rule_key_def)
  have eq: "Itoa t = Itoa u" "Join (pm_args m) [CHR 0x00] = Join (pm_args n) [CHR 0x00]"
    using t u unfolding assms(1) by auto
  have "Some t = Some u" using Itoa_port [OF assms(2)] Itoa_port [OF assms(3)] unfolding eq(1) by (rule trans [OF sym])
  moreover have "pm_args m = pm_args n"
    using assms(4,5) by (intro Join_NUL_inj [OF _ _ _ _ eq(2)]) (simp_all add: matcher_ok_def)
  ultimately show ?thesis by simp
qed

lemma alloc_port_append:
  "alloc_port (al @ map (\<lambda>r. \<lparr>al_nodeID = n, al_targetPort = t, al_rng = r\<rparr>) rs) u p \<longleftrightarrow>
   alloc_port al u p \<or> u = t \<and> covered rs p"
  by (auto simp: alloc_port_def covered_def list_ex_iff bex_Un)

lemma no_range_conflict_alloc:
  assumes "findPortForwardRangeConflict rs t al = None" "alloc_port al u p" "covered rs p" shows "u = t"
proof -
  obtain a where a: "a \<in> set al" "al_targetPort a = u" "rg_contains (al_rng a) p"
    using assms(2) by (auto simp: alloc_port_def list_ex_iff)
  show ?thesis using no_range_conflict [OF assms(1) a(1) _ a(3)] a(2) assms(3) by blast
qed

lemma build_inv_rule:
  assumes "build_inv tp (rules, errs, seen, al)" "r \<in> set rules"
  shows "valid_port (pr_targetPort r)" "matcher_ok (pr_matcher r)" "rule_matches r p \<Longrightarrow> alloc_port al (pr_targetPort r) p"
  using assms by (auto simp: build_inv_def)

lemma accept_inv:
  assumes inv: "build_inv tp (rules, errs, seen, al)" and v: "valid_port t"
    and parse: "parsePortForwardMatchersAndRangesExcept ext t = Inr (ms, rs)"
    and c1: "findPortForwardTargetPortConflict rs t tp = None" and c2: "findPortForwardRangeConflict rs t al = None"
    and add: "fold (add_rule t) ms (rules, seen) = (rules', seen')"
  shows "build_inv tp (rules', errs, seen', al @ map (\<lambda>r. \<lparr>al_nodeID = n, al_targetPort = t, al_rng = r\<rparr>) rs)"
    (is "build_inv tp (rules', errs, seen', ?al)")
proof -
  note pe = parse_exact [OF parse] and ar = add_rules [OF add]
  have rule: "valid_port (pr_targetPort r) \<and> matcher_ok (pr_matcher r) \<and> (\<forall>p. rule_matches r p \<longrightarrow> alloc_port ?al (pr_targetPort r) p)"
    if "r \<in> set rules'" for r
  proof (cases "r \<in> set rules")
    case True
    then show ?thesis using build_inv_rule [OF inv True] by (simp add: alloc_port_append)
  next
    case False
    then have r: "pr_targetPort r = t" "pr_matcher r \<in> set ms" using ar that by auto
    have "rule_matches r p \<Longrightarrow> covered rs p" for p
      using pe(2) [of p] r(2) by (auto simp: rule_matches_def matched_def list_ex_iff)
    then show ?thesis using v r pe(4) by (auto simp: alloc_port_append list_all_iff)
  qed
  have apart: "u = w" if "alloc_port ?al u p" "alloc_port ?al w p" for u w p
    using that no_range_conflict_alloc [OF c2] inv by (auto simp: alloc_port_append build_inv_def)
  have free: "go_load tp p = None" if "alloc_port ?al u p" for u p
  proof (cases "alloc_port al u p")
    case True
    then show ?thesis using inv by (auto simp: build_inv_def)
  next
    case False
    then have "covered rs p" using that by (simp add: alloc_port_append)
    then show ?thesis using no_target_conflict [OF c1, of p] pe(1) [of p] by (cases "go_load tp p") auto
  qed
  have seen: "\<exists>r \<in> set rules'. k = rule_key (pr_targetPort r) (pr_matcher r)" if "go_load seen' k \<noteq> None" for k
  proof (cases "go_load seen k = None")
    case True
    then show ?thesis using add_rules_seen [OF add that] by simp
  next
    case False
    then have "\<exists>r \<in> set rules. k = rule_key (pr_targetPort r) (pr_matcher r)" using inv unfolding build_inv_def prod.case by blast
    then show ?thesis using ar by blast
  qed
  show ?thesis unfolding build_inv_def prod.case using rule apart free seen by blast
qed

text \<open>What becomes of one node: nothing to forward, an error that names it, or every listed port forwarded.\<close>

fun error_node :: "rule_error \<Rightarrow> int" where
  "error_node (InvalidServerPort n _) = n"
| "error_node (InvalidPortList n _ _) = n"
| "error_node (OverlapsTarget n _ _) = n"
| "error_node (OverlapsNode n _ _ _) = n"

definition served :: "portForwardRule list \<Rightarrow> rule_error list \<Rightarrow> NodeInfo option \<Rightarrow> bool" where
  "served rules errs info \<longleftrightarrow>
     (case hysteria_common info of
        None \<Rightarrow> True
      | Some (i, c) \<Rightarrow>
          external_port c = [] \<or> list_ex (\<lambda>e. error_node e = ni_Id i) errs \<or>
          (\<forall>p. listed_port (external_port c) p \<longrightarrow> p \<noteq> cm_ServerPort c \<longrightarrow>
             list_ex (\<lambda>r. rule_matches r p \<and> pr_targetPort r = cm_ServerPort c) rules))"

lemma accept_serves:
  assumes inv: "build_inv tp (rules', errs, seen', al)" and v: "valid_port t"
    and parse: "parsePortForwardMatchersAndRangesExcept ext t = Inr (ms, rs)"
    and add: "fold (add_rule t) ms (rules, seen) = (rules', seen')" and p: "listed_port ext p" "p \<noteq> t"
  shows "list_ex (\<lambda>r. rule_matches r p \<and> pr_targetPort r = t) rules'"
proof -
  note pe = parse_exact [OF parse]
  obtain m where m: "m \<in> set ms" "args_match (pm_args m) p" using pe(1,2) [of p] p by (auto simp: matched_def list_ex_iff)
  have "go_load seen' (rule_key t m) \<noteq> None" using add_rules [OF add] m(1) by blast
  then obtain r where r: "r \<in> set rules'" "rule_key t m = rule_key (pr_targetPort r) (pr_matcher r)"
    using inv by (auto simp: build_inv_def)
  have "t = pr_targetPort r \<and> pm_args m = pm_args (pr_matcher r)"
    using rule_key_inj [OF r(2) v] build_inv_rule [OF inv r(1)] pe(4) m(1) by (simp add: list_all_iff)
  then show ?thesis using r(1) m(2) by (auto simp: list_ex_iff rule_matches_def intro!: bexI [of _ r])
qed

lemma build_node_step:
  assumes inv: "build_inv tp (rules, errs, seen, al)"
    and run: "build_node tp info (rules, errs, seen, al) = (rules', errs', seen', al')"
  shows "build_inv tp (rules', errs', seen', al') \<and> set rules \<subseteq> set rules' \<and> set errs \<subseteq> set errs' \<and> served rules' errs' info"
proof (cases "hysteria_common info")
  case None
  then show ?thesis using assms by (simp add: build_node_def served_def)
next
  case (Some ic)
  obtain i c where ic: "ic = (i, c)" by (cases ic)
  let ?t = "cm_ServerPort c" and ?x = "external_port c"
  have frame: "build_inv tp (rules, es, seen, al) = build_inv tp (rules, errs, seen, al)" for es by (simp add: build_inv_def)
  note b = run [unfolded build_node_def Some ic prod.case option.case Let_def]
  have bad: ?thesis if "(rules, errs @ [e], seen, al) = (rules', errs', seen', al')" "error_node e = ni_Id i" for e
    using that inv frame [of errs'] Some ic by (auto simp: served_def)
  show ?thesis
  proof (cases "valid_port ?t \<and> ?x \<noteq> []")
    case False
    show ?thesis
    proof (cases "valid_port ?t")
      case True
      then show ?thesis using False b inv Some ic by (auto simp: served_def)
    next
      case False
      then show ?thesis using b by (intro bad [of "InvalidServerPort (ni_Id i) ?t"]) auto
    qed
  next
    case v: True
    show ?thesis
    proof (cases "parsePortForwardMatchersAndRangesExcept ?x ?t")
      case (Inl err)
      then show ?thesis using b v by (intro bad [of "InvalidPortList (ni_Id i) ?x err"]) auto
    next
      case (Inr mr)
      obtain ms rs where mr: "mr = (ms, rs)" by (cases mr)
      show ?thesis
      proof (cases "findPortForwardTargetPortConflict rs ?t tp")
        case (Some port)
        then show ?thesis using b v Inr mr by (intro bad [of "OverlapsTarget (ni_Id i) ?x port"]) auto
      next
        case c1: None
        show ?thesis
        proof (cases "findPortForwardRangeConflict rs ?t al")
          case (Some a)
          then show ?thesis
            using b v Inr mr c1 by (intro bad [of "OverlapsNode (ni_Id i) ?x (al_nodeID a) (al_rng a)"]) auto
        next
          case c2: None
          have ok: "fold (add_rule ?t) ms (rules, seen) = (rules', seen')" "errs' = errs"
            "al' = al @ map (\<lambda>r. \<lparr>al_nodeID = ni_Id i, al_targetPort = ?t, al_rng = r\<rparr>) rs"
            using b v Inr mr c1 c2 by (auto split: prod.splits)
          have n: "build_inv tp (rules', errs', seen', al')"
            using accept_inv [OF inv _ Inr [unfolded mr] c1 c2 ok(1)] v ok(2,3) by simp
          have "list_ex (\<lambda>r. rule_matches r p \<and> pr_targetPort r = ?t) rules'" if "listed_port ?x p" "p \<noteq> ?t" for p
            using accept_serves [OF n _ Inr [unfolded mr] ok(1) that] v by simp
          then have "served rules' errs' info" by (simp add: served_def \<open>hysteria_common info = Some ic\<close> ic)
          then show ?thesis using n add_rules [OF ok(1)] ok(2) by simp
        qed
      qed
    qed
  qed
qed

lemma served_mono: "served rules errs info \<Longrightarrow> set rules \<subseteq> set rules' \<Longrightarrow> set errs \<subseteq> set errs' \<Longrightarrow> served rules' errs' info"
  unfolding served_def list_ex_iff by (simp split: option.splits prod.splits) blast

lemma build_fold:
  assumes "build_inv tp st" "fold (build_node tp) infos st = (rules', errs', seen', al')"
  shows "build_inv tp (rules', errs', seen', al') \<and> set (fst st) \<subseteq> set rules' \<and> set (fst (snd st)) \<subseteq> set errs' \<and>
         list_all (served rules' errs') infos"
  using assms
proof (induction infos arbitrary: st)
  case (Cons info infos)
  obtain r e se a where st: "st = (r, e, se, a)" by (metis prod.exhaust)
  obtain r1 e1 se1 a1 where b: "build_node tp info (r, e, se, a) = (r1, e1, se1, a1)" by (metis prod.exhaust)
  note s1 = build_node_step [OF Cons.prems(1) [unfolded st] b]
  have "fold (build_node tp) infos (r1, e1, se1, a1) = (rules', errs', seen', al')" using Cons.prems(2) by (simp add: st b)
  note ih = Cons.IH [OF s1 [THEN conjunct1] this]
  then show ?case using s1 served_mono [of r1 e1 info rules' errs'] by (auto simp: st)
qed simp

lemma build_spec:
  assumes "buildHysteriaPortForwardRules infos = (rules, errs)"
  obtains seen al where "build_inv (collectHysteriaTargetPorts infos) (rules, errs, seen, al)" "list_all (served rules errs) infos"
proof -
  obtain seen al where f: "fold (build_node (collectHysteriaTargetPorts infos)) infos ([], [], [], []) = (rules, errs, seen, al)"
    using assms by (auto simp: buildHysteriaPortForwardRules_def split: prod.splits)
  have "build_inv (collectHysteriaTargetPorts infos) ([], [], [], [])" by (simp add: build_inv_def alloc_port_def)
  from build_fold [OF this f] show thesis using that by blast
qed

section \<open>Properties\<close>

text \<open>
  C25. Parsing a port list is exact: the matchers together match precisely the ports the list names,
  except the node's own server port, and so do the ranges used for the conflict checks; every range
  lies within 1 to 65535, and no matcher names more than the fifteen ports \<open>multiport\<close> allows.
\<close>

theorem port_list_exact:
  assumes "parsePortForwardMatchersAndRangesExcept raw excludedPort = Inr (matchers, ranges)"
  shows "(\<forall>p. matched matchers p \<longleftrightarrow> listed_port raw p \<and> p \<noteq> excludedPort) \<and>
         (\<forall>p. covered ranges p \<longleftrightarrow> listed_port raw p \<and> p \<noteq> excludedPort) \<and>
         list_all range_ok ranges \<and> list_all multiport_ok matchers"
  using parse_exact [OF assms] by (simp add: list_all_iff matcher_ok_def)

theorem port_list_exact_witness:
  "\<exists>ms rs. parsePortForwardMatchersAndRangesExcept ''2-7, 9'' 5 = Inr (ms, rs) \<and> matched ms 4 \<and> \<not> matched ms 5 \<and> matched ms 9"
proof -
  have "\<not> isl (parsePortForwardMatchersAndRangesExcept ''2-7, 9'' 5)" by code_simp
  then obtain ms rs where r: "parsePortForwardMatchersAndRangesExcept ''2-7, 9'' 5 = Inr (ms, rs)"
    by (cases "parsePortForwardMatchersAndRangesExcept ''2-7, 9'' 5") auto
  have "listed_port ''2-7, 9'' 4" "listed_port ''2-7, 9'' 9" by code_simp+
  then show ?thesis using port_list_exact [OF r] r by auto
qed

text \<open>
  C11. The redirect rules of all nodes fit together: no port is redirected to two server ports, no server
  port of a Hysteria node is redirected away, and every node gets what it asked for: each listed
  port other than its own is redirected to its server port, unless an error that names the node is reported
  or it lists no ports.
\<close>

theorem redirects_fit_together:
  assumes "buildHysteriaPortForwardRules infos = (rules, errs)"
  shows "(\<forall>r r' p. r \<in> set rules \<longrightarrow> r' \<in> set rules \<longrightarrow> rule_matches r p \<longrightarrow> rule_matches r' p \<longrightarrow> pr_targetPort r = pr_targetPort r') \<and>
         (\<forall>r p. r \<in> set rules \<longrightarrow> rule_matches r p \<longrightarrow> \<not> target_port infos p) \<and>
         list_all (served rules errs) infos"
proof -
  obtain seen al where inv: "build_inv (collectHysteriaTargetPorts infos) (rules, errs, seen, al)" and s: "list_all (served rules errs) infos"
    using build_spec [OF assms] by blast
  have "pr_targetPort r = pr_targetPort r'" if "r \<in> set rules" "r' \<in> set rules" "rule_matches r p" "rule_matches r' p" for r r' p
    using build_inv_rule(3) [OF inv that(1,3)] build_inv_rule(3) [OF inv that(2,4)] inv unfolding build_inv_def prod.case by blast
  moreover have "\<not> target_port infos p" if "r \<in> set rules" "rule_matches r p" for r p
  proof -
    have "go_load (collectHysteriaTargetPorts infos) p = None"
      using build_inv_rule(3) [OF inv that] inv unfolding build_inv_def prod.case by blast
    then show ?thesis using collect_targets [of infos p] by simp
  qed
  ultimately show ?thesis using s by blast
qed

definition demo_hysteria :: "int \<Rightarrow> int \<Rightarrow> string \<Rightarrow> NodeInfo option" where
  "demo_hysteria n serverPort ports =
     Some \<lparr>ni_Id = n, ni_Type = ''hysteria2'', ni_Security = 1, ni_PushInterval = 60, ni_PullInterval = 60, ni_Tag = ''H'',
           ni_Common = Some (zero_CommonNode\<lparr>cm_ServerPort := serverPort, cm_Port := ports\<rparr>)\<rparr>"

theorem redirects_fit_together_witness:
  "\<exists>rules errs. buildHysteriaPortForwardRules [demo_hysteria 3 5 ''2-7'', demo_hysteria 4 8 ''7-9''] = (rules, errs) \<and>
     length rules = 2 \<and> map error_node errs = [4] \<and> served rules errs (demo_hysteria 3 5 ''2-7'')"
proof -
  let ?infos = "[demo_hysteria 3 5 ''2-7'', demo_hysteria 4 8 ''7-9'']"
  obtain rules errs where b: "buildHysteriaPortForwardRules ?infos = (rules, errs)" by (metis prod.exhaust)
  have "length (fst (buildHysteriaPortForwardRules ?infos)) = 2" "map error_node (snd (buildHysteriaPortForwardRules ?infos)) = [4]"
    by code_simp+
  then show ?thesis using redirects_fit_together [OF b] b by auto
qed

end
