(* ===== verification/Port_Firewall.thy ===== *)
theory Port_Firewall
  imports Port_Forward "HOL-Library.Multiset"
begin

text \<open>
  Keeping the firewall in step with the redirect rules (second half of \<open>node/port_forward.go\<close>, and
  \<open>node/port_forward_status.go\<close>): printing and reading rules, inspection, repair and cleanup. The
  programs \<open>iptables\<close> and \<open>ip6tables\<close> are a parameter, a state with a command that changes it and one
  that prints; \<open>lawful_firewall\<close> says what the code relies on.
\<close>

section \<open>Printing and reading rules\<close>

definition hysteriaPortForwardChain :: string where
  "hysteriaPortForwardChain = ''V2NODE-HY2''"

definition hysteriaPortForwardComment :: string where
  "hysteriaPortForwardComment = ''V2NODE-HY2''"

text \<open>\<open>parseIptablesSpec\<close>: the fields so far, the word being built and the open quote.\<close>

fun iptables_fields :: "string \<Rightarrow> string \<Rightarrow> char option \<Rightarrow> string list" where
  "iptables_fields [] builder quote = (if builder \<noteq> [] then [builder] else [])"
| "iptables_fields (r # rest) builder (Some q) =
     (if r = q then iptables_fields rest builder None else iptables_fields rest (builder @ [r]) (Some q))"
| "iptables_fields (r # rest) builder None =
     (if r = CHR 0x22 \<or> r = CHR 0x27 then iptables_fields rest builder (Some r)
      else if r = CHR '' '' \<or> r = CHR 0x09
      then (if builder \<noteq> [] then builder # iptables_fields rest [] None else iptables_fields rest builder None)
      else iptables_fields rest (builder @ [r]) None)"

definition parseIptablesSpec :: "string \<Rightarrow> string list" where
  "parseIptablesSpec line = iptables_fields line [] None"

definition trim_quotes :: "string \<Rightarrow> string" where
  "trim_quotes s = Trim s [CHR 0x22, CHR 0x27]"

definition isPortForwardRuleSpec :: "string list \<Rightarrow> bool" where
  "isPortForwardRuleSpec fs =
     (if length fs < 4 \<or> fs ! 0 \<noteq> ''-A'' \<or> fs ! 1 \<noteq> ''PREROUTING'' then False
      else list_ex (\<lambda>i. fs ! i = ''-j'' \<and> fs ! (i + 1) = hysteriaPortForwardChain \<or>
                        fs ! i = ''--comment'' \<and> trim_quotes (fs ! (i + 1)) = hysteriaPortForwardComment)
             [2 ..< length fs - 1])"

text \<open>The field before the one in hand decides whether quotes are trimmed.\<close>

fun normalize_from :: "string option \<Rightarrow> string list \<Rightarrow> string list" where
  "normalize_from prev [] = []"
| "normalize_from prev [f] = [if prev = Some ''--comment'' then trim_quotes f else f]"
| "normalize_from prev (f # g # rest) =
     (if f = ''-m'' \<and> g = ''udp'' then normalize_from (Some g) rest
      else (if prev = Some ''--comment'' then trim_quotes f else f) # normalize_from (Some f) (g # rest))"

definition normalizePortForwardSpecFields :: "string list \<Rightarrow> string list" where
  "normalizePortForwardSpecFields fs = normalize_from None fs"

definition portForwardFieldsKey :: "string list \<Rightarrow> string" where
  "portForwardFieldsKey fs = Join (normalizePortForwardSpecFields fs) [CHR 0x00]"

definition rule_fields :: "portForwardRule \<Rightarrow> string list" where
  "rule_fields rule =
     pm_args (pr_matcher rule) @ [''-m'', ''comment'', ''--comment'', hysteriaPortForwardComment] @
     [''-j'', ''REDIRECT'', ''--to-ports'', Itoa (pr_targetPort rule)]"

definition expectedPortForwardSpecFields :: "portForwardRule \<Rightarrow> string list" where
  "expectedPortForwardSpecFields rule =
     normalizePortForwardSpecFields ([''-A'', ''PREROUTING'', ''-p'', ''udp''] @ rule_fields rule)"

definition expectedPortForwardSpecs :: "portForwardRule list \<Rightarrow> string list" where
  "expectedPortForwardSpecs rules = map (\<lambda>r. Join (expectedPortForwardSpecFields r) '' '') rules"

record HysteriaPortForwardRuleSpec =
  rs_Protocol :: string
  rs_Match :: string
  rs_TargetPort :: int
  rs_Spec :: string

definition describePortForwardRules :: "portForwardRule list \<Rightarrow> HysteriaPortForwardRuleSpec list" where
  "describePortForwardRules rules =
     map (\<lambda>r. \<lparr>rs_Protocol = ''udp'', rs_Match = Join (pm_args (pr_matcher r)) '' '', rs_TargetPort = pr_targetPort r,
               rs_Spec = Join (expectedPortForwardSpecFields r) '' ''\<rparr>) rules"

section \<open>The firewall\<close>

record HysteriaPortForwardToolStatus =
  tl_Tool :: string
  tl_Available :: bool
  tl_Current :: "string list"
  tl_Expected :: "string list"
  tl_Missing :: "string list"
  tl_Extra :: "string list"
  tl_StaleChain :: bool
  tl_Error :: string

datatype pf_error = RuleProblem rule_error | RepairNeedsRoot | CleanupNeedsRoot | ToolProblem string string

record HysteriaPortForwardStatus =
  hs_Enabled :: bool
  hs_RunningAsRoot :: bool
  hs_UpdatedAt :: string
  hs_ExpectedRules :: "HysteriaPortForwardRuleSpec list"
  hs_Tools :: "HysteriaPortForwardToolStatus list"
  hs_Errors :: "pf_error list"

text \<open>
  The machine: which tools are installed, running a command, running one for its output, the effective
  user and the time. A command gives the text of its error.
\<close>

record 's firewall =
  fw_LookPath :: "string \<Rightarrow> bool"
  fw_run :: "string \<Rightarrow> string list \<Rightarrow> 's \<Rightarrow> string option \<times> 's"
  fw_output :: "string \<Rightarrow> string list \<Rightarrow> 's \<Rightarrow> (string + string) \<times> 's"
  fw_root :: bool
  fw_now :: string

definition pf_lines :: "string \<Rightarrow> string list list" where
  "pf_lines output = filter isPortForwardRuleSpec (map (\<lambda>line. parseIptablesSpec (TrimSpace line)) (SplitChar CHR 0x0A output))"

definition listPortForwardSpecs :: "'s firewall \<Rightarrow> string \<Rightarrow> 's \<Rightarrow> (string + string list) \<times> 's" where
  "listPortForwardSpecs fw tool s =
     (case fw_output fw tool [''-t'', ''nat'', ''-S'', ''PREROUTING''] s of
        (Inl err, s1) \<Rightarrow> (Inl err, s1)
      | (Inr output, s1) \<Rightarrow> (Inr (map (\<lambda>fs. Join (normalizePortForwardSpecFields fs) '' '') (pf_lines output)), s1))"

definition portForwardChainExists :: "'s firewall \<Rightarrow> string \<Rightarrow> 's \<Rightarrow> bool \<times> 's" where
  "portForwardChainExists fw tool s =
     (case fw_output fw tool [''-t'', ''nat'', ''-S'', hysteriaPortForwardChain] s of
        (Inl err, s1) \<Rightarrow> (False, s1)
      | (Inr output, s1) \<Rightarrow> (True, s1))"

definition expected_keys :: "portForwardRule list \<Rightarrow> (string, string) go_map" where
  "expected_keys rules =
     fold (\<lambda>r. go_store (portForwardFieldsKey (expectedPortForwardSpecFields r)) (Join (expectedPortForwardSpecFields r) '' '')) rules []"

definition inspectPortForwardTool ::
  "'s firewall \<Rightarrow> string \<Rightarrow> portForwardRule list \<Rightarrow> 's \<Rightarrow> HysteriaPortForwardToolStatus \<times> 's" where
  "inspectPortForwardTool fw tool rules s =
     (let status = \<lparr>tl_Tool = tool, tl_Available = False, tl_Current = [], tl_Expected = expectedPortForwardSpecs rules,
                    tl_Missing = [], tl_Extra = [], tl_StaleChain = False, tl_Error = []\<rparr>
      in if \<not> fw_LookPath fw tool then (status, s)
         else case listPortForwardSpecs fw tool s of
                (Inl err, s1) \<Rightarrow> (status\<lparr>tl_Available := True, tl_Error := err\<rparr>, s1)
              | (Inr current, s1) \<Rightarrow>
                  let expectedKeys = expected_keys rules;
                      key = (\<lambda>spec. portForwardFieldsKey (parseIptablesSpec spec));
                      currentKeys = fold (\<lambda>spec. go_store (key spec) spec) current [];
                      extra = filter (\<lambda>spec. go_load expectedKeys (key spec) = None) current;
                      missing = map snd (filter (\<lambda>(k, spec). go_load currentKeys k = None) (go_range expectedKeys))
                  in (case portForwardChainExists fw tool s1 of
                        (stale, s2) \<Rightarrow>
                          (status\<lparr>tl_Available := True, tl_Current := current, tl_Extra := extra, tl_Missing := missing,
                                  tl_StaleChain := stale\<rparr>, s2)))"

text \<open>
  Old installations jumped to a chain of their own: without a listing the jump is deleted until
  that fails. The loop ends when the command fails, at the latest when the context of the call expires;
  \<open>None\<close> is not returning.
\<close>

partial_function (option) delete_jumps :: "'s firewall \<Rightarrow> string \<Rightarrow> 's \<Rightarrow> 's option" where
  "delete_jumps fw tool s =
     (case fw_run fw tool [''-t'', ''nat'', ''-D'', ''PREROUTING'', ''-p'', ''udp'', ''-j'', hysteriaPortForwardChain] s of
        (Some err, s1) \<Rightarrow> Some s1
      | (None, s1) \<Rightarrow> delete_jumps fw tool s1)"

definition deletePortForwardRules :: "'s firewall \<Rightarrow> string \<Rightarrow> 's \<Rightarrow> 's option" where
  "deletePortForwardRules fw tool s =
     (case fw_output fw tool [''-t'', ''nat'', ''-S'', ''PREROUTING''] s of
        (Inr output, s1) \<Rightarrow>
          Some (fold (\<lambda>fs s. snd (fw_run fw tool ([''-t'', ''nat''] @ fs[0 := ''-D'']) s)) (pf_lines output) s1)
      | (Inl err, s1) \<Rightarrow> delete_jumps fw tool s1)"

definition drop_chain :: "'s firewall \<Rightarrow> string \<Rightarrow> 's \<Rightarrow> 's" where
  "drop_chain fw tool s =
     snd (fw_run fw tool [''-t'', ''nat'', ''-X'', hysteriaPortForwardChain]
           (snd (fw_run fw tool [''-t'', ''nat'', ''-F'', hysteriaPortForwardChain] s)))"

fun add_rules_cmd :: "'s firewall \<Rightarrow> string \<Rightarrow> portForwardRule list \<Rightarrow> 's \<Rightarrow> string option \<times> 's" where
  "add_rules_cmd fw tool [] s = (None, s)"
| "add_rules_cmd fw tool (rule # rules) s =
     (case fw_run fw tool ([''-t'', ''nat'', ''-A'', ''PREROUTING'', ''-p'', ''udp''] @ rule_fields rule) s of
        (Some err, s1) \<Rightarrow> (Some err, s1)
      | (None, s1) \<Rightarrow> add_rules_cmd fw tool rules s1)"

definition reconcilePortForwardTool :: "'s firewall \<Rightarrow> string \<Rightarrow> portForwardRule list \<Rightarrow> 's \<Rightarrow> (string option \<times> 's) option" where
  "reconcilePortForwardTool fw tool rules s =
     (if \<not> fw_LookPath fw tool then Some (None, s)
      else case deletePortForwardRules fw tool s of
             None \<Rightarrow> None
           | Some s1 \<Rightarrow> Some (add_rules_cmd fw tool rules (drop_chain fw tool s1)))"

section \<open>Status, repair and cleanup\<close>

definition port_tools :: "string list" where
  "port_tools = [''iptables'', ''ip6tables'']"

text \<open>The firewall and the status snapshot other goroutines read.\<close>

record 's pf_state =
  pf_fw :: 's
  pf_snapshot :: HysteriaPortForwardStatus

definition setHysteriaPortForwardStatus :: "'s firewall \<Rightarrow> HysteriaPortForwardStatus \<Rightarrow> 's pf_state \<Rightarrow> 's pf_state" where
  "setHysteriaPortForwardStatus fw status st = st\<lparr>pf_snapshot := status\<lparr>hs_UpdatedAt := fw_now fw\<rparr>\<rparr>"

definition GetHysteriaPortForwardStatusSnapshot :: "'s pf_state \<Rightarrow> HysteriaPortForwardStatus" where
  "GetHysteriaPortForwardStatusSnapshot st = pf_snapshot st"

definition newHysteriaPortForwardStatus :: "'s firewall \<Rightarrow> portForwardRule list \<Rightarrow> rule_error list \<Rightarrow> HysteriaPortForwardStatus" where
  "newHysteriaPortForwardStatus fw rules errs =
     \<lparr>hs_Enabled = True, hs_RunningAsRoot = fw_root fw, hs_UpdatedAt = [],
      hs_ExpectedRules = describePortForwardRules rules, hs_Tools = [], hs_Errors = map RuleProblem errs\<rparr>"

definition SetHysteriaPortForwardDisabled :: "'s firewall \<Rightarrow> 's pf_state \<Rightarrow> 's pf_state" where
  "SetHysteriaPortForwardDisabled fw st =
     setHysteriaPortForwardStatus fw
       \<lparr>hs_Enabled = False, hs_RunningAsRoot = fw_root fw, hs_UpdatedAt = [], hs_ExpectedRules = [], hs_Tools = [], hs_Errors = []\<rparr> st"

definition HysteriaPortForwardNeedsRepair :: "HysteriaPortForwardStatus \<Rightarrow> bool" where
  "HysteriaPortForwardNeedsRepair status =
     list_ex (\<lambda>tool. \<not> (\<not> tl_Available tool \<or> tl_Error tool \<noteq> []) \<and>
                     (tl_Missing tool \<noteq> [] \<or> tl_Extra tool \<noteq> [] \<or> tl_StaleChain tool)) (hs_Tools status)"

fun inspect_tools ::
  "'s firewall \<Rightarrow> portForwardRule list \<Rightarrow> string list \<Rightarrow> 's \<Rightarrow> HysteriaPortForwardToolStatus list \<times> 's" where
  "inspect_tools fw rules [] s = ([], s)"
| "inspect_tools fw rules (tool # tools) s =
     (case inspectPortForwardTool fw tool rules s of
        (status, s1) \<Rightarrow> (case inspect_tools fw rules tools s1 of (sts, s2) \<Rightarrow> (status # sts, s2)))"

definition InspectHysteriaPortForward ::
  "'s firewall \<Rightarrow> NodeInfo option list \<Rightarrow> 's pf_state \<Rightarrow> HysteriaPortForwardStatus \<times> 's pf_state" where
  "InspectHysteriaPortForward fw infos st =
     (case buildHysteriaPortForwardRules infos of
        (rules, errs) \<Rightarrow>
          (case inspect_tools fw rules port_tools (pf_fw st) of
             (tools, s1) \<Rightarrow>
               let status = (newHysteriaPortForwardStatus fw rules errs)\<lparr>hs_Tools := tools\<rparr>
               in (status, setHysteriaPortForwardStatus fw status (st\<lparr>pf_fw := s1\<rparr>))))"

definition repair_tool ::
  "'s firewall \<Rightarrow> portForwardRule list \<Rightarrow> string \<Rightarrow> 's \<Rightarrow> (HysteriaPortForwardToolStatus \<times> pf_error list \<times> 's) option" where
  "repair_tool fw rules tool s =
     (case inspectPortForwardTool fw tool rules s of
        (toolStatus, s1) \<Rightarrow>
          if tl_Available toolStatus then
            (case reconcilePortForwardTool fw tool rules s1 of
               None \<Rightarrow> None
             | Some (Some err, s2) \<Rightarrow> Some (toolStatus\<lparr>tl_Error := err\<rparr>, [ToolProblem tool err], s2)
             | Some (None, s2) \<Rightarrow>
                 (case inspectPortForwardTool fw tool rules s2 of (toolStatus', s3) \<Rightarrow> Some (toolStatus', [], s3)))
          else Some (toolStatus, [], s1))"

fun repair_tools ::
  "'s firewall \<Rightarrow> portForwardRule list \<Rightarrow> string list \<Rightarrow> 's \<Rightarrow>
   (HysteriaPortForwardToolStatus list \<times> pf_error list \<times> 's) option" where
  "repair_tools fw rules [] s = Some ([], [], s)"
| "repair_tools fw rules (tool # tools) s =
     (case repair_tool fw rules tool s of
        None \<Rightarrow> None
      | Some (status, errs, s1) \<Rightarrow>
          (case repair_tools fw rules tools s1 of
             None \<Rightarrow> None
           | Some (sts, errs', s2) \<Rightarrow> Some (status # sts, errs @ errs', s2)))"

definition RepairHysteriaPortForward ::
  "'s firewall \<Rightarrow> NodeInfo option list \<Rightarrow> 's pf_state \<Rightarrow> (HysteriaPortForwardStatus \<times> 's pf_state) option" where
  "RepairHysteriaPortForward fw infos st =
     (case buildHysteriaPortForwardRules infos of
        (rules, errs) \<Rightarrow>
          let status = newHysteriaPortForwardStatus fw rules errs
          in if \<not> hs_RunningAsRoot status then
               (case inspect_tools fw rules port_tools (pf_fw st) of
                  (tools, s1) \<Rightarrow>
                    let status1 = status\<lparr>hs_Tools := tools\<rparr>;
                        status2 = (if rules \<noteq> [] \<or> HysteriaPortForwardNeedsRepair status1
                                   then status1\<lparr>hs_Errors := hs_Errors status1 @ [RepairNeedsRoot]\<rparr> else status1)
                    in Some (status2, setHysteriaPortForwardStatus fw status2 (st\<lparr>pf_fw := s1\<rparr>)))
             else (case repair_tools fw rules port_tools (pf_fw st) of
                     None \<Rightarrow> None
                   | Some (tools, toolErrs, s1) \<Rightarrow>
                       let status1 = status\<lparr>hs_Tools := tools, hs_Errors := hs_Errors status @ toolErrs\<rparr>
                       in Some (status1, setHysteriaPortForwardStatus fw status1 (st\<lparr>pf_fw := s1\<rparr>))))"

definition cleanup_tool :: "'s firewall \<Rightarrow> string \<Rightarrow> 's \<Rightarrow> (HysteriaPortForwardToolStatus \<times> 's) option" where
  "cleanup_tool fw tool s =
     (case inspectPortForwardTool fw tool [] s of
        (toolStatus, s1) \<Rightarrow>
          if tl_Available toolStatus then
            (case deletePortForwardRules fw tool s1 of
               None \<Rightarrow> None
             | Some s2 \<Rightarrow> Some (inspectPortForwardTool fw tool [] (drop_chain fw tool s2)))
          else Some (toolStatus, s1))"

fun cleanup_tools :: "'s firewall \<Rightarrow> string list \<Rightarrow> 's \<Rightarrow> (HysteriaPortForwardToolStatus list \<times> 's) option" where
  "cleanup_tools fw [] s = Some ([], s)"
| "cleanup_tools fw (tool # tools) s =
     (case cleanup_tool fw tool s of
        None \<Rightarrow> None
      | Some (status, s1) \<Rightarrow>
          (case cleanup_tools fw tools s1 of None \<Rightarrow> None | Some (sts, s2) \<Rightarrow> Some (status # sts, s2)))"

definition CleanupHysteriaPortForward ::
  "'s firewall \<Rightarrow> 's pf_state \<Rightarrow> (HysteriaPortForwardStatus \<times> 's pf_state) option" where
  "CleanupHysteriaPortForward fw st =
     (let status = (newHysteriaPortForwardStatus fw [] [])\<lparr>hs_Enabled := False\<rparr>
      in if \<not> hs_RunningAsRoot status then
           (case inspect_tools fw [] port_tools (pf_fw st) of
              (tools, s1) \<Rightarrow>
                let status1 = status\<lparr>hs_Errors := hs_Errors status @ [CleanupNeedsRoot], hs_Tools := tools\<rparr>
                in Some (status1, setHysteriaPortForwardStatus fw status1 (st\<lparr>pf_fw := s1\<rparr>)))
         else (case cleanup_tools fw port_tools (pf_fw st) of
                 None \<Rightarrow> None
               | Some (tools, s1) \<Rightarrow>
                   let status1 = status\<lparr>hs_Tools := tools\<rparr>
                   in Some (status1, setHysteriaPortForwardStatus fw status1 (st\<lparr>pf_fw := s1\<rparr>))))"

text \<open>The runtime entry points: both only log what the status reports.\<close>

definition reconcileHysteriaPortForward :: "'s firewall \<Rightarrow> NodeInfo option list \<Rightarrow> 's pf_state \<Rightarrow> 's pf_state option" where
  "reconcileHysteriaPortForward fw infos st = map_option snd (RepairHysteriaPortForward fw infos st)"

definition cleanupHysteriaPortForward :: "'s firewall \<Rightarrow> 's pf_state \<Rightarrow> 's pf_state option" where
  "cleanupHysteriaPortForward fw st = map_option snd (CleanupHysteriaPortForward fw st)"

section \<open>Printed rules are read back\<close>

lemma iptables_word:
  "list_all (\<lambda>c. \<not> is_space c \<and> c \<notin> {CHR 0x00, CHR 0x22, CHR 0x27}) w \<Longrightarrow>
   iptables_fields (w @ rest) b None = iptables_fields rest (b @ w) None"
  by (induction w arbitrary: b) (auto simp: is_space_def)

lemma parse_joined:
  assumes "list_all plain_word ws" shows "parseIptablesSpec (Join ws '' '') = ws"
  using assms
proof (induction ws)
  case Nil
  then show ?case by (simp add: parseIptablesSpec_def)
next
  case (Cons w ws)
  have w: "w \<noteq> []" "list_all (\<lambda>c. \<not> is_space c \<and> c \<notin> {CHR 0x00, CHR 0x22, CHR 0x27}) w"
    using Cons.prems by (auto simp: plain_word_def)
  show ?case
  proof (cases "ws = []")
    case True
    then show ?thesis using w iptables_word [OF w(2), of "[]" "[]"] by (simp add: parseIptablesSpec_def)
  next
    case False
    have "parseIptablesSpec (Join (w # ws) '' '') = iptables_fields ('' '' @ Join ws '' '') w None"
      using iptables_word [OF w(2), of "'' '' @ Join ws '' ''" "[]"] False by (simp add: parseIptablesSpec_def Join_Cons)
    then show ?thesis using Cons w by (simp add: parseIptablesSpec_def)
  qed
qed

lemma trim_plain [simp]: "plain_word w \<Longrightarrow> trim_quotes w = w"
proof -
  assume p: "plain_word w"
  have d: "dropWhile (\<lambda>c. c = CHR 0x22 \<or> c = CHR 0x27) x = x" if "\<forall>c \<in> set x. c \<noteq> CHR 0x22 \<and> c \<noteq> CHR 0x27" for x
    using that by (cases x) auto
  have "\<forall>c \<in> set w. c \<noteq> CHR 0x22 \<and> c \<noteq> CHR 0x27" using p by (auto simp: plain_word_def list_all_iff)
  then show ?thesis using d [of w] d [of "rev w"] by (simp add: trim_quotes_def Trim_def TrimFunc_def TrimRightFunc_def)
qed

fun no_m_udp :: "string list \<Rightarrow> bool" where
  "no_m_udp (f # g # rest) = (\<not> (f = ''-m'' \<and> g = ''udp'') \<and> no_m_udp (g # rest))"
| "no_m_udp _ = True"

lemma normalize_plain: "list_all plain_word ws \<Longrightarrow> no_m_udp ws \<Longrightarrow> normalize_from prev ws = ws"
  by (induction prev ws rule: normalize_from.induct) auto

lemma no_m_udp_Cons: "''udp'' \<notin> set ws \<Longrightarrow> no_m_udp (f # ws)"
  by (induction ws arbitrary: f) auto

definition good_rule :: "portForwardRule \<Rightarrow> bool" where
  "good_rule r \<longleftrightarrow> valid_port (pr_targetPort r) \<and> matcher_ok (pr_matcher r)"

lemma rule_fields_ok:
  assumes "good_rule r" shows "list_all plain_word (rule_fields r)" "''udp'' \<notin> set (rule_fields r)"
proof -
  have "list_all plain_word [''-m'', ''comment'', ''--comment'', hysteriaPortForwardComment, ''-j'', ''REDIRECT'', ''--to-ports'']"
    by code_simp
  then show "list_all plain_word (rule_fields r)" using assms by (simp add: rule_fields_def good_rule_def matcher_ok_def)
  have "Itoa (pr_targetPort r) \<noteq> ''udp''" using assms by (intro digit_word_not_udp) (simp_all add: good_rule_def hd_Itoa)
  then show "''udp'' \<notin> set (rule_fields r)"
    using assms by (simp add: rule_fields_def good_rule_def matcher_ok_def hysteriaPortForwardComment_def)
qed

lemma expected_fields:
  assumes "good_rule r"
  shows "expectedPortForwardSpecFields r = [''-A'', ''PREROUTING'', ''-p'', ''udp''] @ rule_fields r"
    and "list_all plain_word (expectedPortForwardSpecFields r)"
    and "normalizePortForwardSpecFields (expectedPortForwardSpecFields r) = expectedPortForwardSpecFields r"
proof -
  let ?f = "[''-A'', ''PREROUTING'', ''-p'', ''udp''] @ rule_fields r"
  have "list_all plain_word [''-A'', ''PREROUTING'', ''-p'', ''udp'']" by code_simp
  then have pl: "list_all plain_word ?f" using rule_fields_ok [OF assms] by simp
  have "no_m_udp ?f" using no_m_udp_Cons [OF rule_fields_ok(2) [OF assms], of "''udp''"] by simp
  from normalize_plain [OF pl this] have n: "normalizePortForwardSpecFields ?f = ?f" by (simp add: normalizePortForwardSpecFields_def)
  then show e: "expectedPortForwardSpecFields r = ?f" by (simp add: expectedPortForwardSpecFields_def)
  show "list_all plain_word (expectedPortForwardSpecFields r)" using pl by (simp add: e)
  show "normalizePortForwardSpecFields (expectedPortForwardSpecFields r) = expectedPortForwardSpecFields r" using n by (simp add: e)
qed

section \<open>What the code expects of the firewall\<close>

text \<open>
  \<open>rl s tool\<close> are the rules of the chain \<open>PREROUTING\<close> as fields of their printed form, \<open>ch s tool\<close> says whether
  the old chain exists. Listing prints the rules and changes nothing. Deleting a printed rule
  removes its first occurrence. A rule of plain words is appended and printed as it was given, up to the implicit
  match \<open>-m udp\<close> and quotes. A chain no rule jumps to can be flushed and deleted. The two tools do not
  influence each other.
\<close>

definition same_rules :: "('s \<Rightarrow> string \<Rightarrow> string list list) \<Rightarrow> ('s \<Rightarrow> string \<Rightarrow> bool) \<Rightarrow> 's \<Rightarrow> 's \<Rightarrow> bool" where
  "same_rules rl ch s s' \<longleftrightarrow> rl s' = rl s \<and> ch s' = ch s"

definition lawful_firewall :: "'s firewall \<Rightarrow> ('s \<Rightarrow> string \<Rightarrow> string list list) \<Rightarrow> ('s \<Rightarrow> string \<Rightarrow> bool) \<Rightarrow> bool" where
  "lawful_firewall fw rl ch \<longleftrightarrow>
     (\<forall>tool s. \<exists>out s'. fw_output fw tool [''-t'', ''nat'', ''-S'', ''PREROUTING''] s = (Inr out, s') \<and>
        pf_lines out = filter isPortForwardRuleSpec (rl s tool) \<and> same_rules rl ch s s') \<and>
     (\<forall>tool s. \<exists>r s'. fw_output fw tool [''-t'', ''nat'', ''-S'', hysteriaPortForwardChain] s = (r, s') \<and>
        (ch s tool \<longleftrightarrow> \<not> isl r) \<and> same_rules rl ch s s') \<and>
     (\<forall>tool s rest. ''-A'' # rest \<in> set (rl s tool) \<longrightarrow>
        (\<exists>s'. fw_run fw tool ([''-t'', ''nat'', ''-D''] @ rest) s = (None, s') \<and>
           rl s' = (rl s)(tool := remove1 (''-A'' # rest) (rl s tool)) \<and> ch s' = ch s)) \<and>
     (\<forall>tool s rest. list_all plain_word rest \<longrightarrow>
        (\<exists>f s'. fw_run fw tool ([''-t'', ''nat'', ''-A''] @ rest) s = (None, s') \<and>
           normalizePortForwardSpecFields f = normalizePortForwardSpecFields (''-A'' # rest) \<and>
           isPortForwardRuleSpec f = isPortForwardRuleSpec (''-A'' # rest) \<and>
           rl s' = (rl s)(tool := rl s tool @ [f]) \<and> ch s' = ch s)) \<and>
     (\<forall>tool s. same_rules rl ch s (snd (fw_run fw tool [''-t'', ''nat'', ''-F'', hysteriaPortForwardChain] s))) \<and>
     (\<forall>tool s. list_all (\<lambda>f. \<not> isPortForwardRuleSpec f) (rl s tool) \<longrightarrow>
        rl (snd (fw_run fw tool [''-t'', ''nat'', ''-X'', hysteriaPortForwardChain] s)) = rl s \<and>
        ch (snd (fw_run fw tool [''-t'', ''nat'', ''-X'', hysteriaPortForwardChain] s)) = (ch s)(tool := False))"

lemma lawful_list:
  assumes "lawful_firewall fw rl ch"
  obtains out s' where "fw_output fw tool [''-t'', ''nat'', ''-S'', ''PREROUTING''] s = (Inr out, s')"
    "pf_lines out = filter isPortForwardRuleSpec (rl s tool)" "rl s' = rl s" "ch s' = ch s"
  using assms unfolding lawful_firewall_def same_rules_def by blast

lemma lawful_chain:
  assumes "lawful_firewall fw rl ch"
  obtains s' where "portForwardChainExists fw tool s = (ch s tool, s')" "rl s' = rl s" "ch s' = ch s"
proof -
  obtain r s' where "fw_output fw tool [''-t'', ''nat'', ''-S'', hysteriaPortForwardChain] s = (r, s')"
    "ch s tool \<longleftrightarrow> \<not> isl r" "same_rules rl ch s s'"
    using assms unfolding lawful_firewall_def by blast
  then show thesis using that [of s'] by (cases r) (auto simp: portForwardChainExists_def same_rules_def)
qed

lemma lawful_delete:
  assumes "lawful_firewall fw rl ch" "''-A'' # rest \<in> set (rl s tool)"
  obtains s' where "fw_run fw tool ([''-t'', ''nat'', ''-D''] @ rest) s = (None, s')"
    "rl s' = (rl s)(tool := remove1 (''-A'' # rest) (rl s tool))" "ch s' = ch s"
  using assms unfolding lawful_firewall_def by blast

lemma lawful_append:
  assumes "lawful_firewall fw rl ch" "list_all plain_word rest"
  obtains f s' where "fw_run fw tool ([''-t'', ''nat'', ''-A''] @ rest) s = (None, s')"
    "normalizePortForwardSpecFields f = normalizePortForwardSpecFields (''-A'' # rest)"
    "isPortForwardRuleSpec f = isPortForwardRuleSpec (''-A'' # rest)"
    "rl s' = (rl s)(tool := rl s tool @ [f])" "ch s' = ch s"
  using assms unfolding lawful_firewall_def by blast

section \<open>Deleting\<close>

lemma pf_head: "isPortForwardRuleSpec f \<Longrightarrow> \<exists>rest. f = ''-A'' # rest"
  by (cases f) (auto simp: isPortForwardRuleSpec_def split: if_splits)

lemma remove_all: "fold remove1 (filter P xs) xs = filter (\<lambda>x. \<not> P x) xs"
proof -
  have "fold remove1 (filter P xs) (ys @ xs) = ys @ filter (\<lambda>x. \<not> P x) xs" if "list_all (\<lambda>y. \<not> P y) ys" for ys
    using that
  proof (induction xs arbitrary: ys)
    case (Cons x xs)
    show ?case
    proof (cases "P x")
      case True
      then have "x \<notin> set ys" using Cons.prems by (auto simp: list_all_iff)
      then show ?thesis using True Cons.IH [OF Cons.prems] by (simp add: remove1_append)
    next
      case False
      then show ?thesis using Cons.IH [of "ys @ [x]"] Cons.prems by simp
    qed
  qed simp
  from this [of "[]"] show ?thesis by simp
qed

lemma delete_fold:
  assumes "lawful_firewall fw rl ch" "list_all isPortForwardRuleSpec fs" "mset fs \<subseteq># mset (rl s tool)"
  shows "rl (fold (\<lambda>fs s. snd (fw_run fw tool ([''-t'', ''nat''] @ fs[0 := ''-D'']) s)) fs s) = (rl s)(tool := fold remove1 fs (rl s tool)) \<and>
         ch (fold (\<lambda>fs s. snd (fw_run fw tool ([''-t'', ''nat''] @ fs[0 := ''-D'']) s)) fs s) = ch s"
  using assms(2,3)
proof (induction fs arbitrary: s)
  case (Cons f fs)
  obtain rest where f: "f = ''-A'' # rest" using pf_head Cons.prems(1) by auto
  have "f \<in> set (rl s tool)" using Cons.prems(2) by (metis mset_subset_eqD insert_iff list.simps(15) set_mset_mset)
  then obtain s' where d: "fw_run fw tool ([''-t'', ''nat'', ''-D''] @ rest) s = (None, s')"
    "rl s' = (rl s)(tool := remove1 f (rl s tool))" "ch s' = ch s"
    using lawful_delete [OF assms(1), of rest s tool] f by metis
  have "mset fs \<subseteq># mset (rl s' tool)" using Cons.prems(2) by (simp add: d(2) insert_subset_eq_iff)
  from Cons.IH [OF _ this] Cons.prems(1) show ?case using d f by (simp add: fun_eq_iff)
qed simp

lemma filter_mset_sub: "mset (filter P xs) \<subseteq># mset xs"
  by (simp add: multiset_filter_subset)

lemma delete_all:
  assumes "lawful_firewall fw rl ch"
  obtains s' where "deletePortForwardRules fw tool s = Some s'"
    "rl s' = (rl s)(tool := filter (\<lambda>f. \<not> isPortForwardRuleSpec f) (rl s tool))" "ch s' = ch s"
proof -
  obtain out s1 where o: "fw_output fw tool [''-t'', ''nat'', ''-S'', ''PREROUTING''] s = (Inr out, s1)"
    "pf_lines out = filter isPortForwardRuleSpec (rl s tool)" "rl s1 = rl s" "ch s1 = ch s"
    using lawful_list [OF assms] by blast
  have "list_all isPortForwardRuleSpec (pf_lines out)" by (simp add: pf_lines_def list_all_iff)
  moreover have "mset (pf_lines out) \<subseteq># mset (rl s1 tool)" by (simp add: o multiset_filter_subset)
  ultimately show thesis using delete_fold [OF assms, of "pf_lines out" s1 tool] that o by (simp add: deletePortForwardRules_def remove_all)
qed

lemma drop_chain_law:
  assumes "lawful_firewall fw rl ch" "list_all (\<lambda>f. \<not> isPortForwardRuleSpec f) (rl s tool)"
  shows "rl (drop_chain fw tool s) = rl s \<and> ch (drop_chain fw tool s) = (ch s)(tool := False)"
proof -
  let ?s = "snd (fw_run fw tool [''-t'', ''nat'', ''-F'', hysteriaPortForwardChain] s)"
  have f: "rl ?s = rl s" "ch ?s = ch s" using assms(1) unfolding lawful_firewall_def same_rules_def by blast+
  have "list_all (\<lambda>f. \<not> isPortForwardRuleSpec f) (rl ?s tool)" using assms(2) f by simp
  then have "rl (drop_chain fw tool s) = rl ?s \<and> ch (drop_chain fw tool s) = (ch ?s)(tool := False)"
    using assms(1) unfolding lawful_firewall_def drop_chain_def by blast
  then show ?thesis using f by simp
qed

section \<open>Repair converges\<close>

definition installed :: "portForwardRule list \<Rightarrow> string list list \<Rightarrow> bool" where
  "installed rules fs \<longleftrightarrow>
     map normalizePortForwardSpecFields (filter isPortForwardRuleSpec fs) = map expectedPortForwardSpecFields rules"

lemma expected_is_pf:
  assumes "good_rule r" shows "isPortForwardRuleSpec ([''-A'', ''PREROUTING'', ''-p'', ''udp''] @ rule_fields r)"
proof -
  let ?n = "length (pm_args (pr_matcher r))"
  let ?f = "[''-A'', ''PREROUTING'', ''-p'', ''udp''] @ rule_fields r"
  have "?f ! (?n + 6) = ''--comment''" "?f ! (?n + 7) = hysteriaPortForwardComment" "length ?f = ?n + 12"
    by (simp_all add: rule_fields_def nth_append nth_Cons')
  moreover have "trim_quotes hysteriaPortForwardComment = hysteriaPortForwardComment" by code_simp
  ultimately have "list_ex (\<lambda>i. ?f ! i = ''-j'' \<and> ?f ! (i + 1) = hysteriaPortForwardChain \<or>
      ?f ! i = ''--comment'' \<and> trim_quotes (?f ! (i + 1)) = hysteriaPortForwardComment) [2 ..< length ?f - 1]"
    unfolding list_ex_iff by (intro bexI [of _ "?n + 6"]) auto
  then show ?thesis unfolding isPortForwardRuleSpec_def by simp
qed

lemma add_rules_law:
  assumes "lawful_firewall fw rl ch" "list_all good_rule rules"
  shows "\<exists>fs s'. add_rules_cmd fw tool rules s = (None, s') \<and> rl s' = (rl s)(tool := rl s tool @ fs) \<and> ch s' = ch s \<and>
           list_all isPortForwardRuleSpec fs \<and> map normalizePortForwardSpecFields fs = map expectedPortForwardSpecFields rules"
  using assms(2)
proof (induction rules arbitrary: s)
  case Nil
  then show ?case by (intro exI [of _ "[]"]) auto
next
  case (Cons r rules)
  have good: "good_rule r" "list_all good_rule rules" using Cons.prems by auto
  have "list_all plain_word [''PREROUTING'', ''-p'', ''udp'']" by code_simp
  then have pl: "list_all plain_word ([''PREROUTING'', ''-p'', ''udp''] @ rule_fields r)" using rule_fields_ok [OF good(1)] by simp
  obtain f s1 where a: "fw_run fw tool ([''-t'', ''nat'', ''-A''] @ [''PREROUTING'', ''-p'', ''udp''] @ rule_fields r) s = (None, s1)"
    "normalizePortForwardSpecFields f = normalizePortForwardSpecFields (''-A'' # [''PREROUTING'', ''-p'', ''udp''] @ rule_fields r)"
    "isPortForwardRuleSpec f = isPortForwardRuleSpec (''-A'' # [''PREROUTING'', ''-p'', ''udp''] @ rule_fields r)"
    "rl s1 = (rl s)(tool := rl s tool @ [f])" "ch s1 = ch s"
    using lawful_append [OF assms(1) pl] by metis
  obtain fs s' where ih: "add_rules_cmd fw tool rules s1 = (None, s')" "rl s' = (rl s1)(tool := rl s1 tool @ fs)" "ch s' = ch s1"
    "list_all isPortForwardRuleSpec fs" "map normalizePortForwardSpecFields fs = map expectedPortForwardSpecFields rules"
    using Cons.IH [OF good(2)] by blast
  have "isPortForwardRuleSpec f" using expected_is_pf [OF good(1)] a(3) by simp
  moreover have "normalizePortForwardSpecFields f = expectedPortForwardSpecFields r" using a(2) by (simp add: expectedPortForwardSpecFields_def)
  ultimately show ?case using a ih by (intro exI [of _ "f # fs"] exI [of _ s']) simp
qed

lemma reconcile_law:
  assumes "lawful_firewall fw rl ch" "list_all good_rule rules" "fw_LookPath fw tool"
  shows "\<exists>fs s'. reconcilePortForwardTool fw tool rules s = Some (None, s') \<and>
           rl s' = (rl s)(tool := filter (\<lambda>f. \<not> isPortForwardRuleSpec f) (rl s tool) @ fs) \<and> ch s' = (ch s)(tool := False) \<and>
           list_all isPortForwardRuleSpec fs \<and> map normalizePortForwardSpecFields fs = map expectedPortForwardSpecFields rules"
proof -
  obtain s1 where d: "deletePortForwardRules fw tool s = Some s1"
    "rl s1 = (rl s)(tool := filter (\<lambda>f. \<not> isPortForwardRuleSpec f) (rl s tool))" "ch s1 = ch s"
    using delete_all [OF assms(1)] by blast
  have "list_all (\<lambda>f. \<not> isPortForwardRuleSpec f) (rl s1 tool)" by (simp add: d(2) list_all_iff)
  note c = drop_chain_law [OF assms(1) this]
  obtain fs s' where a: "add_rules_cmd fw tool rules (drop_chain fw tool s1) = (None, s')"
    "rl s' = (rl (drop_chain fw tool s1))(tool := rl (drop_chain fw tool s1) tool @ fs)" "ch s' = ch (drop_chain fw tool s1)"
    "list_all isPortForwardRuleSpec fs" "map normalizePortForwardSpecFields fs = map expectedPortForwardSpecFields rules"
    using add_rules_law [OF assms(1,2)] by blast
  show ?thesis
    by (intro exI [of _ fs] exI [of _ s']) (use assms(3) d c a in \<open>simp add: reconcilePortForwardTool_def fun_eq_iff\<close>)
qed

lemma go_load_fold_keys:
  "go_load (fold (\<lambda>x. go_store (k x) (v x)) xs m) y = None \<longleftrightarrow> go_load m y = None \<and> y \<notin> k ` set xs"
  by (induction xs arbitrary: m) auto

lemma inspect_law:
  assumes "lawful_firewall fw rl ch" "list_all good_rule rules" "fw_LookPath fw tool" "installed rules (rl s tool)"
  shows "\<exists>st s'. inspectPortForwardTool fw tool rules s = (st, s') \<and> tl_Available st \<and> tl_Error st = [] \<and>
           tl_Missing st = [] \<and> tl_Extra st = [] \<and> tl_StaleChain st = ch s tool \<and> tl_Current st = tl_Expected st \<and>
           rl s' = rl s \<and> ch s' = ch s"
proof -
  obtain out s1 where o: "fw_output fw tool [''-t'', ''nat'', ''-S'', ''PREROUTING''] s = (Inr out, s1)"
    "pf_lines out = filter isPortForwardRuleSpec (rl s tool)" "rl s1 = rl s" "ch s1 = ch s"
    using lawful_list [OF assms(1)] by blast
  let ?cur = "map (\<lambda>r. Join (expectedPortForwardSpecFields r) '' '') rules"
  have "map (\<lambda>f. Join (normalizePortForwardSpecFields f) '' '') (pf_lines out) =
      map (\<lambda>f. Join f '' '') (map normalizePortForwardSpecFields (filter isPortForwardRuleSpec (rl s tool)))"
    by (simp add: o(2))
  also have "\<dots> = ?cur" using assms(4) by (simp add: installed_def)
  finally have l: "listPortForwardSpecs fw tool s = (Inr ?cur, s1)" by (simp add: listPortForwardSpecs_def o(1))
  obtain s2 where c: "portForwardChainExists fw tool s1 = (ch s tool, s2)" "rl s2 = rl s" "ch s2 = ch s"
    using lawful_chain [OF assms(1), of tool s1] o by metis
  let ?key = "\<lambda>spec. portForwardFieldsKey (parseIptablesSpec spec)"
  have key: "?key (Join (expectedPortForwardSpecFields r) '' '') = portForwardFieldsKey (expectedPortForwardSpecFields r)"
    if "r \<in> set rules" for r
  proof -
    have "good_rule r" using that assms(2) by (simp add: list_all_iff)
    then show ?thesis by (simp add: parse_joined [OF expected_fields(2)])
  qed
  have extra: "filter (\<lambda>spec. go_load (expected_keys rules) (?key spec) = None) ?cur = []"
    by (auto simp: filter_empty_conv expected_keys_def go_load_fold_keys key)
  have dom: "k \<in> (\<lambda>r. portForwardFieldsKey (expectedPortForwardSpecFields r)) ` set rules"
    if "(k, v) \<in> set (go_range (expected_keys rules))" for k v
  proof -
    have "k \<in> fst ` set (expected_keys rules)" using that unfolding go_range_def by force
    then have "go_load (expected_keys rules) k \<noteq> None" unfolding go_load_None_iff by simp
    then show ?thesis by (simp add: expected_keys_def go_load_fold_keys)
  qed
  have "filter (\<lambda>(k, spec). go_load (fold (\<lambda>spec. go_store (?key spec) spec) ?cur []) k = None) (go_range (expected_keys rules)) = []"
    using dom by (auto simp: filter_empty_conv go_load_fold_keys image_image key)
  then show ?thesis
    using assms(3) l c extra by (auto simp: inspectPortForwardTool_def Let_def expectedPortForwardSpecs_def)
qed

lemma inspect_frame:
  assumes "lawful_firewall fw rl ch"
  obtains st s' where "inspectPortForwardTool fw tool rules s = (st, s')" "tl_Available st = fw_LookPath fw tool"
    "rl s' = rl s" "ch s' = ch s"
proof (cases "fw_LookPath fw tool")
  case False
  then show thesis by (intro that) (auto simp: inspectPortForwardTool_def Let_def)
next
  case True
  obtain out s1 where o: "fw_output fw tool [''-t'', ''nat'', ''-S'', ''PREROUTING''] s = (Inr out, s1)" "rl s1 = rl s" "ch s1 = ch s"
    using lawful_list [OF assms] by metis
  obtain b s2 where c: "portForwardChainExists fw tool s1 = (b, s2)" "rl s2 = rl s" "ch s2 = ch s"
    using lawful_chain [OF assms, of tool s1] o by metis
  obtain st where "inspectPortForwardTool fw tool rules s = (st, s2)" "tl_Available st"
    using True o c by (simp add: inspectPortForwardTool_def listPortForwardSpecs_def Let_def)
  then show thesis using that True c by simp
qed

text \<open>A tool that is absent or shows no difference, and rules of others left alone.\<close>

definition clean_status :: "HysteriaPortForwardToolStatus \<Rightarrow> bool" where
  "clean_status st \<longleftrightarrow>
     \<not> tl_Available st \<or> tl_Error st = [] \<and> tl_Missing st = [] \<and> tl_Extra st = [] \<and> \<not> tl_StaleChain st"

definition in_force :: "'s firewall \<Rightarrow> ('s \<Rightarrow> string \<Rightarrow> string list list) \<Rightarrow> ('s \<Rightarrow> string \<Rightarrow> bool) \<Rightarrow> portForwardRule list \<Rightarrow> 's \<Rightarrow> string \<Rightarrow> bool" where
  "in_force fw rl ch rules s tool \<longleftrightarrow> \<not> fw_LookPath fw tool \<or> installed rules (rl s tool) \<and> \<not> ch s tool"

definition foreign :: "string list list \<Rightarrow> string list list" where
  "foreign fs = filter (\<lambda>f. \<not> isPortForwardRuleSpec f) fs"

definition only_tool :: "('s \<Rightarrow> string \<Rightarrow> string list list) \<Rightarrow> ('s \<Rightarrow> string \<Rightarrow> bool) \<Rightarrow> string \<Rightarrow> 's \<Rightarrow> 's \<Rightarrow> bool" where
  "only_tool rl ch tool s s' \<longleftrightarrow>
     (\<forall>t. t \<noteq> tool \<longrightarrow> rl s' t = rl s t \<and> ch s' t = ch s t) \<and> foreign (rl s' tool) = foreign (rl s tool)"

lemma reconciled_installed:
  assumes "list_all isPortForwardRuleSpec fs" "map normalizePortForwardSpecFields fs = map expectedPortForwardSpecFields rules"
  shows "installed rules (filter (\<lambda>f. \<not> isPortForwardRuleSpec f) xs @ fs)"
    and "foreign (filter (\<lambda>f. \<not> isPortForwardRuleSpec f) xs @ fs) = foreign xs"
proof -
  have "filter isPortForwardRuleSpec fs = fs" "filter (\<lambda>f. \<not> isPortForwardRuleSpec f) fs = []"
    using assms(1) by (auto simp: list_all_iff filter_empty_conv)
  then show "installed rules (filter (\<lambda>f. \<not> isPortForwardRuleSpec f) xs @ fs)"
    "foreign (filter (\<lambda>f. \<not> isPortForwardRuleSpec f) xs @ fs) = foreign xs"
    using assms(2) by (auto simp: installed_def foreign_def)
qed

lemma repair_tool_law:
  assumes "lawful_firewall fw rl ch" "list_all good_rule rules"
  shows "\<exists>status s'. repair_tool fw rules tool s = Some (status, [], s') \<and> clean_status status \<and>
           in_force fw rl ch rules s' tool \<and> only_tool rl ch tool s s'"
proof -
  obtain st1 s1 where i: "inspectPortForwardTool fw tool rules s = (st1, s1)" "tl_Available st1 = fw_LookPath fw tool"
    "rl s1 = rl s" "ch s1 = ch s" using inspect_frame [OF assms(1)] by blast
  show ?thesis
  proof (cases "fw_LookPath fw tool")
    case False
    then show ?thesis using i by (auto simp: repair_tool_def clean_status_def in_force_def only_tool_def)
  next
    case True
    obtain fs s2 where r: "reconcilePortForwardTool fw tool rules s1 = Some (None, s2)"
      "rl s2 = (rl s1)(tool := filter (\<lambda>f. \<not> isPortForwardRuleSpec f) (rl s1 tool) @ fs)" "ch s2 = (ch s1)(tool := False)"
      "list_all isPortForwardRuleSpec fs" "map normalizePortForwardSpecFields fs = map expectedPortForwardSpecFields rules"
      using reconcile_law [OF assms True] by blast
    note ri = reconciled_installed [OF r(4,5), of "rl s tool"]
    have ins: "installed rules (rl s2 tool)" using ri(1) i(3) r(2) by simp
    obtain st3 s3 where e: "inspectPortForwardTool fw tool rules s2 = (st3, s3)" "tl_Available st3" "tl_Error st3 = []"
      "tl_Missing st3 = []" "tl_Extra st3 = []" "tl_StaleChain st3 = ch s2 tool" "rl s3 = rl s2" "ch s3 = ch s2"
      using inspect_law [OF assms True ins] by blast
    have "repair_tool fw rules tool s = Some (st3, [], s3)" using i r e True by (simp add: repair_tool_def)
    moreover have "clean_status st3" using e r(3) by (simp add: clean_status_def)
    moreover have "in_force fw rl ch rules s3 tool" using ins e r(3) by (simp add: in_force_def)
    moreover have "only_tool rl ch tool s s3" using ri(2) i r e by (simp add: only_tool_def)
    ultimately show ?thesis by blast
  qed
qed

lemma only_tool_in_force: "only_tool rl ch tool s s' \<Longrightarrow> t \<noteq> tool \<Longrightarrow> in_force fw rl ch rules s' t = in_force fw rl ch rules s t"
  by (simp add: only_tool_def in_force_def)

lemma only_tool_foreign: "only_tool rl ch tool s s' \<Longrightarrow> foreign (rl s' t) = foreign (rl s t)"
  by (cases "t = tool") (simp_all add: only_tool_def)

lemma repair_both:
  assumes "lawful_firewall fw rl ch" "list_all good_rule rules"
  shows "\<exists>sts s'. repair_tools fw rules port_tools s = Some (sts, [], s') \<and> list_all clean_status sts \<and>
           list_all (in_force fw rl ch rules s') port_tools \<and> (\<forall>t. foreign (rl s' t) = foreign (rl s t))"
proof -
  obtain a s1 where 1: "repair_tool fw rules ''iptables'' s = Some (a, [], s1)" "clean_status a"
    "in_force fw rl ch rules s1 ''iptables''" "only_tool rl ch ''iptables'' s s1"
    using repair_tool_law [OF assms] by blast
  obtain b s2 where 2: "repair_tool fw rules ''ip6tables'' s1 = Some (b, [], s2)" "clean_status b"
    "in_force fw rl ch rules s2 ''ip6tables''" "only_tool rl ch ''ip6tables'' s1 s2"
    using repair_tool_law [OF assms] by blast
  have "in_force fw rl ch rules s2 ''iptables''" using only_tool_in_force [OF 2(4), of "''iptables''"] 1(3) by simp
  then show ?thesis
    using 1 2 only_tool_foreign [OF 1(4)] only_tool_foreign [OF 2(4)] by (simp add: port_tools_def)
qed

lemma clean_no_repair: "list_all clean_status (hs_Tools status) \<Longrightarrow> \<not> HysteriaPortForwardNeedsRepair status"
  by (auto simp: HysteriaPortForwardNeedsRepair_def clean_status_def list_all_iff list_ex_iff)

lemma built_rules_good: "buildHysteriaPortForwardRules infos = (rules, errs) \<Longrightarrow> list_all good_rule rules"
  by (auto simp: list_all_iff good_rule_def dest: build_inv_rule elim!: build_spec)

section \<open>A firewall that keeps its rules in a list\<close>

record list_firewall =
  lf_rules :: "string \<Rightarrow> string list list"
  lf_chain :: "string \<Rightarrow> bool"

definition lf_rl :: "list_firewall \<Rightarrow> string \<Rightarrow> string list list" where
  "lf_rl s tool = filter (list_all plain_word) (lf_rules s tool)"

definition lf_run :: "string \<Rightarrow> string list \<Rightarrow> list_firewall \<Rightarrow> string option \<times> list_firewall" where
  "lf_run tool args s =
     (let op = args ! 2; rest = drop 3 args
      in if op = ''-A'' then (None, s\<lparr>lf_rules := (lf_rules s)(tool := lf_rules s tool @ [''-A'' # rest])\<rparr>)
         else if op = ''-D'' then (None, s\<lparr>lf_rules := (lf_rules s)(tool := remove1 (''-A'' # rest) (lf_rules s tool))\<rparr>)
         else if op = ''-X'' then (None, s\<lparr>lf_chain := (lf_chain s)(tool := False)\<rparr>)
         else (None, s))"

definition lf_output :: "string \<Rightarrow> string list \<Rightarrow> list_firewall \<Rightarrow> (string + string) \<times> list_firewall" where
  "lf_output tool args s =
     (if args ! 3 = ''PREROUTING'' then (Inr (Join (map (\<lambda>f. Join f '' '') (lf_rl s tool)) [CHR 0x0A]), s)
      else if lf_chain s tool then (Inr [], s) else (Inl ''No chain'', s))"

definition list_fw :: "list_firewall firewall" where
  "list_fw = \<lparr>fw_LookPath = (\<lambda>tool. tool = ''iptables''), fw_run = lf_run, fw_output = lf_output, fw_root = True, fw_now = []\<rparr>"

lemma trim_joined:
  assumes "list_all plain_word ws" shows "TrimSpace (Join ws '' '') = Join ws '' ''"
proof -
  have hd: "\<not> is_space (hd (Join ws '' ''))" if "ws \<noteq> []"
    using assms that hd_Join [of ws "'' ''"] by (cases ws) (auto simp: plain_word_def neq_Nil_conv)
  have last: "ws \<noteq> [] \<Longrightarrow> Join ws '' '' \<noteq> [] \<and> last (Join ws '' '') = last (last ws)"
    using assms
  proof (induction ws)
    case (Cons w ws)
    then show ?case by (cases "ws = []") (auto simp: Join_Cons plain_word_def)
  qed simp
  have last_ns: "\<not> is_space (last (Join ws '' ''))" if ne: "ws \<noteq> []"
  proof -
    have "plain_word (last ws)" using assms last_in_set [OF ne] by (simp add: list_all_iff)
    then have "last ws \<noteq> []" "list_all (\<lambda>c. \<not> is_space c) (last ws)" by (simp_all add: plain_word_def list_all_iff)
    then have "\<not> is_space (last (last ws))" using last_in_set [of "last ws"] by (simp add: list_all_iff)
    then show ?thesis using last [OF ne] by simp
  qed
  show ?thesis
  proof (cases "ws = []")
    case True
    then show ?thesis by (simp add: TrimSpace_def TrimFunc_def TrimRightFunc_def)
  next
    case False
    then have "dropWhile is_space (Join ws '' '') = Join ws '' ''" using hd last by (cases "Join ws '' ''") auto
    moreover have "dropWhile is_space (rev (Join ws '' '')) = rev (Join ws '' '')"
      using False last_ns last by (cases "Join ws '' ''" rule: rev_cases) auto
    ultimately show ?thesis by (simp add: TrimSpace_def TrimFunc_def TrimRightFunc_def)
  qed
qed

lemma newline_joined: "list_all plain_word ws \<Longrightarrow> CHR 0x0A \<notin> set (Join ws '' '')"
proof (induction ws)
  case (Cons w ws)
  have "is_space (CHR 0x0A)" by code_simp
  then have "CHR 0x0A \<notin> set w" using Cons.prems by (auto simp: plain_word_def list_all_iff)
  then show ?case using Cons by (cases "ws = []") (auto simp: Join_Cons)
qed simp

lemma not_pf_Nil: "\<not> isPortForwardRuleSpec []"
  by (simp add: isPortForwardRuleSpec_def)

lemma lf_lines: "pf_lines (Join (map (\<lambda>f. Join f '' '') (lf_rl s tool)) [CHR 0x0A]) = filter isPortForwardRuleSpec (lf_rl s tool)"
proof (cases "lf_rl s tool = []")
  case True
  then show ?thesis by (simp add: pf_lines_def TrimSpace_def TrimFunc_def TrimRightFunc_def parseIptablesSpec_def not_pf_Nil)
next
  case False
  have p: "list_all plain_word f" if "f \<in> set (lf_rl s tool)" for f using that by (simp add: lf_rl_def)
  have "SplitChar CHR 0x0A (Join (map (\<lambda>f. Join f '' '') (lf_rl s tool)) [CHR 0x0A]) = map (\<lambda>f. Join f '' '') (lf_rl s tool)"
    using False p newline_joined by (intro SplitChar_Join) (auto simp: list_all_iff)
  moreover have "map (\<lambda>f. parseIptablesSpec (TrimSpace (Join f '' ''))) (lf_rl s tool) = lf_rl s tool"
    using p by (intro map_idI) (simp add: trim_joined parse_joined)
  ultimately show ?thesis by (simp add: pf_lines_def comp_def)
qed

lemma filter_remove1: "P x \<Longrightarrow> filter P (remove1 x xs) = remove1 x (filter P xs)"
  by (induction xs) auto

lemma list_fw_lawful: "lawful_firewall list_fw lf_rl lf_chain"
proof -
  have A: "plain_word ''-A''" by code_simp
  have dele: "lf_rl (snd (lf_run tool ([''-t'', ''nat'', ''-D''] @ rest) s)) = (lf_rl s)(tool := remove1 (''-A'' # rest) (lf_rl s tool))"
    if "''-A'' # rest \<in> set (lf_rl s tool)" for tool rest s
    using that by (auto simp: lf_run_def lf_rl_def fun_eq_iff filter_remove1)
  have app: "lf_rl (snd (lf_run tool ([''-t'', ''nat'', ''-A''] @ rest) s)) = (lf_rl s)(tool := lf_rl s tool @ [''-A'' # rest])"
    if "list_all plain_word rest" for tool rest s
    using that A by (auto simp: lf_run_def lf_rl_def fun_eq_iff)
  show ?thesis
    unfolding lawful_firewall_def same_rules_def list_fw_def
  proof (intro conjI allI impI, goal_cases)
    case (1 tool s)
    then show ?case by (simp add: lf_output_def lf_lines)
  next
    case (2 tool s)
    then show ?case by (simp add: lf_output_def hysteriaPortForwardChain_def)
  next
    case (3 tool s rest)
    then show ?case using dele [of rest s tool] by (simp add: lf_run_def)
  next
    case (4 tool s rest)
    then show ?case using app [of rest tool s] by (intro exI [of _ "''-A'' # rest"]) (simp add: lf_run_def)
  next
    case (5 tool s)
    then show ?case by (simp add: lf_run_def)
  next
    case (6 tool s)
    then show ?case by (simp add: lf_run_def)
  next
    case (7 tool s)
    then show ?case by (simp add: lf_run_def lf_rl_def fun_eq_iff)
  next
    case (8 tool s)
    then show ?case by (simp add: lf_run_def)
  qed
qed

definition demo_firewall :: "list_firewall pf_state" where
  "demo_firewall =
     \<lparr>pf_fw = \<lparr>lf_rules = (\<lambda>_. [[''-A'', ''PREROUTING'', ''-j'', ''V2NODE-HY2''], [''-A'', ''PREROUTING'', ''-j'', ''X'']]), lf_chain = (\<lambda>_. True)\<rparr>,
      pf_snapshot = newHysteriaPortForwardStatus list_fw [] []\<rparr>"

section \<open>Properties\<close>



end
