(* ===== verification/Task_Scheduler.thy ===== *)
theory Task_Scheduler
  imports Go_Prelude
begin

text \<open>
  The periodic tasks of a node (\<open>common/task/task.go\<close>). One \<open>Start\<close> makes a stop channel, a base
  context and a goroutine that runs the task body every interval; a one-place token channel keeps
  two rounds of one goroutine from overlapping. The model is a state machine: the state holds the
  fields of \<open>Task\<close>, the channels and contexts made so far, the loops and the executions they
  spawned; an event is one atomic action of the caller, of a loop or of an execution, and every
  interleaving is a list of events. The clock and the outcome of the task body come with the events.
\<close>

section \<open>State\<close>

text \<open>
  A loop checks for a stop, takes the token, reads the field \<open>Stop\<close> and waits on the channel it
  read there (or on its timer); once it saw the channel closed, its deferred \<open>safeStop\<close> is due.
\<close>

datatype loop_phase = CheckStop | TakeToken | ReadStop | Waiting "nat option" | StopDue | Exited

record loop =
  lp_phase :: loop_phase
  lp_token :: bool

text \<open>
  An execution sets its start time, reads the base context, runs the body, stops the task when the
  body failed, clears the start time and gives the token back.
\<close>

datatype exec_phase = Spawned | ReadCtx | Running "nat option" | FailStop | ClearStart | GiveToken | Finished

record exec =
  ex_loop :: nat
  ex_phase :: exec_phase

record Task =
  tk_Interval :: int
  tk_Timeout :: int
  tk_Running :: bool
  tk_Stop :: "nat option"
  tk_baseCtx :: "nat option"
  tk_baseCancel :: "nat option"
  tk_execStartedAt :: "int option"
  tk_chans :: "bool list"
  tk_ctxs :: "bool list"
  tk_loops :: "loop list"
  tk_execs :: "exec list"
  tk_panic :: bool

text \<open>A task as a struct literal builds it: never started, nothing allocated.\<close>

definition new_task :: "int \<Rightarrow> int \<Rightarrow> Task" where
  "new_task interval timeout =
     \<lparr>tk_Interval = interval, tk_Timeout = timeout, tk_Running = False, tk_Stop = None, tk_baseCtx = None,
      tk_baseCancel = None, tk_execStartedAt = None, tk_chans = [], tk_ctxs = [], tk_loops = [], tk_execs = [],
      tk_panic = False\<rparr>"

section \<open>Starting and stopping\<close>

definition Start :: "bool \<Rightarrow> Task \<Rightarrow> Task" where
  "Start first t =
     (if tk_Running t then t
      else t\<lparr>tk_Running := True, tk_Stop := Some (length (tk_chans t)), tk_chans := tk_chans t @ [False],
             tk_baseCtx := Some (length (tk_ctxs t)), tk_baseCancel := Some (length (tk_ctxs t)),
             tk_ctxs := tk_ctxs t @ [False], tk_execStartedAt := None,
             tk_loops := tk_loops t @ [\<lparr>lp_phase = (if first then CheckStop else ReadStop), lp_token = True\<rparr>]\<rparr>)"

text \<open>Closing a nil or a closed channel panics.\<close>

definition close_chan :: "nat option \<Rightarrow> Task \<Rightarrow> Task" where
  "close_chan ch t =
     (case ch of
        None \<Rightarrow> t\<lparr>tk_panic := True\<rparr>
      | Some i \<Rightarrow> if tk_chans t ! i then t\<lparr>tk_panic := True\<rparr> else t\<lparr>tk_chans := (tk_chans t)[i := True]\<rparr>)"

definition safeStop :: "Task \<Rightarrow> Task" where
  "safeStop t =
     (if \<not> tk_Running t then t
      else
        let t1 = t\<lparr>tk_Running := False\<rparr>;
            t2 = (case tk_baseCancel t1 of
                    None \<Rightarrow> t1
                  | Some c \<Rightarrow> t1\<lparr>tk_ctxs := (tk_ctxs t1)[c := True], tk_baseCancel := None\<rparr>)
        in close_chan (tk_Stop t2) t2)"

definition Close :: "Task \<Rightarrow> Task" where
  "Close t = safeStop t"

section \<open>One execution\<close>

text \<open>The context of the execution when the body returned: still live, cancelled, or past its deadline.\<close>

datatype ctx_state = CtxLive | CtxCanceled | CtxDeadline

text \<open>The timeout in force: \<open>min(3*Interval, 5*time.Minute)\<close> when none is set.\<close>

definition exec_timeout :: "Task \<Rightarrow> int" where
  "exec_timeout t = (if tk_Timeout t \<le> 0 then min (wrap64 (3 * tk_Interval t)) 300000000000 else tk_Timeout t)"

text \<open>The error \<open>ExecuteWithTimeout\<close> returns and whether it calls \<open>OnTimeout\<close>.\<close>

definition ExecuteWithTimeout :: "string option \<Rightarrow> ctx_state \<Rightarrow> bool \<Rightarrow> string option \<times> bool" where
  "ExecuteWithTimeout err ctx_err has_OnTimeout =
     (case err of
        None \<Rightarrow> (None, False)
      | Some e \<Rightarrow>
          (case ctx_err of
             CtxCanceled \<Rightarrow> (None, False)
           | CtxDeadline \<Rightarrow> (None, has_OnTimeout)
           | CtxLive \<Rightarrow> (Some e, False)))"

section \<open>Events\<close>

datatype event =
    DoStart bool
  | DoClose
  | LoopStep nat
  | Tick nat
  | SeeStop nat
  | ExecStep nat int
  | BodyReturns nat "string option" ctx_state

text \<open>The context of an execution derives from the base context: it is cancelled with it and never alone.\<close>

definition ctx_possible :: "nat option \<Rightarrow> ctx_state \<Rightarrow> Task \<Rightarrow> bool" where
  "ctx_possible c s t =
     (let cancelled = (case c of None \<Rightarrow> False | Some i \<Rightarrow> tk_ctxs t ! i)
      in case s of CtxLive \<Rightarrow> \<not> cancelled | CtxCanceled \<Rightarrow> cancelled | CtxDeadline \<Rightarrow> True)"

definition set_phase :: "nat \<Rightarrow> loop_phase \<Rightarrow> Task \<Rightarrow> Task" where
  "set_phase i ph t = t\<lparr>tk_loops := (tk_loops t)[i := (tk_loops t ! i)\<lparr>lp_phase := ph\<rparr>]\<rparr>"

definition set_token :: "nat \<Rightarrow> bool \<Rightarrow> Task \<Rightarrow> Task" where
  "set_token i b t = t\<lparr>tk_loops := (tk_loops t)[i := (tk_loops t ! i)\<lparr>lp_token := b\<rparr>]\<rparr>"

definition set_exec :: "nat \<Rightarrow> exec_phase \<Rightarrow> Task \<Rightarrow> Task" where
  "set_exec j ph t = t\<lparr>tk_execs := (tk_execs t)[j := (tk_execs t ! j)\<lparr>ex_phase := ph\<rparr>]\<rparr>"

definition is_closed :: "nat option \<Rightarrow> Task \<Rightarrow> bool" where
  "is_closed ch t = (case ch of None \<Rightarrow> False | Some i \<Rightarrow> tk_chans t ! i)"

text \<open>\<open>run\<close> takes the token and spawns an execution, or skips the round.\<close>

definition take_token :: "nat \<Rightarrow> Task \<Rightarrow> Task" where
  "take_token i t =
     (if lp_token (tk_loops t ! i)
      then (set_token i False t)\<lparr>tk_execs := tk_execs t @ [\<lparr>ex_loop = i, ex_phase = Spawned\<rparr>]\<rparr>
      else t)"

definition loop_step :: "nat \<Rightarrow> Task \<Rightarrow> Task option" where
  "loop_step i t =
     (case lp_phase (tk_loops t ! i) of
        CheckStop \<Rightarrow> Some (set_phase i (if is_closed (tk_Stop t) t then ReadStop else TakeToken) t)
      | TakeToken \<Rightarrow> Some (set_phase i ReadStop (take_token i t))
      | ReadStop \<Rightarrow> Some (set_phase i (Waiting (tk_Stop t)) t)
      | Waiting ch \<Rightarrow> None
      | StopDue \<Rightarrow> Some (set_phase i Exited (safeStop t))
      | Exited \<Rightarrow> None)"

definition exec_step :: "nat \<Rightarrow> int \<Rightarrow> Task \<Rightarrow> Task option" where
  "exec_step j now t =
     (case ex_phase (tk_execs t ! j) of
        Spawned \<Rightarrow> Some (set_exec j ReadCtx (t\<lparr>tk_execStartedAt := Some now\<rparr>))
      | ReadCtx \<Rightarrow> Some (set_exec j (Running (tk_baseCtx t)) t)
      | Running c \<Rightarrow> None
      | FailStop \<Rightarrow> Some (set_exec j ClearStart (safeStop t))
      | ClearStart \<Rightarrow> Some (set_exec j GiveToken (t\<lparr>tk_execStartedAt := None\<rparr>))
      | GiveToken \<Rightarrow> Some (set_exec j Finished (set_token (ex_loop (tk_execs t ! j)) True t))
      | Finished \<Rightarrow> None)"

text \<open>\<open>None\<close> is an event that cannot happen in the state.\<close>

fun apply_event :: "event \<Rightarrow> Task \<Rightarrow> Task option" where
  "apply_event (DoStart first) t = Some (Start first t)"
| "apply_event DoClose t = Some (Close t)"
| "apply_event (LoopStep i) t = (if i < length (tk_loops t) then loop_step i t else None)"
| "apply_event (Tick i) t =
     (if i < length (tk_loops t) \<and> (case lp_phase (tk_loops t ! i) of Waiting ch \<Rightarrow> True | _ \<Rightarrow> False)
      then Some (set_phase i CheckStop t) else None)"
| "apply_event (SeeStop i) t =
     (if i < length (tk_loops t) \<and> (case lp_phase (tk_loops t ! i) of Waiting ch \<Rightarrow> is_closed ch t | _ \<Rightarrow> False)
      then Some (set_phase i StopDue t) else None)"
| "apply_event (ExecStep j now) t = (if j < length (tk_execs t) then exec_step j now t else None)"
| "apply_event (BodyReturns j err ctx) t =
     (if j < length (tk_execs t) \<and> (case ex_phase (tk_execs t ! j) of Running c \<Rightarrow> ctx_possible c ctx t | _ \<Rightarrow> False)
      then Some (set_exec j (if fst (ExecuteWithTimeout err ctx False) = None then ClearStart else FailStop) t) else None)"

fun run_events :: "event list \<Rightarrow> Task \<Rightarrow> Task option" where
  "run_events [] t = Some t"
| "run_events (e # es) t = (case apply_event e t of None \<Rightarrow> None | Some t' \<Rightarrow> run_events es t')"

text \<open>The states any interleaving can lead to.\<close>

inductive reachable_task :: "int \<Rightarrow> int \<Rightarrow> Task \<Rightarrow> bool" for interval timeout where
  created: "reachable_task interval timeout (new_task interval timeout)"
| step: "reachable_task interval timeout t \<Longrightarrow> apply_event e t = Some t' \<Longrightarrow> reachable_task interval timeout t'"

inductive_cases reachable_taskE: "reachable_task interval timeout t"

section \<open>The invariant\<close>

text \<open>The unfinished executions of a loop.\<close>

definition live_execs :: "nat \<Rightarrow> Task \<Rightarrow> exec list" where
  "live_execs i t = filter (\<lambda>e. ex_loop e = i \<and> ex_phase e \<noteq> Finished) (tk_execs t)"

definition phase_ok :: "Task \<Rightarrow> loop_phase \<Rightarrow> bool" where
  "phase_ok t ph = (case ph of Waiting ch \<Rightarrow> (case ch of None \<Rightarrow> False | Some i \<Rightarrow> i < length (tk_chans t)) | _ \<Rightarrow> True)"

definition exec_ok :: "Task \<Rightarrow> exec_phase \<Rightarrow> bool" where
  "exec_ok t ph = (case ph of Running c \<Rightarrow> (case c of None \<Rightarrow> False | Some i \<Rightarrow> i < length (tk_ctxs t)) | _ \<Rightarrow> True)"

definition tokens_ok :: "Task \<Rightarrow> bool" where
  "tokens_ok t \<longleftrightarrow>
     (\<forall>i < length (tk_loops t). length (live_execs i t) = (if lp_token (tk_loops t ! i) then 0 else 1)) \<and>
     (\<forall>e \<in> set (tk_execs t). ex_loop e < length (tk_loops t))"

definition stop_ok :: "Task \<Rightarrow> bool" where
  "stop_ok t \<longleftrightarrow>
     \<not> tk_panic t \<and>
     (tk_Running t \<longrightarrow> tk_Stop t \<noteq> None \<and> tk_baseCtx t \<noteq> None \<and> tk_baseCancel t = tk_baseCtx t) \<and>
     (\<forall>i. tk_Stop t = Some i \<longrightarrow> i < length (tk_chans t)) \<and> (\<forall>c. tk_baseCtx t = Some c \<longrightarrow> c < length (tk_ctxs t)) \<and>
     (\<forall>i < length (tk_chans t). \<not> tk_chans t ! i \<longleftrightarrow> tk_Running t \<and> tk_Stop t = Some i) \<and>
     (\<forall>c < length (tk_ctxs t). \<not> tk_ctxs t ! c \<longleftrightarrow> tk_Running t \<and> tk_baseCtx t = Some c) \<and>
     (tk_loops t \<noteq> [] \<longrightarrow> tk_Stop t \<noteq> None \<and> tk_baseCtx t \<noteq> None) \<and>
     (\<forall>l \<in> set (tk_loops t). phase_ok t (lp_phase l)) \<and> (\<forall>e \<in> set (tk_execs t). exec_ok t (ex_phase e))"

lemma filter_update_same:
  "j < length xs \<Longrightarrow> P x = P (xs ! j) \<Longrightarrow> length (filter P (xs[j := x])) = length (filter P xs)"
  by (induction xs arbitrary: j) (auto split: nat.splits)

lemma filter_update_drop:
  "j < length xs \<Longrightarrow> P (xs ! j) \<Longrightarrow> \<not> P x \<Longrightarrow> Suc (length (filter P (xs[j := x]))) = length (filter P xs)"
  by (induction xs arbitrary: j) (auto split: nat.splits)

lemma set_phase_simps [simp]:
  "tk_Running (set_phase i ph t) = tk_Running t" "tk_Stop (set_phase i ph t) = tk_Stop t"
  "tk_baseCtx (set_phase i ph t) = tk_baseCtx t" "tk_baseCancel (set_phase i ph t) = tk_baseCancel t"
  "tk_chans (set_phase i ph t) = tk_chans t" "tk_ctxs (set_phase i ph t) = tk_ctxs t"
  "tk_execs (set_phase i ph t) = tk_execs t" "tk_panic (set_phase i ph t) = tk_panic t"
  "length (tk_loops (set_phase i ph t)) = length (tk_loops t)"
  by (simp_all add: set_phase_def)

lemma set_exec_simps [simp]:
  "tk_Running (set_exec j ph t) = tk_Running t" "tk_Stop (set_exec j ph t) = tk_Stop t"
  "tk_baseCtx (set_exec j ph t) = tk_baseCtx t" "tk_baseCancel (set_exec j ph t) = tk_baseCancel t"
  "tk_chans (set_exec j ph t) = tk_chans t" "tk_ctxs (set_exec j ph t) = tk_ctxs t"
  "tk_loops (set_exec j ph t) = tk_loops t" "tk_panic (set_exec j ph t) = tk_panic t"
  "length (tk_execs (set_exec j ph t)) = length (tk_execs t)"
  by (simp_all add: set_exec_def)

lemma set_token_simps [simp]:
  "tk_Running (set_token i b t) = tk_Running t" "tk_Stop (set_token i b t) = tk_Stop t"
  "tk_baseCtx (set_token i b t) = tk_baseCtx t" "tk_baseCancel (set_token i b t) = tk_baseCancel t"
  "tk_chans (set_token i b t) = tk_chans t" "tk_ctxs (set_token i b t) = tk_ctxs t"
  "tk_execs (set_token i b t) = tk_execs t" "tk_panic (set_token i b t) = tk_panic t"
  "length (tk_loops (set_token i b t)) = length (tk_loops t)"
  by (simp_all add: set_token_def)

lemma safeStop_frame [simp]:
  "tk_loops (safeStop t) = tk_loops t" "tk_execs (safeStop t) = tk_execs t"
  "length (tk_chans (safeStop t)) = length (tk_chans t)" "length (tk_ctxs (safeStop t)) = length (tk_ctxs t)"
  "tk_Stop (safeStop t) = tk_Stop t" "tk_baseCtx (safeStop t) = tk_baseCtx t" "\<not> tk_Running (safeStop t)"
  by (simp_all add: safeStop_def close_chan_def Let_def split: option.splits)

lemma phase_ok_cong: "length (tk_chans t) = length (tk_chans t') \<Longrightarrow> phase_ok t = phase_ok t'"
  by (simp add: phase_ok_def fun_eq_iff split: loop_phase.splits option.splits)

lemma exec_ok_cong: "length (tk_ctxs t) = length (tk_ctxs t') \<Longrightarrow> exec_ok t = exec_ok t'"
  by (simp add: exec_ok_def fun_eq_iff split: exec_phase.splits option.splits)

lemma tokens_ok_cong: "tk_loops t = tk_loops t' \<Longrightarrow> tk_execs t = tk_execs t' \<Longrightarrow> tokens_ok t = tokens_ok t'"
  by (simp add: tokens_ok_def live_execs_def)

lemma stop_ok_safeStop:
  assumes "stop_ok t"
  shows "stop_ok (safeStop t)"
proof (cases "tk_Running t")
  case False
  then show ?thesis using assms by (simp add: safeStop_def)
next
  case True
  then have "tk_Stop t \<noteq> None" "tk_baseCtx t \<noteq> None" "tk_baseCancel t = tk_baseCtx t"
    using assms by (simp_all add: stop_ok_def)
  then obtain s c where sc: "tk_Stop t = Some s" "tk_baseCancel t = Some c" "tk_baseCtx t = Some c" by fastforce
  then have l: "s < length (tk_chans t)" "\<not> tk_chans t ! s" "c < length (tk_ctxs t)"
    using assms True by (auto simp: stop_ok_def)
  have f: "safeStop t = t\<lparr>tk_Running := False, tk_ctxs := (tk_ctxs t)[c := True], tk_baseCancel := None,
      tk_chans := (tk_chans t)[s := True]\<rparr>"
    using True sc l by (simp add: safeStop_def close_chan_def)
  have p: "phase_ok (safeStop t) = phase_ok t" "exec_ok (safeStop t) = exec_ok t"
    by (rule phase_ok_cong, simp) (rule exec_ok_cong, simp)
  show ?thesis using assms True sc l p unfolding stop_ok_def by (auto simp: f nth_list_update)
qed

lemma stop_ok_Start:
  assumes "stop_ok t"
  shows "stop_ok (Start first t)"
proof (cases "tk_Running t")
  case True
  then show ?thesis using assms by (simp add: Start_def)
next
  case False
  then have all: "\<forall>b \<in> set (tk_chans t). b" "\<forall>b \<in> set (tk_ctxs t). b" using assms by (auto simp: stop_ok_def in_set_conv_nth)
  have "phase_ok t ph \<Longrightarrow> phase_ok (Start first t) ph" "exec_ok t eph \<Longrightarrow> exec_ok (Start first t) eph" for ph eph
    using False by (auto simp: phase_ok_def exec_ok_def Start_def split: loop_phase.splits exec_phase.splits option.splits)
  moreover have "phase_ok (Start first t) (if first then CheckStop else ReadStop)" by (simp add: phase_ok_def)
  ultimately show ?thesis
    using False assms all by (auto simp: stop_ok_def Start_def nth_append less_Suc_eq)
qed

lemma stop_ok_set_phase:
  assumes "stop_ok t" "phase_ok t ph" "i < length (tk_loops t)"
  shows "stop_ok (set_phase i ph t)"
proof -
  have "phase_ok (set_phase i ph t) = phase_ok t" "exec_ok (set_phase i ph t) = exec_ok t"
    by (rule phase_ok_cong, simp) (rule exec_ok_cong, simp)
  moreover have "phase_ok t (lp_phase l)" if "l \<in> set (tk_loops (set_phase i ph t))" for l
    using that assms set_update_subset_insert [of "tk_loops t" i] by (fastforce simp: set_phase_def stop_ok_def)
  ultimately show ?thesis using assms(1,3) by (simp add: stop_ok_def) (simp add: set_phase_def)
qed

lemma stop_ok_set_exec:
  assumes "stop_ok t" "exec_ok t ph"
  shows "stop_ok (set_exec j ph t)"
proof -
  have "phase_ok (set_exec j ph t) = phase_ok t" "exec_ok (set_exec j ph t) = exec_ok t"
    by (rule phase_ok_cong, simp) (rule exec_ok_cong, simp)
  moreover have "exec_ok t (ex_phase e)" if "e \<in> set (tk_execs (set_exec j ph t))" for e
    using that assms set_update_subset_insert [of "tk_execs t" j] by (fastforce simp: set_exec_def stop_ok_def)
  ultimately show ?thesis using assms(1) by (simp add: stop_ok_def)
qed

lemma stop_ok_set_token:
  assumes "stop_ok t" "i < length (tk_loops t)"
  shows "stop_ok (set_token i b t)"
proof -
  have "phase_ok (set_token i b t) = phase_ok t" "exec_ok (set_token i b t) = exec_ok t"
    by (rule phase_ok_cong, simp) (rule exec_ok_cong, simp)
  moreover have "phase_ok t (lp_phase l)" if "l \<in> set (tk_loops (set_token i b t))" for l
  proof -
    have "l \<in> insert ((tk_loops t ! i)\<lparr>lp_token := b\<rparr>) (set (tk_loops t))"
      using that set_update_subset_insert [of "tk_loops t" i] by (auto simp: set_token_def)
    moreover have "phase_ok t (lp_phase (tk_loops t ! i))" using assms by (simp add: stop_ok_def)
    ultimately show ?thesis using assms(1) by (auto simp: stop_ok_def)
  qed
  ultimately show ?thesis using assms by (simp add: stop_ok_def) (simp add: set_token_def)
qed

lemma stop_ok_clock [simp]: "stop_ok (t\<lparr>tk_execStartedAt := x\<rparr>) = stop_ok t"
proof -
  have "phase_ok (t\<lparr>tk_execStartedAt := x\<rparr>) = phase_ok t" "exec_ok (t\<lparr>tk_execStartedAt := x\<rparr>) = exec_ok t"
    by (rule phase_ok_cong, simp) (rule exec_ok_cong, simp)
  then show ?thesis by (simp add: stop_ok_def)
qed

lemma stop_ok_take_token:
  assumes "stop_ok t" "i < length (tk_loops t)"
  shows "stop_ok (take_token i t)"
proof (cases "lp_token (tk_loops t ! i)")
  case True
  let ?t = "set_token i False t" and ?e = "\<lparr>ex_loop = i, ex_phase = Spawned\<rparr>"
  have s: "stop_ok ?t" using assms by (rule stop_ok_set_token)
  have "phase_ok (?t\<lparr>tk_execs := tk_execs t @ [?e]\<rparr>) = phase_ok ?t" "exec_ok (?t\<lparr>tk_execs := tk_execs t @ [?e]\<rparr>) = exec_ok ?t"
    by (rule phase_ok_cong, simp) (rule exec_ok_cong, simp)
  moreover have "exec_ok ?t Spawned" by (simp add: exec_ok_def)
  ultimately have "stop_ok (?t\<lparr>tk_execs := tk_execs t @ [?e]\<rparr>)" using s unfolding stop_ok_def by simp
  then show ?thesis using True by (simp add: take_token_def)
next
  case False
  then show ?thesis using assms by (simp add: take_token_def)
qed

lemma token_set_phase [simp]: "k < length (tk_loops t) \<Longrightarrow> lp_token (tk_loops (set_phase i ph t) ! k) = lp_token (tk_loops t ! k)"
  by (cases "i < length (tk_loops t)") (auto simp: set_phase_def nth_list_update)

lemma tokens_ok_set_phase: "tokens_ok t \<Longrightarrow> tokens_ok (set_phase i ph t)"
  by (simp add: tokens_ok_def live_execs_def)

lemma tokens_ok_take_token:
  assumes "tokens_ok t" "i < length (tk_loops t)"
  shows "tokens_ok (take_token i t)"
  using assms by (auto simp: tokens_ok_def live_execs_def take_token_def set_token_def nth_list_update)

lemma tokens_ok_set_exec:
  assumes "tokens_ok t" "j < length (tk_execs t)" "ex_phase (tk_execs t ! j) \<noteq> Finished" "ph \<noteq> Finished"
  shows "tokens_ok (set_exec j ph t)"
proof -
  have "length (live_execs i (set_exec j ph t)) = length (live_execs i t)" for i
    unfolding live_execs_def set_exec_def using assms by (simp add: filter_update_same)
  moreover have "ex_loop e < length (tk_loops t)" if "e \<in> set (tk_execs (set_exec j ph t))" for e
  proof -
    have "e \<in> insert ((tk_execs t ! j)\<lparr>ex_phase := ph\<rparr>) (set (tk_execs t))"
      using that set_update_subset_insert [of "tk_execs t" j] by (auto simp: set_exec_def)
    then show ?thesis using assms(1,2) by (auto simp: tokens_ok_def)
  qed
  ultimately show ?thesis using assms(1) by (simp add: tokens_ok_def)
qed

lemma tokens_ok_finish:
  assumes "tokens_ok t" "j < length (tk_execs t)" "ex_phase (tk_execs t ! j) = GiveToken"
  shows "tokens_ok (set_exec j Finished (set_token (ex_loop (tk_execs t ! j)) True t))"
proof -
  let ?k = "ex_loop (tk_execs t ! j)" and ?t' = "set_exec j Finished (set_token (ex_loop (tk_execs t ! j)) True t)"
  have k: "?k < length (tk_loops t)" using assms by (simp add: tokens_ok_def)
  have drop: "Suc (length (live_execs ?k ?t')) = length (live_execs ?k t)"
    unfolding live_execs_def set_exec_def using assms(2,3) by (simp add: set_token_def filter_update_drop)
  have same: "length (live_execs i ?t') = length (live_execs i t)" if "i \<noteq> ?k" for i
    unfolding live_execs_def set_exec_def using assms(2) that by (simp add: set_token_def filter_update_same)
  have "length (live_execs i ?t') = (if lp_token (tk_loops ?t' ! i) then 0 else 1)" if "i < length (tk_loops t)" for i
    using that drop same [of i] assms(1) k by (auto simp: tokens_ok_def set_token_def nth_list_update split: if_splits)
  moreover have "ex_loop e < length (tk_loops t)" if "e \<in> set (tk_execs ?t')" for e
  proof -
    have "e \<in> insert ((tk_execs t ! j)\<lparr>ex_phase := Finished\<rparr>) (set (tk_execs t))"
      using that set_update_subset_insert [of "tk_execs t" j] by (auto simp: set_exec_def)
    then show ?thesis using assms(1,2) by (auto simp: tokens_ok_def)
  qed
  ultimately show ?thesis by (simp add: tokens_ok_def)
qed

lemma tokens_ok_Start:
  assumes "tokens_ok t"
  shows "tokens_ok (Start first t)"
proof (cases "tk_Running t")
  case False
  have "live_execs (length (tk_loops t)) t = []" using assms by (auto simp: tokens_ok_def live_execs_def filter_empty_conv)
  moreover have "live_execs i (Start first t) = live_execs i t" for i by (simp add: live_execs_def Start_def)
  ultimately show ?thesis
    using assms False by (auto simp: tokens_ok_def nth_append less_Suc_eq) (auto simp: Start_def less_SucI less_Suc_eq nth_append split: if_splits)
qed (simp add: Start_def assms)

definition task_inv :: "Task \<Rightarrow> bool" where
  "task_inv t \<longleftrightarrow> tokens_ok t \<and> stop_ok t"

lemma task_inv_loop_step:
  assumes "task_inv t" "i < length (tk_loops t)" "loop_step i t = Some t'"
  shows "task_inv t'"
proof -
  have inv: "tokens_ok t" "stop_ok t" and ne: "tk_loops t \<noteq> []" using assms by (auto simp: task_inv_def)
  have w: "phase_ok t (Waiting (tk_Stop t))" using inv ne by (auto simp: phase_ok_def stop_ok_def)
  have st: "tokens_ok (safeStop t)" using inv(1) tokens_ok_cong [of "safeStop t" t] by simp
  show ?thesis
  proof (cases "lp_phase (tk_loops t ! i)")
    case CheckStop
    then show ?thesis using assms(2,3) inv by (auto simp: loop_step_def task_inv_def phase_ok_def intro!: tokens_ok_set_phase stop_ok_set_phase)
  next
    case TakeToken
    have l: "length (tk_loops (take_token i t)) = length (tk_loops t)" by (simp add: take_token_def)
    show ?thesis using TakeToken assms(2,3) inv l
      by (auto simp: loop_step_def task_inv_def phase_ok_def
          intro!: tokens_ok_set_phase stop_ok_set_phase tokens_ok_take_token stop_ok_take_token)
  next
    case ReadStop
    then show ?thesis using assms(2,3) inv w by (auto simp: loop_step_def task_inv_def intro!: tokens_ok_set_phase stop_ok_set_phase)
  next
    case StopDue
    then show ?thesis using assms(2,3) inv st
      by (auto simp: loop_step_def task_inv_def phase_ok_def intro!: tokens_ok_set_phase stop_ok_set_phase stop_ok_safeStop)
  qed (use assms(3) in \<open>simp_all add: loop_step_def\<close>)
qed

lemma task_inv_set_exec:
  assumes "task_inv t" "j < length (tk_execs t)" "ex_phase (tk_execs t ! j) \<noteq> Finished" "ph \<noteq> Finished" "exec_ok t ph"
  shows "task_inv (set_exec j ph t)"
  using assms by (simp add: task_inv_def tokens_ok_set_exec stop_ok_set_exec)

lemma task_inv_clock: "task_inv (t\<lparr>tk_execStartedAt := x\<rparr>) = task_inv t"
  using tokens_ok_cong [of "t\<lparr>tk_execStartedAt := x\<rparr>" t] by (simp add: task_inv_def)

lemma task_inv_safeStop: "task_inv t \<Longrightarrow> task_inv (safeStop t)"
  using tokens_ok_cong [of "safeStop t" t] by (simp add: task_inv_def stop_ok_safeStop)

lemma task_inv_exec_step:
  assumes inv: "task_inv t" and j: "j < length (tk_execs t)" and s: "exec_step j now t = Some t'"
  shows "task_inv t'"
proof -
  have "tk_loops t \<noteq> []" using inv j nth_mem [OF j] by (auto simp: task_inv_def tokens_ok_def)
  then have r: "exec_ok t (Running (tk_baseCtx t))" using inv by (auto simp: exec_ok_def task_inv_def stop_ok_def)
  show ?thesis
  proof (cases "ex_phase (tk_execs t ! j)")
    case Spawned
    have "task_inv (t\<lparr>tk_execStartedAt := Some now\<rparr>)" using inv by (simp add: task_inv_clock)
    from task_inv_set_exec [OF this, of j ReadCtx] show ?thesis using Spawned s j by (simp add: exec_step_def exec_ok_def)
  next
    case ReadCtx
    then show ?thesis using task_inv_set_exec [OF inv j _ _ r] s by (auto simp: exec_step_def)
  next
    case FailStop
    from task_inv_set_exec [OF task_inv_safeStop [OF inv], of j ClearStart] show ?thesis
      using FailStop s j by (simp add: exec_step_def exec_ok_def)
  next
    case ClearStart
    have "task_inv (t\<lparr>tk_execStartedAt := None\<rparr>)" using inv by (simp add: task_inv_clock)
    from task_inv_set_exec [OF this, of j GiveToken] show ?thesis using ClearStart s j by (simp add: exec_step_def exec_ok_def)
  next
    case GiveToken
    have "ex_loop (tk_execs t ! j) < length (tk_loops t)" using inv j by (simp add: task_inv_def tokens_ok_def)
    then have "stop_ok (set_token (ex_loop (tk_execs t ! j)) True t)" using inv by (simp add: task_inv_def stop_ok_set_token)
    from stop_ok_set_exec [OF this, of Finished j] show ?thesis
      using GiveToken s inv tokens_ok_finish [OF _ j GiveToken] by (auto simp: exec_step_def task_inv_def exec_ok_def)
  qed (use s in \<open>simp_all add: exec_step_def\<close>)
qed

lemma task_inv_event:
  assumes "task_inv t" "apply_event e t = Some t'"
  shows "task_inv t'"
proof (cases e)
  case (DoStart first)
  then show ?thesis using assms by (auto simp: task_inv_def tokens_ok_Start stop_ok_Start)
next
  case DoClose
  then show ?thesis using assms by (auto simp: Close_def task_inv_safeStop)
next
  case (LoopStep i)
  then show ?thesis using assms task_inv_loop_step by (auto split: if_splits)
next
  case (Tick i)
  then show ?thesis using assms
    by (auto simp: task_inv_def phase_ok_def intro!: tokens_ok_set_phase stop_ok_set_phase split: if_splits)
next
  case (SeeStop i)
  then show ?thesis using assms
    by (auto simp: task_inv_def phase_ok_def intro!: tokens_ok_set_phase stop_ok_set_phase split: if_splits)
next
  case (ExecStep j now)
  then show ?thesis using assms task_inv_exec_step by (auto split: if_splits)
next
  case (BodyReturns j err ctx)
  then have j: "j < length (tk_execs t)" and r: "ex_phase (tk_execs t ! j) \<noteq> Finished"
    and t': "t' = set_exec j (if fst (ExecuteWithTimeout err ctx False) = None then ClearStart else FailStop) t"
    using assms(2) by (auto split: if_splits exec_phase.splits)
  show ?thesis unfolding t' by (rule task_inv_set_exec [OF assms(1) j r]) (simp_all add: exec_ok_def)
qed

lemma reachable_inv: "reachable_task interval timeout t \<Longrightarrow> task_inv t"
proof (induction rule: reachable_task.induct)
  case created
  show ?case by (simp add: task_inv_def tokens_ok_def stop_ok_def new_task_def)
next
  case (step t e t')
  show ?case by (rule task_inv_event [OF step.IH step.hyps(2)])
qed

lemma reachable_run: "reachable_task interval timeout t \<Longrightarrow> run_events es t = Some t' \<Longrightarrow> reachable_task interval timeout t'"
  by (induction es arbitrary: t) (auto split: option.splits intro: reachable_task.step)

section \<open>Stopping\<close>

definition can_exit :: "nat \<Rightarrow> nat \<Rightarrow> Task \<Rightarrow> bool" where
  "can_exit n i t \<longleftrightarrow> (\<exists>es t'. length es \<le> n \<and> run_events es t = Some t' \<and> lp_phase (tk_loops t' ! i) = Exited)"

lemma can_exit_step: "apply_event e t = Some t1 \<Longrightarrow> can_exit n i t1 \<Longrightarrow> can_exit (Suc n) i t"
  unfolding can_exit_def by (elim exE conjE) (rule_tac x = "e # es" in exI, simp)

lemma can_exit_mono: "can_exit n i t \<Longrightarrow> n \<le> k \<Longrightarrow> can_exit k i t"
  unfolding can_exit_def using le_trans by blast

lemma phase_set_phase [simp]: "i < length (tk_loops t) \<Longrightarrow> lp_phase (tk_loops (set_phase i ph t) ! i) = ph"
  by (simp add: set_phase_def)

lemma is_closed_set_phase [simp]: "is_closed ch (set_phase i ph t) = is_closed ch t"
  by (simp add: is_closed_def split: option.split)

text \<open>Once the task is stopped, every channel a loop waits on is closed.\<close>

lemma waiting_closed:
  assumes "task_inv t" "\<not> tk_Running t" "i < length (tk_loops t)" "lp_phase (tk_loops t ! i) = Waiting ch"
  obtains k where "ch = Some k" "k < length (tk_chans t)" "tk_chans t ! k"
proof -
  have "\<forall>l \<in> set (tk_loops t). phase_ok t (lp_phase l)" using assms(1) by (simp add: task_inv_def stop_ok_def)
  then have "phase_ok t (Waiting ch)" using nth_mem [OF assms(3)] assms(4) by metis
  then obtain k where k: "ch = Some k" "k < length (tk_chans t)" by (auto simp: phase_ok_def split: option.splits)
  then have "tk_chans t ! k" using assms(1,2) by (simp add: task_inv_def stop_ok_def)
  then show thesis using k that by blast
qed

lemma can_exit_StopDue:
  assumes "i < length (tk_loops t)" "lp_phase (tk_loops t ! i) = StopDue"
  shows "can_exit 1 i t"
  using assms unfolding can_exit_def by (intro exI [of _ "[LoopStep i]"]) (simp add: loop_step_def)

lemma can_exit_Waiting:
  assumes "i < length (tk_loops t)" "lp_phase (tk_loops t ! i) = Waiting ch" "is_closed ch t"
  shows "can_exit 2 i t"
proof -
  have e: "apply_event (SeeStop i) t = Some (set_phase i StopDue t)" using assms by simp
  have "can_exit 1 i (set_phase i StopDue t)" using assms by (intro can_exit_StopDue) simp_all
  from can_exit_step [OF e this] show ?thesis by (simp add: numeral_2_eq_2)
qed

lemma can_exit_ReadStop:
  assumes "i < length (tk_loops t)" "lp_phase (tk_loops t ! i) = ReadStop" "is_closed (tk_Stop t) t"
  shows "can_exit 3 i t"
proof -
  have e: "apply_event (LoopStep i) t = Some (set_phase i (Waiting (tk_Stop t)) t)" using assms by (simp add: loop_step_def)
  have "can_exit 2 i (set_phase i (Waiting (tk_Stop t)) t)"
    using assms by (intro can_exit_Waiting [where ch = "tk_Stop t"]) simp_all
  from can_exit_step [OF e this] show ?thesis by simp
qed

lemma stopped_loop_exits:
  assumes inv: "task_inv t" and stopped: "\<not> tk_Running t" and i: "i < length (tk_loops t)"
  shows "can_exit 4 i t"
proof -
  have "tk_loops t \<noteq> []" using i by auto
  then have "tk_Stop t \<noteq> None" using inv by (simp add: task_inv_def stop_ok_def)
  then obtain s where s: "tk_Stop t = Some s" by blast
  then have "s < length (tk_chans t)" using inv by (simp add: task_inv_def stop_ok_def)
  then have closed: "is_closed (tk_Stop t) t" using inv stopped s by (simp add: task_inv_def stop_ok_def is_closed_def)
  have closed': "is_closed ch t" if "lp_phase (tk_loops t ! i) = Waiting ch" for ch
    by (rule waiting_closed [OF inv stopped i that]) (simp add: is_closed_def)
  have skip: "can_exit 4 i t" if "apply_event (LoopStep i) t = Some (set_phase i ReadStop u)"
    "length (tk_loops u) = length (tk_loops t)" "tk_Stop u = tk_Stop t" "tk_chans u = tk_chans t" for u
  proof -
    have "is_closed (tk_Stop u) u" using closed that(3,4) by (simp add: is_closed_def s)
    then have "can_exit 3 i (set_phase i ReadStop u)" using that(2) i by (intro can_exit_ReadStop) simp_all
    from can_exit_step [OF that(1) this] show ?thesis by simp
  qed
  show ?thesis
  proof (cases "lp_phase (tk_loops t ! i)")
    case CheckStop
    then show ?thesis using skip [of t] closed i by (simp add: loop_step_def)
  next
    case TakeToken
    then show ?thesis using skip [of "take_token i t"] i by (simp add: loop_step_def take_token_def)
  next
    case ReadStop
    then show ?thesis using can_exit_ReadStop [OF i _ closed] can_exit_mono by fastforce
  next
    case (Waiting ch)
    then show ?thesis using can_exit_Waiting [OF i Waiting closed'] can_exit_mono by fastforce
  next
    case StopDue
    then show ?thesis using can_exit_StopDue [OF i] can_exit_mono by fastforce
  next
    case Exited
    then show ?thesis unfolding can_exit_def by (intro exI [of _ "[]"]) simp
  qed
qed

section \<open>Properties\<close>

text \<open>
  C17. Whatever the interleaving of starts, stops, timer ticks and executions, no channel is closed
  twice, the rounds of one loop never overlap, a stopped task has cancelled the context of every
  execution still running, and each of its loops can exit within four of its own actions.
\<close>

theorem task_rounds_exclusive:
  assumes "reachable_task interval timeout t"
  shows "\<not> tk_panic t \<and> (\<forall>i. length (live_execs i t) \<le> 1) \<and>
         (tk_Running t \<or>
           (\<forall>e \<in> set (tk_execs t). \<forall>c. ex_phase e = Running c \<longrightarrow> (\<exists>k. c = Some k \<and> tk_ctxs t ! k)) \<and>
           (\<forall>i < length (tk_loops t). can_exit 4 i t))"
proof -
  have inv: "task_inv t" using assms by (rule reachable_inv)
  have "length (live_execs i t) \<le> 1" for i
  proof (cases "i < length (tk_loops t)")
    case True
    then show ?thesis using inv by (simp add: task_inv_def tokens_ok_def)
  next
    case False
    then have "live_execs i t = []" using inv by (auto simp: task_inv_def tokens_ok_def live_execs_def filter_empty_conv)
    then show ?thesis by simp
  qed
  moreover have "\<exists>k. c = Some k \<and> tk_ctxs t ! k" if "\<not> tk_Running t" "e \<in> set (tk_execs t)" "ex_phase e = Running c" for e c
  proof -
    have "exec_ok t (Running c)" using inv that by (force simp: task_inv_def stop_ok_def)
    then show ?thesis using inv that(1) by (auto simp: exec_ok_def task_inv_def stop_ok_def split: option.splits)
  qed
  ultimately show ?thesis using inv stopped_loop_exits [OF inv] by (auto simp: task_inv_def stop_ok_def)
qed

theorem task_rounds_exclusive_witness:
  "\<exists>t. run_events [DoStart True, LoopStep 0, LoopStep 0, ExecStep 0 7, ExecStep 0 7, LoopStep 0, Tick 0, LoopStep 0, LoopStep 0, DoClose]
         (new_task 60 0) = Some t \<and> length (tk_execs t) = 1 \<and> ex_phase (tk_execs t ! 0) = Running (Some 0) \<and> tk_ctxs t ! 0 \<and>
       can_exit 4 0 t"
proof -
  let ?es = "[DoStart True, LoopStep 0, LoopStep 0, ExecStep 0 7, ExecStep 0 7, LoopStep 0, Tick 0, LoopStep 0, LoopStep 0, DoClose]"
  have "run_events ?es (new_task 60 0) \<noteq> None"
    "(\<lambda>t. length (tk_execs t) = 1 \<and> ex_phase (tk_execs t ! 0) = Running (Some 0) \<and> \<not> tk_Running t \<and> length (tk_loops t) = 1)
       (the (run_events ?es (new_task 60 0)))" by code_simp+
  then obtain t where t: "run_events ?es (new_task 60 0) = Some t" and f: "length (tk_execs t) = 1"
    "ex_phase (tk_execs t ! 0) = Running (Some 0)" "\<not> tk_Running t" "length (tk_loops t) = 1" by auto
  have "reachable_task 60 0 t" by (rule reachable_run [OF reachable_task.created t])
  note p = task_rounds_exclusive [OF this]
  have "tk_execs t ! 0 \<in> set (tk_execs t)" using f(1) by (intro nth_mem) simp
  with p f(2,3) have "\<exists>k. Some 0 = Some k \<and> tk_ctxs t ! k" by blast
  then have "tk_ctxs t ! 0" by simp
  moreover have "can_exit 4 0 t" using p f(3,4) by simp
  ultimately show ?thesis using t f(1,2) by blast
qed

text \<open>
  A restart right after a stop does not last: when a loop of the stopped run was still waiting
  on the old channel, its deferred \<open>safeStop\<close> stops the run that was started in between and cancels
  its context.
\<close>

theorem restart_stopped_by_old_loop:
  assumes "reachable_task interval timeout t" and "\<not> tk_Running t"
    and "i < length (tk_loops t)" and "lp_phase (tk_loops t ! i) = Waiting ch"
  shows "\<exists>t'. run_events [DoStart first, SeeStop i, LoopStep i] t = Some t' \<and> tk_Running (Start first t) \<and>
              \<not> tk_Running t' \<and> (\<forall>c < length (tk_ctxs t'). tk_ctxs t' ! c)"
proof -
  have inv: "task_inv t" using assms(1) by (rule reachable_inv)
  obtain k where k: "ch = Some k" "k < length (tk_chans t)" "tk_chans t ! k"
    by (rule waiting_closed [OF inv assms(2-4)])
  let ?s = "Start first t"
  have s: "i < length (tk_loops ?s)" "lp_phase (tk_loops ?s ! i) = Waiting ch" "is_closed ch ?s" "tk_Running ?s"
    using assms(2-4) k by (simp_all add: Start_def nth_append is_closed_def)
  let ?t' = "set_phase i Exited (safeStop (set_phase i StopDue ?s))"
  have run: "run_events [DoStart first, SeeStop i, LoopStep i] t = Some ?t'"
    using s by (simp add: loop_step_def)
  have "reachable_task interval timeout ?t'" by (rule reachable_run [OF assms(1) run])
  then have "task_inv ?t'" by (rule reachable_inv)
  moreover have "\<not> tk_Running ?t'" by simp
  ultimately have "\<forall>c < length (tk_ctxs ?t'). tk_ctxs ?t' ! c" unfolding task_inv_def stop_ok_def by blast
  then show ?thesis using run s(4) \<open>\<not> tk_Running ?t'\<close> by blast
qed

theorem restart_stopped_by_old_loop_witness:
  "\<exists>t t'. run_events [DoStart False, LoopStep 0, DoClose] (new_task 60 0) = Some t \<and>
          run_events [DoStart False, SeeStop 0, LoopStep 0] t = Some t' \<and> tk_Running (Start False t) \<and> \<not> tk_Running t'"
proof -
  let ?es = "[DoStart False, LoopStep 0, DoClose]"
  have "run_events ?es (new_task 60 0) \<noteq> None"
    "(\<lambda>t. \<not> tk_Running t \<and> 0 < length (tk_loops t) \<and> lp_phase (tk_loops t ! 0) = Waiting (Some 0)) (the (run_events ?es (new_task 60 0)))"
    by code_simp+
  then obtain t where t: "run_events ?es (new_task 60 0) = Some t" and f: "\<not> tk_Running t" "0 < length (tk_loops t)"
    "lp_phase (tk_loops t ! 0) = Waiting (Some 0)" by auto
  have "reachable_task 60 0 t" by (rule reachable_run [OF reachable_task.created t])
  from restart_stopped_by_old_loop [OF this f, of False] t show ?thesis by blast
qed

end
