(* ===== verification/Go_Path.thy ===== *)
theory Go_Path
  imports Go_Strings
begin

text \<open>
  The part of \<open>path/filepath\<close> the configuration code uses: \<open>Clean\<close> and \<open>Join\<close> with \<open>/\<close> as the
  separator, and the laws of cleaned paths.
\<close>

section \<open>Cleaning\<close>

text \<open>The kept components, last first: \<open>..\<close> removes one, is dropped at the root and kept at the start of a relative path.\<close>

definition clean_step :: "bool \<Rightarrow> string \<Rightarrow> string list \<Rightarrow> string list" where
  "clean_step rooted part out =
     (if part = [] \<or> part = ''.'' then out
      else if part = ''..'' then
        (case out of
           [] \<Rightarrow> if rooted then [] else [''..'']
         | p # ps \<Rightarrow> if p = ''..'' then ''..'' # out else ps)
      else part # out)"

definition clean_parts :: "bool \<Rightarrow> string list \<Rightarrow> string list" where
  "clean_parts rooted parts = rev (fold (clean_step rooted) parts [])"

definition show_path :: "bool \<Rightarrow> string list \<Rightarrow> string" where
  "show_path rooted parts =
     (if rooted then CHR ''/'' # Join parts ''/'' else if parts = [] then ''.'' else Join parts ''/'')"

definition path_Clean :: "string \<Rightarrow> string" where
  "path_Clean path =
     (let rooted = (path \<noteq> [] \<and> hd path = CHR ''/'')
      in show_path rooted (clean_parts rooted (SplitChar (CHR ''/'') path)))"

definition path_Join :: "string list \<Rightarrow> string" where
  "path_Join elems = (let es = filter (\<lambda>e. e \<noteq> []) elems in if es = [] then [] else path_Clean (Join es ''/''))"

section \<open>Cleaned components\<close>

definition clean_part :: "string \<Rightarrow> bool" where
  "clean_part p \<longleftrightarrow> p \<noteq> [] \<and> p \<noteq> ''.'' \<and> CHR ''/'' \<notin> set p"

text \<open>A component list that is already clean, last first.\<close>

fun clean_stack :: "bool \<Rightarrow> string list \<Rightarrow> bool" where
  "clean_stack rooted [] = True"
| "clean_stack rooted (p # ps) =
     (clean_part p \<and> clean_stack rooted ps \<and> (p = ''..'' \<longrightarrow> \<not> rooted \<and> list_all (\<lambda>q. q = ''..'') ps))"

lemma clean_step_stack:
  "clean_stack rooted out \<Longrightarrow> CHR ''/'' \<notin> set part \<Longrightarrow> clean_stack rooted (clean_step rooted part out)"
  by (cases out) (auto simp: clean_step_def clean_part_def)

lemma fold_clean_stack:
  "clean_stack rooted out \<Longrightarrow> \<forall>p \<in> set parts. CHR ''/'' \<notin> set p \<Longrightarrow> clean_stack rooted (fold (clean_step rooted) parts out)"
  by (induction parts arbitrary: out) (simp_all add: clean_step_stack)

lemma clean_step_keeps:
  "clean_stack rooted (p # ps) \<Longrightarrow> clean_step rooted p ps = p # ps"
  by (cases ps) (auto simp: clean_step_def clean_part_def)

lemma fold_clean_fixed: "clean_stack rooted ps \<Longrightarrow> fold (clean_step rooted) (rev ps) [] = ps"
  by (induction ps) (simp_all add: clean_step_keeps del: clean_stack.simps(2), simp add: clean_step_keeps)

lemma clean_stack_parts: "clean_stack rooted ps \<Longrightarrow> list_all clean_part ps"
  by (induction ps) simp_all

lemma Split_parts:
  assumes "list_all clean_part parts" "parts \<noteq> []"
  shows "SplitChar (CHR ''/'') (Join parts ''/'') = parts" "Join parts ''/'' \<noteq> []" "hd (Join parts ''/'') \<noteq> CHR ''/''"
proof -
  have "list_all (\<lambda>w. CHR ''/'' \<notin> set w) parts" using assms(1) by (auto simp: list_all_iff clean_part_def)
  then show "SplitChar (CHR ''/'') (Join parts ''/'') = parts" using assms(2) by (rule SplitChar_Join)
  obtain p ps where p: "parts = p # ps" using assms(2) by (cases parts) auto
  have "p \<noteq> []" "CHR ''/'' \<notin> set p" using assms(1) p by (auto simp: clean_part_def)
  then show "Join parts ''/'' \<noteq> []" "hd (Join parts ''/'') \<noteq> CHR ''/''"
    by (cases ps; cases p; auto simp: p Join_Cons)+
qed

lemma clean_show:
  assumes "clean_stack rooted ps"
  shows "path_Clean (show_path rooted (rev ps)) = show_path rooted (rev ps)"
proof (cases "ps = []")
  case True
  then show ?thesis by (cases rooted) (simp_all add: show_path_def path_Clean_def clean_parts_def clean_step_def)
next
  case False
  let ?parts = "rev ps"
  have c: "list_all clean_part ?parts" "?parts \<noteq> []" using clean_stack_parts [OF assms] False by simp_all
  have f: "clean_parts rooted ?parts = ?parts" by (simp add: clean_parts_def fold_clean_fixed [OF assms])
  show ?thesis
  proof (cases rooted)
    case True
    have "clean_parts True ([] # ?parts) = clean_parts True ?parts" by (simp add: clean_parts_def clean_step_def)
    then show ?thesis using True f Split_parts(1) [OF c] c(2) by (simp add: show_path_def path_Clean_def)
  next
    case nr: False
    then show ?thesis using f Split_parts [OF c] c(2) by (simp add: show_path_def path_Clean_def)
  qed
qed

lemma Split_no_sep: "p \<in> set (SplitChar c s) \<Longrightarrow> c \<notin> set p"
  by (induction c s arbitrary: p rule: SplitChar.induct) (auto split: if_splits list.splits)

lemma path_Clean_idem: "path_Clean (path_Clean p) = path_Clean p"
proof -
  let ?r = "p \<noteq> [] \<and> hd p = CHR ''/''" and ?st = "fold (clean_step (p \<noteq> [] \<and> hd p = CHR ''/'')) (SplitChar (CHR ''/'') p) []"
  have "clean_stack ?r ?st" by (rule fold_clean_stack) (auto dest: Split_no_sep)
  from clean_show [OF this] show ?thesis by (simp add: path_Clean_def clean_parts_def Let_def)
qed

end
