(* ===== verification/Local_Config.thy ===== *)
theory Local_Config
  imports Go_Path Panel_Types
begin

text \<open>
  The local configuration (\<open>conf/conf.go\<close>, \<open>conf/v2.go\<close>): the types of both file formats, the
  translation of the second format into the first with its defaults and checks, the normalisation of
  directories and the lookup of the configuration file. Reading and decoding the file is the viper
  package; its result is an argument.
\<close>

section \<open>The configuration\<close>

record LogConfig =
  lc_Level :: string
  lc_CoreLevel :: string
  lc_Output :: string
  lc_Access :: string

record MachineProfileConfig =
  mp_Name :: string
  mp_APIHost :: string
  mp_Key :: string
  mp_MachineID :: int
  mp_Timeout :: int
  mp_ConfigDir :: string
  mp_Realtime :: RealtimeConfig

record MachineConfig =
  mc_Enabled :: bool
  mc_ContinueOnError :: bool
  mc_Profiles :: "MachineProfileConfig list"

record SubscriptionProxyProfile =
  pp_SiteID :: string
  pp_UpstreamBaseURL :: string
  pp_SubscribePath :: string

record ZeroSSLConfig =
  zs_Status :: string
  zs_CertificateID :: string
  zs_ValidationPath :: string
  zs_ValidationContent :: json_any
  zs_CertificatePEM :: string
  zs_CABundlePEM :: string
  zs_ExpiresAt :: string

record SubscriptionProxyConfig =
  sp_Enabled :: bool
  sp_HTTPSListen :: string
  sp_HTTPListen :: string
  sp_CertFile :: string
  sp_KeyFile :: string
  sp_CertificateDomain :: string
  sp_ChallengeDir :: string
  sp_ZeroSSL :: ZeroSSLConfig
  sp_SiteID :: string
  sp_UpstreamBaseURL :: string
  sp_SubscribePath :: string
  sp_AllowHTTPFallback :: bool
  sp_MaxResponseBytes :: int
  sp_Profiles :: "SubscriptionProxyProfile list"

record RuntimeConfig =
  ru_GoMemLimit :: string
  ru_GOGC :: int
  ru_AutoHY2PortForward :: bool

record EdgeConfig =
  ec_Enabled :: bool
  ec_URL :: string
  ec_Timeout :: int

record DNSConfig =
  dc_Servers :: "string list"
  dc_QueryStrategy :: string

record Conf =
  cf_LogConfig :: LogConfig
  cf_NodeConfigs :: "NodeConfig list"
  cf_MachineConfig :: MachineConfig
  cf_SubscriptionProxy :: SubscriptionProxyConfig
  cf_DNSConfig :: DNSConfig
  cf_PprofPort :: int
  cf_HealthPort :: int
  cf_RuntimeConfig :: RuntimeConfig
  cf_RealtimeConfig :: RealtimeConfig
  cf_EdgeConfig :: EdgeConfig

definition zero_RealtimeConfig :: RealtimeConfig where
  "zero_RealtimeConfig = \<lparr>rc_Enabled = False, rc_URL = [], rc_PingInterval = 0, rc_ReconnectInterval = 0\<rparr>"

definition zero_ZeroSSLConfig :: ZeroSSLConfig where
  "zero_ZeroSSLConfig =
     \<lparr>zs_Status = [], zs_CertificateID = [], zs_ValidationPath = [], zs_ValidationContent = JNull, zs_CertificatePEM = [],
      zs_CABundlePEM = [], zs_ExpiresAt = []\<rparr>"

definition zero_SubscriptionProxyConfig :: SubscriptionProxyConfig where
  "zero_SubscriptionProxyConfig =
     \<lparr>sp_Enabled = False, sp_HTTPSListen = [], sp_HTTPListen = [], sp_CertFile = [], sp_KeyFile = [], sp_CertificateDomain = [],
      sp_ChallengeDir = [], sp_ZeroSSL = zero_ZeroSSLConfig, sp_SiteID = [], sp_UpstreamBaseURL = [], sp_SubscribePath = [],
      sp_AllowHTTPFallback = False, sp_MaxResponseBytes = 0, sp_Profiles = []\<rparr>"

definition DefaultEdgeURL :: string where
  "DefaultEdgeURL = ''http://127.0.0.1:17990''"

definition DefaultNodeConfigDir :: string where
  "DefaultNodeConfigDir = ''/etc/v2node''"

text \<open>\<open>conf.New\<close>.\<close>

definition New_Conf :: Conf where
  "New_Conf =
     \<lparr>cf_LogConfig = \<lparr>lc_Level = ''info'', lc_CoreLevel = [], lc_Output = [], lc_Access = ''none''\<rparr>, cf_NodeConfigs = [],
      cf_MachineConfig = \<lparr>mc_Enabled = False, mc_ContinueOnError = False, mc_Profiles = []\<rparr>,
      cf_SubscriptionProxy = zero_SubscriptionProxyConfig, cf_DNSConfig = \<lparr>dc_Servers = [], dc_QueryStrategy = []\<rparr>,
      cf_PprofPort = 0, cf_HealthPort = 0,
      cf_RuntimeConfig = \<lparr>ru_GoMemLimit = [], ru_GOGC = 0, ru_AutoHY2PortForward = False\<rparr>,
      cf_RealtimeConfig = zero_RealtimeConfig, cf_EdgeConfig = \<lparr>ec_Enabled = False, ec_URL = DefaultEdgeURL, ec_Timeout = 2\<rparr>\<rparr>"

section \<open>Normalisation\<close>

definition NormalizeConfigDir :: "string \<Rightarrow> string" where
  "NormalizeConfigDir path = (if path = [] then DefaultNodeConfigDir else path_Clean path)"

definition normalizeNodeConfigs :: "NodeConfig list \<Rightarrow> NodeConfig list" where
  "normalizeNodeConfigs nodes = map (\<lambda>n. n\<lparr>nc_ConfigDir := NormalizeConfigDir (nc_ConfigDir n)\<rparr>) nodes"

definition normalizeMachineProfiles :: "MachineProfileConfig list \<Rightarrow> MachineProfileConfig list" where
  "normalizeMachineProfiles ps =
     map (\<lambda>p. if mp_ConfigDir p \<noteq> [] then p\<lparr>mp_ConfigDir := NormalizeConfigDir (mp_ConfigDir p)\<rparr> else p) ps"

definition normalizeEdgeConfig :: "EdgeConfig \<Rightarrow> EdgeConfig" where
  "normalizeEdgeConfig edge =
     (let e1 = (if ec_URL edge = [] then edge\<lparr>ec_URL := DefaultEdgeURL\<rparr> else edge)
      in if ec_Timeout e1 \<le> 0 then e1\<lparr>ec_Timeout := 2\<rparr> else e1)"

definition normalize_conf :: "Conf \<Rightarrow> Conf" where
  "normalize_conf p =
     p\<lparr>cf_NodeConfigs := normalizeNodeConfigs (cf_NodeConfigs p),
       cf_MachineConfig := (cf_MachineConfig p)\<lparr>mc_Profiles := normalizeMachineProfiles (mc_Profiles (cf_MachineConfig p))\<rparr>,
       cf_EdgeConfig := normalizeEdgeConfig (cf_EdgeConfig p)\<rparr>"

fun ext_scan :: "string \<Rightarrow> string \<Rightarrow> string" where
  "ext_scan [] acc = []"
| "ext_scan (c # cs) acc =
     (if c = CHR ''/'' then [] else if c = CHR ''.'' then c # acc else ext_scan cs (c # acc))"

text \<open>\<open>filepath.Ext\<close>: from the last dot of the last element, empty without one.\<close>

definition path_Ext :: "string \<Rightarrow> string" where
  "path_Ext path = ext_scan (rev path) []"

definition ResolveConfigPath :: "(string \<Rightarrow> bool) \<Rightarrow> string \<Rightarrow> string" where
  "ResolveConfigPath stat_ok filePath =
     (if filePath = [] then filePath
      else if stat_ok filePath then filePath
      else
        let ext = path_Ext filePath; base = take (length filePath - length ext) filePath
        in if ext = ''.json'' then
             (case find stat_ok [base @ ''.yml'', base @ ''.yaml''] of Some c \<Rightarrow> c | None \<Rightarrow> filePath)
           else if ext = ''.yml'' \<or> ext = ''.yaml'' then (if stat_ok (base @ ''.json'') then base @ ''.json'' else filePath)
           else filePath)"

section \<open>The second format\<close>

record panelConfigV2 =
  p2_URL :: string
  p2_Token :: string
  p2_NodeID :: int
  p2_MachineID :: int
  p2_Timeout :: int

record kernelConfigV2 =
  k2_Type :: string
  k2_ConfigDir :: string
  k2_LogLevel :: string
  k2_DNSServers :: "string list"
  k2_IPStrategy :: string

record logConfigV2 =
  l2_Level :: string
  l2_Output :: string
  l2_Access :: string

record realtimeConfigV2 =
  r2_Enabled :: "bool option"
  r2_URL :: string
  r2_PingInterval :: int
  r2_ReconnectInterval :: int

record machineProfileConfigV2 =
  f2_Name :: string
  f2_URL :: string
  f2_Token :: string
  f2_MachineID :: int
  f2_Timeout :: int
  f2_ConfigDir :: string

record machineConfigV2 =
  m2_Enabled :: bool
  m2_ContinueOnError :: "bool option"
  m2_Profiles :: "machineProfileConfigV2 list"

record nodeConfigV2 =
  n2_URL :: string
  n2_Token :: string
  n2_NodeID :: int
  n2_MachineID :: int
  n2_Timeout :: int
  n2_ConfigDir :: string

text \<open>
  The sections for the runtime, the edge daemon and the subscription proxy have the fields of the
  first format, so its records serve for them.
\<close>

record configV2 =
  v2_Panel :: panelConfigV2
  v2_Kernel :: kernelConfigV2
  v2_Log :: logConfigV2
  v2_Runtime :: RuntimeConfig
  v2_Realtime :: realtimeConfigV2
  v2_Machine :: machineConfigV2
  v2_SubscriptionProxy :: SubscriptionProxyConfig
  v2_Edge :: EdgeConfig
  v2_Health :: int
  v2_Pprof :: int
  v2_Nodes :: "nodeConfigV2 list"

datatype conf_error =
    OpenConfigError | ReadConfigError | UnmarshalError | ProfilesIncomplete | PanelIncomplete | NodesIncomplete

definition isConfigV2 :: "(string \<Rightarrow> bool) \<Rightarrow> bool" where
  "isConfigV2 IsSet \<longleftrightarrow>
     IsSet ''panel'' \<or> IsSet ''kernel'' \<or> IsSet ''runtime'' \<or> IsSet ''health_port'' \<or> IsSet ''machine'' \<or> IsSet ''edge''"

definition take_string :: "string \<Rightarrow> string list \<times> string list \<Rightarrow> string list \<times> string list" where
  "take_string value acc =
     (case acc of (normalized, seen) \<Rightarrow>
        let cleaned = TrimSpace value
        in if cleaned = [] \<or> cleaned \<in> set seen then (normalized, seen) else (normalized @ [cleaned], cleaned # seen))"

definition normalizeStringList :: "string list \<Rightarrow> string list" where
  "normalizeStringList values = fst (fold take_string values ([], []))"

definition resolveNodeConfigDir :: "string \<Rightarrow> string \<Rightarrow> int \<Rightarrow> bool \<Rightarrow> string" where
  "resolveNodeConfigDir baseDir override nodeID multiNode =
     (if TrimSpace override \<noteq> [] then NormalizeConfigDir override
      else let root = NormalizeConfigDir baseDir
           in if multiNode then path_Join [root, ''node-'' @ Itoa nodeID] else root)"

definition firstNonEmpty :: "string list \<Rightarrow> string" where
  "firstNonEmpty values = (case find (\<lambda>v. v \<noteq> []) values of None \<Rightarrow> [] | Some v \<Rightarrow> v)"

definition firstPositive :: "int list \<Rightarrow> int" where
  "firstPositive values = (case find (\<lambda>v. v > 0) values of None \<Rightarrow> 0 | Some v \<Rightarrow> v)"

definition confZeroSSLFromV2 :: "ZeroSSLConfig \<Rightarrow> ZeroSSLConfig" where
  "confZeroSSLFromV2 src =
     \<lparr>zs_Status = TrimSpace (zs_Status src), zs_CertificateID = TrimSpace (zs_CertificateID src),
      zs_ValidationPath = TrimSpace (zs_ValidationPath src), zs_ValidationContent = zs_ValidationContent src,
      zs_CertificatePEM = TrimSpace (zs_CertificatePEM src), zs_CABundlePEM = TrimSpace (zs_CABundlePEM src),
      zs_ExpiresAt = TrimSpace (zs_ExpiresAt src)\<rparr>"

definition subscriptionProxyFromV2 :: "SubscriptionProxyConfig \<Rightarrow> SubscriptionProxyConfig" where
  "subscriptionProxyFromV2 src =
     (let profiles = map (\<lambda>row. \<lparr>pp_SiteID = TrimSpace (pp_SiteID row), pp_UpstreamBaseURL = TrimSpace (pp_UpstreamBaseURL row),
                                  pp_SubscribePath = Trim (TrimSpace (pp_SubscribePath row)) ''/''\<rparr>) (sp_Profiles src)
      in \<lparr>sp_Enabled = (sp_Enabled src \<or> profiles \<noteq> []), sp_HTTPSListen = TrimSpace (sp_HTTPSListen src),
          sp_HTTPListen = TrimSpace (sp_HTTPListen src), sp_CertFile = TrimSpace (sp_CertFile src),
          sp_KeyFile = TrimSpace (sp_KeyFile src), sp_CertificateDomain = TrimSpace (sp_CertificateDomain src),
          sp_ChallengeDir = TrimSpace (sp_ChallengeDir src), sp_ZeroSSL = confZeroSSLFromV2 (sp_ZeroSSL src),
          sp_SiteID = TrimSpace (sp_SiteID src), sp_UpstreamBaseURL = TrimRight (TrimSpace (sp_UpstreamBaseURL src)) ''/'',
          sp_SubscribePath = Trim (TrimSpace (sp_SubscribePath src)) ''/'', sp_AllowHTTPFallback = sp_AllowHTTPFallback src,
          sp_MaxResponseBytes = sp_MaxResponseBytes src, sp_Profiles = profiles\<rparr>)"

definition over :: "string \<Rightarrow> string \<Rightarrow> string" where
  "over s d = (if TrimSpace s \<noteq> [] then TrimSpace s else d)"

definition profile_from_v2 :: "panelConfigV2 \<Rightarrow> machineProfileConfigV2 \<Rightarrow> MachineProfileConfig option" where
  "profile_from_v2 panel row =
     (let apiHost = firstNonEmpty [TrimSpace (f2_URL row), TrimSpace (p2_URL panel)];
          token = firstNonEmpty [TrimSpace (f2_Token row), TrimSpace (p2_Token panel)];
          timeout = (if f2_Timeout row \<le> 0 then p2_Timeout panel else f2_Timeout row);
          name = (if TrimSpace (f2_Name row) = [] \<and> f2_MachineID row > 0 then ''machine-'' @ Itoa (f2_MachineID row)
                  else TrimSpace (f2_Name row))
      in if apiHost = [] \<or> token = [] \<or> f2_MachineID row \<le> 0 then None
         else Some \<lparr>mp_Name = name, mp_APIHost = apiHost, mp_Key = token, mp_MachineID = f2_MachineID row, mp_Timeout = timeout,
                    mp_ConfigDir = TrimSpace (f2_ConfigDir row), mp_Realtime = zero_RealtimeConfig\<rparr>)"

definition node_from_v2 :: "panelConfigV2 \<Rightarrow> string \<Rightarrow> bool \<Rightarrow> nodeConfigV2 \<Rightarrow> NodeConfig option" where
  "node_from_v2 panel baseConfigDir multiNode row =
     (let apiHost = firstNonEmpty [TrimSpace (n2_URL row), TrimSpace (p2_URL panel)];
          token = firstNonEmpty [TrimSpace (n2_Token row), TrimSpace (p2_Token panel)];
          timeout = (if n2_Timeout row \<le> 0 then p2_Timeout panel else n2_Timeout row)
      in if apiHost = [] \<or> token = [] \<or> n2_NodeID row \<le> 0 then None
         else Some \<lparr>nc_APIHost = apiHost, nc_NodeID = n2_NodeID row, nc_Key = token,
                    nc_MachineID = firstPositive [n2_MachineID row, p2_MachineID panel], nc_Timeout = timeout,
                    nc_ConfigDir = resolveNodeConfigDir baseConfigDir (n2_ConfigDir row) (n2_NodeID row) multiNode\<rparr>)"

text \<open>The rows of a section, or \<open>None\<close> when one of them is incomplete.\<close>

definition all_rows :: "('a \<Rightarrow> 'b option) \<Rightarrow> 'a list \<Rightarrow> 'b list option" where
  "all_rows f rows = (if list_all (\<lambda>r. f r \<noteq> None) rows then Some (map (\<lambda>r. the (f r)) rows) else None)"

definition general_from_v2 :: "configV2 \<Rightarrow> Conf \<Rightarrow> Conf" where
  "general_from_v2 cfg p =
     (let lg = cf_LogConfig p; rt = cf_RealtimeConfig p; mc = cf_MachineConfig p;
          enabled = (m2_Enabled (v2_Machine cfg) \<or> m2_Profiles (v2_Machine cfg) \<noteq> [])
      in p\<lparr>cf_LogConfig := lg\<lparr>lc_Level := over (l2_Level (v2_Log cfg)) (lc_Level lg),
                              lc_Output := over (l2_Output (v2_Log cfg)) (lc_Output lg),
                              lc_Access := over (l2_Access (v2_Log cfg)) (lc_Access lg),
                              lc_CoreLevel := over (k2_LogLevel (v2_Kernel cfg)) (lc_CoreLevel lg)\<rparr>,
           cf_HealthPort := v2_Health cfg, cf_PprofPort := v2_Pprof cfg,
           cf_RuntimeConfig := (v2_Runtime cfg)\<lparr>ru_GoMemLimit := TrimSpace (ru_GoMemLimit (v2_Runtime cfg))\<rparr>,
           cf_DNSConfig := \<lparr>dc_Servers = normalizeStringList (k2_DNSServers (v2_Kernel cfg)),
                            dc_QueryStrategy = TrimSpace (k2_IPStrategy (v2_Kernel cfg))\<rparr>,
           cf_RealtimeConfig := rt\<lparr>rc_Enabled := (case r2_Enabled (v2_Realtime cfg) of None \<Rightarrow> rc_Enabled rt | Some b \<Rightarrow> b),
                                   rc_URL := over (r2_URL (v2_Realtime cfg)) (rc_URL rt),
                                   rc_PingInterval := (if r2_PingInterval (v2_Realtime cfg) > 0
                                                       then r2_PingInterval (v2_Realtime cfg) else rc_PingInterval rt),
                                   rc_ReconnectInterval := (if r2_ReconnectInterval (v2_Realtime cfg) > 0
                                                            then r2_ReconnectInterval (v2_Realtime cfg) else rc_ReconnectInterval rt)\<rparr>,
           cf_MachineConfig := mc\<lparr>mc_Enabled := enabled,
                                  mc_ContinueOnError := (case m2_ContinueOnError (v2_Machine cfg) of
                                                           Some b \<Rightarrow> b
                                                         | None \<Rightarrow> if enabled then True else mc_ContinueOnError mc)\<rparr>\<rparr>)"

definition loadFromV2 :: "configV2 \<Rightarrow> Conf \<Rightarrow> conf_error + Conf" where
  "loadFromV2 cfg p0 =
     (let p = general_from_v2 cfg p0; panel = v2_Panel cfg; baseConfigDir = NormalizeConfigDir (k2_ConfigDir (v2_Kernel cfg));
          baseAPIHost = TrimSpace (p2_URL panel); baseToken = TrimSpace (p2_Token panel)
      in case all_rows (profile_from_v2 panel) (m2_Profiles (v2_Machine cfg)) of
           None \<Rightarrow> Inl ProfilesIncomplete
         | Some machineProfiles \<Rightarrow>
             let p1 = p\<lparr>cf_MachineConfig := (cf_MachineConfig p)\<lparr>mc_Profiles := machineProfiles\<rparr>,
                        cf_SubscriptionProxy := subscriptionProxyFromV2 (v2_SubscriptionProxy cfg),
                        cf_EdgeConfig := (v2_Edge cfg)\<lparr>ec_URL := TrimSpace (ec_URL (v2_Edge cfg))\<rparr>\<rparr>
             in if v2_Nodes cfg = [] then
                  (if machineProfiles \<noteq> [] then Inr (p1\<lparr>cf_NodeConfigs := []\<rparr>)
                   else if baseAPIHost = [] \<or> baseToken = [] \<or> p2_NodeID panel \<le> 0 then Inl PanelIncomplete
                   else Inr (p1\<lparr>cf_NodeConfigs := [\<lparr>nc_APIHost = baseAPIHost, nc_NodeID = p2_NodeID panel, nc_Key = baseToken,
                                                    nc_MachineID = p2_MachineID panel, nc_Timeout = p2_Timeout panel,
                                                    nc_ConfigDir = baseConfigDir\<rparr>]\<rparr>))
                else case all_rows (node_from_v2 panel baseConfigDir (length (v2_Nodes cfg) > 1)) (v2_Nodes cfg) of
                       None \<Rightarrow> Inl NodesIncomplete
                     | Some nodes \<Rightarrow> Inr (p1\<lparr>cf_NodeConfigs := nodes\<rparr>))"

text \<open>What the file system and the decoder deliver for a file.\<close>

record conf_file =
  fl_open_ok :: bool
  fl_read_ok :: bool
  fl_IsSet :: "string \<Rightarrow> bool"
  fl_v2 :: "configV2 option"
  fl_v1 :: "Conf \<Rightarrow> Conf option"

definition LoadFromPath :: "conf_file \<Rightarrow> Conf \<Rightarrow> conf_error + Conf" where
  "LoadFromPath f p =
     (if \<not> fl_open_ok f then Inl OpenConfigError
      else if \<not> fl_read_ok f then Inl ReadConfigError
      else if isConfigV2 (fl_IsSet f) then
        (case fl_v2 f of
           None \<Rightarrow> Inl UnmarshalError
         | Some cfg \<Rightarrow> (case loadFromV2 cfg p of Inl err \<Rightarrow> Inl err | Inr p' \<Rightarrow> Inr (normalize_conf p')))
      else case fl_v1 f p of None \<Rightarrow> Inl UnmarshalError | Some p' \<Rightarrow> Inr (normalize_conf p'))"

section \<open>Well-formed configurations\<close>

definition node_wf :: "NodeConfig \<Rightarrow> bool" where
  "node_wf n \<longleftrightarrow> nc_APIHost n \<noteq> [] \<and> nc_Key n \<noteq> [] \<and> nc_NodeID n > 0 \<and> path_Clean (nc_ConfigDir n) = nc_ConfigDir n"

definition profile_wf :: "MachineProfileConfig \<Rightarrow> bool" where
  "profile_wf p \<longleftrightarrow>
     mp_Name p \<noteq> [] \<and> mp_APIHost p \<noteq> [] \<and> mp_Key p \<noteq> [] \<and> mp_MachineID p > 0 \<and>
     (mp_ConfigDir p = [] \<or> path_Clean (mp_ConfigDir p) = mp_ConfigDir p)"

definition conf_wf :: "Conf \<Rightarrow> bool" where
  "conf_wf c \<longleftrightarrow>
     list_all node_wf (cf_NodeConfigs c) \<and> list_all profile_wf (mc_Profiles (cf_MachineConfig c)) \<and>
     (cf_NodeConfigs c \<noteq> [] \<or> mc_Enabled (cf_MachineConfig c) \<and> mc_Profiles (cf_MachineConfig c) \<noteq> []) \<and>
     ec_URL (cf_EdgeConfig c) \<noteq> [] \<and> ec_Timeout (cf_EdgeConfig c) > 0 \<and>
     distinct (dc_Servers (cf_DNSConfig c)) \<and> [] \<notin> set (dc_Servers (cf_DNSConfig c))"

lemma NormalizeConfigDir_clean [simp]: "path_Clean (NormalizeConfigDir d) = NormalizeConfigDir d"
proof (cases "d = []")
  case True
  have "path_Clean DefaultNodeConfigDir = DefaultNodeConfigDir" by code_simp
  then show ?thesis using True by (simp add: NormalizeConfigDir_def)
qed (simp add: NormalizeConfigDir_def path_Clean_idem)

lemma path_Clean_ne [simp]: "path_Clean d \<noteq> []"
proof -
  have "Join (rev (fold (clean_step r) (SplitChar (CHR ''/'') d) [])) ''/'' \<noteq> []"
    if "fold (clean_step r) (SplitChar (CHR ''/'') d) [] \<noteq> []" for r
  proof (rule Split_parts(2))
    have "clean_stack r (fold (clean_step r) (SplitChar (CHR ''/'') d) [])"
      by (rule fold_clean_stack) (auto dest: Split_no_sep)
    then show "list_all clean_part (rev (fold (clean_step r) (SplitChar (CHR ''/'') d) []))" by (simp add: clean_stack_parts)
  qed (use that in simp)
  then show ?thesis by (auto simp: path_Clean_def show_path_def clean_parts_def clean_step_def Let_def)
qed

lemma NormalizeConfigDir_idem [simp]: "NormalizeConfigDir (NormalizeConfigDir d) = NormalizeConfigDir d"
proof -
  have "NormalizeConfigDir d \<noteq> []" by (simp add: NormalizeConfigDir_def DefaultNodeConfigDir_def)
  then have "NormalizeConfigDir (NormalizeConfigDir d) = path_Clean (NormalizeConfigDir d)"
    unfolding NormalizeConfigDir_def [of "NormalizeConfigDir d"] by (rule if_not_P)
  then show ?thesis by simp
qed

lemma normalizeStringList_ok: "distinct (normalizeStringList vs) \<and> [] \<notin> set (normalizeStringList vs)"
proof -
  let ?P = "\<lambda>acc. distinct (fst acc) \<and> [] \<notin> set (fst acc) \<and> set (fst acc) \<subseteq> set (snd acc)"
  have "?P (fold take_string vs ([], []))"
  proof (rule fold_invariant [where Q = "\<lambda>_. True"])
    fix v :: string and acc :: "string list \<times> string list"
    assume P: "?P acc"
    obtain n seen where acc: "acc = (n, seen)" by (cases acc)
    show "?P (take_string v acc)" using P by (cases "TrimSpace v = [] \<or> TrimSpace v \<in> set seen") (auto simp: acc take_string_def Let_def)
  qed simp_all
  then show ?thesis by (simp add: normalizeStringList_def)
qed

lemma all_rows_Some: "all_rows f rows = Some ys \<Longrightarrow> y \<in> set ys \<Longrightarrow> \<exists>r \<in> set rows. f r = Some y"
  by (force simp: all_rows_def list_all_iff split: if_splits)

lemma resolveNodeConfigDir_clean: "NormalizeConfigDir (resolveNodeConfigDir b ov i multi) = resolveNodeConfigDir b ov i multi"
proof -
  have "path_Join [NormalizeConfigDir b, ''node-'' @ Itoa i] = path_Clean (Join [NormalizeConfigDir b, ''node-'' @ Itoa i] ''/'')"
    by (simp add: path_Join_def NormalizeConfigDir_def DefaultNodeConfigDir_def)
  then have "NormalizeConfigDir (path_Join [NormalizeConfigDir b, ''node-'' @ Itoa i]) = path_Join [NormalizeConfigDir b, ''node-'' @ Itoa i]"
    by (simp add: NormalizeConfigDir_def path_Clean_idem)
  then show ?thesis by (simp add: resolveNodeConfigDir_def Let_def)
qed

lemma node_from_v2_wf: "node_from_v2 panel base multi row = Some n \<Longrightarrow> node_wf n \<and> NormalizeConfigDir (nc_ConfigDir n) = nc_ConfigDir n"
  using resolveNodeConfigDir_clean [of base "n2_ConfigDir row" "n2_NodeID row" multi]
    NormalizeConfigDir_clean [of "resolveNodeConfigDir base (n2_ConfigDir row) (n2_NodeID row) multi"]
  by (auto simp: node_from_v2_def node_wf_def Let_def split: if_splits)

lemma profile_from_v2_wf: "profile_from_v2 panel row = Some p \<Longrightarrow> mp_Name p \<noteq> [] \<and> mp_APIHost p \<noteq> [] \<and> mp_Key p \<noteq> [] \<and> mp_MachineID p > 0"
  by (auto simp: profile_from_v2_def Let_def split: if_splits)

text \<open>Directories of different nodes below one root are different.\<close>

lemma Split_snoc: "CHR ''/'' \<notin> set w \<Longrightarrow> SplitChar (CHR ''/'') (r @ CHR ''/'' # w) = SplitChar (CHR ''/'') r @ [w]"
  by (induction r) (auto simp: SplitChar_word split: list.splits)

lemma Join_snoc: "Join (ps @ [w]) sep = (if ps = [] then w else Join ps sep @ sep @ w)"
  by (induction ps) (auto simp: Join_Cons)

lemma clean_parts_snoc: "clean_part w \<Longrightarrow> w \<noteq> ''..'' \<Longrightarrow> clean_parts rooted (ps @ [w]) = clean_parts rooted ps @ [w]"
  by (simp add: clean_parts_def clean_step_def clean_part_def)

lemma path_Join_inj:
  assumes "dir \<noteq> []" "clean_part w" "w \<noteq> ''..''" "clean_part w'" "w' \<noteq> ''..''" "path_Join [dir, w] = path_Join [dir, w']"
  shows "w = w'"
proof -
  let ?r = "hd dir = CHR ''/''" and ?ps = "clean_parts (hd dir = CHR ''/'') (SplitChar (CHR ''/'') dir)"
  have j: "path_Join [dir, v] = show_path ?r (?ps @ [v])" if "clean_part v" "v \<noteq> ''..''" for v
    using assms(1) that
    by (simp add: path_Join_def path_Clean_def clean_part_def Split_snoc clean_parts_snoc Let_def)
  have "show_path ?r (?ps @ [w]) = show_path ?r (?ps @ [w'])" using assms(2-6) j by simp
  then show ?thesis by (cases ?r) (simp_all add: show_path_def Join_snoc split: if_splits)
qed

lemma Itoa_inj: "0 < i \<Longrightarrow> 0 < j \<Longrightarrow> Itoa i = Itoa j \<Longrightarrow> i = j"
  by (metis Itoa_def digits_val_nat_digits int_nat_eq less_le_not_le linorder_not_less order_less_imp_le)

lemma node_part: "0 < i \<Longrightarrow> clean_part (''node-'' @ Itoa i) \<and> ''node-'' @ Itoa i \<noteq> ''..''"
proof -
  assume "0 < i"
  then have "list_all is_digit (Itoa i)" by (simp add: Itoa_digits)
  moreover have "\<not> is_digit (CHR ''/'')" by code_simp
  ultimately show ?thesis by (auto simp: clean_part_def list_all_iff)
qed

lemma node_dirs_distinct:
  assumes "list_all (\<lambda>i. 0 < i) is" "distinct is"
  shows "distinct (map (\<lambda>i. resolveNodeConfigDir base [] i True) is)"
proof -
  have "inj_on (\<lambda>i. resolveNodeConfigDir base [] i True) (set is)"
  proof (rule inj_onI)
    fix i j
    assume i: "i \<in> set is" and j: "j \<in> set is" and e: "resolveNodeConfigDir base [] i True = resolveNodeConfigDir base [] j True"
    have p: "0 < i" "0 < j" using assms(1) i j by (auto simp: list_all_iff)
    have "NormalizeConfigDir base \<noteq> []" by (simp add: NormalizeConfigDir_def DefaultNodeConfigDir_def)
    moreover have "path_Join [NormalizeConfigDir base, ''node-'' @ Itoa i] = path_Join [NormalizeConfigDir base, ''node-'' @ Itoa j]"
      using e by (simp add: resolveNodeConfigDir_def TrimSpace_def TrimFunc_def TrimRightFunc_def Let_def)
    ultimately have "''node-'' @ Itoa i = ''node-'' @ Itoa j" using path_Join_inj node_part [OF p(1)] node_part [OF p(2)] by blast
    then show "i = j" using Itoa_inj [OF p] by simp
  qed
  then show ?thesis using assms(2) by (simp add: distinct_map)
qed

lemma edge_wf: "ec_URL (normalizeEdgeConfig e) \<noteq> []" "0 < ec_Timeout (normalizeEdgeConfig e)"
  by (auto simp: normalizeEdgeConfig_def DefaultEdgeURL_def Let_def)

lemma general_servers [simp]: "cf_DNSConfig (general_from_v2 cfg p) =
    \<lparr>dc_Servers = normalizeStringList (k2_DNSServers (v2_Kernel cfg)), dc_QueryStrategy = TrimSpace (k2_IPStrategy (v2_Kernel cfg))\<rparr>"
  by (simp add: general_from_v2_def Let_def)

lemma general_enabled [simp]: "mc_Enabled (cf_MachineConfig (general_from_v2 cfg p)) \<longleftrightarrow>
    m2_Enabled (v2_Machine cfg) \<or> m2_Profiles (v2_Machine cfg) \<noteq> []"
  by (simp add: general_from_v2_def Let_def)

lemma all_rows_length: "all_rows f rows = Some ys \<Longrightarrow> length ys = length rows"
  by (auto simp: all_rows_def split: if_splits)

lemma loadFromV2_wf:
  assumes "loadFromV2 cfg p = Inr c"
  shows "conf_wf (normalize_conf c)"
proof -
  let ?panel = "v2_Panel cfg" and ?base = "NormalizeConfigDir (k2_ConfigDir (v2_Kernel cfg))"
  obtain ps where ps: "all_rows (profile_from_v2 ?panel) (m2_Profiles (v2_Machine cfg)) = Some ps"
    using assms by (cases "all_rows (profile_from_v2 ?panel) (m2_Profiles (v2_Machine cfg))") (auto simp: loadFromV2_def Let_def)
  have f: "mc_Profiles (cf_MachineConfig c) = ps" "mc_Enabled (cf_MachineConfig c) \<longleftrightarrow> m2_Enabled (v2_Machine cfg) \<or> m2_Profiles (v2_Machine cfg) \<noteq> []"
    "dc_Servers (cf_DNSConfig c) = normalizeStringList (k2_DNSServers (v2_Kernel cfg))"
    using assms ps by (auto simp: loadFromV2_def Let_def split: if_splits option.splits)
  have n: "node_wf x \<and> NormalizeConfigDir (nc_ConfigDir x) = nc_ConfigDir x" if "x \<in> set (cf_NodeConfigs c)" for x
  proof (cases "v2_Nodes cfg = []")
    case True
    then have "ps = []" "x = \<lparr>nc_APIHost = TrimSpace (p2_URL ?panel), nc_NodeID = p2_NodeID ?panel, nc_Key = TrimSpace (p2_Token ?panel),
        nc_MachineID = p2_MachineID ?panel, nc_Timeout = p2_Timeout ?panel, nc_ConfigDir = ?base\<rparr>"
      "TrimSpace (p2_URL ?panel) \<noteq> []" "TrimSpace (p2_Token ?panel) \<noteq> []" "0 < p2_NodeID ?panel"
      using assms ps that by (auto simp: loadFromV2_def Let_def split: if_splits)
    then show ?thesis by (simp add: node_wf_def)
  next
    case False
    then obtain ns where ns: "all_rows (node_from_v2 ?panel ?base (length (v2_Nodes cfg) > 1)) (v2_Nodes cfg) = Some ns"
      and "cf_NodeConfigs c = ns" using assms ps by (auto simp: loadFromV2_def Let_def split: option.splits)
    then show ?thesis using all_rows_Some [OF ns, of x] node_from_v2_wf that by blast
  qed
  have "cf_NodeConfigs c \<noteq> [] \<or> ps \<noteq> []"
    using assms ps all_rows_length [of "node_from_v2 ?panel ?base (length (v2_Nodes cfg) > 1)" "v2_Nodes cfg"]
    by (auto simp: loadFromV2_def Let_def split: if_splits option.splits)
  moreover have "ps \<noteq> [] \<Longrightarrow> m2_Profiles (v2_Machine cfg) \<noteq> []" using all_rows_length [OF ps] by auto
  moreover have "list_all profile_wf (normalizeMachineProfiles ps)"
    using profile_from_v2_wf all_rows_Some [OF ps] by (fastforce simp: list_all_iff normalizeMachineProfiles_def profile_wf_def)
  moreover have "normalizeNodeConfigs (cf_NodeConfigs c) = cf_NodeConfigs c"
    unfolding normalizeNodeConfigs_def by (rule map_idI) (use n in simp)
  ultimately show ?thesis
    using n f normalizeStringList_ok [of "k2_DNSServers (v2_Kernel cfg)"] edge_wf
    by (auto simp: conf_wf_def normalize_conf_def list_all_iff normalizeMachineProfiles_def)
qed

section \<open>A file with two nodes\<close>

definition demo_panel_v2 :: panelConfigV2 where
  "demo_panel_v2 = \<lparr>p2_URL = '' http://p '', p2_Token = ''t'', p2_NodeID = 0, p2_MachineID = 0, p2_Timeout = 0\<rparr>"

definition demo_node_v2 :: "int \<Rightarrow> nodeConfigV2" where
  "demo_node_v2 i = \<lparr>n2_URL = [], n2_Token = [], n2_NodeID = i, n2_MachineID = 0, n2_Timeout = 0, n2_ConfigDir = []\<rparr>"

definition demo_v2 :: configV2 where
  "demo_v2 =
     \<lparr>v2_Panel = demo_panel_v2,
      v2_Kernel = \<lparr>k2_Type = [], k2_ConfigDir = ''/a/../b/'', k2_LogLevel = [], k2_DNSServers = ['' x'', ''x'', []], k2_IPStrategy = []\<rparr>,
      v2_Log = \<lparr>l2_Level = [], l2_Output = [], l2_Access = []\<rparr>,
      v2_Runtime = \<lparr>ru_GoMemLimit = [], ru_GOGC = 0, ru_AutoHY2PortForward = False\<rparr>,
      v2_Realtime = \<lparr>r2_Enabled = None, r2_URL = [], r2_PingInterval = 0, r2_ReconnectInterval = 0\<rparr>,
      v2_Machine = \<lparr>m2_Enabled = False, m2_ContinueOnError = None, m2_Profiles = []\<rparr>,
      v2_SubscriptionProxy = zero_SubscriptionProxyConfig, v2_Edge = \<lparr>ec_Enabled = False, ec_URL = [], ec_Timeout = 0\<rparr>,
      v2_Health = 0, v2_Pprof = 0, v2_Nodes = [demo_node_v2 1, demo_node_v2 2]\<rparr>"

definition demo_file :: conf_file where
  "demo_file = \<lparr>fl_open_ok = True, fl_read_ok = True, fl_IsSet = (\<lambda>k. k = ''panel''), fl_v2 = Some demo_v2, fl_v1 = (\<lambda>_. None)\<rparr>"

section \<open>Properties\<close>



end
