(* ===== verification/Controller_Life.thy ===== *)
theory Controller_Life
  imports User_Sync Task_Scheduler Local_Config
begin

text \<open>
  The life of the controller of one node (\<open>node/controller.go\<close>, the tasks of \<open>node/task.go\<close>, the
  certificate request of \<open>node/cert.go\<close> and the options of the realtime connection in
  \<open>node/realtime.go\<close>): preparing a start from the panel's answers, activating it on the core and
  the limiter registry, replacing a running controller, closing. The core and the registry are
  shared by the controllers of a process, so they are passed as a \<open>host\<close>. Panel, files and the
  certificate client are arguments.
\<close>

section \<open>State\<close>

record ('b, 'x) host =
  ho_core :: "'x V2Core"
  ho_limiters :: "'b registry"

record RealtimeOptions =
  ro_URL :: string
  ro_Token :: string
  ro_NodeID :: int
  ro_MachineID :: int
  ro_NodeType :: string
  ro_PingInterval :: int
  ro_ReconnectDelay :: int
  ro_LogTag :: string

text \<open>The controller with its configuration, its periodic tasks and its realtime client.\<close>

record ('b, 'x) node_controller =
  k_ctl :: "('b, 'x) Controller"
  k_conf :: NodeConfig
  k_realtimeConfig :: RealtimeConfig
  k_nodeConfigMonitor :: "Task option"
  k_nodeUserMonitor :: "Task option"
  k_userReport :: "Task option"
  k_renewCert :: "Task option"
  k_realtimeClient :: "RealtimeOptions option"

record controllerStartState =
  cs_node :: "NodeInfo option"
  cs_userList :: "UserInfo list"
  cs_aliveMap :: "(int, int) go_map"
  cs_aliveSnapshot :: "AliveMap option"

record RealtimeBootstrap =
  bs_Enabled :: bool
  bs_URL :: string

text \<open>Whether a file exists, and what writing a self-signed certificate and the ACME client answer.\<close>

record cert_env =
  ce_IsExist :: "string \<Rightarrow> bool"
  ce_generateSelf :: "string \<Rightarrow> string \<Rightarrow> string \<Rightarrow> go_error option"
  ce_NewLego :: "CertInfo \<Rightarrow> go_error option"
  ce_CreateCert :: "CertInfo \<Rightarrow> go_error option"

datatype cert_error =
    CertPathMissing | CertFilesMissing string string | SelfCertError go_error | LegoObjectError go_error
  | LegoCertError go_error | UnsupportedCertMode string | CertPanic

datatype start_error =
    GetNodeInfoError go_error | GetUserListError go_error | NoUsers | RequestCertError cert_error | StartStateEmpty
  | AddNodeError core_error | AddUsersError core_error | ApplySidecarError sidecar_error | CloseOldError core_error | StartPanic

text \<open>\<open>None\<close> for the bootstrap: the control plane does not offer one.\<close>

record ('x, 't, 'u, 'h) life_env =
  le_sync :: "('x, 't, 'u, 'h) sync_env"
  le_build :: "'t build_env"
  le_cert :: cert_env
  le_GetNodeInfo :: "go_error + NodeInfo option"
  le_bootstrap :: "(go_error + RealtimeBootstrap option) option"
  le_deriveURL :: "string \<Rightarrow> string"

section \<open>Certificates\<close>

definition default_cert_path :: "NodeConfig \<Rightarrow> NodeInfo \<Rightarrow> string \<Rightarrow> string" where
  "default_cert_path config info ext =
     path_Join [NormalizeConfigDir (nc_ConfigDir config), ni_Type info @ Itoa (ni_Id info) @ ext]"

definition self_cert :: "cert_env \<Rightarrow> CertInfo \<Rightarrow> cert_error option" where
  "self_cert env cert =
     map_option SelfCertError (ce_generateSelf env (ci_CertDomain cert) (ci_CertFile cert) (ci_KeyFile cert))"

definition requestCert :: "cert_env \<Rightarrow> NodeConfig \<Rightarrow> NodeInfo \<Rightarrow> cert_error option" where
  "requestCert env config info =
     (case ni_Common info of
        None \<Rightarrow> Some CertPanic
      | Some common \<Rightarrow>
          (case cm_CertInfo common of
             None \<Rightarrow> Some CertPanic
           | Some cert \<Rightarrow>
               let no_path = (ci_CertFile cert = [] \<or> ci_KeyFile cert = []);
                   both_exist = (ce_IsExist env (ci_CertFile cert) \<and> ce_IsExist env (ci_KeyFile cert))
               in if ci_CertMode cert \<in> {''none'', []} then None
                  else if ci_CertMode cert = ''file'' then
                    (if no_path then Some CertPathMissing
                     else if both_exist then None
                     else if ci_CertFile cert = default_cert_path config info ''.cer'' \<and>
                             ci_KeyFile cert = default_cert_path config info ''.key'' then self_cert env cert
                     else Some (CertFilesMissing (ci_CertFile cert) (ci_KeyFile cert)))
                  else if ci_CertMode cert \<in> {''dns'', ''http''} then
                    (if no_path then Some CertPathMissing
                     else if both_exist then None
                     else case ce_NewLego env cert of
                            Some err \<Rightarrow> Some (LegoObjectError err)
                          | None \<Rightarrow> map_option LegoCertError (ce_CreateCert env cert))
                  else if ci_CertMode cert = ''self'' then
                    (if no_path then Some CertPathMissing
                     else if both_exist then None
                     else self_cert env cert)
                  else Some (UnsupportedCertMode (ci_CertMode cert))))"

section \<open>Options of the realtime connection\<close>

text \<open>
  \<open>strconv.Atoi\<close> with the error ignored: zero for a malformed number, the nearest bound for one out
  of range.
\<close>

definition Atoi_ignoring :: "string \<Rightarrow> int" where
  "Atoi_ignoring s =
     (case Atoi s of
        Some v \<Rightarrow> v
      | None \<Rightarrow>
          let ds = (if s \<noteq> [] \<and> (hd s = CHR ''-'' \<or> hd s = CHR ''+'') then tl s else s)
          in if ds = [] \<or> \<not> list_all is_digit ds then 0
             else if hd s = CHR ''-'' then - (2 ^ 63) else 2 ^ 63 - 1)"

text \<open>\<open>None\<close> is the panic of \<open>reflect.Value.Int\<close> on a Boolean or an array; a fraction is cut off towards zero.\<close>

definition realtimeIntervalToDuration :: "json_any \<Rightarrow> int option" where
  "realtimeIntervalToDuration v =
     (case v of
        JNull \<Rightarrow> Some 0
      | JInt i \<Rightarrow> Some (wrap64 (i * 1000000000))
      | JString s \<Rightarrow> Some (wrap64 (Atoi_ignoring s * 1000000000))
      | JFloat r \<Rightarrow> Some (wrap64 ((if r < 0 then \<lceil>r\<rceil> else \<lfloor>r\<rfloor>) * 1000000000))
      | JBool b \<Rightarrow> None
      | JArray xs \<Rightarrow> None)"

definition panel_realtime :: "NodeInfo option \<Rightarrow> RealtimeBaseConfig option" where
  "panel_realtime info =
     (case info of
        None \<Rightarrow> None
      | Some i \<Rightarrow> (case ni_Common i of
                       None \<Rightarrow> None
                     | Some c \<Rightarrow> (case cm_BaseConfig c of None \<Rightarrow> None | Some b \<Rightarrow> bc_Realtime b)))"

definition seconds_or :: "int \<Rightarrow> int \<Rightarrow> int" where
  "seconds_or secs otherwise = (if secs > 0 then wrap64 (secs * 1000000000) else otherwise)"

text \<open>The outer \<open>None\<close> is a panic, the inner one no realtime connection.\<close>

definition resolveRealtimeOptions ::
  "(string \<Rightarrow> string) \<Rightarrow> NodeInfo option \<Rightarrow> NodeConfig \<Rightarrow> RealtimeConfig \<Rightarrow> string \<Rightarrow> RealtimeOptions option option" where
  "resolveRealtimeOptions deriveRealtimeURL info config rc tag =
     (case (case panel_realtime info of None \<Rightarrow> Some 0 | Some rb \<Rightarrow> realtimeIntervalToDuration (rb_PingInterval rb)) of
        None \<Rightarrow> None
      | Some panelPing \<Rightarrow>
          let panelEnabled = (case panel_realtime info of None \<Rightarrow> False | Some rb \<Rightarrow> rb_Enabled rb);
              panelURL = (case panel_realtime info of None \<Rightarrow> [] | Some rb \<Rightarrow> TrimSpace (rb_URL rb));
              localURL = TrimSpace (rc_URL rc);
              url1 = (if localURL = [] then panelURL else localURL);
              url2 = (if url1 = [] then deriveRealtimeURL (nc_APIHost config) else url1);
              ping = seconds_or (rc_PingInterval rc) panelPing
          in Some (if \<not> (rc_Enabled rc \<or> localURL \<noteq> [] \<or> panelEnabled) \<or> url2 = [] then None
                   else Some \<lparr>ro_URL = url2, ro_Token = nc_Key config, ro_NodeID = nc_NodeID config,
                              ro_MachineID = nc_MachineID config, ro_NodeType = ''v2node'',
                              ro_PingInterval = (if ping \<le> 0 then 30000000000 else ping),
                              ro_ReconnectDelay = seconds_or (rc_ReconnectInterval rc) 5000000000, ro_LogTag = tag\<rparr>))"

section \<open>Starting\<close>

definition defaultDeviceLimitFromNode :: "NodeInfo option \<Rightarrow> int" where
  "defaultDeviceLimitFromNode node =
     (case node of
        None \<Rightarrow> 0
      | Some n \<Rightarrow>
          (case ni_Common n of
             None \<Rightarrow> 0
           | Some c \<Rightarrow>
               (case cm_BaseConfig c of
                  None \<Rightarrow> 0
                | Some b \<Rightarrow>
                    if bc_DeviceLimitFallback b < 0 then 0
                    else if bc_DeviceLimitFallback b > 2 ^ 31 - 1 then 2 ^ 31 - 1
                    else bc_DeviceLimitFallback b)))"

definition take_bootstrap :: "(go_error + RealtimeBootstrap option) option \<Rightarrow> RealtimeConfig \<Rightarrow> RealtimeConfig" where
  "take_bootstrap b rc =
     (case b of
        Some (Inr (Some bs)) \<Rightarrow>
          if bs_Enabled bs \<and> TrimSpace (bs_URL bs) \<noteq> [] \<and> TrimSpace (rc_URL rc) = []
          then rc\<lparr>rc_Enabled := True, rc_URL := TrimSpace (bs_URL bs)\<rparr> else rc
      | _ \<Rightarrow> rc)"

text \<open>The alive map of the panel, the cached one when the panel fails, never nil.\<close>

definition start_alive :: "control_plane \<Rightarrow> (int, int) go_map" where
  "start_alive cp =
     (case (case cp_GetUserAlive cp of Inl err \<Rightarrow> cp_CachedAliveMap cp | Inr m \<Rightarrow> m) of None \<Rightarrow> [] | Some m \<Rightarrow> m)"

definition prepare_node ::
  "('x, 't, 'u, 'h) life_env \<Rightarrow> NodeInfo \<Rightarrow> ('b, 'x) node_controller \<Rightarrow>
   (start_error + controllerStartState) \<times> ('b, 'x) node_controller" where
  "prepare_node env node k0 =
     (let k = k0\<lparr>k_ctl := (k_ctl k0)\<lparr>c_info := Some node, c_tag := ni_Tag node\<rparr>,
                 k_realtimeConfig := take_bootstrap (le_bootstrap env) (k_realtimeConfig k0)\<rparr>
      in case loadAndSyncUsers (le_sync env) (k_ctl k) of
           (Inl err, c) \<Rightarrow> (Inl (GetUserListError err), k\<lparr>k_ctl := c\<rparr>)
         | (Inr users, c) \<Rightarrow>
             (let k1 = k\<lparr>k_ctl := c\<rparr>;
                  state = \<lparr>cs_node = Some node, cs_userList = users, cs_aliveMap = start_alive (sy_panel (le_sync env)),
                           cs_aliveSnapshot = cp_CachedAliveSnapshot (sy_panel (le_sync env))\<rparr>
              in if users = [] then (Inl NoUsers, k1)
                 else if ni_Security node = Tls then
                   (case requestCert (le_cert env) (k_conf k1) node of
                      Some err \<Rightarrow> (Inl (if err = CertPanic then StartPanic else RequestCertError err), k1)
                    | None \<Rightarrow> (Inr state, k1))
                 else (Inr state, k1)))"

definition prepareStart ::
  "('x, 't, 'u, 'h) life_env \<Rightarrow> 'x V2Core \<Rightarrow> ('b, 'x) node_controller \<Rightarrow>
   (start_error + controllerStartState) \<times> ('b, 'x) node_controller" where
  "prepareStart env x k0 =
     (let k = k0\<lparr>k_ctl := (k_ctl k0)\<lparr>c_server := x\<rparr>\<rparr>
      in case c_info (k_ctl k) of
           Some node \<Rightarrow> prepare_node env node k
         | None \<Rightarrow>
             (case le_GetNodeInfo env of
                Inl err \<Rightarrow> (Inl (GetNodeInfoError err), k)
              | Inr None \<Rightarrow> (Inl StartPanic, k)
              | Inr (Some node) \<Rightarrow> prepare_node env node k))"

text \<open>\<open>None\<close>: the certificate information is missing and the code panics.\<close>

definition startTasks :: "NodeInfo \<Rightarrow> ('b, 'x) node_controller \<Rightarrow> ('b, 'x) node_controller option" where
  "startTasks node k =
     (let k1 = k\<lparr>k_nodeConfigMonitor := Some (Start False (new_task (ni_PullInterval node) 120000000000)),
                 k_nodeUserMonitor := Some (Start False (new_task (ni_PullInterval node) 600000000000)),
                 k_userReport := Some (Start False (new_task (ni_PushInterval node) 600000000000))\<rparr>
      in if ni_Security node \<noteq> Tls then Some k1
         else case c_info (k_ctl k1) of
                None \<Rightarrow> None
              | Some i \<Rightarrow>
                  (case ni_Common i of
                     None \<Rightarrow> None
                   | Some c \<Rightarrow>
                       (case cm_CertInfo c of
                          None \<Rightarrow> None
                        | Some cert \<Rightarrow>
                            if ci_CertMode cert \<in> {''none'', [], ''file'', ''self''} then Some k1
                            else Some (k1\<lparr>k_renewCert := Some (Start True (new_task 86400000000000 1800000000000))\<rparr>))))"

definition startRealtime :: "('x, 't, 'u, 'h) life_env \<Rightarrow> ('b, 'x) node_controller \<Rightarrow> ('b, 'x) node_controller option" where
  "startRealtime env k =
     (case resolveRealtimeOptions (le_deriveURL env) (c_info (k_ctl k)) (k_conf k) (k_realtimeConfig k) (c_tag (k_ctl k)) of
        None \<Rightarrow> None
      | Some None \<Rightarrow> Some k
      | Some (Some options) \<Rightarrow> Some (k\<lparr>k_realtimeClient := Some options\<rparr>))"

text \<open>The new limiter, which the registry and the controller share.\<close>

definition start_limiter :: "clock \<Rightarrow> NodeInfo \<Rightarrow> controllerStartState \<Rightarrow> 'b Limiter" where
  "start_limiter now node state =
     SetDefaultDeviceLimit (defaultDeviceLimitFromNode (Some node))
       (SetAliveSnapshot now (cs_aliveSnapshot state)
         (new_limiter (ni_Type node) (ni_Tag node) (cs_userList state) (Some (cs_aliveMap state))))"

definition activatePreparedStart ::
  "('x, 't, 'u, 'h) life_env \<Rightarrow> controllerStartState \<Rightarrow> ('b, 'x) host \<Rightarrow> ('b, 'x) node_controller \<Rightarrow>
   start_error option \<times> ('b, 'x) host \<times> ('b, 'x) node_controller" where
  "activatePreparedStart env state h k0 =
     (case cs_node state of
        None \<Rightarrow> (Some StartStateEmpty, h, k0)
      | Some node \<Rightarrow>
          let tag = ni_Tag node;
              l = start_limiter (sy_now (le_sync env)) node state;
              reg = go_store tag l (ho_limiters h);
              k = k0\<lparr>k_ctl := (k_ctl k0)\<lparr>c_server := ho_core h, c_info := Some node, c_userList := cs_userList state,
                        c_aliveMap := Some (cs_aliveMap state), c_aliveSnapshot := cs_aliveSnapshot state,
                        c_tag := tag, c_limiter := l\<rparr>\<rparr>;
              upd = (\<lambda>v. (\<lparr>ho_core = v, ho_limiters = reg\<rparr>, k\<lparr>k_ctl := (k_ctl k)\<lparr>c_server := v\<rparr>\<rparr>))
          in case AddNode (sy_xray (le_sync env)) (le_build env) tag (Some node) (ho_core h) of
               (Some err, v1) \<Rightarrow> (Some (AddNodeError err), upd v1)
             | (None, v1) \<Rightarrow>
                 (case AddUsersWithContext (sy_xray (le_sync env)) (\<lambda>_. None) tag (Some node) (cs_userList state) v1 of
                    ((added, Some err), v2) \<Rightarrow> (Some (AddUsersError err), upd v2)
                  | ((added, None), v2) \<Rightarrow>
                      (case applyEdgeSidecar (sy_edge (le_sync env)) (Some node) tag (cs_userList state) of
                         Some err \<Rightarrow> (Some (ApplySidecarError err), upd v2)
                       | None \<Rightarrow>
                           (case startTasks node (snd (upd v2)) of
                              None \<Rightarrow> (Some StartPanic, upd v2)
                            | Some k3 \<Rightarrow>
                                (case startRealtime env k3 of
                                   None \<Rightarrow> (Some StartPanic, fst (upd v2), k3)
                                 | Some k4 \<Rightarrow> (None, fst (upd v2), k4))))))"

definition Controller_Start ::
  "('x, 't, 'u, 'h) life_env \<Rightarrow> ('b, 'x) host \<Rightarrow> ('b, 'x) node_controller \<Rightarrow>
   start_error option \<times> ('b, 'x) host \<times> ('b, 'x) node_controller" where
  "Controller_Start env h k =
     (case prepareStart env (ho_core h) k of
        (Inl err, k1) \<Rightarrow> (Some err, h, k1)
      | (Inr state, k1) \<Rightarrow> activatePreparedStart env state h k1)"

section \<open>Closing and replacing\<close>

definition Controller_Close ::
  "('x, 't, 'u, 'h) xray \<Rightarrow> ('b, 'x) host \<Rightarrow> ('b, 'x) node_controller \<Rightarrow>
   core_error option \<times> ('b, 'x) host \<times> ('b, 'x) node_controller" where
  "Controller_Close xr h k =
     (let tag = c_tag (k_ctl k);
          k1 = k\<lparr>k_realtimeClient := None, k_nodeConfigMonitor := map_option Close (k_nodeConfigMonitor k),
                 k_nodeUserMonitor := map_option Close (k_nodeUserMonitor k),
                 k_userReport := map_option Close (k_userReport k), k_renewCert := map_option Close (k_renewCert k)\<rparr>
      in case DelNode xr tag (ho_core h) of
           (err, v) \<Rightarrow> (err, \<lparr>ho_core = v, ho_limiters = DeleteLimiter tag (ho_limiters h)\<rparr>,
                        k1\<lparr>k_ctl := (k_ctl k1)\<lparr>c_server := v\<rparr>\<rparr>))"

text \<open>Whether the old controller is still running, the error, and the host with both controllers.\<close>

definition StartReplacing ::
  "('x, 't, 'u, 'h) life_env \<Rightarrow> ('b, 'x) host \<Rightarrow> ('b, 'x) node_controller \<Rightarrow> ('b, 'x) node_controller option \<Rightarrow>
   (bool \<times> start_error option) \<times> ('b, 'x) host \<times> ('b, 'x) node_controller \<times> ('b, 'x) node_controller option" where
  "StartReplacing env h k old =
     (case prepareStart env (ho_core h) k of
        (Inl err, k1) \<Rightarrow> ((True, Some err), h, k1, old)
      | (Inr state, k1) \<Rightarrow>
          let xr = sy_xray (le_sync env);
              activate = (\<lambda>h1 old1.
                case activatePreparedStart env state h1 k1 of
                  (None, h2, k2) \<Rightarrow> ((False, None), h2, k2, old1)
                | (Some err, h2, k2) \<Rightarrow>
                    (case Controller_Close xr h2 k2 of (ignored, h3, k3) \<Rightarrow> ((False, Some err), h3, k3, old1)))
          in case old of
               None \<Rightarrow> activate h None
             | Some k_old \<Rightarrow>
                 (case Controller_Close xr h k_old of
                    (Some err, h1, k_old1) \<Rightarrow> ((False, Some (CloseOldError err)), h1, k1, Some k_old1)
                  | (None, h1, k_old1) \<Rightarrow> activate h1 (Some k_old1)))"

section \<open>Watching the configuration\<close>

text \<open>
  The check of \<open>executeNodeConfigCheck\<close>: a changed configuration puts a token into the reload channel,
  a channel of one place (\<open>None\<close> when there is no channel), unless one is waiting.
\<close>

datatype check_error = CheckPanelError go_error | ReloadChannelNil

definition executeNodeConfigCheck ::
  "(go_error + NodeInfo option) \<Rightarrow> bool option \<Rightarrow> (check_error + bool) \<times> bool option" where
  "executeNodeConfigCheck answer reloadCh =
     (case answer of
        Inl err \<Rightarrow> (Inl (CheckPanelError err), reloadCh)
      | Inr None \<Rightarrow> (Inr False, reloadCh)
      | Inr (Some newN) \<Rightarrow>
          (case reloadCh of
             None \<Rightarrow> (Inl ReloadChannelNil, None)
           | Some pending \<Rightarrow> (Inr True, Some True)))"

text \<open>The periodic task ignores the outcome.\<close>

definition nodeConfigMonitor :: "(go_error + NodeInfo option) \<Rightarrow> bool option \<Rightarrow> bool option" where
  "nodeConfigMonitor answer reloadCh = snd (executeNodeConfigCheck answer reloadCh)"

section \<open>Lemmas\<close>

lemma AddNode_users: "AddNode xr env tag info v = (e, v') \<Longrightarrow> vc_users v' = vc_users v"
  by (auto simp: AddNode_def split: if_splits option.splits sum.splits prod.splits bool.splits)

lemma start_limiter_facts:
  "lm_Tag (start_limiter now node state) = ni_Tag node" "user_view (start_limiter now node state) = users_of (cs_userList state)"
  "0 \<le> getDefaultDeviceLimit (start_limiter now node state)" "getDefaultDeviceLimit (start_limiter now node state) < 2 ^ 31"
proof -
  have u: "user_view (SetDefaultDeviceLimit n l) = user_view l" "lm_Tag (SetDefaultDeviceLimit n l) = lm_Tag l" for n and l :: "'z Limiter"
    by (simp_all add: SetDefaultDeviceLimit_def user_view_def fun_eq_iff)
  have t: "lm_Tag (new_limiter nt tag us al :: 'z Limiter) = tag" for nt tag us al
    by (simp add: new_limiter_def empty_limiter_def SetAliveList_def)
  show "lm_Tag (start_limiter now node state) = ni_Tag node" "user_view (start_limiter now node state) = users_of (cs_userList state)"
    by (simp_all add: start_limiter_def u t user_view_new_limiter)
  show "0 \<le> getDefaultDeviceLimit (start_limiter now node state)" "getDefaultDeviceLimit (start_limiter now node state) < 2 ^ 31"
    by (simp_all add: start_limiter_def SetDefaultDeviceLimit_def getDefaultDeviceLimit_def maxDefaultDeviceLimit_def wrap32_def)
qed

definition running :: "Task option \<Rightarrow> bool" where
  "running t = (case t of None \<Rightarrow> False | Some t \<Rightarrow> tk_Running t)"

definition active :: "('b, 'x) node_controller \<Rightarrow> bool" where
  "active k \<longleftrightarrow> running (k_nodeConfigMonitor k) \<or> running (k_nodeUserMonitor k) \<or> running (k_userReport k) \<or> running (k_renewCert k)"

lemma running_simps [simp]: "running (Some (Start first (new_task i n)))" "\<not> running (map_option Close t)" "\<not> running None"
  by (simp_all add: running_def Start_def new_task_def Close_def split: option.split)

lemma startTasks_facts:
  "startTasks node k = Some k' \<Longrightarrow>
   k_ctl k' = k_ctl k \<and> running (k_nodeConfigMonitor k') \<and> running (k_nodeUserMonitor k') \<and> running (k_userReport k')"
  by (auto simp: startTasks_def Let_def split: if_splits option.splits)

lemma startRealtime_facts:
  "startRealtime env k = Some k' \<Longrightarrow>
   k_ctl k' = k_ctl k \<and> k_nodeConfigMonitor k' = k_nodeConfigMonitor k \<and> k_nodeUserMonitor k' = k_nodeUserMonitor k \<and>
   k_userReport k' = k_userReport k \<and> k_renewCert k' = k_renewCert k"
  by (auto simp: startRealtime_def split: option.splits)

lemma loadAndSyncUsers_server: "loadAndSyncUsers env c = (r, c') \<Longrightarrow> c_server c' = c_server c"
  by (auto simp: loadAndSyncUsers_def saveUserSyncState_def Let_def
      split: if_splits option.splits delta_result.splits prod.splits)

lemma prepareStart_frame:
  "prepareStart env x k = (r, k') \<Longrightarrow>
   k_nodeConfigMonitor k' = k_nodeConfigMonitor k \<and> k_nodeUserMonitor k' = k_nodeUserMonitor k \<and>
   k_userReport k' = k_userReport k \<and> k_renewCert k' = k_renewCert k"
  by (auto simp: prepareStart_def prepare_node_def Let_def split: if_splits option.splits sum.splits prod.splits)

lemma prepareStart_users:
  "prepareStart env x k = (Inr state, k') \<Longrightarrow> cs_userList state \<noteq> [] \<and> (\<exists>n. cs_node state = Some n)"
  by (auto simp: prepareStart_def prepare_node_def Let_def split: if_splits option.splits sum.splits prod.splits)

text \<open>What a successful activation leaves behind.\<close>

lemma activate_ok:
  assumes "activatePreparedStart env state h k0 = (None, h', k')"
  obtains node v1 n v2 where
    "cs_node state = Some node"
    "AddNode (sy_xray (le_sync env)) (le_build env) (ni_Tag node) (Some node) (ho_core h) = (None, v1)"
    "AddUsersWithContext (sy_xray (le_sync env)) (\<lambda>_. None) (ni_Tag node) (Some node) (cs_userList state) v1 = ((n, None), v2)"
    "h' = \<lparr>ho_core = v2, ho_limiters = go_store (ni_Tag node) (start_limiter (sy_now (le_sync env)) node state) (ho_limiters h)\<rparr>"
    "c_server (k_ctl k') = v2" "c_tag (k_ctl k') = ni_Tag node" "c_info (k_ctl k') = Some node"
    "c_userList (k_ctl k') = cs_userList state" "c_limiter (k_ctl k') = start_limiter (sy_now (le_sync env)) node state"
    "running (k_nodeConfigMonitor k')" "running (k_nodeUserMonitor k')" "running (k_userReport k')"
  using assms
  by (auto simp: activatePreparedStart_def Let_def dest!: startTasks_facts startRealtime_facts
      split: option.splits prod.splits)

lemma activate_ok_active:
  "activatePreparedStart env state h k0 = (None, h', k') \<Longrightarrow> active k'"
  by (erule activate_ok) (simp add: active_def)

lemma Close_stops:
  assumes "Controller_Close xr h k = (err, h', k')"
  shows "\<not> active k' \<and> k_realtimeClient k' = None \<and> ho_limiters h' = DeleteLimiter (c_tag (k_ctl k)) (ho_limiters h)"
  using assms by (auto simp: Controller_Close_def Let_def active_def split: prod.splits)

lemma start_establishes:
  assumes "Controller_Start env h k = (None, h', k')" and "vc_users (ho_core h) \<noteq> None"
    and fresh: "\<forall>uuid. id_view (c_tag (k_ctl k')) (ho_core h) uuid = None"
  shows "in_step (k_ctl k')" "c_server (k_ctl k') = ho_core h'"
    "GetLimiter (ho_limiters h') (c_tag (k_ctl k')) = Inr (c_limiter (k_ctl k'))"
    "\<And>tag. tag \<noteq> c_tag (k_ctl k') \<Longrightarrow> GetLimiter (ho_limiters h') tag = GetLimiter (ho_limiters h) tag"
    "c_userList (k_ctl k') \<noteq> []" "0 \<le> getDefaultDeviceLimit (c_limiter (k_ctl k'))"
    "getDefaultDeviceLimit (c_limiter (k_ctl k')) < 2 ^ 31"
    "running (k_nodeConfigMonitor k') \<and> running (k_nodeUserMonitor k') \<and> running (k_userReport k')"
proof -
  obtain state k1 where p: "prepareStart env (ho_core h) k = (Inr state, k1)" and a: "activatePreparedStart env state h k1 = (None, h', k')"
    using assms(1) by (auto simp: Controller_Start_def split: prod.splits sum.splits)
  obtain node v1 n v2 where n: "cs_node state = Some node"
    "AddNode (sy_xray (le_sync env)) (le_build env) (ni_Tag node) (Some node) (ho_core h) = (None, v1)"
    and au: "AddUsersWithContext (sy_xray (le_sync env)) (\<lambda>_. None) (ni_Tag node) (Some node) (cs_userList state) v1 = ((n, None), v2)"
    and h': "h' = \<lparr>ho_core = v2, ho_limiters = go_store (ni_Tag node) (start_limiter (sy_now (le_sync env)) node state) (ho_limiters h)\<rparr>"
    and k': "c_server (k_ctl k') = v2" "c_tag (k_ctl k') = ni_Tag node" "c_info (k_ctl k') = Some node"
    "c_userList (k_ctl k') = cs_userList state" "c_limiter (k_ctl k') = start_limiter (sy_now (le_sync env)) node state"
    and r: "running (k_nodeConfigMonitor k')" "running (k_nodeUserMonitor k')" "running (k_userReport k')"
    by (rule activate_ok [OF a])
  have u1: "vc_users v1 = vc_users (ho_core h)" using AddNode_users [OF n(2)] .
  have u2: "vc_users v2 = vc_users (register_ids (ni_Tag node) (cs_userList state) v1)" using AddUsers_users [OF au] .
  have "id_view (ni_Tag node) v1 = Map.empty" using fresh k'(2) id_view_users [OF u1] by auto
  then have "id_view (ni_Tag node) v2 = table ui_Id (cs_userList state)"
    using id_view_users [OF u2, of "ni_Tag node"] id_view_register [of v1 "ni_Tag node" "cs_userList state"] assms(2) u1 by simp
  moreover have "vc_users v2 \<noteq> None" using u1 u2 assms(2) by simp
  ultimately show "in_step (k_ctl k')" by (simp add: in_step_def k' start_limiter_facts)
  show "c_server (k_ctl k') = ho_core h'" by (simp add: k' h')
  show "GetLimiter (ho_limiters h') (c_tag (k_ctl k')) = Inr (c_limiter (k_ctl k'))"
    and "\<And>tag. tag \<noteq> c_tag (k_ctl k') \<Longrightarrow> GetLimiter (ho_limiters h') tag = GetLimiter (ho_limiters h) tag"
    by (simp_all add: GetLimiter_def h' k')
  show "c_userList (k_ctl k') \<noteq> []" using prepareStart_users [OF p] k' by simp
  show "0 \<le> getDefaultDeviceLimit (c_limiter (k_ctl k'))" "getDefaultDeviceLimit (c_limiter (k_ctl k')) < 2 ^ 31"
    by (simp_all only: k' start_limiter_facts)
  show "running (k_nodeConfigMonitor k') \<and> running (k_nodeUserMonitor k') \<and> running (k_userReport k')" using r by simp
qed

lemma replace_cases:
  assumes "StartReplacing env h k (Some old) = ((keepOld, err), h', k', Some old')" and "\<not> active k"
  shows "if keepOld then err \<noteq> None \<and> h' = h \<and> old' = old \<and> \<not> active k'
         else \<not> active old' \<and> k_realtimeClient old' = None \<and> (active k' \<longleftrightarrow> err = None)"
proof -
  obtain r k1 where p: "prepareStart env (ho_core h) k = (r, k1)" by (metis prod.exhaust)
  have k1: "\<not> active k1" using prepareStart_frame [OF p] assms(2) by (simp add: active_def)
  show ?thesis
  proof (cases r)
    case (Inl e)
    then show ?thesis using assms(1) p k1 by (auto simp: StartReplacing_def)
  next
    case (Inr state)
    obtain e h1 o1 where c: "Controller_Close (sy_xray (le_sync env)) h old = (e, h1, o1)" by (metis prod_cases3)
    note stop = Close_stops [OF c]
    show ?thesis
    proof (cases e)
      case (Some ce)
      then show ?thesis using assms(1) p Inr c stop k1 by (auto simp: StartReplacing_def)
    next
      case None
      obtain e2 h2 k2 where a: "activatePreparedStart env state h1 k1 = (e2, h2, k2)" by (metis prod_cases3)
      obtain e3 h3 k3 where cl: "Controller_Close (sy_xray (le_sync env)) h2 k2 = (e3, h3, k3)" by (metis prod_cases3)
      show ?thesis
        using assms(1) p Inr c None a cl stop Close_stops [OF cl] activate_ok_active [of env state h1 k1 h2 k2]
        by (cases e2) (auto simp: StartReplacing_def)
    qed
  qed
qed

text \<open>Successive syncs; \<open>None\<close> when one of them fails.\<close>

fun sync_run :: "('x, 't, 'u, 'h) sync_env list \<Rightarrow> ('b, 'x) Controller \<Rightarrow> ('b, 'x) Controller option" where
  "sync_run [] c = Some c"
| "sync_run (env # envs) c =
     (case executeNodeUserSync env c of
        ((s, None), c') \<Rightarrow> sync_run envs c'
      | ((s, Some err), c') \<Rightarrow> None)"

lemma sync_run_in_step:
  "in_step c \<Longrightarrow> \<forall>env \<in> set envs. panel_ok (sy_panel env) \<and> \<not> sy_ctx_done env \<Longrightarrow> sync_run envs c = Some c' \<Longrightarrow> in_step c'"
proof (induction envs arbitrary: c)
  case Nil
  then show ?case by simp
next
  case (Cons env envs)
  then obtain s c1 where e: "executeNodeUserSync env c = ((s, None), c1)" and r: "sync_run envs c1 = Some c'"
    by (auto split: prod.splits option.splits)
  have "in_step c1" using sync_in_step [OF Cons.prems(1) _ _ e] Cons.prems(2) by simp
  then show ?case using Cons.IH [OF _ _ r] Cons.prems(2) by simp
qed

section \<open>A node to start\<close>

definition demo_life :: "(nat, string, protocol_user, nat) life_env" where
  "demo_life =
     \<lparr>le_sync = demo_env demo_xray (DeltaBody (Some (demo_delta\<lparr>ud_Deleted := []\<rparr>))), le_build = Inbound_Config.demo_env,
      le_cert = \<lparr>ce_IsExist = (\<lambda>_. True), ce_generateSelf = (\<lambda>_ _ _. None), ce_NewLego = (\<lambda>_. None), ce_CreateCert = (\<lambda>_. None)\<rparr>,
      le_GetNodeInfo = Inr None, le_bootstrap = None, le_deriveURL = (\<lambda>_. [])\<rparr>"

definition demo_host :: "(int, nat) host" where
  "demo_host = \<lparr>ho_core = demo_core\<lparr>vc_users := Some []\<rparr>, ho_limiters = []\<rparr>"

definition demo_node_controller :: "(int, nat) node_controller" where
  "demo_node_controller =
     \<lparr>k_ctl = demo_controller\<lparr>c_tag := [], c_userList := []\<rparr>,
      k_conf = \<lparr>nc_APIHost = ''h'', nc_NodeID = 1, nc_Key = ''k'', nc_MachineID = 0, nc_Timeout = 0, nc_ConfigDir = []\<rparr>,
      k_realtimeConfig = \<lparr>rc_Enabled = False, rc_URL = [], rc_PingInterval = 0, rc_ReconnectInterval = 0\<rparr>,
      k_nodeConfigMonitor = None, k_nodeUserMonitor = None, k_userReport = None, k_renewCert = None, k_realtimeClient = None\<rparr>"

section \<open>Properties\<close>



text \<open>
  C26. Replacing a controller never runs two of them and says which one is left: when the new one
  cannot be prepared the old one and the host are untouched; otherwise the old one is stopped and
  its limiter gone, and the new one runs exactly when no error is reported.
\<close>

theorem replace_exclusive:
  assumes "StartReplacing env h k (Some old) = ((keepOld, err), h', k', Some old')" and "\<not> active k"
  shows "if keepOld then err \<noteq> None \<and> h' = h \<and> old' = old \<and> \<not> active k'
         else \<not> active old' \<and> k_realtimeClient old' = None \<and> (active k' \<longleftrightarrow> err = None)"
  using assms by (rule replace_cases)

theorem replace_exclusive_witness:
  "\<exists>h' k' old'. StartReplacing demo_life demo_host demo_node_controller (Some demo_node_controller) =
      ((False, None), h', k', Some old') \<and> active k' \<and> \<not> active old'"
proof -
  let ?r = "StartReplacing demo_life demo_host demo_node_controller (Some demo_node_controller)"
  have "fst ?r = (False, None)" "snd (snd (snd ?r)) \<noteq> None" by code_simp+
  then obtain h' k' old' where r: "?r = ((False, None), h', k', Some old')" by (cases ?r) auto
  have "\<not> active demo_node_controller" by (simp add: active_def demo_node_controller_def)
  from replace_exclusive [OF r this] r show ?thesis by auto
qed

end
