(* ===== verification/Node_Machine.thy ===== *)
theory Node_Machine
  imports Controller_Life
begin

text \<open>
  The nodes of one process (\<open>node/node.go\<close>, \<open>node/machine.go\<close>, \<open>node/info_fetch.go\<close>): building the
  controllers, starting and closing them all, and reconciling the running ones with a new list of
  configurations. As in the code, starting, closing and replacing a controller are operations that
  are handed in (package variables there, the record \<open>machine_ops\<close> here); controllers are handles
  into a world. The locale \<open>controller_ops\<close> is the contract of these operations, interpreted on the
  definitions of the controller.
\<close>

section \<open>State\<close>

datatype 'e machine_error =
    ConfigIncomplete
  | DuplicateConfig string
  | FactoryError go_error
  | PanelError go_error
  | EmptyNodeInfo
  | ControllerError 'e
  | CloseRemovedError NodeConfig 'e
  | CountMismatch nat nat nat
  | CurrentIncomplete NodeConfig
  | NoAvailableNodes

record 'e NodeFailure =
  nf_Config :: NodeConfig
  nf_Err :: "'e machine_error"

record 'e Node =
  nd_controllers :: "nat list"
  nd_NodeInfos :: "NodeInfo list"
  nd_configs :: "NodeConfig list"
  nd_failures :: "'e NodeFailure list"
  nd_autoHY2PortForward :: bool
  nd_cleanupHY2OnDisable :: bool
  nd_continueOnError :: bool

record 'e ReconcileResult =
  rr_Added :: nat
  rr_Removed :: nat
  rr_Restarted :: nat
  rr_Unchanged :: nat
  rr_Skipped :: nat
  rr_FullReloadRequired :: bool
  rr_Failures :: "'e NodeFailure list"

record machineSlot =
  sl_Config :: NodeConfig
  sl_Info :: NodeInfo
  sl_Controller :: nat

record machineCandidate =
  cd_Config :: NodeConfig
  cd_Info :: NodeInfo

text \<open>The operations on controllers, and what the control plane of a configuration answers.\<close>

record ('w, 'e) machine_ops =
  mo_new :: "NodeConfig \<Rightarrow> NodeInfo \<Rightarrow> 'w \<Rightarrow> nat \<times> 'w"
  mo_start :: "nat \<Rightarrow> 'w \<Rightarrow> 'e option \<times> 'w"
  mo_close :: "nat \<Rightarrow> 'w \<Rightarrow> 'e option \<times> 'w"
  mo_replace :: "nat \<Rightarrow> nat \<Rightarrow> 'w \<Rightarrow> (bool \<times> 'e option) \<times> 'w"

type_synonym info_source = "NodeConfig \<Rightarrow> go_error + (go_error + NodeInfo option)"

section \<open>Helpers\<close>

definition machineNodeKey :: "NodeConfig \<Rightarrow> string" where
  "machineNodeKey cfg =
     (let apiHost = TrimRight (TrimSpace (nc_APIHost cfg)) ''/''
      in if apiHost = [] \<or> nc_NodeID cfg \<le> 0 then [] else apiHost @ ''#'' @ Itoa (nc_NodeID cfg))"

definition nodeHasCustomRoutes :: "NodeInfo \<Rightarrow> bool" where
  "nodeHasCustomRoutes info = (case ni_Common info of None \<Rightarrow> False | Some c \<Rightarrow> cm_Routes c \<noteq> [])"

definition sameMachineNode :: "NodeConfig \<Rightarrow> NodeInfo \<Rightarrow> NodeConfig \<Rightarrow> NodeInfo \<Rightarrow> bool" where
  "sameMachineNode oldConfig oldInfo newConfig newInfo \<longleftrightarrow> oldConfig = newConfig \<and> oldInfo = newInfo"

definition activeConfigs :: "NodeConfig list \<Rightarrow> 'e Node \<Rightarrow> NodeConfig list" where
  "activeConfigs fallback n = (if nd_configs n \<noteq> [] \<or> nd_controllers n = [] then nd_configs n else fallback)"

text \<open>The error to return, if any, and the result with the failure noted.\<close>

definition handleMachineFailure ::
  "bool \<Rightarrow> NodeConfig \<Rightarrow> 'e machine_error \<Rightarrow> 'e ReconcileResult \<Rightarrow> 'e machine_error option \<times> 'e ReconcileResult" where
  "handleMachineFailure continueOnError cfg err result =
     (if continueOnError then None else Some err,
      result\<lparr>rr_Failures := rr_Failures result @ [\<lparr>nf_Config = cfg, nf_Err = err\<rparr>], rr_Skipped := Suc (rr_Skipped result)\<rparr>)"

text \<open>What the port forwarding is told: switched off, cleaned up, or the node infos to serve.\<close>

datatype hy2_action = HY2Disabled | HY2Cleanup | HY2Reconcile "NodeInfo list"

definition reconcileAutoHY2PortForward :: "'e Node \<Rightarrow> hy2_action \<times> 'e Node" where
  "reconcileAutoHY2PortForward n =
     (if \<not> nd_autoHY2PortForward n then
        (if nd_cleanupHY2OnDisable n then (HY2Cleanup, n\<lparr>nd_cleanupHY2OnDisable := False\<rparr>) else (HY2Disabled, n))
      else (HY2Reconcile (nd_NodeInfos n), n\<lparr>nd_cleanupHY2OnDisable := False\<rparr>))"

definition SetAutoHY2PortForward :: "bool \<Rightarrow> 'e Node \<Rightarrow> 'e Node" where
  "SetAutoHY2PortForward enabled n =
     (let n1 = (if enabled then n\<lparr>nd_cleanupHY2OnDisable := False\<rparr> else n);
          n2 = (if nd_autoHY2PortForward n1 \<and> \<not> enabled then n1\<lparr>nd_cleanupHY2OnDisable := True\<rparr> else n1)
      in n2\<lparr>nd_autoHY2PortForward := enabled\<rparr>)"

section \<open>Creating, starting, closing\<close>

text \<open>The answer of the control plane as one value: the information or the failure.\<close>

definition fetch_info :: "info_source \<Rightarrow> NodeConfig \<Rightarrow> 'e machine_error + NodeInfo" where
  "fetch_info src cfg =
     (case src cfg of
        Inl err \<Rightarrow> Inl (FactoryError err)
      | Inr (Inl err) \<Rightarrow> Inl (PanelError err)
      | Inr (Inr None) \<Rightarrow> Inl EmptyNodeInfo
      | Inr (Inr (Some info)) \<Rightarrow> Inr info)"

fun new_loop ::
  "('w, 'e) machine_ops \<Rightarrow> info_source \<Rightarrow> bool \<Rightarrow> NodeConfig list \<Rightarrow> 'e Node \<Rightarrow> 'w \<Rightarrow> ('e machine_error + 'e Node) \<times> 'w" where
  "new_loop ops src continueOnError [] n w = (Inr n, w)"
| "new_loop ops src continueOnError (cfg # cfgs) n w =
     (case fetch_info src cfg of
        Inl err \<Rightarrow>
          (if continueOnError
           then new_loop ops src continueOnError cfgs (n\<lparr>nd_failures := nd_failures n @ [\<lparr>nf_Config = cfg, nf_Err = err\<rparr>]\<rparr>) w
           else (Inl err, w))
      | Inr info \<Rightarrow>
          (case mo_new ops cfg info w of
             (i, w') \<Rightarrow>
               new_loop ops src continueOnError cfgs
                 (n\<lparr>nd_controllers := nd_controllers n @ [i], nd_NodeInfos := nd_NodeInfos n @ [info],
                    nd_configs := nd_configs n @ [cfg]\<rparr>) w'))"

definition empty_node :: "bool \<Rightarrow> 'e Node" where
  "empty_node continueOnError =
     \<lparr>nd_controllers = [], nd_NodeInfos = [], nd_configs = [], nd_failures = [], nd_autoHY2PortForward = False,
      nd_cleanupHY2OnDisable = False, nd_continueOnError = continueOnError\<rparr>"

definition newWithFactory ::
  "('w, 'e) machine_ops \<Rightarrow> info_source \<Rightarrow> bool \<Rightarrow> NodeConfig list \<Rightarrow> 'w \<Rightarrow> ('e machine_error + 'e Node) \<times> 'w" where
  "newWithFactory ops src continueOnError nodes w =
     (case new_loop ops src continueOnError nodes (empty_node continueOnError) w of
        (Inl err, w') \<Rightarrow> (Inl err, w')
      | (Inr n, w') \<Rightarrow>
          if nodes \<noteq> [] \<and> nd_controllers n = [] \<and> \<not> continueOnError then (Inl NoAvailableNodes, w') else (Inr n, w'))"

text \<open>Starting in machine mode: a controller that fails is closed and left out.\<close>

fun start_all ::
  "('w, 'e) machine_ops \<Rightarrow> (nat \<times> NodeInfo option \<times> NodeConfig) list \<Rightarrow> 'e NodeFailure list \<Rightarrow> 'w \<Rightarrow>
   ((nat \<times> NodeInfo option \<times> NodeConfig) list \<times> 'e NodeFailure list) \<times> 'w" where
  "start_all ops [] fs w = (([], fs), w)"
| "start_all ops ((i, info, cfg) # rest) fs w =
     (case mo_start ops i w of
        (Some err, w1) \<Rightarrow>
          (case mo_close ops i w1 of
             (ignored, w2) \<Rightarrow> start_all ops rest (fs @ [\<lparr>nf_Config = cfg, nf_Err = ControllerError err\<rparr>]) w2)
      | (None, w1) \<Rightarrow>
          (case start_all ops rest fs w1 of ((kept, fs'), w2) \<Rightarrow> (((i, info, cfg) # kept, fs'), w2)))"

fun start_strict :: "('w, 'e) machine_ops \<Rightarrow> nat list \<Rightarrow> 'w \<Rightarrow> 'e machine_error option \<times> 'w" where
  "start_strict ops [] w = (None, w)"
| "start_strict ops (i # is) w =
     (case mo_start ops i w of
        (Some err, w1) \<Rightarrow> (Some (ControllerError err), w1)
      | (None, w1) \<Rightarrow> start_strict ops is w1)"

definition Node_Start ::
  "('w, 'e) machine_ops \<Rightarrow> NodeConfig list \<Rightarrow> 'e Node \<Rightarrow> 'w \<Rightarrow> 'e machine_error option \<times> 'e Node \<times> 'w" where
  "Node_Start ops nodes n w =
     (let cfgs = activeConfigs nodes n
      in if length cfgs \<noteq> length (nd_controllers n) then
           (Some (CountMismatch (length cfgs) (length (nd_NodeInfos n)) (length (nd_controllers n))), n, w)
         else if nd_continueOnError n then
           (case start_all ops
                   (zip (nd_controllers n) (zip (map Some (nd_NodeInfos n) @ replicate (length cfgs) None) cfgs)) (nd_failures n) w of
              ((kept, fs), w') \<Rightarrow>
                (None, snd (reconcileAutoHY2PortForward
                   (n\<lparr>nd_controllers := map fst kept, nd_NodeInfos := List.map_filter (\<lambda>(_, info, _). info) kept,
                      nd_configs := map (\<lambda>(_, _, cfg). cfg) kept, nd_failures := fs\<rparr>)), w'))
         else
           (case start_strict ops (nd_controllers n) w of
              (Some err, w') \<Rightarrow> (Some err, n, w')
            | (None, w') \<Rightarrow> (None, snd (reconcileAutoHY2PortForward n), w')))"

text \<open>The first controller that cannot be closed stops the loop; the configurations are kept.\<close>

fun close_all :: "('w, 'e) machine_ops \<Rightarrow> nat list \<Rightarrow> 'w \<Rightarrow> 'e option \<times> 'w" where
  "close_all ops [] w = (None, w)"
| "close_all ops (i # is) w =
     (case mo_close ops i w of (Some err, w1) \<Rightarrow> (Some err, w1) | (None, w1) \<Rightarrow> close_all ops is w1)"

definition Node_Close :: "('w, 'e) machine_ops \<Rightarrow> 'e Node \<Rightarrow> 'w \<Rightarrow> 'e option \<times> 'e Node \<times> 'w" where
  "Node_Close ops n w =
     (case close_all ops (nd_controllers n) w of
        (Some err, w') \<Rightarrow> (Some err, n, w')
      | (None, w') \<Rightarrow> (None, snd (reconcileAutoHY2PortForward (n\<lparr>nd_controllers := [], nd_NodeInfos := []\<rparr>)), w'))"

section \<open>Reconciling\<close>

definition slot_of :: "NodeConfig \<times> NodeInfo \<times> nat \<Rightarrow> machineSlot" where
  "slot_of t = \<lparr>sl_Config = fst t, sl_Info = fst (snd t), sl_Controller = snd (snd t)\<rparr>"

definition currentMachineSlots :: "'e Node \<Rightarrow> 'e machine_error + (string, machineSlot) go_map" where
  "currentMachineSlots n =
     (let cfgs = activeConfigs [] n; cs = nd_controllers n; infos = nd_NodeInfos n
      in if length cfgs \<noteq> length cs \<or> length infos \<noteq> length cs then
           Inl (CountMismatch (length cfgs) (length infos) (length cs))
         else case find (\<lambda>cfg. machineNodeKey cfg = []) cfgs of
                Some cfg \<Rightarrow> Inl (CurrentIncomplete cfg)
              | None \<Rightarrow>
                  Inr (fold (\<lambda>t. go_store (machineNodeKey (fst t)) (slot_of t)) (zip cfgs (zip infos cs)) []))"

type_synonym candidates = "(string, machineCandidate) go_map"

text \<open>The first loop: the keys in order, the candidates and the failures; an error when it aborts.\<close>

fun gather ::
  "info_source \<Rightarrow> bool \<Rightarrow> (string, machineSlot) go_map \<Rightarrow> NodeConfig list \<Rightarrow> string list \<times> candidates \<times> 'e ReconcileResult \<Rightarrow>
   'e machine_error + (string list \<times> candidates \<times> 'e ReconcileResult)" where
  "gather src continueOnError current [] st = Inr st"
| "gather src continueOnError current (cfg # cfgs) (keys, cands, result) =
     (let key = machineNodeKey cfg;
          fail = (\<lambda>keys err.
            case handleMachineFailure continueOnError cfg err result of
              (Some e, result') \<Rightarrow> Inl e
            | (None, result') \<Rightarrow> gather src continueOnError current cfgs (keys, cands, result'))
      in if key = [] then fail keys ConfigIncomplete
         else if key \<in> set keys then fail keys (DuplicateConfig key)
         else case fetch_info src cfg of
                Inl EmptyNodeInfo \<Rightarrow>
                  if go_load current key \<noteq> None
                  then gather src continueOnError current cfgs (keys @ [key], cands, result\<lparr>rr_Skipped := Suc (rr_Skipped result)\<rparr>)
                  else fail (keys @ [key]) EmptyNodeInfo
              | Inl err \<Rightarrow> fail (keys @ [key]) err
              | Inr info \<Rightarrow>
                  gather src continueOnError current cfgs
                    (keys @ [key], go_store key \<lparr>cd_Config = cfg, cd_Info = info\<rparr> cands, result))"

definition machineReconcileNeedsFullReload :: "(string, machineSlot) go_map \<Rightarrow> string list \<Rightarrow> candidates \<Rightarrow> bool" where
  "machineReconcileNeedsFullReload current desiredKeys cands \<longleftrightarrow>
     list_ex (\<lambda>(key, slot). key \<notin> set desiredKeys \<and> nodeHasCustomRoutes (sl_Info slot)) (go_range current) \<or>
     list_ex (\<lambda>(key, cand).
        case go_load current key of
          None \<Rightarrow> nodeHasCustomRoutes (cd_Info cand)
        | Some slot \<Rightarrow> \<not> sameMachineNode (sl_Config slot) (sl_Info slot) (cd_Config cand) (cd_Info cand) \<and>
                        (nodeHasCustomRoutes (sl_Info slot) \<or> nodeHasCustomRoutes (cd_Info cand))) (go_range cands)"

text \<open>Closing the nodes that are no longer wanted.\<close>

fun close_removed ::
  "('w, 'e) machine_ops \<Rightarrow> string list \<Rightarrow> (string \<times> machineSlot) list \<Rightarrow> 'e ReconcileResult \<Rightarrow> 'w \<Rightarrow>
   ('e machine_error + 'e ReconcileResult) \<times> 'w" where
  "close_removed ops desiredKeys [] result w = (Inr result, w)"
| "close_removed ops desiredKeys ((key, slot) # slots) result w =
     (if key \<in> set desiredKeys then close_removed ops desiredKeys slots result w
      else case mo_close ops (sl_Controller slot) w of
             (Some err, w') \<Rightarrow> (Inl (CloseRemovedError (sl_Config slot) err), w')
           | (None, w') \<Rightarrow> close_removed ops desiredKeys slots (result\<lparr>rr_Removed := Suc (rr_Removed result)\<rparr>) w')"

text \<open>The next controllers with their infos and configurations.\<close>

type_synonym listing = "(nat \<times> NodeInfo \<times> NodeConfig) list"

definition keep_slot :: "machineSlot \<Rightarrow> nat \<times> NodeInfo \<times> NodeConfig" where
  "keep_slot slot = (sl_Controller slot, sl_Info slot, sl_Config slot)"

text \<open>Starting or replacing one node: what is listed for it, the failure, and the world.\<close>

definition install ::
  "('w, 'e) machine_ops \<Rightarrow> machineCandidate \<Rightarrow> machineSlot option \<Rightarrow> 'w \<Rightarrow>
   (nat \<times> NodeInfo \<times> NodeConfig) option \<times> 'e option \<times> 'w" where
  "install ops cand slot w =
     (case mo_new ops (cd_Config cand) (cd_Info cand) w of
        (i, w1) \<Rightarrow>
          (case slot of
             Some s \<Rightarrow>
               (case mo_replace ops (sl_Controller s) i w1 of
                  ((oldStillActive, Some err), w2) \<Rightarrow> (if oldStillActive then Some (keep_slot s) else None, Some err, w2)
                | ((oldStillActive, None), w2) \<Rightarrow> (Some (i, cd_Info cand, cd_Config cand), None, w2))
           | None \<Rightarrow>
               (case mo_start ops i w1 of
                  (Some err, w2) \<Rightarrow> (case mo_close ops i w2 of (ignored, w3) \<Rightarrow> (None, Some err, w3))
                | (None, w2) \<Rightarrow> (Some (i, cd_Info cand, cd_Config cand), None, w2))))"

fun apply_keys ::
  "('w, 'e) machine_ops \<Rightarrow> bool \<Rightarrow> (string, machineSlot) go_map \<Rightarrow> candidates \<Rightarrow> string list \<Rightarrow> listing \<Rightarrow>
   'e ReconcileResult \<Rightarrow> 'w \<Rightarrow> ('e machine_error + listing \<times> 'e ReconcileResult) \<times> 'w" where
  "apply_keys ops continueOnError current cands [] ls result w = (Inr (ls, result), w)"
| "apply_keys ops continueOnError current cands (key # keys) ls result w =
     (case (go_load cands key, go_load current key) of
        (None, None) \<Rightarrow> apply_keys ops continueOnError current cands keys ls result w
      | (None, Some slot) \<Rightarrow>
          apply_keys ops continueOnError current cands keys (ls @ [keep_slot slot])
            (result\<lparr>rr_Unchanged := Suc (rr_Unchanged result)\<rparr>) w
      | (Some cand, slot) \<Rightarrow>
          if slot \<noteq> None \<and> sameMachineNode (sl_Config (the slot)) (sl_Info (the slot)) (cd_Config cand) (cd_Info cand) then
            apply_keys ops continueOnError current cands keys (ls @ [keep_slot (the slot)])
              (result\<lparr>rr_Unchanged := Suc (rr_Unchanged result)\<rparr>) w
          else
            (case install ops cand slot w of
               (entry, None, w') \<Rightarrow>
                 apply_keys ops continueOnError current cands keys (ls @ (case entry of None \<Rightarrow> [] | Some e \<Rightarrow> [e]))
                   (if slot \<noteq> None then result\<lparr>rr_Restarted := Suc (rr_Restarted result)\<rparr>
                    else result\<lparr>rr_Added := Suc (rr_Added result)\<rparr>) w'
             | (entry, Some err, w') \<Rightarrow>
                 (case handleMachineFailure continueOnError (cd_Config cand) (ControllerError err) result of
                    (Some e, result') \<Rightarrow> (Inl e, w')
                  | (None, result') \<Rightarrow>
                      apply_keys ops continueOnError current cands keys (ls @ (case entry of None \<Rightarrow> [] | Some e \<Rightarrow> [e])) result' w')))"

definition empty_result :: "'e ReconcileResult" where
  "empty_result =
     \<lparr>rr_Added = 0, rr_Removed = 0, rr_Restarted = 0, rr_Unchanged = 0, rr_Skipped = 0, rr_FullReloadRequired = False,
      rr_Failures = []\<rparr>"

definition set_listing :: "listing \<Rightarrow> 'e Node \<Rightarrow> 'e Node" where
  "set_listing ls n =
     n\<lparr>nd_controllers := map fst ls, nd_NodeInfos := map (\<lambda>(_, info, _). info) ls, nd_configs := map (\<lambda>(_, _, cfg). cfg) ls\<rparr>"

definition reconcileWithFactory ::
  "('w, 'e) machine_ops \<Rightarrow> info_source \<Rightarrow> bool \<Rightarrow> NodeConfig list \<Rightarrow> 'e Node \<Rightarrow> 'w \<Rightarrow>
   ('e machine_error + 'e ReconcileResult) \<times> 'e Node \<times> 'w" where
  "reconcileWithFactory ops src continueOnError desired n w =
     (case currentMachineSlots n of
        Inl err \<Rightarrow> (Inl err, n, w)
      | Inr current \<Rightarrow>
          (case gather src continueOnError current desired ([], [], empty_result) of
             Inl err \<Rightarrow> (Inl err, n, w)
           | Inr (keys, cands, result) \<Rightarrow>
               if cands = [] \<and> rr_Failures result \<noteq> [] \<and> continueOnError then
                 (Inr result, n\<lparr>nd_failures := rr_Failures result\<rparr>, w)
               else if machineReconcileNeedsFullReload current keys cands then
                 (Inr (result\<lparr>rr_FullReloadRequired := True\<rparr>), n, w)
               else
                 (case close_removed ops keys (go_range current) result w of
                    (Inl err, w1) \<Rightarrow> (Inl err, n, w1)
                  | (Inr result1, w1) \<Rightarrow>
                      (case apply_keys ops continueOnError current cands keys [] result1 w1 of
                         (Inl err, w2) \<Rightarrow> (Inl err, n, w2)
                       | (Inr (ls, result2), w2) \<Rightarrow>
                           (Inr result2,
                            snd (reconcileAutoHY2PortForward ((set_listing ls n)\<lparr>nd_failures := rr_Failures result2\<rparr>)), w2)))))"

section \<open>Fetching node infos\<close>

fun fetch_loop ::
  "info_source \<Rightarrow> bool \<Rightarrow> NodeConfig list \<Rightarrow> NodeInfo list \<Rightarrow> 'e NodeFailure list \<Rightarrow>
   ('e machine_error + NodeInfo list) \<times> 'e NodeFailure list" where
  "fetch_loop src continueOnError [] infos fs = (Inr infos, fs)"
| "fetch_loop src continueOnError (cfg # cfgs) infos fs =
     (case fetch_info src cfg of
        Inl err \<Rightarrow>
          if continueOnError then fetch_loop src continueOnError cfgs infos (fs @ [\<lparr>nf_Config = cfg, nf_Err = err\<rparr>])
          else (Inl err, fs)
      | Inr info \<Rightarrow> fetch_loop src continueOnError cfgs (infos @ [info]) fs)"

definition FetchNodeInfos ::
  "info_source \<Rightarrow> bool \<Rightarrow> NodeConfig list \<Rightarrow> ('e machine_error + NodeInfo list) \<times> 'e NodeFailure list" where
  "FetchNodeInfos src continueOnError configs =
     (case fetch_loop src continueOnError configs [] [] of
        (Inl err, fs) \<Rightarrow> (Inl err, fs)
      | (Inr infos, fs) \<Rightarrow>
          if configs \<noteq> [] \<and> infos = [] \<and> \<not> continueOnError then (Inl NoAvailableNodes, fs) else (Inr infos, fs))"

section \<open>Which controllers are listed\<close>

definition lkey :: "nat \<times> NodeInfo \<times> NodeConfig \<Rightarrow> string" where
  "lkey e = machineNodeKey (snd (snd e))"

definition slots_ok :: "(string, machineSlot) go_map \<Rightarrow> bool" where
  "slots_ok current \<longleftrightarrow>
     (\<forall>k s. go_load current k = Some s \<longrightarrow> machineNodeKey (sl_Config s) = k) \<and>
     (\<forall>k k' s s'. go_load current k = Some s \<longrightarrow> go_load current k' = Some s' \<longrightarrow> sl_Controller s = sl_Controller s' \<longrightarrow> k = k')"

text \<open>The controllers of the current slots of some keys.\<close>

definition cur :: "(string, machineSlot) go_map \<Rightarrow> string list \<Rightarrow> nat set" where
  "cur current keys = {sl_Controller s |k s. k \<in> set keys \<and> go_load current k = Some s}"

text \<open>
  While the keys are worked off, the running controllers are those listed so far and those of the
  slots still to come, with no controller and no key in both.
\<close>

definition tracks :: "(string, machineSlot) go_map \<Rightarrow> string list \<Rightarrow> listing \<Rightarrow> nat set \<Rightarrow> bool" where
  "tracks current keys ls R \<longleftrightarrow>
     R = fst ` set ls \<union> cur current keys \<and> fst ` set ls \<inter> cur current keys = {} \<and> distinct (map fst ls) \<and>
     distinct (map lkey ls) \<and> lkey ` set ls \<inter> set keys = {}"

lemma cur_Cons:
  "cur current (k # ks) = (case go_load current k of None \<Rightarrow> {} | Some s \<Rightarrow> {sl_Controller s}) \<union> cur current ks"
  by (auto simp: cur_def split: option.splits)

lemma cur_fresh:
  assumes "slots_ok current" "k \<notin> set ks" "go_load current k = Some s"
  shows "sl_Controller s \<notin> cur current ks"
  using assms by (auto simp: cur_def slots_ok_def) metis

lemma slots_split:
  assumes "slots_ok current"
  shows "{sl_Controller s |k s. go_load current k = Some s} - {sl_Controller s |k s. go_load current k = Some s \<and> k \<notin> set keys} =
         cur current keys" (is "?A - ?B = _")
proof
  show "?A - ?B \<subseteq> cur current keys" unfolding cur_def by blast
  have "x \<notin> ?B" if "x \<in> cur current keys" for x
  proof
    assume "x \<in> ?B"
    then obtain k s where s: "go_load current k = Some s" "k \<notin> set keys" "x = sl_Controller s" by blast
    from that obtain k' s' where s': "go_load current k' = Some s'" "k' \<in> set keys" "x = sl_Controller s'" by (auto simp: cur_def)
    have "k = k'" using assms s s' unfolding slots_ok_def by metis
    then show False using s s' by simp
  qed
  then show "cur current keys \<subseteq> ?A - ?B" by (auto simp: cur_def)
qed

lemma tracks_skip: "tracks current (k # ks) ls R \<Longrightarrow> go_load current k = None \<Longrightarrow> tracks current ks ls R"
  by (auto simp: tracks_def cur_Cons)

lemma tracks_keep:
  assumes "tracks current (k # ks) ls R" "slots_ok current" "k \<notin> set ks" "go_load current k = Some s"
  shows "tracks current ks (ls @ [keep_slot s]) R"
proof -
  have "lkey (keep_slot s) = k" using assms(2,4) by (simp add: lkey_def keep_slot_def slots_ok_def)
  then show ?thesis
    using assms cur_fresh [OF assms(2-4)] by (auto simp: tracks_def cur_Cons keep_slot_def)
qed

lemma tracks_drop:
  assumes "tracks current (k # ks) ls R" "slots_ok current" "k \<notin> set ks" "go_load current k = Some s"
  shows "tracks current ks ls (R - {sl_Controller s})"
  using assms(1,4) cur_fresh [OF assms(2-4)] by (auto simp: tracks_def cur_Cons)

lemma tracks_new:
  assumes "tracks current ks ls R" "fst e \<notin> R" "lkey e \<notin> lkey ` set ls" "lkey e \<notin> set ks"
  shows "tracks current ks (ls @ [e]) (insert (fst e) R)"
  using assms by (auto simp: tracks_def)

text \<open>Nodes whose listed controllers are exactly the running ones.\<close>

definition node_ok :: "'e Node \<Rightarrow> nat set \<Rightarrow> bool" where
  "node_ok n R \<longleftrightarrow>
     set (nd_controllers n) = R \<and> distinct (nd_controllers n) \<and> length (nd_configs n) = length (nd_controllers n) \<and>
     length (nd_NodeInfos n) = length (nd_controllers n) \<and> distinct (map machineNodeKey (nd_configs n))"

lemma currentMachineSlots_load:
  assumes "node_ok n R" "currentMachineSlots n = Inr current"
  shows "go_load current k = Some s \<longleftrightarrow>
         (\<exists>t \<in> set (zip (nd_configs n) (zip (nd_NodeInfos n) (nd_controllers n))). k = machineNodeKey (fst t) \<and> s = slot_of t)"
    "go_wf current"
    "map fst (zip (nd_configs n) (zip (nd_NodeInfos n) (nd_controllers n))) = nd_configs n"
    "map (\<lambda>t. snd (snd t)) (zip (nd_configs n) (zip (nd_NodeInfos n) (nd_controllers n))) = nd_controllers n"
proof -
  let ?z = "zip (nd_configs n) (zip (nd_NodeInfos n) (nd_controllers n))"
  have len: "length (nd_configs n) = length (nd_controllers n)" "length (nd_NodeInfos n) = length (nd_controllers n)"
    using assms(1) by (simp_all add: node_ok_def)
  have "activeConfigs [] n = nd_configs n" using len by (auto simp: activeConfigs_def)
  then have c: "current = fold (\<lambda>t. go_store (machineNodeKey (fst t)) (slot_of t)) ?z []"
    using assms(2) by (auto simp: currentMachineSlots_def Let_def split: if_splits option.splits)
  show mf: "map fst ?z = nd_configs n" and "map (\<lambda>t. snd (snd t)) ?z = nd_controllers n"
    using len by (simp_all add: map_fst_zip map_snd_zip comp_def flip: map_map [of snd snd, unfolded comp_def])
  have dk: "distinct (map (\<lambda>t. machineNodeKey (fst t)) ?z)"
    using assms(1) mf by (metis (no_types, lifting) map_map comp_apply map_eq_conv node_ok_def)
  have "go_load current k = map_of (rev (map (\<lambda>t. (machineNodeKey (fst t), slot_of t)) ?z)) k"
    by (simp add: c gmap.lookup_fold_store map_add_def split: option.split)
  also have "\<dots> = Some s \<longleftrightarrow> (k, s) \<in> set (map (\<lambda>t. (machineNodeKey (fst t), slot_of t)) ?z)"
    using dk by (subst map_of_eq_Some_iff) (auto simp: rev_map [symmetric] comp_def)
  finally show "go_load current k = Some s \<longleftrightarrow> (\<exists>t \<in> set ?z. k = machineNodeKey (fst t) \<and> s = slot_of t)" by auto
  show "go_wf current" unfolding c by (rule gmap.invar_fold_store) simp
qed

lemma currentMachineSlots_ok:
  assumes "node_ok n R" "currentMachineSlots n = Inr current"
  shows "slots_ok current" "go_wf current" "{sl_Controller s |k s. go_load current k = Some s} = R"
    "\<And>k. go_load current k \<noteq> None \<longleftrightarrow> k \<in> machineNodeKey ` set (nd_configs n)"
proof -
  let ?z = "zip (nd_configs n) (zip (nd_NodeInfos n) (nd_controllers n))"
  note l = currentMachineSlots_load(1) [OF assms] and mf = currentMachineSlots_load(3,4) [OF assms]
  show "go_wf current" by (rule currentMachineSlots_load(2) [OF assms])
  have inj: "t = t'" if "t \<in> set ?z" "t' \<in> set ?z" "snd (snd t) = snd (snd t')" for t t'
    using that mf(2) assms(1) by (metis (no_types, lifting) distinct_map inj_onD node_ok_def)
  show "slots_ok current" unfolding slots_ok_def l by (auto simp: slot_of_def dest: inj)
  have "{sl_Controller s |k s. go_load current k = Some s} = (\<lambda>t. sl_Controller (slot_of t)) ` set ?z"
    unfolding l by blast
  also have "\<dots> = set (map (\<lambda>t. snd (snd t)) ?z)" by (simp add: slot_of_def)
  finally show "{sl_Controller s |k s. go_load current k = Some s} = R" using mf(2) assms(1) by (simp add: node_ok_def)
  have "k \<in> machineNodeKey ` set (map fst ?z)" if "go_load current k \<noteq> None" for k using that l by fastforce
  moreover have "go_load current k \<noteq> None" if k: "k \<in> machineNodeKey ` set (map fst ?z)" for k
  proof -
    obtain t where "t \<in> set ?z" "k = machineNodeKey (fst t)" using k by auto
    then have "go_load current k = Some (slot_of t)" using l by blast
    then show ?thesis by simp
  qed
  ultimately show "\<And>k. go_load current k \<noteq> None \<longleftrightarrow> k \<in> machineNodeKey ` set (nd_configs n)" unfolding mf(1) by blast
qed

lemma slot_at:
  assumes "node_ok n R" "currentMachineSlots n = Inr current" "j < length (nd_controllers n)"
  shows "\<exists>s. go_load current (machineNodeKey (nd_configs n ! j)) = Some s \<and> sl_Controller s = nd_controllers n ! j"
proof -
  let ?z = "zip (nd_configs n) (zip (nd_NodeInfos n) (nd_controllers n))"
  have len: "length (nd_configs n) = length (nd_controllers n)" "length (nd_NodeInfos n) = length (nd_controllers n)"
    using assms(1) by (simp_all add: node_ok_def)
  have zj: "?z ! j = (nd_configs n ! j, nd_NodeInfos n ! j, nd_controllers n ! j)" using assms(3) len by simp
  have "?z ! j \<in> set ?z" by (rule nth_mem) (use assms(3) len in simp)
  then have "go_load current (machineNodeKey (fst (?z ! j))) = Some (slot_of (?z ! j))"
    using currentMachineSlots_load(1) [OF assms(1,2)] by blast
  then show ?thesis unfolding zj by (simp add: slot_of_def)
qed

text \<open>A failure on record for a key.\<close>

definition failed :: "'e ReconcileResult \<Rightarrow> string \<Rightarrow> bool" where
  "failed result k \<longleftrightarrow> (\<exists>f \<in> set (rr_Failures result). machineNodeKey (nf_Config f) = k)"

lemma failed_simps [simp]:
  "failed (snd (handleMachineFailure c cfg err result)) k \<longleftrightarrow> machineNodeKey cfg = k \<or> failed result k"
  "failed (result\<lparr>rr_Skipped := x\<rparr>) k = failed result k" "failed (result\<lparr>rr_Unchanged := x\<rparr>) k = failed result k"
  "failed (result\<lparr>rr_Restarted := x\<rparr>) k = failed result k" "failed (result\<lparr>rr_Added := x\<rparr>) k = failed result k"
  "failed (result\<lparr>rr_Removed := x\<rparr>) k = failed result k"
  by (auto simp: failed_def handleMachineFailure_def)

text \<open>What the first loop has found out about the keys it saw.\<close>

definition gathered :: "(string, machineSlot) go_map \<Rightarrow> NodeConfig set \<Rightarrow> string list \<times> candidates \<times> 'e ReconcileResult \<Rightarrow> bool" where
  "gathered current seen st \<longleftrightarrow>
     (case st of (keys, cands, result) \<Rightarrow>
        distinct keys \<and> set keys = machineNodeKey ` seen - {[]} \<and>
        (\<forall>k c. go_load cands k = Some c \<longrightarrow> k \<in> set keys \<and> machineNodeKey (cd_Config c) = k) \<and>
        (\<forall>k \<in> set keys. go_load cands k \<noteq> None \<or> go_load current k \<noteq> None \<or> failed result k))"

lemma gathered_fail:
  assumes "gathered current seen (keys, cands, result)" "keys' = (if machineNodeKey cfg \<in> {[]} \<union> set keys then keys else keys @ [machineNodeKey cfg])"
  shows "gathered current (insert cfg seen) (keys', cands, snd (handleMachineFailure c cfg err result))"
  using assms by (auto simp: gathered_def)

lemma gathered_skip:
  assumes "gathered current seen (keys, cands, result)" "machineNodeKey cfg \<notin> {[]} \<union> set keys" "go_load current (machineNodeKey cfg) \<noteq> None"
  shows "gathered current (insert cfg seen) (keys @ [machineNodeKey cfg], cands, result\<lparr>rr_Skipped := x\<rparr>)"
  using assms by (auto simp: gathered_def)

lemma gathered_take:
  assumes "gathered current seen (keys, cands, result)" "machineNodeKey cfg \<notin> {[]} \<union> set keys"
  shows "gathered current (insert cfg seen)
           (keys @ [machineNodeKey cfg], go_store (machineNodeKey cfg) \<lparr>cd_Config = cfg, cd_Info = info\<rparr> cands, result)"
  using assms by (auto simp: gathered_def)

lemma gather_ok:
  "gathered current seen st \<Longrightarrow> gather src c current desired st = Inr st' \<Longrightarrow> gathered current (seen \<union> set desired) st'"
proof (induction desired arbitrary: seen st)
  case Nil
  then show ?case by simp
next
  case (Cons cfg cfgs)
  obtain keys cands result where st: "st = (keys, cands, result)" by (metis prod_cases3)
  note IH = Cons.IH [of "insert cfg seen"]
  let ?k = "machineNodeKey cfg"
  have failing: "gathered current (seen \<union> set (cfg # cfgs)) st'"
    if "keys' = (if ?k \<in> {[]} \<union> set keys then keys else keys @ [?k])"
      "(case handleMachineFailure c cfg err result of
          (Some e, result') \<Rightarrow> Inl e | (None, result') \<Rightarrow> gather src c current cfgs (keys', cands, result')) = Inr st'" for keys' err
  proof -
    have "gather src c current cfgs (keys', cands, snd (handleMachineFailure c cfg err result)) = Inr st'"
      using that(2) by (auto split: prod.splits option.splits)
    from IH [OF gathered_fail [OF Cons.prems(1) [unfolded st] that(1)] this] show ?thesis by simp
  qed
  show ?case
  proof (cases "?k \<in> {[]} \<union> set keys")
    case True
    then show ?thesis using Cons.prems(2) failing [of keys ConfigIncomplete] failing [of keys "DuplicateConfig ?k"]
      by (auto simp: st Let_def split: if_splits)
  next
    case False
    then have nk: "?k \<noteq> []" "?k \<notin> set keys" by auto
    show ?thesis
    proof (cases "fetch_info src cfg :: 'a machine_error + NodeInfo")
      case (Inl err)
      have f: "gathered current (seen \<union> set (cfg # cfgs)) st'"
        if "(case handleMachineFailure c cfg err result of
          (Some e, result') \<Rightarrow> Inl e | (None, result') \<Rightarrow> gather src c current cfgs (keys @ [?k], cands, result')) = Inr st'"
        using failing [of "keys @ [?k]" err] that False by simp
      show ?thesis
      proof (cases "err = EmptyNodeInfo \<and> go_load current ?k \<noteq> None")
        case True
        then have "gather src c current cfgs (keys @ [?k], cands, result\<lparr>rr_Skipped := Suc (rr_Skipped result)\<rparr>) = Inr st'"
          using Cons.prems(2) nk Inl by (simp add: st Let_def)
        from IH [OF gathered_skip [OF Cons.prems(1) [unfolded st] False] this] True show ?thesis by simp
      next
        case False
        then show ?thesis using Cons.prems(2) nk Inl f by (cases err) (auto simp: st Let_def split: if_splits)
      qed
    next
      case (Inr info)
      then have "gather src c current cfgs (keys @ [?k], go_store ?k \<lparr>cd_Config = cfg, cd_Info = info\<rparr> cands, result) = Inr st'"
        using Cons.prems(2) nk by (simp add: st Let_def)
      from IH [OF gathered_take [OF Cons.prems(1) [unfolded st] False] this] show ?thesis by simp
    qed
  qed
qed

lemma fetch_info_error: "fetch_info src cfg \<noteq> Inl (ControllerError e)"
  by (auto simp: fetch_info_def split: sum.splits option.splits)

lemma gather_no_controller_error: "gather src c current desired st \<noteq> Inl (ControllerError e)"
proof (induction desired arbitrary: st)
  case Nil
  then show ?case by simp
next
  case (Cons cfg cfgs)
  show ?case
    using Cons fetch_info_error [of src cfg e]
    by (cases st) (auto simp: Let_def handleMachineFailure_def split: sum.splits machine_error.splits)
qed

lemma close_removed_error: "fst (close_removed ops keys slots result w) \<noteq> Inl (ControllerError e)"
  by (induction slots arbitrary: result w) (auto split: prod.splits option.splits if_splits)

section \<open>The contract of the operations\<close>

locale controller_ops =
  fixes ops :: "('w, 'e) machine_ops" and live :: "'w \<Rightarrow> nat set" and known :: "'w \<Rightarrow> nat set"
  assumes live_known: "live w \<subseteq> known w"
    and new_law: "mo_new ops cfg info w = (i, w') \<Longrightarrow> i \<notin> known w \<and> known w' = insert i (known w) \<and> live w' = live w"
    and start_law: "i \<in> known w \<Longrightarrow> mo_start ops i w = (e, w') \<Longrightarrow>
      known w' = known w \<and> live w' - {i} = live w - {i} \<and> (e = None \<longrightarrow> i \<in> live w')"
    and close_law: "i \<in> known w \<Longrightarrow> mo_close ops i w = (e, w') \<Longrightarrow> known w' = known w \<and> live w' = live w - {i}"
    and replace_law: "old \<in> known w \<Longrightarrow> new \<in> known w \<Longrightarrow> new \<notin> live w \<Longrightarrow> old \<noteq> new \<Longrightarrow>
      mo_replace ops old new w = ((keep, e), w') \<Longrightarrow>
      known w' = known w \<and> (keep \<longrightarrow> e \<noteq> None) \<and>
      live w' = (if keep then live w else if e = None then insert new (live w - {old}) else live w - {old})"
begin

lemma install_fresh:
  assumes "install ops cand None w = (entry, e, w')"
  shows "(entry = None \<and> e \<noteq> None \<and> live w' = live w) \<or>
         (\<exists>i. entry = Some (i, cd_Info cand, cd_Config cand) \<and> e = None \<and> i \<notin> known w \<and> live w' = insert i (live w))"
    and "known w \<subseteq> known w'"
proof -
  obtain i w1 where n: "mo_new ops (cd_Config cand) (cd_Info cand) w = (i, w1)" by (metis prod.exhaust)
  obtain e1 w2 where s: "mo_start ops i w1 = (e1, w2)" by (metis prod.exhaust)
  obtain e2 w3 where c: "mo_close ops i w2 = (e2, w3)" by (metis prod.exhaust)
  note nl = new_law [OF n]
  have i: "i \<in> known w1" using nl by simp
  note sl = start_law [OF i s]
  have i2: "i \<in> known w2" using sl i by simp
  note cl = close_law [OF i2 c]
  have ni: "i \<notin> live w" using nl live_known [of w] by blast
  show "(entry = None \<and> e \<noteq> None \<and> live w' = live w) \<or>
         (\<exists>i. entry = Some (i, cd_Info cand, cd_Config cand) \<and> e = None \<and> i \<notin> known w \<and> live w' = insert i (live w))"
  proof (cases e1)
    case None
    then have "entry = Some (i, cd_Info cand, cd_Config cand)" "e = None" "w' = w2" using assms n s by (simp_all add: install_def)
    moreover have "live w2 = insert i (live w)" using sl None nl ni by blast
    ultimately show ?thesis using nl by blast
  next
    case (Some err)
    then have "entry = None" "e = Some err" "w' = w3" using assms n s c by (simp_all add: install_def)
    moreover have "live w3 = live w" using sl cl nl ni by blast
    ultimately show ?thesis by blast
  qed
  show "known w \<subseteq> known w'" using assms n s c nl sl cl by (cases e1) (auto simp: install_def)
qed

lemma install_over:
  assumes "install ops cand (Some slot) w = (entry, e, w')" and "sl_Controller slot \<in> known w"
  shows "(entry = Some (keep_slot slot) \<and> e \<noteq> None \<and> live w' = live w) \<or>
         (entry = None \<and> e \<noteq> None \<and> live w' = live w - {sl_Controller slot}) \<or>
         (\<exists>i. entry = Some (i, cd_Info cand, cd_Config cand) \<and> e = None \<and> i \<notin> known w \<and>
              live w' = insert i (live w - {sl_Controller slot}))"
    and "known w \<subseteq> known w'"
proof -
  obtain i w1 where n: "mo_new ops (cd_Config cand) (cd_Info cand) w = (i, w1)" by (metis prod.exhaust)
  obtain keep e1 w2 where r: "mo_replace ops (sl_Controller slot) i w1 = ((keep, e1), w2)" by (metis prod.exhaust)
  note nl = new_law [OF n]
  have "sl_Controller slot \<in> known w1" "i \<in> known w1" "i \<notin> live w1" "sl_Controller slot \<noteq> i"
    using nl assms(2) live_known [of w] live_known [of w1] by auto
  note rl = replace_law [OF this r]
  show "(entry = Some (keep_slot slot) \<and> e \<noteq> None \<and> live w' = live w) \<or>
         (entry = None \<and> e \<noteq> None \<and> live w' = live w - {sl_Controller slot}) \<or>
         (\<exists>i. entry = Some (i, cd_Info cand, cd_Config cand) \<and> e = None \<and> i \<notin> known w \<and>
              live w' = insert i (live w - {sl_Controller slot}))"
    using assms(1) n r rl nl by (cases e1) (auto simp: install_def split: if_splits)
  show "known w \<subseteq> known w'" using assms(1) n r rl nl by (cases e1) (auto simp: install_def)
qed

lemma close_removed_ok:
  assumes "close_removed ops keys slots result w = (Inr result', w')" "sl_Controller ` snd ` set slots \<subseteq> known w"
  shows "live w' = live w - {sl_Controller s |k s. (k, s) \<in> set slots \<and> k \<notin> set keys}" "known w' = known w"
    "rr_Failures result' = rr_Failures result"
proof -
  have "live w' = live w - {sl_Controller s |k s. (k, s) \<in> set slots \<and> k \<notin> set keys} \<and> known w' = known w \<and>
        rr_Failures result' = rr_Failures result"
    using assms
  proof (induction slots arbitrary: w result)
    case Nil
    then show ?case by simp
  next
    case (Cons x slots)
    obtain key slot where x: "x = (key, slot)" by (cases x)
    show ?case
    proof (cases "key \<in> set keys")
      case True
      then show ?thesis using Cons.prems Cons.IH [of result w] x by auto
    next
      case False
      obtain e w1 where c: "mo_close ops (sl_Controller slot) w = (e, w1)" by (metis prod.exhaust)
      have "sl_Controller slot \<in> known w" using Cons.prems(2) x by simp
      note cl = close_law [OF this c]
      have "e = None" using Cons.prems(1) x False c by (cases e) auto
      then have "close_removed ops keys slots (result\<lparr>rr_Removed := Suc (rr_Removed result)\<rparr>) w1 = (Inr result', w')"
        using Cons.prems(1) x False c by simp
      from Cons.IH [OF this] have "live w' = live w1 - {sl_Controller s |k s. (k, s) \<in> set slots \<and> k \<notin> set keys}"
        "known w' = known w1" "rr_Failures result' = rr_Failures result" using Cons.prems(2) cl x by auto
      then show ?thesis using cl x False by auto
    qed
  qed
  then show "live w' = live w - {sl_Controller s |k s. (k, s) \<in> set slots \<and> k \<notin> set keys}" "known w' = known w"
    "rr_Failures result' = rr_Failures result" by auto
qed

text \<open>
  One key of the second loop: what is appended to the listing keeps it in step with the running
  controllers, and the key is served, has failed, or has neither a candidate nor a slot.
\<close>

lemma apply_key:
  assumes sl: "slots_ok current" and t: "tracks current (k # ks) ls (live w)" and k: "k \<notin> set ks"
    and cand: "\<And>c. go_load cands k = Some c \<Longrightarrow> machineNodeKey (cd_Config c) = k"
    and run: "apply_keys ops c current cands (k # ks) ls result w = (Inr r, w')"
  obtains entry result1 w1 where
    "apply_keys ops c current cands ks (ls @ entry) result1 w1 = (Inr r, w')" "tracks current ks (ls @ entry) (live w1)"
    "lkey ` set entry \<subseteq> {k}" "entry \<noteq> [] \<or> failed result1 k \<or> go_load cands k = None \<and> go_load current k = None"
    "\<And>k'. failed result k' \<Longrightarrow> failed result1 k'"
proof -
  note obtained = that
  have lk: "lkey (keep_slot s) = k" if "go_load current k = Some s" for s
    using sl that by (simp add: lkey_def keep_slot_def slots_ok_def)
  have nl: "k \<notin> lkey ` set ls" using t by (auto simp: tracks_def)
  have kept: thesis if s: "go_load current k = Some s"
    and r: "apply_keys ops c current cands ks (ls @ [keep_slot s]) (result\<lparr>rr_Unchanged := Suc (rr_Unchanged result)\<rparr>) w = (Inr r, w')" for s
    by (rule obtained [OF r]) (use tracks_keep [OF t sl k s] lk [OF s] in \<open>simp_all\<close>)
  show thesis
  proof (cases "go_load cands k")
    case None
    show thesis
    proof (cases "go_load current k")
      case None2: None
      from run None None2 have r: "apply_keys ops c current cands ks (ls @ []) result w = (Inr r, w')" by simp
      show thesis by (rule obtained [OF r]) (use tracks_skip [OF t None2] None None2 in simp_all)
    next
      case (Some s)
      then show thesis using run None kept by simp
    qed
  next
    case (Some cd)
    let ?slot = "go_load current k"
    have key: "lkey (i, cd_Info cd, cd_Config cd) = k" for i using cand [OF Some] by (simp add: lkey_def)
    show thesis
    proof (cases "?slot \<noteq> None \<and> sameMachineNode (sl_Config (the ?slot)) (sl_Info (the ?slot)) (cd_Config cd) (cd_Info cd)")
      case True
      then obtain s where "?slot = Some s" by blast
      then show thesis using run Some True kept by auto
    next
      case False
      obtain entry e w1 where i: "install ops cd ?slot w = (entry, e, w1)" by (metis prod_cases3)
      let ?es = "case entry of None \<Rightarrow> [] | Some x \<Rightarrow> [x]"
      have tr: "tracks current ks (ls @ ?es) (live w1) \<and> lkey ` set ?es \<subseteq> {k} \<and> (e = None \<longrightarrow> ?es \<noteq> [])"
      proof (cases ?slot)
        case None
        note t1 = tracks_skip [OF t None] and f = install_fresh(1) [OF i [unfolded None]]
        show ?thesis
        proof (cases entry)
          case en: None
          then show ?thesis using f t1 by auto
        next
          case (Some x)
          then obtain j where "x = (j, cd_Info cd, cd_Config cd)" "e = None" "j \<notin> known w" "live w1 = insert j (live w)" using f by auto
          then show ?thesis using tracks_new [OF t1, of x] key nl k live_known [of w] Some by auto
        qed
      next
        case (Some s)
        have "sl_Controller s \<in> live w" using t Some by (auto simp: tracks_def cur_def)
        then have "sl_Controller s \<in> known w" using live_known by blast
        note f = install_over(1) [OF i [unfolded Some] this] and t1 = tracks_drop [OF t sl k Some]
        from f consider "entry = Some (keep_slot s)" "e \<noteq> None" "live w1 = live w"
          | "entry = None" "e \<noteq> None" "live w1 = live w - {sl_Controller s}"
          | j where "entry = Some (j, cd_Info cd, cd_Config cd)" "e = None" "j \<notin> known w" "live w1 = insert j (live w - {sl_Controller s})"
          by (elim disjE exE conjE)
        then show ?thesis
        proof cases
          case 1
          then show ?thesis using tracks_keep [OF t sl k Some] lk [OF Some] by simp
        next
          case 2
          then show ?thesis using t1 by simp
        next
          case 3
          then show ?thesis using tracks_new [OF t1, of "(j, cd_Info cd, cd_Config cd)"] key nl k live_known [of w] by auto
        qed
      qed
      show thesis
      proof (cases e)
        case None
        from run Some False i None have r: "apply_keys ops c current cands ks (ls @ ?es)
           (if ?slot \<noteq> None then result\<lparr>rr_Restarted := Suc (rr_Restarted result)\<rparr>
            else result\<lparr>rr_Added := Suc (rr_Added result)\<rparr>) w1 = (Inr r, w')" by auto
        show thesis by (rule obtained [OF r]) (use tr None in auto)
      next
        case (Some err)
        let ?h = "handleMachineFailure c (cd_Config cd) (ControllerError err) result"
        from run \<open>go_load cands k = Some cd\<close> False i Some
        have r: "apply_keys ops c current cands ks (ls @ ?es) (snd ?h) w1 = (Inr r, w')"
          by (auto split: prod.splits option.splits)
        show thesis by (rule obtained [OF r]) (use tr cand [OF \<open>go_load cands k = Some cd\<close>] in auto)
      qed
    qed
  qed
qed

lemma apply_keys_ok:
  assumes sl: "slots_ok current"
  shows "tracks current ks ls (live w) \<Longrightarrow> distinct ks \<Longrightarrow>
         (\<And>k c. go_load cands k = Some c \<Longrightarrow> machineNodeKey (cd_Config c) = k) \<Longrightarrow>
         apply_keys ops c current cands ks ls result w = (Inr (ls', result'), w') \<Longrightarrow>
         tracks current [] ls' (live w') \<and> lkey ` set ls \<subseteq> lkey ` set ls' \<and> lkey ` set ls' \<subseteq> lkey ` set ls \<union> set ks \<and>
         (\<forall>k. failed result k \<longrightarrow> failed result' k) \<and>
         (\<forall>k \<in> set ks. k \<in> lkey ` set ls' \<or> failed result' k \<or> go_load cands k = None \<and> go_load current k = None)"
proof (induction ks arbitrary: ls result w)
  case Nil
  then show ?case by simp
next
  case (Cons k ks)
  obtain entry result1 w1 where
    r: "apply_keys ops c current cands ks (ls @ entry) result1 w1 = (Inr (ls', result'), w')"
    and t: "tracks current ks (ls @ entry) (live w1)" and e: "lkey ` set entry \<subseteq> {k}"
    and d: "entry \<noteq> [] \<or> failed result1 k \<or> go_load cands k = None \<and> go_load current k = None"
    and f: "\<And>k'. failed result k' \<Longrightarrow> failed result1 k'"
    using apply_key [OF sl Cons.prems(1) _ Cons.prems(3,4)] Cons.prems(2) by auto
  have ek: "entry \<noteq> [] \<Longrightarrow> k \<in> lkey ` set entry" using e by (cases entry) auto
  have IH: "tracks current [] ls' (live w')" "lkey ` set (ls @ entry) \<subseteq> lkey ` set ls'"
    "lkey ` set ls' \<subseteq> lkey ` set (ls @ entry) \<union> set ks" "\<forall>k. failed result1 k \<longrightarrow> failed result' k"
    "\<forall>k \<in> set ks. k \<in> lkey ` set ls' \<or> failed result' k \<or> go_load cands k = None \<and> go_load current k = None"
    using Cons.IH [OF t _ Cons.prems(3) r] Cons.prems(2) by auto
  have "k \<in> lkey ` set ls' \<or> failed result' k \<or> go_load cands k = None \<and> go_load current k = None"
    using d ek IH(2,4) by auto
  moreover have "lkey ` set ls' \<subseteq> lkey ` set ls \<union> set (k # ks)" using IH(3) e by (simp add: image_Un) blast
  moreover have "lkey ` set ls \<subseteq> lkey ` set ls'" using IH(2) by auto
  ultimately show ?case using IH(1,4,5) f by simp
qed

text \<open>A controller that was stopped is never started again.\<close>

lemma install_no_revive:
  assumes "install ops cand slot w = (entry, e, w')" "\<And>s. slot = Some s \<Longrightarrow> sl_Controller s \<in> known w"
  shows "live w' \<subseteq> live w \<union> - known w" "known w \<subseteq> known w'"
proof -
  show "live w' \<subseteq> live w \<union> - known w"
  proof (cases slot)
    case None
    from install_fresh(1) [OF assms(1) [unfolded None]] show ?thesis by (elim disjE exE conjE) auto
  next
    case (Some s)
    from install_over(1) [OF assms(1) [unfolded Some]] assms(2) [OF Some] show ?thesis by auto
  qed
  show "known w \<subseteq> known w'"
    using install_fresh(2) [of cand w entry e w'] install_over(2) [of cand _ w entry e w'] assms by (cases slot) auto
qed

lemma apply_keys_no_revive:
  assumes "\<And>k s. go_load current k = Some s \<Longrightarrow> sl_Controller s \<in> known w"
    and "apply_keys ops c current cands ks ls result w = (r, w')"
  shows "live w' \<subseteq> live w \<union> - known w"
  using assms
proof (induction ks arbitrary: ls result w)
  case Nil
  then show ?case by simp
next
  case (Cons k ks)
  note IH = Cons.IH [OF Cons.prems(1)]
  show ?case
  proof (cases "go_load cands k")
    case None
    then show ?thesis using Cons.prems(2) IH by (cases "go_load current k") auto
  next
    case (Some cd)
    let ?slot = "go_load current k"
    show ?thesis
    proof (cases "?slot \<noteq> None \<and> sameMachineNode (sl_Config (the ?slot)) (sl_Info (the ?slot)) (cd_Config cd) (cd_Info cd)")
      case True
      then show ?thesis using Cons.prems(2) Some IH by auto
    next
      case False
      obtain entry e w1 where i: "install ops cd ?slot w = (entry, e, w1)" by (metis prod_cases3)
      have nr: "live w1 \<subseteq> live w \<union> - known w" "known w \<subseteq> known w1"
        using install_no_revive [OF i] Cons.prems(1) by blast+
      have mono: "live w' \<subseteq> live w \<union> - known w" if "apply_keys ops c current cands ks ls1 result1 w1 = (r, w')" for ls1 result1
      proof -
        have "live w' \<subseteq> live w1 \<union> - known w1" by (rule Cons.IH [OF _ that]) (use Cons.prems(1) nr(2) in blast)
        then show ?thesis using nr by blast
      qed
      have end_here: "live w' \<subseteq> live w \<union> - known w" if "w' = w1" using that nr(1) by simp
      show ?thesis
        using Cons.prems(2) Some False i mono end_here
        by (cases e) (auto simp: handleMachineFailure_def split: if_splits)
    qed
  qed
qed

text \<open>
  Reconciling leaves the listed controllers and the running ones the same, and every wanted node is
  listed or has a failure on record.
\<close>

lemma reconcile_ok:
  assumes ok: "node_ok n (live w)"
    and run: "reconcileWithFactory ops src c desired n w = (Inr result, n', w')" and full: "\<not> rr_FullReloadRequired result"
  shows "node_ok n' (live w')" "nd_failures n' = rr_Failures result"
    "\<And>cfg. cfg \<in> set desired \<Longrightarrow> machineNodeKey cfg \<noteq> [] \<Longrightarrow>
       machineNodeKey cfg \<in> machineNodeKey ` set (nd_configs n') \<or> failed result (machineNodeKey cfg)"
proof -
  obtain current where cur: "currentMachineSlots n = Inr current"
    using run by (cases "currentMachineSlots n") (auto simp: reconcileWithFactory_def)
  note slots = currentMachineSlots_ok [OF ok cur]
  obtain keys cands result0 where
    g: "gather src c current desired ([], [], empty_result :: 'e ReconcileResult) = Inr (keys, cands, result0)"
    using run cur by (cases "gather src c current desired ([], [], empty_result :: 'e ReconcileResult)") (auto simp: reconcileWithFactory_def)
  have "gathered current {} ([], [], empty_result :: 'e ReconcileResult)" by (simp add: gathered_def)
  from gather_ok [OF this g] have ga: "gathered current (set desired) (keys, cands, result0)" by simp
  have res: "go_load cands k \<noteq> None \<or> go_load current k \<noteq> None \<or> failed result0 k" if "k \<in> set keys" for k
    using ga that by (auto simp: gathered_def)
  have keys: "set keys = machineNodeKey ` set desired - {[]}" "distinct keys" using ga by (simp_all add: gathered_def)
  have "node_ok n' (live w') \<and> nd_failures n' = rr_Failures result \<and>
        (\<forall>k \<in> set keys. k \<in> machineNodeKey ` set (nd_configs n') \<or> failed result k)"
  proof (cases "cands = [] \<and> rr_Failures result0 \<noteq> [] \<and> c")
    case True
    then have e: "result = result0" "n' = n\<lparr>nd_failures := rr_Failures result0\<rparr>" "w' = w"
      using run cur g by (auto simp: reconcileWithFactory_def)
    have "k \<in> machineNodeKey ` set (nd_configs n') \<or> failed result k" if "k \<in> set keys" for k
      using res [OF that] slots(4) [of k] True e by auto
    then show ?thesis using ok e by (simp add: node_ok_def)
  next
    case False
    then have nf: "\<not> machineReconcileNeedsFullReload current keys cands"
      using run cur g full by (auto simp: reconcileWithFactory_def split: if_splits)
    obtain result1 w1 where cr: "close_removed ops keys (go_range current) result0 w = (Inr result1, w1)"
      using run cur g False nf by (auto simp: reconcileWithFactory_def split: sum.splits prod.splits)
    obtain ls where ap: "apply_keys ops c current cands keys [] result1 w1 = (Inr (ls, result), w')"
      and n': "n' = snd (reconcileAutoHY2PortForward ((set_listing ls n)\<lparr>nd_failures := rr_Failures result\<rparr>))"
      using run cur g False nf cr by (auto simp: reconcileWithFactory_def split: sum.splits prod.splits)
    have kn: "sl_Controller ` snd ` set (go_range current) \<subseteq> known w"
      using slots(2,3) live_known [of w] in_range_iff [OF slots(2)] by fastforce
    have "live w1 = live w - {sl_Controller s |k s. go_load current k = Some s \<and> k \<notin> set keys}"
      using close_removed_ok(1) [OF cr kn] in_range_iff [OF slots(2)] by simp
    also have "\<dots> = cur current keys" using slots_split [OF slots(1), of keys] slots(3) by simp
    finally have "tracks current keys [] (live w1)" by (simp add: tracks_def)
    from apply_keys_ok [OF slots(1) this keys(2) _ ap] ga have t: "tracks current [] ls (live w')"
      and f: "\<forall>k. failed result1 k \<longrightarrow> failed result k"
      and sv: "\<forall>k \<in> set keys. k \<in> lkey ` set ls \<or> failed result k \<or> go_load cands k = None \<and> go_load current k = None"
      by (auto simp: gathered_def)
    have cfgs: "map machineNodeKey (nd_configs n') = map lkey ls" "nd_controllers n' = map fst ls"
      "length (nd_NodeInfos n') = length ls" "length (nd_configs n') = length ls" "nd_failures n' = rr_Failures result"
      by (simp_all add: n' reconcileAutoHY2PortForward_def set_listing_def lkey_def split_def)
    have "node_ok n' (live w')" using t cfgs by (simp add: node_ok_def tracks_def cur_def)
    moreover have "k \<in> machineNodeKey ` set (nd_configs n') \<or> failed result k" if k: "k \<in> set keys" for k
    proof -
      have img: "machineNodeKey ` set (nd_configs n') = lkey ` set ls" using arg_cong [OF cfgs(1), of set] by simp
      have fr: "failed result k" if "failed result0 k"
      proof -
        have "failed result1 k" using that close_removed_ok(3) [OF cr kn] by (simp add: failed_def)
        then show ?thesis using f by blast
      qed
      show ?thesis unfolding img using bspec [OF sv k] res [OF k] fr by (elim disjE conjE) simp_all
    qed
    ultimately show ?thesis using cfgs(5) by blast
  qed
  then show "node_ok n' (live w')" "nd_failures n' = rr_Failures result"
    "\<And>cfg. cfg \<in> set desired \<Longrightarrow> machineNodeKey cfg \<noteq> [] \<Longrightarrow>
       machineNodeKey cfg \<in> machineNodeKey ` set (nd_configs n') \<or> failed result (machineNodeKey cfg)"
    using keys(1) by auto
qed

text \<open>
  A reconcile that is given up while a node is installed has already stopped the nodes that are no
  longer wanted, and still lists them.
\<close>

lemma aborted_stale:
  assumes ok: "node_ok n (live w)"
    and run: "reconcileWithFactory ops src c desired n w = (Inl (ControllerError err), n', w')"
    and j: "j < length (nd_controllers n)" "machineNodeKey (nd_configs n ! j) \<notin> machineNodeKey ` set desired"
  shows "n' = n \<and> nd_controllers n ! j \<in> live w \<and> nd_controllers n ! j \<notin> live w'"
proof -
  obtain current where cur: "currentMachineSlots n = Inr current"
    using run by (cases "currentMachineSlots n") (auto simp: reconcileWithFactory_def currentMachineSlots_def Let_def split: if_splits option.splits)
  note slots = currentMachineSlots_ok [OF ok cur]
  obtain keys cands result0 where
    g: "gather src c current desired ([], [], empty_result :: 'e ReconcileResult) = Inr (keys, cands, result0)"
    using run cur gather_no_controller_error [of src c current desired "([], [], empty_result :: 'e ReconcileResult)" err]
    by (cases "gather src c current desired ([], [], empty_result :: 'e ReconcileResult)") (auto simp: reconcileWithFactory_def)
  have "gathered current {} ([], [], empty_result :: 'e ReconcileResult)" by (simp add: gathered_def)
  from gather_ok [OF this g] have keys: "set keys = machineNodeKey ` set desired - {[]}" by (simp add: gathered_def)
  have path: "\<not> (cands = [] \<and> rr_Failures result0 \<noteq> [] \<and> c)" "\<not> machineReconcileNeedsFullReload current keys cands"
    using run cur g by (auto simp: reconcileWithFactory_def split: if_splits)
  obtain r w1 where r: "close_removed ops keys (go_range current) result0 w = (r, w1)" by (metis prod.exhaust)
  have "r \<noteq> Inl (ControllerError err)" using close_removed_error [of ops keys "go_range current" result0 w err] r by simp
  then obtain result1 where cr: "close_removed ops keys (go_range current) result0 w = (Inr result1, w1)"
    using run cur g path r by (cases r) (simp_all add: reconcileWithFactory_def)
  have ap: "apply_keys ops c current cands keys [] result1 w1 = (Inl (ControllerError err), w') \<and> n' = n"
    using run cur g path cr by (simp add: reconcileWithFactory_def split: sum.splits prod.splits)
  have all: "sl_Controller s \<in> known w" if "go_load current k = Some s" for k s using slots(3) that live_known [of w] by blast
  have kn: "sl_Controller ` snd ` set (go_range current) \<subseteq> known w" using all in_range_iff [OF slots(2)] by force
  let ?i = "nd_controllers n ! j" and ?k = "machineNodeKey (nd_configs n ! j)"
  obtain s where s: "go_load current ?k = Some s" "sl_Controller s = ?i"
    using slot_at [OF ok cur j(1)] by blast
  have il: "?i \<in> live w" using nth_mem [OF j(1)] ok unfolding node_ok_def by (elim conjE) (erule subst)
  have i1: "?i \<notin> live w1"
  proof -
    have "(?k, s) \<in> set (go_range current)" "?k \<notin> set keys" using s(1) in_range_iff [OF slots(2)] keys j(2) by auto
    then have "sl_Controller s \<in> {sl_Controller s |k s. (k, s) \<in> set (go_range current) \<and> k \<notin> set keys}"
      by (intro CollectI exI [of _ ?k] exI [of _ s]) simp
    then have "sl_Controller s \<notin> live w1" unfolding close_removed_ok(1) [OF cr kn] by (simp only: Diff_iff not_False_eq_True not_True_eq_False simp_thms)
    then show ?thesis by (simp add: s(2))
  qed
  have k1: "known w1 = known w" by (rule close_removed_ok(2) [OF cr kn])
  have "live w' \<subseteq> live w1 \<union> - known w1"
    by (rule apply_keys_no_revive [OF _ conjunct1 [OF ap]]) (use all k1 in simp)
  moreover have "?i \<in> known w1" using il live_known [of w] k1 by blast
  ultimately have "?i \<notin> live w'" using i1 by blast
  then show ?thesis using conjunct2 [OF ap] il by simp
qed

end

section \<open>The operations on real controllers\<close>

text \<open>
  The process: the host and the controller objects made so far. \<open>np_files\<close> is the content of the
  sync state files, \<open>np_sha1_hex\<close> and \<open>np_state_dir\<close> the hash and the environment variable behind
  their names.
\<close>

record ('b, 'x) process =
  pr_host :: "('b, 'x) host"
  pr_controllers :: "('b, 'x) node_controller list"

record node_params =
  np_realtime :: RealtimeConfig
  np_sha1_hex :: "string \<Rightarrow> string"
  np_state_dir :: string
  np_files :: "string \<Rightarrow> (int \<times> UserInfo list) option"

definition userSyncStateDir :: "node_params \<Rightarrow> string" where
  "userSyncStateDir ps = (if np_state_dir ps \<noteq> [] then np_state_dir ps else ''/etc/v2node'')"

definition userSyncStatePath :: "node_params \<Rightarrow> string \<Rightarrow> string \<Rightarrow> int \<Rightarrow> string" where
  "userSyncStatePath ps configDir apiHost nodeID =
     (let dir = NormalizeConfigDir configDir;
          baseDir = (if dir = ''/etc/v2node'' then userSyncStateDir ps else dir)
      in path_Join [baseDir, ''user_sync_'' @ np_sha1_hex ps apiHost @ ''_'' @ Itoa nodeID @ ''.json''])"

text \<open>Server, limiter and lists are set by the start; until then the fields hold placeholders.\<close>

definition NewControllerWithControlPlane ::
  "node_params \<Rightarrow> 'x V2Core \<Rightarrow> NodeConfig \<Rightarrow> NodeInfo \<Rightarrow> ('b, 'x) node_controller" where
  "NewControllerWithControlPlane ps x cfg info =
     (let path = userSyncStatePath ps (nc_ConfigDir cfg) (nc_APIHost cfg) (nc_NodeID cfg)
      in \<lparr>k_ctl = \<lparr>c_server = x, c_tag = [], c_limiter = empty_limiter [] [], c_userList = [], c_userRevision = 0,
                     c_userDeltaSupported = True, c_userSyncStatePath = path, c_stateFile = np_files ps path,
                     c_aliveMap = None, c_aliveSnapshot = None, c_info = Some info\<rparr>,
          k_conf = cfg, k_realtimeConfig = np_realtime ps, k_nodeConfigMonitor = None, k_nodeUserMonitor = None,
          k_userReport = None, k_renewCert = None, k_realtimeClient = None\<rparr>)"

definition put_controller :: "nat \<Rightarrow> ('b, 'x) host \<Rightarrow> ('b, 'x) node_controller \<Rightarrow> ('b, 'x) process \<Rightarrow> ('b, 'x) process" where
  "put_controller i h k p = p\<lparr>pr_host := h, pr_controllers := (pr_controllers p)[i := k]\<rparr>"

definition start_controller ::
  "('x, 't, 'u, 'h) life_env \<Rightarrow> nat \<Rightarrow> ('b, 'x) process \<Rightarrow> start_error option \<times> ('b, 'x) process" where
  "start_controller env i p =
     (case Controller_Start env (pr_host p) (pr_controllers p ! i) of (e, h, k) \<Rightarrow> (e, put_controller i h k p))"

definition close_controller ::
  "('x, 't, 'u, 'h) life_env \<Rightarrow> nat \<Rightarrow> ('b, 'x) process \<Rightarrow> start_error option \<times> ('b, 'x) process" where
  "close_controller env i p =
     (case Controller_Close (sy_xray (le_sync env)) (pr_host p) (pr_controllers p ! i) of
        (e, h, k) \<Rightarrow> (map_option CloseOldError e, put_controller i h k p))"

definition replace_controller ::
  "('x, 't, 'u, 'h) life_env \<Rightarrow> nat \<Rightarrow> nat \<Rightarrow> ('b, 'x) process \<Rightarrow> (bool \<times> start_error option) \<times> ('b, 'x) process" where
  "replace_controller env old new p =
     (case StartReplacing env (pr_host p) (pr_controllers p ! new) (Some (pr_controllers p ! old)) of
        (res, h, k, old') \<Rightarrow>
          (res, put_controller old h (case old' of None \<Rightarrow> pr_controllers p ! old | Some k_old \<Rightarrow> k_old) (put_controller new h k p)))"

definition real_ops ::
  "('x, 't, 'u, 'h) life_env \<Rightarrow> node_params \<Rightarrow> (('b, 'x) process, start_error) machine_ops" where
  "real_ops env ps =
     \<lparr>mo_new = (\<lambda>cfg info p. (length (pr_controllers p),
         p\<lparr>pr_controllers := pr_controllers p @ [NewControllerWithControlPlane ps (ho_core (pr_host p)) cfg info]\<rparr>)),
      mo_start = start_controller env, mo_close = close_controller env, mo_replace = replace_controller env\<rparr>"

text \<open>The controllers with a running task.\<close>

definition live_controllers :: "('b, 'x) process \<Rightarrow> nat set" where
  "live_controllers p = {i. i < length (pr_controllers p) \<and> active (pr_controllers p ! i)}"

lemma live_put:
  "i < length (pr_controllers p) \<Longrightarrow>
   live_controllers (put_controller i h k p) = (if active k then insert i (live_controllers p) else live_controllers p - {i})"
  by (auto simp: live_controllers_def put_controller_def nth_list_update)

lemma length_put [simp]: "length (pr_controllers (put_controller i h k p)) = length (pr_controllers p)"
  by (simp add: put_controller_def)

lemma start_active: "Controller_Start env h k = (None, h', k') \<Longrightarrow> active k'"
  by (auto simp: Controller_Start_def dest: activate_ok_active split: prod.splits sum.splits)

lemma new_inactive [simp]: "\<not> active (NewControllerWithControlPlane ps x cfg info)"
  by (simp add: active_def NewControllerWithControlPlane_def Let_def)

lemma StartReplacing_old: "StartReplacing env h k (Some old) = (res, h', k', old') \<Longrightarrow> \<exists>o1. old' = Some o1"
  by (auto simp: StartReplacing_def Let_def split: prod.splits sum.splits option.splits)

interpretation real: controller_ops "real_ops env ps :: (('b, 'x) process, start_error) machine_ops" live_controllers
  "\<lambda>p. {..<length (pr_controllers p)}" for env :: "('x, 't, 'u, 'h) life_env" and ps
proof unfold_locales
  fix w
  show "live_controllers w \<subseteq> {..<length (pr_controllers w)}" by (auto simp: live_controllers_def)
next
  fix cfg info i and w w' :: "('b, 'x) process"
  assume "mo_new (real_ops env ps) cfg info w = (i, w')"
  then show "i \<notin> {..<length (pr_controllers w)} \<and>
      {..<length (pr_controllers w')} = insert i {..<length (pr_controllers w)} \<and> live_controllers w' = live_controllers w"
    by (auto simp: real_ops_def live_controllers_def nth_append less_Suc_eq)
next
  fix i e w w'
  assume i: "i \<in> {..<length (pr_controllers w)}" and s: "mo_start (real_ops env ps) i w = (e, w')"
  obtain e1 h k where c: "Controller_Start env (pr_host w) (pr_controllers w ! i) = (e1, h, k)" by (metis prod_cases3)
  have w': "e = e1" "w' = put_controller i h k w" using s c by (simp_all add: real_ops_def start_controller_def)
  show "{..<length (pr_controllers w')} = {..<length (pr_controllers w)} \<and>
      live_controllers w' - {i} = live_controllers w - {i} \<and> (e = None \<longrightarrow> i \<in> live_controllers w')"
    using i w' c start_active [of env "pr_host w" "pr_controllers w ! i" h k] by (auto simp: live_put)
next
  fix i e w w'
  assume i: "i \<in> {..<length (pr_controllers w)}" and s: "mo_close (real_ops env ps) i w = (e, w')"
  obtain e1 h k where c: "Controller_Close (sy_xray (le_sync env)) (pr_host w) (pr_controllers w ! i) = (e1, h, k)" by (metis prod_cases3)
  have w': "w' = put_controller i h k w" using s c by (simp add: real_ops_def close_controller_def)
  show "{..<length (pr_controllers w')} = {..<length (pr_controllers w)} \<and> live_controllers w' = live_controllers w - {i}"
    using i w' Close_stops [OF c] by (simp add: live_put)
next
  fix old new keep e w w'
  assume o: "old \<in> {..<length (pr_controllers w)}" and n: "new \<in> {..<length (pr_controllers w)}" and nl: "new \<notin> live_controllers w"
    and ne: "old \<noteq> new" and r: "mo_replace (real_ops env ps) old new w = ((keep, e), w')"
  obtain res h k old' where c: "StartReplacing env (pr_host w) (pr_controllers w ! new) (Some (pr_controllers w ! old)) = (res, h, k, old')"
    by (metis prod_cases4)
  obtain o1 where o1: "old' = Some o1" using StartReplacing_old [OF c] by blast
  have w': "res = (keep, e)" "w' = put_controller old h o1 (put_controller new h k w)"
    using r c o1 by (simp_all add: real_ops_def replace_controller_def)
  have "\<not> active (pr_controllers w ! new)" using n nl by (simp add: live_controllers_def)
  note cases = replace_cases [OF c [unfolded w'(1) o1] this]
  have old: "active (pr_controllers w ! old) \<longleftrightarrow> old \<in> live_controllers w" using o by (simp add: live_controllers_def)
  show "{..<length (pr_controllers w')} = {..<length (pr_controllers w)} \<and> (keep \<longrightarrow> e \<noteq> None) \<and>
      live_controllers w' = (if keep then live_controllers w
        else if e = None then insert new (live_controllers w - {old}) else live_controllers w - {old})"
    using o n nl ne cases old w'(2) by (auto simp: live_put split: if_splits)
qed

section \<open>Two machines\<close>

definition demo_config :: "string \<Rightarrow> NodeConfig" where
  "demo_config h = \<lparr>nc_APIHost = h, nc_NodeID = 1, nc_Key = ''k'', nc_MachineID = 0, nc_Timeout = 0, nc_ConfigDir = []\<rparr>"

definition demo_params :: node_params where
  "demo_params =
     \<lparr>np_realtime = \<lparr>rc_Enabled = False, rc_URL = [], rc_PingInterval = 0, rc_ReconnectInterval = 0\<rparr>,
      np_sha1_hex = (\<lambda>s. s), np_state_dir = [], np_files = (\<lambda>_. None)\<rparr>"

definition demo_process :: "(int, nat) process" where
  "demo_process = \<lparr>pr_host = demo_host, pr_controllers = []\<rparr>"

definition demo_source :: info_source where
  "demo_source cfg = Inr (Inr (Some demo_node))"

text \<open>The same host with an inbound that refuses new users.\<close>

definition refusing_life :: "(nat, string, protocol_user, nat) life_env" where
  "refusing_life = demo_life\<lparr>le_sync := demo_env refusing_xray (DeltaBody (Some (demo_delta\<lparr>ud_Deleted := []\<rparr>)))\<rparr>"

definition demo_reconciled ::
  "(start_error machine_error + start_error ReconcileResult) \<times> start_error Node \<times> (int, nat) process" where
  "demo_reconciled = reconcileWithFactory (real_ops demo_life demo_params) demo_source True [demo_config ''h''] (empty_node True) demo_process"

lemma demo_start_ok: "node_ok (empty_node c :: start_error Node) (live_controllers demo_process)"
  by (simp add: node_ok_def empty_node_def live_controllers_def demo_process_def)

text \<open>One node is added; then it can be closed, and a second one that cannot start gives up the reconcile.\<close>

definition demo_outcome :: bool where
  "demo_outcome =
     (case demo_reconciled of
        (Inl e, n, p) \<Rightarrow> False
      | (Inr r, n, p) \<Rightarrow>
          rr_Added r = 1 \<and> \<not> rr_FullReloadRequired r \<and> nd_controllers n = [0] \<and> nd_configs n = [demo_config ''h''] \<and>
          length (nd_NodeInfos n) = 1 \<and> length (pr_controllers p) = 1 \<and> running (k_nodeConfigMonitor (pr_controllers p ! 0)) \<and>
          fst (Node_Close (real_ops demo_life demo_params) n p) = None \<and>
          (case fst (reconcileWithFactory (real_ops refusing_life demo_params) demo_source False [demo_config ''g''] n p) of
             Inl (ControllerError e) \<Rightarrow> True | _ \<Rightarrow> False))"

lemma demo_outcome: demo_outcome
  by code_simp

lemma demo_machine:
  obtains r n p where "demo_reconciled = (Inr r, n, p)" "rr_Added r = 1" "\<not> rr_FullReloadRequired r" "nd_controllers n = [0]"
    "nd_configs n = [demo_config ''h'']" "length (nd_NodeInfos n) = 1" "live_controllers p = {0}"
    "fst (Node_Close (real_ops demo_life demo_params) n p) = None"
    "case fst (reconcileWithFactory (real_ops refusing_life demo_params) demo_source False [demo_config ''g''] n p) of
       Inl (ControllerError e) \<Rightarrow> True | _ \<Rightarrow> False"
proof -
  obtain x n p where x: "demo_reconciled = (x, n, p)" by (metis prod_cases3)
  obtain r where r: "x = Inr r" using demo_outcome unfolding demo_outcome_def x by (cases x) simp_all
  note o = demo_outcome [unfolded demo_outcome_def x r prod.case sum.case]
  have "live_controllers p = {0}" using o by (auto simp: live_controllers_def active_def)
  with o x r show thesis using that by blast
qed

section \<open>Properties\<close>

text \<open>
  C16. Reconciling keeps the books true: when the listed controllers are the running ones, so they
  are after a reconcile that needs no full reload, every wanted node is listed under its key or has
  a failure on record, and the failures are the ones reported.
\<close>

theorem reconcile_lists_running:
  assumes "node_ok n (live_controllers p)"
    and "reconcileWithFactory (real_ops env ps) src continueOnError desired n p = (Inr result, n', p')"
    and "\<not> rr_FullReloadRequired result"
  shows "node_ok n' (live_controllers p') \<and> nd_failures n' = rr_Failures result \<and>
         (\<forall>cfg \<in> set desired. machineNodeKey cfg \<noteq> [] \<longrightarrow>
            machineNodeKey cfg \<in> machineNodeKey ` set (nd_configs n') \<or> failed result (machineNodeKey cfg))"
  using real.reconcile_ok [OF assms] by blast

theorem reconcile_lists_running_witness:
  "\<exists>result n' p'. demo_reconciled = (Inr result, n', p') \<and> rr_Added result = 1 \<and> nd_configs n' = [demo_config ''h''] \<and>
      live_controllers p' = {0}"
proof (rule demo_machine)
  fix r n p
  assume r: "demo_reconciled = (Inr r, n, p)" "rr_Added r = 1" "\<not> rr_FullReloadRequired r" and n: "nd_controllers n = [0]"
    "nd_configs n = [demo_config ''h'']"
  have "node_ok n (live_controllers p)"
    using reconcile_lists_running [OF demo_start_ok r(1) [unfolded demo_reconciled_def] r(3)] by blast
  then have "live_controllers p = {0}" using n by (simp add: node_ok_def)
  then show ?thesis using r n by blast
qed

text \<open>
  A reconcile given up on an error loses track: without \<open>ContinueOnError\<close>, when a node cannot
  be started after the nodes no longer wanted were stopped, the node manager is left unchanged and
  lists controllers that do not run any more.
\<close>

theorem aborted_reconcile_lists_stopped:
  assumes "node_ok n (live_controllers p)"
    and "reconcileWithFactory (real_ops env ps) src continueOnError desired n p = (Inl (ControllerError err), n', p')"
    and "j < length (nd_controllers n)" and "machineNodeKey (nd_configs n ! j) \<notin> machineNodeKey ` set desired"
  shows "nd_controllers n' ! j \<notin> live_controllers p' \<and> nd_controllers n' = nd_controllers n \<and> nd_configs n' = nd_configs n"
  using real.aborted_stale [OF assms] by blast

theorem aborted_reconcile_lists_stopped_witness:
  "\<exists>err n' p'. reconcileWithFactory (real_ops refusing_life demo_params) demo_source False [demo_config ''g'']
       (fst (snd demo_reconciled)) (snd (snd demo_reconciled)) = (Inl (ControllerError err), n', p') \<and>
     nd_configs n' = [demo_config ''h''] \<and> nd_controllers n' ! 0 \<notin> live_controllers p'"
proof (rule demo_machine)
  fix r n p
  assume d: "demo_reconciled = (Inr r, n, p)" and n: "nd_controllers n = [0]" "nd_configs n = [demo_config ''h'']"
    "length (nd_NodeInfos n) = 1" and l: "live_controllers p = {0}"
    and e: "case fst (reconcileWithFactory (real_ops refusing_life demo_params) demo_source False [demo_config ''g''] n p) of
       Inl (ControllerError e) \<Rightarrow> True | _ \<Rightarrow> False"
  obtain err n' p' where r: "reconcileWithFactory (real_ops refusing_life demo_params) demo_source False [demo_config ''g''] n p =
      (Inl (ControllerError err), n', p')"
    using e by (cases "reconcileWithFactory (real_ops refusing_life demo_params) demo_source False [demo_config ''g''] n p")
      (auto split: sum.splits machine_error.splits)
  have ok: "node_ok n (live_controllers p)" using n l by (simp add: node_ok_def)
  have k: "machineNodeKey (nd_configs n ! 0) \<notin> machineNodeKey ` set [demo_config ''g'']"
    unfolding n by code_simp
  have "0 < length (nd_controllers n)" using n by simp
  from aborted_reconcile_lists_stopped [OF ok r this k] have "nd_controllers n' ! 0 \<notin> live_controllers p'" "nd_configs n' = nd_configs n"
    by blast+
  then show ?thesis unfolding d fst_conv snd_conv using r n(2) by auto
qed

text \<open>
  Closing the node manager keeps its configurations: a later reconcile on it, as a reload makes
  after a failed full reload, is refused with a count mismatch whatever is wanted.
\<close>

theorem closed_node_refuses_reconcile:
  assumes "Node_Close ops n w = (None, n', w')" and "nd_configs n \<noteq> []"
  shows "reconcileWithFactory ops src continueOnError desired n' w2 = (Inl (CountMismatch (length (nd_configs n)) 0 0), n', w2)"
proof -
  have "nd_controllers n' = []" "nd_NodeInfos n' = []" "nd_configs n' = nd_configs n"
    using assms(1) by (auto simp: Node_Close_def reconcileAutoHY2PortForward_def split: prod.splits option.splits if_splits)
  then show ?thesis using assms(2) by (simp add: reconcileWithFactory_def currentMachineSlots_def activeConfigs_def)
qed

theorem closed_node_refuses_reconcile_witness:
  "\<exists>n' w'. Node_Close (real_ops demo_life demo_params) (fst (snd demo_reconciled)) (snd (snd demo_reconciled)) = (None, n', w') \<and>
      reconcileWithFactory (real_ops demo_life demo_params) demo_source True [demo_config ''h''] n' w' = (Inl (CountMismatch 1 0 0), n', w')"
proof (rule demo_machine)
  fix r n p
  assume d: "demo_reconciled = (Inr r, n, p)" and n: "nd_configs n = [demo_config ''h'']"
    and e: "fst (Node_Close (real_ops demo_life demo_params) n p) = None"
  obtain n' w' where c: "Node_Close (real_ops demo_life demo_params) n p = (None, n', w')"
    using e by (cases "Node_Close (real_ops demo_life demo_params) n p") auto
  from closed_node_refuses_reconcile [OF c, of demo_source True "[demo_config ''h'']" w'] n c
  show ?thesis unfolding d fst_conv snd_conv by auto
qed

end
