(* ===== verification/Machine_Profiles.thy ===== *)
theory Machine_Profiles
  imports Local_Config Node_Machine
begin

text \<open>
  The nodes a machine profile contributes (\<open>node/machine_profiles.go\<close>): the answer of the panel for
  each profile is turned into node configurations, duplicates are refused, and the settings of the
  subscription proxy are merged. The HTTP exchange is an argument, as is whether a URL has a scheme
  and a host.
\<close>

section \<open>Data\<close>

record MachinePanelNode =
  pn_ID :: int
  pn_Code :: string
  pn_Type :: string
  pn_Name :: string

text \<open>The base configuration and the agent configuration carry one optional section each.\<close>

record machineProfileResult =
  pr_Nodes :: "MachinePanelNode list"
  pr_Realtime :: "RealtimeBaseConfig option"
  pr_SubscriptionProxy :: "SubscriptionProxyConfig option"

record machineNodesResponse =
  nr_Top :: machineProfileResult
  nr_Data :: "machineProfileResult option"

datatype profile_error =
    ProfileIncomplete | ProfileTransport go_error | ProfileStatus int string | ProfileDecode string
  | DuplicateProfileNode string | NoMachineNodes "profile_error list"

text \<open>The answer to the request: an error, a status of 400 or more with a body, or a decoded body.\<close>

datatype http_answer = HttpError go_error | HttpStatus int string | HttpBadBody string | HttpBody machineNodesResponse

section \<open>Names and keys\<close>

definition machineProfileLabel :: "MachineProfileConfig \<Rightarrow> string" where
  "machineProfileLabel p =
     (if TrimSpace (mp_Name p) \<noteq> [] then TrimSpace (mp_Name p)
      else if mp_MachineID p > 0 then ''machine-'' @ Itoa (mp_MachineID p)
      else TrimRight (TrimSpace (mp_APIHost p)) ''/'')"

definition name_char :: "char \<Rightarrow> bool" where
  "name_char c \<longleftrightarrow>
     (let n = (of_char c :: nat) in 97 \<le> n \<and> n \<le> 122 \<or> 65 \<le> n \<and> n \<le> 90 \<or> 48 \<le> n \<and> n \<le> 57) \<or> c \<in> {CHR ''.'', CHR ''_'', CHR ''-''}"

text \<open>Replacing each run of other characters by a dash; the flag says whether a run is open.\<close>

fun replace_runs :: "bool \<Rightarrow> string \<Rightarrow> string" where
  "replace_runs in_run [] = []"
| "replace_runs in_run (c # cs) =
     (if name_char c then c # replace_runs False cs
      else if in_run then replace_runs True cs else CHR ''-'' # replace_runs True cs)"

definition sanitizeMachineProfileName :: "string \<Rightarrow> string" where
  "sanitizeMachineProfileName name =
     (let cleaned = Trim (replace_runs False (TrimSpace name)) ''-'' in if cleaned = [] then ''machine'' else cleaned)"

definition machineProfileNodeKey :: "string \<Rightarrow> int \<Rightarrow> int \<Rightarrow> string" where
  "machineProfileNodeKey apiHost machineID nodeID =
     (let host = TrimRight (TrimSpace apiHost) ''/''
      in if host = [] \<or> nodeID \<le> 0 then [] else host @ ''#'' @ Itoa machineID @ ''#'' @ Itoa nodeID)"

definition machineProfileNodeConfigDir :: "MachineProfileConfig \<Rightarrow> int \<Rightarrow> string" where
  "machineProfileNodeConfigDir p nodeID =
     (let base = (if TrimSpace (mp_ConfigDir p) = []
                  then path_Join [DefaultNodeConfigDir, sanitizeMachineProfileName (machineProfileLabel p)]
                  else TrimSpace (mp_ConfigDir p))
      in NormalizeConfigDir (path_Join [base, ''node-'' @ Itoa nodeID]))"

section \<open>One profile\<close>

text \<open>The request is sent only for a complete profile; the host and the trimmed token go into it.\<close>

definition fetchMachineProfileNodes ::
  "(string \<Rightarrow> int \<Rightarrow> string \<Rightarrow> http_answer) \<Rightarrow> MachineProfileConfig \<Rightarrow> profile_error + machineProfileResult" where
  "fetchMachineProfileNodes post p =
     (let apiHost = TrimRight (TrimSpace (mp_APIHost p)) ''/''; token = TrimSpace (mp_Key p)
      in if apiHost = [] \<or> token = [] \<or> mp_MachineID p \<le> 0 then Inl ProfileIncomplete
         else case post apiHost (mp_MachineID p) token of
                HttpError err \<Rightarrow> Inl (ProfileTransport err)
              | HttpStatus status body \<Rightarrow> Inl (ProfileStatus status (take 4096 body))
              | HttpBadBody err \<Rightarrow> Inl (ProfileDecode err)
              | HttpBody payload \<Rightarrow> Inr (case nr_Data payload of Some d \<Rightarrow> d | None \<Rightarrow> nr_Top payload))"

definition machineRealtimeIntervalSeconds :: "json_any \<Rightarrow> int" where
  "machineRealtimeIntervalSeconds v =
     (case v of
        JInt i \<Rightarrow> i
      | JFloat r \<Rightarrow> (if r < 0 then \<lceil>r\<rceil> else \<lfloor>r\<rfloor>)
      | JString s \<Rightarrow> Atoi_ignoring (TrimSpace s)
      | JNull \<Rightarrow> 0
      | JBool b \<Rightarrow> 0
      | JArray xs \<Rightarrow> 0)"

definition machineRealtimeConfigFromProfileResult :: "machineProfileResult \<Rightarrow> RealtimeConfig" where
  "machineRealtimeConfigFromProfileResult result =
     (case pr_Realtime result of
        None \<Rightarrow> zero_RealtimeConfig
      | Some rt \<Rightarrow> \<lparr>rc_Enabled = rb_Enabled rt, rc_URL = TrimSpace (rb_URL rt),
                     rc_PingInterval = machineRealtimeIntervalSeconds (rb_PingInterval rt), rc_ReconnectInterval = 0\<rparr>)"

section \<open>The subscription proxy\<close>

definition EqualFold :: "string \<Rightarrow> string \<Rightarrow> bool" where
  "EqualFold a b \<longleftrightarrow> ToLower a = ToLower b"

definition fill :: "string \<Rightarrow> string \<Rightarrow> string" where
  "fill dst src = (if dst = [] then TrimSpace src else dst)"

definition merged_profile :: "MachineProfileConfig \<Rightarrow> SubscriptionProxyConfig \<Rightarrow> SubscriptionProxyProfile" where
  "merged_profile p src =
     (let site = TrimSpace (sp_SiteID src); up = TrimRight (TrimSpace (sp_UpstreamBaseURL src)) ''/'';
          path = Trim (TrimSpace (sp_SubscribePath src)) ''/''
      in \<lparr>pp_SiteID = (if site = [] then sanitizeMachineProfileName (machineProfileLabel p) else site),
          pp_UpstreamBaseURL = (if up = [] then TrimRight (TrimSpace (mp_APIHost p)) ''/'' else up),
          pp_SubscribePath = (if path = [] then ''s'' else path)\<rparr>)"

definition merge_settings :: "SubscriptionProxyConfig \<Rightarrow> SubscriptionProxyConfig \<Rightarrow> SubscriptionProxyConfig" where
  "merge_settings src dst =
     (if \<not> sp_Enabled dst then
        dst\<lparr>sp_Enabled := True, sp_HTTPSListen := TrimSpace (sp_HTTPSListen src), sp_HTTPListen := TrimSpace (sp_HTTPListen src),
            sp_CertFile := TrimSpace (sp_CertFile src), sp_KeyFile := TrimSpace (sp_KeyFile src),
            sp_CertificateDomain := TrimSpace (sp_CertificateDomain src), sp_ChallengeDir := TrimSpace (sp_ChallengeDir src),
            sp_ZeroSSL := sp_ZeroSSL src, sp_AllowHTTPFallback := sp_AllowHTTPFallback src,
            sp_MaxResponseBytes := sp_MaxResponseBytes src\<rparr>
      else
        dst\<lparr>sp_HTTPSListen := fill (sp_HTTPSListen dst) (sp_HTTPSListen src), sp_HTTPListen := fill (sp_HTTPListen dst) (sp_HTTPListen src),
            sp_CertFile := fill (sp_CertFile dst) (sp_CertFile src), sp_KeyFile := fill (sp_KeyFile dst) (sp_KeyFile src),
            sp_CertificateDomain := fill (sp_CertificateDomain dst) (sp_CertificateDomain src),
            sp_ChallengeDir := fill (sp_ChallengeDir dst) (sp_ChallengeDir src),
            sp_ZeroSSL := (if zs_CertificateID (sp_ZeroSSL dst) = [] then sp_ZeroSSL src else sp_ZeroSSL dst),
            sp_MaxResponseBytes := (if sp_MaxResponseBytes dst \<le> 0 then sp_MaxResponseBytes src else sp_MaxResponseBytes dst)\<rparr>)"

definition mergeMachineProfileAgentConfig ::
  "MachineProfileConfig \<Rightarrow> SubscriptionProxyConfig option \<Rightarrow> Conf \<Rightarrow> Conf" where
  "mergeMachineProfileAgentConfig p agent cfg =
     (case agent of
        None \<Rightarrow> cfg
      | Some src \<Rightarrow>
          let prof = merged_profile p src; dst = merge_settings src (cf_SubscriptionProxy cfg)
          in if \<not> sp_Enabled src \<or> pp_SiteID prof = [] \<or> pp_UpstreamBaseURL prof = [] then cfg
             else cfg\<lparr>cf_SubscriptionProxy :=
                        (if list_ex (\<lambda>e. EqualFold (pp_SiteID e) (pp_SiteID prof)) (sp_Profiles dst) then dst
                         else dst\<lparr>sp_Profiles := sp_Profiles dst @ [prof]\<rparr>)\<rparr>)"

definition validSubscriptionProxyProfile :: "(string \<Rightarrow> bool) \<Rightarrow> string \<Rightarrow> string \<Rightarrow> bool" where
  "validSubscriptionProxyProfile url_has_scheme_and_host siteID upstreamBaseURL \<longleftrightarrow>
     TrimSpace siteID \<noteq> [] \<and> url_has_scheme_and_host (TrimRight (TrimSpace upstreamBaseURL) ''/'')"

definition canRunSubscriptionProxyOnly :: "(string \<Rightarrow> bool) \<Rightarrow> Conf \<Rightarrow> bool" where
  "canRunSubscriptionProxyOnly url_ok cfg \<longleftrightarrow>
     (let proxy = cf_SubscriptionProxy cfg
      in sp_Enabled proxy \<and>
         (validSubscriptionProxyProfile url_ok (sp_SiteID proxy) (sp_UpstreamBaseURL proxy) \<or>
          list_ex (\<lambda>p. validSubscriptionProxyProfile url_ok (pp_SiteID p) (pp_UpstreamBaseURL p)) (sp_Profiles proxy)))"

section \<open>All profiles\<close>

text \<open>The nodes so far, their keys, and the failures.\<close>

type_synonym resolve_state = "NodeConfig list \<times> string list \<times> profile_error list"

fun add_nodes ::
  "bool \<Rightarrow> MachineProfileConfig \<Rightarrow> MachinePanelNode list \<Rightarrow> resolve_state \<Rightarrow> profile_error + resolve_state" where
  "add_nodes continueOnError p [] st = Inr st"
| "add_nodes continueOnError p (pn # pns) (nodes, seen, failures) =
     (if pn_ID pn \<le> 0 then add_nodes continueOnError p pns (nodes, seen, failures)
      else
        let key = machineProfileNodeKey (mp_APIHost p) (mp_MachineID p) (pn_ID pn)
        in if key \<in> set seen then
             (if continueOnError then add_nodes continueOnError p pns (nodes, seen, failures @ [DuplicateProfileNode key])
              else Inl (DuplicateProfileNode key))
           else add_nodes continueOnError p pns
                  (nodes @ [\<lparr>nc_APIHost = mp_APIHost p, nc_NodeID = pn_ID pn, nc_Key = mp_Key p, nc_MachineID = mp_MachineID p,
                             nc_Timeout = mp_Timeout p, nc_ConfigDir = machineProfileNodeConfigDir p (pn_ID pn)\<rparr>],
                   key # seen, failures))"

text \<open>The profiles in order: each that answers updates its realtime settings and the proxy.\<close>

fun resolve_loop ::
  "(string \<Rightarrow> int \<Rightarrow> string \<Rightarrow> http_answer) \<Rightarrow> bool \<Rightarrow> MachineProfileConfig list \<Rightarrow> MachineProfileConfig list \<Rightarrow>
   Conf \<Rightarrow> resolve_state \<Rightarrow> nat \<Rightarrow> profile_error + MachineProfileConfig list \<times> Conf \<times> resolve_state \<times> nat" where
  "resolve_loop post continueOnError [] done_ps cfg st successes = Inr (done_ps, cfg, st, successes)"
| "resolve_loop post continueOnError (p # ps) done_ps cfg (nodes, seen, failures) successes =
     (case fetchMachineProfileNodes post p of
        Inl err \<Rightarrow>
          (if continueOnError then resolve_loop post continueOnError ps (done_ps @ [p]) cfg (nodes, seen, failures @ [err]) successes
           else Inl err)
      | Inr result \<Rightarrow>
          (case add_nodes continueOnError p (pr_Nodes result) (nodes, seen, failures) of
             Inl err \<Rightarrow> Inl err
           | Inr st \<Rightarrow>
               resolve_loop post continueOnError ps
                 (done_ps @ [p\<lparr>mp_Realtime := machineRealtimeConfigFromProfileResult result\<rparr>])
                 (mergeMachineProfileAgentConfig p (pr_SubscriptionProxy result) cfg) st (Suc successes)))"

definition existing_keys :: "NodeConfig list \<Rightarrow> string list" where
  "existing_keys nodes =
     filter (\<lambda>k. k \<noteq> []) (map (\<lambda>n. machineProfileNodeKey (nc_APIHost n) (nc_MachineID n) (nc_NodeID n)) nodes)"

definition ResolveMachineNodeConfigs ::
  "(string \<Rightarrow> int \<Rightarrow> string \<Rightarrow> http_answer) \<Rightarrow> (string \<Rightarrow> bool) \<Rightarrow> Conf \<Rightarrow> profile_error + Conf" where
  "ResolveMachineNodeConfigs post url_ok cfg =
     (let mc = cf_MachineConfig cfg
      in if \<not> mc_Enabled mc \<or> mc_Profiles mc = [] then Inr cfg
         else case resolve_loop post (mc_ContinueOnError mc) (mc_Profiles mc) [] cfg
                     (cf_NodeConfigs cfg, existing_keys (cf_NodeConfigs cfg), []) 0 of
                Inl err \<Rightarrow> Inl err
              | Inr (ps, cfg1, (nodes, seen, failures), successes) \<Rightarrow>
                  let cfg2 = cfg1\<lparr>cf_MachineConfig := (cf_MachineConfig cfg1)\<lparr>mc_Profiles := ps\<rparr>\<rparr>
                  in if nodes = [] \<and> \<not> (successes > 0 \<and> canRunSubscriptionProxyOnly url_ok cfg2) then Inl (NoMachineNodes failures)
                     else Inr (cfg2\<lparr>cf_NodeConfigs := nodes\<rparr>))"

section \<open>Lemmas\<close>

definition node_key :: "NodeConfig \<Rightarrow> string" where
  "node_key n = machineProfileNodeKey (nc_APIHost n) (nc_MachineID n) (nc_NodeID n)"

text \<open>What a node made from a profile looks like.\<close>

definition from_profile :: "MachineProfileConfig list \<Rightarrow> NodeConfig \<Rightarrow> bool" where
  "from_profile ps n \<longleftrightarrow>
     nc_NodeID n > 0 \<and> path_Clean (nc_ConfigDir n) = nc_ConfigDir n \<and>
     (\<exists>p \<in> set ps. nc_APIHost n = mp_APIHost p \<and> nc_Key n = mp_Key p \<and> nc_MachineID n = mp_MachineID p \<and>
        TrimRight (TrimSpace (mp_APIHost p)) ''/'' \<noteq> [])"

text \<open>The nodes are the old ones followed by new ones, no key twice, and the seen keys are theirs.\<close>

definition resolved :: "MachineProfileConfig list \<Rightarrow> NodeConfig list \<Rightarrow> resolve_state \<Rightarrow> bool" where
  "resolved ps old st \<longleftrightarrow>
     (case st of (nodes, seen, failures) \<Rightarrow>
        (\<exists>new. nodes = old @ new \<and> list_all (from_profile ps) new) \<and>
        distinct (existing_keys nodes) \<and> set (existing_keys nodes) \<subseteq> set seen)"

lemma existing_keys_snoc: "existing_keys (ns @ [n]) = existing_keys ns @ (if node_key n = [] then [] else [node_key n])"
  by (simp add: existing_keys_def node_key_def)

lemma add_nodes_resolved:
  assumes p: "p \<in> set ps" "TrimRight (TrimSpace (mp_APIHost p)) ''/'' \<noteq> []"
  shows "resolved ps old st \<Longrightarrow> add_nodes c p pns st = Inr st' \<Longrightarrow> resolved ps old st'"
proof (induction pns arbitrary: st)
  case Nil
  then show ?case by simp
next
  case (Cons pn pns)
  obtain nodes seen failures where st: "st = (nodes, seen, failures)" by (metis prod_cases3)
  let ?key = "machineProfileNodeKey (mp_APIHost p) (mp_MachineID p) (pn_ID pn)"
  have frame: "resolved ps old (nodes, seen, fs)" for fs using Cons.prems(1) by (simp add: st resolved_def)
  consider "pn_ID pn \<le> 0" | "pn_ID pn > 0" "?key \<in> set seen" | "pn_ID pn > 0" "?key \<notin> set seen" by linarith
  then show ?case
  proof cases
    case 1
    then show ?thesis using Cons by (simp add: st)
  next
    case 2
    then show ?thesis using Cons.prems(2) Cons.IH [OF frame] by (auto simp: st Let_def split: if_splits)
  next
    case 3
    let ?n = "\<lparr>nc_APIHost = mp_APIHost p, nc_NodeID = pn_ID pn, nc_Key = mp_Key p, nc_MachineID = mp_MachineID p,
               nc_Timeout = mp_Timeout p, nc_ConfigDir = machineProfileNodeConfigDir p (pn_ID pn)\<rparr>"
    have "node_key ?n = ?key" "from_profile ps ?n"
      using 3(1) p by (auto simp: node_key_def from_profile_def machineProfileNodeConfigDir_def Let_def)
    then have "resolved ps old (nodes @ [?n], ?key # seen, failures)"
      using Cons.prems(1) 3(2) by (auto simp: st resolved_def existing_keys_snoc)
    from Cons.IH [OF this] show ?thesis using Cons.prems(2) 3 by (simp add: st Let_def)
  qed
qed

lemma fetch_complete:
  "fetchMachineProfileNodes post p = Inr r \<Longrightarrow> TrimRight (TrimSpace (mp_APIHost p)) ''/'' \<noteq> []"
  by (auto simp: fetchMachineProfileNodes_def Let_def split: if_splits)

lemma resolve_loop_resolved:
  "set qs \<subseteq> set ps \<Longrightarrow> resolved ps old st \<Longrightarrow> resolve_loop post c qs done_ps cfg st n = Inr (ps', cfg', st', n') \<Longrightarrow> resolved ps old st'"
proof (induction qs arbitrary: done_ps cfg st n)
  case Nil
  then show ?case by simp
next
  case (Cons p qs)
  obtain nodes seen failures where st: "st = (nodes, seen, failures)" by (metis prod_cases3)
  have frame: "resolved ps old (nodes, seen, fs)" for fs using Cons.prems(2) by (simp add: st resolved_def)
  show ?case
  proof (cases "fetchMachineProfileNodes post p")
    case (Inl err)
    then show ?thesis using Cons.prems Cons.IH [OF _ frame] by (auto simp: st split: if_splits)
  next
    case (Inr r)
    then obtain st1 where a: "add_nodes c p (pr_Nodes r) st = Inr st1"
      using Cons.prems(3) by (auto simp: st split: sum.splits)
    have "resolved ps old st1"
      using add_nodes_resolved [OF _ fetch_complete [OF Inr] Cons.prems(2) a] Cons.prems(1) by simp
    from Cons.IH [OF _ this] show ?thesis using Cons.prems(1,3) Inr a by (auto simp: st)
  qed
qed

section \<open>Two profiles of one panel\<close>

definition demo_profile :: "int \<Rightarrow> MachineProfileConfig" where
  "demo_profile m =
     \<lparr>mp_Name = [], mp_APIHost = ''http://p/'', mp_Key = ''t'', mp_MachineID = m, mp_Timeout = 0, mp_ConfigDir = [],
      mp_Realtime = zero_RealtimeConfig\<rparr>"

definition demo_machine_conf :: Conf where
  "demo_machine_conf =
     New_Conf\<lparr>cf_MachineConfig := \<lparr>mc_Enabled = True, mc_ContinueOnError = False, mc_Profiles = [demo_profile 1, demo_profile 2]\<rparr>\<rparr>"

definition demo_post :: "string \<Rightarrow> int \<Rightarrow> string \<Rightarrow> http_answer" where
  "demo_post host machine token =
     HttpBody \<lparr>nr_Top = \<lparr>pr_Nodes = [\<lparr>pn_ID = 5, pn_Code = [], pn_Type = [], pn_Name = []\<rparr>], pr_Realtime = None,
                          pr_SubscriptionProxy = None\<rparr>, nr_Data = None\<rparr>"

section \<open>Properties\<close>

text \<open>
  The nodes of the machine profiles are added without duplicates: when the resolution succeeds
  the configured nodes come first, unchanged, every further node has a positive id, the host, token
  and machine id of a profile and a clean directory, and no two nodes have the same host, machine
  and id.
\<close>

theorem ResolveMachineNodeConfigs_exact:
  assumes "ResolveMachineNodeConfigs post url_ok cfg = Inr cfg'" and "distinct (existing_keys (cf_NodeConfigs cfg))"
  shows "(\<exists>new. cf_NodeConfigs cfg' = cf_NodeConfigs cfg @ new \<and> list_all (from_profile (mc_Profiles (cf_MachineConfig cfg))) new) \<and>
         distinct (existing_keys (cf_NodeConfigs cfg'))"
proof (cases "\<not> mc_Enabled (cf_MachineConfig cfg) \<or> mc_Profiles (cf_MachineConfig cfg) = []")
  case True
  then have "cfg' = cfg" using assms(1) by (simp add: ResolveMachineNodeConfigs_def)
  then show ?thesis using assms(2) by simp
next
  case False
  let ?ps = "mc_Profiles (cf_MachineConfig cfg)" and ?st = "(cf_NodeConfigs cfg, existing_keys (cf_NodeConfigs cfg), [] :: profile_error list)"
  obtain ps' cfg1 nodes seen failures n where
    l: "resolve_loop post (mc_ContinueOnError (cf_MachineConfig cfg)) ?ps [] cfg ?st 0 = Inr (ps', cfg1, (nodes, seen, failures), n)"
    and n: "cf_NodeConfigs cfg' = nodes"
    using assms(1) False by (auto simp: ResolveMachineNodeConfigs_def Let_def split: sum.splits if_splits)
  have "resolved ?ps (cf_NodeConfigs cfg) ?st" using assms(2) by (simp add: resolved_def)
  from resolve_loop_resolved [OF _ this l] show ?thesis by (simp add: resolved_def n)
qed

theorem ResolveMachineNodeConfigs_exact_witness:
  "\<exists>cfg'. ResolveMachineNodeConfigs demo_post (\<lambda>_. True) demo_machine_conf = Inr cfg' \<and>
      map nc_MachineID (cf_NodeConfigs cfg') = [1, 2] \<and> distinct (existing_keys (cf_NodeConfigs cfg'))"
proof -
  have f: "case ResolveMachineNodeConfigs demo_post (\<lambda>_. True) demo_machine_conf of
      Inl e \<Rightarrow> False | Inr c \<Rightarrow> map nc_MachineID (cf_NodeConfigs c) = [1, 2]" by code_simp
  then obtain c where c: "ResolveMachineNodeConfigs demo_post (\<lambda>_. True) demo_machine_conf = Inr c"
    by (cases "ResolveMachineNodeConfigs demo_post (\<lambda>_. True) demo_machine_conf") auto
  have "distinct (existing_keys (cf_NodeConfigs demo_machine_conf))" by (simp add: demo_machine_conf_def New_Conf_def existing_keys_def)
  from ResolveMachineNodeConfigs_exact [OF c this] c f show ?thesis by auto
qed

text \<open>
  The resolution tells the same node of two machines apart, the reconcile does not: nodes that pass
  here can have the same key there.
\<close>

lemma profile_keys_finer:
  "\<exists>c a b. ResolveMachineNodeConfigs demo_post (\<lambda>_. True) demo_machine_conf = Inr c \<and> cf_NodeConfigs c = [a, b] \<and>
     node_key a \<noteq> node_key b \<and> machineNodeKey a = machineNodeKey b"
proof -
  have "case ResolveMachineNodeConfigs demo_post (\<lambda>_. True) demo_machine_conf of
      Inl e \<Rightarrow> False
    | Inr c \<Rightarrow> (case cf_NodeConfigs c of [a, b] \<Rightarrow> node_key a \<noteq> node_key b \<and> machineNodeKey a = machineNodeKey b | _ \<Rightarrow> False)"
    by code_simp
  then show ?thesis by (auto split: sum.splits list.splits)
qed

end
