(* ===== verification/Realtime.thy ===== *)
theory Realtime
  imports Machine_Profiles
begin

text \<open>
  The realtime connection to the panel (\<open>node/realtime.go\<close>, \<open>node/realtime_health.go\<close>,
  \<open>node/machine_realtime.go\<close>, \<open>cmd/machine_realtime.go\<close>): the messages, the bounded queues between the
  websocket and the workers, the workers that turn an invalidation into a configuration check or a
  user sync and acknowledge it with receipts, and the connections of the machine profiles. The
  websocket is the sequence of frames it delivers; the clock and the URL parser are arguments.
\<close>

section \<open>Messages\<close>

record RealtimeRuntimeSnapshot =
  rs_GoMemLimit :: string
  rs_GoMemLimitBytes :: int
  rs_GOGC :: int

record RealtimeHealthSnapshot =
  hs_Status :: string
  hs_Ready :: bool
  hs_Version :: string
  hs_ConfigPath :: string
  hs_StartedAt :: string
  hs_UptimeSeconds :: int
  hs_LastReloadAt :: string
  hs_NodeCount :: int
  hs_RealtimeEnabled :: bool
  hs_HealthPort :: int
  hs_Goroutines :: int
  hs_Runtime :: RealtimeRuntimeSnapshot
  hs_UpdatedAt :: string

record realtimeMessage =
  rm_Type :: string
  rm_Message :: string
  rm_EventID :: string
  rm_Topic :: string
  rm_Reason :: string
  rm_Status :: string
  rm_Revision :: int
  rm_ServerID :: int
  rm_Ts :: int
  rm_Token :: string
  rm_NodeID :: string
  rm_MachineID :: int
  rm_NodeType :: string
  rm_Health :: "RealtimeHealthSnapshot option"

definition zero_message :: realtimeMessage where
  "zero_message =
     \<lparr>rm_Type = [], rm_Message = [], rm_EventID = [], rm_Topic = [], rm_Reason = [], rm_Status = [], rm_Revision = 0,
      rm_ServerID = 0, rm_Ts = 0, rm_Token = [], rm_NodeID = [], rm_MachineID = 0, rm_NodeType = [], rm_Health = None\<rparr>"

text \<open>The published health: a snapshot is stamped with the time; before the first one there is none.\<close>

definition SetRealtimeHealthSnapshot :: "string \<Rightarrow> RealtimeHealthSnapshot \<Rightarrow> RealtimeHealthSnapshot" where
  "SetRealtimeHealthSnapshot now snapshot = snapshot\<lparr>hs_UpdatedAt := now\<rparr>"

definition GetRealtimeHealthSnapshot :: "RealtimeHealthSnapshot \<Rightarrow> RealtimeHealthSnapshot option" where
  "GetRealtimeHealthSnapshot state = (if hs_UpdatedAt state = [] then None else Some state)"

section \<open>The client\<close>

record RealtimeClient =
  cl_opts :: RealtimeOptions
  cl_sendCh :: "realtimeMessage list"
  cl_closed :: bool

definition NewRealtimeClient :: "RealtimeOptions \<Rightarrow> RealtimeClient" where
  "NewRealtimeClient opts = \<lparr>cl_opts = opts, cl_sendCh = [], cl_closed = False\<rparr>"

text \<open>A full queue of 64 messages drops the message.\<close>

definition Send :: "realtimeMessage \<Rightarrow> RealtimeClient \<Rightarrow> RealtimeClient" where
  "Send msg c = (if length (cl_sendCh c) < 64 then c\<lparr>cl_sendCh := cl_sendCh c @ [msg]\<rparr> else c)"

text \<open>
  The query of the dialled address: the parameters the address already has, with those of the node
  set, encoded in the order of the keys.
\<close>

definition query_Set :: "string \<Rightarrow> string \<Rightarrow> (string \<times> string) list \<Rightarrow> (string \<times> string) list" where
  "query_Set k v ps = filter (\<lambda>p. fst p \<noteq> k) ps @ [(k, v)]"

definition dial_query :: "RealtimeOptions \<Rightarrow> (string \<times> string) list \<Rightarrow> (string \<times> string) list" where
  "dial_query opts query =
     (let q = query_Set ''node_type'' (ro_NodeType opts)
                (query_Set ''node_id'' (Itoa (ro_NodeID opts)) (query_Set ''token'' (ro_Token opts) query))
      in sort_key fst (if ro_MachineID opts > 0 then query_Set ''machine_id'' (Itoa (ro_MachineID opts)) q else q))"

definition hello_message :: "int \<Rightarrow> RealtimeHealthSnapshot option \<Rightarrow> RealtimeOptions \<Rightarrow> realtimeMessage" where
  "hello_message now health opts =
     zero_message\<lparr>rm_Type := ''ping'', rm_Ts := now, rm_Token := ro_Token opts, rm_NodeID := Itoa (ro_NodeID opts),
                  rm_MachineID := ro_MachineID opts, rm_NodeType := ro_NodeType opts, rm_Health := health\<rparr>"

definition keepalive_message :: "int \<Rightarrow> RealtimeHealthSnapshot option \<Rightarrow> realtimeMessage" where
  "keepalive_message now health = zero_message\<lparr>rm_Type := ''ping'', rm_Ts := now, rm_Health := health\<rparr>"

text \<open>What the connection delivers: a read error, a frame that is no message, or a message.\<close>

datatype frame = ReadFails | NotJson | Frame realtimeMessage

text \<open>
  The read loop of \<open>connectAndServe\<close>: the messages it writes back and the invalidations it hands on,
  up to the first read error or the cancellation of the context (the end of the list).
\<close>

fun read_loop :: "int \<Rightarrow> frame list \<Rightarrow> realtimeMessage list \<times> realtimeMessage list" where
  "read_loop now [] = ([], [])"
| "read_loop now (ReadFails # fs) = ([], [])"
| "read_loop now (NotJson # fs) = read_loop now fs"
| "read_loop now (Frame msg # fs) =
     (case read_loop now fs of
        (writes, invalidations) \<Rightarrow>
          if rm_Type msg = ''ping'' then (zero_message\<lparr>rm_Type := ''pong'', rm_Ts := now\<rparr> # writes, invalidations)
          else if rm_Type msg = ''invalidate'' then (writes, msg # invalidations)
          else (writes, invalidations))"

text \<open>
  One connection: the address does not parse or the dial fails, the greeting cannot be written, or
  the frames are served. The result is what is written by this goroutine, what is handed on, and
  whether an error is returned (a served connection returns one exactly when a read failed).
\<close>

datatype dial_result = DialFails | HelloFails | Serves "frame list"

definition connectAndServe ::
  "int \<Rightarrow> RealtimeHealthSnapshot option \<Rightarrow> dial_result \<Rightarrow> RealtimeOptions \<Rightarrow> (realtimeMessage list \<times> realtimeMessage list) \<times> bool" where
  "connectAndServe now health dialled opts =
     (case dialled of
        DialFails \<Rightarrow> (([], []), True)
      | HelloFails \<Rightarrow> (([], []), True)
      | Serves fs \<Rightarrow> (case read_loop now fs of (writes, invalidations) \<Rightarrow>
                       ((hello_message now health opts # writes, invalidations), ReadFails \<in> set fs)))"

section \<open>Receipts\<close>

definition truncateRealtimeReceiptMessage :: "string \<Rightarrow> string" where
  "truncateRealtimeReceiptMessage message =
     (let trimmed = TrimSpace message in if length trimmed \<le> 240 then trimmed else take 237 trimmed @ ''...'')"

definition formatRealtimeUserSummary :: "userSyncSummary \<Rightarrow> string" where
  "formatRealtimeUserSummary s =
     ''deleted='' @ Itoa (int (sum_Deleted s)) @ '' added='' @ Itoa (int (sum_Added s)) @ '' updated='' @ Itoa (int (sum_Updated s))"

definition receipt :: "int \<Rightarrow> string \<Rightarrow> realtimeMessage \<Rightarrow> string \<Rightarrow> string \<Rightarrow> realtimeMessage" where
  "receipt now topic source status message =
     zero_message\<lparr>rm_Type := ''receipt'', rm_Topic := topic, rm_EventID := rm_EventID source, rm_Reason := rm_Reason source,
                  rm_Status := status, rm_Message := truncateRealtimeReceiptMessage message, rm_Ts := now\<rparr>"

definition sendRealtimeReceipt ::
  "int \<Rightarrow> string \<Rightarrow> realtimeMessage \<Rightarrow> string \<Rightarrow> string \<Rightarrow> RealtimeClient option \<Rightarrow> RealtimeClient option" where
  "sendRealtimeReceipt now topic source status message client = map_option (Send (receipt now topic source status message)) client"

section \<open>The workers of a controller\<close>

record realtime_state =
  rw_configCh :: "realtimeMessage list"
  rw_userCh :: "realtimeMessage list"
  rw_client :: "RealtimeClient option"
  rw_reloadCh :: "bool option"

definition enqueueRealtimeConfigCheck :: "realtimeMessage \<Rightarrow> realtime_state \<Rightarrow> realtime_state" where
  "enqueueRealtimeConfigCheck msg s =
     (if length (rw_configCh s) < 32 then s\<lparr>rw_configCh := rw_configCh s @ [msg]\<rparr> else s)"

definition enqueueRealtimeUserSync :: "realtimeMessage \<Rightarrow> realtime_state \<Rightarrow> realtime_state" where
  "enqueueRealtimeUserSync msg s =
     (if length (rw_userCh s) < 32 then s\<lparr>rw_userCh := rw_userCh s @ [msg]\<rparr> else s)"

text \<open>The callback of the client sorts the invalidations by topic.\<close>

definition on_message :: "realtimeMessage \<Rightarrow> realtime_state \<Rightarrow> realtime_state" where
  "on_message msg s =
     (if rm_Topic msg = ''config'' then enqueueRealtimeConfigCheck msg s
      else if rm_Topic msg = ''users'' then enqueueRealtimeUserSync msg s
      else s)"

definition shouldForceRealtimeConfigReload :: "realtimeMessage \<Rightarrow> bool" where
  "shouldForceRealtimeConfigReload msg \<longleftrightarrow>
     rm_Reason msg \<in> {''subscription_proxy.cert_state_changed'', ''admin.server_machine.bound''}"

definition enqueueRealtimeReload :: "realtime_state \<Rightarrow> bool \<times> realtime_state" where
  "enqueueRealtimeReload s = (case rw_reloadCh s of None \<Rightarrow> (False, s) | Some pending \<Rightarrow> (True, s\<lparr>rw_reloadCh := Some True\<rparr>))"

definition put_receipt :: "int \<Rightarrow> string \<Rightarrow> realtimeMessage \<Rightarrow> string \<Rightarrow> string \<Rightarrow> realtime_state \<Rightarrow> realtime_state" where
  "put_receipt now topic source status message s = s\<lparr>rw_client := sendRealtimeReceipt now topic source status message (rw_client s)\<rparr>"

text \<open>
  One round of \<open>runRealtimeConfigWorker\<close>: \<open>answer\<close> is what the panel says to the configuration check
  and \<open>err_text\<close> the text of an error. \<open>None\<close> when there is no message.
\<close>

definition config_round ::
  "int \<Rightarrow> (check_error \<Rightarrow> string) \<Rightarrow> go_error + NodeInfo option \<Rightarrow> realtime_state \<Rightarrow> realtime_state option" where
  "config_round now err_text answer s =
     (case rw_configCh s of
        [] \<Rightarrow> None
      | msg # rest \<Rightarrow>
          let s1 = put_receipt now ''config'' msg ''applying'' [] (put_receipt now ''config'' msg ''received'' [] (s\<lparr>rw_configCh := rest\<rparr>))
          in Some (if shouldForceRealtimeConfigReload msg then
                     (case enqueueRealtimeReload s1 of
                        (False, s2) \<Rightarrow> put_receipt now ''config'' msg ''failed'' ''reload channel is nil'' s2
                      | (True, s2) \<Rightarrow> put_receipt now ''config'' msg ''applied'' ''reload queued'' s2)
                   else
                     (case executeNodeConfigCheck answer (rw_reloadCh s1) of
                        (Inl err, ch) \<Rightarrow> put_receipt now ''config'' msg ''failed'' (err_text err) (s1\<lparr>rw_reloadCh := ch\<rparr>)
                      | (Inr changed, ch) \<Rightarrow>
                          put_receipt now ''config'' msg ''applied'' (if changed then ''reload queued'' else ''no change'')
                            (s1\<lparr>rw_reloadCh := ch\<rparr>))))"

definition user_round ::
  "int \<Rightarrow> (sync_error \<Rightarrow> string) \<Rightarrow> ('x, 't, 'u, 'h) sync_env \<Rightarrow> realtime_state \<Rightarrow> ('b, 'x) Controller \<Rightarrow>
   (realtime_state \<times> ('b, 'x) Controller) option" where
  "user_round now err_text env s c =
     (case rw_userCh s of
        [] \<Rightarrow> None
      | msg # rest \<Rightarrow>
          let s1 = put_receipt now ''users'' msg ''applying'' [] (put_receipt now ''users'' msg ''received'' [] (s\<lparr>rw_userCh := rest\<rparr>))
          in Some (case executeNodeUserSync env c of
                     ((summary, Some err), c') \<Rightarrow> (put_receipt now ''users'' msg ''failed'' (err_text err) s1, c')
                   | ((summary, None), c') \<Rightarrow>
                       (put_receipt now ''users'' msg ''applied'' (formatRealtimeUserSummary summary) s1, c')))"

section \<open>Addresses\<close>

text \<open>
  A parsed address as it is printed again: its scheme, the user part with its separator, the host
  with its port, and whether an empty query is kept.
\<close>

record parsed_url =
  pu_Scheme :: string
  pu_User :: string
  pu_Host :: string
  pu_ForceQuery :: bool

definition deriveRealtimeURL :: "(string \<Rightarrow> parsed_url option) \<Rightarrow> string \<Rightarrow> string" where
  "deriveRealtimeURL parse apiHost =
     (case parse (TrimSpace apiHost) of
        None \<Rightarrow> []
      | Some u \<Rightarrow>
          if pu_Host u = [] then []
          else (if pu_Scheme u = ''http'' then ''ws'' else if pu_Scheme u = ''https'' then ''wss''
                else if pu_Scheme u = ''ws'' \<or> pu_Scheme u = ''wss'' then pu_Scheme u else ''ws'') @
               ''://'' @ pu_User u @ pu_Host u @ ''/ws/node'' @ (if pu_ForceQuery u then ''?'' else []))"

section \<open>Machine connections\<close>

definition resolveMachineRealtimeOptions ::
  "(string \<Rightarrow> string) \<Rightarrow> MachineProfileConfig \<Rightarrow> RealtimeConfig \<Rightarrow> RealtimeOptions option" where
  "resolveMachineRealtimeOptions derive profile fallback =
     (if mp_MachineID profile \<le> 0 \<or> TrimSpace (mp_Key profile) = [] then None
      else
        let own = mp_Realtime profile; fallbackURL = TrimSpace (rc_URL fallback); ownURL = TrimSpace (rc_URL own);
            url1 = (if fallbackURL = [] then ownURL else fallbackURL);
            url = (if url1 = [] then derive (mp_APIHost profile) else url1);
            enabled = (rc_Enabled fallback \<or> fallbackURL \<noteq> [] \<or> rc_Enabled own \<or> ownURL \<noteq> []);
            ping1 = (if rc_PingInterval fallback \<le> 0 then rc_PingInterval own else rc_PingInterval fallback);
            ping = (if ping1 \<le> 0 then 30 else ping1);
            reconnect = (if rc_ReconnectInterval fallback \<le> 0 then 5 else rc_ReconnectInterval fallback)
        in if \<not> enabled \<or> url = [] then None
           else Some \<lparr>ro_URL = url, ro_Token = TrimSpace (mp_Key profile), ro_NodeID = 0, ro_MachineID = mp_MachineID profile,
                      ro_NodeType = ''v2node'', ro_PingInterval = wrap64 (ping * 1000000000),
                      ro_ReconnectDelay = wrap64 (reconnect * 1000000000),
                      ro_LogTag = ''['' @ TrimRight (TrimSpace (mp_APIHost profile)) ''/'' @ '']-machine:'' @ Itoa (mp_MachineID profile)\<rparr>)"

definition machineRealtimeReceipt :: "int \<Rightarrow> realtimeMessage \<Rightarrow> string \<Rightarrow> string \<Rightarrow> realtimeMessage" where
  "machineRealtimeReceipt now source status message = receipt now ''config'' source status message"

text \<open>The callback of a machine client: a configuration message requests a reload between its receipts.\<close>

definition machine_on_message :: "int \<Rightarrow> realtimeMessage \<Rightarrow> RealtimeClient \<Rightarrow> bool \<times> RealtimeClient" where
  "machine_on_message now msg c =
     (if rm_Topic msg \<noteq> ''config'' then (False, c)
      else (True, Send (machineRealtimeReceipt now msg ''applied'' ''reload queued'')
                    (Send (machineRealtimeReceipt now msg ''applying'' []) (Send (machineRealtimeReceipt now msg ''received'' []) c))))"

record MachineRealtimeManager =
  mm_profiles :: "MachineProfileConfig list"
  mm_fallback :: RealtimeConfig
  mm_clients :: "RealtimeClient list"

definition NewMachineRealtimeManager :: "MachineProfileConfig list \<Rightarrow> RealtimeConfig \<Rightarrow> MachineRealtimeManager" where
  "NewMachineRealtimeManager ps fallback = \<lparr>mm_profiles = ps, mm_fallback = fallback, mm_clients = []\<rparr>"

definition manager_Start :: "(string \<Rightarrow> string) \<Rightarrow> MachineRealtimeManager \<Rightarrow> MachineRealtimeManager" where
  "manager_Start derive mgr =
     mgr\<lparr>mm_clients := mm_clients mgr @
        map NewRealtimeClient (List.map_filter (\<lambda>p. resolveMachineRealtimeOptions derive p (mm_fallback mgr)) (mm_profiles mgr))\<rparr>"

text \<open>The clients that are closed, and the manager without them.\<close>

definition manager_Close :: "MachineRealtimeManager \<Rightarrow> RealtimeClient list \<times> MachineRealtimeManager" where
  "manager_Close mgr = (map (\<lambda>c. c\<lparr>cl_closed := True\<rparr>) (mm_clients mgr), mgr\<lparr>mm_clients := []\<rparr>)"

definition normalizeMachineRealtimeProfiles :: "MachineProfileConfig list \<Rightarrow> MachineProfileConfig list" where
  "normalizeMachineRealtimeProfiles ps =
     filter (\<lambda>p. \<not> (mp_APIHost p = [] \<or> mp_Key p = [] \<or> mp_MachineID p \<le> 0))
       (map (\<lambda>p. p\<lparr>mp_APIHost := TrimRight (TrimSpace (mp_APIHost p)) ''/'', mp_Key := TrimSpace (mp_Key p)\<rparr>) ps)"

definition boolFingerprint :: "bool \<Rightarrow> string" where
  "boolFingerprint b = (if b then ''1'' else ''0'')"

definition realtime_part :: "RealtimeConfig \<Rightarrow> string list" where
  "realtime_part rc = [boolFingerprint (rc_Enabled rc), TrimSpace (rc_URL rc), Itoa (rc_PingInterval rc), Itoa (rc_ReconnectInterval rc)]"

definition machineRealtimeFingerprint :: "MachineProfileConfig list \<Rightarrow> RealtimeConfig \<Rightarrow> string" where
  "machineRealtimeFingerprint ps realtime =
     Join (sort (Join (realtime_part realtime) ''#'' #
       map (\<lambda>p. Join ([mp_APIHost p, Itoa (mp_MachineID p), mp_Key p] @ realtime_part (mp_Realtime p)) ''#'') ps)) [char_of (10 :: nat)]"

record machineRealtimeState =
  mr_manager :: "MachineRealtimeManager option"
  mr_fingerprint :: string

text \<open>The new state and the managers that are closed.\<close>

definition state_Close :: "machineRealtimeState \<Rightarrow> machineRealtimeState \<times> MachineRealtimeManager list" where
  "state_Close s = (\<lparr>mr_manager = None, mr_fingerprint = []\<rparr>, (case mr_manager s of None \<Rightarrow> [] | Some m \<Rightarrow> [m]))"

definition state_Apply ::
  "(string \<Rightarrow> string) \<Rightarrow> MachineConfig \<Rightarrow> RealtimeConfig \<Rightarrow> machineRealtimeState \<Rightarrow> machineRealtimeState \<times> MachineRealtimeManager list" where
  "state_Apply derive machine realtime s =
     (let profiles = normalizeMachineRealtimeProfiles (mc_Profiles machine);
          next_fp = machineRealtimeFingerprint profiles realtime
      in if \<not> mc_Enabled machine \<or> profiles = [] then state_Close s
         else if mr_manager s \<noteq> None \<and> mr_fingerprint s = next_fp then (s, [])
         else (\<lparr>mr_manager = Some (manager_Start derive (NewMachineRealtimeManager profiles realtime)), mr_fingerprint = next_fp\<rparr>,
               (case mr_manager s of None \<Rightarrow> [] | Some m \<Rightarrow> [m])))"

section \<open>Lemmas\<close>

lemma truncate_length: "length (truncateRealtimeReceiptMessage m) \<le> 240"
  by (auto simp: truncateRealtimeReceiptMessage_def Let_def)

text \<open>A receipt for a message on a topic.\<close>

definition receipt_for :: "string \<Rightarrow> realtimeMessage \<Rightarrow> realtimeMessage \<Rightarrow> bool" where
  "receipt_for topic msg r \<longleftrightarrow>
     rm_Type r = ''receipt'' \<and> rm_Topic r = topic \<and> rm_EventID r = rm_EventID msg \<and> rm_Reason r = rm_Reason msg \<and>
     length (rm_Message r) \<le> 240"

lemma receipt_is_for: "receipt_for topic msg (receipt now topic msg status text)"
  by (simp add: receipt_for_def receipt_def truncate_length)

lemma receipt_status [simp]: "rm_Status (receipt now topic msg status text) = status"
  by (simp add: receipt_def)

text \<open>The messages waiting to be sent.\<close>

definition outbox :: "realtime_state \<Rightarrow> realtimeMessage list" where
  "outbox s = (case rw_client s of None \<Rightarrow> [] | Some c \<Rightarrow> cl_sendCh c)"

lemma put_receipt_frame [simp]:
  "rw_configCh (put_receipt now topic msg st text s) = rw_configCh s" "rw_userCh (put_receipt now topic msg st text s) = rw_userCh s"
  "rw_reloadCh (put_receipt now topic msg st text s) = rw_reloadCh s"
  "rw_client (put_receipt now topic msg st text s) = None \<longleftrightarrow> rw_client s = None"
  by (simp_all add: put_receipt_def sendRealtimeReceipt_def)

lemma outbox_put:
  "rw_client s \<noteq> None \<Longrightarrow> length (outbox s) < 64 \<Longrightarrow> outbox (put_receipt now topic msg st text s) = outbox s @ [receipt now topic msg st text]"
  by (auto simp: outbox_def put_receipt_def sendRealtimeReceipt_def Send_def)

lemma outbox_frame [simp]:
  "outbox (s\<lparr>rw_configCh := x\<rparr>) = outbox s" "outbox (s\<lparr>rw_userCh := x\<rparr>) = outbox s" "outbox (s\<lparr>rw_reloadCh := y\<rparr>) = outbox s"
  by (simp_all add: outbox_def)

text \<open>Three receipts in a row, as every round sends them.\<close>

lemma outbox_three:
  assumes "rw_client s \<noteq> None" "length (outbox s) \<le> 61"
    "s1 = put_receipt now topic msg ''applying'' [] (put_receipt now topic msg ''received'' [] s)"
    "rw_client s2 = rw_client s1"
  shows "outbox (put_receipt now topic msg st text s2) =
         outbox s @ [receipt now topic msg ''received'' [], receipt now topic msg ''applying'' [], receipt now topic msg st text]"
proof -
  have o1: "outbox s1 = outbox s @ [receipt now topic msg ''received'' [], receipt now topic msg ''applying'' []]"
    using assms(1,2) by (simp add: assms(3) outbox_put)
  moreover have "outbox s2 = outbox s1" using assms(4) by (simp add: outbox_def)
  moreover have "rw_client s2 \<noteq> None" using assms(1,3,4) by simp
  ultimately show ?thesis using assms(2) by (simp add: outbox_put)
qed

lemma apply_again:
  assumes "state_Apply derive machine realtime s = (s', gone)"
  shows "state_Apply derive machine realtime s' = (s', [])"
  using assms by (auto simp: state_Apply_def state_Close_def Let_def split: if_splits)

section \<open>One invalidation\<close>

definition demo_options :: RealtimeOptions where
  "demo_options =
     \<lparr>ro_URL = ''ws://p'', ro_Token = ''t'', ro_NodeID = 1, ro_MachineID = 0, ro_NodeType = ''v2node'', ro_PingInterval = 30,
      ro_ReconnectDelay = 5, ro_LogTag = ''T''\<rparr>"

definition demo_invalidate :: realtimeMessage where
  "demo_invalidate = zero_message\<lparr>rm_Type := ''invalidate'', rm_Topic := ''users'', rm_EventID := ''e''\<rparr>"

definition demo_realtime :: realtime_state where
  "demo_realtime =
     on_message demo_invalidate \<lparr>rw_configCh = [], rw_userCh = [], rw_client = Some (NewRealtimeClient demo_options), rw_reloadCh = Some False\<rparr>"

section \<open>Properties\<close>

text \<open>
  A user invalidation is worked off and acknowledged: with room in the outbound queue, a round
  of the worker takes the message, sends the receipts received, applying and a final one for the
  same event, each of at most 240 bytes, the final one says applied exactly when the sync succeeded,
  and then limiter and core are in step with the new user list.
\<close>

theorem user_round_acknowledges:
  assumes "rw_userCh s = msg # rest" and "rw_client s \<noteq> None" and "length (outbox s) \<le> 61"
    and "in_step c" and "panel_ok (sy_panel env)" and "\<not> sy_ctx_done env"
  shows "\<exists>s' c' r1 r2 r3. user_round now err_text env s c = Some (s', c') \<and> rw_userCh s' = rest \<and>
           outbox s' = outbox s @ [r1, r2, r3] \<and> list_all (receipt_for ''users'' msg) [r1, r2, r3] \<and>
           rm_Status r1 = ''received'' \<and> rm_Status r2 = ''applying'' \<and>
           (rm_Status r3 = ''applied'' \<longleftrightarrow> snd (fst (executeNodeUserSync env c)) = None) \<and>
           (rm_Status r3 = ''applied'' \<longrightarrow> in_step c')"
proof -
  obtain summary e c' where r: "executeNodeUserSync env c = ((summary, e), c')" by (metis prod.exhaust)
  let ?s = "s\<lparr>rw_userCh := rest\<rparr>"
  let ?s1 = "put_receipt now ''users'' msg ''applying'' [] (put_receipt now ''users'' msg ''received'' [] ?s)"
  let ?st = "if e = None then ''applied'' else ''failed''"
    and ?txt = "case e of None \<Rightarrow> formatRealtimeUserSummary summary | Some err \<Rightarrow> err_text err"
  have run: "user_round now err_text env s c = Some (put_receipt now ''users'' msg ?st ?txt ?s1, c')"
    using assms(1) r by (cases e) (simp_all add: user_round_def Let_def)
  have out: "outbox (put_receipt now ''users'' msg ?st ?txt ?s1) =
      outbox s @ [receipt now ''users'' msg ''received'' [], receipt now ''users'' msg ''applying'' [], receipt now ''users'' msg ?st ?txt]"
    using outbox_three [of ?s ?s1 now "''users''" msg ?s1 ?st ?txt] assms(2,3) by simp
  have step: "in_step c'" if "e = None" using sync_in_step [OF assms(4-6)] r that by simp
  show ?thesis
    by (intro exI conjI, rule run, simp, rule out) (use r step in \<open>auto simp: receipt_is_for\<close>)
qed

theorem user_round_acknowledges_witness:
  "\<exists>s' c'. user_round 7 (\<lambda>_. []) (demo_env demo_xray (DeltaBody (Some demo_delta))) demo_realtime demo_controller = Some (s', c') \<and>
      map rm_Status (outbox s') = [''received'', ''applying'', ''applied''] \<and> in_step c'"
proof -
  let ?e = "demo_env demo_xray (DeltaBody (Some demo_delta))"
  have q: "rw_userCh demo_realtime = [demo_invalidate]" "rw_client demo_realtime \<noteq> None" "outbox demo_realtime = []"
    by (simp_all add: demo_realtime_def demo_invalidate_def on_message_def enqueueRealtimeUserSync_def outbox_def NewRealtimeClient_def)
  have ok: "snd (fst (executeNodeUserSync ?e demo_controller)) = None" by code_simp
  have d: "\<not> sy_ctx_done ?e" by (simp add: demo_env_def)
  have "length (outbox demo_realtime) \<le> 61" using q(3) by simp
  from user_round_acknowledges [OF q(1,2) this demo_in_step demo_panel_ok d, of 7 "\<lambda>_. []"] ok q(3) show ?thesis by auto
qed

end
