(* ===== verification/Panel_Client.thy ===== *)
theory Panel_Client
  imports Realtime Traffic_Report
begin

text \<open>
  The client of the panel (\<open>api/v2board/panel.go\<close>, \<open>user.go\<close>, \<open>node.go\<close>) and the control plane over it
  (\<open>node/controlplane.go\<close>, \<open>node/controlplane_panel_adapter.go\<close>). An exchange is its answer: a failed
  request, no response, or a response with the status, the headers the code reads and the body.
  The decoders are the JSON and msgpack packages, so a body is what they deliver; the user list,
  which the code reads token by token, is the token sequence. The digest of a node description
  (SHA-256 over its JSON text) is an argument.
\<close>

section \<open>Answers\<close>

record 'b response =
  re_Status :: int
  re_StatusText :: string
  re_ETag :: string
  re_ContentType :: string
  re_Body :: 'b

datatype 'b answer = Failed go_error | NoResponse | Answer "'b response"

section \<open>The client\<close>

record Client =
  pc_timeout :: int
  pc_params :: "(string \<times> string) list"
  pc_APIHost :: string
  pc_Token :: string
  pc_NodeId :: int
  pc_MachineID :: int
  pc_ConfigDir :: string
  pc_nodeEtag :: string
  pc_userEtag :: string
  pc_responseBodyHash :: string
  pc_AliveMap :: "AliveMap option"

definition zero_AliveMap :: AliveMap where
  "zero_AliveMap = \<lparr>am_Alive = [], am_AliveIPs = [], am_Mode = 0\<rparr>"

definition New_Client :: "NodeConfig \<Rightarrow> Client" where
  "New_Client c =
     \<lparr>pc_timeout = (if nc_Timeout c > 0 then wrap64 (nc_Timeout c * 1000000000) else 30000000000),
      pc_params = [(''node_type'', ''v2node''), (''node_id'', Itoa (nc_NodeID c)), (''token'', nc_Key c)] @
                  (if nc_MachineID c > 0 then [(''machine_id'', Itoa (nc_MachineID c))] else []),
      pc_APIHost = nc_APIHost c, pc_Token = nc_Key c, pc_NodeId = nc_NodeID c, pc_MachineID = nc_MachineID c,
      pc_ConfigDir = nc_ConfigDir c, pc_nodeEtag = [], pc_userEtag = [], pc_responseBodyHash = [],
      pc_AliveMap = Some zero_AliveMap\<rparr>"

section \<open>Users\<close>

datatype json_token = TNull | TBool bool | TNumber string | TString string | TObjectOpen | TObjectClose | TArrayOpen | TArrayClose

text \<open>
  One whole value from a token sequence, with its tokens and the rest: a scalar, or an object or
  array up to its closing token; \<open>None\<close> when the sequence ends before or a closing token comes first.
\<close>

fun read_value_at :: "nat \<Rightarrow> json_token list \<Rightarrow> (json_token list \<times> json_token list) option" where
  "read_value_at d [] = None"
| "read_value_at d (t # ts) =
     (if t \<in> {TObjectClose, TArrayClose} then
        (if d = 0 then None else if d = 1 then Some ([t], ts) else map_option (apfst ((#) t)) (read_value_at (d - 1) ts))
      else if t \<in> {TObjectOpen, TArrayOpen} then map_option (apfst ((#) t)) (read_value_at (Suc d) ts)
      else if d = 0 then Some ([t], ts) else map_option (apfst ((#) t)) (read_value_at d ts))"

text \<open>The loop that looks for the first string \<open>users\<close>, and what follows it.\<close>

fun seek_users :: "json_token list \<Rightarrow> json_token list option" where
  "seek_users [] = None"
| "seek_users (t # ts) = (if t = TString ''users'' then Some ts else seek_users ts)"

lemma read_value_shorter: "read_value_at d ts = Some (v, rest) \<Longrightarrow> length rest < length ts"
proof (induction d ts arbitrary: v rest rule: read_value_at.induct)
  case (2 d t ts)
  then show ?case by (auto split: if_splits intro: less_SucI)
qed simp

text \<open>What ends the reading: a value that is no user, or the end of the readable tokens.\<close>

datatype read_error = Unreadable | NotUser go_error

function read_users ::
  "(json_token list \<Rightarrow> go_error + UserInfo) \<Rightarrow> json_token list \<Rightarrow> UserInfo list \<Rightarrow> read_error + UserInfo list" where
  "read_users unmarshal ts users =
     (if ts \<noteq> [] \<and> hd ts = TArrayClose then Inr users
      else case read_value_at 0 ts of
             None \<Rightarrow> Inl Unreadable
           | Some (v, rest) \<Rightarrow>
               (case unmarshal v of
                  Inl e \<Rightarrow> Inl (NotUser e)
                | Inr u \<Rightarrow> read_users unmarshal rest (users @ [u])))"
  by pat_completeness auto
termination by (relation "measure (length \<circ> fst \<circ> snd)") (auto dest: read_value_shorter)

declare read_users.simps [simp del]

text \<open>
  The body of a user list: what the msgpack decoder makes of it, or its JSON tokens up to the first
  that cannot be read. \<open>lb_canceled\<close> says whether a read error is due to the cancelled context.
\<close>

record list_body =
  lb_msgpack :: "go_error + UserInfo list"
  lb_tokens :: "json_token list"
  lb_text :: string
  lb_canceled :: bool

text \<open>\<open>Inr None\<close> is a read that was cancelled. The text of a wrapped error is left out.\<close>

definition decode_failed :: "bool \<Rightarrow> string \<Rightarrow> go_error + UserInfo list option" where
  "decode_failed canceled text = (if canceled then Inr None else Inl (ErrText (''decode user list error: '' @ text)))"

definition decode_tokens :: "(json_token list \<Rightarrow> go_error + UserInfo) \<Rightarrow> list_body \<Rightarrow> go_error + UserInfo list option" where
  "decode_tokens unmarshal b =
     (case seek_users (lb_tokens b) of
        None \<Rightarrow> decode_failed (lb_canceled b) []
      | Some [] \<Rightarrow> decode_failed (lb_canceled b) []
      | Some (t # ts) \<Rightarrow>
          if t \<noteq> TArrayOpen then Inl (ErrText ''decode user list error: expected \"users\" array'')
          else (case read_users unmarshal ts [] of
                  Inl Unreadable \<Rightarrow> decode_failed (lb_canceled b) ''read user object: ''
                | Inl (NotUser e) \<Rightarrow> Inl (ErrText ''decode user list error: unmarshal user error: '')
                | Inr users \<Rightarrow> Inr (Some users)))"

definition decode_list :: "(json_token list \<Rightarrow> go_error + UserInfo) \<Rightarrow> list_body response \<Rightarrow> go_error + UserInfo list option" where
  "decode_list unmarshal r =
     (if Contains (re_ContentType r) ''application/x-msgpack'' then
        (case lb_msgpack (re_Body r) of
           Inl e \<Rightarrow> decode_failed (lb_canceled (re_Body r)) []
         | Inr users \<Rightarrow> Inr (Some users))
      else decode_tokens unmarshal (re_Body r))"

text \<open>
  The users, and none when nothing changed or the request was cancelled; the tag of the response is
  kept only after the whole list was read.
\<close>

definition GetUserList ::
  "(json_token list \<Rightarrow> go_error + UserInfo) \<Rightarrow> list_body answer \<Rightarrow> Client \<Rightarrow> (go_error + UserInfo list) \<times> Client" where
  "GetUserList unmarshal a c =
     (case a of
        Failed e \<Rightarrow> (if e = Canceled then (Inr [], c) else (Inl e, c))
      | NoResponse \<Rightarrow> (Inl (ErrText ''received nil response or raw response''), c)
      | Answer r \<Rightarrow>
          if re_Status r = 304 then (Inr [], if re_ETag r \<noteq> [] then c\<lparr>pc_userEtag := re_ETag r\<rparr> else c)
          else if re_Status r \<ge> 400 then
            (Inl (ErrText (''user list request failed: '' @ re_StatusText r @ '' body='' @ TrimSpace (take 2048 (lb_text (re_Body r))))), c)
          else (case decode_list unmarshal r of
                  Inl e \<Rightarrow> (Inl e, c)
                | Inr None \<Rightarrow> (Inr [], c)
                | Inr (Some users) \<Rightarrow> (Inr users, c\<lparr>pc_userEtag := re_ETag r\<rparr>)))"

text \<open>A decoded body, or the decoder's error with whether the context was cancelled.\<close>

type_synonym 'a decoded = "bool + 'a"

definition GetUserDelta :: "UserDeltaBody decoded answer \<Rightarrow> delta_result" where
  "GetUserDelta a =
     (case a of
        Failed e \<Rightarrow> (if e = Canceled then DeltaBody None else DeltaError e)
      | NoResponse \<Rightarrow> DeltaError (ErrText ''received nil response'')
      | Answer r \<Rightarrow>
          if isUserDeltaUnsupportedStatus (re_Status r) then DeltaUnsupported
          else if re_Status r \<ge> 400 then DeltaError (ErrText (''user_delta request failed: '' @ re_StatusText r))
          else (case re_Body r of
                  Inl canceled \<Rightarrow> (if canceled then DeltaBody None else DeltaError (ErrText ''decode user delta error: ''))
                | Inr body \<Rightarrow> DeltaBody (Some body)))"

definition GetUserAlive :: "AliveMap decoded answer \<Rightarrow> Client \<Rightarrow> (go_error + (int, int) go_map option) \<times> Client" where
  "GetUserAlive a c0 =
     (let c = (if pc_AliveMap c0 = None then c0\<lparr>pc_AliveMap := Some zero_AliveMap\<rparr> else c0)
      in case a of
           Failed e \<Rightarrow> (if e = Canceled then (Inr None, c) else (Inl e, c))
         | NoResponse \<Rightarrow> (Inl (ErrText ''received nil response or raw response''), c)
         | Answer r \<Rightarrow>
             if re_Status r \<ge> 399 then (Inl (ErrText (''fetch user alive list failed: '' @ re_StatusText r)), c)
             else (case re_Body r of
                     Inl canceled \<Rightarrow> (if canceled then (Inr None, c) else (Inl (ErrText ''decode user alive list error: ''), c))
                   | Inr next_map \<Rightarrow> (Inr (Some (cloneAliveMap (am_Alive next_map))), c\<lparr>pc_AliveMap := Some next_map\<rparr>)))"

definition CachedAliveMap :: "Client \<Rightarrow> (int, int) go_map" where
  "CachedAliveMap c = (case pc_AliveMap c of None \<Rightarrow> [] | Some m \<Rightarrow> cloneAliveMap (am_Alive m))"

definition CachedAliveSnapshot :: "Client \<Rightarrow> AliveMap" where
  "CachedAliveSnapshot c = cloneAliveSnapshot (pc_AliveMap c)"

text \<open>The body of a traffic report: one pair per user id.\<close>

definition traffic_data :: "UserTraffic list \<Rightarrow> (int, int \<times> int) go_map" where
  "traffic_data ts = fold (\<lambda>t. go_store (ut_UID t) (ut_Upload t, ut_Download t)) ts []"

definition posted :: "string \<Rightarrow> 'b answer \<Rightarrow> go_error option" where
  "posted what a =
     (case a of
        Failed e \<Rightarrow> (if e = Canceled then None else Some e)
      | NoResponse \<Rightarrow> None
      | Answer r \<Rightarrow> if re_Status r \<ge> 400 then Some (ErrText (what @ re_StatusText r)) else None)"

definition ReportUserTraffic :: "((int, int \<times> int) go_map \<Rightarrow> 'b answer) \<Rightarrow> UserTraffic list \<Rightarrow> go_error option" where
  "ReportUserTraffic send ts = posted ''report user traffic failed: '' (send (traffic_data ts))"

definition ReportNodeOnlineUsers :: "(online_data \<Rightarrow> 'b answer) \<Rightarrow> online_data \<Rightarrow> go_error option" where
  "ReportNodeOnlineUsers send online = posted ''report online users failed: '' (send online)"

section \<open>The node description\<close>

text \<open>A port given as text or as a number; null is the empty text.\<close>

definition PortValue_UnmarshalJSON :: "json_any \<Rightarrow> go_error + string" where
  "PortValue_UnmarshalJSON v =
     (case v of
        JNull \<Rightarrow> Inr []
      | JString text \<Rightarrow> Inr text
      | JInt number \<Rightarrow> if in_int64 number then Inr (Itoa number) else Inl (ErrText ''invalid port value: '')
      | _ \<Rightarrow> Inl (ErrText ''invalid port value: ''))"

text \<open>\<open>None\<close> is the panic of \<open>reflect.Value.Int\<close> on a Boolean or an array.\<close>

definition intervalToTime :: "json_any \<Rightarrow> int option" where
  "intervalToTime i =
     (case i of
        JNull \<Rightarrow> Some 0
      | JInt n \<Rightarrow> Some (wrap64 (n * 1000000000))
      | JString s \<Rightarrow> Some (wrap64 (Atoi_ignoring s * 1000000000))
      | JFloat r \<Rightarrow> Some (wrap64 ((if r < 0 then \<lceil>r\<rceil> else \<lfloor>r\<rfloor>) * 1000000000))
      | JBool b \<Rightarrow> None
      | JArray xs \<Rightarrow> None)"

definition interval_or_minute :: "int \<Rightarrow> int" where
  "interval_or_minute d = (if d \<le> 0 then 60000000000 else d)"

definition supported_protocols :: "string list" where
  "supported_protocols =
     [''vmess'', ''trojan'', ''hysteria2'', ''tuic'', ''anytls'', ''vless'', ''socks'', ''http'', ''mieru'', ''naive'']"

definition node_kind :: "CommonNode \<Rightarrow> (string \<times> int) option" where
  "node_kind cm =
     (if cm_Protocol cm \<in> set supported_protocols then Some (cm_Protocol cm, cm_Tls cm)
      else if cm_Protocol cm = ''shadowsocks'' then Some (cm_Protocol cm, 0) else None)"

definition parse_dns_env :: "string \<Rightarrow> (string, string) go_map" where
  "parse_dns_env text =
     fold (\<lambda>env m. case CutChar env (CHR ''='') of (k, v, found) \<Rightarrow> if found then go_store k v m else m)
       (SplitChar (CHR '','') text) []"

definition cert_info :: "Client \<Rightarrow> CommonNode \<Rightarrow> CertInfo" where
  "cert_info c cm =
     (let ts = cm_TlsSettings cm; dir = NormalizeConfigDir (pc_ConfigDir c); stem = cm_Protocol cm @ Itoa (pc_NodeId c)
      in \<lparr>ci_CertMode = ts_CertMode ts,
          ci_CertFile = (if ts_CertFile ts = [] then path_Join [dir, stem @ ''.cer''] else ts_CertFile ts),
          ci_KeyFile = (if ts_KeyFile ts = [] then path_Join [dir, stem @ ''.key''] else ts_KeyFile ts),
          ci_Email = ''node@v2board.com'', ci_CertDomain = ts_ServerName ts,
          ci_DNSEnv = (if ts_CertMode ts = ''dns'' \<and> ts_DNSEnv ts \<noteq> [] then parse_dns_env (ts_DNSEnv ts) else []),
          ci_Provider = ts_Provider ts, ci_RejectUnknownSni = (ts_RejectUnknownSni ts = ''1'')\<rparr>)"

definition node_intervals :: "CommonNode \<Rightarrow> (int \<times> int) option" where
  "node_intervals cm =
     (case cm_BaseConfig cm of
        None \<Rightarrow> Some (interval_or_minute 0, interval_or_minute 0)
      | Some b \<Rightarrow>
          (case (intervalToTime (bc_PushInterval b), intervalToTime (bc_PullInterval b)) of
             (Some push, Some pull) \<Rightarrow> Some (interval_or_minute push, interval_or_minute pull)
           | _ \<Rightarrow> None))"

definition keep_etag :: "'b response \<Rightarrow> Client \<Rightarrow> Client" where
  "keep_etag r c = (if re_ETag r \<noteq> [] then c\<lparr>pc_nodeEtag := re_ETag r\<rparr> else c)"

text \<open>The outcome for a description whose digest is new: a panic, an error or the node.\<close>

definition describe_node :: "Client \<Rightarrow> CommonNode \<Rightarrow> (go_error + NodeInfo) option" where
  "describe_node c cm =
     (case node_kind cm of
        None \<Rightarrow> Some (Inl (ErrText (''unsupport protocol: '' @ cm_Protocol cm)))
      | Some (ty, security) \<Rightarrow>
          (case node_intervals cm of
             None \<Rightarrow> None
           | Some (push, pull) \<Rightarrow>
               Some (Inr \<lparr>ni_Id = pc_NodeId c, ni_Type = ty, ni_Security = security, ni_PushInterval = push, ni_PullInterval = pull,
                          ni_Tag = ''['' @ pc_APIHost c @ '']-'' @ ty @ '':'' @ Itoa (pc_NodeId c),
                          ni_Common = Some (cm\<lparr>cm_CertInfo := Some (cert_info c cm)\<rparr>)\<rparr>)))"

definition GetNodeInfo ::
  "(CommonNode \<Rightarrow> go_error + string) \<Rightarrow> (go_error + CommonNode) answer \<Rightarrow> Client \<Rightarrow> ((go_error + NodeInfo option) \<times> Client) option" where
  "GetNodeInfo digest a c =
     (case a of
        Failed e \<Rightarrow> Some (if e = Canceled then Inr None else Inl e, c)
      | NoResponse \<Rightarrow> Some (Inl (ErrText ''received nil response''), c)
      | Answer r \<Rightarrow>
          if re_Status r = 304 then Some (Inr None, keep_etag r c)
          else (case re_Body r of
                  Inl e \<Rightarrow> Some (Inl (ErrText ''decode node params error: ''), c)
                | Inr cm \<Rightarrow>
                    (case digest cm of
                       Inl e \<Rightarrow> Some (Inl (ErrText ''encode node params error: ''), c)
                     | Inr newBodyHash \<Rightarrow>
                         if pc_responseBodyHash c = newBodyHash then Some (Inr None, keep_etag r c)
                         else (case describe_node c cm of
                                 None \<Rightarrow> None
                               | Some (Inl e) \<Rightarrow> Some (Inl e, keep_etag r (c\<lparr>pc_responseBodyHash := newBodyHash\<rparr>))
                               | Some (Inr node) \<Rightarrow>
                                   Some (Inr (Some node), keep_etag r (c\<lparr>pc_responseBodyHash := newBodyHash\<rparr>))))))"

section \<open>The control plane\<close>

datatype feature = featureUnknown | featureSupported | featureUnsupported

record panelControlPlane =
  pp_client :: "Client option"
  pp_apiHost :: string
  pp_token :: string
  pp_nodeID :: int
  pp_machineID :: int
  pp_handshakeState :: feature
  pp_reportState :: feature
  pp_bootstrap :: "RealtimeBootstrap option"

definition newPanelControlPlane :: "Client option \<Rightarrow> NodeConfig option \<Rightarrow> panelControlPlane" where
  "newPanelControlPlane client nodeConfig =
     (let host = (case nodeConfig of None \<Rightarrow> [] | Some n \<Rightarrow> TrimSpace (nc_APIHost n));
          token = (case nodeConfig of None \<Rightarrow> [] | Some n \<Rightarrow> TrimSpace (nc_Key n));
          node = (case nodeConfig of None \<Rightarrow> 0 | Some n \<Rightarrow> nc_NodeID n);
          machine = (case nodeConfig of None \<Rightarrow> 0 | Some n \<Rightarrow> nc_MachineID n);
          own = (\<lambda>zero x from_client. case client of None \<Rightarrow> x | Some c \<Rightarrow> if x = zero then from_client c else x);
          own_id = (\<lambda>x from_client. case client of None \<Rightarrow> x | Some c \<Rightarrow> if x = (0 :: int) then from_client c else x)
      in \<lparr>pp_client = client, pp_apiHost = own [] host (\<lambda>c. TrimSpace (pc_APIHost c)),
          pp_token = own [] token (\<lambda>c. TrimSpace (pc_Token c)), pp_nodeID = own_id node pc_NodeId,
          pp_machineID = own_id machine pc_MachineID, pp_handshakeState = featureUnknown, pp_reportState = featureUnknown,
          pp_bootstrap = None\<rparr>)"

record 'p request =
  rq_Endpoint :: string
  rq_Query :: "(string \<times> string) list"
  rq_Body :: 'p

text \<open>\<open>parse_query\<close> is the URL parser: the query parameters the text already has, in the order of their keys.\<close>

definition buildEndpoint ::
  "(string \<Rightarrow> (string \<times> string) list option) \<Rightarrow> string \<Rightarrow> panelControlPlane \<Rightarrow> (string \<times> (string \<times> string) list) option" where
  "buildEndpoint parse_query path p =
     (let text = TrimRight (pp_apiHost p) ''/'' @ path
      in case parse_query text of
           None \<Rightarrow> None
         | Some q0 \<Rightarrow>
             let q = query_Set ''node_type'' ''v2node'' (query_Set ''node_id'' (Itoa (pp_nodeID p)) (query_Set ''token'' (pp_token p) q0))
             in Some (text, sort_key fst (if pp_machineID p > 0 then query_Set ''machine_id'' (Itoa (pp_machineID p)) q else q)))"

definition doJSONRequest ::
  "(string \<Rightarrow> (string \<times> string) list option) \<Rightarrow> string \<Rightarrow> 'p \<Rightarrow> panelControlPlane \<Rightarrow> go_error + 'p request" where
  "doJSONRequest parse_query path body p =
     (if pp_apiHost p = [] \<or> pp_token p = [] \<or> pp_nodeID p \<le> 0 then Inl (ErrText ''panel auth config invalid'')
      else case buildEndpoint parse_query path p of
             None \<Rightarrow> Inl (ErrText ''parse endpoint failed: '')
           | Some (text, q) \<Rightarrow> Inr \<lparr>rq_Endpoint = text, rq_Query = q, rq_Body = body\<rparr>)"

text \<open>
  The body of a response as text, and what the JSON decoder makes of the handshake answer: whether
  the websocket is enabled, and its address.
\<close>

type_synonym handshake_body = "string \<times> (go_error + bool \<times> string)"

definition failed_status :: "string \<Rightarrow> 'b response \<Rightarrow> string \<Rightarrow> go_error" where
  "failed_status what r text = ErrText (what @ Itoa (re_Status r) @ '' body='' @ take 4096 text)"

text \<open>The handshake, with the request it sends, if it sends one.\<close>

definition GetRealtimeBootstrap ::
  "(string \<Rightarrow> (string \<times> string) list option) \<Rightarrow> (unit request \<Rightarrow> go_error + handshake_body response) \<Rightarrow> panelControlPlane \<Rightarrow>
   (go_error + RealtimeBootstrap option) \<times> unit request option \<times> panelControlPlane" where
  "GetRealtimeBootstrap parse_query http p =
     (if pp_handshakeState p = featureUnsupported then (Inr None, None, p)
      else if pp_handshakeState p = featureSupported \<and> pp_bootstrap p \<noteq> None then (Inr (pp_bootstrap p), None, p)
      else case doJSONRequest parse_query ''/api/v2/server/handshake'' () p of
             Inl e \<Rightarrow> (Inl e, None, p)
           | Inr rq \<Rightarrow>
               (case http rq of
                  Inl e \<Rightarrow> (Inl e, Some rq, p)
                | Inr r \<Rightarrow>
                    if re_Status r = 404 \<or> re_Status r = 405 then (Inr None, Some rq, p\<lparr>pp_handshakeState := featureUnsupported\<rparr>)
                    else if re_Status r \<ge> 400 then (Inl (failed_status ''handshake failed: status='' r (fst (re_Body r))), Some rq, p)
                    else (case snd (re_Body r) of
                            Inl e \<Rightarrow> (Inl (ErrText ''decode handshake response failed: ''), Some rq, p)
                          | Inr (enabled, url) \<Rightarrow>
                              let b = \<lparr>bs_Enabled = enabled, bs_URL = TrimSpace url\<rparr>
                              in (Inr (Some b), Some rq, p\<lparr>pp_handshakeState := featureSupported, pp_bootstrap := Some b\<rparr>))))"

record snapshot_payload =
  sp_traffic :: "(string, int \<times> int) go_map option"
  sp_alive :: "(string, string list) go_map option"
  sp_online :: "(string, int) go_map option"

definition snapshot_of :: "UserTraffic list \<Rightarrow> online_data \<Rightarrow> snapshot_payload" where
  "snapshot_of userTraffic online =
     \<lparr>sp_traffic = (if userTraffic = [] then None
                    else Some (fold (\<lambda>t. go_store (Itoa (ut_UID t)) (ut_Upload t, ut_Download t)) userTraffic [])),
      sp_alive = (if online = [] then None else Some (fold (\<lambda>e. go_store (Itoa (fst e)) (snd e)) (go_range online) [])),
      sp_online = (if online = [] then None else Some (fold (\<lambda>e. go_store (Itoa (fst e)) (int (length (snd e)))) (go_range online) []))\<rparr>"

definition ReportSnapshot ::
  "(string \<Rightarrow> (string \<times> string) list option) \<Rightarrow> (snapshot_payload request \<Rightarrow> go_error + string response) \<Rightarrow>
   UserTraffic list \<Rightarrow> online_data \<Rightarrow> panelControlPlane \<Rightarrow> report_answer \<times> snapshot_payload request option \<times> panelControlPlane" where
  "ReportSnapshot parse_query http userTraffic online p =
     (if pp_reportState p = featureUnsupported then (ReportUnsupported, None, p)
      else case doJSONRequest parse_query ''/api/v2/server/report'' (snapshot_of userTraffic online) p of
             Inl e \<Rightarrow> (ReportFailed e, None, p)
           | Inr rq \<Rightarrow>
               (case http rq of
                  Inl e \<Rightarrow> (ReportFailed e, Some rq, p)
                | Inr r \<Rightarrow>
                    if re_Status r = 404 \<or> re_Status r = 405 then (ReportUnsupported, Some rq, p\<lparr>pp_reportState := featureUnsupported\<rparr>)
                    else if re_Status r \<ge> 400 then
                      (ReportFailed (failed_status ''report snapshot failed: status='' r (re_Body r)), Some rq, p)
                    else (ReportAccepted, Some rq, p\<lparr>pp_reportState := featureSupported\<rparr>)))"

text \<open>
  The answers the panel gives during one sync, and the control plane of the controller over them: the
  calls are passed on to the client, which keeps the alive list for the later calls.
\<close>

record sync_answers =
  sa_delta :: "int \<Rightarrow> UserDeltaBody decoded answer"
  sa_list :: "list_body answer"
  sa_alive :: "AliveMap decoded answer"

definition no_client :: "go_error + 'a" where
  "no_client = Inl (ErrText ''panel client not initialized'')"

definition plane_of :: "(json_token list \<Rightarrow> go_error + UserInfo) \<Rightarrow> sync_answers \<Rightarrow> panelControlPlane \<Rightarrow> control_plane" where
  "plane_of unmarshal ans p =
     (case pp_client p of
        None \<Rightarrow>
          \<lparr>cp_GetUserDelta = (\<lambda>since. DeltaError (ErrText ''panel client not initialized'')), cp_GetUserList = no_client,
           cp_GetUserAlive = no_client, cp_CachedAliveMap = Some [], cp_CachedAliveSnapshot = Some zero_AliveMap\<rparr>
      | Some c \<Rightarrow>
          let c1 = snd (GetUserAlive (sa_alive ans) c)
          in \<lparr>cp_GetUserDelta = (\<lambda>since. GetUserDelta (sa_delta ans since)), cp_GetUserList = fst (GetUserList unmarshal (sa_list ans) c),
              cp_GetUserAlive = fst (GetUserAlive (sa_alive ans) c), cp_CachedAliveMap = Some (CachedAliveMap c1),
              cp_CachedAliveSnapshot = Some (CachedAliveSnapshot c1)\<rparr>)"

section \<open>The node description: lemmas\<close>

text \<open>The description an answer carries, and those of a sequence of answers.\<close>

definition described :: "(go_error + CommonNode) answer \<Rightarrow> CommonNode option" where
  "described a =
     (case a of
        Answer r \<Rightarrow> if re_Status r = 304 then None else (case re_Body r of Inl e \<Rightarrow> None | Inr cm \<Rightarrow> Some cm)
      | _ \<Rightarrow> None)"

definition seen :: "(go_error + CommonNode) answer list \<Rightarrow> CommonNode list" where
  "seen answers = List.map_filter described answers"

text \<open>The results of the requests one after the other; \<open>None\<close> when one of them panics.\<close>

fun info_run ::
  "(CommonNode \<Rightarrow> go_error + string) \<Rightarrow> (go_error + CommonNode) answer list \<Rightarrow> Client \<Rightarrow>
   ((go_error + NodeInfo option) list \<times> Client) option" where
  "info_run digest [] c = Some ([], c)"
| "info_run digest (a # answers) c =
     (case GetNodeInfo digest a c of
        None \<Rightarrow> None
      | Some (res, c1) \<Rightarrow> map_option (apfst ((#) res)) (info_run digest answers c1))"

lemma seen_simps [simp]: "seen [] = []" "seen (a # as) = (case described a of None \<Rightarrow> seen as | Some cm \<Rightarrow> cm # seen as)"
  by (simp_all add: seen_def split: option.split)

lemma keep_etag_frame [simp]:
  "pc_responseBodyHash (keep_etag r c) = pc_responseBodyHash c" "pc_NodeId (keep_etag r c) = pc_NodeId c"
  "pc_APIHost (keep_etag r c) = pc_APIHost c" "pc_ConfigDir (keep_etag r c) = pc_ConfigDir c"
  by (simp_all add: keep_etag_def)

lemma GetNodeInfo_hash:
  assumes "GetNodeInfo (\<lambda>cm. Inr (h cm)) a c = Some (res, c')"
  shows "pc_responseBodyHash c' = (case described a of None \<Rightarrow> pc_responseBodyHash c | Some cm \<Rightarrow> h cm)"
  using assms by (auto simp: GetNodeInfo_def described_def split: answer.splits if_splits sum.splits option.splits)

text \<open>The digest the client keeps is that of the last description it was sent.\<close>

lemma info_run_hash:
  "info_run (\<lambda>cm. Inr (h cm)) answers c = Some (rs, c') \<Longrightarrow>
   pc_responseBodyHash c' = (if seen answers = [] then pc_responseBodyHash c else h (last (seen answers)))"
proof (induction answers arbitrary: c rs)
  case (Cons a as)
  then obtain res c1 rs1 where g: "GetNodeInfo (\<lambda>cm. Inr (h cm)) a c = Some (res, c1)" "info_run (\<lambda>cm. Inr (h cm)) as c1 = Some (rs1, c')"
    by (auto split: option.splits)
  show ?case using Cons.IH [OF g(2)] GetNodeInfo_hash [OF g(1)] by (auto split: option.splits)
qed simp

lemma interval_positive: "interval_or_minute d > 0"
  by (simp add: interval_or_minute_def)

lemma node_intervals_positive: "node_intervals cm = Some (push, pull) \<Longrightarrow> 0 < push \<and> 0 < pull"
  by (auto simp: node_intervals_def interval_positive split: option.splits)

lemma path_Join_ne: "p \<noteq> [] \<Longrightarrow> path_Join (p # ps) \<noteq> []"
  by (simp add: path_Join_def)

lemma NormalizeConfigDir_ne: "NormalizeConfigDir d \<noteq> []"
  by (simp add: NormalizeConfigDir_def DefaultNodeConfigDir_def)

text \<open>A node description that the rest of the program can work with.\<close>

definition usable_node :: "Client \<Rightarrow> CommonNode \<Rightarrow> NodeInfo \<Rightarrow> bool" where
  "usable_node c cm n \<longleftrightarrow>
     ni_Id n = pc_NodeId c \<and> ni_Tag n = ''['' @ pc_APIHost c @ '']-'' @ ni_Type n @ '':'' @ Itoa (pc_NodeId c) \<and>
     ni_Type n = cm_Protocol cm \<and> ni_PushInterval n > 0 \<and> ni_PullInterval n > 0 \<and>
     (\<exists>ci. ni_Common n = Some (cm\<lparr>cm_CertInfo := Some ci\<rparr>) \<and> ci_CertFile ci \<noteq> [] \<and> ci_KeyFile ci \<noteq> [])"

lemma cert_files_ne: "ci_CertFile (cert_info c cm) \<noteq> []" "ci_KeyFile (cert_info c cm) \<noteq> []"
  using path_Join_ne [OF NormalizeConfigDir_ne] by (simp_all add: cert_info_def Let_def)

lemma describe_node_usable: "describe_node c cm = Some (Inr n) \<Longrightarrow> usable_node c cm n"
  using node_intervals_positive [of cm] cert_files_ne [of c cm]
  by (auto simp: describe_node_def usable_node_def node_kind_def intro!: exI [of _ "cert_info c cm"] split: option.splits if_splits)

lemma describe_node_kind: "describe_node c cm = Some r \<Longrightarrow> (\<exists>n. r = Inr n) \<longleftrightarrow> node_kind cm \<noteq> None"
  by (auto simp: describe_node_def split: option.splits)

lemma GetNodeInfo_delivers:
  assumes "GetNodeInfo (\<lambda>cm. Inr (h cm)) a c = Some (res, c')"
  shows "(\<exists>n. res = Inr (Some n)) \<longleftrightarrow> (\<exists>cm. described a = Some cm \<and> node_kind cm \<noteq> None \<and> pc_responseBodyHash c \<noteq> h cm)"
    and "res = Inr (Some n) \<Longrightarrow> \<exists>cm. described a = Some cm \<and> describe_node c cm = Some (Inr n)"
proof -
  show "(\<exists>n. res = Inr (Some n)) \<longleftrightarrow> (\<exists>cm. described a = Some cm \<and> node_kind cm \<noteq> None \<and> pc_responseBodyHash c \<noteq> h cm)"
    using assms describe_node_kind [of c]
    by (fastforce simp: GetNodeInfo_def described_def split: answer.splits if_splits sum.splits option.splits)
  show "res = Inr (Some n) \<Longrightarrow> \<exists>cm. described a = Some cm \<and> describe_node c cm = Some (Inr n)"
    using assms by (auto simp: GetNodeInfo_def described_def split: answer.splits if_splits sum.splits option.splits)
qed

lemma GetNodeInfo_returns:
  "(\<And>cm. described a = Some cm \<Longrightarrow> node_intervals cm \<noteq> None) \<Longrightarrow> \<exists>res c'. GetNodeInfo digest a c = Some (res, c')"
  by (force simp: GetNodeInfo_def described_def describe_node_def split: answer.splits if_splits sum.splits option.splits)

lemma usable_cong:
  "pc_NodeId c = pc_NodeId d \<Longrightarrow> pc_APIHost c = pc_APIHost d \<Longrightarrow> usable_node c cm n \<longleftrightarrow> usable_node d cm n"
  by (simp add: usable_node_def)

lemma GetNodeInfo_frame: "GetNodeInfo digest a c = Some (res, c') \<Longrightarrow> pc_NodeId c' = pc_NodeId c \<and> pc_APIHost c' = pc_APIHost c"
  by (auto simp: GetNodeInfo_def split: answer.splits if_splits sum.splits option.splits)

lemma info_run_frame: "info_run digest answers c = Some (rs, c') \<Longrightarrow> pc_NodeId c' = pc_NodeId c \<and> pc_APIHost c' = pc_APIHost c"
  by (induction answers arbitrary: c rs) (auto split: option.splits dest!: GetNodeInfo_frame)

section \<open>The user list: lemmas\<close>

text \<open>How the panel prints one user, and a token sequence that is one value wherever it stands.\<close>

definition user_tokens :: "UserInfo \<Rightarrow> json_token list" where
  "user_tokens u =
     [TObjectOpen, TString ''id'', TNumber (Itoa (ui_Id u)), TString ''uuid'', TString (ui_Uuid u),
      TString ''speed_limit'', TNumber (Itoa (ui_SpeedLimit u)), TString ''device_limit'', TNumber (Itoa (ui_DeviceLimit u)), TObjectClose]"

lemma read_user: "read_value_at 0 (user_tokens u @ ts) = Some (user_tokens u, ts)"
  by (simp add: user_tokens_def)

lemma read_user_cut: "k < length (user_tokens u) \<Longrightarrow> read_value_at 0 (take k (user_tokens u)) = None"
  by (simp add: user_tokens_def take_Cons' split: if_splits)

lemma user_tokens_hd: "user_tokens u \<noteq> []" "hd (user_tokens u @ ts) \<noteq> TArrayClose"
  by (simp_all add: user_tokens_def)

lemma read_users_all:
  assumes "\<forall>u\<in>set us. unmarshal (user_tokens u) = Inr u"
  shows "read_users unmarshal (concat (map user_tokens us) @ TArrayClose # rest) acc = Inr (acc @ us)"
  using assms
proof (induction us arbitrary: acc)
  case Nil
  then show ?case by (simp add: read_users.simps)
next
  case (Cons u us)
  then show ?case
    using user_tokens_hd(2) [of u "concat (map user_tokens us) @ TArrayClose # rest"] read_user [of u "concat (map user_tokens us) @ TArrayClose # rest"]
    by (subst read_users.simps) (simp add: user_tokens_hd(1))
qed

text \<open>A list cut off before its closing bracket is not accepted.\<close>

lemma read_users_cut:
  assumes "\<forall>u\<in>set us. unmarshal (user_tokens u) = Inr u" and "k \<le> length (concat (map user_tokens us))"
  shows "read_users unmarshal (take k (concat (map user_tokens us))) acc = Inl Unreadable"
  using assms
proof (induction us arbitrary: acc k)
  case Nil
  then show ?case by (subst read_users.simps) simp
next
  case (Cons u us)
  show ?case
  proof (cases "k < length (user_tokens u)")
    case True
    then have "hd (take k (user_tokens u)) \<noteq> TArrayClose" if "take k (user_tokens u) \<noteq> []"
      using that user_tokens_hd(2) [of u "[]"] by (simp add: hd_take)
    with True show ?thesis using read_user_cut [OF True] by (subst read_users.simps) auto
  next
    case False
    let ?rest = "take (k - length (user_tokens u)) (concat (map user_tokens us))"
    have t: "take k (concat (map user_tokens (u # us))) = user_tokens u @ ?rest" using False by simp
    have "read_users unmarshal ?rest (acc @ [u]) = Inl Unreadable" using Cons.IH [of "k - length (user_tokens u)"] Cons.prems by simp
    then show ?thesis unfolding t using Cons.prems(1) user_tokens_hd(1) [of u] user_tokens_hd(2) [of u ?rest] read_user [of u ?rest] by (subst read_users.simps) simp
  qed
qed

lemma seek_users_found: "TString ''users'' \<notin> set pre \<Longrightarrow> seek_users (pre @ TString ''users'' # ts) = Some ts"
  by (induction pre) auto

lemma seek_users_absent: "TString ''users'' \<notin> set ts \<Longrightarrow> seek_users ts = None"
  by (induction ts) auto

text \<open>The tokens of an answer: the list of users under its key, after other tokens and before others.\<close>

definition list_tokens :: "json_token list \<Rightarrow> UserInfo list \<Rightarrow> json_token list \<Rightarrow> json_token list" where
  "list_tokens pre us rest = pre @ TString ''users'' # TArrayOpen # concat (map user_tokens us) @ TArrayClose # rest"

lemma decode_tokens_all:
  assumes "\<forall>u\<in>set us. unmarshal (user_tokens u) = Inr u" and "TString ''users'' \<notin> set pre" and "lb_tokens b = list_tokens pre us rest"
  shows "decode_tokens unmarshal b = Inr (Some us)"
  using assms read_users_all [OF assms(1), of rest "[]"] by (simp add: decode_tokens_def list_tokens_def seek_users_found)

lemma decode_tokens_cut:
  assumes "\<forall>u\<in>set us. unmarshal (user_tokens u) = Inr u" and "TString ''users'' \<notin> set pre"
    and "k \<le> length pre + 2 + length (concat (map user_tokens us))" and "lb_tokens b = take k (list_tokens pre us rest)"
  shows "\<exists>text. decode_tokens unmarshal b = decode_failed (lb_canceled b) text"
proof -
  let ?us = "concat (map user_tokens us)"
  consider "k \<le> length pre" | "k = Suc (length pre)" | "length pre + 2 \<le> k" by linarith
  then show ?thesis
  proof cases
    case 1
    then have "lb_tokens b = take k pre" using assms(4) by (simp add: list_tokens_def)
    then have "seek_users (lb_tokens b) = None" using assms(2) seek_users_absent [of "take k pre"] by (auto dest: in_set_takeD)
    then show ?thesis by (auto simp: decode_tokens_def)
  next
    case 2
    then have "lb_tokens b = pre @ [TString ''users'']" using assms(4) by (simp add: list_tokens_def)
    then show ?thesis using seek_users_found [OF assms(2), of "[]"] by (auto simp: decode_tokens_def)
  next
    case 3
    then obtain j where j: "k = length pre + 2 + j" using le_Suc_ex by blast
    then have le: "j \<le> length ?us" using assms(3) by simp
    have "lb_tokens b = pre @ TString ''users'' # TArrayOpen # take j ?us" using assms(4) j le by (simp add: list_tokens_def)
    then show ?thesis using read_users_cut [OF assms(1) le, of "[]"] by (auto simp: decode_tokens_def seek_users_found [OF assms(2)])
  qed
qed

section \<open>Properties\<close>

text \<open>
  The node description is handed on exactly when it changed: after any sequence of answers, a further
  answer yields a node if and only if it carries a description of a supported protocol that differs
  from the last description received, provided the digests of the received descriptions are neither
  empty nor equal by accident. A node that is handed on has the id and tag of the client, positive
  intervals and file names for its certificate.
\<close>

theorem node_info_delivered_iff_changed:
  assumes "info_run (\<lambda>cm. Inr (h cm)) before (New_Client conf) = Some (rs, c)"
    and "GetNodeInfo (\<lambda>cm. Inr (h cm)) a c = Some (res, c')"
    and "inj_on h (set (seen (before @ [a])))" and "[] \<notin> h ` set (seen (before @ [a]))"
  shows "((\<exists>n. res = Inr (Some n)) \<longleftrightarrow>
            (\<exists>cm. described a = Some cm \<and> node_kind cm \<noteq> None \<and> (seen before = [] \<or> last (seen before) \<noteq> cm))) \<and>
         (\<forall>n. res = Inr (Some n) \<longrightarrow> (\<exists>cm. described a = Some cm \<and> usable_node (New_Client conf) cm n))"
proof -
  have hash: "pc_responseBodyHash c = (if seen before = [] then [] else h (last (seen before)))"
    using info_run_hash [OF assms(1)] by (simp add: New_Client_def)
  have seen_all: "set (seen (before @ [a])) = set (seen before) \<union> set (seen [a])" by (simp add: seen_def map_filter_def)
  have "pc_responseBodyHash c \<noteq> h cm \<longleftrightarrow> seen before = [] \<or> last (seen before) \<noteq> cm" if d: "described a = Some cm" for cm
  proof (cases "seen before = []")
    case True
    then show ?thesis using hash d assms(4) by (auto simp: seen_all image_def)
  next
    case False
    then have "last (seen before) \<in> set (seen (before @ [a]))" "cm \<in> set (seen (before @ [a]))" using d by (simp_all add: seen_all)
    then show ?thesis using hash False inj_on_eq_iff [OF assms(3)] by auto
  qed
  then have "(\<exists>n. res = Inr (Some n)) \<longleftrightarrow>
      (\<exists>cm. described a = Some cm \<and> node_kind cm \<noteq> None \<and> (seen before = [] \<or> last (seen before) \<noteq> cm))"
    using GetNodeInfo_delivers(1) [OF assms(2)] by blast
  moreover have "\<exists>cm. described a = Some cm \<and> usable_node (New_Client conf) cm n" if r: "res = Inr (Some n)" for n
    using GetNodeInfo_delivers(2) [OF assms(2) r] describe_node_usable info_run_frame [OF assms(1)] usable_cong [of c "New_Client conf"] by blast
  ultimately show ?thesis by blast
qed

definition demo_conf :: NodeConfig where
  "demo_conf = \<lparr>nc_APIHost = ''http://p'', nc_NodeID = 3, nc_Key = ''k'', nc_MachineID = 0, nc_Timeout = 0, nc_ConfigDir = []\<rparr>"

definition reply :: "int \<Rightarrow> 'b \<Rightarrow> 'b answer" where
  "reply status body = Answer \<lparr>re_Status = status, re_StatusText = [], re_ETag = [], re_ContentType = ''application/json'', re_Body = body\<rparr>"

text \<open>The body of an error page has none of the fields, so it decodes to the zero description.\<close>

definition demo_vless :: CommonNode where
  "demo_vless = zero_CommonNode\<lparr>cm_Protocol := ''vless''\<rparr>"

definition demo_digest :: "CommonNode \<Rightarrow> string" where
  "demo_digest cm = CHR ''#'' # cm_Protocol cm"

theorem node_info_delivered_iff_changed_witness:
  "\<exists>rs c res c'. info_run (\<lambda>cm. Inr (demo_digest cm)) [reply 200 (Inr demo_vless)] (New_Client demo_conf) = Some (rs, c) \<and>
      GetNodeInfo (\<lambda>cm. Inr (demo_digest cm)) (reply 200 (Inr (demo_vless\<lparr>cm_Protocol := ''trojan''\<rparr>))) c = Some (res, c') \<and>
      (\<exists>n. res = Inr (Some n) \<and> ni_Tag n = ''[http://p]-trojan:3'')"
proof -
  let ?d = "\<lambda>cm. Inr (demo_digest cm) :: go_error + string"
  let ?first = "reply 200 (Inr demo_vless) :: (go_error + CommonNode) answer"
    and ?next = "reply 200 (Inr (demo_vless\<lparr>cm_Protocol := ''trojan''\<rparr>)) :: (go_error + CommonNode) answer"
  have s: "described ?first = Some demo_vless" "described ?next = Some (demo_vless\<lparr>cm_Protocol := ''trojan''\<rparr>)"
    by (simp_all add: described_def reply_def)
  have i: "node_intervals demo_vless \<noteq> None" "node_intervals (demo_vless\<lparr>cm_Protocol := ''trojan''\<rparr>) \<noteq> None"
    by (simp_all add: node_intervals_def demo_vless_def zero_CommonNode_def)
  obtain rs c where run: "info_run ?d [?first] (New_Client demo_conf) = Some (rs, c)"
    using GetNodeInfo_returns [of ?first ?d "New_Client demo_conf"] s i by auto
  obtain res c' where get: "GetNodeInfo ?d ?next c = Some (res, c')"
    using GetNodeInfo_returns [of ?next ?d c] s i by auto
  have "inj_on demo_digest (set (seen ([?first] @ [?next])))" "[] \<notin> demo_digest ` set (seen ([?first] @ [?next]))"
    by (simp_all add: s) (auto simp: demo_digest_def demo_vless_def)
  from node_info_delivered_iff_changed [OF run get this] have iff:
    "(\<exists>n. res = Inr (Some n)) \<longleftrightarrow> node_kind (demo_vless\<lparr>cm_Protocol := ''trojan''\<rparr>) \<noteq> None \<and> demo_vless \<noteq> demo_vless\<lparr>cm_Protocol := ''trojan''\<rparr>"
    and use: "\<And>n. res = Inr (Some n) \<Longrightarrow> usable_node (New_Client demo_conf) (demo_vless\<lparr>cm_Protocol := ''trojan''\<rparr>) n"
    by (simp_all add: s)
  have "cm_Protocol demo_vless \<noteq> cm_Protocol (demo_vless\<lparr>cm_Protocol := ''trojan''\<rparr>)" by (simp add: demo_vless_def)
  then have "demo_vless \<noteq> demo_vless\<lparr>cm_Protocol := ''trojan''\<rparr>" by metis
  then have "\<exists>n. res = Inr (Some n)" using iff by (auto simp: node_kind_def supported_protocols_def)
  then obtain n where "res = Inr (Some n)" "usable_node (New_Client demo_conf) (demo_vless\<lparr>cm_Protocol := ''trojan''\<rparr>) n" using use by blast
  moreover have "Itoa 3 = ''3''" by code_simp
  ultimately have "ni_Tag n = ''[http://p]-trojan:3''" by (simp add: usable_node_def New_Client_def demo_conf_def)
  then show ?thesis using run get \<open>res = Inr (Some n)\<close> by blast
qed

text \<open>
  C28. An error page makes the node restart. The status of the answer is not looked at, and the digest
  of whatever was decoded is kept: after an answer that decodes to a description of no supported
  protocol, the request fails and the unchanged description that the next answer carries is handed
  on as new, so that the configuration check asks for a reload, which it does not do without the
  error page in between.
\<close>

theorem error_page_forces_reload:
  assumes "described page = Some err" and "node_kind err = None" and "h err \<noteq> h cm"
    and "described good = Some cm" and "node_kind cm \<noteq> None" and "node_intervals cm \<noteq> None"
    and "pc_responseBodyHash c = h cm"
  shows "(\<exists>c0. GetNodeInfo (\<lambda>cm. Inr (h cm)) good c = Some (Inr None, c0)) \<and>
         (\<exists>e c1 n c2. GetNodeInfo (\<lambda>cm. Inr (h cm)) page c = Some (Inl e, c1) \<and>
            GetNodeInfo (\<lambda>cm. Inr (h cm)) good c1 = Some (Inr (Some n), c2) \<and>
            executeNodeConfigCheck (Inr (Some n)) (Some pending) = (Inr True, Some True))"
proof -
  have good: "\<exists>r. good = Answer r \<and> re_Status r \<noteq> 304 \<and> re_Body r = Inr cm" and page: "\<exists>r. page = Answer r \<and> re_Status r \<noteq> 304 \<and> re_Body r = Inr err"
    using assms(1,4) by (auto simp: described_def split: answer.splits if_splits sum.splits)
  have b: "\<exists>n. describe_node c1 cm = Some (Inr n)" for c1
    using assms(5,6) by (auto simp: describe_node_def split: option.splits)
  obtain e where e: "describe_node c err = Some (Inl e)" using assms(2) by (simp add: describe_node_def)
  obtain c1 where c1: "GetNodeInfo (\<lambda>cm. Inr (h cm)) page c = Some (Inl e, c1)" "pc_responseBodyHash c1 = h err"
    using page e assms(3,7) by (auto simp: GetNodeInfo_def)
  obtain n where "describe_node c1 cm = Some (Inr n)" using b by blast
  then have "\<exists>c2. GetNodeInfo (\<lambda>cm. Inr (h cm)) good c1 = Some (Inr (Some n), c2)"
    using good c1(2) assms(3) by (auto simp: GetNodeInfo_def)
  then show ?thesis using good c1(1) assms(7) by (auto simp: GetNodeInfo_def executeNodeConfigCheck_def)
qed

theorem error_page_forces_reload_witness:
  "\<exists>e c1 n c2. GetNodeInfo (\<lambda>cm. Inr (demo_digest cm)) (reply 500 (Inr zero_CommonNode))
       ((New_Client demo_conf)\<lparr>pc_responseBodyHash := demo_digest demo_vless\<rparr>) = Some (Inl e, c1) \<and>
     GetNodeInfo (\<lambda>cm. Inr (demo_digest cm)) (reply 200 (Inr demo_vless)) c1 = Some (Inr (Some n), c2)"
  using error_page_forces_reload [of "reply 500 (Inr zero_CommonNode)" zero_CommonNode demo_digest demo_vless "reply 200 (Inr demo_vless)"
      "(New_Client demo_conf)\<lparr>pc_responseBodyHash := demo_digest demo_vless\<rparr>" False]
  by (simp add: described_def reply_def node_kind_def supported_protocols_def demo_vless_def zero_CommonNode_def demo_digest_def node_intervals_def)
     blast

text \<open>
  C29. The user list is read back whole or not at all: from the tokens of a list of users under its key,
  among whatever other tokens, the client returns these users and keeps the tag of the answer; when
  the tokens stop anywhere before the closing bracket, it returns no users and keeps its old tag, so
  that the list is asked for again.
\<close>

theorem user_list_whole_or_nothing:
  assumes "\<forall>u\<in>set us. unmarshal (user_tokens u) = Inr u" and "TString ''users'' \<notin> set pre"
    and "re_Status r < 400" "re_Status r \<noteq> 304" "\<not> Contains (re_ContentType r) ''application/x-msgpack''"
  shows "(lb_tokens (re_Body r) = list_tokens pre us rest \<longrightarrow> GetUserList unmarshal (Answer r) c = (Inr us, c\<lparr>pc_userEtag := re_ETag r\<rparr>)) \<and>
         (\<forall>k \<le> length pre + 2 + length (concat (map user_tokens us)).
            lb_tokens (re_Body r) = take k (list_tokens pre us rest) \<longrightarrow>
            snd (GetUserList unmarshal (Answer r) c) = c \<and>
            (fst (GetUserList unmarshal (Answer r) c) = Inr [] \<and> lb_canceled (re_Body r) \<or> (\<exists>e. fst (GetUserList unmarshal (Answer r) c) = Inl e)))"
proof (intro conjI allI impI)
  have plain: "GetUserList unmarshal (Answer r) c =
      (case decode_tokens unmarshal (re_Body r) of Inl e \<Rightarrow> (Inl e, c) | Inr None \<Rightarrow> (Inr [], c) | Inr (Some users) \<Rightarrow> (Inr users, c\<lparr>pc_userEtag := re_ETag r\<rparr>))"
    using assms(3-5) by (simp add: GetUserList_def decode_list_def)
  show "GetUserList unmarshal (Answer r) c = (Inr us, c\<lparr>pc_userEtag := re_ETag r\<rparr>)" if "lb_tokens (re_Body r) = list_tokens pre us rest"
    using plain decode_tokens_all [OF assms(1,2) that] by simp
  fix k assume k: "k \<le> length pre + 2 + length (concat (map user_tokens us))" and t: "lb_tokens (re_Body r) = take k (list_tokens pre us rest)"
  obtain msg where d: "decode_tokens unmarshal (re_Body r) = decode_failed (lb_canceled (re_Body r)) msg"
    using decode_tokens_cut [OF assms(1,2) k t] by blast
  show "snd (GetUserList unmarshal (Answer r) c) = c" using plain d by (simp add: decode_failed_def)
  show "fst (GetUserList unmarshal (Answer r) c) = Inr [] \<and> lb_canceled (re_Body r) \<or> (\<exists>e. fst (GetUserList unmarshal (Answer r) c) = Inl e)"
    using plain d by (simp add: decode_failed_def)
qed

definition demo_body :: list_body where
  "demo_body =
     \<lparr>lb_msgpack = Inr [], lb_tokens = list_tokens [TObjectOpen, TString ''ok'', TBool True] [demo_user] [TObjectClose],
      lb_text = [], lb_canceled = False\<rparr>"

definition demo_unmarshal :: "json_token list \<Rightarrow> go_error + UserInfo" where
  "demo_unmarshal ts = (if ts = user_tokens demo_user then Inr demo_user else Inl (ErrText ''user''))"

theorem user_list_whole_or_nothing_witness:
  "fst (GetUserList demo_unmarshal (reply 200 demo_body) (New_Client demo_conf)) = Inr [demo_user]"
proof -
  let ?r = "\<lparr>re_Status = 200, re_StatusText = [], re_ETag = [], re_ContentType = ''application/json'', re_Body = demo_body\<rparr> :: list_body response"
  let ?pre = "[TObjectOpen, TString ''ok'', TBool True]"
  have u: "\<forall>u\<in>set [demo_user]. demo_unmarshal (user_tokens u) = Inr u" by (simp add: demo_unmarshal_def)
  have pre: "TString ''users'' \<notin> set ?pre" by simp
  have r: "re_Status ?r < 400" "re_Status ?r \<noteq> 304" "\<not> Contains (re_ContentType ?r) ''application/x-msgpack''"
    by (simp_all add: HasPrefix_def)
  have "lb_tokens (re_Body ?r) = list_tokens ?pre [demo_user] [TObjectClose]" by (simp add: demo_body_def)
  then have "GetUserList demo_unmarshal (Answer ?r) (New_Client demo_conf) = (Inr [demo_user], (New_Client demo_conf)\<lparr>pc_userEtag := re_ETag ?r\<rparr>)"
    using user_list_whole_or_nothing [OF u pre r] by blast
  then show ?thesis by (simp only: reply_def fst_conv)
qed

text \<open>
  What the limiter takes for globally online is what the panel said: when the panel answers the
  request for the alive list during a sync, then afterwards an address counts as alive for a user
  exactly when the answer is in IP mode and lists it for that user, up to white space and the
  IPv4-mapped prefix, whatever the client and the limiter held before.
\<close>

theorem sync_alive_follows_panel:
  assumes "sy_panel env = plane_of unmarshal ans p" and "pp_client p = Some cl"
    and "sa_alive ans = Answer r" and "re_Status r < 399" and "re_Body r = Inr body" and "go_wf (am_AliveIPs body)"
  shows "hasGlobalAliveIP (c_limiter (refresh_alive env c)) uid ip \<longleftrightarrow>
     wrap32 (am_Mode body) = 1 \<and> 0 < uid \<and> ip \<noteq> [] \<and>
     (\<exists>ips raw. go_load (am_AliveIPs body) uid = Some ips \<and> raw \<in> set ips \<and> ip = TrimPrefix (TrimSpace raw) ''::ffff:'')"
proof -
  let ?s = "cloneAliveSnapshot (Some body)"
  have s: "go_wf (am_AliveIPs ?s)" "am_Mode ?s = am_Mode body" "go_load (am_AliveIPs ?s) = go_load (am_AliveIPs body)"
    using assms(6) by (simp_all add: cloneAliveSnapshot_def go_load_copy)
  have "c_limiter (refresh_alive env c) = SetAliveSnapshot (sy_now env) (Some ?s) (c_limiter c)"
    using assms(2-5) by (simp add: refresh_alive_def assms(1) plane_of_def Let_def GetUserAlive_def CachedAliveSnapshot_def)
  then show ?thesis using hasGlobalAliveIP_snapshot [OF s(1), of "sy_now env" "c_limiter c" uid ip] s(2,3) by simp
qed

definition demo_answers :: sync_answers where
  "demo_answers =
     \<lparr>sa_delta = (\<lambda>_. NoResponse), sa_list = NoResponse,
      sa_alive = reply 200 (Inr \<lparr>am_Alive = [], am_AliveIPs = [(7, ['' ::ffff:1.2.3.4 ''])], am_Mode = 1\<rparr>)\<rparr>"

theorem sync_alive_follows_panel_witness:
  "hasGlobalAliveIP (c_limiter (refresh_alive
      ((demo_env demo_xray (DeltaBody None))\<lparr>sy_panel := plane_of demo_unmarshal demo_answers (newPanelControlPlane (Some (New_Client demo_conf)) (Some demo_conf))\<rparr>)
      demo_controller)) 7 ''1.2.3.4''"
proof -
  let ?p = "newPanelControlPlane (Some (New_Client demo_conf)) (Some demo_conf)"
  let ?env = "(demo_env demo_xray (DeltaBody None))\<lparr>sy_panel := plane_of demo_unmarshal demo_answers ?p\<rparr>"
  let ?body = "\<lparr>am_Alive = [], am_AliveIPs = [(7, ['' ::ffff:1.2.3.4 ''])], am_Mode = 1\<rparr> :: AliveMap"
  let ?r = "\<lparr>re_Status = 200, re_StatusText = [], re_ETag = [], re_ContentType = ''application/json'', re_Body = Inr ?body\<rparr> :: AliveMap decoded response"
  have "pp_client ?p = Some (New_Client demo_conf)" by (simp add: newPanelControlPlane_def Let_def)
  moreover have "sa_alive demo_answers = Answer ?r" by (simp add: demo_answers_def reply_def)
  moreover have "TrimPrefix (TrimSpace '' ::ffff:1.2.3.4 '') ''::ffff:'' = ''1.2.3.4''" by code_simp
  ultimately show ?thesis
    using sync_alive_follows_panel [of ?env demo_unmarshal demo_answers ?p "New_Client demo_conf" ?r ?body demo_controller 7 "''1.2.3.4''"]
    by (simp add: wrap32_def)
qed

end
