(* ===== verification/Custom_Routes.thy ===== *)
theory Custom_Routes
  imports Link_Dispatch Local_Config Core_Users
begin

text \<open>
  The configuration of the embedded Xray instance (\<open>core/custom.go\<close>, \<open>core/outbound.go\<close>, \<open>getCore\<close> of
  \<open>core/core.go\<close>): name servers, outbounds and routing rules from the local configuration and from the
  routes of the nodes. Decoding an outbound of the panel, building it and building the final DNS and
  router objects are functions of Xray and arguments; a rule is kept as the fields of its JSON object.
  The lemmas show that the rules of one node do not touch another, which outbounds the rules can
  rely on, and what happens to a connection whose outbound could not be built.
\<close>

section \<open>Name servers and outbounds\<close>

record NameServerConfig =
  ns_Address :: string
  ns_Domains :: "string list"

text \<open>The settings written here, or what the panel's text has besides protocol and tag.\<close>

datatype 'd outbound_settings = FreedomConfig string | NoSettings | PanelSettings 'd

record 'd OutboundDetourConfig =
  od_Protocol :: string
  od_Tag :: string
  od_Settings :: "'d outbound_settings"

record 'h OutboundHandlerConfig =
  oh_Tag :: string
  oh_Handler :: 'h

datatype rule_field =
    FieldDomain "string list" | FieldIP "string list" | FieldPort string | FieldProtocol "string list" | FieldNetwork string

record rule =
  ru_inboundTag :: "string option"
  ru_fields :: "rule_field list"
  ru_outboundTag :: string

text \<open>What the program takes from Xray; a failed build is \<open>None\<close>.\<close>

record ('d, 'h, 'dns, 'router) xray_conf =
  xc_Unmarshal :: "string \<Rightarrow> 'd OutboundDetourConfig option"
  xc_Build :: "'d OutboundDetourConfig \<Rightarrow> 'h OutboundHandlerConfig option"
  xc_BuildDNS :: "NameServerConfig list \<Rightarrow> string \<Rightarrow> go_error + 'dns"
  xc_BuildRouter :: "rule list \<Rightarrow> go_error + 'router"
  xc_ParseAddress :: "string \<Rightarrow> string"

definition configuredDNSServers :: "Conf option \<Rightarrow> string list" where
  "configuredDNSServers cfg =
     (case cfg of
        None \<Rightarrow> [''1.1.1.1'', ''8.8.8.8'']
      | Some c \<Rightarrow>
          let servers = filter (\<lambda>s. s \<noteq> []) (map TrimSpace (dc_Servers (cf_DNSConfig c)))
          in if servers \<noteq> [] then servers else [''1.1.1.1'', ''8.8.8.8''])"

definition configuredIPStrategy :: "Conf option \<Rightarrow> string" where
  "configuredIPStrategy cfg =
     (case cfg of
        None \<Rightarrow> ''UseIPv4''
      | Some c \<Rightarrow>
          let strategy = TrimSpace (dc_QueryStrategy (cf_DNSConfig c))
          in if strategy \<in> {''AsIs'', ''UseIP'', ''UseIPv4'', ''UseIPv6'', ''UseIPv4v6'', ''UseIPv6v4''} then strategy else ''UseIPv4'')"

definition hasOutboundWithTag :: "'h OutboundHandlerConfig option list \<Rightarrow> string \<Rightarrow> bool" where
  "hasOutboundWithTag outs tag \<longleftrightarrow> list_ex (\<lambda>x. case x of None \<Rightarrow> False | Some h \<Rightarrow> oh_Tag h = tag) outs"

definition buildDefaultOutbound :: "('d, 'h, 'dns, 'router) xray_conf \<Rightarrow> string \<Rightarrow> 'h OutboundHandlerConfig option" where
  "buildDefaultOutbound xc domainStrategy =
     xc_Build xc \<lparr>od_Protocol = ''freedom'', od_Tag = ''Default'',
                  od_Settings = FreedomConfig (if domainStrategy = [] then ''UseIPv4v6'' else domainStrategy)\<rparr>"

definition buildBlockOutbound :: "('d, 'h, 'dns, 'router) xray_conf \<Rightarrow> 'h OutboundHandlerConfig option" where
  "buildBlockOutbound xc = xc_Build xc \<lparr>od_Protocol = ''blackhole'', od_Tag = ''block'', od_Settings = NoSettings\<rparr>"

definition buildDnsOutbound :: "('d, 'h, 'dns, 'router) xray_conf \<Rightarrow> 'h OutboundHandlerConfig option" where
  "buildDnsOutbound xc = xc_Build xc \<lparr>od_Protocol = ''dns'', od_Tag = ''dns_out'', od_Settings = NoSettings\<rparr>"

text \<open>The addresses of the interfaces as \<open>hasPublicIPv6\<close> looks at them; \<open>None\<close> when they cannot be listed.\<close>

record iface_addr =
  ia_IsIPNet :: bool
  ia_To4 :: bool
  ia_Loopback :: bool
  ia_LinkLocal :: bool
  ia_Private :: bool

definition hasPublicIPv6 :: "iface_addr list option \<Rightarrow> bool" where
  "hasPublicIPv6 addrs =
     (case addrs of
        None \<Rightarrow> False
      | Some xs \<Rightarrow> list_ex (\<lambda>a. ia_IsIPNet a \<and> \<not> ia_To4 a \<and> \<not> ia_Loopback a \<and> \<not> ia_LinkLocal a \<and> \<not> ia_Private a) xs)"

section \<open>Routing rules\<close>

definition dnsRule :: rule where
  "dnsRule = \<lparr>ru_inboundTag = None, ru_fields = [FieldPort ''53'', FieldNetwork ''udp''], ru_outboundTag = ''dns_out''\<rparr>"

record 'h custom_state =
  cu_Servers :: "NameServerConfig list"
  cu_Rules :: "rule list"
  cu_Outbounds :: "'h OutboundHandlerConfig option list"

definition append_rule :: "string \<Rightarrow> rule_field \<Rightarrow> string \<Rightarrow> 'h custom_state \<Rightarrow> 'h custom_state" where
  "append_rule inTag field outTag s =
     s\<lparr>cu_Rules := cu_Rules s @ [\<lparr>ru_inboundTag = Some inTag, ru_fields = [field], ru_outboundTag = outTag\<rparr>]\<rparr>"

text \<open>
  The actions \<open>route\<close>, \<open>route_ip\<close> and \<open>default_out\<close>: the rule comes first, then the outbound unless its
  tag is taken or its build fails.
\<close>

definition route_to ::
  "('d, 'h, 'dns, 'router) xray_conf \<Rightarrow> string \<Rightarrow> rule_field \<Rightarrow> string option \<Rightarrow> 'h custom_state \<Rightarrow> 'h custom_state" where
  "route_to xc inTag field actionValue s =
     (case actionValue of
        None \<Rightarrow> s
      | Some v \<Rightarrow>
          (case xc_Unmarshal xc v of
             None \<Rightarrow> s
           | Some out \<Rightarrow>
               let s1 = append_rule inTag field (od_Tag out) s
               in if hasOutboundWithTag (cu_Outbounds s1) (od_Tag out) then s1
                  else (case xc_Build xc out of
                          None \<Rightarrow> s1
                        | Some h \<Rightarrow> s1\<lparr>cu_Outbounds := cu_Outbounds s1 @ [Some h]\<rparr>)))"

definition apply_route :: "('d, 'h, 'dns, 'router) xray_conf \<Rightarrow> string \<Rightarrow> Route \<Rightarrow> 'h custom_state \<Rightarrow> 'h custom_state" where
  "apply_route xc inTag route s =
     (if rt_Action route = ''dns'' then
        (case rt_ActionValue route of
           None \<Rightarrow> s
         | Some v \<Rightarrow> s\<lparr>cu_Servers := cu_Servers s @ [\<lparr>ns_Address = xc_ParseAddress xc v, ns_Domains = rt_Match route\<rparr>]\<rparr>)
      else if rt_Action route = ''block'' then append_rule inTag (FieldDomain (rt_Match route)) ''block'' s
      else if rt_Action route = ''block_ip'' then append_rule inTag (FieldIP (rt_Match route)) ''block'' s
      else if rt_Action route = ''block_port'' then append_rule inTag (FieldPort (Join (rt_Match route) '','')) ''block'' s
      else if rt_Action route = ''protocol'' then append_rule inTag (FieldProtocol (rt_Match route)) ''block'' s
      else if rt_Action route = ''route'' then route_to xc inTag (FieldDomain (rt_Match route)) (rt_ActionValue route) s
      else if rt_Action route = ''route_ip'' then route_to xc inTag (FieldIP (rt_Match route)) (rt_ActionValue route) s
      else if rt_Action route = ''default_out'' then route_to xc inTag (FieldNetwork ''tcp,udp'') (rt_ActionValue route) s
      else s)"

text \<open>The loop over the nodes; \<open>None\<close> is the panic on a node without a description.\<close>

fun apply_nodes :: "('d, 'h, 'dns, 'router) xray_conf \<Rightarrow> NodeInfo list \<Rightarrow> 'h custom_state \<Rightarrow> 'h custom_state option" where
  "apply_nodes xc [] s = Some s"
| "apply_nodes xc (info # infos) s =
     (case ni_Common info of
        None \<Rightarrow> None
      | Some common \<Rightarrow> apply_nodes xc infos (fold (apply_route xc (ni_Tag info)) (cm_Routes common) s))"

definition first_custom :: "('d, 'h, 'dns, 'router) xray_conf \<Rightarrow> Conf option \<Rightarrow> 'h custom_state" where
  "first_custom xc cfg =
     \<lparr>cu_Servers = map (\<lambda>server. \<lparr>ns_Address = xc_ParseAddress xc server, ns_Domains = []\<rparr>) (configuredDNSServers cfg),
      cu_Rules = [dnsRule],
      cu_Outbounds = [buildDefaultOutbound xc (configuredIPStrategy cfg), buildBlockOutbound xc, buildDnsOutbound xc]\<rparr>"

definition GetCustomConfig ::
  "('d, 'h, 'dns, 'router) xray_conf \<Rightarrow> Conf option \<Rightarrow> NodeInfo list \<Rightarrow>
   (go_error + 'dns \<times> 'h OutboundHandlerConfig option list \<times> 'router) option" where
  "GetCustomConfig xc cfg infos =
     (case apply_nodes xc infos (first_custom xc cfg) of
        None \<Rightarrow> None
      | Some s \<Rightarrow>
          Some (case xc_BuildDNS xc (cu_Servers s) (configuredIPStrategy cfg) of
                  Inl e \<Rightarrow> Inl e
                | Inr dns \<Rightarrow>
                    (case xc_BuildRouter xc (cu_Rules s) of
                       Inl e \<Rightarrow> Inl e
                     | Inr router \<Rightarrow> Inr (dns, cu_Outbounds s, router))))"

section \<open>The instance\<close>

record Policy =
  po_StatsUserUplink :: bool
  po_StatsUserDownlink :: bool
  po_Handshake :: nat
  po_ConnectionIdle :: nat
  po_UplinkOnly :: nat
  po_DownlinkOnly :: nat
  po_BufferSize :: int

record ('h, 'dns, 'router) core_config =
  cc_LogLevel :: string
  cc_AccessLog :: string
  cc_ErrorLog :: string
  cc_Policy :: Policy
  cc_DNS :: 'dns
  cc_Router :: 'router
  cc_Outbound :: "'h OutboundHandlerConfig option list"

text \<open>The configuration handed to Xray; \<open>None\<close> is a panic. No inbound is part of it: nodes add theirs later.\<close>

definition getCore ::
  "('d, 'h, 'dns, 'router) xray_conf \<Rightarrow> Conf \<Rightarrow> NodeInfo list \<Rightarrow> ('h, 'dns, 'router) core_config option" where
  "getCore xc c infos =
     (case GetCustomConfig xc (Some c) infos of
        None \<Rightarrow> None
      | Some (Inl e) \<Rightarrow> None
      | Some (Inr (dns, outs, router)) \<Rightarrow>
          Some \<lparr>cc_LogLevel = (if lc_CoreLevel (cf_LogConfig c) \<noteq> [] then lc_CoreLevel (cf_LogConfig c) else lc_Level (cf_LogConfig c)),
                cc_AccessLog = lc_Access (cf_LogConfig c), cc_ErrorLog = lc_Output (cf_LogConfig c),
                cc_Policy = \<lparr>po_StatsUserUplink = True, po_StatsUserDownlink = True, po_Handshake = 4, po_ConnectionIdle = 120,
                             po_UplinkOnly = 2, po_DownlinkOnly = 4, po_BufferSize = 128\<rparr>,
                cc_DNS = dns, cc_Router = router, cc_Outbound = outs\<rparr>)"

section \<open>Lemmas\<close>

text \<open>The rules a route contributes do not depend on what was there before.\<close>

definition route_rules :: "('d, 'h, 'dns, 'router) xray_conf \<Rightarrow> string \<Rightarrow> Route \<Rightarrow> rule list" where
  "route_rules xc inTag route = cu_Rules (apply_route xc inTag route \<lparr>cu_Servers = [], cu_Rules = [], cu_Outbounds = []\<rparr>)"

definition node_rules :: "('d, 'h, 'dns, 'router) xray_conf \<Rightarrow> NodeInfo \<Rightarrow> rule list" where
  "node_rules xc info = (case ni_Common info of None \<Rightarrow> [] | Some common \<Rightarrow> concat (map (route_rules xc (ni_Tag info)) (cm_Routes common)))"

lemma append_rule_simps [simp]:
  "cu_Rules (append_rule inTag f out s) = cu_Rules s @ [\<lparr>ru_inboundTag = Some inTag, ru_fields = [f], ru_outboundTag = out\<rparr>]"
  "cu_Outbounds (append_rule inTag f out s) = cu_Outbounds s"
  by (simp_all add: append_rule_def)

lemma route_to_rules:
  "cu_Rules (route_to xc inTag f v s) =
   cu_Rules s @ (case Option.bind v (xc_Unmarshal xc) of None \<Rightarrow> [] | Some out \<Rightarrow> [\<lparr>ru_inboundTag = Some inTag, ru_fields = [f], ru_outboundTag = od_Tag out\<rparr>])"
  by (simp add: route_to_def Let_def split: option.splits)

lemma apply_route_rules: "cu_Rules (apply_route xc inTag route s) = cu_Rules s @ route_rules xc inTag route"
  by (simp add: apply_route_def route_rules_def route_to_rules split: option.splits)

lemma fold_route_rules: "cu_Rules (fold (apply_route xc inTag) routes s) = cu_Rules s @ concat (map (route_rules xc inTag) routes)"
  by (induction routes arbitrary: s) (simp_all add: apply_route_rules)

lemma apply_nodes_rules: "apply_nodes xc infos s = Some s' \<Longrightarrow> cu_Rules s' = cu_Rules s @ concat (map (node_rules xc) infos)"
  by (induction infos arbitrary: s) (auto simp: fold_route_rules node_rules_def split: option.splits)

lemma route_rules_tag: "r \<in> set (route_rules xc inTag route) \<Longrightarrow> ru_inboundTag r = Some inTag"
  by (auto simp: route_rules_def apply_route_def route_to_rules split: if_splits option.splits)

lemma node_rules_tag: "r \<in> set (node_rules xc info) \<Longrightarrow> ru_inboundTag r = Some (ni_Tag info)"
  by (auto simp: node_rules_def dest: route_rules_tag split: option.splits)

lemma node_rules_own: "filter (\<lambda>r. ru_inboundTag r = None \<or> ru_inboundTag r = Some (ni_Tag info)) (node_rules xc info) = node_rules xc info"
  by (rule filter_True) (simp add: node_rules_tag)

text \<open>The router of Xray takes the first rule whose conditions all hold.\<close>

definition for_inbound :: "string \<Rightarrow> rule \<Rightarrow> bool" where
  "for_inbound inTag r \<longleftrightarrow> ru_inboundTag r = None \<or> ru_inboundTag r = Some inTag"

definition pick_rule :: "(rule_field \<Rightarrow> 'c \<Rightarrow> bool) \<Rightarrow> rule list \<Rightarrow> string \<Rightarrow> 'c \<Rightarrow> string option" where
  "pick_rule holds rules inTag conn =
     map_option ru_outboundTag (find (\<lambda>r. for_inbound inTag r \<and> list_all (\<lambda>f. holds f conn) (ru_fields r)) rules)"

lemma pick_rule_filter: "pick_rule holds (filter (for_inbound inTag) rules) inTag conn = pick_rule holds rules inTag conn"
  by (induction rules) (auto simp: pick_rule_def)

lemma filter_other_nodes:
  "info \<in> set infos \<Longrightarrow> distinct (map ni_Tag infos) \<Longrightarrow>
   filter (for_inbound (ni_Tag info)) (concat (map (node_rules xc) infos)) = node_rules xc info"
proof (induction infos)
  case (Cons i infos)
  have own: "filter (for_inbound (ni_Tag i)) (node_rules xc i) = node_rules xc i"
    using node_rules_own by (simp add: for_inbound_def [abs_def])
  have other: "filter (for_inbound t) (concat (map (node_rules xc) is)) = []" if "t \<notin> ni_Tag ` set is" for t "is"
    using that by (induction "is") (auto simp: for_inbound_def filter_empty_conv dest!: node_rules_tag)
  show ?case
  proof (cases "info = i")
    case True
    then show ?thesis using own other [of "ni_Tag i" infos] Cons.prems(2) by simp
  next
    case False
    then have "info \<in> set infos" and ne: "ni_Tag info \<noteq> ni_Tag i" using Cons.prems by (auto, metis imageI)
    then show ?thesis using Cons other [of "ni_Tag info" "[i]"] by simp
  qed
qed simp

lemma pick_own:
  assumes "apply_nodes xc infos (first_custom xc cfg) = Some s" and "info \<in> set infos" and "distinct (map ni_Tag infos)"
  shows "pick_rule holds (cu_Rules s) (ni_Tag info) conn = pick_rule holds (dnsRule # node_rules xc info) (ni_Tag info) conn"
proof -
  have "cu_Rules s = dnsRule # concat (map (node_rules xc) infos)" using apply_nodes_rules [OF assms(1)] by (simp add: first_custom_def)
  then have "filter (for_inbound (ni_Tag info)) (cu_Rules s) = filter (for_inbound (ni_Tag info)) (dnsRule # node_rules xc info)"
    using filter_other_nodes [OF assms(2,3), of xc] node_rules_own [of info xc] by (simp add: for_inbound_def [abs_def])
  then show ?thesis by (metis pick_rule_filter)
qed

section \<open>Outbounds\<close>

text \<open>The tags of the outbounds; building keeps the tag, as Xray documents it.\<close>

definition out_tags :: "'h OutboundHandlerConfig option list \<Rightarrow> string list" where
  "out_tags outs = map oh_Tag (List.map_filter id outs)"

definition keeps_tag :: "('d, 'h, 'dns, 'router) xray_conf \<Rightarrow> bool" where
  "keeps_tag xc \<longleftrightarrow> (\<forall>out h. xc_Build xc out = Some h \<longrightarrow> oh_Tag h = od_Tag out)"

lemma hasOutbound_tags: "hasOutboundWithTag outs tag \<longleftrightarrow> tag \<in> set (out_tags outs)"
  by (induction outs) (auto simp: hasOutboundWithTag_def out_tags_def split: option.splits)

lemma out_tags_append [simp]: "out_tags (xs @ ys) = out_tags xs @ out_tags ys"
  by (simp add: out_tags_def map_filter_def)

lemma out_tags_simps [simp]: "out_tags [] = []" "out_tags (Some h # outs) = oh_Tag h # out_tags outs" "out_tags (None # outs) = out_tags outs"
  by (simp_all add: out_tags_def)

text \<open>
  The outbounds after a prefix of the work: distinct tags, the three of the program among them, and
  each tag one that a decoded outbound built under.
\<close>

definition outs_ok :: "('d, 'h, 'dns, 'router) xray_conf \<Rightarrow> 'h custom_state \<Rightarrow> bool" where
  "outs_ok xc s \<longleftrightarrow>
     distinct (out_tags (cu_Outbounds s)) \<and>
     (\<forall>t \<in> set (out_tags (cu_Outbounds s)) - {''Default'', ''block'', ''dns_out''}.
        \<exists>v out. xc_Unmarshal xc v = Some out \<and> od_Tag out = t \<and> xc_Build xc out \<noteq> None)"

lemma outs_okD:
  "outs_ok xc s \<Longrightarrow> t \<in> set (out_tags (cu_Outbounds s)) \<Longrightarrow> t \<notin> {''Default'', ''block'', ''dns_out''} \<Longrightarrow>
   \<exists>v out. xc_Unmarshal xc v = Some out \<and> od_Tag out = t \<and> xc_Build xc out \<noteq> None"
  unfolding outs_ok_def by (elim conjE, drule_tac x = t in bspec) simp_all

lemma route_to_ok:
  assumes "keeps_tag xc" and "outs_ok xc s"
  shows "outs_ok xc (route_to xc inTag f v s)"
  using assms by (auto simp: outs_ok_def route_to_def Let_def hasOutbound_tags keeps_tag_def split: option.splits)

lemma apply_route_ok: "keeps_tag xc \<Longrightarrow> outs_ok xc s \<Longrightarrow> outs_ok xc (apply_route xc inTag route s)"
  using route_to_ok [of xc s] by (auto simp: apply_route_def outs_ok_def split: option.splits)

lemma fold_route_ok: "keeps_tag xc \<Longrightarrow> outs_ok xc s \<Longrightarrow> outs_ok xc (fold (apply_route xc inTag) routes s)"
  by (induction routes arbitrary: s) (auto intro: apply_route_ok)

lemma apply_nodes_ok: "keeps_tag xc \<Longrightarrow> outs_ok xc s \<Longrightarrow> apply_nodes xc infos s = Some s' \<Longrightarrow> outs_ok xc s'"
  by (induction infos arbitrary: s) (auto split: option.splits intro: fold_route_ok)

lemma first_custom_ok: "keeps_tag xc \<Longrightarrow> outs_ok xc (first_custom xc cfg)"
  by (cases "buildDefaultOutbound xc (configuredIPStrategy cfg)"; cases "buildBlockOutbound xc"; cases "buildDnsOutbound xc")
    (auto simp: outs_ok_def first_custom_def buildDefaultOutbound_def buildBlockOutbound_def buildDnsOutbound_def keeps_tag_def)

text \<open>When every outbound can be built, every rule finds its outbound.\<close>

definition all_build :: "('d, 'h, 'dns, 'router) xray_conf \<Rightarrow> bool" where
  "all_build xc \<longleftrightarrow> (\<forall>out. xc_Build xc out \<noteq> None)"

lemma all_buildD: "all_build xc \<Longrightarrow> xc_Build xc out = None \<longleftrightarrow> False"
  by (simp add: all_build_def)

definition resolved :: "'h custom_state \<Rightarrow> bool" where
  "resolved s \<longleftrightarrow> {''block'', ''dns_out''} \<union> ru_outboundTag ` set (cu_Rules s) \<subseteq> set (out_tags (cu_Outbounds s))"

lemma route_to_resolved:
  assumes "keeps_tag xc" "all_build xc" "resolved s"
  shows "resolved (route_to xc inTag f v s)"
  using assms by (auto simp: resolved_def route_to_def Let_def hasOutbound_tags keeps_tag_def all_buildD split: option.splits)

lemma apply_route_resolved: "keeps_tag xc \<Longrightarrow> all_build xc \<Longrightarrow> resolved s \<Longrightarrow> resolved (apply_route xc inTag route s)"
  using route_to_resolved [of xc s] by (auto simp: apply_route_def resolved_def split: option.splits)

lemma fold_route_resolved: "keeps_tag xc \<Longrightarrow> all_build xc \<Longrightarrow> resolved s \<Longrightarrow> resolved (fold (apply_route xc inTag) routes s)"
  by (induction routes arbitrary: s) (auto intro: apply_route_resolved)

lemma apply_nodes_resolved: "keeps_tag xc \<Longrightarrow> all_build xc \<Longrightarrow> resolved s \<Longrightarrow> apply_nodes xc infos s = Some s' \<Longrightarrow> resolved s'"
  by (induction infos arbitrary: s) (auto split: option.splits intro: fold_route_resolved)

lemma first_custom_resolved: "keeps_tag xc \<Longrightarrow> all_build xc \<Longrightarrow> resolved (first_custom xc cfg)"
  by (cases "buildDefaultOutbound xc (configuredIPStrategy cfg)"; cases "buildBlockOutbound xc"; cases "buildDnsOutbound xc")
    (auto simp: resolved_def first_custom_def buildDefaultOutbound_def buildBlockOutbound_def buildDnsOutbound_def keeps_tag_def all_buildD dnsRule_def)

section \<open>Connections\<close>

text \<open>
  The dispatcher of a running instance: its router picks the first rule that applies to the connection,
  a handler is found exactly under the tag of an outbound, and the first outbound is the default.
\<close>

definition running_with ::
  "(rule_field \<Rightarrow> outbound_session \<Rightarrow> bool) \<Rightarrow> rule list \<Rightarrow> 'h OutboundHandlerConfig option list \<Rightarrow> 'g dispatch_env \<Rightarrow> bool" where
  "running_with holds rules outs env \<longleftrightarrow>
     de_router env = Some (pick_rule holds rules (de_inTag env)) \<and> de_GetDefaultHandler env \<noteq> None \<and>
     (\<forall>tag. de_GetHandler env tag \<noteq> None \<longleftrightarrow> hasOutboundWithTag outs tag)"

lemma GetCustomConfig_state:
  assumes "GetCustomConfig xc cfg infos = Some (Inr (dns, outs, router))"
  obtains s where "apply_nodes xc infos (first_custom xc cfg) = Some s" "outs = cu_Outbounds s" "xc_BuildRouter xc (cu_Rules s) = Inr router"
  using assms by (auto simp: GetCustomConfig_def split: option.splits sum.splits)

lemma pick_in_rules: "pick_rule holds rules inTag conn = Some tag \<Longrightarrow> tag \<in> ru_outboundTag ` set rules"
  by (auto simp: pick_rule_def find_Some_iff)

lemma pick_own_default:
  assumes "\<not> (holds (FieldPort ''53'') conn \<and> holds (FieldNetwork ''udp'') conn)" and "holds (FieldNetwork ''tcp,udp'') conn"
    and "ni_Common info = Some common" and "cm_Routes common = [r]" and "rt_Action r = ''default_out''"
    and "Option.bind (rt_ActionValue r) (xc_Unmarshal xc) = Some out"
  shows "pick_rule holds (dnsRule # node_rules xc info) (ni_Tag info) conn = Some (od_Tag out)"
  using assms by (auto simp: pick_rule_def dnsRule_def node_rules_def route_rules_def apply_route_def route_to_rules for_inbound_def)

section \<open>A small configuration\<close>

text \<open>Two nodes: one sends everything out through an outbound of its own, one blocks a domain.\<close>

definition demo_routed :: "string \<Rightarrow> Route list \<Rightarrow> NodeInfo" where
  "demo_routed tag routes =
     \<lparr>ni_Id = 1, ni_Type = ''vless'', ni_Security = 0, ni_PushInterval = 60, ni_PullInterval = 60, ni_Tag = tag,
      ni_Common = Some (zero_CommonNode\<lparr>cm_Routes := routes\<rparr>)\<rparr>"

definition demo_out :: Route where
  "demo_out = \<lparr>rt_Id = 1, rt_Match = [], rt_Action = ''default_out'', rt_ActionValue = Some ''px''\<rparr>"

definition demo_block :: Route where
  "demo_block = \<lparr>rt_Id = 2, rt_Match = [''a.com''], rt_Action = ''block'', rt_ActionValue = None\<rparr>"

definition demo_infos :: "NodeInfo list" where
  "demo_infos = [demo_routed ''A'' [demo_out], demo_routed ''B'' [demo_block]]"

text \<open>The text of an outbound is its tag; the tags in \<open>bad\<close> cannot be built.\<close>

definition demo_xc :: "string list \<Rightarrow> (unit, unit, unit, rule list) xray_conf" where
  "demo_xc bad =
     \<lparr>xc_Unmarshal = (\<lambda>v. Some \<lparr>od_Protocol = ''socks'', od_Tag = v, od_Settings = PanelSettings ()\<rparr>),
      xc_Build = (\<lambda>out. if od_Tag out \<in> set bad then None else Some \<lparr>oh_Tag = od_Tag out, oh_Handler = ()\<rparr>),
      xc_BuildDNS = (\<lambda>_ _. Inr ()), xc_BuildRouter = Inr, xc_ParseAddress = id\<rparr>"

definition demo_holds :: "rule_field \<Rightarrow> outbound_session \<Rightarrow> bool" where
  "demo_holds f ob = (case f of FieldNetwork n \<Rightarrow> n = ''tcp,udp'' | FieldDomain ds \<Rightarrow> dn_Address (ob_Target ob) \<in> set ds | _ \<Rightarrow> False)"

definition demo_dispatch :: "rule list \<Rightarrow> unit OutboundHandlerConfig option list \<Rightarrow> string \<Rightarrow> string dispatch_env" where
  "demo_dispatch rules outs inTag =
     \<lparr>de_cap = 0, de_sniffers = [], de_rounds = [], de_regexp = (\<lambda>_ _. None), de_in_pool = (\<lambda>_. None), de_is_ip = (\<lambda>_. False),
      de_ParseAddress = id, de_GetHandler = (\<lambda>tag. if hasOutboundWithTag outs tag then Some tag else None),
      de_GetDefaultHandler = Some ''Default'', de_handler_Tag = id, de_router = Some (pick_rule demo_holds rules inTag),
      de_forcedOutboundTag = [], de_inTag = inTag\<rparr>"

definition demo_target :: outbound_session where
  "demo_target =
     (let d = \<lparr>dn_Address = ''a.com'', dn_Network = Network_TCP, dn_Valid = True\<rparr>
      in \<lparr>ob_OriginalTarget = d, ob_Target = d, ob_RouteTarget = None, ob_Tag = []\<rparr>)"

lemma demo_xc_facts [simp]:
  "keeps_tag (demo_xc bad)" "all_build (demo_xc [])" "xc_BuildRouter (demo_xc bad) rs = Inr rs"
  by (simp_all add: demo_xc_def keeps_tag_def all_build_def)

lemma demo_custom: "\<exists>outs rules. GetCustomConfig (demo_xc bad) None demo_infos = Some (Inr ((), outs, rules))"
  by (simp add: GetCustomConfig_def demo_infos_def demo_routed_def demo_xc_def)

lemma demo_running: "running_with demo_holds rules outs (demo_dispatch rules outs inTag)"
  by (simp add: running_with_def demo_dispatch_def)

section \<open>Properties\<close>

text \<open>
  C30. The routes of one node do not touch another: whatever routes the panel gives to the nodes, a
  connection that came in on a node is sent where the rule for DNS and the rules of this node alone,
  in their order, send it. With no matching rule there, no rule of another node applies.
\<close>

theorem node_routes_isolated:
  assumes "GetCustomConfig xc cfg infos = Some (Inr (dns, outs, rules))" and "\<forall>rs. xc_BuildRouter xc rs = Inr rs"
    and "info \<in> set infos" and "distinct (map ni_Tag infos)"
  shows "pick_rule holds rules (ni_Tag info) conn = pick_rule holds (dnsRule # node_rules xc info) (ni_Tag info) conn"
proof -
  obtain s where s: "apply_nodes xc infos (first_custom xc cfg) = Some s" "xc_BuildRouter xc (cu_Rules s) = Inr rules"
    using assms(1) by (rule GetCustomConfig_state)
  then have "rules = cu_Rules s" using assms(2) by simp
  then show ?thesis using pick_own [OF s(1) assms(3,4)] by simp
qed

theorem node_routes_isolated_witness:
  "\<exists>outs rules. GetCustomConfig (demo_xc []) None demo_infos = Some (Inr ((), outs, rules)) \<and>
     pick_rule demo_holds rules ''B'' demo_target = Some ''block''"
proof -
  obtain outs rules where g: "GetCustomConfig (demo_xc []) None demo_infos = Some (Inr ((), outs, rules))" using demo_custom by blast
  have "demo_routed ''B'' [demo_block] \<in> set demo_infos" "distinct (map ni_Tag demo_infos)" by (simp_all add: demo_infos_def demo_routed_def)
  from node_routes_isolated [OF g _ this, of demo_holds demo_target]
  have "pick_rule demo_holds rules ''B'' demo_target = pick_rule demo_holds (dnsRule # node_rules (demo_xc []) (demo_routed ''B'' [demo_block])) ''B'' demo_target"
    by (simp add: demo_routed_def)
  also have "\<dots> = Some ''block''" by code_simp
  finally show ?thesis using g by blast
qed

text \<open>
  When Xray can build every outbound, no connection is dropped for want of one: the tags of the
  outbounds differ, every rule names the tag of an outbound, and the dispatcher sends each connection
  without a forced outbound to a handler.
\<close>

theorem built_outbounds_serve_all:
  assumes "GetCustomConfig xc cfg infos = Some (Inr (dns, outs, rules))" and "\<forall>rs. xc_BuildRouter xc rs = Inr rs"
    and "keeps_tag xc" and "all_build xc" and "running_with holds rules outs env" and "de_forcedOutboundTag env = []"
  shows "distinct (out_tags outs) \<and> ru_outboundTag ` set rules \<subseteq> set (out_tags outs) \<and> fst (routedDispatch env ob) \<noteq> Dropped"
proof -
  obtain s where s: "apply_nodes xc infos (first_custom xc cfg) = Some s" "outs = cu_Outbounds s" "xc_BuildRouter xc (cu_Rules s) = Inr rules"
    using assms(1) by (rule GetCustomConfig_state)
  have r: "rules = cu_Rules s" using s(3) assms(2) by simp
  have d: "distinct (out_tags outs)"
    using apply_nodes_ok [OF assms(3) first_custom_ok [OF assms(3)] s(1)] by (simp add: s(2) outs_ok_def)
  have sub: "ru_outboundTag ` set rules \<subseteq> set (out_tags outs)"
    using apply_nodes_resolved [OF assms(3,4) first_custom_resolved [OF assms(3,4)] s(1)] by (simp add: s(2) r resolved_def)
  have found: "de_GetHandler env tag \<noteq> None" if "pick_rule holds rules (de_inTag env) ob = Some tag" for tag
    using pick_in_rules [OF that] sub assms(5) by (auto simp: running_with_def hasOutbound_tags)
  have "de_router env = Some (pick_rule holds rules (de_inTag env))" "de_GetDefaultHandler env \<noteq> None"
    using assms(5) by (simp_all add: running_with_def)
  then have "fst (routedDispatch env ob) \<noteq> Dropped"
    using found assms(6) by (auto simp: routedDispatch_def pick_handler_def split: option.splits)
  with d sub show ?thesis by blast
qed

theorem built_outbounds_serve_all_witness:
  "\<exists>outs rules. GetCustomConfig (demo_xc []) None demo_infos = Some (Inr ((), outs, rules)) \<and> distinct (out_tags outs) \<and>
     fst (routedDispatch (demo_dispatch rules outs ''A'') demo_target) \<noteq> Dropped"
proof -
  obtain outs rules where g: "GetCustomConfig (demo_xc []) None demo_infos = Some (Inr ((), outs, rules))" using demo_custom by blast
  have "de_forcedOutboundTag (demo_dispatch rules outs ''A'') = []" by (simp add: demo_dispatch_def)
  from built_outbounds_serve_all [OF g _ _ _ demo_running this] g show ?thesis by simp
qed

text \<open>
  A default outbound that cannot be built cuts the node off: its rule is added before the build is
  tried and stays when the build fails, so that every connection of the node other than DNS is routed
  to a tag without a handler and dropped, where without the route it would leave through the default
  outbound.
\<close>

theorem unbuildable_outbound_drops:
  assumes "GetCustomConfig xc cfg infos = Some (Inr (dns, outs, rules))" and "\<forall>rs. xc_BuildRouter xc rs = Inr rs" and "keeps_tag xc"
    and "info \<in> set infos" and "distinct (map ni_Tag infos)"
    and "ni_Common info = Some common" and "cm_Routes common = [r]" and "rt_Action r = ''default_out''"
    and "Option.bind (rt_ActionValue r) (xc_Unmarshal xc) = Some out" and "od_Tag out \<notin> {''Default'', ''block'', ''dns_out''}"
    and "\<forall>v o'. xc_Unmarshal xc v = Some o' \<and> od_Tag o' = od_Tag out \<longrightarrow> xc_Build xc o' = None"
    and "running_with holds rules outs env" and "de_inTag env = ni_Tag info" and "de_forcedOutboundTag env = []"
    and "holds (FieldNetwork ''tcp,udp'') ob" and "\<not> (holds (FieldPort ''53'') ob \<and> holds (FieldNetwork ''udp'') ob)"
  shows "routedDispatch env ob = (Dropped, ob)"
proof -
  obtain s where s: "apply_nodes xc infos (first_custom xc cfg) = Some s" "outs = cu_Outbounds s" "xc_BuildRouter xc (cu_Rules s) = Inr rules"
    using assms(1) by (rule GetCustomConfig_state)
  have "rules = cu_Rules s" using s(3) assms(2) by simp
  then have p: "pick_rule holds rules (ni_Tag info) ob = Some (od_Tag out)"
    using pick_own [OF s(1) assms(4,5), of holds ob] pick_own_default [where holds = holds and conn = ob, OF assms(16,15,6-9)] by simp
  have "od_Tag out \<notin> set (out_tags outs)"
    using outs_okD [OF apply_nodes_ok [OF assms(3) first_custom_ok [OF assms(3)] s(1)] _ assms(10)] assms(11) unfolding s(2) by metis
  then have "de_GetHandler env (od_Tag out) = None" "de_router env = Some (pick_rule holds rules (de_inTag env))"
    using assms(12) by (auto simp: running_with_def hasOutbound_tags)
  then show ?thesis using p assms(13,14) by (simp add: routedDispatch_def pick_handler_def)
qed

theorem unbuildable_outbound_drops_witness:
  "\<exists>outs rules. GetCustomConfig (demo_xc [''px'']) None demo_infos = Some (Inr ((), outs, rules)) \<and>
     routedDispatch (demo_dispatch rules outs ''A'') demo_target = (Dropped, demo_target)"
proof -
  obtain outs rules where g: "GetCustomConfig (demo_xc [''px'']) None demo_infos = Some (Inr ((), outs, rules))" using demo_custom by blast
  have i: "demo_routed ''A'' [demo_out] \<in> set demo_infos" "distinct (map ni_Tag demo_infos)" by (simp_all add: demo_infos_def demo_routed_def)
  have n: "ni_Common (demo_routed ''A'' [demo_out]) = Some (zero_CommonNode\<lparr>cm_Routes := [demo_out]\<rparr>)"
    "cm_Routes (zero_CommonNode\<lparr>cm_Routes := [demo_out]\<rparr>) = [demo_out]" "rt_Action demo_out = ''default_out''"
    by (simp_all add: demo_routed_def demo_out_def)
  have u: "Option.bind (rt_ActionValue demo_out) (xc_Unmarshal (demo_xc [''px''])) = Some \<lparr>od_Protocol = ''socks'', od_Tag = ''px'', od_Settings = PanelSettings ()\<rparr>"
    by (simp add: demo_out_def demo_xc_def)
  have b: "\<forall>v o'. xc_Unmarshal (demo_xc [''px'']) v = Some o' \<and> od_Tag o' = ''px'' \<longrightarrow> xc_Build (demo_xc [''px'']) o' = None"
    by (simp add: demo_xc_def)
  have e: "de_inTag (demo_dispatch rules outs ''A'') = ''A''" "de_forcedOutboundTag (demo_dispatch rules outs ''A'') = []"
    by (simp_all add: demo_dispatch_def)
  have h: "demo_holds (FieldNetwork ''tcp,udp'') demo_target" "\<not> demo_holds (FieldPort ''53'') demo_target" by (simp_all add: demo_holds_def)
  have tag: "ni_Tag (demo_routed ''A'' [demo_out]) = ''A''" by (simp add: demo_routed_def)
  have "routedDispatch (demo_dispatch rules outs ''A'') demo_target = (Dropped, demo_target)"
    by (rule unbuildable_outbound_drops [OF g _ _ i n u _ _ demo_running]) (use b e h tag in simp_all)
  then show ?thesis using g by blast
qed

end
