(* ===== verification/Sub_Proxy.thy ===== *)
theory Sub_Proxy
  imports Realtime
begin

text \<open>
  The subscription proxy (\<open>agent/subproxy/manager.go\<close>), first part: escaping of addresses, the settings and
  their normalisation, the requests it answers and forwards, the challenge files, the certificate
  files and the detection of the public address. The URL parser, the HTTP client, PEM and X.509 are
  arguments; a directory tree is the map from file names to contents. The life of its servers is in
  \<open>Sub_Proxy_Manager\<close>.
\<close>

section \<open>Escaping\<close>

datatype encoding = encodePath | encodePathSegment

definition unreserved :: "char \<Rightarrow> bool" where
  "unreserved c \<longleftrightarrow>
     (let n = of_char c :: nat in 97 \<le> n \<and> n \<le> 122 \<or> 65 \<le> n \<and> n \<le> 90 \<or> 48 \<le> n \<and> n \<le> 57) \<or> c \<in> set ''-_.~''"

text \<open>\<open>shouldEscape\<close> of \<open>net/url\<close>.\<close>

definition shouldEscape :: "encoding \<Rightarrow> char \<Rightarrow> bool" where
  "shouldEscape mode c =
     (if unreserved c then False
      else if c \<in> set ''$&+,/:;=?@'' then (case mode of encodePath \<Rightarrow> c = CHR ''?'' | encodePathSegment \<Rightarrow> c \<in> set ''/;,?'')
      else True)"

definition upperhex :: "nat \<Rightarrow> char" where
  "upperhex n = (if n < 10 then char_of (48 + n) else char_of (55 + n))"

definition unhex :: "char \<Rightarrow> nat option" where
  "unhex c =
     (let n = of_char c :: nat
      in if 48 \<le> n \<and> n \<le> 57 then Some (n - 48) else if 97 \<le> n \<and> n \<le> 102 then Some (n - 87)
         else if 65 \<le> n \<and> n \<le> 70 then Some (n - 55) else None)"

definition url_escape_char :: "encoding \<Rightarrow> char \<Rightarrow> string" where
  "url_escape_char mode c =
     (let n = of_char c :: nat in if shouldEscape mode c then [CHR ''%'', upperhex (n div 16), upperhex (n mod 16)] else [c])"

definition url_escape :: "encoding \<Rightarrow> string \<Rightarrow> string" where
  "url_escape mode s = concat (map (url_escape_char mode) s)"

definition PathEscape :: "string \<Rightarrow> string" where
  "PathEscape s = url_escape encodePathSegment s"

fun PathUnescape :: "string \<Rightarrow> string option" where
  "PathUnescape [] = Some []"
| "PathUnescape (c # s) =
     (if c = CHR ''%'' then
        (case s of
           a # b # rest \<Rightarrow>
             (case (unhex a, unhex b) of
                (Some x, Some y) \<Rightarrow> map_option ((#) (char_of (16 * x + y))) (PathUnescape rest)
              | _ \<Rightarrow> None)
         | _ \<Rightarrow> None)
      else map_option ((#) c) (PathUnescape s))"

section \<open>Settings\<close>

text \<open>A parsed base address: \<open>pu_Path\<close> decoded, \<open>pu_Fragment\<close> as it is printed, with its mark.\<close>

record base_url = parsed_url +
  pu_Path :: string
  pu_Fragment :: string

datatype proxy_error = InvalidUpstream string | NoProfiles | InvalidBaseURL

definition normalize_profile :: "SubscriptionProxyProfile \<Rightarrow> SubscriptionProxyProfile" where
  "normalize_profile p =
     (let path = Trim (TrimSpace (pp_SubscribePath p)) ''/''
      in \<lparr>pp_SiteID = TrimSpace (pp_SiteID p), pp_UpstreamBaseURL = TrimRight (TrimSpace (pp_UpstreamBaseURL p)) ''/'',
          pp_SubscribePath = (if path = [] then ''s'' else path)\<rparr>)"

definition valid_base :: "(string \<Rightarrow> base_url option) \<Rightarrow> string \<Rightarrow> bool" where
  "valid_base parse text = (case parse text of None \<Rightarrow> False | Some u \<Rightarrow> pu_Scheme u \<noteq> [] \<and> pu_Host u \<noteq> [])"

text \<open>The loop over the profiles with the sites seen so far.\<close>

fun normalize_profiles ::
  "(string \<Rightarrow> base_url option) \<Rightarrow> SubscriptionProxyProfile list \<Rightarrow> (string, unit) go_map \<Rightarrow> SubscriptionProxyProfile list \<Rightarrow>
   proxy_error + SubscriptionProxyProfile list" where
  "normalize_profiles parse [] seen profiles = Inr profiles"
| "normalize_profiles parse (q # qs) seen profiles =
     (let p = normalize_profile q; key = ToLower (pp_SiteID p)
      in if pp_SiteID p = [] \<or> pp_UpstreamBaseURL p = [] then normalize_profiles parse qs seen profiles
         else if \<not> valid_base parse (pp_UpstreamBaseURL p) then Inl (InvalidUpstream (pp_SiteID p))
         else if go_load seen key \<noteq> None then normalize_profiles parse qs seen profiles
         else normalize_profiles parse qs (go_store key () seen) (profiles @ [p]))"

definition or_default :: "string \<Rightarrow> string \<Rightarrow> string" where
  "or_default d s = (if s = [] then d else s)"

text \<open>
  \<open>resolve\<close> is \<open>resolveSubscriptionCertificateDomain\<close>. An error comes with the configuration as far
  as it was normalised; only its flag \<open>Enabled\<close>, which normalisation keeps, is used then.
\<close>

definition normalized_fields :: "(string \<Rightarrow> string) \<Rightarrow> SubscriptionProxyConfig \<Rightarrow> SubscriptionProxyConfig" where
  "normalized_fields resolve cfg =
     cfg\<lparr>sp_HTTPSListen := or_default ''0.0.0.0:443'' (TrimSpace (sp_HTTPSListen cfg)), sp_HTTPListen := TrimSpace (sp_HTTPListen cfg),
         sp_CertFile := TrimSpace (sp_CertFile cfg), sp_KeyFile := TrimSpace (sp_KeyFile cfg),
         sp_CertificateDomain := (if sp_Enabled cfg then resolve (TrimSpace (sp_CertificateDomain cfg)) else TrimSpace (sp_CertificateDomain cfg)),
         sp_ChallengeDir := or_default ''/etc/v2node/subproxy/challenges'' (TrimSpace (sp_ChallengeDir cfg)),
         sp_SiteID := TrimSpace (sp_SiteID cfg), sp_UpstreamBaseURL := TrimRight (TrimSpace (sp_UpstreamBaseURL cfg)) ''/'',
         sp_SubscribePath := Trim (TrimSpace (sp_SubscribePath cfg)) ''/'',
         sp_MaxResponseBytes := (if sp_MaxResponseBytes cfg \<le> 0 then 10485760 else sp_MaxResponseBytes cfg)\<rparr>"

definition all_profiles :: "SubscriptionProxyConfig \<Rightarrow> SubscriptionProxyProfile list" where
  "all_profiles cfg =
     sp_Profiles cfg @
     (if sp_SiteID cfg \<noteq> [] \<or> sp_UpstreamBaseURL cfg \<noteq> []
      then [\<lparr>pp_SiteID = sp_SiteID cfg, pp_UpstreamBaseURL = sp_UpstreamBaseURL cfg, pp_SubscribePath = sp_SubscribePath cfg\<rparr>] else [])"

definition normalizeConfig ::
  "(string \<Rightarrow> base_url option) \<Rightarrow> (string \<Rightarrow> string) \<Rightarrow> SubscriptionProxyConfig \<Rightarrow> proxy_error + SubscriptionProxyConfig" where
  "normalizeConfig parse resolve cfg =
     (let c = normalized_fields resolve cfg
      in case normalize_profiles parse (all_profiles c) [] [] of
           Inl e \<Rightarrow> Inl e
         | Inr profiles \<Rightarrow> if sp_Enabled c \<and> profiles = [] then Inl NoProfiles else Inr (c\<lparr>sp_Profiles := profiles\<rparr>))"

text \<open>The content of a validation file; \<open>print\<close> is \<open>fmt.Sprint\<close> on one value.\<close>

definition validationContentString :: "(json_any \<Rightarrow> string) \<Rightarrow> json_any \<Rightarrow> string" where
  "validationContentString print content =
     (case content of
        JNull \<Rightarrow> []
      | JString s \<Rightarrow> TrimSpace s @ [CHR 0x0A]
      | JArray items \<Rightarrow> Join (map (\<lambda>item. TrimSpace (print item)) items) [CHR 0x0A] @ [CHR 0x0A]
      | v \<Rightarrow> TrimSpace (print v) @ [CHR 0x0A])"

definition bool_text :: "bool \<Rightarrow> string" where
  "bool_text b = (if b then ''true'' else ''false'')"

definition fingerprint :: "(json_any \<Rightarrow> string) \<Rightarrow> SubscriptionProxyConfig \<Rightarrow> string" where
  "fingerprint print cfg =
     (let z = sp_ZeroSSL cfg
      in Join ([sp_HTTPSListen cfg, sp_HTTPListen cfg, sp_CertFile cfg, sp_KeyFile cfg, sp_CertificateDomain cfg, sp_ChallengeDir cfg,
                zs_CertificateID z, zs_ValidationPath z, validationContentString print (zs_ValidationContent z), zs_CertificatePEM z,
                zs_CABundlePEM z, bool_text (sp_AllowHTTPFallback cfg), Itoa (sp_MaxResponseBytes cfg)] @
               concat (map (\<lambda>p. [pp_SiteID p, pp_UpstreamBaseURL p, pp_SubscribePath p]) (sort_key pp_SiteID (sp_Profiles cfg)))) [CHR 0x00])"

definition subscriptionProxyCertificateOwnerSiteID :: "SubscriptionProxyProfile list \<Rightarrow> string" where
  "subscriptionProxyCertificateOwnerSiteID profiles =
     (case find (\<lambda>s. s \<noteq> []) (map (\<lambda>p. TrimSpace (pp_SiteID p)) profiles) of None \<Rightarrow> [] | Some s \<Rightarrow> s)"

section \<open>The public address\<close>

text \<open>Dotted decimal as \<open>netip.ParseAddr\<close> reads it: four numbers up to 255 without leading zeros.\<close>

definition ipv4_field :: "string \<Rightarrow> nat option" where
  "ipv4_field s =
     (if s = [] \<or> length s > 3 \<or> \<not> list_all is_digit s \<or> length s > 1 \<and> hd s = CHR ''0'' \<or> digits_val s > 255 then None
      else Some (digits_val s))"

definition parse_ipv4 :: "string \<Rightarrow> (nat \<times> nat \<times> nat \<times> nat) option" where
  "parse_ipv4 s =
     (case map ipv4_field (SplitChar (CHR ''.'') s) of
        [Some a, Some b, Some c, Some d] \<Rightarrow> Some (a, b, c, d)
      | _ \<Rightarrow> None)"

text \<open>The predicates of \<open>netip.Addr\<close> on IPv4 addresses.\<close>

definition IsGlobalUnicast :: "nat \<times> nat \<times> nat \<times> nat \<Rightarrow> bool" where
  "IsGlobalUnicast ip =
     (case ip of (a, b, c, d) \<Rightarrow>
        (a, b, c, d) \<noteq> (0, 0, 0, 0) \<and> (a, b, c, d) \<noteq> (255, 255, 255, 255) \<and> a \<noteq> 127 \<and> \<not> (224 \<le> a \<and> a \<le> 239) \<and> \<not> (a = 169 \<and> b = 254))"

definition IsPrivate :: "nat \<times> nat \<times> nat \<times> nat \<Rightarrow> bool" where
  "IsPrivate ip = (case ip of (a, b, c, d) \<Rightarrow> a = 10 \<or> a = 172 \<and> 16 \<le> b \<and> b \<le> 31 \<or> a = 192 \<and> b = 168)"

definition isPublicIPv4Literal :: "string \<Rightarrow> bool" where
  "isPublicIPv4Literal value =
     (case parse_ipv4 (TrimSpace value) of
        None \<Rightarrow> False
      | Some (a, b, c, d) \<Rightarrow>
          IsGlobalUnicast (a, b, c, d) \<and> \<not> IsPrivate (a, b, c, d) \<and> a \<noteq> 127 \<and> \<not> (a = 169 \<and> b = 254) \<and> \<not> (224 \<le> a \<and> a \<le> 239) \<and>
          (a, b, c, d) \<noteq> (0, 0, 0, 0))"

text \<open>An interface: whether it is up, whether it is the loopback, and its IPv4 addresses printed (\<open>None\<close> when they cannot be read).\<close>

record iface =
  if_Up :: bool
  if_Loopback :: bool
  if_Addrs4 :: "string list option"

definition detectPublicIPv4FromInterfaces :: "iface list option \<Rightarrow> string" where
  "detectPublicIPv4FromInterfaces ifaces =
     (case ifaces of
        None \<Rightarrow> []
      | Some xs \<Rightarrow>
          (case find isPublicIPv4Literal
                  (concat (map (\<lambda>i. if \<not> if_Up i \<or> if_Loopback i then [] else (case if_Addrs4 i of None \<Rightarrow> [] | Some as \<Rightarrow> as)) xs)) of
             None \<Rightarrow> []
           | Some ip \<Rightarrow> ip))"

text \<open>The answers of the lookup services: a failure, or status and body, of which 128 bytes are read.\<close>

fun detectPublicIPv4FromHTTP :: "(go_error + int \<times> string) list \<Rightarrow> go_error option \<Rightarrow> go_error + string" where
  "detectPublicIPv4FromHTTP [] lastErr = Inl (case lastErr of None \<Rightarrow> ErrText ''public IPv4 not found'' | Some e \<Rightarrow> e)"
| "detectPublicIPv4FromHTTP (Inl e # rest) lastErr = detectPublicIPv4FromHTTP rest (Some e)"
| "detectPublicIPv4FromHTTP (Inr (status, body) # rest) lastErr =
     (if status \<ge> 400 then detectPublicIPv4FromHTTP rest (Some (ErrText ''public IPv4 lookup returned status''))
      else let ip = TrimSpace (take 128 body)
           in if isPublicIPv4Literal ip then Inr ip
              else detectPublicIPv4FromHTTP rest (Some (ErrText ''public IPv4 lookup returned invalid IP'')))"

definition detectPublicIPv4 :: "iface list option \<Rightarrow> (go_error + int \<times> string) list \<Rightarrow> go_error + string" where
  "detectPublicIPv4 ifaces answers =
     (let ip = detectPublicIPv4FromInterfaces ifaces in if ip \<noteq> [] then Inr ip else detectPublicIPv4FromHTTP answers None)"

text \<open>The domain that is used; the flag of the source says whether it differs from the given one.\<close>

definition resolveSubscriptionCertificateDomain :: "(string \<Rightarrow> bool) \<Rightarrow> go_error + string \<Rightarrow> string \<Rightarrow> string \<times> bool" where
  "resolveSubscriptionCertificateDomain isIPv6Literal detected given =
     (let domain = TrimSpace given
      in if domain \<noteq> [] \<and> \<not> isIPv6Literal (TrimSpace domain) then (domain, False)
         else case detected of
                Inl e \<Rightarrow> (domain, False)
              | Inr ip \<Rightarrow> if ip = [] then (domain, False) else (ip, ip \<noteq> domain))"

section \<open>Forwarding a subscription\<close>

type_synonym header = "(string, string list) go_map"

text \<open>Header maps with the canonical keys that the server delivers.\<close>

definition header_Add :: "string \<Rightarrow> string \<Rightarrow> header \<Rightarrow> header" where
  "header_Add k v h = go_store k (go_get [] h k @ [v]) h"

definition header_Set :: "string \<Rightarrow> string \<Rightarrow> header \<Rightarrow> header" where
  "header_Set k v h = go_store k [v] h"

definition header_Get :: "string \<Rightarrow> header \<Rightarrow> string" where
  "header_Get k h = (case go_get [] h k of [] \<Rightarrow> [] | v # _ \<Rightarrow> v)"

definition isHopByHopHeader :: "string \<Rightarrow> bool" where
  "isHopByHopHeader key \<longleftrightarrow>
     ToLower key \<in> {''connection'', ''keep-alive'', ''proxy-authenticate'', ''proxy-authorization'', ''te'', ''trailer'', ''transfer-encoding'', ''upgrade''}"

definition copy_header :: "string \<times> string list \<Rightarrow> header \<Rightarrow> header" where
  "copy_header e dst = fold (header_Add (fst e)) (snd e) dst"

definition copyRequestHeaders :: "header \<Rightarrow> header \<Rightarrow> header" where
  "copyRequestHeaders dst src =
     fold (\<lambda>e d. if isHopByHopHeader (fst e) \<or> ToLower (fst e) = ''host'' then d else copy_header e d) (go_range src) dst"

definition copyResponseHeaders :: "header \<Rightarrow> header \<Rightarrow> header" where
  "copyResponseHeaders dst src = fold (\<lambda>e d. if isHopByHopHeader (fst e) then d else copy_header e d) (go_range src) dst"

definition appendForwardedFor :: "header \<Rightarrow> string \<Rightarrow> header" where
  "appendForwardedFor headers addr =
     (let ip = TrimSpace addr; existing = TrimSpace (header_Get ''X-Forwarded-For'' headers)
      in if ip = [] then headers
         else if existing \<noteq> [] then header_Set ''X-Forwarded-For'' (existing @ '', '' @ ip) headers
         else header_Set ''X-Forwarded-For'' ip headers)"

record proxy_request =
  pq_Method :: string
  pq_EscapedPath :: string
  pq_RawQuery :: string
  pq_Host :: string
  pq_RemoteAddr :: string
  pq_Header :: header

text \<open>\<open>split\<close> is \<open>net.SplitHostPort\<close>, the host alone.\<close>

definition clientIP :: "(string \<Rightarrow> string option) \<Rightarrow> proxy_request \<Rightarrow> string" where
  "clientIP split r = (case split (pq_RemoteAddr r) of Some host \<Rightarrow> host | None \<Rightarrow> pq_RemoteAddr r)"

definition upstream_headers :: "(string \<Rightarrow> string option) \<Rightarrow> proxy_request \<Rightarrow> header" where
  "upstream_headers split r =
     (let h = header_Set ''X-Forwarded-Host'' (pq_Host r) (copyRequestHeaders [] (pq_Header r)); ip = clientIP split r
      in if ip \<noteq> [] then appendForwardedFor h ip else h)"

text \<open>
  The path is escaped when the address is printed; the token is escaped before, when the path is put
  together.
\<close>

definition upstream_path :: "base_url \<Rightarrow> SubscriptionProxyProfile \<Rightarrow> string \<Rightarrow> string" where
  "upstream_path u profile token = TrimRight (pu_Path u) ''/'' @ ''/'' @ Trim (pp_SubscribePath profile) ''/'' @ ''/'' @ PathEscape token"

definition buildUpstreamURL ::
  "(string \<Rightarrow> base_url option) \<Rightarrow> SubscriptionProxyProfile \<Rightarrow> string \<Rightarrow> string \<Rightarrow> proxy_error + string" where
  "buildUpstreamURL parse profile token rawQuery =
     (case parse (pp_UpstreamBaseURL profile) of
        None \<Rightarrow> Inl InvalidBaseURL
      | Some u \<Rightarrow>
          if pu_Scheme u = [] \<or> pu_Host u = [] then Inl InvalidBaseURL
          else Inr (pu_Scheme u @ ''://'' @ pu_User u @ pu_Host u @ url_escape encodePath (upstream_path u profile token) @
                    (if pu_ForceQuery u \<or> rawQuery \<noteq> [] then ''?'' @ rawQuery else []) @ pu_Fragment u))"

record upstream_response =
  us_Status :: int
  us_ContentLength :: int
  us_Header :: header
  us_Body :: "go_error + string"

datatype proxy_reply = HttpError string int | NotFound | Served int header string

text \<open>What forwarding meets: the URL parser, whether a request can be made for an address, and the HTTP client.\<close>

record proxy_env =
  pe_parse :: "string \<Rightarrow> base_url option"
  pe_new_request :: "string \<Rightarrow> bool"
  pe_split :: "string \<Rightarrow> string option"
  pe_Do :: "string \<Rightarrow> header \<Rightarrow> go_error + upstream_response"

definition proxySubscription ::
  "proxy_env \<Rightarrow> proxy_request \<Rightarrow> SubscriptionProxyProfile \<Rightarrow> string \<Rightarrow> int \<Rightarrow> proxy_reply" where
  "proxySubscription env r profile token maxBytes =
     (case buildUpstreamURL (pe_parse env) profile token (pq_RawQuery r) of
        Inl e \<Rightarrow> HttpError ''bad upstream'' 502
      | Inr url \<Rightarrow>
          if \<not> pe_new_request env url then HttpError ''bad upstream'' 502
          else (case pe_Do env url (upstream_headers (pe_split env) r) of
                  Inl e \<Rightarrow> HttpError ''upstream unavailable'' 502
                | Inr resp \<Rightarrow>
                    if us_ContentLength resp > maxBytes then HttpError ''upstream response too large'' 502
                    else (case us_Body resp of
                            Inl e \<Rightarrow> HttpError ''upstream read failed'' 502
                          | Inr full \<Rightarrow>
                              let body = take (nat (wrap64 (maxBytes + 1))) full
                              in if int (length body) > maxBytes then HttpError ''upstream response too large'' 502
                                 else Served (us_Status resp) (copyResponseHeaders [] (us_Header resp))
                                        (if pq_Method r = ''HEAD'' then [] else body))))"

text \<open>The table of the sites, and the handler of \<open>/sub/\<close>.\<close>

definition site_table :: "SubscriptionProxyProfile list \<Rightarrow> (string, SubscriptionProxyProfile) go_map" where
  "site_table profiles = fold (\<lambda>p. go_store (ToLower (pp_SiteID p)) p) profiles []"

definition sub_handler :: "proxy_env \<Rightarrow> (string, SubscriptionProxyProfile) go_map \<Rightarrow> int \<Rightarrow> proxy_request \<Rightarrow> proxy_reply" where
  "sub_handler env profiles maxBytes r =
     (if pq_Method r \<noteq> ''GET'' \<and> pq_Method r \<noteq> ''HEAD'' then HttpError ''method not allowed'' 405
      else case CutChar (TrimPrefix (pq_EscapedPath r) ''/sub/'') (CHR ''/'') of
             (siteID, tokenPart, found) \<Rightarrow>
               if \<not> found \<or> siteID = [] \<or> tokenPart = [] then NotFound
               else case go_load profiles (ToLower siteID) of
                      None \<Rightarrow> NotFound
                    | Some profile \<Rightarrow>
                        (case PathUnescape tokenPart of
                           None \<Rightarrow> NotFound
                         | Some token \<Rightarrow> if TrimSpace token = [] then NotFound else proxySubscription env r profile token maxBytes))"

section \<open>Challenge and certificate files\<close>

datatype challenge_reply = ChallengeMethodNotAllowed | ChallengeNotFound | ServeFile string

definition challenge_prefix :: string where
  "challenge_prefix = ''/.well-known/pki-validation/''"

definition challenge_handler :: "string \<Rightarrow> string \<Rightarrow> string \<Rightarrow> challenge_reply" where
  "challenge_handler dir httpMethod path =
     (if httpMethod \<noteq> ''GET'' \<and> httpMethod \<noteq> ''HEAD'' then ChallengeMethodNotAllowed
      else let name = TrimPrefix path challenge_prefix
           in if name = [] \<or> Contains name ''/'' \<or> Contains name ''..'' then ChallengeNotFound
              else ServeFile (path_Join [dir, name]))"

text \<open>\<open>filepath.Base\<close>.\<close>

definition path_Base :: "string \<Rightarrow> string" where
  "path_Base path =
     (if path = [] then ''.''
      else let p = TrimRight path ''/'' in if p = [] then ''/'' else last (SplitChar (CHR ''/'') p))"

text \<open>The files, and whether a directory can be made and a file be written.\<close>

type_synonym files = "(string, string) go_map"

record file_env =
  fe_MkdirAll :: "string \<Rightarrow> go_error option"
  fe_WriteFile :: "string \<Rightarrow> go_error option"

definition write_file :: "file_env \<Rightarrow> string \<Rightarrow> string \<Rightarrow> string \<Rightarrow> files \<Rightarrow> go_error option \<times> files" where
  "write_file env dir name content fs =
     (case fe_MkdirAll env dir of
        Some e \<Rightarrow> (Some e, fs)
      | None \<Rightarrow> (case fe_WriteFile env name of Some e \<Rightarrow> (Some e, fs) | None \<Rightarrow> (None, go_store name content fs)))"

definition writeValidationFile ::
  "file_env \<Rightarrow> (json_any \<Rightarrow> string) \<Rightarrow> string \<Rightarrow> string \<Rightarrow> json_any \<Rightarrow> files \<Rightarrow> go_error option \<times> files" where
  "writeValidationFile env print dir validationPath content fs =
     (let name = path_Base validationPath
      in if name = ''.'' \<or> name = ''/'' \<or> name = [] then (Some (ErrText (''invalid validation path: '' @ validationPath)), fs)
         else write_file env dir (path_Join [dir, name]) (validationContentString print content) fs)"

text \<open>A certificate as far as the code looks at it.\<close>

record certificate =
  ce_Raw :: string
  ce_IssuerCN :: string
  ce_SubjectCN :: string

text \<open>The PEM blocks of a text are what \<open>pem.Decode\<close> finds one after the other: type and bytes.\<close>

fun parsePEMCertificates :: "(string \<Rightarrow> certificate option) \<Rightarrow> (string \<times> string) list \<Rightarrow> certificate list option" where
  "parsePEMCertificates parse [] = Some []"
| "parsePEMCertificates parse ((ty, bytes) # blocks) =
     (if ty \<noteq> ''CERTIFICATE'' then parsePEMCertificates parse blocks
      else case parse bytes of None \<Rightarrow> None | Some c \<Rightarrow> map_option ((#) c) (parsePEMCertificates parse blocks))"

definition R46_name :: string where
  "R46_name = ''Sectigo Public Server Authentication Root R46''"

definition needsSectigoR46UserTrustCompatibility :: "certificate list \<Rightarrow> bool" where
  "needsSectigoR46UserTrustCompatibility certs \<longleftrightarrow>
     list_ex (\<lambda>c. ce_IssuerCN c = R46_name) certs \<and>
     \<not> list_ex (\<lambda>c. ce_SubjectCN c = R46_name \<and> ce_IssuerCN c = ''USERTrust RSA Certification Authority'') certs"

text \<open>\<open>read\<close> gives the certificates of a text, \<open>crossSigned\<close> is the cross-signed certificate of the source.\<close>

definition appendCertificateCompatibilityChain :: "(string \<Rightarrow> certificate list option) \<Rightarrow> string \<Rightarrow> string \<Rightarrow> string" where
  "appendCertificateCompatibilityChain read crossSigned fullchain =
     (case read fullchain of
        None \<Rightarrow> fullchain
      | Some certs \<Rightarrow>
          if \<not> needsSectigoR46UserTrustCompatibility certs then fullchain
          else (case read crossSigned of
                  None \<Rightarrow> fullchain
                | Some [] \<Rightarrow> fullchain
                | Some (c # _) \<Rightarrow>
                    if list_ex (\<lambda>cert. ce_Raw cert = ce_Raw c) certs then fullchain
                    else TrimSpace fullchain @ [CHR 0x0A] @ TrimSpace crossSigned))"

definition path_Dir :: "string \<Rightarrow> string" where
  "path_Dir path = path_Clean (rev (dropWhile (\<lambda>c. c \<noteq> CHR ''/'') (rev path)))"

definition writeCertificateFile ::
  "file_env \<Rightarrow> (string \<Rightarrow> certificate list option) \<Rightarrow> string \<Rightarrow> string \<Rightarrow> string \<Rightarrow> string \<Rightarrow> files \<Rightarrow> go_error option \<times> files" where
  "writeCertificateFile env read crossSigned path cert caBundle fs =
     (if path = [] then (Some (ErrText ''subscription proxy cert file is empty''), fs)
      else let chain = TrimSpace cert @ (if TrimSpace caBundle \<noteq> [] then [CHR 0x0A] @ TrimSpace caBundle else [])
           in write_file env (path_Dir path) path (appendCertificateCompatibilityChain read crossSigned chain @ [CHR 0x0A]) fs)"

section \<open>Escaping: lemmas\<close>

lemma unhex_upperhex: "n < 16 \<Longrightarrow> unhex (upperhex n) = Some n"
  by (auto simp: unhex_def upperhex_def Let_def)

lemma unescape_escaped_char: "PathUnescape (url_escape_char mode c @ s) = map_option ((#) c) (PathUnescape s)"
proof (cases "shouldEscape mode c")
  case True
  have "of_char c div 16 < (16 :: nat)" "of_char c mod 16 < (16 :: nat)" using nat_of_char_less_256 [of c] by (simp_all add: less_mult_imp_div_less)
  moreover have "char_of (16 * (of_char c div 16) + of_char c mod 16 :: nat) = c" by simp
  ultimately show ?thesis using True by (simp add: url_escape_char_def Let_def unhex_upperhex)
next
  case False
  then have "c \<noteq> CHR ''%''" by (auto simp: shouldEscape_def unreserved_def)
  then show ?thesis using False by (simp add: url_escape_char_def)
qed

text \<open>What is escaped in either mode is read rear.\<close>

lemma unescape_escape: "PathUnescape (url_escape mode s) = Some s"
  by (induction s) (simp_all add: url_escape_def unescape_escaped_char)

lemma url_escape_char_fixed: "url_escape_char mode c = [c] \<longleftrightarrow> \<not> shouldEscape mode c"
  by (simp add: url_escape_char_def Let_def)

lemma url_escape_char_length: "length (url_escape_char mode c) \<ge> 1"
  by (simp add: url_escape_char_def Let_def)

lemma length_escape: "length (url_escape mode s) \<ge> length s"
proof (induction s)
  case (Cons c s)
  then show ?case using url_escape_char_length [of mode c] by (simp add: url_escape_def)
qed (simp add: url_escape_def)

lemma escape_fixed_iff: "url_escape mode s = s \<longleftrightarrow> list_all (\<lambda>c. \<not> shouldEscape mode c) s"
proof (induction s)
  case (Cons c s)
  have "url_escape mode (c # s) = url_escape_char mode c @ url_escape mode s" by (simp add: url_escape_def)
  moreover have "length (url_escape_char mode c @ url_escape mode s) > length (c # s)" if "shouldEscape mode c"
    using length_escape [of s mode] that by (simp add: url_escape_char_def Let_def)
  ultimately show ?case using Cons url_escape_char_fixed [of mode c] by (cases "shouldEscape mode c") (auto dest: arg_cong [of _ _ length])
qed (simp add: url_escape_def)

section \<open>Headers: lemmas\<close>

lemma header_Add_key: "go_load (header_Add k v h) k' \<noteq> None \<longleftrightarrow> k' = k \<or> go_load h k' \<noteq> None"
  by (auto simp: header_Add_def)

lemma copy_header_key: "go_load (copy_header e h) k \<noteq> None \<Longrightarrow> k = fst e \<or> go_load h k \<noteq> None"
proof -
  have "go_load (fold (header_Add x) vs h) k \<noteq> None \<Longrightarrow> k = x \<or> go_load h k \<noteq> None" for x vs
  proof (induction vs arbitrary: h)
    case (Cons v vs)
    have "go_load (fold (header_Add x) vs (header_Add x v h)) k \<noteq> None" using Cons.prems by simp
    from Cons.IH [OF this] show ?case using header_Add_key by blast
  qed simp
  then show "go_load (copy_header e h) k \<noteq> None \<Longrightarrow> k = fst e \<or> go_load h k \<noteq> None" by (simp add: copy_header_def)
qed

lemma copy_filtered_key:
  "go_load (fold (\<lambda>e d. if P (fst e) then d else copy_header e d) es h) k \<noteq> None \<Longrightarrow> \<not> P k \<or> go_load h k \<noteq> None"
proof (induction es arbitrary: h)
  case (Cons e es)
  then show ?case using copy_header_key [of e h k] by (auto split: if_splits)
qed simp

lemma response_headers_clean: "go_load (copyResponseHeaders [] src) k \<noteq> None \<Longrightarrow> \<not> isHopByHopHeader k"
  using copy_filtered_key [of isHopByHopHeader "go_range src" "[]" k] by (simp add: copyResponseHeaders_def)

lemma request_headers_clean: "go_load (copyRequestHeaders [] src) k \<noteq> None \<Longrightarrow> \<not> isHopByHopHeader k"
  using copy_filtered_key [of "\<lambda>k. isHopByHopHeader k \<or> ToLower k = ''host''" "go_range src" "[]" k] by (simp add: copyRequestHeaders_def)

lemma appendForwardedFor_key: "go_load (appendForwardedFor h ip) k \<noteq> None \<Longrightarrow> k = ''X-Forwarded-For'' \<or> go_load h k \<noteq> None"
  by (auto simp: appendForwardedFor_def header_Set_def Let_def split: if_splits)

lemma forwarded_not_hop: "\<not> isHopByHopHeader ''X-Forwarded-For''" "\<not> isHopByHopHeader ''X-Forwarded-Host''"
  by code_simp+

lemma upstream_headers_clean:
  assumes "go_load (upstream_headers split r) k \<noteq> None"
  shows "\<not> isHopByHopHeader k"
proof -
  let ?h = "header_Set ''X-Forwarded-Host'' (pq_Host r) (copyRequestHeaders [] (pq_Header r))"
  have "k = ''X-Forwarded-For'' \<or> go_load ?h k \<noteq> None"
    using assms appendForwardedFor_key [of ?h _ k] by (auto simp: upstream_headers_def Let_def split: if_splits)
  then have "k = ''X-Forwarded-For'' \<or> k = ''X-Forwarded-Host'' \<or> go_load (copyRequestHeaders [] (pq_Header r)) k \<noteq> None"
    by (auto simp: header_Set_def)
  then show ?thesis using request_headers_clean forwarded_not_hop by blast
qed

section \<open>Paths and settings: lemmas\<close>

text \<open>A plain name joined to a directory names a file directly in it.\<close>

lemma path_Join_plain:
  assumes "path_Clean dir \<noteq> ''/''" "path_Clean dir \<noteq> ''.''" "dir \<noteq> []" "name \<noteq> []" "CHR ''/'' \<notin> set name" "name \<noteq> ''.''" "name \<noteq> ''..''"
  shows "path_Join [dir, name] = path_Clean dir @ ''/'' @ name"
proof -
  let ?r = "hd dir = CHR ''/''" and ?ps = "clean_parts (hd dir = CHR ''/'') (SplitChar (CHR ''/'') dir)"
  have "clean_part name" using assms(4-6) by (simp add: clean_part_def)
  then have j: "path_Join [dir, name] = show_path ?r (?ps @ [name])"
    using assms(3-7) by (simp add: path_Join_def path_Clean_def clean_part_def Split_snoc clean_parts_snoc Let_def)
  have c: "path_Clean dir = show_path ?r ?ps" using assms(3) by (simp add: path_Clean_def Let_def)
  show ?thesis using assms(1,2) unfolding j c by (cases ?r) (auto simp: show_path_def Join_snoc split: if_splits)
qed

lemma Contains_char: "Contains s [c] \<longleftrightarrow> c \<in> set s"
  by (induction s) (auto simp: HasPrefix_def)

lemma path_Base_no_slash: "path_Base p \<noteq> ''/'' \<Longrightarrow> CHR ''/'' \<notin> set (path_Base p)"
  using Split_no_sep [OF last_in_set [OF SplitChar_ne], of "CHR ''/''" "TrimRight p ''/''"]
  by (auto simp: path_Base_def Let_def split: if_splits)

text \<open>The normalised profiles are complete, and their sites differ whatever the case of the letters.\<close>

definition profile_ok :: "(string \<Rightarrow> base_url option) \<Rightarrow> SubscriptionProxyProfile \<Rightarrow> bool" where
  "profile_ok parse p \<longleftrightarrow> pp_SiteID p \<noteq> [] \<and> valid_base parse (pp_UpstreamBaseURL p) \<and> pp_SubscribePath p \<noteq> []"

lemma normalize_profiles_ok:
  "normalize_profiles parse qs seen ps = Inr ps' \<Longrightarrow> list_all (profile_ok parse) ps \<Longrightarrow> distinct (map (ToLower \<circ> pp_SiteID) ps) \<Longrightarrow>
   (\<forall>k. go_load seen k \<noteq> None \<longleftrightarrow> k \<in> set (map (ToLower \<circ> pp_SiteID) ps)) \<Longrightarrow>
   list_all (profile_ok parse) ps' \<and> distinct (map (ToLower \<circ> pp_SiteID) ps')"
proof (induction parse qs seen ps rule: normalize_profiles.induct)
  case (2 parse q qs seen ps)
  let ?p = "normalize_profile q"
  have path: "pp_SubscribePath ?p \<noteq> []" by (simp add: normalize_profile_def Let_def)
  show ?case
  proof (cases "pp_SiteID ?p = [] \<or> pp_UpstreamBaseURL ?p = [] \<or> go_load seen (ToLower (pp_SiteID ?p)) \<noteq> None")
    case True
    then show ?thesis using 2 by (auto simp: Let_def split: if_splits)
  next
    case False
    then have v: "valid_base parse (pp_UpstreamBaseURL ?p)"
      and run: "normalize_profiles parse qs (go_store (ToLower (pp_SiteID ?p)) () seen) (ps @ [?p]) = Inr ps'"
      using "2.prems"(1) by (auto simp: Let_def split: if_splits)
    have "ToLower (pp_SiteID ?p) \<notin> set (map (ToLower \<circ> pp_SiteID) ps)" using False "2.prems"(4) by blast
    then show ?thesis using "2.IH"(3) [OF refl refl _ _ _ run] False v path "2.prems"(2-4) by (auto simp: profile_ok_def)
  qed
qed simp

lemma site_table_load:
  assumes "distinct (map (ToLower \<circ> pp_SiteID) ps)" "p \<in> set ps"
  shows "go_load (site_table ps) (ToLower (pp_SiteID p)) = Some p"
proof -
  have "go_load (site_table ps) = map_of (rev (map (\<lambda>p. (ToLower (pp_SiteID p), p)) ps))"
    using gmap.lookup_fold_store [of "\<lambda>p. ToLower (pp_SiteID p)" "\<lambda>p. p" ps "[]"] by (simp add: site_table_def map_add_def fun_eq_iff split: option.splits)
  moreover have "distinct (map fst (rev (map (\<lambda>p. (ToLower (pp_SiteID p), p)) ps)))" using assms(1) by (simp add: rev_map [symmetric] comp_def)
  ultimately show ?thesis using assms(2) by (metis (no_types, lifting) image_eqI list.set_map map_of_is_SomeI set_rev)
qed

section \<open>A small proxy\<close>

definition demo_base :: base_url where
  "demo_base = \<lparr>pu_Scheme = ''https'', pu_User = [], pu_Host = ''up'', pu_ForceQuery = False, pu_Path = [], pu_Fragment = []\<rparr>"

definition demo_site :: SubscriptionProxyProfile where
  "demo_site = \<lparr>pp_SiteID = ''Main'', pp_UpstreamBaseURL = ''https://up'', pp_SubscribePath = ''s''\<rparr>"

definition demo_proxy :: proxy_env where
  "demo_proxy =
     \<lparr>pe_parse = (\<lambda>_. Some demo_base), pe_new_request = (\<lambda>_. True), pe_split = (\<lambda>_. None),
      pe_Do = (\<lambda>url h. Inr \<lparr>us_Status = 200, us_ContentLength = -1, us_Header = [(''Connection'', [''close'']), (''Etag'', [''e''])], us_Body = Inr ''list''\<rparr>)\<rparr>"

definition demo_get :: "string \<Rightarrow> proxy_request" where
  "demo_get path =
     \<lparr>pq_Method = ''GET'', pq_EscapedPath = path, pq_RawQuery = [], pq_Host = ''h'', pq_RemoteAddr = ''1.2.3.4'', pq_Header = [(''Te'', [''x''])]\<rparr>"

definition demo_subscription :: SubscriptionProxyConfig where
  "demo_subscription = zero_SubscriptionProxyConfig\<lparr>sp_Enabled := True, sp_Profiles := [demo_site]\<rparr>"

section \<open>Properties\<close>



text \<open>
  C32. The token of a subscription arrives, and leaves changed: with normalised settings, a request for a
  site, in any spelling of its letters, with an escaped token reaches the profile of the site with the
  token itself. The address built from it ends, once the upstream has read its path, not in the token
  but in its escaped form, which is the token exactly when no character of it needs escaping.
\<close>

theorem subscription_token_path:
  assumes "normalizeConfig parse resolve cfg = Inr c" and "p \<in> set (sp_Profiles c)" and "ToLower site = ToLower (pp_SiteID p)"
    and "site \<noteq> []" and "CHR ''/'' \<notin> set site" and "TrimSpace token \<noteq> []"
    and "pq_EscapedPath r = ''/sub/'' @ site @ ''/'' @ PathEscape token" and "pq_Method r = ''GET''" and "pe_parse env = parse"
  shows "sub_handler env (site_table (sp_Profiles c)) maxBytes r = proxySubscription env r p token maxBytes \<and>
         (\<exists>u front path rear. parse (pp_UpstreamBaseURL p) = Some u \<and>
            buildUpstreamURL parse p token (pq_RawQuery r) = Inr (front @ path @ rear) \<and>
            PathUnescape path = Some (TrimRight (pu_Path u) ''/'' @ ''/'' @ Trim (pp_SubscribePath p) ''/'' @ ''/'' @ PathEscape token)) \<and>
         (PathEscape token = token \<longleftrightarrow> list_all (\<lambda>ch. \<not> shouldEscape encodePathSegment ch) token)"
proof -
  obtain ps where ps: "normalize_profiles parse (all_profiles (normalized_fields resolve cfg)) [] [] = Inr ps" "sp_Profiles c = ps"
    using assms(1) by (auto simp: normalizeConfig_def Let_def split: sum.splits if_splits)
  then have ok: "list_all (profile_ok parse) (sp_Profiles c)" "distinct (map (ToLower \<circ> pp_SiteID) (sp_Profiles c))"
    using normalize_profiles_ok [OF ps(1)] by simp_all
  then have "profile_ok parse p" using assms(2) by (auto simp: list_all_iff)
  then obtain u where u: "parse (pp_UpstreamBaseURL p) = Some u" "pu_Scheme u \<noteq> []" "pu_Host u \<noteq> []"
    by (auto simp: profile_ok_def valid_base_def split: option.splits)
  have "PathEscape token \<noteq> []" using assms(6) length_escape [of token encodePathSegment] by (auto simp: PathEscape_def TrimSpace_def TrimFunc_def TrimRightFunc_def)
  moreover have "CutChar (site @ CHR ''/'' # PathEscape token) (CHR ''/'') = (site, PathEscape token, True)" by (rule CutChar_append [OF assms(5)])
  ultimately have "sub_handler env (site_table (sp_Profiles c)) maxBytes r = proxySubscription env r p token maxBytes"
    using assms(3-8) site_table_load [OF ok(2) assms(2)] unescape_escape [of encodePathSegment token]
    by (simp add: sub_handler_def TrimPrefix_def HasPrefix_def PathEscape_def)
  moreover have "buildUpstreamURL parse p token (pq_RawQuery r) =
      Inr ((pu_Scheme u @ ''://'' @ pu_User u @ pu_Host u) @ url_escape encodePath (upstream_path u p token) @
           ((if pu_ForceQuery u \<or> pq_RawQuery r \<noteq> [] then ''?'' @ pq_RawQuery r else []) @ pu_Fragment u))"
    using u by (simp add: buildUpstreamURL_def)
  moreover have "PathUnescape (url_escape encodePath (upstream_path u p token)) = Some (upstream_path u p token)" by (rule unescape_escape)
  moreover have "PathEscape token = token \<longleftrightarrow> list_all (\<lambda>ch. \<not> shouldEscape encodePathSegment ch) token"
    unfolding PathEscape_def by (rule escape_fixed_iff)
  ultimately show ?thesis unfolding upstream_path_def using u(1) by blast
qed

theorem subscription_token_path_witness:
  "\<exists>c front path rear. normalizeConfig (\<lambda>_. Some demo_base) id demo_subscription = Inr c \<and>
     buildUpstreamURL (\<lambda>_. Some demo_base) demo_site ''a b'' [] = Inr (front @ path @ rear) \<and> PathUnescape path = Some ''/s/a%20b''"
proof -
  obtain c where c: "normalizeConfig (\<lambda>_. Some demo_base) id demo_subscription = Inr c" "sp_Profiles c = [demo_site]"
  proof -
    have "normalize_profile demo_site = demo_site" by code_simp
    then show ?thesis
      using that by (simp add: normalizeConfig_def Let_def normalized_fields_def demo_subscription_def all_profiles_def valid_base_def demo_base_def
          demo_site_def zero_SubscriptionProxyConfig_def TrimSpace_def TrimFunc_def TrimRightFunc_def TrimRight_def)
  qed
  let ?r = "demo_get ''/sub/MAIN/a%20b''"
  have e: "PathEscape ''a b'' = ''a%20b''" by code_simp
  have "demo_site \<in> set (sp_Profiles c)" "ToLower ''MAIN'' = ToLower (pp_SiteID demo_site)" "''MAIN'' \<noteq> []" "CHR ''/'' \<notin> set ''MAIN''" "TrimSpace ''a b'' \<noteq> []"
    "pq_EscapedPath ?r = ''/sub/'' @ ''MAIN'' @ ''/'' @ PathEscape ''a b''" "pq_Method ?r = ''GET''" "pe_parse demo_proxy = (\<lambda>_. Some demo_base)"
    by (simp_all add: c(2) demo_get_def demo_proxy_def e) code_simp+
  from subscription_token_path [where maxBytes = 0, OF c(1) this] obtain u front path rear where "Some demo_base = Some u"
    "buildUpstreamURL (\<lambda>_. Some demo_base) demo_site ''a b'' [] = Inr (front @ path @ rear)"
    "PathUnescape path = Some (TrimRight (pu_Path u) ''/'' @ ''/'' @ Trim (pp_SubscribePath demo_site) ''/'' @ ''/'' @ PathEscape ''a b'')"
    by (auto simp: demo_get_def)
  moreover have "TrimRight (pu_Path demo_base) ''/'' = []" "Trim (pp_SubscribePath demo_site) ''/'' = ''s''" by code_simp+
  ultimately show ?thesis using c(1) by (auto simp: e)
qed

text \<open>
  A challenge is answered with the file written for it, and nothing outside the directory is
  served: a served file lies directly in the challenge directory under the requested name, and after
  a validation file was written, the request for the last part of its path is answered with it.
\<close>

theorem challenge_served_from_directory:
  assumes "path_Clean dir \<notin> {''/'', ''.''}" and "dir \<noteq> []"
  shows "(challenge_handler dir httpMethod (challenge_prefix @ name) = ServeFile f \<and> name \<noteq> ''.'' \<longrightarrow>
            f = path_Clean dir @ ''/'' @ name \<and> CHR ''/'' \<notin> set name) \<and>
         (writeValidationFile env print dir vpath content fs = (None, fs') \<and> \<not> Contains (path_Base vpath) ''..'' \<longrightarrow>
            (\<exists>g. challenge_handler dir ''GET'' (challenge_prefix @ path_Base vpath) = ServeFile g \<and>
                 go_load fs' g = Some (validationContentString print content)))"
proof (intro conjI impI)
  have strip: "TrimPrefix (challenge_prefix @ n) challenge_prefix = n" for n by (simp add: TrimPrefix_def HasPrefix_def)
  assume a: "challenge_handler dir httpMethod (challenge_prefix @ name) = ServeFile f \<and> name \<noteq> ''.''"
  then have n: "name \<noteq> []" "\<not> Contains name ''/''" "\<not> Contains name ''..''" "f = path_Join [dir, name]"
    by (auto simp: challenge_handler_def Let_def strip split: if_splits)
  then have "CHR ''/'' \<notin> set name" "name \<noteq> ''..''" by (auto simp: Contains_char HasPrefix_def)
  then show "f = path_Clean dir @ ''/'' @ name" "CHR ''/'' \<notin> set name" using path_Join_plain [of dir name] n(1,4) a assms by auto
next
  have strip: "TrimPrefix (challenge_prefix @ n) challenge_prefix = n" for n by (simp add: TrimPrefix_def HasPrefix_def)
  assume w: "writeValidationFile env print dir vpath content fs = (None, fs') \<and> \<not> Contains (path_Base vpath) ''..''"
  then have ne: "path_Base vpath \<noteq> []" "path_Base vpath \<noteq> ''/''"
    and st: "fs' = go_store (path_Join [dir, path_Base vpath]) (validationContentString print content) fs"
    by (auto simp: writeValidationFile_def write_file_def Let_def split: if_splits option.splits)
  have "\<not> Contains (path_Base vpath) ''/''" using path_Base_no_slash [OF ne(2)] by (simp add: Contains_char)
  then show "\<exists>g. challenge_handler dir ''GET'' (challenge_prefix @ path_Base vpath) = ServeFile g \<and> go_load fs' g = Some (validationContentString print content)"
    using w ne st by (simp add: challenge_handler_def Let_def strip)
qed

theorem challenge_served_from_directory_witness:
  "\<exists>g. challenge_handler ''/c'' ''GET'' (challenge_prefix @ ''f.txt'') = ServeFile g \<and>
     go_load (snd (writeValidationFile \<lparr>fe_MkdirAll = (\<lambda>_. None), fe_WriteFile = (\<lambda>_. None)\<rparr> (\<lambda>_. []) ''/c'' ''/x/f.txt'' (JString ''v'') [])) g
       = Some (validationContentString (\<lambda>_. []) (JString ''v''))"
proof -
  let ?env = "\<lparr>fe_MkdirAll = (\<lambda>_. None), fe_WriteFile = (\<lambda>_. None)\<rparr> :: file_env"
  have b: "path_Base ''/x/f.txt'' = ''f.txt''" by code_simp
  then have "writeValidationFile ?env (\<lambda>_. []) ''/c'' ''/x/f.txt'' (JString ''v'') [] =
     (None, snd (writeValidationFile ?env (\<lambda>_. []) ''/c'' ''/x/f.txt'' (JString ''v'') []))"
    by (simp add: writeValidationFile_def write_file_def)
  moreover have "\<not> Contains (path_Base ''/x/f.txt'') ''..''" unfolding b by code_simp
  moreover have "path_Clean ''/c'' \<notin> {''/'', ''.''}" by code_simp
  ultimately show ?thesis using challenge_served_from_directory [of "''/c''" "''GET''" "[]" "[]" ?env "\<lambda>_. []" "''/x/f.txt''" "JString ''v''" "[]"] b
    by fastforce
qed

end
