(* ===== verification/Sub_Proxy_Manager.thy ===== *)
theory Sub_Proxy_Manager
  imports Sub_Proxy
begin

text \<open>
  The subscription proxy (\<open>agent/subproxy/manager.go\<close>), second part: keys and certificates on disk, the
  status that is reported, and the servers that \<open>Apply\<close> and \<open>Close\<close> start and shut down. Servers are
  numbered in the order in which they are made; the state holds the numbers of those that serve. A
  step of the whole is one call of \<open>Apply\<close> or \<open>Close\<close>, or the unexpected end of a server, which its
  goroutine reports to the manager.
\<close>

section \<open>Keys and certificates\<close>

text \<open>
  What the cryptographic packages answer: reading of certificates and keys of type \<open>'k\<close>, key
  generation, certificate requests, and the number of certificates of a loaded pair of files.
\<close>

record 'k cert_tools =
  ct_files :: file_env
  ct_print :: "json_any \<Rightarrow> string"
  ct_read :: "string \<Rightarrow> certificate list option"
  ct_crossSigned :: string
  ct_notAfter :: "string \<Rightarrow> string option"
  ct_pem :: "string \<Rightarrow> string option"
  ct_pkcs1 :: "string \<Rightarrow> 'k option"
  ct_pkcs8 :: "string \<Rightarrow> go_error + 'k option"
  ct_generate :: "go_error + 'k"
  ct_marshal :: "'k \<Rightarrow> string"
  ct_csr :: "'k \<Rightarrow> string \<Rightarrow> go_error + string"
  ct_load_pair :: "string \<Rightarrow> string \<Rightarrow> go_error + nat"

definition loadOrCreatePrivateKey :: "'k cert_tools \<Rightarrow> string \<Rightarrow> files \<Rightarrow> (go_error + 'k) \<times> files" where
  "loadOrCreatePrivateKey ct path fs =
     (if path = [] then (Inl (ErrText ''subscription proxy key file is empty''), fs)
      else case go_load fs path of
             Some data \<Rightarrow>
               ((case ct_pem ct data of
                   None \<Rightarrow> Inl (ErrText (''decode private key failed: '' @ path))
                 | Some bytes \<Rightarrow>
                     (case ct_pkcs1 ct bytes of
                        Some key \<Rightarrow> Inr key
                      | None \<Rightarrow>
                          (case ct_pkcs8 ct bytes of
                             Inl e \<Rightarrow> Inl e
                           | Inr None \<Rightarrow> Inl (ErrText (''private key is not RSA: '' @ path))
                           | Inr (Some key) \<Rightarrow> Inr key))), fs)
           | None \<Rightarrow>
               (case ct_generate ct of
                  Inl e \<Rightarrow> (Inl e, fs)
                | Inr key \<Rightarrow>
                    (case write_file (ct_files ct) (path_Dir path) path (ct_marshal ct key) fs of
                       (Some e, fs1) \<Rightarrow> (Inl e, fs1)
                     | (None, fs1) \<Rightarrow> (Inr key, fs1))))"

definition ensureKeyAndCSR :: "'k cert_tools \<Rightarrow> string \<Rightarrow> string \<Rightarrow> files \<Rightarrow> (go_error + string) \<times> files" where
  "ensureKeyAndCSR ct keyPath domain fs =
     (case loadOrCreatePrivateKey ct keyPath fs of
        (Inl e, fs1) \<Rightarrow> (Inl e, fs1)
      | (Inr key, fs1) \<Rightarrow> (ct_csr ct key domain, fs1))"

definition certificateNotAfter :: "'k cert_tools \<Rightarrow> string \<Rightarrow> files \<Rightarrow> string" where
  "certificateNotAfter ct path fs =
     (if path = [] then []
      else case go_load fs path of
             None \<Rightarrow> []
           | Some data \<Rightarrow> (case ct_notAfter ct data of None \<Rightarrow> [] | Some s \<Rightarrow> s))"

definition fileReadable :: "string \<Rightarrow> files \<Rightarrow> bool" where
  "fileReadable path fs \<longleftrightarrow> path \<noteq> [] \<and> go_load fs path \<noteq> None"

definition loadSubscriptionProxyCertificateChain :: "'k cert_tools \<Rightarrow> string \<Rightarrow> string \<Rightarrow> files \<Rightarrow> go_error option" where
  "loadSubscriptionProxyCertificateChain ct certFile keyFile fs =
     (case ct_load_pair ct (go_get [] fs certFile) (go_get [] fs keyFile) of
        Inl e \<Rightarrow> Some (ErrText (''load subscription proxy certificate chain failed: cert='' @ certFile @ '' key='' @ keyFile))
      | Inr n \<Rightarrow> if n = 0 then Some (ErrText (''subscription proxy certificate chain is empty: cert='' @ certFile)) else None)"

section \<open>Status\<close>

record Status =
  st_Status :: string
  st_Enabled :: bool
  st_Running :: bool
  st_Mode :: string
  st_HTTPSListen :: string
  st_Profiles :: int
  st_CertificateDomain :: string
  st_CertificateOwnerSiteID :: string
  st_CertificateID :: string
  st_NeedCertificate :: bool
  st_CSRPem :: string
  st_ValidationReady :: bool
  st_CertNotAfter :: string
  st_LastError :: string
  st_UpdatedAt :: clock

definition zero_Status :: Status where
  "zero_Status =
     \<lparr>st_Status = [], st_Enabled = False, st_Running = False, st_Mode = [], st_HTTPSListen = [], st_Profiles = 0, st_CertificateDomain = [],
      st_CertificateOwnerSiteID = [], st_CertificateID = [], st_NeedCertificate = False, st_CSRPem = [], st_ValidationReady = False,
      st_CertNotAfter = [], st_LastError = [], st_UpdatedAt = 0\<rparr>"

definition error_text :: "go_error \<Rightarrow> string" where
  "error_text e = (case e of Canceled \<Rightarrow> ''context canceled'' | DeadlineExceeded \<Rightarrow> ''context deadline exceeded'' | ErrText s \<Rightarrow> s)"

definition prepare_validation :: "'k cert_tools \<Rightarrow> SubscriptionProxyConfig \<Rightarrow> Status \<times> files \<Rightarrow> Status \<times> files" where
  "prepare_validation ct cfg sf =
     (case sf of (s, fs) \<Rightarrow>
        let z = sp_ZeroSSL cfg
        in if TrimSpace (zs_ValidationPath z) \<noteq> [] \<and> zs_ValidationContent z \<noteq> JNull then
             (case writeValidationFile (ct_files ct) (ct_print ct) (sp_ChallengeDir cfg) (zs_ValidationPath z) (zs_ValidationContent z) fs of
                (Some e, fs1) \<Rightarrow> (s\<lparr>st_LastError := error_text e\<rparr>, fs1)
              | (None, fs1) \<Rightarrow> (s\<lparr>st_ValidationReady := True\<rparr>, fs1))
           else (s, fs))"

definition prepare_chain :: "'k cert_tools \<Rightarrow> SubscriptionProxyConfig \<Rightarrow> Status \<times> files \<Rightarrow> Status \<times> files" where
  "prepare_chain ct cfg sf =
     (case sf of (s, fs) \<Rightarrow>
        let z = sp_ZeroSSL cfg
        in if TrimSpace (zs_CertificatePEM z) \<noteq> [] then
             (case writeCertificateFile (ct_files ct) (ct_read ct) (ct_crossSigned ct) (sp_CertFile cfg) (zs_CertificatePEM z) (zs_CABundlePEM z) fs of
                (Some e, fs1) \<Rightarrow> (s\<lparr>st_LastError := error_text e\<rparr>, fs1)
              | (None, fs1) \<Rightarrow> (s\<lparr>st_CertNotAfter := certificateNotAfter ct (sp_CertFile cfg) fs1\<rparr>, fs1))
           else (s, fs))"

definition prepareCertificate :: "'k cert_tools \<Rightarrow> SubscriptionProxyConfig \<Rightarrow> files \<Rightarrow> Status \<times> files" where
  "prepareCertificate ct cfg fs =
     (let s0 = zero_Status\<lparr>st_CertificateDomain := TrimSpace (sp_CertificateDomain cfg), st_CertificateID := TrimSpace (zs_CertificateID (sp_ZeroSSL cfg)),
                           st_CertNotAfter := certificateNotAfter ct (sp_CertFile cfg) fs\<rparr>
      in case prepare_chain ct cfg (prepare_validation ct cfg (s0, fs)) of
           (s, fs1) \<Rightarrow>
             if TrimSpace (sp_CertificateDomain cfg) = [] then (s, fs1)
             else (case ensureKeyAndCSR ct (sp_KeyFile cfg) (sp_CertificateDomain cfg) fs1 of
                     (Inl e, fs2) \<Rightarrow> (s\<lparr>st_LastError := error_text e\<rparr>, fs2)
                   | (Inr csr, fs2) \<Rightarrow>
                       (s\<lparr>st_CSRPem := csr, st_NeedCertificate := (\<not> fileReadable (sp_CertFile cfg) fs2 \<or> \<not> fileReadable (sp_KeyFile cfg) fs2)\<rparr>, fs2)))"

definition mergeStatus :: "Status \<Rightarrow> Status \<Rightarrow> Status" where
  "mergeStatus next_status s =
     s\<lparr>st_CertificateDomain := or_default (st_CertificateDomain s) (st_CertificateDomain next_status),
       st_CertificateOwnerSiteID := or_default (st_CertificateOwnerSiteID s) (st_CertificateOwnerSiteID next_status),
       st_CertificateID := or_default (st_CertificateID s) (st_CertificateID next_status),
       st_NeedCertificate := st_NeedCertificate next_status, st_CSRPem := st_CSRPem next_status,
       st_ValidationReady := st_ValidationReady next_status,
       st_CertNotAfter := or_default (st_CertNotAfter s) (st_CertNotAfter next_status),
       st_LastError := or_default (st_LastError s) (st_LastError next_status)\<rparr>"

section \<open>The manager and its servers\<close>

record Manager =
  mg_server :: "nat option"
  mg_httpServer :: "nat option"
  mg_fingerprint :: string
  mg_status :: Status

datatype server_kind = MainServer | ChallengeServer

record proxy_state =
  ps_manager :: Manager
  ps_next :: nat
  ps_serving :: "(nat \<times> server_kind) list"
  ps_files :: files

definition NewManager :: "clock \<Rightarrow> Manager" where
  "NewManager now = \<lparr>mg_server = None, mg_httpServer = None, mg_fingerprint = [], mg_status = zero_Status\<lparr>st_UpdatedAt := now\<rparr>\<rparr>"

definition shutdownServer :: "nat option \<Rightarrow> proxy_state \<Rightarrow> proxy_state" where
  "shutdownServer srv s = (case srv of None \<Rightarrow> s | Some n \<Rightarrow> s\<lparr>ps_serving := filter (\<lambda>x. fst x \<noteq> n) (ps_serving s)\<rparr>)"

definition start_server :: "nat option \<Rightarrow> server_kind \<Rightarrow> proxy_state \<Rightarrow> proxy_state" where
  "start_server srv k s = (case srv of None \<Rightarrow> s | Some n \<Rightarrow> s\<lparr>ps_serving := (n, k) # ps_serving s\<rparr>)"

text \<open>Both servers are forgotten, then shut down; \<open>f\<close> is what else happens to the manager under the lock.\<close>

definition drop_servers :: "(Manager \<Rightarrow> Manager) \<Rightarrow> proxy_state \<Rightarrow> proxy_state" where
  "drop_servers f s =
     (let m = ps_manager s
      in shutdownServer (mg_httpServer m) (shutdownServer (mg_server m)
           (s\<lparr>ps_manager := f (m\<lparr>mg_server := None, mg_httpServer := None, mg_fingerprint := []\<rparr>)\<rparr>)))"

definition closeWithStatus :: "Status \<Rightarrow> proxy_state \<Rightarrow> proxy_state" where
  "closeWithStatus status s = drop_servers (\<lambda>m. m\<lparr>mg_status := status\<rparr>) s"

definition stopped_status :: "clock \<Rightarrow> Status \<Rightarrow> Status" where
  "stopped_status now st = st\<lparr>st_Running := False, st_Status := (if st_Status st = ''running'' then ''stopped'' else st_Status st), st_UpdatedAt := now\<rparr>"

definition Manager_Close :: "clock \<Rightarrow> proxy_state \<Rightarrow> proxy_state" where
  "Manager_Close now s = drop_servers (\<lambda>m. m\<lparr>mg_status := stopped_status now (mg_status m)\<rparr>) s"

record 'k apply_env =
  ae_parse :: "string \<Rightarrow> base_url option"
  ae_resolve :: "string \<Rightarrow> string"
  ae_tools :: "'k cert_tools"
  ae_now :: clock

definition proxy_error_text :: "proxy_error \<Rightarrow> string" where
  "proxy_error_text e =
     (case e of
        InvalidUpstream site \<Rightarrow> ''invalid subscription proxy upstream for site '' @ site
      | NoProfiles \<Rightarrow> ''subscription proxy enabled without profiles''
      | InvalidBaseURL \<Rightarrow> ''invalid base url'')"

text \<open>How the main server will serve, or why it cannot.\<close>

definition choose_mode :: "'k cert_tools \<Rightarrow> SubscriptionProxyConfig \<Rightarrow> files \<Rightarrow> string + string" where
  "choose_mode ct cfg fs =
     (if \<not> fileReadable (sp_CertFile cfg) fs \<or> \<not> fileReadable (sp_KeyFile cfg) fs then
        (if \<not> sp_AllowHTTPFallback cfg
         then Inl (''subscription proxy certificate files are not readable: cert='' @ sp_CertFile cfg @ '' key='' @ sp_KeyFile cfg)
         else Inr ''http'')
      else (case loadSubscriptionProxyCertificateChain ct (sp_CertFile cfg) (sp_KeyFile cfg) fs of
              Some e \<Rightarrow> Inl (error_text e)
            | None \<Rightarrow> Inr ''https''))"

definition applied_status :: "clock \<Rightarrow> SubscriptionProxyConfig \<Rightarrow> string + string \<Rightarrow> Status" where
  "applied_status now cfg mode =
     zero_Status\<lparr>st_Status := (case mode of Inl e \<Rightarrow> ''error'' | Inr m \<Rightarrow> ''running''), st_Enabled := True,
                 st_Running := (case mode of Inl e \<Rightarrow> False | Inr m \<Rightarrow> True), st_Mode := (case mode of Inl e \<Rightarrow> ''error'' | Inr m \<Rightarrow> m),
                 st_HTTPSListen := sp_HTTPSListen cfg, st_Profiles := int (length (sp_Profiles cfg)),
                 st_CertificateOwnerSiteID := subscriptionProxyCertificateOwnerSiteID (sp_Profiles cfg),
                 st_LastError := (case mode of Inl e \<Rightarrow> e | Inr m \<Rightarrow> []), st_UpdatedAt := now\<rparr>"

text \<open>The second half of \<open>Apply\<close>, from the preparation of the certificate on.\<close>

definition install_servers :: "'k apply_env \<Rightarrow> SubscriptionProxyConfig \<Rightarrow> string \<Rightarrow> proxy_state \<Rightarrow> string option \<times> proxy_state" where
  "install_servers env cfg fp s =
     (case prepareCertificate (ae_tools env) cfg (ps_files s) of
        (certStatus, fs) \<Rightarrow>
          let mode = choose_mode (ae_tools env) cfg fs; n = ps_next s;
              http = (if TrimSpace (sp_HTTPListen cfg) = [] then None else Some n);
              srv = (case mode of Inl e \<Rightarrow> None | Inr m \<Rightarrow> Some (Suc n));
              m = \<lparr>mg_server = srv, mg_httpServer = http, mg_fingerprint = fp,
                   mg_status = mergeStatus certStatus (applied_status (ae_now env) cfg mode)\<rparr>
          in ((case mode of Inl e \<Rightarrow> Some e | Inr _ \<Rightarrow> None),
              start_server http ChallengeServer (start_server srv MainServer
                (s\<lparr>ps_manager := m, ps_next := n + 2, ps_files := fs\<rparr>))))"

definition Apply :: "'k apply_env \<Rightarrow> SubscriptionProxyConfig \<Rightarrow> proxy_state \<Rightarrow> string option \<times> proxy_state" where
  "Apply env cfg s =
     (case normalizeConfig (ae_parse env) (ae_resolve env) cfg of
        Inl e \<Rightarrow>
          (Some (proxy_error_text e),
           closeWithStatus (zero_Status\<lparr>st_Status := ''error'', st_Enabled := sp_Enabled cfg, st_LastError := proxy_error_text e, st_UpdatedAt := ae_now env\<rparr>) s)
      | Inr c \<Rightarrow>
          if \<not> sp_Enabled c \<or> sp_Profiles c = []
          then (None, closeWithStatus (zero_Status\<lparr>st_Status := ''disabled'', st_Mode := ''disabled'', st_UpdatedAt := ae_now env\<rparr>) s)
          else let fp = fingerprint (ct_print (ae_tools env)) c
               in if mg_server (ps_manager s) \<noteq> None \<and> mg_fingerprint (ps_manager s) = fp then (None, s)
                  else install_servers env c fp (drop_servers id s))"

text \<open>What the goroutine of a server reports when it ends unexpectedly.\<close>

definition setError :: "clock \<Rightarrow> string \<Rightarrow> Manager \<Rightarrow> Manager" where
  "setError now err m =
     m\<lparr>mg_server := None, mg_httpServer := None, mg_fingerprint := [],
       mg_status := (mg_status m)\<lparr>st_Running := False, st_Status := ''error'', st_LastError := err, st_UpdatedAt := now\<rparr>\<rparr>"

definition setHTTPError :: "clock \<Rightarrow> nat \<Rightarrow> string \<Rightarrow> Manager \<Rightarrow> Manager" where
  "setHTTPError now srv err m =
     (let st = mg_status m
      in m\<lparr>mg_httpServer := (if mg_httpServer m = Some srv then None else mg_httpServer m),
           mg_status := (if st_Status st \<noteq> ''running'' then st\<lparr>st_Running := False, st_Status := ''error''\<rparr> else st)
                          \<lparr>st_LastError := err, st_UpdatedAt := now\<rparr>\<rparr>)"

definition server_ends :: "clock \<Rightarrow> nat \<Rightarrow> server_kind \<Rightarrow> string \<Rightarrow> proxy_state \<Rightarrow> proxy_state" where
  "server_ends now n k err s =
     s\<lparr>ps_serving := filter (\<lambda>x. fst x \<noteq> n) (ps_serving s),
       ps_manager := (case k of MainServer \<Rightarrow> setError now err (ps_manager s) | ChallengeServer \<Rightarrow> setHTTPError now n err (ps_manager s))\<rparr>"

text \<open>The events, and the steps they allow: only a server that serves can end.\<close>

datatype 'k proxy_event =
    EvApply "'k apply_env" SubscriptionProxyConfig
  | EvClose clock
  | EvEnds clock nat server_kind string

inductive proxy_step :: "'k proxy_event \<Rightarrow> proxy_state \<Rightarrow> proxy_state \<Rightarrow> bool" where
  apply_step: "Apply env cfg s = (res, s') \<Longrightarrow> proxy_step (EvApply env cfg) s s'"
| close_step: "proxy_step (EvClose now) s (Manager_Close now s)"
| end_step: "(n, k) \<in> set (ps_serving s) \<Longrightarrow> proxy_step (EvEnds now n k err) s (server_ends now n k err s)"

inductive proxy_run :: "'k proxy_event list \<Rightarrow> proxy_state \<Rightarrow> proxy_state \<Rightarrow> bool" where
  run_nil: "proxy_run [] s s"
| run_cons: "proxy_step e s s1 \<Longrightarrow> proxy_run es s1 s2 \<Longrightarrow> proxy_run (e # es) s s2"

inductive_cases proxy_stepE: "proxy_step e s s'"
inductive_simps proxy_run_simps: "proxy_run [] s s'" "proxy_run (e # es) s s'"

definition new_proxy :: "clock \<Rightarrow> files \<Rightarrow> proxy_state" where
  "new_proxy now fs = \<lparr>ps_manager = NewManager now, ps_next = 0, ps_serving = [], ps_files = fs\<rparr>"

section \<open>Lemmas\<close>

definition tracked :: "Manager \<Rightarrow> nat set" where
  "tracked m = set_option (mg_server m) \<union> set_option (mg_httpServer m)"

lemma serving_shutdown: "set (ps_serving (shutdownServer srv s)) = {x \<in> set (ps_serving s). fst x \<notin> set_option srv}"
  by (auto simp: shutdownServer_def split: option.splits)

lemma shutdown_frame [simp]:
  "ps_manager (shutdownServer srv s) = ps_manager s" "ps_next (shutdownServer srv s) = ps_next s" "ps_files (shutdownServer srv s) = ps_files s"
  by (simp_all add: shutdownServer_def split: option.splits)

lemma serving_drop: "set (ps_serving (drop_servers f s)) = {x \<in> set (ps_serving s). fst x \<notin> tracked (ps_manager s)}"
  by (auto simp: drop_servers_def Let_def serving_shutdown tracked_def)

lemma drop_frame [simp]:
  "ps_manager (drop_servers f s) = f ((ps_manager s)\<lparr>mg_server := None, mg_httpServer := None, mg_fingerprint := []\<rparr>)"
  "ps_next (drop_servers f s) = ps_next s"
  by (simp_all add: drop_servers_def Let_def)

lemma serving_start: "set (ps_serving (start_server srv k s)) = set (ps_serving s) \<union> (\<lambda>n. (n, k)) ` set_option srv"
  by (auto simp: start_server_def split: option.splits)

lemma start_frame [simp]:
  "ps_manager (start_server srv k s) = ps_manager s" "ps_next (start_server srv k s) = ps_next s"
  by (simp_all add: start_server_def split: option.splits)

lemma merge_running [simp]: "st_Running (mergeStatus a s) = st_Running s" "st_Status (mergeStatus a s) = st_Status s"
  by (simp_all add: mergeStatus_def)

text \<open>What an installation leaves: its two servers, with numbers not used before.\<close>

lemma install_spec:
  assumes "install_servers env cfg fp s = (res, s')"
  obtains srv http where "ps_serving s' = map (\<lambda>n. (n, ChallengeServer)) (case http of None \<Rightarrow> [] | Some n \<Rightarrow> [n]) @
        map (\<lambda>n. (n, MainServer)) (case srv of None \<Rightarrow> [] | Some n \<Rightarrow> [n]) @ ps_serving s"
    and "mg_server (ps_manager s') = srv" "mg_httpServer (ps_manager s') = http" "mg_fingerprint (ps_manager s') = fp"
    and "ps_next s' = ps_next s + 2" "srv \<in> {None, Some (Suc (ps_next s))}" "http \<in> {None, Some (ps_next s)}"
    and "res = None \<longleftrightarrow> srv \<noteq> None" "st_Running (mg_status (ps_manager s')) \<longleftrightarrow> srv \<noteq> None"
    and "srv \<noteq> None \<longrightarrow> st_Status (mg_status (ps_manager s')) = ''running''"
proof -
  obtain cs fs where p: "prepareCertificate (ae_tools env) cfg (ps_files s) = (cs, fs)" by (metis prod.exhaust)
  show ?thesis
    by (rule that [of "mg_httpServer (ps_manager s')" "mg_server (ps_manager s')"])
       (use assms p in \<open>auto simp: install_servers_def Let_def start_server_def applied_status_def split: sum.splits if_splits\<close>)
qed

text \<open>The servers that serve are those the manager knows, and the status says whether the main one is among them.\<close>

definition proxy_inv :: "proxy_state \<Rightarrow> bool" where
  "proxy_inv s \<longleftrightarrow>
     fst ` set (ps_serving s) = tracked (ps_manager s) \<and> (\<forall>n \<in> tracked (ps_manager s). n < ps_next s) \<and>
     (\<forall>n. mg_server (ps_manager s) = Some n \<longrightarrow> (n, MainServer) \<in> set (ps_serving s)) \<and>
     (\<forall>n. mg_httpServer (ps_manager s) = Some n \<longrightarrow> (n, ChallengeServer) \<in> set (ps_serving s)) \<and>
     (\<forall>n k k'. (n, k) \<in> set (ps_serving s) \<and> (n, k') \<in> set (ps_serving s) \<longrightarrow> k = k') \<and>
     (st_Running (mg_status (ps_manager s)) \<longleftrightarrow> mg_server (ps_manager s) \<noteq> None) \<and>
     (mg_server (ps_manager s) \<noteq> None \<longrightarrow> st_Status (mg_status (ps_manager s)) = ''running'')"

lemma new_proxy_inv: "proxy_inv (new_proxy now fs)"
  by (simp add: proxy_inv_def new_proxy_def NewManager_def tracked_def zero_Status_def)

text \<open>After both servers are dropped nothing serves.\<close>

lemma drop_nothing: "fst ` set (ps_serving s) \<subseteq> tracked (ps_manager s) \<Longrightarrow> ps_serving (drop_servers f s) = []"
proof -
  assume "fst ` set (ps_serving s) \<subseteq> tracked (ps_manager s)"
  then have "set (ps_serving (drop_servers f s)) = {}" unfolding serving_drop by auto
  then show "ps_serving (drop_servers f s) = []" by simp
qed

lemma inv_drop:
  assumes "proxy_inv s" and "mg_server (f m) = None" "mg_httpServer (f m) = None" "\<not> st_Running (mg_status (f m))"
    and "m = (ps_manager s)\<lparr>mg_server := None, mg_httpServer := None, mg_fingerprint := []\<rparr>"
  shows "proxy_inv (drop_servers f s)"
proof -
  have "ps_serving (drop_servers f s) = []" using assms(1) by (intro drop_nothing) (simp add: proxy_inv_def)
  then show ?thesis using assms(2-5) by (simp add: proxy_inv_def tracked_def)
qed

lemma inv_install:
  assumes "install_servers env cfg fp s = (res, s')" and "ps_serving s = []"
  shows "proxy_inv s'"
  using assms(1)
proof (rule install_spec)
  fix srv http
  assume a: "ps_serving s' = map (\<lambda>n. (n, ChallengeServer)) (case http of None \<Rightarrow> [] | Some n \<Rightarrow> [n]) @
        map (\<lambda>n. (n, MainServer)) (case srv of None \<Rightarrow> [] | Some n \<Rightarrow> [n]) @ ps_serving s"
    "mg_server (ps_manager s') = srv" "mg_httpServer (ps_manager s') = http" "ps_next s' = ps_next s + 2"
    "srv \<in> {None, Some (Suc (ps_next s))}" "http \<in> {None, Some (ps_next s)}"
    "st_Running (mg_status (ps_manager s')) \<longleftrightarrow> srv \<noteq> None" "srv \<noteq> None \<longrightarrow> st_Status (mg_status (ps_manager s')) = ''running''"
  then show ?thesis using assms(2) by (cases srv; cases http) (auto simp: proxy_inv_def tracked_def)
qed

lemma inv_apply:
  assumes "Apply env cfg s = (res, s')" and "proxy_inv s"
  shows "proxy_inv s'"
proof -
  have close: "proxy_inv (closeWithStatus st s)" if "\<not> st_Running st" for st
    using inv_drop [OF assms(2)] that by (simp add: closeWithStatus_def)
  have inst: "install_servers env c fp (drop_servers id s) = (r, s2) \<Longrightarrow> proxy_inv s2" for c fp r s2
    by (rule inv_install, assumption, rule drop_nothing) (use assms(2) in \<open>simp add: proxy_inv_def\<close>)
  show ?thesis
    using assms close inst by (auto simp: Apply_def Let_def zero_Status_def split: sum.splits if_splits)
qed

lemma inv_challenge_ends:
  assumes "proxy_inv s" and "(n, ChallengeServer) \<in> set (ps_serving s)"
  shows "proxy_inv (server_ends now n ChallengeServer err s)"
proof -
  have img: "fst ` set (ps_serving s) = tracked (ps_manager s)"
    and lt: "\<And>k. k \<in> tracked (ps_manager s) \<Longrightarrow> k < ps_next s"
    and main: "\<And>k. mg_server (ps_manager s) = Some k \<Longrightarrow> (k, MainServer) \<in> set (ps_serving s)"
    and one: "\<And>k a b. (k, a) \<in> set (ps_serving s) \<Longrightarrow> (k, b) \<in> set (ps_serving s) \<Longrightarrow> a = b"
    using assms(1) by (simp_all add: proxy_inv_def)
  have "mg_server (ps_manager s) \<noteq> Some n"
  proof
    assume "mg_server (ps_manager s) = Some n"
    from one [OF main [OF this] assms(2)] show False by simp
  qed
  moreover have "n \<in> tracked (ps_manager s)" using imageI [OF assms(2), of fst] unfolding img by simp
  ultimately have "mg_httpServer (ps_manager s) = Some n" by (auto simp: tracked_def)
  let ?s = "server_ends now n ChallengeServer err s"
  have m: "mg_server (ps_manager ?s) = mg_server (ps_manager s)" "mg_httpServer (ps_manager ?s) = None"
    "ps_next ?s = ps_next s" "set (ps_serving ?s) = {x \<in> set (ps_serving s). fst x \<noteq> n}"
    using \<open>mg_httpServer (ps_manager s) = Some n\<close> by (auto simp: server_ends_def setHTTPError_def Let_def)
  have t: "tracked (ps_manager ?s) = tracked (ps_manager s) - {n}"
    using \<open>mg_httpServer (ps_manager s) = Some n\<close> \<open>mg_server (ps_manager s) \<noteq> Some n\<close> by (auto simp: tracked_def m)
  have "fst ` set (ps_serving ?s) = fst ` set (ps_serving s) - {n}" unfolding m(4) by auto
  then have f: "fst ` set (ps_serving ?s) = tracked (ps_manager ?s)" unfolding t using assms(1) by (simp add: proxy_inv_def)
  have st: "(st_Running (mg_status (ps_manager ?s)) \<longleftrightarrow> mg_server (ps_manager s) \<noteq> None)"
    "mg_server (ps_manager s) \<noteq> None \<longrightarrow> st_Status (mg_status (ps_manager ?s)) = ''running''"
    using assms(1) by (auto simp: proxy_inv_def server_ends_def setHTTPError_def Let_def)
  show ?thesis
    unfolding proxy_inv_def
  proof (intro conjI allI ballI impI)
    show "fst ` set (ps_serving ?s) = tracked (ps_manager ?s)" by (rule f)
    show "k < ps_next ?s" if "k \<in> tracked (ps_manager ?s)" for k using that lt unfolding t m(3) by simp
    show "(k, MainServer) \<in> set (ps_serving ?s)" if "mg_server (ps_manager ?s) = Some k" for k
      using that main \<open>mg_server (ps_manager s) \<noteq> Some n\<close> unfolding m(1,4) by force
    show "(k, ChallengeServer) \<in> set (ps_serving ?s)" if "mg_httpServer (ps_manager ?s) = Some k" for k
      using that unfolding m(2) by simp
    show "a = b" if "(k, a) \<in> set (ps_serving ?s) \<and> (k, b) \<in> set (ps_serving ?s)" for k a b
      by (rule one [of k]) (use that in \<open>simp_all add: m(4)\<close>)
    show "st_Running (mg_status (ps_manager ?s)) \<longleftrightarrow> mg_server (ps_manager ?s) \<noteq> None" unfolding m(1) by (rule st(1))
    show "st_Status (mg_status (ps_manager ?s)) = ''running''" if "mg_server (ps_manager ?s) \<noteq> None"
      using that st(2) unfolding m(1) by simp
  qed
qed

definition main_ends :: "'k proxy_event \<Rightarrow> bool" where
  "main_ends e = (case e of EvEnds now n k err \<Rightarrow> k = MainServer | _ \<Rightarrow> False)"

lemma inv_step: "proxy_step e s s' \<Longrightarrow> \<not> main_ends e \<Longrightarrow> proxy_inv s \<Longrightarrow> proxy_inv s'"
proof (induction rule: proxy_step.induct)
  case (apply_step env cfg s res s')
  then show ?case using inv_apply by blast
next
  case (close_step now s)
  then show ?case using inv_drop [of s] by (simp add: Manager_Close_def stopped_status_def)
next
  case (end_step n k s now err)
  then show ?case by (cases k) (auto simp: main_ends_def intro: inv_challenge_ends)
qed

lemma inv_run: "proxy_run es s s' \<Longrightarrow> list_all (\<lambda>e. \<not> main_ends e) es \<Longrightarrow> proxy_inv s \<Longrightarrow> proxy_inv s'"
  by (induction rule: proxy_run.induct) (auto intro: inv_step)

text \<open>A challenge server that serves without being known is never stopped again.\<close>

definition leaked :: "nat \<Rightarrow> proxy_state \<Rightarrow> bool" where
  "leaked h s \<longleftrightarrow> (h, ChallengeServer) \<in> set (ps_serving s) \<and> h \<notin> tracked (ps_manager s) \<and> h < ps_next s"

lemma leaked_drop:
  assumes "leaked h s" and "mg_server (f m) = None" "mg_httpServer (f m) = None"
    and "m = (ps_manager s)\<lparr>mg_server := None, mg_httpServer := None, mg_fingerprint := []\<rparr>"
  shows "leaked h (drop_servers f s)"
  using assms by (simp add: leaked_def serving_drop tracked_def)

lemma leaked_install:
  assumes "install_servers env cfg fp s = (res, s')" and "leaked h s"
  shows "leaked h s'"
  using assms(1) by (rule install_spec) (use assms(2) in \<open>auto simp: leaked_def tracked_def\<close>)

lemma leaked_apply:
  assumes "Apply env cfg s = (res, s')" and "leaked h s"
  shows "leaked h s'"
proof -
  have close: "leaked h (closeWithStatus st s)" for st using leaked_drop [OF assms(2)] by (simp add: closeWithStatus_def)
  have inst: "install_servers env c fp (drop_servers id s) = (r, s2) \<Longrightarrow> leaked h s2" for c fp r s2
    by (rule leaked_install, assumption, rule leaked_drop [OF assms(2) _ _ refl]) simp_all
  show ?thesis using assms close inst by (auto simp: Apply_def Let_def split: sum.splits if_splits)
qed

lemma tracked_server_ends: "tracked (ps_manager (server_ends now n k err s)) \<subseteq> tracked (ps_manager s)"
  by (cases k) (auto simp: server_ends_def setError_def setHTTPError_def tracked_def Let_def split: if_splits)

lemma leaked_step:
  "proxy_step e s s' \<Longrightarrow> (\<And>now k err. e \<noteq> EvEnds now h k err) \<Longrightarrow> leaked h s \<Longrightarrow> leaked h s'"
proof (induction rule: proxy_step.induct)
  case (apply_step env cfg s res s')
  then show ?case using leaked_apply by blast
next
  case (close_step now s)
  then show ?case using leaked_drop [of h s] by (simp add: Manager_Close_def)
next
  case (end_step n k s now err)
  then have "n \<noteq> h" by blast
  then show ?case using end_step.prems(2) tracked_server_ends [of now n k err s] by (auto simp: leaked_def server_ends_def)
qed

lemma leaked_run:
  "proxy_run es s s' \<Longrightarrow> (\<And>now k err. EvEnds now h k err \<notin> set es) \<Longrightarrow> leaked h s \<Longrightarrow> leaked h s'"
proof (induction rule: proxy_run.induct)
  case (run_cons e s s1 es s2)
  have "leaked h s1" using run_cons.hyps(1) by (rule leaked_step) (use run_cons.prems in auto)
  then show ?case using run_cons.IH run_cons.prems(1) by auto
qed

lemma main_ends_leaks:
  assumes "proxy_inv s" and "mg_server (ps_manager s) = Some n" and "mg_httpServer (ps_manager s) = Some h"
  shows "leaked h (server_ends now n MainServer err s)"
proof -
  have "(n, MainServer) \<in> set (ps_serving s)" "(h, ChallengeServer) \<in> set (ps_serving s)" "h < ps_next s"
    using assms by (simp_all add: proxy_inv_def tracked_def)
  moreover have "n \<noteq> h" using calculation(1,2) assms(1) unfolding proxy_inv_def by (metis server_kind.distinct(1))
  ultimately show ?thesis by (simp add: leaked_def server_ends_def setError_def tracked_def)
qed

section \<open>Properties\<close>


definition demo_tools :: "unit cert_tools" where
  "demo_tools =
     \<lparr>ct_files = \<lparr>fe_MkdirAll = (\<lambda>_. None), fe_WriteFile = (\<lambda>_. None)\<rparr>, ct_print = (\<lambda>_. []), ct_read = (\<lambda>_. None), ct_crossSigned = [],
      ct_notAfter = (\<lambda>_. None), ct_pem = (\<lambda>_. None), ct_pkcs1 = (\<lambda>_. None), ct_pkcs8 = (\<lambda>_. Inr None), ct_generate = Inr (),
      ct_marshal = (\<lambda>_. ''key''), ct_csr = (\<lambda>_ _. Inr ''csr''), ct_load_pair = (\<lambda>_ _. Inr 1)\<rparr>"

definition demo_apply_env :: "unit apply_env" where
  "demo_apply_env = \<lparr>ae_parse = (\<lambda>_. Some demo_base), ae_resolve = id, ae_tools = demo_tools, ae_now = 1\<rparr>"

definition demo_fallback :: SubscriptionProxyConfig where
  "demo_fallback = demo_subscription\<lparr>sp_HTTPListen := '':80'', sp_AllowHTTPFallback := True\<rparr>"

definition demo_applied :: proxy_state where
  "demo_applied = snd (Apply demo_apply_env demo_fallback (new_proxy 0 []))"

lemma demo_applied_run: "proxy_run [EvApply demo_apply_env demo_fallback] (new_proxy 0 []) demo_applied"
  by (auto simp: proxy_run_simps demo_applied_def intro: apply_step [of _ _ _ "fst (Apply demo_apply_env demo_fallback (new_proxy 0 []))"])

lemma demo_fallback_normal:
  obtains c where "normalizeConfig (\<lambda>_. Some demo_base) id demo_fallback = Inr c" "sp_Enabled c" "sp_Profiles c = [demo_site]"
    "sp_AllowHTTPFallback c" "TrimSpace (sp_HTTPListen c) \<noteq> []" "sp_CertificateDomain c = []" "sp_ZeroSSL c = sp_ZeroSSL zero_SubscriptionProxyConfig"
proof -
  have "normalize_profile demo_site = demo_site" by code_simp
  moreover have "\<not> is_space CHR '':''" "\<not> is_space CHR ''0''" by code_simp+
  ultimately show ?thesis
    using that by (simp add: normalizeConfig_def Let_def normalized_fields_def demo_fallback_def demo_subscription_def all_profiles_def valid_base_def demo_base_def
        demo_site_def zero_SubscriptionProxyConfig_def TrimSpace_def TrimFunc_def TrimRightFunc_def TrimRight_def)
qed

lemma demo_applied_servers: "mg_server (ps_manager demo_applied) = Some 1" "mg_httpServer (ps_manager demo_applied) = Some 0"
proof -
  obtain c where c: "normalizeConfig (\<lambda>_. Some demo_base) id demo_fallback = Inr c" "sp_Enabled c" "sp_Profiles c = [demo_site]"
    "sp_AllowHTTPFallback c" "TrimSpace (sp_HTTPListen c) \<noteq> []" "sp_CertificateDomain c = []" "sp_ZeroSSL c = sp_ZeroSSL zero_SubscriptionProxyConfig"
    by (rule demo_fallback_normal)
  have e: "TrimSpace [] = []" by code_simp
  obtain st where p: "prepareCertificate demo_tools c [] = (st, [])"
    by (simp add: prepareCertificate_def prepare_chain_def prepare_validation_def c(6,7) zero_SubscriptionProxyConfig_def zero_ZeroSSLConfig_def Let_def e)
  have "choose_mode demo_tools c [] = Inr ''http''" by (simp add: choose_mode_def fileReadable_def c(4))
  then have "mg_server (ps_manager demo_applied) = Some 1 \<and> mg_httpServer (ps_manager demo_applied) = Some 0"
    by (simp add: demo_applied_def Apply_def demo_apply_env_def Let_def install_servers_def drop_servers_def shutdownServer_def new_proxy_def NewManager_def p c(1-5))
  then show "mg_server (ps_manager demo_applied) = Some 1" "mg_httpServer (ps_manager demo_applied) = Some 0" by blast+
qed


text \<open>
  C34. When the main server ends unexpectedly, the challenge server is forgotten without being shut down:
  whatever Apply and Close do afterwards, it goes on serving, with its address taken, until it ends
  by itself.
\<close>

theorem failed_server_leaks_challenge_server:
  assumes "proxy_inv s" and "mg_server (ps_manager s) = Some n" and "mg_httpServer (ps_manager s) = Some h"
    and "proxy_run es (server_ends now n MainServer err s) s'" and "\<forall>t k e. EvEnds t h k e \<notin> set es"
  shows "(h, ChallengeServer) \<in> set (ps_serving s') \<and> h \<notin> tracked (ps_manager s')"
  using leaked_run [OF assms(4) _ main_ends_leaks [OF assms(1-3)]] assms(5) by (simp add: leaked_def)

theorem failed_server_leaks_challenge_server_witness:
  "(0, ChallengeServer) \<in> set (ps_serving (Manager_Close 3 (server_ends 2 1 MainServer ''accept'' demo_applied)))"
proof -
  have i: "proxy_inv demo_applied" by (rule inv_run [OF demo_applied_run _ new_proxy_inv]) (simp add: main_ends_def)
  have "proxy_run [EvClose 3 :: unit proxy_event] (server_ends 2 1 MainServer ''accept'' demo_applied)
     (Manager_Close 3 (server_ends 2 1 MainServer ''accept'' demo_applied))"
    by (auto simp: proxy_run_simps intro: close_step)
  from failed_server_leaks_challenge_server [OF i demo_applied_servers this] show ?thesis by simp
qed

end
