(* ===== verification/Go_Text.thy ===== *)
theory Go_Text
  imports Go_Strings
begin

text \<open>
  Reading text line by line and word by word: \<open>bufio.Scanner\<close> with its limit on the length of a line,
  \<open>strings.Fields\<close>, and \<open>strconv.ParseUint\<close> with the value it returns beside an error. The laws say that
  printed lines and words are read back.
\<close>

section \<open>Lines\<close>

abbreviation line_feed :: char where
  "line_feed \<equiv> CHR 0x0A"

definition drop_cr :: "string \<Rightarrow> string" where
  "drop_cr l = (if l \<noteq> [] \<and> last l = CHR 0x0D then butlast l else l)"

text \<open>The scanner stops at a line that does not fit into its buffer.\<close>

definition MaxScanTokenSize :: nat where
  "MaxScanTokenSize = 64 * 1024"

definition scan_lines :: "string \<Rightarrow> string list" where
  "scan_lines s =
     (let ws = SplitChar line_feed s; ls = (if last ws = [] then butlast ws else ws)
      in map drop_cr (takeWhile (\<lambda>l. length l < MaxScanTokenSize) ls))"

definition Fields :: "string \<Rightarrow> string list" where
  "Fields s = FieldsFunc s is_space"

definition unlines :: "string list \<Rightarrow> string" where
  "unlines ls = concat (map (\<lambda>l. l @ [line_feed]) ls)"

section \<open>Unsigned numbers\<close>

text \<open>\<open>ParseUint(s, 10, 64)\<close>: the value and whether there is no error; a number that is too large gives the largest one.\<close>

definition ParseUint :: "string \<Rightarrow> 64 word \<times> bool" where
  "ParseUint s =
     (if s = [] \<or> \<not> list_all is_digit s then (0, False)
      else if digits_val s < 2 ^ 64 then (word_of_nat (digits_val s), True)
      else (- 1, False))"

section \<open>Laws\<close>

lemma SplitChar_unlines: "\<forall>l \<in> set ls. line_feed \<notin> set l \<Longrightarrow> SplitChar line_feed (unlines ls) = ls @ [[]]"
  by (induction ls) (simp_all add: unlines_def SplitChar_append)

definition plain_line :: "string \<Rightarrow> bool" where
  "plain_line l \<longleftrightarrow> line_feed \<notin> set l \<and> CHR 0x0D \<notin> set l \<and> length l < MaxScanTokenSize"

lemma drop_cr_plain: "plain_line l \<Longrightarrow> drop_cr l = l"
  by (auto simp: plain_line_def drop_cr_def dest: last_in_set)

lemma scan_lines_unlines: "list_all plain_line ls \<Longrightarrow> scan_lines (unlines ls) = ls"
proof -
  assume p: "list_all plain_line ls"
  then have "SplitChar line_feed (unlines ls) = ls @ [[]]" by (intro SplitChar_unlines) (auto simp: list_all_iff plain_line_def)
  moreover have t: "takeWhile (\<lambda>l. length l < MaxScanTokenSize) ls = ls" using p by (auto simp: takeWhile_eq_all_conv list_all_iff plain_line_def)
  moreover have "map drop_cr ls = ls" using p by (intro map_idI drop_cr_plain) (simp add: list_all_iff)
  ultimately show ?thesis by (simp add: scan_lines_def Let_def t del: takeWhile_eq_all_conv)
qed

lemma fields_acc_word: "list_all (\<lambda>c. \<not> p c) w \<Longrightarrow> fields_acc p (w @ s) acc = fields_acc p s (rev w @ acc)"
  by (induction w arbitrary: acc) simp_all

lemma is_space_blank [simp]: "is_space CHR '' ''"
  by (simp add: is_space_def)

definition field_word :: "string \<Rightarrow> bool" where
  "field_word w \<longleftrightarrow> w \<noteq> [] \<and> list_all (\<lambda>c. \<not> is_space c) w"

lemma fields_acc_words:
  "list_all field_word ws \<Longrightarrow> acc \<noteq> [] \<Longrightarrow> fields_acc is_space (concat (map (\<lambda>w. CHR '' '' # w) ws)) acc = rev acc # ws"
proof (induction ws arbitrary: acc)
  case (Cons w ws)
  then show ?case by (simp add: field_word_def fields_acc_word)
qed simp

text \<open>Words with blanks before them are read back.\<close>

lemma Fields_words: "list_all field_word ws \<Longrightarrow> Fields (concat (map (\<lambda>w. CHR '' '' # w) ws)) = ws"
  by (cases ws) (simp_all add: Fields_def FieldsFunc_def field_word_def fields_acc_word fields_acc_words)

lemma Fields_word_words: "field_word v \<Longrightarrow> list_all field_word ws \<Longrightarrow> Fields (v @ concat (map (\<lambda>w. CHR '' '' # w) ws)) = v # ws"
  by (simp add: Fields_def FieldsFunc_def field_word_def fields_acc_word fields_acc_words)

lemma digit_not_space: "is_digit c \<Longrightarrow> \<not> is_space c"
  by (auto simp: is_digit_def is_space_def)

lemma field_word_digits [simp]: "field_word (nat_digits n)"
  using nat_digits_digits [of n] by (auto simp: field_word_def list_all_iff digit_not_space)

text \<open>A printed number is read back.\<close>

lemma ParseUint_digits [simp]: "ParseUint (nat_digits (unat w)) = (w, True)" for w :: "64 word"
  using nat_digits_digits [of "unat w"] unsigned_less [of w] by (simp add: ParseUint_def)

lemma length_nat_digits: "n < 10 ^ Suc k \<Longrightarrow> length (nat_digits n) \<le> Suc k"
proof (induction k arbitrary: n)
  case 0
  then show ?case by (subst nat_digits.simps) simp
next
  case (Suc k)
  then have "n div 10 < 10 ^ Suc k" by (simp add: less_mult_imp_div_less mult.commute)
  then show ?case using Suc.IH by (subst nat_digits.simps) simp
qed

lemma length_uint64_digits: "length (nat_digits (unat w)) \<le> 20" for w :: "64 word"
proof -
  have "unat w < 10 ^ Suc 19" using unsigned_less [of w] by (rule order_less_trans) simp
  then show ?thesis using length_nat_digits by fastforce
qed

lemma TrimSpace_plain: "field_word w \<Longrightarrow> TrimSpace w = w"
proof -
  assume "field_word w"
  then have "\<not> is_space (hd w)" "\<not> is_space (last w)" "w \<noteq> []" by (auto simp: field_word_def list_all_iff)
  then have "dropWhile is_space w = w" "dropWhile is_space (rev w) = rev w" by (simp_all add: dropWhile_eq_self_iff hd_rev)
  then show ?thesis by (simp add: TrimSpace_def TrimFunc_def TrimRightFunc_def)
qed

lemma TrimSpace_blank_plain: "field_word w \<Longrightarrow> TrimSpace (CHR '' '' # w) = w"
proof -
  assume p: "field_word w"
  have "TrimSpace (CHR '' '' # w) = TrimSpace w" by (simp add: TrimSpace_def TrimFunc_def)
  then show ?thesis using p by (simp add: TrimSpace_plain)
qed

end
