(* ===== verification/Machine_System.thy ===== *)
theory Machine_System
  imports Go_Text Sub_Proxy
begin

text \<open>
  The system sampler of machine mode (\<open>cmd/machine_system.go\<close>): processor, memory, disk and network
  figures read from \<open>/proc\<close> and \<open>df\<close>, the addresses of the interfaces with their ten minute cache, and
  the snapshot that is reported. \<open>uint64\<close> counters are \<open>64 word\<close>, times are nanoseconds. A \<open>float64\<close>
  is the rational number it stands for: the parameter \<open>fl\<close> rounds an exact result to the nearest one.
\<close>

section \<open>State and environment\<close>

text \<open>The values of the maps that become JSON; \<open>SvOther\<close> holds structures of other components.\<close>

datatype 'x status_value =
    SvUint "64 word" | SvInt int | SvFloat rat | SvText string | SvTexts "string list" | SvMap "(string \<times> 'x status_value) list" | SvMaps "(string \<times> 'x status_value) list list" | SvOther 'x

type_synonym 'x status_map = "(string, 'x status_value) go_map"

record machineCPUSample =
  cs_total :: "64 word"
  cs_idle :: "64 word"

record machineNetworkSample =
  nw_at :: clock
  nw_rxBytes :: "64 word"
  nw_txBytes :: "64 word"

record 'x machineSystemSampler =
  ss_cpu :: machineCPUSample
  ss_hasCPU :: bool
  ss_network :: machineNetworkSample
  ss_hasNetwork :: bool
  ss_cachedIP :: "'x status_map option"
  ss_cachedIPAt :: clock
  ss_hostname :: string
  ss_hostnameSet :: bool

definition newMachineSystemSampler :: "'x machineSystemSampler" where
  "newMachineSystemSampler =
     \<lparr>ss_cpu = \<lparr>cs_total = 0, cs_idle = 0\<rparr>, ss_hasCPU = False, ss_network = \<lparr>nw_at = 0, nw_rxBytes = 0, nw_txBytes = 0\<rparr>, ss_hasNetwork = False,
      ss_cachedIP = None, ss_cachedIPAt = 0, ss_hostname = [], ss_hostnameSet = False\<rparr>"

text \<open>
  What one snapshot sees: the files (\<open>None\<close> when they cannot be read), the output of \<open>df\<close>, the
  interfaces with their printed addresses (an empty one for an address of another type), and
  whether an IPv6 address is global unicast and private. \<open>se_other_float\<close> reads the floating-point
  notations with an exponent, in hexadecimal or by name.
\<close>

record sys_iface =
  si_Up :: bool
  si_Loopback :: bool
  si_Addrs :: "string list option"

record sys_env =
  se_now :: clock
  se_stat :: "string option"
  se_meminfo :: "string option"
  se_df :: "string option"
  se_netdev :: "string option"
  se_uptime :: "string option"
  se_ifaces :: "sys_iface list option"
  se_ipv6 :: "string \<Rightarrow> (bool \<times> bool) option"
  se_hostname :: string
  se_GOOS :: string
  se_GOARCH :: string
  se_fl :: "rat \<Rightarrow> rat"
  se_other_float :: "string \<Rightarrow> rat option"

section \<open>Reading the files\<close>

fun parse_counters :: "string list \<Rightarrow> 64 word list option" where
  "parse_counters [] = Some []"
| "parse_counters (f # fs) =
     (case ParseUint f of
        (v, True) \<Rightarrow> map_option (Cons v) (parse_counters fs)
      | (v, False) \<Rightarrow> None)"

definition readMachineCPUSample :: "string option \<Rightarrow> machineCPUSample option" where
  "readMachineCPUSample stat =
     (case stat of
        None \<Rightarrow> None
      | Some data \<Rightarrow>
          (case scan_lines data of
             [] \<Rightarrow> None
           | line # _ \<Rightarrow>
               let ws = Fields line
               in if length ws < 5 \<or> hd ws \<noteq> ''cpu'' then None
                  else (case parse_counters (tl ws) of
                          None \<Rightarrow> None
                        | Some values \<Rightarrow>
                            Some \<lparr>cs_total = sum_list values, cs_idle = values ! 3 + (if length values > 4 then values ! 4 else 0)\<rparr>)))"

definition meminfo_line :: "string \<Rightarrow> (string, 64 word) go_map \<Rightarrow> (string, 64 word) go_map" where
  "meminfo_line line out =
     (let ws = Fields line
      in if length ws < 2 then out
         else case ParseUint (ws ! 1) of
                (v, True) \<Rightarrow> go_store (TrimSuffix (ws ! 0) '':'') v out
              | (v, False) \<Rightarrow> out)"

definition readMachineMeminfo :: "string option \<Rightarrow> (string, 64 word) go_map" where
  "readMachineMeminfo meminfo = (case meminfo of None \<Rightarrow> [] | Some data \<Rightarrow> fold meminfo_line (scan_lines data) [])"

definition saturatingSub :: "64 word \<Rightarrow> 64 word \<Rightarrow> 64 word" where
  "saturatingSub whole unused = (if whole < unused then 0 else whole - unused)"

definition usage :: "64 word \<Rightarrow> 64 word \<Rightarrow> 'x status_map" where
  "usage whole used = [(''total'', SvUint whole), (''used'', SvUint used)]"

definition readMachineMemoryStatus :: "string option \<Rightarrow> 'x status_map \<times> 'x status_map" where
  "readMachineMemoryStatus meminfo =
     (let v = go_get 0 (readMachineMeminfo meminfo);
          memTotal = v ''MemTotal'' * 1024;
          available = v ''MemAvailable'' * 1024;
          memAvailable = (if available = 0 then (v ''MemFree'' + v ''Buffers'' + v ''Cached'') * 1024 else available);
          swapTotal = v ''SwapTotal'' * 1024;
          swapFree = v ''SwapFree'' * 1024
      in (usage memTotal (saturatingSub memTotal memAvailable), usage swapTotal (saturatingSub swapTotal swapFree)))"

definition readMachineDiskStatus :: "string option \<Rightarrow> 'x status_map" where
  "readMachineDiskStatus df =
     (case df of
        None \<Rightarrow> usage 0 0
      | Some out \<Rightarrow>
          let lines = SplitChar line_feed (TrimSpace out)
          in if length lines < 2 then usage 0 0
             else let ws = Fields (lines ! 1)
                  in if length ws < 3 then usage 0 0 else usage (fst (ParseUint (ws ! 1))) (fst (ParseUint (ws ! 2))))"

definition netdev_line :: "string \<Rightarrow> 64 word \<times> 64 word \<Rightarrow> 64 word \<times> 64 word" where
  "netdev_line line acc =
     (case CutChar line (CHR '':'') of
        (name, payload, found) \<Rightarrow>
          let ifname = TrimSpace name; ws = Fields payload
          in if \<not> found \<or> ifname = [] \<or> ifname = ''lo'' \<or> length ws < 16 then acc
             else case (ParseUint (ws ! 0), ParseUint (ws ! 8)) of
                    ((rx, True), (tx, True)) \<Rightarrow> (fst acc + rx, snd acc + tx)
                  | _ \<Rightarrow> acc)"

definition readMachineNetworkBytes :: "string option \<Rightarrow> 64 word \<times> 64 word" where
  "readMachineNetworkBytes netdev = (case netdev of None \<Rightarrow> (0, 0) | Some data \<Rightarrow> fold netdev_line (scan_lines data) (0, 0))"

text \<open>\<open>strconv.ParseFloat\<close> on plain decimal notation; every other notation is left to the parameter.\<close>

definition decimal_value :: "string \<Rightarrow> rat option" where
  "decimal_value s =
     (let neg = (s \<noteq> [] \<and> hd s = CHR ''-''); ds = (if s \<noteq> [] \<and> (hd s = CHR ''-'' \<or> hd s = CHR ''+'') then tl s else s);
          (whole, frac, dot) = CutChar ds (CHR ''.'')
      in if whole @ frac = [] \<or> \<not> list_all is_digit (whole @ frac) then None
         else Some ((if neg then -1 else 1) * (of_nat (digits_val (whole @ frac)) / 10 ^ length frac)))"

definition ParseFloat :: "(rat \<Rightarrow> rat) \<Rightarrow> (string \<Rightarrow> rat option) \<Rightarrow> string \<Rightarrow> rat option" where
  "ParseFloat fl other s = (case decimal_value s of Some v \<Rightarrow> Some (fl v) | None \<Rightarrow> other s)"

definition readMachineUptimeSeconds :: "(rat \<Rightarrow> rat) \<Rightarrow> (string \<Rightarrow> rat option) \<Rightarrow> string option \<Rightarrow> 64 word" where
  "readMachineUptimeSeconds fl other uptime =
     (case uptime of
        None \<Rightarrow> 0
      | Some data \<Rightarrow>
          (case Fields data of
             [] \<Rightarrow> 0
           | w # _ \<Rightarrow>
               (case ParseFloat fl other w of
                  None \<Rightarrow> 0
                | Some seconds \<Rightarrow> if seconds < 0 then 0 else word_of_int \<lfloor>seconds\<rfloor>)))"

text \<open>The addresses of the interfaces: all of them, the first public IPv4 and the first public IPv6 address.\<close>

definition note_addr :: "(string \<Rightarrow> (bool \<times> bool) option) \<Rightarrow> string \<Rightarrow> string list \<times> string \<times> string \<Rightarrow> string list \<times> string \<times> string" where
  "note_addr ipv6 ipText acc =
     (case acc of (local, v4, v6) \<Rightarrow>
        if ipText = [] then acc
        else case parse_ipv4 ipText of
               Some a \<Rightarrow> (local @ [ipText], if IsGlobalUnicast a \<and> \<not> IsPrivate a \<and> v4 = [] then ipText else v4, v6)
             | None \<Rightarrow>
                 (case ipv6 ipText of
                    Some (global, private) \<Rightarrow> (local @ [ipText], v4, if global \<and> \<not> private \<and> v6 = [] then ipText else v6)
                  | None \<Rightarrow> (local @ [ipText], v4, v6)))"

definition usable_addrs :: "sys_iface \<Rightarrow> string list" where
  "usable_addrs i = (if \<not> si_Up i \<or> si_Loopback i then [] else (case si_Addrs i of None \<Rightarrow> [] | Some as \<Rightarrow> as))"

definition readMachineIPStatus :: "sys_env \<Rightarrow> string \<Rightarrow> 'x status_map" where
  "readMachineIPStatus env hostname =
     (let ifs = (case se_ifaces env of None \<Rightarrow> [] | Some ifs \<Rightarrow> ifs);
          (local, v4, v6) = fold (note_addr (se_ipv6 env)) (concat (map usable_addrs ifs)) ([], [], [])
      in [(''hostname'', SvText hostname), (''public_ipv4'', SvText v4), (''public_ipv6'', SvText v6), (''local'', SvTexts local)])"

section \<open>Sampling\<close>

definition of_uint :: "(rat \<Rightarrow> rat) \<Rightarrow> 64 word \<Rightarrow> rat" where
  "of_uint fl w = fl (of_nat (unat w))"

definition sampleCPUPercent :: "sys_env \<Rightarrow> 'x machineSystemSampler \<Rightarrow> rat \<times> 'x machineSystemSampler" where
  "sampleCPUPercent env s =
     (case readMachineCPUSample (se_stat env) of
        None \<Rightarrow> (0, s)
      | Some current \<Rightarrow>
          if \<not> ss_hasCPU s then (0, s\<lparr>ss_cpu := current, ss_hasCPU := True\<rparr>)
          else let totalDelta = cs_total current - cs_total (ss_cpu s); idleDelta = cs_idle current - cs_idle (ss_cpu s); fl = se_fl env
               in (if totalDelta = 0 \<or> idleDelta > totalDelta then 0
                   else fl (fl (of_uint fl (totalDelta - idleDelta) * 100) / of_uint fl totalDelta),
                   s\<lparr>ss_cpu := current\<rparr>))"

text \<open>\<open>Duration.Seconds\<close>\<close>

definition duration_seconds :: "(rat \<Rightarrow> rat) \<Rightarrow> int \<Rightarrow> rat" where
  "duration_seconds fl d =
     (let sec = go_quot d 1000000000; nsec = d - sec * 1000000000 in fl (fl (of_int sec) + fl (fl (of_int nsec) / 1000000000)))"

definition byte_rate :: "(rat \<Rightarrow> rat) \<Rightarrow> 64 word \<Rightarrow> 64 word \<Rightarrow> rat \<Rightarrow> rat" where
  "byte_rate fl current previous elapsed = (if previous \<le> current then fl (of_uint fl (current - previous) / elapsed) else 0)"

definition sampleNetworkStatus :: "sys_env \<Rightarrow> 'x machineSystemSampler \<Rightarrow> 'x status_map \<times> 'x machineSystemSampler" where
  "sampleNetworkStatus env s =
     (let (rx, tx) = readMachineNetworkBytes (se_netdev env); fl = se_fl env; now = se_now env; old = ss_network s;
          elapsed = duration_seconds fl (now - nw_at old);
          counts = (ss_hasNetwork s \<and> elapsed > 0);
          rxRate = (if counts then byte_rate fl rx (nw_rxBytes old) elapsed else 0);
          txRate = (if counts then byte_rate fl tx (nw_txBytes old) elapsed else 0)
      in ([(''rx_bytes'', SvUint rx), (''tx_bytes'', SvUint tx), (''rx_rate'', SvFloat rxRate), (''tx_rate'', SvFloat txRate),
           (''rx_bps'', SvFloat rxRate), (''tx_bps'', SvFloat txRate)],
          s\<lparr>ss_network := \<lparr>nw_at = now, nw_rxBytes = rx, nw_txBytes = tx\<rparr>, ss_hasNetwork := True\<rparr>))"

definition machineHostname :: "sys_env \<Rightarrow> 'x machineSystemSampler \<Rightarrow> string \<times> 'x machineSystemSampler" where
  "machineHostname env s =
     (if ss_hostnameSet s then (ss_hostname s, s) else (se_hostname env, s\<lparr>ss_hostname := se_hostname env, ss_hostnameSet := True\<rparr>))"

definition ten_minutes :: int where
  "ten_minutes = 600 * 1000000000"

definition sampleIPStatus :: "sys_env \<Rightarrow> 'x machineSystemSampler \<Rightarrow> 'x status_map \<times> 'x machineSystemSampler" where
  "sampleIPStatus env s =
     (case ss_cachedIP s of
        Some ip \<Rightarrow>
          if se_now env - ss_cachedIPAt s < ten_minutes then (ip, s)
          else (case machineHostname env s of (h, s1) \<Rightarrow>
                  (readMachineIPStatus env h, s1\<lparr>ss_cachedIP := Some (readMachineIPStatus env h), ss_cachedIPAt := se_now env\<rparr>))
      | None \<Rightarrow>
          (case machineHostname env s of (h, s1) \<Rightarrow>
             (readMachineIPStatus env h, s1\<lparr>ss_cachedIP := Some (readMachineIPStatus env h), ss_cachedIPAt := se_now env\<rparr>)))"

definition system_map :: "sys_env \<Rightarrow> string \<Rightarrow> 'x status_map \<Rightarrow> 'x status_map" where
  "system_map env hostname ip =
     [(''hostname'', SvText hostname), (''os'', SvText (se_GOOS env)), (''arch'', SvText (se_GOARCH env)), (''ip'', SvMap ip),
      (''collected_at'', SvInt (se_now env div 1000000000))]"

definition system_Snapshot :: "sys_env \<Rightarrow> 'x machineSystemSampler \<Rightarrow> 'x status_map \<times> 'x machineSystemSampler" where
  "system_Snapshot env s =
     (let (cpuPercent, s1) = sampleCPUPercent env s;
          (mem, swap) = readMachineMemoryStatus (se_meminfo env);
          disk = readMachineDiskStatus (se_df env);
          (net, s2) = sampleNetworkStatus env s1;
          (ip, s3) = sampleIPStatus env s2;
          uptime = readMachineUptimeSeconds (se_fl env) (se_other_float env) (se_uptime env);
          (hostname, s4) = machineHostname env s3
      in ([(''cpu'', SvFloat cpuPercent), (''mem'', SvMap mem), (''swap'', SvMap swap), (''disk'', SvMap disk), (''net'', SvMap net),
           (''ip'', SvMap ip), (''system'', SvMap (system_map env hostname ip)), (''uptime'', SvUint uptime)], s4))"

section \<open>Lemmas\<close>

text \<open>The table of network counters as the kernel prints it: header lines without a colon, then a line per device.\<close>

record net_device =
  nd_name :: string
  nd_counters :: "64 word list"

definition net_line :: "net_device \<Rightarrow> string" where
  "net_line d = CHR '' '' # nd_name d @ CHR '':'' # concat (map (\<lambda>w. CHR '' '' # w) (map (\<lambda>c. nat_digits (unat c)) (nd_counters d)))"

definition device_ok :: "net_device \<Rightarrow> bool" where
  "device_ok d \<longleftrightarrow> field_word (nd_name d) \<and> CHR '':'' \<notin> set (nd_name d) \<and> length (nd_name d) \<le> 15 \<and> length (nd_counters d) = 16"

lemma netdev_line_header: "CHR '':'' \<notin> set l \<Longrightarrow> netdev_line l acc = acc"
  by (simp add: netdev_line_def CutChar_absent)

lemma netdev_line_device:
  assumes "device_ok d"
  shows "netdev_line (net_line d) acc =
    (if nd_name d = ''lo'' then acc else (fst acc + nd_counters d ! 0, snd acc + nd_counters d ! 8))"
proof -
  let ?ws = "map (\<lambda>c. nat_digits (unat c)) (nd_counters d)"
  have n: "field_word (nd_name d)" "CHR '':'' \<notin> set (CHR '' '' # nd_name d)" "length ?ws = 16"
    using assms by (auto simp: device_ok_def)
  have "CutChar (net_line d) (CHR '':'') = (CHR '' '' # nd_name d, concat (map (\<lambda>w. CHR '' '' # w) ?ws), True)"
    using CutChar_append [OF n(2)] by (simp add: net_line_def)
  moreover have "Fields (concat (map (\<lambda>w. CHR '' '' # w) ?ws)) = ?ws" by (rule Fields_words) (simp add: list_all_iff)
  moreover have "TrimSpace (CHR '' '' # nd_name d) = nd_name d" using n(1) by (rule TrimSpace_blank_plain)
  ultimately show ?thesis using n by (simp add: netdev_line_def field_word_def)
qed

lemma fold_netdev_headers: "list_all (\<lambda>l. CHR '':'' \<notin> set l) ls \<Longrightarrow> fold netdev_line ls acc = acc"
  by (induction ls) (simp_all add: netdev_line_header)

lemma fold_netdev_devices:
  "list_all device_ok ds \<Longrightarrow>
   fold netdev_line (map net_line ds) (a, b) =
     (a + (\<Sum>d\<leftarrow>filter (\<lambda>d. nd_name d \<noteq> ''lo'') ds. nd_counters d ! 0), b + (\<Sum>d\<leftarrow>filter (\<lambda>d. nd_name d \<noteq> ''lo'') ds. nd_counters d ! 8))"
  by (induction ds arbitrary: a b) (simp_all add: netdev_line_device add.assoc)

lemma length_counters: "length (concat (map (\<lambda>w. CHR '' '' # w) (map (\<lambda>c. nat_digits (unat c)) cs))) \<le> 21 * length cs" for cs :: "64 word list"
proof (induction cs)
  case (Cons c cs)
  then show ?case using length_uint64_digits [of c] by simp
qed simp

lemma plain_word_chars: "field_word w \<Longrightarrow> c \<in> set w \<Longrightarrow> \<not> is_space c"
  by (simp add: field_word_def list_all_iff)

lemma net_line_plain:
  assumes "device_ok d"
  shows "plain_line (net_line d)"
proof -
  have "length (net_line d) \<le> 2 + 15 + 21 * 16" using assms length_counters [of "nd_counters d"] by (simp add: device_ok_def net_line_def)
  moreover have colon: "\<not> is_space CHR '':''" by code_simp
  moreover have "\<not> is_space c \<or> c = CHR '' ''" if "c \<in> set (net_line d)" for c
    using that assms plain_word_chars [OF field_word_digits] plain_word_chars [of "nd_name d"] colon
    by (auto simp: net_line_def device_ok_def split: if_splits)
  moreover have "is_space line_feed" "is_space (CHR 0x0D)" by code_simp+
  ultimately show ?thesis by (fastforce simp: plain_line_def MaxScanTokenSize_def)
qed

text \<open>Rounding to the nearest \<open>float64\<close>: monotone, and exact on the integers up to \<open>2^53\<close>.\<close>

definition rounding :: "(rat \<Rightarrow> rat) \<Rightarrow> bool" where
  "rounding fl \<longleftrightarrow> (\<forall>x y. x \<le> y \<longrightarrow> fl x \<le> fl y) \<and> (\<forall>n \<le> 2 ^ 53. fl (of_nat n) = of_nat n)"

lemma rounding_mono: "rounding fl \<Longrightarrow> x \<le> y \<Longrightarrow> fl x \<le> fl y"
  by (simp add: rounding_def)

lemma rounding_nat: "rounding fl \<Longrightarrow> n \<le> 2 ^ 53 \<Longrightarrow> fl (of_nat n) = of_nat n"
  by (simp add: rounding_def)

lemma rounding_0: "rounding fl \<Longrightarrow> fl 0 = 0"
  using rounding_nat [of fl 0] by simp

lemma rounding_nonneg: "rounding fl \<Longrightarrow> 0 \<le> x \<Longrightarrow> 0 \<le> fl x"
  using rounding_mono [of fl 0 x] by (simp add: rounding_0)

lemma percent_bounds:
  assumes "rounding fl" and "busy \<le> whole" "0 < whole" "whole * 100 \<le> 2 ^ 53"
  shows "0 \<le> fl (fl (fl (of_nat busy) * 100) / fl (of_nat whole)) \<and> fl (fl (fl (of_nat busy) * 100) / fl (of_nat whole)) \<le> 100"
proof -
  have "fl (of_nat whole) = of_nat whole" "fl (of_nat busy) = of_nat busy" using assms by (auto intro: rounding_nat)
  moreover have "fl (of_nat busy * 100) = of_nat busy * 100" using rounding_nat [OF assms(1), of "busy * 100"] assms by simp
  moreover have "(of_nat busy * 100) / of_nat whole \<le> (100 :: rat)" using assms(2,3) by (simp add: field_simps)
  moreover have "fl 100 = 100" using rounding_nat [OF assms(1), of 100] by simp
  ultimately show ?thesis
    using rounding_mono [OF assms(1), of "(of_nat busy * 100) / of_nat whole" 100] rounding_nonneg [OF assms(1), of "(of_nat busy * 100) / of_nat whole"]
    by simp
qed

definition cpu_advance :: "sys_env \<Rightarrow> 'x machineSystemSampler \<Rightarrow> nat" where
  "cpu_advance env s =
     (case readMachineCPUSample (se_stat env) of None \<Rightarrow> 0 | Some c \<Rightarrow> if ss_hasCPU s then unat (cs_total c - cs_total (ss_cpu s)) else 0)"

lemma cpu_percent_bounds:
  assumes "rounding (se_fl env)" and "cpu_advance env s * 100 \<le> 2 ^ 53"
  shows "0 \<le> fst (sampleCPUPercent env s) \<and> fst (sampleCPUPercent env s) \<le> 100"
proof (cases "readMachineCPUSample (se_stat env)")
  case (Some c)
  let ?t = "cs_total c - cs_total (ss_cpu s)" and ?i = "cs_idle c - cs_idle (ss_cpu s)"
  show ?thesis
  proof (cases "\<not> ss_hasCPU s \<or> ?t = 0 \<or> ?i > ?t")
    case True
    then show ?thesis using Some by (auto simp: sampleCPUPercent_def Let_def)
  next
    case False
    have "?t - ?i \<le> ?t" using False by (intro word_sub_le) (simp add: not_less)
    then have "unat (?t - ?i) \<le> unat ?t" by (simp add: word_le_nat_alt)
    moreover have "0 < unat ?t" using False by (simp add: unat_gt_0)
    ultimately show ?thesis
      using percent_bounds [OF assms(1), of "unat (?t - ?i)" "unat ?t"] assms(2) Some False
      by (simp add: sampleCPUPercent_def Let_def of_uint_def cpu_advance_def del: of_nat_unat)
  qed
qed (simp add: sampleCPUPercent_def)

lemma saturatingSub_le: "saturatingSub a b \<le> a"
  by (simp add: saturatingSub_def word_sub_le)

lemma rate_nonneg: "rounding fl \<Longrightarrow> 0 < elapsed \<Longrightarrow> 0 \<le> byte_rate fl a b elapsed"
  using rounding_nonneg [of fl "of_nat (unat (a - b))"] rounding_nonneg [of fl "fl (of_nat (unat (a - b))) / elapsed"]
  by (simp add: byte_rate_def of_uint_def del: of_nat_unat)

lemma memory_status:
  obtains mt mu st su where "readMachineMemoryStatus meminfo = (usage mt mu, usage st su)" "mu \<le> mt" "su \<le> st"
  by (rule that [of "go_get 0 (readMachineMeminfo meminfo) ''MemTotal'' * 1024" _ "go_get 0 (readMachineMeminfo meminfo) ''SwapTotal'' * 1024"])
     (auto simp: readMachineMemoryStatus_def Let_def saturatingSub_le)

lemma network_status:
  assumes "rounding (se_fl env)"
  obtains rx tx rr tr where "fst (sampleNetworkStatus env s) =
     [(''rx_bytes'', SvUint rx), (''tx_bytes'', SvUint tx), (''rx_rate'', SvFloat rr), (''tx_rate'', SvFloat tr), (''rx_bps'', SvFloat rr), (''tx_bps'', SvFloat tr)]"
    "(rx, tx) = readMachineNetworkBytes (se_netdev env)" "0 \<le> rr" "0 \<le> tr"
proof -
  obtain rx tx where "readMachineNetworkBytes (se_netdev env) = (rx, tx)" by fastforce
  then show ?thesis using that rate_nonneg [OF assms] by (auto simp: sampleNetworkStatus_def Let_def)
qed

section \<open>Properties\<close>

text \<open>
  The network counters are read back from the table of the kernel: whatever devices it lists,
  the totals are the sums (modulo \<open>2^64\<close>) of the received and sent bytes of all devices but the
  loopback device.
\<close>

theorem network_counters_read_back:
  assumes "list_all (\<lambda>l. plain_line l \<and> CHR '':'' \<notin> set l) headers" and "list_all device_ok devices"
  shows "readMachineNetworkBytes (Some (unlines (headers @ map net_line devices))) =
    (\<Sum>d\<leftarrow>filter (\<lambda>d. nd_name d \<noteq> ''lo'') devices. nd_counters d ! 0, \<Sum>d\<leftarrow>filter (\<lambda>d. nd_name d \<noteq> ''lo'') devices. nd_counters d ! 8)"
proof -
  have "list_all plain_line (headers @ map net_line devices)" using assms net_line_plain by (auto simp: list_all_iff)
  then have "scan_lines (unlines (headers @ map net_line devices)) = headers @ map net_line devices" by (rule scan_lines_unlines)
  moreover have "fold netdev_line headers (0, 0) = (0, 0)" using assms(1) by (intro fold_netdev_headers) (simp add: list_all_iff)
  ultimately show ?thesis using fold_netdev_devices [OF assms(2), of 0 0] by (simp add: readMachineNetworkBytes_def)
qed

theorem network_counters_read_back_witness:
  "readMachineNetworkBytes (Some (unlines ([''Inter''] @ map net_line
     [\<lparr>nd_name = ''lo'', nd_counters = replicate 16 5\<rparr>, \<lparr>nd_name = ''eth0'', nd_counters = [-1, 0, 0, 0, 0, 0, 0, 0, 7, 0, 0, 0, 0, 0, 0, 0]\<rparr>,
      \<lparr>nd_name = ''eth1'', nd_counters = replicate 16 3\<rparr>]))) = (2, 10)"
proof -
  let ?ds = "[\<lparr>nd_name = ''lo'', nd_counters = replicate 16 5\<rparr>, \<lparr>nd_name = ''eth0'', nd_counters = [-1, 0, 0, 0, 0, 0, 0, 0, 7, 0, 0, 0, 0, 0, 0, 0]\<rparr>,
      \<lparr>nd_name = ''eth1'', nd_counters = replicate 16 3\<rparr>]"
  have "list_all (\<lambda>l. plain_line l \<and> CHR '':'' \<notin> set l) [''Inter'']" by (simp add: plain_line_def MaxScanTokenSize_def)
  moreover have "list_all device_ok ?ds" by (simp add: device_ok_def field_word_def is_space_def)
  ultimately show ?thesis by (subst network_counters_read_back) (simp_all add: nth_Cons')
qed

text \<open>
  The figures of every snapshot are sane: the processor load is between 0 and 100 percent, no more
  memory and swap is used than there is, and no transfer rate is negative, also when the counters of
  the kernel wrapped or were reset in between. The rounding to \<open>float64\<close> is monotone and exact on
  the integers up to \<open>2^53\<close>, and the counters advanced by less than \<open>2^53 / 100\<close> ticks.
\<close>

theorem snapshot_values_sane:
  fixes s :: "'x machineSystemSampler"
  assumes "rounding (se_fl env)" and "cpu_advance env s * 100 \<le> 2 ^ 53"
  shows "\<exists>p mt mu st su rr tr net. let snap = fst (system_Snapshot env s) in
     go_load snap ''cpu'' = Some (SvFloat p) \<and> 0 \<le> p \<and> p \<le> 100 \<and>
     go_load snap ''mem'' = Some (SvMap (usage mt mu)) \<and> mu \<le> mt \<and> go_load snap ''swap'' = Some (SvMap (usage st su)) \<and> su \<le> st \<and>
     go_load snap ''net'' = Some (SvMap net) \<and> go_load net ''rx_rate'' = Some (SvFloat rr) \<and> go_load net ''tx_rate'' = Some (SvFloat tr) \<and> 0 \<le> rr \<and> 0 \<le> tr"
proof -
  obtain p s1 where p: "sampleCPUPercent env s = (p, s1)" by fastforce
  obtain net s2 where n: "sampleNetworkStatus env s1 = (net, s2)" by fastforce
  obtain mt mu st su where m: "readMachineMemoryStatus (se_meminfo env) = (usage mt mu :: 'x status_map, usage st su)" "mu \<le> mt" "su \<le> st" by (rule memory_status)
  obtain rr tr where r: "go_load net ''rx_rate'' = Some (SvFloat rr)" "go_load net ''tx_rate'' = Some (SvFloat tr)" "0 \<le> rr" "0 \<le> tr"
  proof (rule network_status [OF assms(1), of s1])
    fix rx tx rr tr
    assume "fst (sampleNetworkStatus env s1) = [(''rx_bytes'', SvUint rx), (''tx_bytes'', SvUint tx), (''rx_rate'', SvFloat rr), (''tx_rate'', SvFloat tr), (''rx_bps'', SvFloat rr), (''tx_bps'', SvFloat tr)]"
      "0 \<le> rr" "0 \<le> tr"
    then show thesis using that [of rr tr] n by (simp add: go_load_def)
  qed
  have g: "go_load (fst (system_Snapshot env s)) ''cpu'' = Some (SvFloat p)" "go_load (fst (system_Snapshot env s)) ''mem'' = Some (SvMap (usage mt mu))"
    "go_load (fst (system_Snapshot env s)) ''swap'' = Some (SvMap (usage st su))" "go_load (fst (system_Snapshot env s)) ''net'' = Some (SvMap net)"
    by (simp_all add: system_Snapshot_def p n m(1) Let_def go_load_def split: prod.splits)
  have "0 \<le> p" "p \<le> 100" using cpu_percent_bounds [OF assms] p by simp_all
  then show ?thesis unfolding Let_def using g m(2,3) r by blast
qed

definition demo_sys_env :: sys_env where
  "demo_sys_env =
     \<lparr>se_now = 0, se_stat = Some ''cpu 10 0 0 30 0'', se_meminfo = Some ''MemTotal: 8 kB'', se_df = None, se_netdev = None, se_uptime = None, se_ifaces = None,
      se_ipv6 = (\<lambda>_. None), se_hostname = ''h'', se_GOOS = ''linux'', se_GOARCH = ''amd64'', se_fl = id, se_other_float = (\<lambda>_. None)\<rparr>"

definition demo_sampler :: "unit machineSystemSampler" where
  "demo_sampler = newMachineSystemSampler\<lparr>ss_cpu := \<lparr>cs_total = 20, cs_idle = 15\<rparr>, ss_hasCPU := True\<rparr>"

theorem snapshot_values_sane_witness:
  "rounding (se_fl demo_sys_env) \<and> cpu_advance demo_sys_env demo_sampler = 20 \<and>
   (\<exists>p. go_load (fst (system_Snapshot demo_sys_env demo_sampler)) ''cpu'' = Some (SvFloat p) \<and> 0 \<le> p \<and> p \<le> 100)"
proof -
  have r: "rounding (se_fl demo_sys_env)" by (simp add: rounding_def demo_sys_env_def)
  moreover have a: "cpu_advance demo_sys_env demo_sampler = 20"
  proof -
    have l: "scan_lines ''cpu 10 0 0 30 0'' = [''cpu 10 0 0 30 0'']" "Fields ''cpu 10 0 0 30 0'' = [''cpu'', ''10'', ''0'', ''0'', ''30'', ''0'']"
      by (simp_all add: scan_lines_def Let_def drop_cr_def MaxScanTokenSize_def Fields_def FieldsFunc_def is_space_def)
    have "parse_counters [''10'', ''0'', ''0'', ''30'', ''0''] = Some [10, 0, 0, 30, 0]"
      by (simp add: ParseUint_def is_digit_def digits_val_def digit_val_def)
    then have "readMachineCPUSample (se_stat demo_sys_env) = Some \<lparr>cs_total = 40, cs_idle = 30\<rparr>"
      by (simp add: readMachineCPUSample_def demo_sys_env_def l del: parse_counters.simps)
    then show ?thesis by (simp add: cpu_advance_def demo_sampler_def)
  qed
  moreover have b: "cpu_advance demo_sys_env demo_sampler * 100 \<le> 2 ^ 53" by (simp add: a)
  ultimately show ?thesis using snapshot_values_sane [OF r b] by (auto simp: Let_def)
qed

end
