(* ===== verification/Agent_Upgrade.thy ===== *)
theory Agent_Upgrade
  imports Go_Text Core_Users
begin

text \<open>
  Upgrades that the panel asks for (\<open>cmd/self_update.go\<close>, \<open>cmd/version.go\<close>): the version the agent
  reports, which commands are accepted, the state of the last one, and the shell commands that are
  run. The goroutine that a request starts is pending until it reports a failure or ends. A small reader
  of POSIX shell words is the reference for the quoting.
\<close>

section \<open>Versions\<close>

definition isPlaceholderVersion :: "string \<Rightarrow> bool" where
  "isPlaceholderVersion value = (let v = TrimSpace value in v = [] \<or> v = ''TempVersion'' \<or> v = ''dev'')"

text \<open>The linked version, or the first installed version file that can be read and is not blank.\<close>

fun installed_version :: "string option list \<Rightarrow> string" where
  "installed_version [] = []"
| "installed_version (None # fs) = installed_version fs"
| "installed_version (Some data # fs) = (if TrimSpace data \<noteq> [] then TrimSpace data else installed_version fs)"

definition currentKelinodeVersion :: "string \<Rightarrow> string option list \<Rightarrow> string" where
  "currentKelinodeVersion linked files =
     (let v = TrimSpace linked in if v \<noteq> [] \<and> \<not> isPlaceholderVersion v then v else installed_version files)"

definition TrimLeft :: "string \<Rightarrow> string \<Rightarrow> string" where
  "TrimLeft s cutset = dropWhile (\<lambda>c. c \<in> set cutset) s"

definition versionsEqual :: "string \<Rightarrow> string \<Rightarrow> bool" where
  "versionsEqual current target \<longleftrightarrow> TrimLeft (TrimSpace current) ''vV'' = TrimLeft (TrimSpace target) ''vV''"

definition is_alnum :: "char \<Rightarrow> bool" where
  "is_alnum c \<longleftrightarrow> (let n = of_char c :: nat in 48 \<le> n \<and> n \<le> 57 \<or> 65 \<le> n \<and> n \<le> 90 \<or> 97 \<le> n \<and> n \<le> 122)"

definition version_char :: "char \<Rightarrow> bool" where
  "version_char c \<longleftrightarrow> is_alnum c \<or> c \<in> set ''._-''"

definition version_body :: "string \<Rightarrow> bool" where
  "version_body s = (case s of [] \<Rightarrow> False | c # r \<Rightarrow> is_alnum c \<and> list_all version_char r \<and> length r \<le> 63)"

definition kelinodeVersionPattern :: "string \<Rightarrow> bool" where
  "kelinodeVersionPattern s \<longleftrightarrow> version_body s \<or> (s \<noteq> [] \<and> hd s = CHR ''v'' \<and> version_body (tl s))"

section \<open>Commands of the shell\<close>

definition shellQuote :: "string \<Rightarrow> string" where
  "shellQuote value = CHR 0x27 # ReplaceAllChar value (CHR 0x27) [CHR 0x27, CHR 0x22, CHR 0x27, CHR 0x22, CHR 0x27] @ [CHR 0x27]"

text \<open>Every maximal run of other characters becomes one dash.\<close>

fun dash_runs :: "bool \<Rightarrow> string \<Rightarrow> string" where
  "dash_runs inside [] = []"
| "dash_runs inside (c # s) =
     (if version_char c then c # dash_runs False s
      else if inside then dash_runs True s
      else CHR ''-'' # dash_runs True s)"

definition sanitizeSystemdUnitPart :: "string \<Rightarrow> string" where
  "sanitizeSystemdUnitPart value = (let v = Trim (dash_runs False value) ''.-'' in if v = [] then ''latest'' else v)"

definition truncateUpgradeError :: "string \<Rightarrow> string" where
  "truncateUpgradeError value = (let v = TrimSpace value in if length v \<le> 1000 then v else take 1000 v)"

definition scriptURL :: string where
  "scriptURL = ''https://raw.githubusercontent.com/keli-123456/kelinode/main/script/install.sh''"

definition install_script :: "string \<Rightarrow> string" where
  "install_script targetVersion =
     ''curl -fsSL '' @ shellQuote scriptURL @ '' -o /tmp/v2node-install.sh && bash /tmp/v2node-install.sh '' @ shellQuote targetVersion"

text \<open>Whether \<open>systemd-run\<close> is found, and how a command ends: an error with the output, or \<open>None\<close>.\<close>

record launch_env =
  le_systemd :: bool
  le_run :: "string list \<Rightarrow> (string \<times> string) option"

definition detached_command :: "string \<Rightarrow> string" where
  "detached_command script = ''nohup /bin/sh -c '' @ shellQuote (''sleep 1; '' @ script) @ '' >/tmp/v2node-self-update.log 2>&1 &''"

definition launch_argv :: "bool \<Rightarrow> string \<Rightarrow> string list" where
  "launch_argv systemd target =
     (if systemd
      then [''systemd-run'', ''--unit'', ''v2node-self-update-'' @ sanitizeSystemdUnitPart target, ''--description=v2node self update'',
            ''/bin/sh'', ''-c'', install_script target]
      else [''/bin/sh'', ''-c'', detached_command (install_script target)])"

text \<open>The command that was run, if any, and the error.\<close>

definition launchMachineUpgrade :: "launch_env \<Rightarrow> string \<Rightarrow> string list option \<times> string option" where
  "launchMachineUpgrade env targetVersion =
     (let target = TrimSpace targetVersion; argv = launch_argv (le_systemd env) target
      in if \<not> kelinodeVersionPattern target then (None, Some ''invalid target version'')
         else (Some argv,
               (case le_run env argv of
                  None \<Rightarrow> None
                | Some (err, out) \<Rightarrow>
                    Some ((if le_systemd env then ''start systemd update failed: '' else ''start detached update failed: '') @ err @ '': '' @ TrimSpace out))))"

section \<open>The state of the upgrade\<close>

record machineUpgradeStatus =
  us_ID :: string
  us_Status :: string
  us_TargetVersion :: string
  us_Error :: string
  us_StartedAt :: int
  us_FinishedAt :: int
  us_UpdatedAt :: int

record machineUpgradeCommand =
  uc_ID :: string
  uc_TargetVersion :: string

definition trimmed :: "machineUpgradeCommand \<Rightarrow> machineUpgradeCommand" where
  "trimmed c = \<lparr>uc_ID = TrimSpace (uc_ID c), uc_TargetVersion = TrimSpace (uc_TargetVersion c)\<rparr>"

definition accepted :: "machineUpgradeCommand \<Rightarrow> bool" where
  "accepted c \<longleftrightarrow> uc_ID c \<noteq> [] \<and> kelinodeVersionPattern (uc_TargetVersion c)"

definition started_status :: "int \<Rightarrow> machineUpgradeCommand \<Rightarrow> machineUpgradeStatus" where
  "started_status now c =
     \<lparr>us_ID = uc_ID c, us_Status = ''running'', us_TargetVersion = uc_TargetVersion c, us_Error = [], us_StartedAt = now, us_FinishedAt = 0, us_UpdatedAt = now\<rparr>"

text \<open>The new state, and the command for which a goroutine is started.\<close>

definition requestMachineUpgrade ::
  "int \<Rightarrow> string \<Rightarrow> machineUpgradeCommand \<Rightarrow> machineUpgradeStatus option \<Rightarrow> machineUpgradeStatus option \<times> machineUpgradeCommand option" where
  "requestMachineUpgrade now version command st =
     (let c = trimmed command
      in if \<not> accepted c then (st, None)
         else if (case st of None \<Rightarrow> False | Some s \<Rightarrow> us_ID s = uc_ID c \<and> us_Status s \<in> {''running'', ''succeeded''}) then (st, None)
         else if versionsEqual version (uc_TargetVersion c)
         then (Some ((started_status now c)\<lparr>us_Status := ''succeeded'', us_FinishedAt := now\<rparr>), None)
         else (Some (started_status now c), Some c))"

definition markMachineUpgradeFailed :: "int \<Rightarrow> string \<Rightarrow> string \<Rightarrow> machineUpgradeStatus option \<Rightarrow> machineUpgradeStatus option" where
  "markMachineUpgradeFailed now i err st =
     (case st of
        None \<Rightarrow> None
      | Some s \<Rightarrow>
          if us_ID s \<noteq> i then Some s
          else Some (s\<lparr>us_Status := ''failed'', us_Error := truncateUpgradeError err, us_FinishedAt := now, us_UpdatedAt := now\<rparr>))"

definition runMachineUpgrade :: "launch_env \<Rightarrow> int \<Rightarrow> machineUpgradeCommand \<Rightarrow> machineUpgradeStatus option \<Rightarrow> machineUpgradeStatus option" where
  "runMachineUpgrade env now c st =
     (case snd (launchMachineUpgrade env (uc_TargetVersion c)) of
        None \<Rightarrow> st
      | Some err \<Rightarrow> markMachineUpgradeFailed now (uc_ID c) err st)"

text \<open>Requests, and the ends of the goroutines they started, in any order.\<close>

record upgrade_world =
  uw_status :: "machineUpgradeStatus option"
  uw_pending :: "machineUpgradeCommand list"
  uw_launched :: "machineUpgradeCommand list"

datatype upgrade_event = Requested int string machineUpgradeCommand | Ended int launch_env machineUpgradeCommand

inductive upgrade_step :: "upgrade_event \<Rightarrow> upgrade_world \<Rightarrow> upgrade_world \<Rightarrow> bool" where
  request_step: "requestMachineUpgrade now version c (uw_status w) = (st, go) \<Longrightarrow>
     upgrade_step (Requested now version c) w
       (w\<lparr>uw_status := st, uw_pending := (case go of None \<Rightarrow> uw_pending w | Some d \<Rightarrow> d # uw_pending w),
          uw_launched := (case go of None \<Rightarrow> uw_launched w | Some d \<Rightarrow> uw_launched w @ [d])\<rparr>)"
| ended_step: "c \<in> set (uw_pending w) \<Longrightarrow>
     upgrade_step (Ended now env c) w (w\<lparr>uw_status := runMachineUpgrade env now c (uw_status w), uw_pending := remove1 c (uw_pending w)\<rparr>)"

inductive upgrade_run :: "upgrade_event list \<Rightarrow> upgrade_world \<Rightarrow> upgrade_world \<Rightarrow> bool" where
  upgrade_nil: "upgrade_run [] w w"
| upgrade_cons: "upgrade_step e w w1 \<Longrightarrow> upgrade_run es w1 w2 \<Longrightarrow> upgrade_run (e # es) w w2"

inductive_cases request_stepE: "upgrade_step (Requested now version c) w w'"
inductive_simps upgrade_run_simps: "upgrade_run [] w w'" "upgrade_run (e # es) w w'"

definition new_upgrades :: upgrade_world where
  "new_upgrades = \<lparr>uw_status = None, uw_pending = [], uw_launched = []\<rparr>"

section \<open>The shell as reference\<close>

text \<open>
  Reading one word: single quotes keep everything, double quotes and bare text are read as far as they
  hold no character with a meaning of its own. The result is the word and the text after it.
\<close>

datatype sh_mode = Bare | Single | Double

definition sh_special :: "char \<Rightarrow> bool" where
  "sh_special c \<longleftrightarrow> c \<in> set ''|&;<>()$*?[]#~=%{}!'' \<or> c = CHR 0x5C \<or> c = CHR 0x60 \<or> c = CHR 0x0A \<or> c = CHR 0x09"

fun sh_word :: "sh_mode \<Rightarrow> string \<Rightarrow> string \<Rightarrow> (string \<times> string) option" where
  "sh_word Bare [] acc = Some (rev acc, [])"
| "sh_word Bare (c # s) acc =
     (if c = CHR '' '' then Some (rev acc, c # s)
      else if c = CHR 0x27 then sh_word Single s acc
      else if c = CHR 0x22 then sh_word Double s acc
      else if sh_special c then None
      else sh_word Bare s (c # acc))"
| "sh_word Single [] acc = None"
| "sh_word Single (c # s) acc = (if c = CHR 0x27 then sh_word Bare s acc else sh_word Single s (c # acc))"
| "sh_word Double [] acc = None"
| "sh_word Double (c # s) acc =
     (if c = CHR 0x22 then sh_word Bare s acc
      else if c \<in> set ''$!'' \<or> c = CHR 0x5C \<or> c = CHR 0x60 then None
      else sh_word Double s (c # acc))"

section \<open>Lemmas\<close>

lemma sh_word_quoted:
  "sh_word Single (ReplaceAllChar v (CHR 0x27) [CHR 0x27, CHR 0x22, CHR 0x27, CHR 0x22, CHR 0x27] @ CHR 0x27 # s) acc = sh_word Bare s (rev v @ acc)"
  by (induction v arbitrary: acc) (simp_all add: ReplaceAllChar_def)

lemma sh_word_shellQuote: "sh_word Bare (shellQuote v @ s) acc = sh_word Bare s (rev v @ acc)"
  using sh_word_quoted [of v s acc] by (simp add: shellQuote_def)

lemma dash_runs_chars: "list_all version_char (dash_runs b s)"
  by (induction b s rule: dash_runs.induct) (simp_all add: version_char_def)

lemma set_Trim: "set (Trim s cutset) \<subseteq> set s"
  by (auto simp: Trim_def TrimFunc_def TrimRightFunc_def dest!: set_dropWhileD)

lemma unit_part_chars: "sanitizeSystemdUnitPart v \<noteq> [] \<and> list_all version_char (sanitizeSystemdUnitPart v)"
proof -
  have "list_all version_char ''latest''" by code_simp
  then show ?thesis using dash_runs_chars [of False v] set_Trim [of "dash_runs False v" "''.-''"]
    by (auto simp: sanitizeSystemdUnitPart_def Let_def list_all_iff)
qed

lemma pattern_chars: "kelinodeVersionPattern s \<Longrightarrow> list_all version_char s \<and> s \<noteq> [] \<and> length s \<le> 65"
proof -
  have "version_char CHR ''v''" by code_simp
  then show "kelinodeVersionPattern s \<Longrightarrow> ?thesis"
    by (cases s) (auto simp: kelinodeVersionPattern_def version_body_def version_char_def split: list.splits)
qed

text \<open>A command is not started again while its state says running or succeeded.\<close>

definition settled :: "string \<Rightarrow> machineUpgradeStatus option \<Rightarrow> bool" where
  "settled i st = (case st of None \<Rightarrow> False | Some s \<Rightarrow> us_ID s = i \<and> us_Status s \<in> {''running'', ''succeeded''})"

lemma request_settles:
  assumes "requestMachineUpgrade now version c st = (st', go)" and "accepted (trimmed c)"
  shows "settled (uc_ID (trimmed c)) st'"
  using assms by (auto simp: requestMachineUpgrade_def Let_def settled_def started_status_def split: if_splits option.splits)

lemma settled_not_started:
  assumes "requestMachineUpgrade now version c st = (st', go)" and "settled i st" and "TrimSpace (uc_ID c) = i"
  shows "go = None \<and> st' = st"
  using assms by (auto simp: requestMachineUpgrade_def Let_def settled_def trimmed_def split: if_splits option.splits)

lemma not_accepted_same: "requestMachineUpgrade now version c st = (st', go) \<Longrightarrow> \<not> accepted (trimmed c) \<Longrightarrow> st' = st"
  by (auto simp: requestMachineUpgrade_def Let_def)

definition disturbs :: "string \<Rightarrow> upgrade_event \<Rightarrow> bool" where
  "disturbs i e =
     (case e of
        Requested now version c \<Rightarrow> accepted (trimmed c) \<and> TrimSpace (uc_ID c) \<noteq> i
      | Ended now env c \<Rightarrow> uc_ID c = i \<and> snd (launchMachineUpgrade env (uc_TargetVersion c)) \<noteq> None)"

lemma settled_step: "upgrade_step e w w' \<Longrightarrow> \<not> disturbs i e \<Longrightarrow> settled i (uw_status w) \<Longrightarrow> settled i (uw_status w')"
proof (induction rule: upgrade_step.induct)
  case (request_step now version c w st go)
  have "st = uw_status w"
    using settled_not_started [OF request_step.hyps request_step.prems(2)] not_accepted_same [OF request_step.hyps] request_step.prems(1)
    by (auto simp: disturbs_def)
  then show ?case using request_step.prems by simp
next
  case (ended_step c w now env)
  then show ?case by (auto simp: disturbs_def runMachineUpgrade_def markMachineUpgradeFailed_def settled_def split: option.splits)
qed

lemma settled_run: "upgrade_run es w w' \<Longrightarrow> \<forall>e \<in> set es. \<not> disturbs i e \<Longrightarrow> settled i (uw_status w) \<Longrightarrow> settled i (uw_status w')"
  by (induction rule: upgrade_run.induct) (auto intro: settled_step)

section \<open>Properties\<close>

text \<open>
  C35. The install script gets exactly the requested version: whatever text the panel sends, a command is run
  only for a version of at most 65 harmless characters, and the shell reads it back as one word of
  the script, directly or, when the update is started detached, through a second level of quoting.
\<close>

theorem upgrade_script_gets_version:
  assumes "launchMachineUpgrade env v = (Some argv, err)"
  shows "list_all version_char (TrimSpace v) \<and> TrimSpace v \<noteq> [] \<and> length (TrimSpace v) \<le> 65 \<and>
    (\<exists>front quoted. front \<noteq> [] \<and> last front = CHR '' '' \<and> sh_word Bare quoted [] = Some (TrimSpace v, []) \<and>
       (if le_systemd env then last argv = front @ quoted
        else \<exists>pre word post. last argv = pre @ word @ post \<and> last pre = CHR '' '' \<and> sh_word Bare (word @ post) [] = Some (''sleep 1; '' @ front @ quoted, post)))"
proof -
  let ?v = "TrimSpace v"
  have k: "kelinodeVersionPattern ?v" and a: "argv = launch_argv (le_systemd env) ?v"
    using assms by (auto simp: launchMachineUpgrade_def Let_def split: if_splits)
  define front where "front = ''curl -fsSL '' @ shellQuote scriptURL @ '' -o /tmp/v2node-install.sh && bash /tmp/v2node-install.sh ''"
  then have f: "install_script ?v = front @ shellQuote ?v" "front \<noteq> []" "last front = CHR '' ''" by (simp_all add: install_script_def)
  have q: "sh_word Bare (shellQuote ?v) [] = Some (?v, [])" using sh_word_shellQuote [of ?v "[]" "[]"] by simp
  have d: "\<exists>pre word post. detached_command (front @ shellQuote ?v) = pre @ word @ post \<and> last pre = CHR '' '' \<and>
      sh_word Bare (word @ post) [] = Some (''sleep 1; '' @ front @ shellQuote ?v, post)"
    by (rule exI [of _ "''nohup /bin/sh -c ''"], rule exI [of _ "shellQuote (''sleep 1; '' @ front @ shellQuote ?v)"],
        rule exI [of _ "'' >/tmp/v2node-self-update.log 2>&1 &''"]) (simp add: detached_command_def sh_word_shellQuote)
  have l: "last argv = (if le_systemd env then front @ shellQuote ?v else detached_command (front @ shellQuote ?v))"
    by (simp add: a launch_argv_def f(1))
  have "if le_systemd env then last argv = front @ shellQuote ?v
      else \<exists>pre word post. last argv = pre @ word @ post \<and> last pre = CHR '' '' \<and> sh_word Bare (word @ post) [] = Some (''sleep 1; '' @ front @ shellQuote ?v, post)"
    using d unfolding l by simp
  then show ?thesis using pattern_chars [OF k] f q by blast
qed

theorem upgrade_script_gets_version_witness:
  "\<exists>argv. launchMachineUpgrade \<lparr>le_systemd = False, le_run = (\<lambda>_. None)\<rparr> '' v1.2 '' = (Some argv, None) \<and>
     (\<exists>quoted. sh_word Bare quoted [] = Some (''v1.2'', []))"
proof -
  let ?e = "\<lparr>le_systemd = False, le_run = (\<lambda>_. None)\<rparr> :: launch_env"
  have t: "TrimSpace '' v1.2 '' = ''v1.2''" "kelinodeVersionPattern ''v1.2''" by code_simp+
  then have l: "launchMachineUpgrade ?e '' v1.2 '' = (Some (launch_argv False ''v1.2''), None)" by (simp add: launchMachineUpgrade_def)
  from upgrade_script_gets_version [OF this] obtain quoted where "sh_word Bare quoted [] = Some (''v1.2'', [])" unfolding t(1) by blast
  then show ?thesis using l by blast
qed

text \<open>
  An upgrade is started once: after a command was accepted, further commands with its id start nothing
  and change nothing, as long as its launch does not fail and no command with another id is
  accepted.
\<close>

theorem upgrade_started_once:
  assumes "upgrade_step (Requested now version c) w w1" and "accepted (trimmed c)"
    and "upgrade_run es w1 w2" and "\<forall>e \<in> set es. \<not> disturbs (TrimSpace (uc_ID c)) e"
    and "upgrade_step (Requested now' version' d) w2 w3" and "TrimSpace (uc_ID d) = TrimSpace (uc_ID c)"
  shows "uw_launched w3 = uw_launched w2 \<and> uw_status w3 = uw_status w2"
proof -
  have "settled (TrimSpace (uc_ID c)) (uw_status w1)"
    using assms(1) by (rule request_stepE) (use request_settles assms(2) in \<open>fastforce simp: trimmed_def\<close>)
  then have s: "settled (TrimSpace (uc_ID c)) (uw_status w2)" using settled_run [OF assms(3,4)] by blast
  from assms(5) show ?thesis by (rule request_stepE) (use settled_not_started [OF _ s assms(6)] in fastforce)
qed

definition demo_command :: machineUpgradeCommand where
  "demo_command = \<lparr>uc_ID = ''7'', uc_TargetVersion = ''v2''\<rparr>"

theorem upgrade_started_once_witness:
  "\<exists>w1 w3. upgrade_step (Requested 1 ''v1'' demo_command) new_upgrades w1 \<and> uw_launched w1 = [demo_command] \<and>
     upgrade_step (Requested 2 ''v1'' demo_command) w1 w3 \<and> uw_launched w3 = [demo_command]"
proof -
  let ?st = "Some (started_status 1 demo_command)" and ?w = "new_upgrades\<lparr>uw_status := Some (started_status 1 demo_command), uw_pending := [demo_command], uw_launched := [demo_command]\<rparr>"
  have a: "trimmed demo_command = demo_command" "accepted demo_command" "\<not> versionsEqual ''v1'' ''v2''" by code_simp+
  then have "requestMachineUpgrade 1 ''v1'' demo_command None = (?st, Some demo_command)"
    by (simp add: requestMachineUpgrade_def) (simp add: demo_command_def)
  then have s1: "upgrade_step (Requested 1 ''v1'' demo_command) new_upgrades ?w"
    using request_step [of 1 "''v1''" demo_command new_upgrades] by (simp add: new_upgrades_def)
  obtain st go where r: "requestMachineUpgrade 2 ''v1'' demo_command (uw_status ?w) = (st, go)" by fastforce
  note s2 = request_step [OF r]
  have "uw_launched ?w = [demo_command]" by simp
  moreover have "accepted (trimmed demo_command)" using a by simp
  ultimately show ?thesis using upgrade_started_once [OF s1 _ upgrade_nil _ s2] s1 s2 by fastforce
qed

end
