(* ===== verification/Machine_Status.thy ===== *)
theory Machine_Status
  imports Machine_System Agent_Upgrade Sub_Proxy_Manager Port_Firewall
begin

text \<open>
  The status reports of machine mode (\<open>cmd/machine_status.go\<close>): what one report to the panel of a profile
  contains, how the answer is read, the round over all profiles with the reloads and upgrades it asks for,
  and the reporter that \<open>Apply\<close> and \<open>Close\<close> replace. A reporter is the number of its context;
  the state holds those that are not cancelled.
\<close>

section \<open>One report\<close>

datatype report_extra = XProxy Status | XPortForward HysteriaPortForwardStatus | XUpgrade machineUpgradeStatus

text \<open>
  The JSON encoder, the HTTP client and the decoder of the answer: an encoding error, an error of the
  request, the answer with its status and what reading its body gives, and the fields that are decoded.
\<close>

record 'e status_env =
  me_marshal :: "report_extra status_map \<Rightarrow> go_error option"
  me_new_request :: "string \<Rightarrow> go_error option"
  me_do :: "string \<Rightarrow> report_extra status_map \<Rightarrow> int \<Rightarrow> go_error + int \<times> (go_error + string)"
  me_unmarshal :: "string \<Rightarrow> go_error + bool \<times> machineUpgradeCommand option"
  me_error_text :: "'e machine_error \<Rightarrow> string"
  me_version :: string
  me_agent :: "(Status \<times> HysteriaPortForwardStatus) option"
  me_has_reload :: bool
  me_now :: int

record machineStatusReportResult =
  sr_Reload :: bool
  sr_Upgrade :: "machineUpgradeCommand option"

definition no_result :: machineStatusReportResult where
  "no_result = \<lparr>sr_Reload = False, sr_Upgrade = None\<rparr>"

definition trim_host :: "string \<Rightarrow> string" where
  "trim_host s = TrimRight (TrimSpace s) ''/''"

definition failure_item :: "('e machine_error \<Rightarrow> string) \<Rightarrow> 'e NodeFailure \<Rightarrow> 'x status_map" where
  "failure_item text_of f =
     (let cfg = nf_Config f
      in [(''api_host'', SvText (nc_APIHost cfg)), (''node_id'', SvInt (nc_NodeID cfg)), (''machine_id'', SvInt (nc_MachineID cfg)),
          (''node_type'', SvText ''v2node''), (''error'', SvText (text_of (nf_Err f)))])"

definition buildMachineNodeFailurePayload :: "('e machine_error \<Rightarrow> string) \<Rightarrow> MachineProfileConfig \<Rightarrow> 'e NodeFailure list \<Rightarrow> 'x status_map list" where
  "buildMachineNodeFailurePayload text_of profile failures =
     map (failure_item text_of)
       (filter (\<lambda>f. trim_host (nc_APIHost (nf_Config f)) = trim_host (mp_APIHost profile) \<and> nc_MachineID (nf_Config f) = mp_MachineID profile) failures)"

definition buildMachineStatusPayload :: "'x status_map \<Rightarrow> 'x status_map" where
  "buildMachineStatusPayload systemStatus = fold (\<lambda>(k, v). go_store k v) (go_range systemStatus) []"

definition status_payload ::
  "'e status_env \<Rightarrow> machineUpgradeStatus option \<Rightarrow> MachineProfileConfig \<Rightarrow> 'e NodeFailure list \<Rightarrow> report_extra status_map \<Rightarrow> report_extra status_map" where
  "status_payload env upgrade profile failures systemStatus =
     (let s0 = go_store ''version'' (SvText (me_version env)) (buildMachineStatusPayload systemStatus);
          s1 = (case me_agent env of
                  None \<Rightarrow> s0
                | Some (proxy, forward) \<Rightarrow>
                    go_store ''agent'' (SvMap [(''subscription_proxy'', SvOther (XProxy proxy)), (''hy2_port_forward'', SvOther (XPortForward forward))]) s0);
          s2 = (case upgrade of None \<Rightarrow> s1 | Some u \<Rightarrow> go_store ''upgrade'' (SvOther (XUpgrade u)) s1)
      in go_store ''node_failures'' (SvMaps (buildMachineNodeFailurePayload (me_error_text env) profile failures)) s2)"

definition PathV2MachineStatus :: string where
  "PathV2MachineStatus = ''/api/v2/server/machine/status''"

definition read_answer :: "'e status_env \<Rightarrow> int \<times> (go_error + string) \<Rightarrow> go_error + machineStatusReportResult" where
  "read_answer env answer =
     (case answer of (code, body) \<Rightarrow>
        if code \<ge> 400 then Inl (ErrText (''status='' @ Itoa code @ '' body='' @ (case body of Inl e \<Rightarrow> [] | Inr d \<Rightarrow> take 2048 d)))
        else case body of
               Inl e \<Rightarrow> Inl e
             | Inr d \<Rightarrow>
                 if TrimSpace (take 4096 d) = [] then Inr no_result
                 else case me_unmarshal env (take 4096 d) of
                        Inl e \<Rightarrow> Inl (ErrText ''decode machine status response failed'')
                      | Inr (r, u) \<Rightarrow> Inr \<lparr>sr_Reload = r, sr_Upgrade = u\<rparr>)"

definition reportMachineStatus ::
  "'e status_env \<Rightarrow> machineUpgradeStatus option \<Rightarrow> MachineProfileConfig \<Rightarrow> 'e NodeFailure list \<Rightarrow> report_extra status_map \<Rightarrow>
   go_error + machineStatusReportResult" where
  "reportMachineStatus env upgrade profile failures systemStatus =
     (let apiHost = trim_host (mp_APIHost profile); token = TrimSpace (mp_Key profile);
          body = [(''machine_id'', SvInt (mp_MachineID profile)), (''token'', SvText token),
                  (''status'', SvMap (status_payload env upgrade profile failures systemStatus))];
          timeout = (if mp_Timeout profile > 0 then mp_Timeout profile else 30)
      in if apiHost = [] \<or> token = [] \<or> mp_MachineID profile \<le> 0 then Inr no_result
         else case me_marshal env body of
                Some e \<Rightarrow> Inl e
              | None \<Rightarrow>
                  (case me_new_request env (apiHost @ PathV2MachineStatus) of
                     Some e \<Rightarrow> Inl e
                   | None \<Rightarrow>
                       (case me_do env (apiHost @ PathV2MachineStatus) body timeout of
                          Inl e \<Rightarrow> Inl e
                        | Inr answer \<Rightarrow> read_answer env answer)))"

section \<open>A round of reports\<close>

text \<open>The reload that may be queued, the state of the upgrade, and the upgrades that were started.\<close>

record report_world =
  rw_reload :: bool
  rw_upgrade :: "machineUpgradeStatus option"
  rw_launched :: "machineUpgradeCommand list"

definition report_profile ::
  "'e status_env \<Rightarrow> 'e NodeFailure list \<Rightarrow> report_extra status_map \<Rightarrow> MachineProfileConfig \<Rightarrow> report_world \<Rightarrow> report_world" where
  "report_profile env failures systemStatus profile w =
     (case reportMachineStatus env (rw_upgrade w) profile failures systemStatus of
        Inl e \<Rightarrow> w
      | Inr r \<Rightarrow>
          let w1 = w\<lparr>rw_reload := (rw_reload w \<or> sr_Reload r \<and> me_has_reload env)\<rparr>
          in case sr_Upgrade r of
               None \<Rightarrow> w1
             | Some c \<Rightarrow>
                 (case requestMachineUpgrade (me_now env) (me_version env) c (rw_upgrade w1) of
                    (st, go) \<Rightarrow> w1\<lparr>rw_upgrade := st, rw_launched := rw_launched w1 @ (case go of None \<Rightarrow> [] | Some d \<Rightarrow> [d])\<rparr>))"

definition report_round ::
  "'e status_env \<Rightarrow> sys_env \<Rightarrow> 'e NodeFailure list \<Rightarrow> MachineProfileConfig list \<Rightarrow>
   report_extra machineSystemSampler \<times> report_world \<Rightarrow> report_extra machineSystemSampler \<times> report_world" where
  "report_round env sys failures profiles sw =
     (case sw of (sampler, w) \<Rightarrow>
        (case system_Snapshot sys sampler of (systemStatus, sampler1) \<Rightarrow>
           (sampler1, fold (report_profile env failures systemStatus) profiles w)))"

text \<open>The reporter: one round at once, then one per tick, until its context is cancelled.\<close>

definition runMachineStatusReporter ::
  "('e status_env \<times> sys_env \<times> 'e NodeFailure list) list \<Rightarrow> MachineProfileConfig list \<Rightarrow> report_world \<Rightarrow> report_world" where
  "runMachineStatusReporter ticks profiles w =
     snd (fold (\<lambda>(env, sys, failures). report_round env sys failures profiles) ticks (newMachineSystemSampler, w))"

section \<open>The reporter that runs\<close>

definition normalizeStatusProfiles :: "MachineProfileConfig list \<Rightarrow> MachineProfileConfig list" where
  "normalizeStatusProfiles ps =
     filter (\<lambda>p. \<not> (mp_APIHost p = [] \<or> mp_Key p = [] \<or> mp_MachineID p \<le> 0))
       (map (\<lambda>p. p\<lparr>mp_APIHost := trim_host (mp_APIHost p), mp_Key := TrimSpace (mp_Key p)\<rparr>) ps)"

definition machineStatusFingerprint :: "MachineProfileConfig list \<Rightarrow> string" where
  "machineStatusFingerprint ps = Join (sort (map (\<lambda>p. mp_APIHost p @ ''#'' @ Itoa (mp_MachineID p) @ ''#'' @ mp_Key p) ps)) [line_feed]"

record machineStatusReporterState =
  rs_cancel :: "nat option"
  rs_fingerprint :: string

record reporter_world =
  rp_state :: machineStatusReporterState
  rp_next :: nat
  rp_running :: "(nat \<times> MachineProfileConfig list) list"

definition newMachineStatusReporterState :: machineStatusReporterState where
  "newMachineStatusReporterState = \<lparr>rs_cancel = None, rs_fingerprint = []\<rparr>"

definition cancel_reporter :: "nat option \<Rightarrow> (nat \<times> MachineProfileConfig list) list \<Rightarrow> (nat \<times> MachineProfileConfig list) list" where
  "cancel_reporter c rs = (case c of None \<Rightarrow> rs | Some n \<Rightarrow> filter (\<lambda>r. fst r \<noteq> n) rs)"

definition Reporter_Close :: "reporter_world \<Rightarrow> reporter_world" where
  "Reporter_Close w = w\<lparr>rp_state := \<lparr>rs_cancel = None, rs_fingerprint = []\<rparr>, rp_running := cancel_reporter (rs_cancel (rp_state w)) (rp_running w)\<rparr>"

definition Reporter_Apply :: "MachineConfig \<Rightarrow> reporter_world \<Rightarrow> reporter_world" where
  "Reporter_Apply machine w =
     (let profiles = normalizeStatusProfiles (mc_Profiles machine); next_fp = machineStatusFingerprint profiles; s = rp_state w; n = rp_next w
      in if \<not> mc_Enabled machine \<or> profiles = [] then Reporter_Close w
         else if rs_cancel s \<noteq> None \<and> rs_fingerprint s = next_fp then w
         else w\<lparr>rp_state := \<lparr>rs_cancel = Some n, rs_fingerprint = next_fp\<rparr>, rp_next := Suc n,
                rp_running := (n, profiles) # cancel_reporter (rs_cancel s) (rp_running w)\<rparr>)"

datatype reporter_call = CallApply MachineConfig | CallClose

primrec reporter_call_step :: "reporter_call \<Rightarrow> reporter_world \<Rightarrow> reporter_world" where
  "reporter_call_step (CallApply machine) = Reporter_Apply machine"
| "reporter_call_step CallClose = Reporter_Close"

definition new_reporters :: reporter_world where
  "new_reporters = \<lparr>rp_state = newMachineStatusReporterState, rp_next = 0, rp_running = []\<rparr>"

section \<open>Lemmas\<close>

definition reporter_inv :: "reporter_world \<Rightarrow> bool" where
  "reporter_inv w =
     (case rs_cancel (rp_state w) of
        None \<Rightarrow> rp_running w = []
      | Some n \<Rightarrow> \<exists>ps. rp_running w = [(n, ps)] \<and> ps \<noteq> [] \<and> rs_fingerprint (rp_state w) = machineStatusFingerprint ps)"

lemma cancel_all: "reporter_inv w \<Longrightarrow> cancel_reporter (rs_cancel (rp_state w)) (rp_running w) = []"
  by (auto simp: reporter_inv_def cancel_reporter_def split: option.splits)

lemma inv_reporter_step: "reporter_inv w \<Longrightarrow> reporter_inv (reporter_call_step c w)"
  by (cases c) (simp_all add: Reporter_Apply_def Reporter_Close_def Let_def cancel_all, simp_all add: reporter_inv_def)

lemma inv_reporter_steps: "reporter_inv w \<Longrightarrow> reporter_inv (fold reporter_call_step cs w)"
  by (induction cs arbitrary: w) (simp_all add: inv_reporter_step)

lemma new_reporters_inv: "reporter_inv new_reporters"
  by (simp add: reporter_inv_def new_reporters_def newMachineStatusReporterState_def)

text \<open>A command with an id other than the last one is started anew.\<close>

lemma other_id_starts:
  assumes "accepted (trimmed c)" and "\<not> versionsEqual version (uc_TargetVersion (trimmed c))" and "st = None \<or> us_ID (the st) \<noteq> uc_ID (trimmed c)"
  shows "requestMachineUpgrade now version c st = (Some (started_status now (trimmed c)), Some (trimmed c))"
  using assms by (auto simp: requestMachineUpgrade_def Let_def split: option.splits)

definition last_upgrade_is :: "machineUpgradeCommand \<Rightarrow> report_world \<Rightarrow> bool" where
  "last_upgrade_is c w \<longleftrightarrow> rw_upgrade w = None \<or> (\<exists>now. rw_upgrade w = Some (started_status now (trimmed c)))"

lemma report_other_id:
  assumes "\<And>st sys. \<exists>r. reportMachineStatus env st p failures sys = Inr \<lparr>sr_Reload = r, sr_Upgrade = Some c\<rparr>"
    and "accepted (trimmed c)" and "\<not> versionsEqual (me_version env) (uc_TargetVersion (trimmed c))"
    and "last_upgrade_is d w" and "uc_ID (trimmed d) \<noteq> uc_ID (trimmed c)"
  shows "rw_launched (report_profile env failures sys p w) = rw_launched w @ [trimmed c] \<and> last_upgrade_is c (report_profile env failures sys p w)"
proof -
  obtain r where "reportMachineStatus env (rw_upgrade w) p failures sys = Inr \<lparr>sr_Reload = r, sr_Upgrade = Some c\<rparr>" using assms(1) by blast
  moreover have "rw_upgrade w = None \<or> us_ID (the (rw_upgrade w)) \<noteq> uc_ID (trimmed c)"
    using assms(4,5) by (auto simp: last_upgrade_is_def started_status_def)
  ultimately show ?thesis
    using other_id_starts [OF assms(2,3)] by (auto simp: report_profile_def Let_def last_upgrade_is_def)
qed

section \<open>Properties\<close>

text \<open>
  The reporter follows the configuration: after any calls of Apply and Close, at most one reporter runs;
  after Apply none runs when machine mode is off or no profile is complete, and otherwise exactly
  one runs, for profiles with the same hosts, machines and keys as those of the configuration.
\<close>

theorem status_reporter_follows_config:
  "let w = fold reporter_call_step calls new_reporters; ps = normalizeStatusProfiles (mc_Profiles machine); w' = Reporter_Apply machine w
   in length (rp_running w) \<le> 1 \<and>
      (if \<not> mc_Enabled machine \<or> ps = [] then rp_running w' = []
       else \<exists>n qs. rp_running w' = [(n, qs)] \<and> machineStatusFingerprint qs = machineStatusFingerprint ps)"
proof -
  let ?w = "fold reporter_call_step calls new_reporters"
  have i: "reporter_inv ?w" by (rule inv_reporter_steps [OF new_reporters_inv])
  then have "length (rp_running ?w) \<le> 1" by (auto simp: reporter_inv_def split: option.splits)
  then show ?thesis using i cancel_all [OF i] by (auto simp: Let_def Reporter_Apply_def Reporter_Close_def reporter_inv_def split: option.splits)
qed

text \<open>
  C36. Two panels restart each other's upgrades: when the panels of two profiles ask for upgrades with
  different ids, only the last id is remembered, and every round of reports starts both upgrades again.
\<close>

theorem two_panels_restart_upgrades:
  assumes "\<And>st sys. \<exists>r. reportMachineStatus env st p failures sys = Inr \<lparr>sr_Reload = r, sr_Upgrade = Some c\<rparr>"
    and "\<And>st sys. \<exists>r. reportMachineStatus env st q failures sys = Inr \<lparr>sr_Reload = r, sr_Upgrade = Some d\<rparr>"
    and "accepted (trimmed c)" "accepted (trimmed d)" "uc_ID (trimmed c) \<noteq> uc_ID (trimmed d)"
    and "\<not> versionsEqual (me_version env) (uc_TargetVersion (trimmed c))" "\<not> versionsEqual (me_version env) (uc_TargetVersion (trimmed d))"
  shows "rw_launched (runMachineStatusReporter (replicate n (env, sys, failures)) [p, q] \<lparr>rw_reload = False, rw_upgrade = None, rw_launched = []\<rparr>) =
         concat (replicate n [trimmed c, trimmed d])"
proof -
  have round: "rw_launched (snd (report_round env sys failures [p, q] sw)) = rw_launched (snd sw) @ [trimmed c, trimmed d] \<and>
      last_upgrade_is d (snd (report_round env sys failures [p, q] sw))" if "last_upgrade_is d (snd sw)" for sw
  proof -
    obtain s w where sw: "sw = (s, w)" by fastforce
    obtain snap s1 where sn: "system_Snapshot sys s = (snap, s1)" by fastforce
    have "rw_launched (report_profile env failures snap p w) = rw_launched w @ [trimmed c]" "last_upgrade_is c (report_profile env failures snap p w)"
      using report_other_id [OF assms(1,3,6), of d w snap] that assms(5) by (auto simp: sw)
    then show ?thesis
      using report_other_id [OF assms(2,4,7), of c "report_profile env failures snap p w" snap] assms(5) by (simp add: report_round_def sw sn)
  qed
  have "rw_launched (snd (fold (\<lambda>(env, sys, failures). report_round env sys failures [p, q]) (replicate n (env, sys, failures)) sw)) =
      rw_launched (snd sw) @ concat (replicate n [trimmed c, trimmed d])" if "last_upgrade_is d (snd sw)" for sw
    using that by (induction n arbitrary: sw) (simp_all add: round)
  then show ?thesis by (simp add: runMachineStatusReporter_def last_upgrade_is_def)
qed

definition demo_other_command :: machineUpgradeCommand where
  "demo_other_command = \<lparr>uc_ID = ''8'', uc_TargetVersion = ''v3''\<rparr>"

definition demo_status_env :: "unit status_env" where
  "demo_status_env =
     \<lparr>me_marshal = (\<lambda>_. None), me_new_request = (\<lambda>_. None), me_do = (\<lambda>url _ _. Inr (200, Inr (take 1 url))),
      me_unmarshal = (\<lambda>d. Inr (False, Some (if d = ''p'' then demo_command else demo_other_command))), me_error_text = (\<lambda>_. []),
      me_version = ''v1'', me_agent = None, me_has_reload = True, me_now = 1\<rparr>"

definition demo_reporting :: "string \<Rightarrow> MachineProfileConfig" where
  "demo_reporting host =
     \<lparr>mp_Name = [], mp_APIHost = host, mp_Key = ''k'', mp_MachineID = 1, mp_Timeout = 0, mp_ConfigDir = [],
      mp_Realtime = \<lparr>rc_Enabled = False, rc_URL = [], rc_PingInterval = 0, rc_ReconnectInterval = 0\<rparr>\<rparr>"

theorem two_panels_restart_upgrades_witness:
  "rw_launched (runMachineStatusReporter (replicate 2 (demo_status_env, demo_sys_env, [])) [demo_reporting ''p'', demo_reporting ''q''] \<lparr>rw_reload = False, rw_upgrade = None, rw_launched = []\<rparr>) =
     [demo_command, demo_other_command, demo_command, demo_other_command]"
proof -
  have h: "trim_host ''p'' = ''p''" "trim_host ''q'' = ''q''" "TrimSpace ''k'' = ''k''" "TrimSpace ''p'' = ''p''" "TrimSpace ''q'' = ''q''" by code_simp+
  have t: "trimmed demo_command = demo_command" "trimmed demo_other_command = demo_other_command" by code_simp+
  have r: "\<exists>r. reportMachineStatus demo_status_env st (demo_reporting ''p'') [] sys = Inr \<lparr>sr_Reload = r, sr_Upgrade = Some demo_command\<rparr>"
    "\<exists>r. reportMachineStatus demo_status_env st (demo_reporting ''q'') [] sys = Inr \<lparr>sr_Reload = r, sr_Upgrade = Some demo_other_command\<rparr>" for st sys
    by (auto simp: reportMachineStatus_def Let_def demo_reporting_def demo_status_env_def h read_answer_def)
  have "accepted (trimmed demo_command)" "accepted (trimmed demo_other_command)" "uc_ID (trimmed demo_command) \<noteq> uc_ID (trimmed demo_other_command)"
    "\<not> versionsEqual (me_version demo_status_env) (uc_TargetVersion (trimmed demo_command))"
    "\<not> versionsEqual (me_version demo_status_env) (uc_TargetVersion (trimmed demo_other_command))"
    unfolding t by code_simp+
  from two_panels_restart_upgrades [OF r this, of 2] show ?thesis by (simp add: t numeral_2_eq_2)
qed

end
