(* ===== verification/Agent_Runtime.thy ===== *)
theory Agent_Runtime
  imports Go_Text Realtime
begin

text \<open>
  Settings of the Go runtime (\<open>cmd/runtime.go\<close>), the health of the process and its HTTP pages
  (\<open>cmd/health.go\<close>), and the watcher of the configuration file (\<open>conf/watch.go\<close>). The memory limit and
  the garbage collector target in force are part of the state; what the watcher does is a list of
  the times at which the file is read, for a list of file events with their times.
\<close>

section \<open>Runtime settings\<close>

definition memory_suffixes :: "(string \<times> int) list" where
  "memory_suffixes =
     [(''KIB'', 1024), (''MIB'', 1024 * 1024), (''GIB'', 1024 * 1024 * 1024), (''TIB'', 1024 * 1024 * 1024 * 1024),
      (''KB'', 1000), (''MB'', 1000 * 1000), (''GB'', 1000 * 1000 * 1000), (''TB'', 1000 * 1000 * 1000 * 1000), (''B'', 1)]"

datatype limit_error = EmptyLimit | MissingNumber | NotANumber | NotPositive | LimitOverflow

definition parseMemoryLimit :: "string \<Rightarrow> limit_error + int" where
  "parseMemoryLimit input =
     (let raw = TrimSpace input; capital = ToUpper raw
      in if raw = [] then Inl EmptyLimit
         else let (factor, numberPart) =
                (case find (\<lambda>c. HasSuffix capital (fst c)) memory_suffixes of
                   None \<Rightarrow> (1, raw)
                 | Some (ending, f) \<Rightarrow> (f, TrimSpace (take (length raw - length ending) raw)))
              in if numberPart = [] then Inl MissingNumber
                 else case Atoi numberPart of
                        None \<Rightarrow> Inl NotANumber
                      | Some v \<Rightarrow>
                          if v \<le> 0 then Inl NotPositive
                          else if v > go_quot max_int64 factor then Inl LimitOverflow
                          else Inr (wrap64 (v * factor)))"

record appliedRuntimeSettings =
  ar_GoMemLimit :: string
  ar_GoMemLimitBytes :: int
  ar_GOGC :: int

record runtimeTuningState =
  rt_memLimitConfigured :: bool
  rt_gcPercentConfigured :: bool

text \<open>What is in force in the runtime.\<close>

record go_runtime =
  gr_MemoryLimit :: int
  gr_GCPercent :: int

definition apply_memory_limit :: "string \<Rightarrow> runtimeTuningState \<times> go_runtime \<Rightarrow> int \<times> runtimeTuningState \<times> go_runtime" where
  "apply_memory_limit limit sr =
     (case sr of (st, rt) \<Rightarrow>
        if limit \<noteq> [] \<and> limit \<noteq> ''0'' then
          (case parseMemoryLimit limit of
             Inl e \<Rightarrow> (0, st, rt)
           | Inr bytes \<Rightarrow> (bytes, st\<lparr>rt_memLimitConfigured := True\<rparr>, rt\<lparr>gr_MemoryLimit := bytes\<rparr>))
        else if rt_memLimitConfigured st then (0, st\<lparr>rt_memLimitConfigured := False\<rparr>, rt\<lparr>gr_MemoryLimit := max_int64\<rparr>)
        else (0, st, rt))"

definition apply_gc_percent :: "int \<Rightarrow> runtimeTuningState \<times> go_runtime \<Rightarrow> runtimeTuningState \<times> go_runtime" where
  "apply_gc_percent gogc sr =
     (case sr of (st, rt) \<Rightarrow>
        if gogc \<noteq> 0 then (st\<lparr>rt_gcPercentConfigured := True\<rparr>, rt\<lparr>gr_GCPercent := gogc\<rparr>)
        else if rt_gcPercentConfigured st then (st\<lparr>rt_gcPercentConfigured := False\<rparr>, rt\<lparr>gr_GCPercent := 100\<rparr>)
        else (st, rt))"

definition applyRuntimeSettings ::
  "RuntimeConfig \<Rightarrow> runtimeTuningState \<times> go_runtime \<Rightarrow> appliedRuntimeSettings \<times> runtimeTuningState \<times> go_runtime" where
  "applyRuntimeSettings cfg sr =
     (let limit = TrimSpace (ru_GoMemLimit cfg); (bytes, sr1) = apply_memory_limit limit sr
      in (\<lparr>ar_GoMemLimit = limit, ar_GoMemLimitBytes = bytes, ar_GOGC = ru_GOGC cfg\<rparr>, apply_gc_percent (ru_GOGC cfg) sr1))"

section \<open>Health\<close>

record healthState =
  he_startedAt :: clock
  he_configPath :: string
  he_ready :: bool
  he_lastReloadAt :: "clock option"
  he_healthPort :: int
  he_nodeCount :: int
  he_realtimeEnabled :: bool
  he_runtime :: appliedRuntimeSettings

record healthResponse =
  hr_Status :: string
  hr_Ready :: bool
  hr_Version :: string
  hr_ConfigPath :: string
  hr_StartedAt :: string
  hr_UptimeSeconds :: int
  hr_LastReloadAt :: string
  hr_NodeCount :: int
  hr_RealtimeEnabled :: bool
  hr_HealthPort :: int
  hr_Goroutines :: int
  hr_Runtime :: appliedRuntimeSettings

text \<open>The moment of an operation: the clock (in nanoseconds), how a time is printed, and the number of goroutines.\<close>

record moment =
  mt_now :: clock
  mt_format :: "clock \<Rightarrow> string"
  mt_goroutines :: int
  mt_version :: string

definition health_snapshot :: "moment \<Rightarrow> string \<Rightarrow> healthState \<Rightarrow> healthResponse" where
  "health_snapshot t status s =
     \<lparr>hr_Status = (if status = [] then (if he_ready s then ''ok'' else ''starting'') else status), hr_Ready = he_ready s, hr_Version = mt_version t,
      hr_ConfigPath = he_configPath s, hr_StartedAt = mt_format t (he_startedAt s), hr_UptimeSeconds = go_quot (mt_now t - he_startedAt s) 1000000000,
      hr_LastReloadAt = (case he_lastReloadAt s of None \<Rightarrow> [] | Some r \<Rightarrow> mt_format t r), hr_NodeCount = he_nodeCount s,
      hr_RealtimeEnabled = he_realtimeEnabled s, hr_HealthPort = he_healthPort s, hr_Goroutines = mt_goroutines t, hr_Runtime = he_runtime s\<rparr>"

definition publishSnapshot :: "moment \<Rightarrow> string \<Rightarrow> healthState \<Rightarrow> RealtimeHealthSnapshot" where
  "publishSnapshot t status s =
     (let p = health_snapshot t status s
      in SetRealtimeHealthSnapshot (mt_format t (mt_now t))
           \<lparr>hs_Status = hr_Status p, hs_Ready = hr_Ready p, hs_Version = hr_Version p, hs_ConfigPath = hr_ConfigPath p, hs_StartedAt = hr_StartedAt p,
            hs_UptimeSeconds = hr_UptimeSeconds p, hs_LastReloadAt = hr_LastReloadAt p, hs_NodeCount = hr_NodeCount p,
            hs_RealtimeEnabled = hr_RealtimeEnabled p, hs_HealthPort = hr_HealthPort p, hs_Goroutines = hr_Goroutines p,
            hs_Runtime = \<lparr>rs_GoMemLimit = ar_GoMemLimit (hr_Runtime p), rs_GoMemLimitBytes = ar_GoMemLimitBytes (hr_Runtime p), rs_GOGC = ar_GOGC (hr_Runtime p)\<rparr>,
            hs_UpdatedAt = []\<rparr>)"

text \<open>Each operation returns the state and the snapshot that is published.\<close>

definition newHealthState :: "moment \<Rightarrow> string \<Rightarrow> healthState \<times> RealtimeHealthSnapshot" where
  "newHealthState t configPath =
     (let s = \<lparr>he_startedAt = mt_now t, he_configPath = configPath, he_ready = False, he_lastReloadAt = None, he_healthPort = 0, he_nodeCount = 0,
               he_realtimeEnabled = False, he_runtime = \<lparr>ar_GoMemLimit = [], ar_GoMemLimitBytes = 0, ar_GOGC = 0\<rparr>\<rparr>
      in (s, publishSnapshot t ''starting'' s))"

definition UpdateConfig :: "moment \<Rightarrow> Conf \<Rightarrow> appliedRuntimeSettings \<Rightarrow> healthState \<Rightarrow> healthState \<times> RealtimeHealthSnapshot" where
  "UpdateConfig t cfg runtime s =
     (let s1 = s\<lparr>he_healthPort := (if he_healthPort s = 0 then cf_HealthPort cfg else he_healthPort s),
                 he_nodeCount := int (length (cf_NodeConfigs cfg)),
                 he_realtimeEnabled := (rc_Enabled (cf_RealtimeConfig cfg) \<or> rc_URL (cf_RealtimeConfig cfg) \<noteq> []), he_runtime := runtime\<rparr>
      in (s1, publishSnapshot t [] s1))"

definition MarkReady :: "moment \<Rightarrow> bool \<Rightarrow> healthState \<Rightarrow> healthState \<times> RealtimeHealthSnapshot" where
  "MarkReady t ready s =
     (let s1 = s\<lparr>he_ready := ready, he_lastReloadAt := (if ready then Some (mt_now t) else he_lastReloadAt s)\<rparr> in (s1, publishSnapshot t [] s1))"

definition handleHealthRequest :: "moment \<Rightarrow> healthState \<Rightarrow> int \<times> healthResponse" where
  "handleHealthRequest t s =
     (let p = health_snapshot t [] s in if hr_Ready p then (200, p) else (503, p\<lparr>hr_Status := ''starting''\<rparr>))"

text \<open>The pages of the health server; \<open>None\<close> is a path it does not serve.\<close>

definition health_page :: "moment \<Rightarrow> healthState \<Rightarrow> string \<Rightarrow> (int \<times> healthResponse) option" where
  "health_page t s path =
     (if path = ''/livez'' then Some (200, health_snapshot t ''alive'' s)
      else if path \<in> {''/readyz'', ''/health'', ''/healthz''} then Some (handleHealthRequest t s)
      else None)"

datatype health_event = HUpdate moment Conf appliedRuntimeSettings | HReady moment bool

primrec health_step :: "health_event \<Rightarrow> healthState \<times> RealtimeHealthSnapshot \<Rightarrow> healthState \<times> RealtimeHealthSnapshot" where
  "health_step (HUpdate t cfg runtime) sp = UpdateConfig t cfg runtime (fst sp)"
| "health_step (HReady t ready) sp = MarkReady t ready (fst sp)"

section \<open>Watching the configuration file\<close>

text \<open>
  A file event with its time in seconds and whether it changes the attributes only. An event is
  taken when the last one taken is at least ten seconds old; the file is read five seconds later. \<open>pre\<close>
  is the time of the last event taken, \<open>None\<close> the zero time.
\<close>

record file_event =
  fe_at :: clock
  fe_chmod :: bool

fun watch_taken :: "clock option \<Rightarrow> file_event list \<Rightarrow> clock list" where
  "watch_taken pre [] = []"
| "watch_taken pre (e # es) =
     (if fe_chmod e then watch_taken pre es
      else if (case pre of None \<Rightarrow> False | Some p \<Rightarrow> p + 10 > fe_at e) then watch_taken pre es
      else fe_at e # watch_taken (Some (fe_at e)) es)"

definition Watch_reads :: "file_event list \<Rightarrow> clock list" where
  "Watch_reads es = map (\<lambda>t. t + 5) (watch_taken None es)"

section \<open>Lemmas\<close>

lemma to_upper_digit: "is_digit c \<Longrightarrow> to_upper_char c = c"
  by (simp add: to_upper_char_def is_digit_def Let_def)

lemma ToUpper_digits: "ToUpper (nat_digits n @ u) = nat_digits n @ ToUpper u"
  using nat_digits_digits [of n] by (simp add: ToUpper_def map_idI to_upper_digit list_all_iff)

lemma rev_digits: obtains d ds where "rev (nat_digits n) = d # ds" "is_digit d"
proof (cases "rev (nat_digits n)")
  case (Cons d ds)
  have "d \<in> set (nat_digits n)" using Cons by (metis list.set_intros(1) set_rev)
  then show ?thesis using that Cons nat_digits_digits [of n] by (auto simp: list_all_iff)
qed simp

lemma digit_no_letter: "is_digit d \<Longrightarrow> d \<notin> set ''KMGTIB''"
  by (auto simp: is_digit_def)

text \<open>A number with a unit is read with the factor of the unit.\<close>

lemma find_suffix:
  assumes "(u, f) \<in> set memory_suffixes"
  shows "find (\<lambda>c. HasSuffix (nat_digits n @ u) (fst c)) memory_suffixes = Some (u, f)"
proof -
  obtain d ds where r: "rev (nat_digits n) = d # ds" "is_digit d" by (rule rev_digits)
  then have n: "d \<noteq> CHR ''K''" "d \<noteq> CHR ''M''" "d \<noteq> CHR ''G''" "d \<noteq> CHR ''T''" "d \<noteq> CHR ''I''" "d \<noteq> CHR ''B''"
    using digit_no_letter by auto
  from assms have "(u, f) = (''KIB'', 1024) \<or> (u, f) = (''MIB'', 1024 * 1024) \<or> (u, f) = (''GIB'', 1024 * 1024 * 1024) \<or>
      (u, f) = (''TIB'', 1024 * 1024 * 1024 * 1024) \<or> (u, f) = (''KB'', 1000) \<or> (u, f) = (''MB'', 1000 * 1000) \<or>
      (u, f) = (''GB'', 1000 * 1000 * 1000) \<or> (u, f) = (''TB'', 1000 * 1000 * 1000 * 1000) \<or> (u, f) = (''B'', 1)"
    by (simp add: memory_suffixes_def)
  then show ?thesis by (elim disjE) (simp_all add: memory_suffixes_def HasSuffix_def HasPrefix_def r(1) n)
qed

lemma find_no_suffix: "find (\<lambda>c. HasSuffix (nat_digits n) (fst c)) memory_suffixes = None"
proof -
  obtain d ds where r: "rev (nat_digits n) = d # ds" "is_digit d" by (rule rev_digits)
  then show ?thesis using digit_no_letter [of d] by (auto simp: memory_suffixes_def HasSuffix_def HasPrefix_def find_None_iff)
qed

lemma factor_pos: "(u, f) \<in> set memory_suffixes \<Longrightarrow> 0 < f \<and> u \<noteq> []"
  by (auto simp: memory_suffixes_def)

lemma watch_taken_snoc:
  "watch_taken pre (es @ [e]) =
     watch_taken pre es @
       (let p = (if watch_taken pre es = [] then pre else Some (last (watch_taken pre es)))
        in if fe_chmod e \<or> (case p of None \<Rightarrow> False | Some p \<Rightarrow> p + 10 > fe_at e) then [] else [fe_at e])"
  by (induction pre es rule: watch_taken.induct) (auto simp: Let_def split: option.splits)

lemma watch_taken_sorted:
  "sorted (map fe_at es) \<Longrightarrow> (\<forall>e \<in> set es. fe_at e \<le> t) \<Longrightarrow>
   sorted_wrt (\<lambda>a b. a + 10 \<le> b) (watch_taken pre es) \<and> (\<forall>p \<in> set (watch_taken pre es). p \<le> t)"
proof (induction es rule: rev_induct)
  case (snoc e es)
  have IH: "sorted_wrt (\<lambda>a b. a + 10 \<le> b) (watch_taken pre es)" "\<forall>p \<in> set (watch_taken pre es). p \<le> t"
    using snoc by (auto simp: sorted_append)
  have "p + 10 \<le> last (watch_taken pre es) \<or> p = last (watch_taken pre es)" if "p \<in> set (watch_taken pre es)" for p
    using that IH(1) by (cases "watch_taken pre es" rule: rev_cases) (auto simp: sorted_wrt_append)
  then show ?case using IH snoc.prems(2)
    by (force simp: watch_taken_snoc Let_def sorted_wrt_append split: if_splits)
qed simp

lemma unit_plain:
  assumes "(ToUpper u, f) \<in> set memory_suffixes"
  shows "list_all (\<lambda>c. \<not> is_space c) u"
proof -
  have "to_upper_char c \<notin> set ''KMGTIB''" if "is_space c" for c using that by (auto simp: is_space_def to_upper_char_def)
  moreover have "set (ToUpper u) \<subseteq> set ''KMGTIB''" using assms by (auto simp: memory_suffixes_def)
  ultimately show ?thesis unfolding ToUpper_def list_all_iff by fastforce
qed

lemma le_div_iff: "0 < f \<Longrightarrow> n \<le> m div f \<longleftrightarrow> n * f \<le> m" for n m f :: int
proof
  assume "0 < f" "n * f \<le> m"
  then show "n \<le> m div f" using zdiv_mono1 [of "n * f" m f] by simp
next
  assume f: "0 < f" "n \<le> m div f"
  then have "n * f \<le> m div f * f" by simp
  also have "\<dots> \<le> m" using pos_mod_sign [OF f(1), of m] div_mult_mod_eq [of m f] by linarith
  finally show "n * f \<le> m" .
qed

lemma parsed_number:
  assumes "0 < n" and "0 < f"
  shows "(case Atoi (nat_digits n) of None \<Rightarrow> Inl NotANumber
      | Some v \<Rightarrow> if v \<le> 0 then Inl NotPositive else if v > go_quot max_int64 f then Inl LimitOverflow else Inr (wrap64 (v * f))) =
    (if int n * f \<le> max_int64 then Inr (int n * f) else Inl (if int n \<le> max_int64 then LimitOverflow else NotANumber))"
proof (cases "int n \<le> max_int64")
  case True
  have "int n > go_quot max_int64 f \<longleftrightarrow> \<not> int n * f \<le> max_int64"
    unfolding le_div_iff [OF assms(2), symmetric] using assms(2) by (simp add: go_quot_nonneg not_le)
  moreover have "wrap64 (int n * f) = int n * f" if "int n * f \<le> max_int64"
  proof (rule wrap64_id)
    have "0 \<le> int n * f" using assms by simp
    then show "in_int64 (int n * f)" unfolding in_int64_def using that by linarith
  qed
  ultimately show ?thesis using Atoi_digits [of n] True assms(1) by simp
next
  case False
  have "int n * 1 \<le> int n * f" using assms by (intro mult_left_mono) simp_all
  then have "\<not> int n * f \<le> max_int64" using False by linarith
  moreover have "Atoi (nat_digits n) = None"
    using False nat_digits_digits [of n] hd_digits [of n] digit_not [of "hd (nat_digits n)"] by (auto simp: Atoi_def Let_def in_int64_def)
  ultimately show ?thesis using False by simp
qed

text \<open>Every accepted limit is a positive \<open>int64\<close>.\<close>

lemma accepted_limit_bounds:
  assumes "parseMemoryLimit s = Inr b"
  shows "0 < b \<and> b \<le> max_int64"
proof -
  let ?raw = "TrimSpace s"
  obtain f num where f: "0 < f" and r: "(case Atoi num of None \<Rightarrow> Inl NotANumber
      | Some v \<Rightarrow> if v \<le> 0 then Inl NotPositive else if v > go_quot max_int64 f then Inl LimitOverflow else Inr (wrap64 (v * f))) = Inr b"
  proof (cases "find (\<lambda>c. HasSuffix (ToUpper ?raw) (fst c)) memory_suffixes")
    case None
    then show ?thesis using that [of 1 ?raw] assms by (simp add: parseMemoryLimit_def Let_def split: if_splits)
  next
    case (Some c)
    obtain u f where c: "c = (u, f)" by fastforce
    then have "(u, f) \<in> set memory_suffixes" using Some by (auto simp: find_Some_iff)
    then show ?thesis using that [of f "TrimSpace (take (length ?raw - length u) ?raw)"] assms Some [unfolded c] factor_pos [of u f]
      by (simp add: parseMemoryLimit_def Let_def split: if_splits)
  qed
  from r obtain v where v: "0 < f" "0 < v" "\<not> v > go_quot max_int64 f" "b = wrap64 (v * f)"
    using f by (fastforce split: option.splits if_splits simp: not_le)
  then have "v * f \<le> max_int64" using le_div_iff [OF v(1), of v max_int64] by (simp add: go_quot_nonneg)
  moreover have "0 < v * f" using v(1,2) by simp
  moreover have "wrap64 (v * f) = v * f" by (rule wrap64_id) (use calculation in \<open>simp add: in_int64_def\<close>)
  ultimately show ?thesis using v(4) by simp
qed

definition health_agrees :: "healthState \<Rightarrow> RealtimeHealthSnapshot \<Rightarrow> bool" where
  "health_agrees s p \<longleftrightarrow>
     hs_Ready p = he_ready s \<and> hs_Status p = (if he_ready s then ''ok'' else ''starting'') \<and> hs_NodeCount p = he_nodeCount s \<and>
     hs_RealtimeEnabled p = he_realtimeEnabled s \<and> hs_HealthPort p = he_healthPort s \<and> hs_ConfigPath p = he_configPath s \<and>
     rs_GoMemLimitBytes (hs_Runtime p) = ar_GoMemLimitBytes (he_runtime s)"

lemma published_agrees: "status = [] \<or> status = ''starting'' \<and> \<not> he_ready s \<Longrightarrow> health_agrees s (publishSnapshot t status s)"
  by (auto simp: health_agrees_def publishSnapshot_def Let_def health_snapshot_def SetRealtimeHealthSnapshot_def)

lemma health_step_agrees: "case health_step e sp of (s, p) \<Rightarrow> health_agrees s p"
  by (cases e) (simp_all add: UpdateConfig_def MarkReady_def Let_def published_agrees)

section \<open>Properties\<close>

text \<open>
  A memory limit is read exactly: a number with one of the units, in upper or lower case, is the number
  times the unit when that fits into an \<open>int64\<close> and an error otherwise; no text at all gives a
  limit that is not positive or has wrapped around.
\<close>

theorem memory_limit_read_back:
  assumes "(ToUpper u, f) \<in> set memory_suffixes \<or> u = [] \<and> f = 1" and "0 < n"
  shows "parseMemoryLimit (nat_digits n @ u) =
           (if int n * f \<le> max_int64 then Inr (int n * f) else Inl (if int n \<le> max_int64 then LimitOverflow else NotANumber)) \<and>
         (\<forall>s b. parseMemoryLimit s = Inr b \<longrightarrow> 0 < b \<and> b \<le> max_int64)"
proof -
  let ?raw = "nat_digits n @ u"
  have "field_word ?raw" using field_word_digits [of n] assms(1) unit_plain [of u f] by (auto simp: field_word_def)
  then have t: "TrimSpace ?raw = ?raw" by (rule TrimSpace_plain)
  have d: "TrimSpace (nat_digits n) = nat_digits n" by (rule TrimSpace_plain) simp
  have l: "length (ToUpper u) = length u" by (simp add: ToUpper_def)
  have "0 < f" using assms(1) factor_pos by auto
  note p = parsed_number [OF assms(2) this]
  have "parseMemoryLimit ?raw = (if int n * f \<le> max_int64 then Inr (int n * f) else Inl (if int n \<le> max_int64 then LimitOverflow else NotANumber))"
  proof (cases "u = []")
    case True
    then have "f = 1" using assms(1) by (auto simp: memory_suffixes_def ToUpper_def)
    then show ?thesis using p [unfolded \<open>f = 1\<close>] True ToUpper_digits [of n "[]"] by (simp add: parseMemoryLimit_def Let_def d find_no_suffix ToUpper_def)
  next
    case False
    then have "find (\<lambda>c. HasSuffix (nat_digits n @ ToUpper u) (fst c)) memory_suffixes = Some (ToUpper u, f)"
      using assms(1) by (intro find_suffix) simp
    then show ?thesis using p by (simp add: parseMemoryLimit_def Let_def t ToUpper_digits l d)
  qed
  then show ?thesis using accepted_limit_bounds by blast
qed

theorem memory_limit_read_back_witness:
  "parseMemoryLimit (nat_digits 512 @ ''MiB'') = Inr 536870912 \<and> parseMemoryLimit (nat_digits 9000000 @ ''TiB'') = Inl LimitOverflow"
proof -
  have u: "ToUpper ''MiB'' = ''MIB''" "ToUpper ''TiB'' = ''TIB''" by code_simp+
  then have "(ToUpper ''MiB'', 1024 * 1024) \<in> set memory_suffixes" "(ToUpper ''TiB'', 1024 * 1024 * 1024 * 1024) \<in> set memory_suffixes"
    by (simp_all add: memory_suffixes_def)
  then show ?thesis using memory_limit_read_back [of "''MiB''" "1024 * 1024" 512] memory_limit_read_back [of "''TiB''" "1024 * 1024 * 1024 * 1024" 9000000] by simp
qed

text \<open>
  C37. Which changes of the configuration file are read: with events in the order of their times, the file
  is read at or after the last change unless an earlier event was taken more than five and less than ten
  seconds before it. In that window the change falls after the read and its event is dropped: it
  goes unnoticed.
\<close>

theorem watch_reads_change_iff:
  assumes "sorted (map fe_at es)" and "\<forall>e \<in> set es. fe_at e \<le> t"
  shows "(\<exists>r \<in> set (Watch_reads (es @ [\<lparr>fe_at = t, fe_chmod = False\<rparr>])). t \<le> r) \<longleftrightarrow>
         \<not> (\<exists>p \<in> set (watch_taken None es). p + 5 < t \<and> t < p + 10)"
proof (cases "watch_taken None es" rule: rev_cases)
  case Nil
  then show ?thesis by (simp add: Watch_reads_def watch_taken_snoc)
next
  case (snoc ps l)
  have s: "\<forall>p \<in> set ps. p + 10 \<le> l" "l \<le> t"
    using watch_taken_sorted [OF assms, of None] snoc by (auto simp: sorted_wrt_append)
  then show ?thesis using snoc by (fastforce simp: Watch_reads_def watch_taken_snoc Let_def)
qed

theorem watch_reads_change_iff_witness:
  "\<not> (\<exists>r \<in> set (Watch_reads ([\<lparr>fe_at = 100, fe_chmod = False\<rparr>] @ [\<lparr>fe_at = 107, fe_chmod = False\<rparr>])). 107 \<le> r)"
  using watch_reads_change_iff [of "[\<lparr>fe_at = 100, fe_chmod = False\<rparr>]" 107] by simp

text \<open>
  The health pages and the published health agree with the state: after any updates, what the realtime
  connections report has the readiness, node count and settings of the state, the readiness pages
  answer 200 exactly when the process is ready and 503 otherwise, and the liveness page always answers 200.
\<close>

theorem health_pages_follow_state:
  "case fold health_step events (newHealthState t0 path) of (s, p) \<Rightarrow>
     health_agrees s p \<and> map_option fst (health_page t s ''/livez'') = Some 200 \<and>
     list_all (\<lambda>page. health_page t s page = Some (if he_ready s then 200 else 503, health_snapshot t [] s)) [''/readyz'', ''/health'', ''/healthz'']"
proof -
  have "case fold health_step events (newHealthState t0 path) of (s, p) \<Rightarrow> health_agrees s p"
  proof (cases events rule: rev_cases)
    case Nil
    then show ?thesis by (simp add: newHealthState_def Let_def published_agrees)
  next
    case (snoc es e)
    then show ?thesis using health_step_agrees by simp
  qed
  moreover have "hr_Ready (health_snapshot t [] s) = he_ready s" "\<not> he_ready s \<Longrightarrow> (health_snapshot t [] s)\<lparr>hr_Status := ''starting''\<rparr> = health_snapshot t [] s" for s
    by (simp_all add: health_snapshot_def)
  ultimately show ?thesis by (auto simp: health_page_def handleHealthRequest_def Let_def split: prod.splits)
qed

end
