(* ===== verification/Edge_Client.thy ===== *)
theory Edge_Client
  imports Go_Text Traffic_Report Sub_Proxy
begin

text \<open>
  The client of the edge daemon (\<open>agent/edge/client.go\<close>) and the control state that the server keeps
  for it (\<open>cmd/edge.go\<close>): the forms that are posted, the answers that are decoded, and the bridge through which
  the traffic reports drain and restore the traffic of the daemon. The daemon with the network
  before it is a state of type \<open>'e\<close> and a function that answers calls.
\<close>

section \<open>Forms\<close>

type_synonym form = "(string, string) go_map"

text \<open>\<open>url.QueryEscape\<close> and \<open>url.Values.Encode\<close>.\<close>

definition query_escape_char :: "char \<Rightarrow> string" where
  "query_escape_char c =
     (let n = of_char c :: nat
      in if unreserved c then [c] else if c = CHR '' '' then ''+'' else [CHR ''%'', upperhex (n div 16), upperhex (n mod 16)])"

definition QueryEscape :: "string \<Rightarrow> string" where
  "QueryEscape s = concat (map query_escape_char s)"

definition form_Encode :: "form \<Rightarrow> string" where
  "form_Encode f = Join (map (\<lambda>p. QueryEscape (fst p) @ ''='' @ QueryEscape (snd p)) (sort_key fst f)) ''&''"

section \<open>The client\<close>

record edge_Client =
  ed_baseURL :: string
  ed_timeout :: int

record edge_Health =
  eh_Status :: string
  eh_Version :: string
  eh_UptimeSeconds :: int

record TrafficRecord =
  tf_User :: string
  tf_UploadBytes :: "64 word"
  tf_DownloadBytes :: "64 word"

record TrafficSnapshot =
  ts_UploadBytes :: "64 word"
  ts_DownloadBytes :: "64 word"
  ts_Users :: "TrafficRecord list"

record GeneratedFile =
  gn_Path :: string
  gn_Contents :: string

record SidecarSpec =
  sc_Name :: string
  sc_Protocol :: string
  sc_Enabled :: bool
  sc_Binary :: string
  sc_Args :: "string list"
  sc_Env :: "(string, string) go_map"
  sc_GeneratedFiles :: "GeneratedFile list"

record SidecarFailure =
  sf_Name :: string
  sf_Error :: string

record SidecarApplyReport =
  sa_Started :: "string list"
  sa_Stopped :: "string list"
  sa_Failed :: "SidecarFailure list"

text \<open>
  A call with its method, address and body; the answer is an error, or a status and what reading the
  body gives. Beside it stand the check of the address and the JSON decoders.
\<close>

record http_call =
  hc_Method :: string
  hc_URL :: string
  hc_Body :: string

record 'e transport =
  tp_bad_url :: "string \<Rightarrow> go_error option"
  tp_do :: "http_call \<Rightarrow> 'e \<Rightarrow> (go_error + int \<times> (go_error + string)) \<times> 'e"
  tp_health :: "string \<Rightarrow> go_error + edge_Health"
  tp_traffic :: "string \<Rightarrow> go_error + TrafficSnapshot"
  tp_report :: "string \<Rightarrow> go_error + SidecarApplyReport"

definition edge_NewClient :: "string \<Rightarrow> int \<Rightarrow> edge_Client" where
  "edge_NewClient baseURL timeout =
     \<lparr>ed_baseURL = TrimRight (TrimSpace baseURL) ''/'', ed_timeout = (if timeout \<le> 0 then 2 else timeout)\<rparr>"

definition edge_url :: "edge_Client \<Rightarrow> string \<Rightarrow> string" where
  "edge_url c path = ed_baseURL c @ path"

text \<open>\<open>target\<close> is the decoder of the value that is filled in, or \<open>None\<close> for a call without one; \<open>z\<close> is the value before.\<close>

definition decodeResponse :: "(string \<Rightarrow> go_error + 'r) option \<Rightarrow> 'r \<Rightarrow> int \<times> (go_error + string) \<Rightarrow> go_error + 'r" where
  "decodeResponse target z resp =
     (case resp of
        (status, Inl e) \<Rightarrow> Inl e
      | (status, Inr data) \<Rightarrow>
          if status < 200 \<or> status \<ge> 300 then Inl (ErrText (''keli-edge status='' @ Itoa status @ '' body='' @ TrimSpace data))
          else case target of
                 None \<Rightarrow> Inr z
               | Some decode \<Rightarrow>
                   if data = [] then Inr z
                   else (case decode data of Inl e \<Rightarrow> Inl (ErrText ''decode keli-edge response failed'') | Inr v \<Rightarrow> Inr v))"

definition edge_call :: "'e transport \<Rightarrow> http_call \<Rightarrow> (string \<Rightarrow> go_error + 'r) option \<Rightarrow> 'r \<Rightarrow> 'e \<Rightarrow> (go_error + 'r) \<times> 'e" where
  "edge_call tp call target z e =
     (case tp_bad_url tp (hc_URL call) of
        Some err \<Rightarrow> (Inl err, e)
      | None \<Rightarrow>
          (case tp_do tp call e of
             (Inl err, e1) \<Rightarrow> (Inl err, e1)
           | (Inr resp, e1) \<Rightarrow> (decodeResponse target z resp, e1)))"

definition getJSON :: "'e transport \<Rightarrow> edge_Client \<Rightarrow> string \<Rightarrow> (string \<Rightarrow> go_error + 'r) option \<Rightarrow> 'r \<Rightarrow> 'e \<Rightarrow> (go_error + 'r) \<times> 'e" where
  "getJSON tp c path target z = edge_call tp \<lparr>hc_Method = ''GET'', hc_URL = edge_url c path, hc_Body = []\<rparr> target z"

definition postForm ::
  "'e transport \<Rightarrow> edge_Client \<Rightarrow> string \<Rightarrow> form option \<Rightarrow> (string \<Rightarrow> go_error + 'r) option \<Rightarrow> 'r \<Rightarrow> 'e \<Rightarrow> (go_error + 'r) \<times> 'e" where
  "postForm tp c path f target z =
     edge_call tp \<lparr>hc_Method = ''POST'', hc_URL = edge_url c path, hc_Body = (case f of None \<Rightarrow> [] | Some vs \<Rightarrow> form_Encode vs)\<rparr> target z"

definition client_Health :: "'e transport \<Rightarrow> edge_Client \<Rightarrow> 'e \<Rightarrow> (go_error + edge_Health) \<times> 'e" where
  "client_Health tp c = getJSON tp c ''/health'' (Some (tp_health tp)) \<lparr>eh_Status = [], eh_Version = [], eh_UptimeSeconds = 0\<rparr>"

definition client_Reload :: "'e transport \<Rightarrow> edge_Client \<Rightarrow> 'e \<Rightarrow> (go_error + unit) \<times> 'e" where
  "client_Reload tp c = postForm tp c ''/reload'' None None ()"

definition traffic_form :: "TrafficRecord \<Rightarrow> form" where
  "traffic_form r =
     go_store ''download'' (nat_digits (unat (tf_DownloadBytes r)))
       (go_store ''upload'' (nat_digits (unat (tf_UploadBytes r))) (go_store ''user'' (tf_User r) []))"

definition client_RecordTraffic :: "'e transport \<Rightarrow> edge_Client \<Rightarrow> TrafficRecord \<Rightarrow> 'e \<Rightarrow> (go_error + unit) \<times> 'e" where
  "client_RecordTraffic tp c r = postForm tp c ''/traffic'' (Some (traffic_form r)) None ()"

definition client_DrainTraffic :: "'e transport \<Rightarrow> edge_Client \<Rightarrow> 'e \<Rightarrow> (go_error + TrafficSnapshot) \<times> 'e" where
  "client_DrainTraffic tp c = postForm tp c ''/traffic/drain'' None (Some (tp_traffic tp)) \<lparr>ts_UploadBytes = 0, ts_DownloadBytes = 0, ts_Users = []\<rparr>"

definition formatEnvLines :: "(string, string) go_map \<Rightarrow> string" where
  "formatEnvLines env = Join (map (\<lambda>k. k @ ''='' @ go_get [] env k) (sort (map fst (go_range env)))) [line_feed]"

definition file_key :: "string \<Rightarrow> nat \<Rightarrow> string" where
  "file_key name i = (if i > 0 then name @ ''_'' @ Itoa (int i) else name)"

definition set_file :: "nat \<times> GeneratedFile \<Rightarrow> form \<Rightarrow> form" where
  "set_file p vs = (case p of (i, f) \<Rightarrow> go_store (file_key ''file_contents'' i) (gn_Contents f) (go_store (file_key ''file_path'' i) (gn_Path f) vs))"

definition sidecar_form :: "SidecarSpec \<Rightarrow> form" where
  "sidecar_form spec =
     (let v0 = go_store ''binary'' (sc_Binary spec) (go_store ''enabled'' (if sc_Enabled spec then ''true'' else ''false'')
                 (go_store ''protocol'' (sc_Protocol spec) (go_store ''name'' (sc_Name spec) [])));
          v1 = (if sc_Args spec \<noteq> [] then go_store ''args'' (Join (sc_Args spec) [line_feed]) v0 else v0);
          v2 = (if sc_Env spec \<noteq> [] then go_store ''env'' (formatEnvLines (sc_Env spec)) v1 else v1)
      in fold set_file (enumerate 0 (sc_GeneratedFiles spec)) v2)"

definition client_UpsertSidecar :: "'e transport \<Rightarrow> edge_Client \<Rightarrow> SidecarSpec \<Rightarrow> 'e \<Rightarrow> (go_error + SidecarApplyReport) \<times> 'e" where
  "client_UpsertSidecar tp c spec =
     postForm tp c ''/sidecars/upsert'' (Some (sidecar_form spec)) (Some (tp_report tp)) \<lparr>sa_Started = [], sa_Stopped = [], sa_Failed = []\<rparr>"

section \<open>The control state\<close>

record edgeControlState =
  es_client :: "edge_Client option"

definition newEdgeControlState :: edgeControlState where
  "newEdgeControlState = \<lparr>es_client = None\<rparr>"

text \<open>The health check is made, within a context that has the timeout of the configuration, and its outcome is only logged.\<close>

definition edge_Apply :: "'e transport \<Rightarrow> EdgeConfig \<Rightarrow> edgeControlState \<times> 'e \<Rightarrow> edgeControlState \<times> 'e" where
  "edge_Apply tp cfg se =
     (case se of (s, e) \<Rightarrow>
        if \<not> ec_Enabled cfg then (s\<lparr>es_client := None\<rparr>, e)
        else let c = edge_NewClient (ec_URL cfg) (ec_Timeout cfg) in (s\<lparr>es_client := Some c\<rparr>, if ec_Timeout cfg \<le> 0 then e else snd (client_Health tp c e)))"

definition edge_Reload :: "'e transport \<Rightarrow> edgeControlState \<Rightarrow> 'e \<Rightarrow> 'e" where
  "edge_Reload tp s e = (case es_client s of None \<Rightarrow> e | Some c \<Rightarrow> snd (client_Reload tp c e))"

definition to_node_record :: "TrafficRecord \<Rightarrow> EdgeTrafficRecord" where
  "to_node_record r = \<lparr>er_User = tf_User r, er_UploadBytes = tf_UploadBytes r, er_DownloadBytes = tf_DownloadBytes r\<rparr>"

definition to_edge_record :: "EdgeTrafficRecord \<Rightarrow> TrafficRecord" where
  "to_edge_record r = \<lparr>tf_User = er_User r, tf_UploadBytes = er_UploadBytes r, tf_DownloadBytes = er_DownloadBytes r\<rparr>"

definition edge_DrainTraffic :: "'e transport \<Rightarrow> edgeControlState \<Rightarrow> 'e \<Rightarrow> (go_error + EdgeTrafficRecord list) \<times> 'e" where
  "edge_DrainTraffic tp s e =
     (case es_client s of
        None \<Rightarrow> (Inr [], e)
      | Some c \<Rightarrow>
          (case client_DrainTraffic tp c e of
             (Inl err, e1) \<Rightarrow> (Inl err, e1)
           | (Inr snap, e1) \<Rightarrow> (Inr (map to_node_record (ts_Users snap)), e1)))"

definition disabled_error :: go_error where
  "disabled_error = ErrText ''keli-edge client is disabled''"

definition edge_RecordTraffic :: "'e transport \<Rightarrow> edgeControlState \<Rightarrow> EdgeTrafficRecord \<Rightarrow> 'e \<Rightarrow> go_error option \<times> 'e" where
  "edge_RecordTraffic tp s r e =
     (case es_client s of
        None \<Rightarrow> (Some disabled_error, e)
      | Some c \<Rightarrow>
          (case client_RecordTraffic tp c (to_edge_record r) e of
             (Inl err, e1) \<Rightarrow> (Some err, e1)
           | (Inr _, e1) \<Rightarrow> (None, e1)))"

definition edgeGeneratedFiles :: "EdgeGeneratedFile list \<Rightarrow> GeneratedFile list" where
  "edgeGeneratedFiles fs = map (\<lambda>f. \<lparr>gn_Path = gf_Path f, gn_Contents = gf_Contents f\<rparr>) fs"

definition to_edge_spec :: "EdgeSidecarSpec \<Rightarrow> SidecarSpec" where
  "to_edge_spec spec =
     \<lparr>sc_Name = ss_Name spec, sc_Protocol = ss_Protocol spec, sc_Enabled = ss_Enabled spec, sc_Binary = ss_Binary spec,
      sc_Args = ss_Args spec, sc_Env = ss_Env spec, sc_GeneratedFiles = edgeGeneratedFiles (ss_GeneratedFiles spec)\<rparr>"

definition edge_UpsertSidecar :: "'e transport \<Rightarrow> edgeControlState \<Rightarrow> EdgeSidecarSpec \<Rightarrow> 'e \<Rightarrow> (go_error + SidecarApplyReport) \<times> 'e" where
  "edge_UpsertSidecar tp s spec e =
     (case es_client s of
        None \<Rightarrow> (Inl disabled_error, e)
      | Some c \<Rightarrow> client_UpsertSidecar tp c (to_edge_spec spec) e)"

text \<open>The bridge that the traffic reports use.\<close>

definition edge_bridge :: "'e transport \<Rightarrow> edgeControlState \<Rightarrow> 'e EdgeTrafficBridge" where
  "edge_bridge tp s = \<lparr>eb_DrainTraffic = edge_DrainTraffic tp s, eb_RecordTraffic = edge_RecordTraffic tp s\<rparr>"

section \<open>Reading forms\<close>

text \<open>The reference reader of a form: pieces between ampersands, a name and a value, with escapes undone.\<close>

fun query_unescape :: "string \<Rightarrow> string option" where
  "query_unescape [] = Some []"
| "query_unescape (c # s) =
     (if c = CHR ''%'' then
        (case s of
           a # b # rest \<Rightarrow>
             (case (unhex a, unhex b) of
                (Some x, Some y) \<Rightarrow> map_option ((#) (char_of (16 * x + y))) (query_unescape rest)
              | _ \<Rightarrow> None)
         | _ \<Rightarrow> None)
      else map_option ((#) (if c = CHR ''+'' then CHR '' '' else c)) (query_unescape s))"

definition decode_pair :: "string \<Rightarrow> (string \<times> string) option" where
  "decode_pair s =
     (case CutChar s (CHR ''='') of
        (k, v, _) \<Rightarrow> (case (query_unescape k, query_unescape v) of (Some a, Some b) \<Rightarrow> Some (a, b) | _ \<Rightarrow> None))"

definition decode_form :: "string \<Rightarrow> form" where
  "decode_form s = List.map_filter decode_pair (SplitChar (CHR ''&'') s)"

section \<open>Lemmas\<close>

lemma query_unescape_char: "query_unescape (query_escape_char c @ s) = map_option ((#) c) (query_unescape s)"
proof (cases "unreserved c \<or> c = CHR '' ''")
  case True
  then have "c \<noteq> CHR ''%''" "c \<noteq> CHR ''+''" by (auto simp: unreserved_def)
  then show ?thesis using True by (auto simp: query_escape_char_def Let_def unreserved_def)
next
  case False
  have "of_char c div 16 < (16 :: nat)" "of_char c mod 16 < (16 :: nat)" using nat_of_char_less_256 [of c] by (simp_all add: less_mult_imp_div_less)
  moreover have "char_of (16 * (of_char c div 16) + of_char c mod 16 :: nat) = c" by simp
  ultimately show ?thesis using False by (simp add: query_escape_char_def Let_def unhex_upperhex)
qed

lemma query_unescape_escape: "query_unescape (QueryEscape s) = Some s"
  by (induction s) (simp_all add: QueryEscape_def query_unescape_char)

lemma query_escape_chars: "c \<in> set (QueryEscape s) \<Longrightarrow> unreserved c \<or> c = CHR ''+'' \<or> c = CHR ''%''"
proof -
  have h: "unreserved (upperhex n)" if "n < 16" for n
    using that by (cases "n < 10") (simp_all add: unreserved_def upperhex_def Let_def)
  have "set (query_escape_char d) \<subseteq> {c. unreserved c \<or> c = CHR ''+'' \<or> c = CHR ''%''}" for d
  proof -
    have "unreserved (upperhex (of_char d div 16))" "unreserved (upperhex (of_char d mod 16))"
      using nat_of_char_less_256 [of d] by (simp_all add: h less_mult_imp_div_less)
    then show ?thesis by (simp add: query_escape_char_def Let_def)
  qed
  then show "c \<in> set (QueryEscape s) \<Longrightarrow> unreserved c \<or> c = CHR ''+'' \<or> c = CHR ''%''" by (fastforce simp: QueryEscape_def)
qed

lemma query_escape_plain: "CHR ''&'' \<notin> set (QueryEscape s)" "CHR ''='' \<notin> set (QueryEscape s)" "line_feed \<notin> set (QueryEscape s)"
proof -
  have "\<not> unreserved CHR ''&''" "\<not> unreserved CHR ''=''" "\<not> unreserved line_feed" by code_simp+
  then show "CHR ''&'' \<notin> set (QueryEscape s)" "CHR ''='' \<notin> set (QueryEscape s)" "line_feed \<notin> set (QueryEscape s)"
    using query_escape_chars by fastforce+
qed

lemma decode_pair_escaped: "decode_pair (QueryEscape k @ ''='' @ QueryEscape v) = Some (k, v)"
  using CutChar_append [OF query_escape_plain(2), of k "QueryEscape v"] by (simp add: decode_pair_def query_unescape_escape)

text \<open>A form that is posted is read back, with its fields in order.\<close>

lemma decode_form_Encode:
  assumes "f \<noteq> []"
  shows "decode_form (form_Encode f) = sort_key fst f"
proof -
  let ?ws = "map (\<lambda>p. QueryEscape (fst p) @ ''='' @ QueryEscape (snd p)) (sort_key fst f)"
  have "SplitChar (CHR ''&'') (Join ?ws ''&'') = ?ws"
    by (rule SplitChar_Join) (use assms query_escape_plain(1) in \<open>simp_all add: list_all_iff flip: set_empty\<close>)
  then show ?thesis
    by (simp add: decode_form_def form_Encode_def List.map_filter_def decode_pair_escaped [simplified] comp_def)
qed

lemma load_decoded: "f \<noteq> [] \<Longrightarrow> go_wf f \<Longrightarrow> go_load (decode_form (form_Encode f)) k = go_load f k"
proof -
  assume f: "f \<noteq> []" "go_wf f"
  have "distinct (map fst (sort_key fst f))" using f(2) unfolding go_wf_def by (simp add: distinct_map)
  then have "map_of (sort_key fst f) = map_of f" using f(2) by (intro map_of_inject_set [THEN iffD2]) (simp_all add: go_wf_def)
  then show ?thesis using f(1) by (simp add: decode_form_Encode go_load_def)
qed

lemma store_ne [simp]: "go_store k v m \<noteq> []"
  by (cases m) (auto simp: go_store_def)

lemma nat_digits_inj: "nat_digits a = nat_digits b \<longleftrightarrow> a = b"
  by (metis digits_val_nat_digits)

lemma file_key_simps [simp]:
  "file_key name i = file_key name j \<longleftrightarrow> i = j" "file_key ''file_path'' i \<noteq> file_key ''file_contents'' j"
  "file_key ''file_contents'' i \<noteq> file_key ''file_path'' j"
  by (auto simp: file_key_def Itoa_def nat_digits_inj split: if_splits)

lemma load_set_file:
  "go_load (set_file (i, f) vs) k =
     (if k = file_key ''file_contents'' i then Some (gn_Contents f) else if k = file_key ''file_path'' i then Some (gn_Path f) else go_load vs k)"
  by (simp add: set_file_def gmap.lookup_store)

lemma wf_set_file: "go_wf vs \<Longrightarrow> go_wf (set_file p vs)"
  by (cases p) (simp add: set_file_def gmap.invar_store)

lemma wf_set_files: "go_wf vs \<Longrightarrow> go_wf (fold set_file ps vs)"
  by (induction ps arbitrary: vs) (simp_all add: wf_set_file)

lemma set_files_ne: "vs \<noteq> [] \<Longrightarrow> fold set_file ps vs \<noteq> []"
  by (induction ps arbitrary: vs) (simp_all add: set_file_def case_prod_unfold)

lemma load_set_files:
  "go_load (fold set_file (enumerate n fs) vs) (file_key ''file_path'' j) =
     (if n \<le> j \<and> j < n + length fs then Some (gn_Path (fs ! (j - n))) else go_load vs (file_key ''file_path'' j))"
  "go_load (fold set_file (enumerate n fs) vs) (file_key ''file_contents'' j) =
     (if n \<le> j \<and> j < n + length fs then Some (gn_Contents (fs ! (j - n))) else go_load vs (file_key ''file_contents'' j))"
  by (induction fs arbitrary: n vs) (auto simp: load_set_file nth_Cons' Suc_diff_Suc)

lemma load_files_other: "hd k \<noteq> CHR ''f'' \<Longrightarrow> go_load (fold set_file ps vs) k = go_load vs k"
proof (induction ps arbitrary: vs)
  case (Cons p ps)
  obtain i f where "p = (i, f)" by fastforce
  moreover have "hd (file_key ''file_contents'' i) = CHR ''f''" "hd (file_key ''file_path'' i) = CHR ''f''" by (simp_all add: file_key_def)
  then have "k \<noteq> file_key ''file_contents'' i" "k \<noteq> file_key ''file_path'' i" using Cons.prems by metis+
  ultimately show ?case using Cons by (simp add: load_set_file)
qed simp

lemma sidecar_form_wf: "go_wf (sidecar_form spec)" "sidecar_form spec \<noteq> []"
  by (simp_all add: sidecar_form_def Let_def wf_set_files set_files_ne)

lemma sidecar_form_load:
  "go_load (sidecar_form spec) ''name'' = Some (sc_Name spec)" "go_load (sidecar_form spec) ''protocol'' = Some (sc_Protocol spec)"
  "go_load (sidecar_form spec) ''enabled'' = Some (if sc_Enabled spec then ''true'' else ''false'')"
  "go_load (sidecar_form spec) ''binary'' = Some (sc_Binary spec)"
  "go_load (sidecar_form spec) ''args'' = (if sc_Args spec = [] then None else Some (Join (sc_Args spec) [line_feed]))"
  "go_load (sidecar_form spec) ''env'' = (if sc_Env spec = [] then None else Some (formatEnvLines (sc_Env spec)))"
  by (simp_all add: sidecar_form_def Let_def load_files_other gmap.lookup_store)

lemma file_key_other: "hd k \<noteq> CHR ''f'' \<Longrightarrow> file_key ''file_path'' j \<noteq> k" "hd k \<noteq> CHR ''f'' \<Longrightarrow> file_key ''file_contents'' j \<noteq> k"
proof -
  have "hd (file_key ''file_contents'' j) = CHR ''f''" "hd (file_key ''file_path'' j) = CHR ''f''" by (simp_all add: file_key_def)
  then show "hd k \<noteq> CHR ''f'' \<Longrightarrow> file_key ''file_path'' j \<noteq> k" "hd k \<noteq> CHR ''f'' \<Longrightarrow> file_key ''file_contents'' j \<noteq> k" by metis+
qed

lemma sidecar_form_files:
  "go_load (sidecar_form spec) (file_key ''file_path'' j) = (if j < length (sc_GeneratedFiles spec) then Some (gn_Path (sc_GeneratedFiles spec ! j)) else None)"
  "go_load (sidecar_form spec) (file_key ''file_contents'' j) = (if j < length (sc_GeneratedFiles spec) then Some (gn_Contents (sc_GeneratedFiles spec ! j)) else None)"
  by (simp_all add: sidecar_form_def Let_def load_set_files gmap.lookup_store file_key_other)

lemma to_edge_record_simps [simp]:
  "tf_User (to_edge_record r) = er_User r" "tf_UploadBytes (to_edge_record r) = er_UploadBytes r" "tf_DownloadBytes (to_edge_record r) = er_DownloadBytes r"
  by (simp_all add: to_edge_record_def)

lemma traffic_form_load:
  "go_load (traffic_form r) ''user'' = Some (tf_User r)" "go_load (traffic_form r) ''upload'' = Some (nat_digits (unat (tf_UploadBytes r)))"
  "go_load (traffic_form r) ''download'' = Some (nat_digits (unat (tf_DownloadBytes r)))"
  by (simp_all add: traffic_form_def gmap.lookup_store)

lemma traffic_form_wf: "go_wf (traffic_form r)" "traffic_form r \<noteq> []"
  by (simp_all add: traffic_form_def)

text \<open>
  The contract of the daemon: a drain that fails, or is answered with an error status or an unreadable body, changes
  nothing; one that succeeds hands out a readable account of the amounts held and forgets
  them. A posted traffic form with a user and two numbers adds the numbers to the user's amounts.
\<close>

definition drain_call :: "string \<Rightarrow> http_call" where
  "drain_call base = \<lparr>hc_Method = ''POST'', hc_URL = base @ ''/traffic/drain'', hc_Body = []\<rparr>"

definition record_call :: "string \<Rightarrow> form \<Rightarrow> http_call" where
  "record_call base f = \<lparr>hc_Method = ''POST'', hc_URL = base @ ''/traffic'', hc_Body = form_Encode f\<rparr>"

definition drain_lawful :: "'e transport \<Rightarrow> string \<Rightarrow> ('e \<Rightarrow> string \<Rightarrow> int) \<Rightarrow> ('e \<Rightarrow> string \<Rightarrow> int) \<Rightarrow> bool" where
  "drain_lawful tp base up down \<longleftrightarrow>
     (\<forall>e. case tp_do tp (drain_call base) e of
            (Inr (status, Inr body), e1) \<Rightarrow>
              if 200 \<le> status \<and> status < 300
              then \<exists>snap. body \<noteq> [] \<and> tp_traffic tp body = Inr snap \<and> up e = (\<lambda>u. user_sum er_UploadBytes u (map to_node_record (ts_Users snap))) \<and>
                     down e = (\<lambda>u. user_sum er_DownloadBytes u (map to_node_record (ts_Users snap))) \<and> up e1 = (\<lambda>_. 0) \<and> down e1 = (\<lambda>_. 0)
              else up e1 = up e \<and> down e1 = down e
          | (_, e1) \<Rightarrow> up e1 = up e \<and> down e1 = down e)"

definition record_lawful :: "'e transport \<Rightarrow> string \<Rightarrow> ('e \<Rightarrow> string \<Rightarrow> int) \<Rightarrow> ('e \<Rightarrow> string \<Rightarrow> int) \<Rightarrow> bool" where
  "record_lawful tp base up down \<longleftrightarrow>
     (\<forall>f e user a b a' b'. go_wf f \<and> f \<noteq> [] \<and> go_load (decode_form (form_Encode f)) ''user'' = Some user \<and>
        go_load (decode_form (form_Encode f)) ''upload'' = Some a \<and> go_load (decode_form (form_Encode f)) ''download'' = Some b \<and>
        ParseUint a = (a', True) \<and> ParseUint b = (b', True) \<longrightarrow>
        (\<exists>data e1. tp_do tp (record_call base f) e = (Inr (200, Inr data), e1) \<and>
           up e1 = (\<lambda>u. up e u + (if user = u then uint a' else 0)) \<and> down e1 = (\<lambda>u. down e u + (if user = u then uint b' else 0))))"

lemma client_record_lawful:
  assumes "record_lawful tp (ed_baseURL c) up down" and "tp_bad_url tp (ed_baseURL c @ ''/traffic'') = None"
  shows "\<exists>e1. client_RecordTraffic tp c r e = (Inr (), e1) \<and>
    up e1 = (\<lambda>u. up e u + (if tf_User r = u then uint (tf_UploadBytes r) else 0)) \<and> down e1 = (\<lambda>u. down e u + (if tf_User r = u then uint (tf_DownloadBytes r) else 0))"
proof -
  let ?f = "traffic_form r"
  have l: "go_load (decode_form (form_Encode ?f)) k = go_load ?f k" for k by (rule load_decoded [OF traffic_form_wf(2,1)])
  have "\<exists>data e1. tp_do tp (record_call (ed_baseURL c) ?f) e = (Inr (200, Inr data), e1) \<and>
      up e1 = (\<lambda>u. up e u + (if tf_User r = u then uint (tf_UploadBytes r) else 0)) \<and> down e1 = (\<lambda>u. down e u + (if tf_User r = u then uint (tf_DownloadBytes r) else 0))"
    by (rule assms(1) [unfolded record_lawful_def, rule_format, of ?f])
       (intro conjI traffic_form_wf, simp_all add: l traffic_form_load, (rule ParseUint_digits)+)
  then obtain data e1 where d: "tp_do tp (record_call (ed_baseURL c) ?f) e = (Inr (200, Inr data), e1)"
    "up e1 = (\<lambda>u. up e u + (if tf_User r = u then uint (tf_UploadBytes r) else 0))" "down e1 = (\<lambda>u. down e u + (if tf_User r = u then uint (tf_DownloadBytes r) else 0))"
    by blast
  then show ?thesis using assms(2)
    by (simp add: client_RecordTraffic_def postForm_def edge_call_def edge_url_def record_call_def decodeResponse_def)
qed

lemma client_drain_lawful:
  assumes "drain_lawful tp (ed_baseURL c) up down" and "tp_bad_url tp (ed_baseURL c @ ''/traffic/drain'') = None"
  shows "case client_DrainTraffic tp c e of
      (Inl err, e1) \<Rightarrow> up e1 = up e \<and> down e1 = down e
    | (Inr snap, e1) \<Rightarrow> up e = (\<lambda>u. user_sum er_UploadBytes u (map to_node_record (ts_Users snap))) \<and>
        down e = (\<lambda>u. user_sum er_DownloadBytes u (map to_node_record (ts_Users snap))) \<and> up e1 = (\<lambda>_. 0) \<and> down e1 = (\<lambda>_. 0)"
proof -
  obtain resp e1 where t: "tp_do tp (drain_call (ed_baseURL c)) e = (resp, e1)" by fastforce
  then have c: "client_DrainTraffic tp c e =
      (case resp of Inl err \<Rightarrow> Inl err | Inr a \<Rightarrow> decodeResponse (Some (tp_traffic tp)) \<lparr>ts_UploadBytes = 0, ts_DownloadBytes = 0, ts_Users = []\<rparr> a, e1)"
    using assms(2) by (simp add: client_DrainTraffic_def postForm_def edge_call_def edge_url_def drain_call_def split: sum.splits)
  have "case (resp, e1) of
            (Inr (status, Inr body), e1) \<Rightarrow>
              if 200 \<le> status \<and> status < 300
              then \<exists>snap. body \<noteq> [] \<and> tp_traffic tp body = Inr snap \<and> up e = (\<lambda>u. user_sum er_UploadBytes u (map to_node_record (ts_Users snap))) \<and>
                     down e = (\<lambda>u. user_sum er_DownloadBytes u (map to_node_record (ts_Users snap))) \<and> up e1 = (\<lambda>_. 0) \<and> down e1 = (\<lambda>_. 0)
              else up e1 = up e \<and> down e1 = down e
          | (_, e1) \<Rightarrow> up e1 = up e \<and> down e1 = down e"
    using assms(1) [unfolded drain_lawful_def, rule_format, of e] t by simp
  then show ?thesis unfolding c
    by (auto simp: decodeResponse_def not_less not_le split: sum.splits prod.splits if_splits)
qed

section \<open>Properties\<close>

text \<open>
  The daemon reads back what is sent: the form posted for a sidecar, decoded as a form, has the name,
  protocol, flag and binary of the specification, its arguments line by line, and the generated
  files in order with no further one.
\<close>

theorem sidecar_form_read_back:
  assumes "list_all (\<lambda>a. line_feed \<notin> set a) (sc_Args spec)" and "i < length (sc_GeneratedFiles spec)"
  shows "let f = decode_form (form_Encode (sidecar_form spec)); fs = sc_GeneratedFiles spec in
     go_load f ''name'' = Some (sc_Name spec) \<and> go_load f ''protocol'' = Some (sc_Protocol spec) \<and> go_load f ''binary'' = Some (sc_Binary spec) \<and>
     (go_load f ''enabled'' = Some ''true'' \<longleftrightarrow> sc_Enabled spec) \<and>
     (case go_load f ''args'' of None \<Rightarrow> [] | Some a \<Rightarrow> SplitChar line_feed a) = sc_Args spec \<and>
     go_load f (file_key ''file_path'' i) = Some (gn_Path (fs ! i)) \<and> go_load f (file_key ''file_contents'' i) = Some (gn_Contents (fs ! i)) \<and>
     go_load f (file_key ''file_path'' (length fs)) = None"
proof -
  have l: "go_load (decode_form (form_Encode (sidecar_form spec))) k = go_load (sidecar_form spec) k" for k
    by (rule load_decoded [OF sidecar_form_wf(2,1)])
  have "SplitChar line_feed (Join (sc_Args spec) [line_feed]) = sc_Args spec" if "sc_Args spec \<noteq> []" by (rule SplitChar_Join [OF assms(1) that])
  then show ?thesis unfolding Let_def l using assms(2) by (simp add: sidecar_form_load sidecar_form_files)
qed

definition demo_spec :: SidecarSpec where
  "demo_spec =
     \<lparr>sc_Name = ''n'', sc_Protocol = ''p'', sc_Enabled = True, sc_Binary = ''b'', sc_Args = [''run'', ''-c''], sc_Env = [(''K'', ''V'')],
      sc_GeneratedFiles = [\<lparr>gn_Path = ''a.json'', gn_Contents = ''{}''\<rparr>, \<lparr>gn_Path = ''b'', gn_Contents = ''x=1&y''\<rparr>]\<rparr>"

theorem sidecar_form_read_back_witness:
  "let f = decode_form (form_Encode (sidecar_form demo_spec)) in
     go_load f (file_key ''file_contents'' 1) = Some ''x=1&y'' \<and> (case go_load f ''args'' of None \<Rightarrow> [] | Some a \<Rightarrow> SplitChar line_feed a) = [''run'', ''-c'']"
proof -
  have "list_all (\<lambda>a. line_feed \<notin> set a) (sc_Args demo_spec)" "1 < length (sc_GeneratedFiles demo_spec)" by (simp_all add: demo_spec_def)
  from sidecar_form_read_back [OF this] show ?thesis by (simp add: Let_def demo_spec_def)
qed


text \<open>A daemon that keeps the posted forms as lines and hands them all out.\<close>

definition read_record :: "string \<Rightarrow> TrafficRecord" where
  "read_record b =
     (let f = decode_form b
      in \<lparr>tf_User = go_get [] f ''user'', tf_UploadBytes = fst (ParseUint (go_get [] f ''upload'')), tf_DownloadBytes = fst (ParseUint (go_get [] f ''download''))\<rparr>)"

definition read_lines :: "string \<Rightarrow> TrafficRecord list" where
  "read_lines s = map read_record (butlast (SplitChar line_feed s))"

definition demo_daemon :: "string list transport" where
  "demo_daemon =
     \<lparr>tp_bad_url = (\<lambda>_. None),
      tp_do = (\<lambda>call e. if hc_URL call = ''/traffic/drain'' then (Inr (200, Inr (''x'' @ unlines e)), []) else (Inr (200, Inr []), e @ [hc_Body call])),
      tp_health = (\<lambda>_. Inl Canceled),
      tp_traffic = (\<lambda>b. Inr \<lparr>ts_UploadBytes = 0, ts_DownloadBytes = 0, ts_Users = read_lines (tl b)\<rparr>), tp_report = (\<lambda>_. Inl Canceled)\<rparr>"

definition demo_up :: "string list \<Rightarrow> string \<Rightarrow> int" where
  "demo_up e u = user_sum er_UploadBytes u (map to_node_record (read_lines (unlines e)))"

definition demo_down :: "string list \<Rightarrow> string \<Rightarrow> int" where
  "demo_down e u = user_sum er_DownloadBytes u (map to_node_record (read_lines (unlines e)))"

lemma SplitChar_at: "SplitChar c (a @ c # b) = SplitChar c a @ SplitChar c b"
  by (induction a) (auto split: list.splits)

lemma read_lines_snoc: "line_feed \<notin> set b \<Longrightarrow> read_lines (unlines (e @ [b])) = read_lines (unlines e) @ [read_record b]"
proof (cases e rule: rev_cases)
  case (snoc es x)
  assume b: "line_feed \<notin> set b"
  have "SplitChar line_feed (unlines (e @ [b])) = SplitChar line_feed (unlines es @ x) @ [b, []]"
    using SplitChar_at [of line_feed "unlines es @ x" "b @ [line_feed]"] SplitChar_append [OF b, of "[]"] by (simp add: snoc unlines_def)
  moreover have "SplitChar line_feed (unlines e) = SplitChar line_feed (unlines es @ x) @ [[]]"
    using SplitChar_at [of line_feed "unlines es @ x" "[]"] by (simp add: snoc unlines_def)
  ultimately show ?thesis by (simp add: read_lines_def butlast_append)
next
  case Nil
  assume "line_feed \<notin> set b"
  then show ?thesis using SplitChar_append [of line_feed b "[]"] by (simp add: Nil read_lines_def unlines_def)
qed

lemma Join_no_char: "c \<notin> set sep \<Longrightarrow> \<forall>w \<in> set ws. c \<notin> set w \<Longrightarrow> c \<notin> set (Join ws sep)"
  by (induction ws sep rule: Join.induct) auto

lemma form_no_line_feed: "line_feed \<notin> set (form_Encode f)"
  unfolding form_Encode_def by (rule Join_no_char) (auto simp: query_escape_plain)

lemma demo_daemon_lawful: "drain_lawful demo_daemon [] demo_up demo_down" "record_lawful demo_daemon [] demo_up demo_down"
proof -
  have z: "demo_up [] = (\<lambda>_. 0)" "demo_down [] = (\<lambda>_. 0)" by (simp_all add: demo_up_def demo_down_def read_lines_def unlines_def fun_eq_iff)
  show "drain_lawful demo_daemon [] demo_up demo_down"
    by (simp add: drain_lawful_def demo_daemon_def drain_call_def z) (simp add: demo_up_def demo_down_def fun_eq_iff)
  have "demo_up (e @ [form_Encode f]) u = demo_up e u + (if tf_User (read_record (form_Encode f)) = u then uint (tf_UploadBytes (read_record (form_Encode f))) else 0)"
    "demo_down (e @ [form_Encode f]) u = demo_down e u + (if tf_User (read_record (form_Encode f)) = u then uint (tf_DownloadBytes (read_record (form_Encode f))) else 0)" for e f u
    by (simp_all add: demo_up_def demo_down_def read_lines_snoc form_no_line_feed user_sum_def to_node_record_def)
  then show "record_lawful demo_daemon [] demo_up demo_down"
    by (auto simp: record_lawful_def demo_daemon_def record_call_def read_record_def Let_def go_get_def fun_eq_iff)
qed


end
