(* ===== verification/Agent_Server.thy ===== *)
theory Agent_Server
  imports Machine_Status Agent_Runtime Edge_Client
begin

text \<open>
  The server command (\<open>cmd/server.go\<close>): start-up, the main loop, the reload of the configuration and the
  end of the process with its deferred closings. The status reporter, the machine realtime
  connections, the subscription proxy, the edge control, the health and the runtime settings are
  those of the other theories. Nodes and cores are numbered in the order of their creation; their
  operations, which the code calls through package variables, act on a world of type \<open>'w\<close> and are arguments.
  The trace records what was started and closed.
\<close>

section \<open>State\<close>

text \<open>A core with the channel it sends reload requests to; the channel of the process has number 0.\<close>

record core_ref =
  co_id :: nat
  co_ReloadCh :: "nat option"

datatype server_action =
    StartedCore nat | StartedNode nat | ClosedNode nat | ClosedCore nat | Reconciled nat nat

text \<open>Where the log goes: the initial stream, an open file, or the nil file of a failed open.\<close>

datatype log_output = LogStd | LogFile string | LogNil

datatype server_phase = Serving | Returned | Panicked

record ('n, 'e, 'w) server =
  sv_nodes :: "(nat \<times> 'n) option"
  sv_core :: "core_ref option"
  sv_queued :: bool
  sv_health :: "healthState \<times> RealtimeHealthSnapshot"
  sv_runtime :: "runtimeTuningState \<times> go_runtime"
  sv_log :: log_output
  sv_proxy :: proxy_state
  sv_reporter :: reporter_world
  sv_realtime :: machineRealtimeState
  sv_edge :: "edgeControlState \<times> 'e"
  sv_next :: nat
  sv_trace :: "server_action list"
  sv_phase :: server_phase
  sv_world :: 'w

text \<open>
  What an event of the process sees: the configuration file, the machine profiles, whether a log file can be
  opened, the environments of the services, the operations on nodes and cores, and whether watching the
  configuration file fails.
\<close>

record ('n, 'e, 'k, 'w) server_env =
  sx_load :: "'w \<Rightarrow> go_error + Conf"
  sx_prepare :: "Conf \<Rightarrow> 'w \<Rightarrow> (go_error + Conf) \<times> 'w"
  sx_open_log :: "string \<Rightarrow> bool"
  sx_proxy :: "'k apply_env"
  sx_derive :: "string \<Rightarrow> string"
  sx_edge :: "'e transport"
  sx_moment :: moment
  sx_newNode :: "NodeConfig list \<Rightarrow> RealtimeConfig \<Rightarrow> 'w \<Rightarrow> (go_error + 'n) \<times> 'w"
  sx_newMachineNode :: "NodeConfig list \<Rightarrow> RealtimeConfig \<Rightarrow> bool \<Rightarrow> 'w \<Rightarrow> (go_error + 'n) \<times> 'w"
  sx_setAuto :: "bool \<Rightarrow> 'n \<Rightarrow> 'n"
  sx_setBridges :: "'n \<Rightarrow> 'n"
  sx_reconcile :: "'n \<Rightarrow> Conf \<Rightarrow> nat \<Rightarrow> 'w \<Rightarrow> (go_error + bool option) \<times> 'n \<times> 'w"
  sx_startCore :: "Conf \<Rightarrow> nat \<Rightarrow> 'n \<Rightarrow> 'w \<Rightarrow> go_error option \<times> 'w"
  sx_startNode :: "'n \<Rightarrow> NodeConfig list \<Rightarrow> nat \<Rightarrow> 'w \<Rightarrow> go_error option \<times> 'n \<times> 'w"
  sx_closeNode :: "'n \<Rightarrow> 'w \<Rightarrow> go_error option \<times> 'n \<times> 'w"
  sx_closeCore :: "nat \<Rightarrow> 'w \<Rightarrow> go_error option \<times> 'w"
  sx_failures :: "'n \<Rightarrow> nat"
  sx_watch :: "go_error option"

section \<open>Requests for a reload\<close>

text \<open>The channel holds one request; a request on a nil channel does nothing.\<close>

definition queueReload :: "nat option \<Rightarrow> ('n, 'e, 'w) server \<Rightarrow> ('n, 'e, 'w) server" where
  "queueReload ch s = (case ch of None \<Rightarrow> s | Some c \<Rightarrow> if c = 0 then s\<lparr>sv_queued := True\<rparr> else s)"

definition queueMachineReconcileIfEnabled :: "('n, 'e, 'k, 'w) server_env \<Rightarrow> ('n, 'e, 'w) server \<Rightarrow> ('n, 'e, 'w) server" where
  "queueMachineReconcileIfEnabled env s =
     (case sx_load env (sv_world s) of
        Inl e \<Rightarrow> s
      | Inr cfg \<Rightarrow> if mc_Enabled (cf_MachineConfig cfg) then queueReload (Some 0) s else s)"

definition retry_failed_nodes :: "('n, 'e, 'k, 'w) server_env \<Rightarrow> ('n, 'e, 'w) server \<Rightarrow> ('n, 'e, 'w) server" where
  "retry_failed_nodes env s =
     (case sv_nodes s of
        None \<Rightarrow> s
      | Some (i, n) \<Rightarrow> if sx_failures env n > 0 then queueReload (Some 0) s else s)"

section \<open>Services\<close>

definition start_log :: "('n, 'e, 'k, 'w) server_env \<Rightarrow> Conf \<Rightarrow> ('n, 'e, 'w) server \<Rightarrow> ('n, 'e, 'w) server" where
  "start_log env cfg s =
     (let out = lc_Output (cf_LogConfig cfg)
      in if out = [] then s else s\<lparr>sv_log := (if sx_open_log env out then LogFile out else LogNil)\<rparr>)"

definition reload_log :: "('n, 'e, 'k, 'w) server_env \<Rightarrow> Conf \<Rightarrow> ('n, 'e, 'w) server \<Rightarrow> ('n, 'e, 'w) server" where
  "reload_log env cfg s =
     (let out = lc_Output (cf_LogConfig cfg) in if out = [] \<or> \<not> sx_open_log env out then s else s\<lparr>sv_log := LogFile out\<rparr>)"

definition applySubscriptionProxy :: "('n, 'e, 'k, 'w) server_env \<Rightarrow> SubscriptionProxyConfig \<Rightarrow> ('n, 'e, 'w) server \<Rightarrow> ('n, 'e, 'w) server" where
  "applySubscriptionProxy env cfg s = s\<lparr>sv_proxy := snd (Apply (sx_proxy env) cfg (sv_proxy s))\<rparr>"

definition apply_services ::
  "('n, 'e, 'k, 'w) server_env \<Rightarrow> Conf \<Rightarrow> ('n, 'e, 'w) server \<Rightarrow> appliedRuntimeSettings \<times> ('n, 'e, 'w) server" where
  "apply_services env cfg s =
     (let s1 = applySubscriptionProxy env (cf_SubscriptionProxy cfg) s;
          s2 = s1\<lparr>sv_reporter := Reporter_Apply (cf_MachineConfig cfg) (sv_reporter s1)\<rparr>;
          s3 = s2\<lparr>sv_realtime := fst (state_Apply (sx_derive env) (cf_MachineConfig cfg) (cf_RealtimeConfig cfg) (sv_realtime s2))\<rparr>;
          s4 = s3\<lparr>sv_edge := edge_Apply (sx_edge env) (cf_EdgeConfig cfg) (sv_edge s3)\<rparr>
      in case applyRuntimeSettings (cf_RuntimeConfig cfg) (sv_runtime s4) of (applied, rt) \<Rightarrow> (applied, s4\<lparr>sv_runtime := rt\<rparr>))"

definition update_health :: "('n, 'e, 'k, 'w) server_env \<Rightarrow> Conf \<Rightarrow> appliedRuntimeSettings \<Rightarrow> ('n, 'e, 'w) server \<Rightarrow> ('n, 'e, 'w) server" where
  "update_health env cfg applied s = s\<lparr>sv_health := UpdateConfig (sx_moment env) cfg applied (fst (sv_health s))\<rparr>"

definition mark_ready :: "('n, 'e, 'k, 'w) server_env \<Rightarrow> bool \<Rightarrow> ('n, 'e, 'w) server \<Rightarrow> ('n, 'e, 'w) server" where
  "mark_ready env b s = s\<lparr>sv_health := MarkReady (sx_moment env) b (fst (sv_health s))\<rparr>"

definition reload_edge :: "('n, 'e, 'k, 'w) server_env \<Rightarrow> ('n, 'e, 'w) server \<Rightarrow> ('n, 'e, 'w) server" where
  "reload_edge env s = s\<lparr>sv_edge := (fst (sv_edge s), edge_Reload (sx_edge env) (fst (sv_edge s)) (snd (sv_edge s)))\<rparr>"

section \<open>Nodes and cores\<close>

definition newNodeForConfig ::
  "('n, 'e, 'k, 'w) server_env \<Rightarrow> Conf \<Rightarrow> ('n, 'e, 'w) server \<Rightarrow> (go_error + nat \<times> 'n) \<times> ('n, 'e, 'w) server" where
  "newNodeForConfig env cfg s =
     (case (if mc_Enabled (cf_MachineConfig cfg)
            then sx_newMachineNode env (cf_NodeConfigs cfg) (cf_RealtimeConfig cfg) (mc_ContinueOnError (cf_MachineConfig cfg)) (sv_world s)
            else sx_newNode env (cf_NodeConfigs cfg) (cf_RealtimeConfig cfg) (sv_world s)) of
        (Inl e, w) \<Rightarrow> (Inl e, s\<lparr>sv_world := w\<rparr>)
      | (Inr n, w) \<Rightarrow>
          (Inr (sv_next s, sx_setBridges env (sx_setAuto env (ru_AutoHY2PortForward (cf_RuntimeConfig cfg)) n)), s\<lparr>sv_world := w, sv_next := Suc (sv_next s)\<rparr>))"

definition fresh_core :: "nat option \<Rightarrow> ('n, 'e, 'w) server \<Rightarrow> core_ref \<times> ('n, 'e, 'w) server" where
  "fresh_core ch s = (\<lparr>co_id = sv_next s, co_ReloadCh = ch\<rparr>, s\<lparr>sv_next := Suc (sv_next s)\<rparr>)"

definition start_core ::
  "('n, 'e, 'k, 'w) server_env \<Rightarrow> Conf \<Rightarrow> core_ref \<Rightarrow> 'n \<Rightarrow> ('n, 'e, 'w) server \<Rightarrow> go_error option \<times> ('n, 'e, 'w) server" where
  "start_core env cfg c n s =
     (case sx_startCore env cfg (co_id c) n (sv_world s) of
        (Some e, w) \<Rightarrow> (Some e, s\<lparr>sv_world := w\<rparr>)
      | (None, w) \<Rightarrow> (None, s\<lparr>sv_world := w, sv_trace := sv_trace s @ [StartedCore (co_id c)]\<rparr>))"

definition start_node ::
  "('n, 'e, 'k, 'w) server_env \<Rightarrow> Conf \<Rightarrow> nat \<times> 'n \<Rightarrow> core_ref \<Rightarrow> ('n, 'e, 'w) server \<Rightarrow> (go_error + nat \<times> 'n) \<times> ('n, 'e, 'w) server" where
  "start_node env cfg n c s =
     (case sx_startNode env (snd n) (cf_NodeConfigs cfg) (co_id c) (sv_world s) of
        (Some e, n1, w) \<Rightarrow> (Inl e, s\<lparr>sv_world := w\<rparr>)
      | (None, n1, w) \<Rightarrow> (Inr (fst n, n1), s\<lparr>sv_world := w, sv_trace := sv_trace s @ [StartedNode (fst n)]\<rparr>))"

definition close_nodes :: "('n, 'e, 'k, 'w) server_env \<Rightarrow> ('n, 'e, 'w) server \<Rightarrow> go_error option \<times> ('n, 'e, 'w) server" where
  "close_nodes env s =
     (case sv_nodes s of
        None \<Rightarrow> (None, s)
      | Some (i, n) \<Rightarrow>
          (case sx_closeNode env n (sv_world s) of (err, n1, w) \<Rightarrow> (err, s\<lparr>sv_nodes := Some (i, n1), sv_world := w, sv_trace := sv_trace s @ [ClosedNode i]\<rparr>)))"

definition close_core :: "('n, 'e, 'k, 'w) server_env \<Rightarrow> ('n, 'e, 'w) server \<Rightarrow> go_error option \<times> ('n, 'e, 'w) server" where
  "close_core env s =
     (case sv_core s of
        None \<Rightarrow> (None, s)
      | Some c \<Rightarrow>
          (case sx_closeCore env (co_id c) (sv_world s) of (err, w) \<Rightarrow> (err, s\<lparr>sv_world := w, sv_trace := sv_trace s @ [ClosedCore (co_id c)]\<rparr>)))"

text \<open>The new nodes and core, started, or the error of the first step that fails.\<close>

definition start_new ::
  "('n, 'e, 'k, 'w) server_env \<Rightarrow> Conf \<Rightarrow> nat option \<Rightarrow> ('n, 'e, 'w) server \<Rightarrow> (go_error + (nat \<times> 'n) \<times> core_ref) \<times> ('n, 'e, 'w) server" where
  "start_new env cfg ch s =
     (case newNodeForConfig env cfg s of
        (Inl e, s1) \<Rightarrow> (Inl e, s1)
      | (Inr n, s1) \<Rightarrow>
          (case fresh_core ch s1 of (c, s2) \<Rightarrow>
             (case start_core env cfg c (snd n) s2 of
                (Some e, s3) \<Rightarrow> (Inl e, s3)
              | (None, s3) \<Rightarrow>
                  (case start_node env cfg n c s3 of
                     (Inl e, s4) \<Rightarrow> (Inl e, s4)
                   | (Inr n1, s4) \<Rightarrow> (Inr (n1, c), s4)))))"

section \<open>Reload\<close>

definition full_reload ::
  "('n, 'e, 'k, 'w) server_env \<Rightarrow> Conf \<Rightarrow> appliedRuntimeSettings \<Rightarrow> nat option \<Rightarrow> ('n, 'e, 'w) server \<Rightarrow> go_error option \<times> ('n, 'e, 'w) server" where
  "full_reload env cfg applied ch s =
     (case close_nodes env s of
        (Some e, s1) \<Rightarrow> (Some e, s1)
      | (None, s1) \<Rightarrow>
          (case close_core env s1 of
             (Some e, s2) \<Rightarrow> (Some e, s2)
           | (None, s2) \<Rightarrow>
               (case start_new env cfg ch s2 of
                  (Inl e, s3) \<Rightarrow> (Some e, s3)
                | (Inr (n, c), s3) \<Rightarrow>
                    (None, reload_edge env (update_health env cfg applied (s3\<lparr>sv_nodes := Some n, sv_core := Some c\<rparr>))))))"

text \<open>The reconciliation of machine mode: \<open>Some\<close> outcome of the whole reload, or \<open>None\<close> when a full reload is required.\<close>

definition machine_reload ::
  "('n, 'e, 'k, 'w) server_env \<Rightarrow> Conf \<Rightarrow> appliedRuntimeSettings \<Rightarrow> ('n, 'e, 'w) server \<Rightarrow> go_error option option \<times> ('n, 'e, 'w) server" where
  "machine_reload env cfg applied s =
     (case (sv_nodes s, sv_core s) of
        (Some (i, n), Some c) \<Rightarrow>
          if \<not> mc_Enabled (cf_MachineConfig cfg) then (None, s)
          else (case sx_reconcile env (sx_setAuto env (ru_AutoHY2PortForward (cf_RuntimeConfig cfg)) n) cfg (co_id c) (sv_world s) of
                  (res, n1, w) \<Rightarrow>
                    let s1 = s\<lparr>sv_nodes := Some (i, n1), sv_world := w, sv_trace := sv_trace s @ [Reconciled i (co_id c)]\<rparr>
                    in case res of
                         Inl e \<Rightarrow> (Some (Some e), s1)
                       | Inr (Some False) \<Rightarrow> (Some None, reload_edge env (update_health env cfg applied s1))
                       | Inr _ \<Rightarrow> (None, s1))
      | _ \<Rightarrow> (None, s))"

definition server_reload :: "('n, 'e, 'k, 'w) server_env \<Rightarrow> ('n, 'e, 'w) server \<Rightarrow> go_error option \<times> ('n, 'e, 'w) server" where
  "server_reload env s =
     (let oldReloadCh = (case sv_core s of None \<Rightarrow> None | Some c \<Rightarrow> co_ReloadCh c)
      in case sx_load env (sv_world s) of
           Inl e \<Rightarrow> (Some e, s)
         | Inr loaded \<Rightarrow>
             (let s1 = reload_log env loaded s
              in case sx_prepare env loaded (sv_world s1) of
                   (Inl e, w) \<Rightarrow> (Some e, s1\<lparr>sv_world := w\<rparr>)
                 | (Inr cfg, w) \<Rightarrow>
                     (case apply_services env cfg (s1\<lparr>sv_world := w\<rparr>) of
                        (applied, s2) \<Rightarrow>
                          (case machine_reload env cfg applied s2 of
                             (Some outcome, s3) \<Rightarrow> (outcome, s3)
                           | (None, s3) \<Rightarrow> full_reload env cfg applied oldReloadCh s3))))"

section \<open>The end of the process\<close>

definition close_services :: "('n, 'e, 'k, 'w) server_env \<Rightarrow> ('n, 'e, 'w) server \<Rightarrow> ('n, 'e, 'w) server" where
  "close_services env s =
     s\<lparr>sv_realtime := fst (state_Close (sv_realtime s)), sv_reporter := Reporter_Close (sv_reporter s),
       sv_proxy := Manager_Close (ae_now (sx_proxy env)) (sv_proxy s)\<rparr>"

text \<open>The deferred closings, last first.\<close>

definition run_deferred :: "('n, 'e, 'k, 'w) server_env \<Rightarrow> server_phase \<Rightarrow> ('n, 'e, 'w) server \<Rightarrow> ('n, 'e, 'w) server" where
  "run_deferred env ph s = (close_services env (snd (close_core env (snd (close_nodes env s)))))\<lparr>sv_phase := ph\<rparr>"

section \<open>Start-up\<close>

definition process_start :: "'e \<Rightarrow> moment \<Rightarrow> string \<Rightarrow> go_runtime \<Rightarrow> files \<Rightarrow> 'w \<Rightarrow> ('n, 'e, 'w) server" where
  "process_start e t configPath rt fs w =
     \<lparr>sv_nodes = None, sv_core = None, sv_queued = False, sv_health = newHealthState t configPath,
      sv_runtime = (\<lparr>rt_memLimitConfigured = False, rt_gcPercentConfigured = False\<rparr>, rt), sv_log = LogStd,
      sv_proxy = new_proxy (mt_now t) fs, sv_reporter = new_reporters, sv_realtime = \<lparr>mr_manager = None, mr_fingerprint = []\<rparr>,
      sv_edge = (newEdgeControlState, e), sv_next = 0, sv_trace = [], sv_phase = Serving, sv_world = w\<rparr>"

text \<open>
  The stages of the start: what fails before the services are applied only returns; what fails later runs
  the closings that were deferred by then. A core is started with the channel of the process.
\<close>

definition serve_nodes :: "('n, 'e, 'k, 'w) server_env \<Rightarrow> Conf \<Rightarrow> nat \<times> 'n \<Rightarrow> core_ref \<Rightarrow> ('n, 'e, 'w) server \<Rightarrow> ('n, 'e, 'w) server" where
  "serve_nodes env cfg n c s =
     (case start_node env cfg n c s of
        (Inl e, s1) \<Rightarrow> (close_services env (snd (close_core env s1)))\<lparr>sv_phase := Returned\<rparr>
      | (Inr n1, s1) \<Rightarrow>
          let s2 = mark_ready env True (s1\<lparr>sv_nodes := Some n1\<rparr>)
          in (case sx_watch env of None \<Rightarrow> s2 | Some e \<Rightarrow> run_deferred env Returned s2))"

definition serve_core :: "('n, 'e, 'k, 'w) server_env \<Rightarrow> Conf \<Rightarrow> nat \<times> 'n \<Rightarrow> ('n, 'e, 'w) server \<Rightarrow> ('n, 'e, 'w) server" where
  "serve_core env cfg n s =
     (case fresh_core (Some 0) (s\<lparr>sv_nodes := Some n\<rparr>) of
        (c, s1) \<Rightarrow>
          (case start_core env cfg c (snd n) s1 of
             (Some e, s2) \<Rightarrow> (close_services env s2)\<lparr>sv_phase := Returned\<rparr>
           | (None, s2) \<Rightarrow> serve_nodes env cfg n c (s2\<lparr>sv_core := Some c\<rparr>)))"

definition serve_config :: "('n, 'e, 'k, 'w) server_env \<Rightarrow> Conf \<Rightarrow> ('n, 'e, 'w) server \<Rightarrow> ('n, 'e, 'w) server" where
  "serve_config env cfg s =
     (case apply_services env cfg s of
        (applied, s1) \<Rightarrow>
          (case newNodeForConfig env cfg (update_health env cfg applied s1) of
             (Inl e, s2) \<Rightarrow> (close_services env s2)\<lparr>sv_phase := Returned\<rparr>
           | (Inr n, s2) \<Rightarrow> serve_core env cfg n s2))"

definition serverHandle :: "('n, 'e, 'k, 'w) server_env \<Rightarrow> ('n, 'e, 'w) server \<Rightarrow> ('n, 'e, 'w) server" where
  "serverHandle env s =
     (case sx_load env (sv_world s) of
        Inl e \<Rightarrow> s\<lparr>sv_phase := Returned\<rparr>
      | Inr loaded \<Rightarrow>
          (let s1 = start_log env loaded s
           in case sx_prepare env loaded (sv_world s1) of
                (Inl e, w) \<Rightarrow> s1\<lparr>sv_world := w, sv_phase := Returned\<rparr>
              | (Inr cfg, w) \<Rightarrow> serve_config env cfg (s1\<lparr>sv_world := w\<rparr>)))"

section \<open>The main loop\<close>

text \<open>
  An exit signal, the two tickers, a request from the watcher, a reporter or a node, and the receipt of a
  queued request, which reloads; a failed reload panics, and the deferred closings still run.
\<close>

datatype ('n, 'e, 'k, 'w) server_event =
    OnSignal "('n, 'e, 'k, 'w) server_env"
  | OnRetryTick "('n, 'e, 'k, 'w) server_env"
  | OnReconcileTick "('n, 'e, 'k, 'w) server_env"
  | OnRequest
  | OnReload "('n, 'e, 'k, 'w) server_env"

definition handle_reload :: "('n, 'e, 'k, 'w) server_env \<Rightarrow> ('n, 'e, 'w) server \<Rightarrow> ('n, 'e, 'w) server" where
  "handle_reload env s =
     (case server_reload env (mark_ready env False (s\<lparr>sv_queued := False\<rparr>)) of
        (Some e, s1) \<Rightarrow> run_deferred env Panicked s1
      | (None, s1) \<Rightarrow> mark_ready env True s1)"

primrec server_handle_event :: "('n, 'e, 'k, 'w) server_event \<Rightarrow> ('n, 'e, 'w) server \<Rightarrow> ('n, 'e, 'w) server" where
  "server_handle_event (OnSignal env) s = run_deferred env Returned s"
| "server_handle_event (OnRetryTick env) s = retry_failed_nodes env s"
| "server_handle_event (OnReconcileTick env) s = queueMachineReconcileIfEnabled env s"
| "server_handle_event OnRequest s = queueReload (Some 0) s"
| "server_handle_event (OnReload env) s = handle_reload env s"

definition event_enabled :: "('n, 'e, 'k, 'w) server_event \<Rightarrow> ('n, 'e, 'w) server \<Rightarrow> bool" where
  "event_enabled ev s \<longleftrightarrow> sv_phase s = Serving \<and> (case ev of OnReload env \<Rightarrow> sv_queued s | _ \<Rightarrow> True)"

inductive server_run :: "('n, 'e, 'k, 'w) server_event list \<Rightarrow> ('n, 'e, 'w) server \<Rightarrow> ('n, 'e, 'w) server \<Rightarrow> bool" where
  server_nil: "server_run [] s s"
| server_cons: "event_enabled ev s \<Longrightarrow> server_run evs (server_handle_event ev s) s' \<Longrightarrow> server_run (ev # evs) s s'"

inductive_simps server_run_simps: "server_run [] s s'" "server_run (ev # evs) s s'"

section \<open>Lemmas\<close>

text \<open>The cores and the nodes that were started and not closed, newest first.\<close>

definition opened_step :: "server_action \<Rightarrow> nat list \<times> nat list \<Rightarrow> nat list \<times> nat list" where
  "opened_step a cn =
     (case a of
        StartedCore c \<Rightarrow> (c # fst cn, snd cn)
      | StartedNode n \<Rightarrow> (fst cn, n # snd cn)
      | ClosedCore c \<Rightarrow> (filter (\<lambda>x. x \<noteq> c) (fst cn), snd cn)
      | ClosedNode n \<Rightarrow> (fst cn, filter (\<lambda>x. x \<noteq> n) (snd cn))
      | Reconciled n c \<Rightarrow> cn)"

definition opened :: "server_action list \<Rightarrow> nat list \<times> nat list" where
  "opened tr = fold opened_step tr ([], [])"

lemma opened_append [simp]: "opened (tr @ as) = fold opened_step as (opened tr)"
  by (simp add: opened_def)

lemma opened_Nil [simp]: "opened [] = ([], [])"
  by (simp add: opened_def)

lemmas opened_steps [simp] = opened_step_def

text \<open>In the main loop exactly one core and one set of nodes is open, and the core has the channel of the process.\<close>

definition one_open :: "('n, 'e, 'w) server \<Rightarrow> bool" where
  "one_open s \<longleftrightarrow>
     (\<exists>i n c. sv_nodes s = Some (i, n) \<and> sv_core s = Some c \<and> co_ReloadCh c = Some 0 \<and> opened (sv_trace s) = ([co_id c], [i]))"

text \<open>The services are in a state of their own theories, whatever else happens.\<close>

definition services_ok :: "('n, 'e, 'w) server \<Rightarrow> bool" where
  "services_ok s \<longleftrightarrow> proxy_inv (sv_proxy s) \<and> reporter_inv (sv_reporter s)"

definition same_services :: "('n, 'e, 'w) server \<Rightarrow> ('n, 'e, 'w) server \<Rightarrow> bool" where
  "same_services s s' \<longleftrightarrow> sv_proxy s' = sv_proxy s \<and> sv_reporter s' = sv_reporter s"

lemma apply_services_ok: "services_ok s \<Longrightarrow> services_ok (snd (apply_services env cfg s))"
  using inv_apply [of "sx_proxy env" "cf_SubscriptionProxy cfg" "sv_proxy s"] inv_reporter_step [of "sv_reporter s" "CallApply (cf_MachineConfig cfg)"]
  by (cases "Apply (sx_proxy env) (cf_SubscriptionProxy cfg) (sv_proxy s)")
     (simp add: services_ok_def apply_services_def applySubscriptionProxy_def Let_def split: prod.splits)

lemma services_ok_update [simp]:
  "services_ok (s\<lparr>sv_world := w\<rparr>) = services_ok s" "services_ok (s\<lparr>sv_phase := ph\<rparr>) = services_ok s" "services_ok (s\<lparr>sv_core := c\<rparr>) = services_ok s"
  "services_ok (s\<lparr>sv_nodes := n\<rparr>) = services_ok s" "services_ok (s\<lparr>sv_trace := tr\<rparr>) = services_ok s" "services_ok (s\<lparr>sv_next := k\<rparr>) = services_ok s"
  "services_ok (s\<lparr>sv_queued := b\<rparr>) = services_ok s" "services_ok (s\<lparr>sv_health := h\<rparr>) = services_ok s"
  "services_ok (s\<lparr>sv_log := l\<rparr>) = services_ok s"
  by (simp_all add: services_ok_def)

lemma one_open_update [simp]:
  "one_open (s\<lparr>sv_world := w\<rparr>) = one_open s" "one_open (s\<lparr>sv_phase := ph\<rparr>) = one_open s" "one_open (s\<lparr>sv_queued := b\<rparr>) = one_open s"
  "one_open (s\<lparr>sv_health := h\<rparr>) = one_open s"
  by (simp_all add: one_open_def)

text \<open>What applying the services leaves as it is.\<close>

definition same_nodes :: "('n, 'e, 'w) server \<Rightarrow> ('n, 'e, 'w) server \<Rightarrow> bool" where
  "same_nodes s s' \<longleftrightarrow>
     sv_nodes s' = sv_nodes s \<and> sv_core s' = sv_core s \<and> sv_trace s' = sv_trace s \<and> sv_next s' = sv_next s \<and> sv_phase s' = sv_phase s \<and> sv_world s' = sv_world s"

lemma apply_services_nodes: "same_nodes s (snd (apply_services env cfg s))"
  by (simp add: same_nodes_def apply_services_def applySubscriptionProxy_def Let_def split: prod.splits)

lemma log_frames [simp]:
  "same_nodes s (start_log env cfg s)" "same_services s (start_log env cfg s)" "same_nodes s (reload_log env cfg s)" "same_services s (reload_log env cfg s)"
  by (simp_all add: same_nodes_def same_services_def start_log_def reload_log_def Let_def)

lemma services_ok_same: "same_services s s' \<Longrightarrow> services_ok s' \<longleftrightarrow> services_ok s"
  by (simp add: same_services_def services_ok_def)

lemma one_open_same: "same_nodes s s' \<Longrightarrow> one_open s' \<longleftrightarrow> one_open s"
  by (simp add: same_nodes_def one_open_def)

text \<open>The steps on nodes and cores.\<close>

lemma start_new_spec:
  "start_new env cfg ch s = (r, s') \<Longrightarrow>
   same_services s s' \<and> sv_phase s' = sv_phase s \<and>
   (case r of Inl e \<Rightarrow> True
    | Inr (n, c) \<Rightarrow> co_ReloadCh c = ch \<and> opened (sv_trace s') = (co_id c # fst (opened (sv_trace s)), fst n # snd (opened (sv_trace s))))"
  by (auto simp: start_new_def newNodeForConfig_def fresh_core_def start_core_def start_node_def same_services_def split: prod.splits sum.splits option.splits if_splits)

lemma close_nodes_spec:
  "close_nodes env s = (r, s') \<Longrightarrow> same_services s s' \<and> sv_core s' = sv_core s \<and> map_option fst (sv_nodes s') = map_option fst (sv_nodes s) \<and> sv_phase s' = sv_phase s \<and>
     opened (sv_trace s') = (fst (opened (sv_trace s)), case sv_nodes s of None \<Rightarrow> snd (opened (sv_trace s)) | Some (i, n) \<Rightarrow> filter (\<lambda>x. x \<noteq> i) (snd (opened (sv_trace s))))"
  by (auto simp: close_nodes_def same_services_def split: prod.splits option.splits)

lemma close_core_spec:
  "close_core env s = (r, s') \<Longrightarrow> same_services s s' \<and> sv_core s' = sv_core s \<and> sv_nodes s' = sv_nodes s \<and> sv_phase s' = sv_phase s \<and>
     opened (sv_trace s') = (case sv_core s of None \<Rightarrow> fst (opened (sv_trace s)) | Some c \<Rightarrow> filter (\<lambda>x. x \<noteq> co_id c) (fst (opened (sv_trace s))), snd (opened (sv_trace s)))"
  by (auto simp: close_core_def same_services_def split: prod.splits option.splits)

lemma full_reload_spec:
  assumes "full_reload env cfg applied (Some 0) s = (r, s')" and "one_open s"
  shows "same_services s s' \<and> sv_phase s' = sv_phase s \<and> (r = None \<longrightarrow> one_open s')"
proof -
  obtain i n c where o1: "sv_nodes s = Some (i, n)" "sv_core s = Some c" "opened (sv_trace s) = ([co_id c], [i])"
    using assms(2) by (auto simp: one_open_def)
  obtain r1 s1 where n: "close_nodes env s = (r1, s1)" by fastforce
  note n1 = close_nodes_spec [OF n]
  obtain r2 s2 where c: "close_core env s1 = (r2, s2)" by fastforce
  note c1 = close_core_spec [OF c]
  obtain r3 s3 where a: "start_new env cfg (Some 0) s2 = (r3, s3)" by fastforce
  note a1 = start_new_spec [OF a]
  have "opened (sv_trace s2) = ([], [])" using n1 c1 o1 by simp
  then show ?thesis using assms(1) n1 c1 a1
    by (auto simp: full_reload_def n c a same_services_def one_open_def reload_edge_def update_health_def split: option.splits sum.splits prod.splits)
qed

lemma machine_reload_spec:
  assumes "machine_reload env cfg applied s = (r, s')" and "one_open s"
  shows "same_services s s' \<and> sv_phase s' = sv_phase s \<and> one_open s' \<and> sv_core s' = sv_core s"
proof -
  obtain i n c where o1: "sv_nodes s = Some (i, n)" "sv_core s = Some c" "opened (sv_trace s) = ([co_id c], [i])" "co_ReloadCh c = Some 0"
    using assms(2) by (auto simp: one_open_def)
  then show ?thesis using assms(1)
    by (auto simp: machine_reload_def Let_def same_services_def one_open_def reload_edge_def update_health_def split: if_splits prod.splits sum.splits option.splits bool.splits)
qed

lemma same_services_trans: "same_services a b \<Longrightarrow> same_services b c \<Longrightarrow> same_services a c"
  by (simp add: same_services_def)

lemma server_reload_spec:
  assumes "server_reload env s = (r, s')" and "one_open s" and "services_ok s"
  shows "services_ok s' \<and> sv_phase s' = sv_phase s \<and> (r = None \<longrightarrow> one_open s')"
proof (cases "sx_load env (sv_world s)")
  case (Inl e)
  then show ?thesis using assms by (auto simp: server_reload_def Let_def)
next
  case (Inr loaded)
  let ?s1 = "reload_log env loaded s"
  have ch: "(case sv_core s of None \<Rightarrow> None | Some c \<Rightarrow> co_ReloadCh c) = Some 0" using assms(2) by (auto simp: one_open_def)
  have s1: "one_open ?s1" "services_ok ?s1" "sv_phase ?s1 = sv_phase s"
    using assms(2,3) one_open_same services_ok_same log_frames(3,4) [of s env loaded] by (blast, blast, simp add: same_nodes_def)
  obtain p w where p: "sx_prepare env loaded (sv_world ?s1) = (p, w)" by fastforce
  have s2: "one_open (?s1\<lparr>sv_world := w\<rparr>)" "services_ok (?s1\<lparr>sv_world := w\<rparr>)" using s1 by (simp_all add: one_open_def services_ok_def)
  show ?thesis
  proof (cases p)
    case (Inl e)
    then show ?thesis using assms(1) Inr p s1 s2 by (auto simp: server_reload_def Let_def ch)
  next
    case (Inr cfg)
    obtain applied s3 where a: "apply_services env cfg (?s1\<lparr>sv_world := w\<rparr>) = (applied, s3)" by fastforce
    have s3: "one_open s3" "services_ok s3" "sv_phase s3 = sv_phase s"
      using s2 s1(3) one_open_same [OF apply_services_nodes] apply_services_ok [OF s2(2), of env cfg] apply_services_nodes [of "?s1\<lparr>sv_world := w\<rparr>" env cfg] a
      by (metis snd_conv, metis snd_conv, simp add: same_nodes_def)
    obtain m s4 where m: "machine_reload env cfg applied s3 = (m, s4)" by fastforce
    note m1 = machine_reload_spec [OF m s3(1)]
    have s4: "services_ok s4" using services_ok_same m1 s3(2) by blast
    show ?thesis
    proof (cases m)
      case (Some outcome)
      then show ?thesis using assms(1) \<open>sx_load env (sv_world s) = Inr loaded\<close> p Inr a m m1 s4 s3(3) by (simp add: server_reload_def Let_def ch)
    next
      case None
      then have "full_reload env cfg applied (Some 0) s4 = (r, s')"
        using assms(1) \<open>sx_load env (sv_world s) = Inr loaded\<close> p Inr a m by (simp add: server_reload_def Let_def ch)
      from full_reload_spec [OF this] show ?thesis using m1 s4 s3(3) services_ok_same by fastforce
    qed
  qed
qed

lemma close_services_frame [simp]:
  "sv_nodes (close_services env s) = sv_nodes s" "sv_core (close_services env s) = sv_core s" "sv_trace (close_services env s) = sv_trace s"
  by (simp_all add: close_services_def)

lemma close_services_ok: "services_ok s \<Longrightarrow> services_ok (close_services env s)"
  using inv_drop [of "sv_proxy s"] inv_reporter_step [of "sv_reporter s" CallClose]
  by (simp add: services_ok_def close_services_def Manager_Close_def stopped_status_def)

lemma close_services_stops:
  assumes "services_ok s"
  shows "rp_running (sv_reporter (close_services env s)) = [] \<and> ps_serving (sv_proxy (close_services env s)) = [] \<and>
    mr_manager (sv_realtime (close_services env s)) = None"
  using assms cancel_all [of "sv_reporter s"] drop_nothing [of "sv_proxy s"]
  by (simp add: services_ok_def close_services_def Reporter_Close_def Manager_Close_def state_Close_def proxy_inv_def)

lemma run_deferred_spec:
  assumes "services_ok s"
  shows "services_ok (run_deferred env ph s) \<and> sv_phase (run_deferred env ph s) = ph \<and>
    rp_running (sv_reporter (run_deferred env ph s)) = [] \<and> ps_serving (sv_proxy (run_deferred env ph s)) = [] \<and>
    mr_manager (sv_realtime (run_deferred env ph s)) = None \<and> (one_open s \<longrightarrow> opened (sv_trace (run_deferred env ph s)) = ([], []))"
proof -
  obtain r1 s1 where n: "close_nodes env s = (r1, s1)" by fastforce
  obtain r2 s2 where c: "close_core env s1 = (r2, s2)" by fastforce
  note n1 = close_nodes_spec [OF n] and c1 = close_core_spec [OF c]
  have "services_ok s2" using assms n1 c1 services_ok_same by blast
  then have "services_ok (close_services env s2)" "rp_running (sv_reporter (close_services env s2)) = []" "ps_serving (sv_proxy (close_services env s2)) = []"
    "mr_manager (sv_realtime (close_services env s2)) = None"
    using close_services_ok close_services_stops by blast+
  moreover have "one_open s \<longrightarrow> opened (sv_trace s2) = ([], [])" using n1 c1 by (auto simp: one_open_def)
  ultimately show ?thesis by (simp add: run_deferred_def n c services_ok_def)
qed

definition server_inv :: "('n, 'e, 'w) server \<Rightarrow> bool" where
  "server_inv s \<longleftrightarrow> services_ok s \<and> (sv_phase s = Serving \<longrightarrow> one_open s)"

lemma mark_ready_same [simp]: "one_open (mark_ready env b s) = one_open s" "services_ok (mark_ready env b s) = services_ok s" "sv_phase (mark_ready env b s) = sv_phase s"
  by (simp_all add: mark_ready_def one_open_def services_ok_def)

lemma queue_same [simp]: "server_inv (queueReload ch s) = server_inv s"
  by (simp add: queueReload_def server_inv_def services_ok_def one_open_def split: option.splits)

lemma server_inv_event: "event_enabled ev s \<Longrightarrow> server_inv s \<Longrightarrow> server_inv (server_handle_event ev s)"
proof (cases ev)
  case (OnSignal env)
  assume "server_inv s"
  then show ?thesis using run_deferred_spec [of s env Returned] OnSignal by (simp add: server_inv_def)
next
  case (OnReload env)
  assume a: "event_enabled ev s" "server_inv s"
  let ?s = "mark_ready env False (s\<lparr>sv_queued := False\<rparr>)"
  have i: "one_open ?s" "services_ok ?s" "sv_phase ?s = Serving" using a by (simp_all add: event_enabled_def server_inv_def)
  obtain r s1 where r: "server_reload env ?s = (r, s1)" by fastforce
  show ?thesis using server_reload_spec [OF r i(1,2)] i(3) run_deferred_spec [of s1 env Panicked]
    by (cases r) (simp_all add: OnReload handle_reload_def r server_inv_def)
qed (simp_all add: retry_failed_nodes_def queueMachineReconcileIfEnabled_def split: option.splits sum.splits)

lemma server_inv_run: "server_run evs s s' \<Longrightarrow> server_inv s \<Longrightarrow> server_inv s'"
  by (induction rule: server_run.induct) (simp_all add: server_inv_event)

lemma process_start_ok: "services_ok (process_start e t path rt fs w)"
  by (simp add: services_ok_def process_start_def new_proxy_inv new_reporters_inv)

text \<open>Before the first core nothing is open.\<close>

definition nothing_open :: "('n, 'e, 'w) server \<Rightarrow> bool" where
  "nothing_open s \<longleftrightarrow> services_ok s \<and> sv_phase s = Serving \<and> opened (sv_trace s) = ([], [])"

lemma returned_inv: "services_ok s \<Longrightarrow> server_inv (s\<lparr>sv_phase := Returned\<rparr>)"
  by (simp add: server_inv_def)

lemma serve_nodes_inv:
  assumes "services_ok s" "sv_phase s = Serving" "sv_core s = Some c" "co_ReloadCh c = Some 0" "opened (sv_trace s) = ([co_id c], [])"
  shows "server_inv (serve_nodes env cfg n c s)"
proof -
  obtain r s1 where n: "start_node env cfg n c s = (r, s1)" by fastforce
  have s1: "services_ok s1" "sv_phase s1 = Serving" "sv_core s1 = Some c" "\<And>n2. r = Inr n2 \<Longrightarrow> opened (sv_trace s1) = ([co_id c], [fst n2])"
    using n assms by (auto simp: start_node_def split: prod.splits option.splits)
  show ?thesis
  proof (cases r)
    case (Inl err)
    obtain rc s2 where cc: "close_core env s1 = (rc, s2)" by fastforce
    have "services_ok s2" using close_core_spec [OF cc] s1(1) services_ok_same by blast
    then show ?thesis using close_services_ok [of s2 env] returned_inv by (simp add: serve_nodes_def n Inl cc)
  next
    case (Inr n2)
    let ?s2 = "mark_ready env True (s1\<lparr>sv_nodes := Some n2\<rparr>)"
    have "one_open (s1\<lparr>sv_nodes := Some n2\<rparr>)" using s1 assms(4) Inr by (cases n2) (auto simp: one_open_def)
    then show ?thesis using run_deferred_spec [of ?s2 env Returned] s1 Inr
      by (simp add: serve_nodes_def n Let_def server_inv_def split: option.splits)
  qed
qed

lemma serve_core_inv:
  assumes "nothing_open s"
  shows "server_inv (serve_core env cfg n s)"
proof -
  obtain c s1 where c: "fresh_core (Some 0) (s\<lparr>sv_nodes := Some n\<rparr>) = (c, s1)" by fastforce
  obtain r s2 where st: "start_core env cfg c (snd n) s1 = (r, s2)" by fastforce
  have s2: "services_ok s2" "sv_phase s2 = Serving" "r = None \<Longrightarrow> opened (sv_trace s2) = ([co_id c], [])" "co_ReloadCh c = Some 0"
    using c st assms by (auto simp: fresh_core_def start_core_def nothing_open_def split: prod.splits option.splits)
  show ?thesis
    using s2 close_services_ok [of s2 env] returned_inv serve_nodes_inv [of "s2\<lparr>sv_core := Some c\<rparr>" c env cfg n]
    by (cases r) (simp_all add: serve_core_def c st)
qed

lemma serve_config_inv:
  assumes "nothing_open s"
  shows "server_inv (serve_config env cfg s)"
proof -
  obtain applied s1 where a: "apply_services env cfg s = (applied, s1)" by fastforce
  have s1: "nothing_open (update_health env cfg applied s1)"
    using apply_services_ok [of s env cfg] apply_services_nodes [of s env cfg] assms by (simp add: a nothing_open_def same_nodes_def update_health_def)
  obtain r s2 where n: "newNodeForConfig env cfg (update_health env cfg applied s1) = (r, s2)" by fastforce
  have s2: "nothing_open s2" using n s1 by (auto simp: newNodeForConfig_def nothing_open_def split: prod.splits sum.splits if_splits)
  then have "services_ok s2" by (simp add: nothing_open_def)
  then show ?thesis using serve_core_inv [OF s2] close_services_ok [of s2 env] returned_inv
    by (cases r) (simp_all add: serve_config_def a n)
qed

lemma process_start_simps [simp]:
  "sv_phase (process_start e t path rt fs w) = Serving" "sv_trace (process_start e t path rt fs w) = []"
  by (simp_all add: process_start_def)

lemma process_start_nothing: "nothing_open (process_start e t path rt fs w)"
  by (simp add: nothing_open_def process_start_ok)

lemma start_log_nothing: "nothing_open s \<Longrightarrow> nothing_open ((start_log env cfg s)\<lparr>sv_world := w\<rparr>)"
  by (simp add: nothing_open_def start_log_def Let_def)

lemma server_start_inv:
  assumes "nothing_open s"
  shows "server_inv (serverHandle env s)"
proof (cases "sx_load env (sv_world s)")
  case (Inl err)
  then show ?thesis using assms returned_inv [of s] by (simp add: serverHandle_def nothing_open_def)
next
  case (Inr loaded)
  obtain p w1 where p: "sx_prepare env loaded (sv_world (start_log env loaded s)) = (p, w1)" by fastforce
  note l = start_log_nothing [OF assms, where env = env and cfg = loaded and w = w1]
  then have "server_inv ((start_log env loaded s)\<lparr>sv_world := w1, sv_phase := Returned\<rparr>)" by (intro returned_inv) (simp add: nothing_open_def)
  then show ?thesis using Inr p serve_config_inv [OF l, of env] by (cases p) (simp_all add: serverHandle_def Let_def)
qed

lemma server_reachable_inv: "server_run evs (serverHandle env0 (process_start e t path rt fs w)) s \<Longrightarrow> server_inv s"
  using server_inv_run [OF _ server_start_inv [OF process_start_nothing]] .

section \<open>Properties\<close>

text \<open>
  C12. One core and one set of nodes: in every state of the main loop, after any requests, ticks and reloads,
  exactly the current core and the current nodes are open, whatever was started and closed before, and
  the core sends its reload requests to the channel that the loop reads.
\<close>

theorem one_core_one_node:
  assumes "server_run evs (serverHandle env0 (process_start e t path rt fs w)) s" and "sv_phase s = Serving"
  shows "\<exists>i n c. sv_nodes s = Some (i, n) \<and> sv_core s = Some c \<and> opened (sv_trace s) = ([co_id c], [i]) \<and> co_ReloadCh c = Some 0"
  using server_reachable_inv [OF assms(1)] assms(2) by (auto simp: server_inv_def one_open_def)


text \<open>
  C39. A configuration that cannot be read stops the agent: when the file is unreadable at a reload, or its
  machine profiles cannot be resolved, the process panics and closes the core and the nodes
  that served until then.
\<close>

theorem unreadable_config_stops_agent:
  assumes "server_run evs (serverHandle env0 (process_start e t path rt fs w)) s" and "sv_phase s = Serving"
    and "(\<exists>err. sx_load env (sv_world s) = Inl err) \<or> (\<exists>loaded err w'. sx_load env (sv_world s) = Inr loaded \<and> sx_prepare env loaded (sv_world s) = (Inl err, w'))"
  shows "let s' = server_handle_event (OnReload env) s in
     sv_phase s' = Panicked \<and> opened (sv_trace s') = ([], []) \<and> rp_running (sv_reporter s') = [] \<and> ps_serving (sv_proxy s') = []"
proof -
  let ?s = "mark_ready env False (s\<lparr>sv_queued := False\<rparr>)"
  have i: "one_open ?s" "services_ok ?s" using server_reachable_inv [OF assms(1)] assms(2) by (simp_all add: server_inv_def)
  have w: "sv_world ?s = sv_world s" "sv_world (reload_log env cfg ?s) = sv_world s" for cfg by (simp_all add: mark_ready_def reload_log_def Let_def)
  obtain err s1 where r: "server_reload env ?s = (Some err, s1)" and s1: "one_open s1" "services_ok s1"
  proof -
    have "one_open (reload_log env cfg ?s)" "services_ok (reload_log env cfg ?s)" for cfg
      using i one_open_same services_ok_same log_frames(3,4) by blast+
    then show ?thesis using that assms(3) i by (auto simp: server_reload_def Let_def w)
  qed
  show ?thesis using run_deferred_spec [OF s1(2), of env Panicked] s1(1) by (simp add: handle_reload_def r Let_def)
qed

text \<open>
  In machine mode a reload that can be reconciled leaves the core alone: the same core and nodes go on
  serving, nothing is closed or started but by the reconciliation, and the process is ready again.
\<close>

theorem machine_reload_keeps_core:
  assumes "server_run evs (serverHandle env0 (process_start e t path rt fs w)) s" and "sv_phase s = Serving"
    and "sx_load env (sv_world s) = Inr loaded" and "sx_prepare env loaded (sv_world s) = (Inr cfg, w1)" and "mc_Enabled (cf_MachineConfig cfg)"
    and "\<And>n c. fst (sx_reconcile env n cfg c w1) = Inr (Some False)"
  shows "let s' = server_handle_event (OnReload env) s in
     sv_phase s' = Serving \<and> sv_core s' = sv_core s \<and> map_option fst (sv_nodes s') = map_option fst (sv_nodes s) \<and>
     (\<exists>i c. sv_trace s' = sv_trace s @ [Reconciled i c]) \<and> he_ready (fst (sv_health s'))"
proof -
  let ?s = "mark_ready env False (s\<lparr>sv_queued := False\<rparr>)" and ?s1 = "reload_log env loaded (mark_ready env False (s\<lparr>sv_queued := False\<rparr>))"
  obtain i n c where o1: "sv_nodes s = Some (i, n)" "sv_core s = Some c" using server_reachable_inv [OF assms(1)] assms(2) by (auto simp: server_inv_def one_open_def)
  have w: "sv_world ?s = sv_world s" "sv_world ?s1 = sv_world s" by (simp_all add: mark_ready_def reload_log_def Let_def)
  obtain applied s2 where a: "apply_services env cfg (?s1\<lparr>sv_world := w1\<rparr>) = (applied, s2)" by fastforce
  have u: "sv_nodes ?s1 = Some (i, n)" "sv_core ?s1 = Some c" "sv_trace ?s1 = sv_trace s" "sv_phase ?s1 = Serving"
    using o1 assms(2) by (simp_all add: mark_ready_def reload_log_def Let_def)
  have s2: "sv_nodes s2 = Some (i, n)" "sv_core s2 = Some c" "sv_trace s2 = sv_trace s" "sv_world s2 = w1" "sv_phase s2 = Serving"
    using apply_services_nodes [of "?s1\<lparr>sv_world := w1\<rparr>" env cfg] unfolding same_nodes_def a snd_conv by (simp_all add: u)
  obtain n1 w2 where rec: "sx_reconcile env (sx_setAuto env (ru_AutoHY2PortForward (cf_RuntimeConfig cfg)) n) cfg (co_id c) w1 = (Inr (Some False), n1, w2)"
    using assms(6) by (metis prod.exhaust fst_conv)
  have "server_reload env ?s = (None, reload_edge env (update_health env cfg applied (s2\<lparr>sv_nodes := Some (i, n1), sv_world := w2, sv_trace := sv_trace s2 @ [Reconciled i (co_id c)]\<rparr>)))"
    using assms(3-5) by (simp add: server_reload_def Let_def w a machine_reload_def s2 rec)
  then show ?thesis using s2 o1 by (simp add: handle_reload_def Let_def mark_ready_def MarkReady_def reload_edge_def update_health_def)
qed

text \<open>A server without nodes; the file can be read at the start and, when the flag is set, at reloads.\<close>

definition demo_server_env :: "bool \<Rightarrow> Conf \<Rightarrow> (unit, string list, unit, nat) server_env" where
  "demo_server_env readable cfg =
     \<lparr>sx_load = (\<lambda>_. if readable then Inr cfg else Inl Canceled), sx_prepare = (\<lambda>c w. (Inr c, w)), sx_open_log = (\<lambda>_. True), sx_proxy = demo_apply_env,
      sx_derive = id, sx_edge = demo_daemon, sx_moment = \<lparr>mt_now = 0, mt_format = (\<lambda>_. ''t''), mt_goroutines = 1, mt_version = ''v1''\<rparr>,
      sx_newNode = (\<lambda>_ _ w. (Inr (), w)), sx_newMachineNode = (\<lambda>_ _ _ w. (Inr (), w)), sx_setAuto = (\<lambda>_ n. n), sx_setBridges = id,
      sx_reconcile = (\<lambda>n _ _ w. (Inr (Some False), n, Suc w)), sx_startCore = (\<lambda>_ _ _ w. (None, w)), sx_startNode = (\<lambda>n _ _ w. (None, n, w)),
      sx_closeNode = (\<lambda>n w. (None, n, w)), sx_closeCore = (\<lambda>_ w. (None, w)), sx_failures = (\<lambda>_. 0), sx_watch = None\<rparr>"

definition demo_server :: "Conf \<Rightarrow> (unit, string list, nat) server" where
  "demo_server cfg =
     serverHandle (demo_server_env True cfg)
       (process_start [] (sx_moment (demo_server_env True cfg)) ''c'' \<lparr>gr_MemoryLimit = max_int64, gr_GCPercent = 100\<rparr> [] 0)"

lemma demo_server_env_simps [simp]:
  "sx_load (demo_server_env r cfg) w = (if r then Inr cfg else Inl Canceled)" "sx_prepare (demo_server_env r cfg) c w = (Inr c, w)"
  "sx_newNode (demo_server_env r cfg) ns rc w = (Inr (), w)" "sx_newMachineNode (demo_server_env r cfg) ns rc b w = (Inr (), w)"
  "sx_startCore (demo_server_env r cfg) c k n w = (None, w)" "sx_startNode (demo_server_env r cfg) n ns k w = (None, n, w)"
  "sx_reconcile (demo_server_env r cfg) n c k w = (Inr (Some False), n, Suc w)" "sx_watch (demo_server_env r cfg) = None"
  by (simp_all add: demo_server_env_def)

lemma demo_serving: "sv_phase (demo_server cfg) = Serving"
proof -
  let ?e = "demo_server_env True cfg"
  define s where "s = start_log ?e cfg (process_start [] (sx_moment ?e) ''c'' \<lparr>gr_MemoryLimit = max_int64, gr_GCPercent = 100\<rparr> [] 0 :: (unit, string list, nat) server)"
  obtain applied s1 where a: "apply_services ?e cfg s = (applied, s1)" by fastforce
  have "sv_phase s = Serving" by (simp add: s_def start_log_def Let_def)
  then have s1: "sv_phase s1 = Serving" using apply_services_nodes [of s ?e cfg] unfolding same_nodes_def a snd_conv by simp
  have "demo_server cfg = serve_config ?e cfg s" by (simp add: demo_server_def serverHandle_def Let_def s_def)
  then show ?thesis
    by (simp add: serve_config_def a newNodeForConfig_def serve_core_def serve_nodes_def fresh_core_def start_core_def start_node_def update_health_def mark_ready_def Let_def s1)
qed

lemma demo_server_run: "server_run [] (demo_server cfg) (demo_server cfg)"
  by (rule server_nil)

theorem one_core_one_node_witness:
  "\<exists>i n c. sv_nodes (demo_server New_Conf) = Some (i, n) \<and> sv_core (demo_server New_Conf) = Some c \<and> opened (sv_trace (demo_server New_Conf)) = ([co_id c], [i])"
  using one_core_one_node [OF demo_server_run [unfolded demo_server_def] demo_serving [unfolded demo_server_def]] unfolding demo_server_def by blast


theorem unreadable_config_stops_agent_witness:
  "let s' = server_handle_event (OnReload (demo_server_env False New_Conf)) (demo_server New_Conf) in sv_phase s' = Panicked \<and> opened (sv_trace s') = ([], [])"
  using unreadable_config_stops_agent [OF demo_server_run [unfolded demo_server_def] demo_serving [unfolded demo_server_def], of "demo_server_env False New_Conf"]
  unfolding demo_server_def Let_def by simp

definition demo_machine_server_conf :: Conf where
  "demo_machine_server_conf = New_Conf\<lparr>cf_MachineConfig := \<lparr>mc_Enabled = True, mc_ContinueOnError = True, mc_Profiles = []\<rparr>\<rparr>"

theorem machine_reload_keeps_core_witness:
  "let s = demo_server demo_machine_server_conf; s' = server_handle_event (OnReload (demo_server_env True demo_machine_server_conf)) s
   in sv_phase s' = Serving \<and> sv_core s' = sv_core s"
  using machine_reload_keeps_core [OF demo_server_run [unfolded demo_server_def] demo_serving [unfolded demo_server_def],
      where env = "demo_server_env True demo_machine_server_conf" and loaded = demo_machine_server_conf and cfg = demo_machine_server_conf]
  unfolding Let_def by (simp add: demo_machine_server_conf_def) (simp add: demo_server_def)

end
