(* ===== verification/Server_Nodes.thy ===== *)
theory Server_Nodes
  imports Agent_Server
begin

text \<open>
  The server command on top of the node manager: the package variables of \<open>cmd/server.go\<close> with their default
  values, which call \<open>node.New\<close>, \<open>node.NewMachine\<close>, \<open>Reconcile\<close>, \<open>Start\<close> and \<open>Close\<close> of \<open>Node_Machine\<close>, and what
  holds of the whole: through every reload the controllers that the manager lists are those that run.
\<close>

section \<open>The default hooks\<close>

text \<open>
  \<open>te\<close> and \<open>ce\<close> give the errors of the manager and of controllers as errors of the server; \<open>base\<close> has everything
  but the nodes. New controllers get the realtime settings, on which starting and closing them do not
  depend. The edge bridges are fields of the controllers that only the traffic reports read.
\<close>

definition node_hooks ::
  "(RealtimeConfig \<Rightarrow> ('w, 'e) machine_ops) \<Rightarrow> info_source \<Rightarrow> ('e machine_error \<Rightarrow> go_error) \<Rightarrow> ('e \<Rightarrow> go_error) \<Rightarrow>
   ('e Node, 'd, 'k, 'w) server_env \<Rightarrow> ('e Node, 'd, 'k, 'w) server_env" where
  "node_hooks ops src te ce base =
     base\<lparr>sx_newNode := (\<lambda>cfgs rt w. case newWithFactory (ops rt) src False cfgs w of (r, w1) \<Rightarrow> (map_sum te id r, w1)),
          sx_newMachineNode := (\<lambda>cfgs rt c w. case newWithFactory (ops rt) src c cfgs w of (r, w1) \<Rightarrow> (map_sum te id r, w1)),
          sx_setAuto := SetAutoHY2PortForward,
          sx_setBridges := id,
          sx_reconcile := (\<lambda>n cfg core w.
             case reconcileWithFactory (ops (cf_RealtimeConfig cfg)) src (mc_ContinueOnError (cf_MachineConfig cfg)) (cf_NodeConfigs cfg) n w of
               (r, n1, w1) \<Rightarrow> (map_sum te (\<lambda>res. Some (rr_FullReloadRequired res)) r, n1, w1)),
          sx_startNode := (\<lambda>n cfgs core w. case Node_Start (ops zero_RealtimeConfig) cfgs n w of (e, n1, w1) \<Rightarrow> (map_option te e, n1, w1)),
          sx_closeNode := (\<lambda>n w. case Node_Close (ops zero_RealtimeConfig) n w of (e, n1, w1) \<Rightarrow> (map_option ce e, n1, w1)),
          sx_failures := (\<lambda>n. length (nd_failures n))\<rparr>"

text \<open>
  What the theorems ask of the rest: resolving profiles and starting or closing a core do not touch the controllers,
  and no two nodes of a resolved configuration have the same key.
\<close>

definition core_frame :: "('w \<Rightarrow> nat set) \<Rightarrow> ('w \<Rightarrow> nat set) \<Rightarrow> ('n, 'd, 'k, 'w) server_env \<Rightarrow> bool" where
  "core_frame live known env \<longleftrightarrow>
     (\<forall>l w c w'. sx_prepare env l w = (Inr c, w') \<longrightarrow> live w' = live w \<and> known w' = known w \<and> distinct (map machineNodeKey (cf_NodeConfigs c))) \<and>
     (\<forall>cfg k n w w'. sx_startCore env cfg k n w = (None, w') \<longrightarrow> live w' = live w \<and> known w' = known w) \<and>
     (\<forall>k w w'. sx_closeCore env k w = (None, w') \<longrightarrow> live w' = live w \<and> known w' = known w)"

definition hooked ::
  "(RealtimeConfig \<Rightarrow> ('w, 'e) machine_ops) \<Rightarrow> ('w \<Rightarrow> nat set) \<Rightarrow> ('w \<Rightarrow> nat set) \<Rightarrow> ('e Node, 'd, 'k, 'w) server_env \<Rightarrow> bool" where
  "hooked ops live known env \<longleftrightarrow> (\<exists>src te ce base. env = node_hooks ops src te ce base \<and> core_frame live known base)"

definition event_hooked ::
  "(RealtimeConfig \<Rightarrow> ('w, 'e) machine_ops) \<Rightarrow> ('w \<Rightarrow> nat set) \<Rightarrow> ('w \<Rightarrow> nat set) \<Rightarrow> ('e Node, 'd, 'k, 'w) server_event \<Rightarrow> bool" where
  "event_hooked ops live known ev \<longleftrightarrow> (case ev of OnReload env \<Rightarrow> hooked ops live known env | _ \<Rightarrow> True)"

text \<open>The nodes of a server list exactly the controllers that run.\<close>

definition lists_running :: "('w \<Rightarrow> nat set) \<Rightarrow> ('e Node, 'd, 'w) server \<Rightarrow> bool" where
  "lists_running live s \<longleftrightarrow> (\<exists>i n. sv_nodes s = Some (i, n) \<and> node_ok n (live (sv_world s)))"

text \<open>New nodes, before they are started: fresh controllers, none of which runs.\<close>

definition built :: "('w \<Rightarrow> nat set) \<Rightarrow> ('w \<Rightarrow> nat set) \<Rightarrow> 'e Node \<Rightarrow> 'w \<Rightarrow> bool" where
  "built live known n w \<longleftrightarrow>
     distinct (nd_controllers n) \<and> set (nd_controllers n) \<subseteq> known w \<and> set (nd_controllers n) \<inter> live w = {} \<and>
     length (nd_configs n) = length (nd_controllers n) \<and> length (nd_NodeInfos n) = length (nd_controllers n) \<and>
     distinct (map machineNodeKey (nd_configs n))"

lemma node_ok_auto [simp]: "node_ok (SetAutoHY2PortForward b n) R = node_ok n R" "node_ok (snd (reconcileAutoHY2PortForward n)) R = node_ok n R"
  by (simp_all add: SetAutoHY2PortForward_def reconcileAutoHY2PortForward_def node_ok_def Let_def)

lemma built_auto [simp]: "built live known (SetAutoHY2PortForward b n) w = built live known n w"
  by (simp add: SetAutoHY2PortForward_def built_def Let_def)

text \<open>Only the decision sets the flag for a full reload.\<close>

lemma gather_full:
  "gather src c current desired st = Inr (keys, cands, result) \<Longrightarrow> \<not> rr_FullReloadRequired (snd (snd st)) \<Longrightarrow> \<not> rr_FullReloadRequired result"
proof (induction desired arbitrary: st c)
  case (Cons cfg cfgs)
  obtain ks cs r where st: "st = (ks, cs, r)" by (metis prod_cases3)
  have ih: "gather src c' current cfgs (ks', cs', r') = Inr (keys, cands, result) \<Longrightarrow> \<not> rr_FullReloadRequired r' \<Longrightarrow> \<not> rr_FullReloadRequired result" for c' ks' cs' r'
    using Cons.IH [of c' "(ks', cs', r')"] by simp
  have r: "\<not> rr_FullReloadRequired r" using Cons.prems(2) by (simp add: st)
  show ?case using Cons.prems(1) r
    by (auto simp: st handleMachineFailure_def Let_def split: if_splits sum.splits machine_error.splits dest!: ih)
qed simp

lemma close_removed_full:
  "close_removed ops keys slots result w = (Inr result', w') \<Longrightarrow> \<not> rr_FullReloadRequired result \<Longrightarrow> \<not> rr_FullReloadRequired result'"
proof (induction slots arbitrary: result w)
  case (Cons x slots)
  obtain k slot where x: "x = (k, slot)" by fastforce
  show ?case
  proof (cases "k \<in> set keys")
    case True
    then show ?thesis using Cons by (simp add: x)
  next
    case False
    obtain e w1 where c: "mo_close ops (sl_Controller slot) w = (e, w1)" by fastforce
    then have "close_removed ops keys slots (result\<lparr>rr_Removed := Suc (rr_Removed result)\<rparr>) w1 = (Inr result', w')"
      using Cons.prems(1) False by (cases e) (simp_all add: x)
    then show ?thesis using Cons.IH Cons.prems(2) by fastforce
  qed
qed simp

lemma apply_keys_full:
  "apply_keys ops c current cands keys ls result w = (Inr (ls', result'), w') \<Longrightarrow> \<not> rr_FullReloadRequired result \<Longrightarrow> \<not> rr_FullReloadRequired result'"
proof (induction keys arbitrary: ls result w c)
  case (Cons k keys)
  show ?case using Cons.prems
    by (auto simp: handleMachineFailure_def Let_def split: prod.splits option.splits if_splits dest!: Cons.IH)
qed simp

section \<open>Creating, starting and closing\<close>

context controller_ops
begin

lemma new_loop_built:
  assumes "new_loop ops src c cfgs n w = (Inr n', w')" and "built live known n w"
    and "distinct (map machineNodeKey (nd_configs n) @ map machineNodeKey cfgs)"
  shows "built live known n' w' \<and> live w' = live w"
  using assms
proof (induction cfgs arbitrary: n w)
  case (Cons cfg cfgs)
  show ?case
  proof (cases "fetch_info src cfg :: 'e machine_error + NodeInfo")
    case (Inl err)
    then show ?thesis using Cons.prems Cons.IH [of "n\<lparr>nd_failures := nd_failures n @ [\<lparr>nf_Config = cfg, nf_Err = err\<rparr>]\<rparr>" w]
      by (auto simp: built_def split: if_splits)
  next
    case (Inr info)
    obtain i w1 where n: "mo_new ops cfg info w = (i, w1)" by fastforce
    note nl = new_law [OF n]
    let ?n = "n\<lparr>nd_controllers := nd_controllers n @ [i], nd_NodeInfos := nd_NodeInfos n @ [info], nd_configs := nd_configs n @ [cfg]\<rparr>"
    have "new_loop ops src c cfgs ?n w1 = (Inr n', w')" using Cons.prems(1) by (simp add: Inr n)
    moreover have "built live known ?n w1" using Cons.prems(2,3) nl live_known [of w] by (auto simp: built_def)
    ultimately have "built live known n' w' \<and> live w' = live w1" using Cons.IH [of ?n w1] Cons.prems(3) by simp
    then show ?thesis using nl by simp
  qed
qed simp

lemma new_built:
  assumes "newWithFactory ops src c cfgs w = (Inr n, w')" and "distinct (map machineNodeKey cfgs)"
  shows "built live known n w' \<and> live w' = live w"
proof -
  have "new_loop ops src c cfgs (empty_node c) w = (Inr n, w')"
    using assms(1) by (auto simp: newWithFactory_def split: prod.splits sum.splits if_splits)
  moreover have "built live known (empty_node c) w" by (simp add: built_def empty_node_def)
  ultimately show ?thesis using new_loop_built assms(2) by (metis append_Nil empty_node_def list.simps(8) Node.select_convs(3))
qed

lemma start_strict_live:
  "start_strict ops is w = (None, w') \<Longrightarrow> set is \<subseteq> known w \<Longrightarrow> live w' = live w \<union> set is \<and> known w' = known w"
proof (induction "is" arbitrary: w)
  case (Cons i "is")
  obtain e w1 where s: "mo_start ops i w = (e, w1)" by fastforce
  then have e: "e = None" "start_strict ops is w1 = (None, w')" using Cons.prems(1) by (auto split: option.splits)
  have l: "known w1 = known w" "live w1 - {i} = live w - {i}" "i \<in> live w1" using start_law [OF _ s] Cons.prems(2) e(1) by simp_all
  then have "live w1 = insert i (live w)" by blast
  then show ?case using Cons.IH [OF e(2)] Cons.prems(2) l(1) by simp
qed simp

lemma start_all_live:
  "start_all ops entries fs w = ((kept, fs'), w') \<Longrightarrow> fst ` set entries \<subseteq> known w \<Longrightarrow> distinct (map fst entries) \<Longrightarrow>
   set kept \<subseteq> set entries \<and> live w' = (live w - fst ` set entries) \<union> fst ` set kept \<and> known w' = known w"
proof (induction entries arbitrary: fs w kept fs')
  case (Cons x rest)
  obtain i info cfg where x: "x = (i, info, cfg)" by (metis prod_cases3)
  obtain e w1 where s: "mo_start ops i w = (e, w1)" by fastforce
  have i: "i \<in> known w" "fst ` set rest \<subseteq> known w" "i \<notin> fst ` set rest" "distinct (map fst rest)"
    using Cons.prems(2,3) by (simp_all add: x)
  note sl = start_law [OF i(1) s]
  show ?case
  proof (cases e)
    case None
    obtain kept1 fs1 where r: "start_all ops rest fs w1 = ((kept1, fs1), w')" "kept = x # kept1"
      using Cons.prems(1) s by (auto simp: x None split: prod.splits)
    have "set kept1 \<subseteq> set rest \<and> live w' = (live w1 - fst ` set rest) \<union> fst ` set kept1 \<and> known w' = known w1"
      using Cons.IH [OF r(1)] i(2,4) sl by simp
    moreover have "live w1 = insert i (live w)" using sl None by blast
    ultimately show ?thesis using sl i(3) by (auto simp: x r(2))
  next
    case (Some err)
    obtain ig w2 where c: "mo_close ops i w1 = (ig, w2)" by fastforce
    have cl: "known w2 = known w" "live w2 = live w - {i}" using close_law [OF _ c] sl i(1) by auto
    have "start_all ops rest (fs @ [\<lparr>nf_Config = cfg, nf_Err = ControllerError err\<rparr>]) w2 = ((kept, fs'), w')"
      using Cons.prems(1) s c by (simp add: x Some)
    from Cons.IH [OF this] have "set kept \<subseteq> set rest \<and> live w' = (live w2 - fst ` set rest) \<union> fst ` set kept \<and> known w' = known w2"
      using i(2,4) cl by simp
    then show ?thesis using cl by (auto simp: x)
  qed
qed simp

lemma start_all_kept:
  "start_all ops entries fs w = ((kept, fs'), w') \<Longrightarrow> distinct (map f entries) \<Longrightarrow> distinct (map f kept) \<and> set kept \<subseteq> set entries"
proof (induction entries arbitrary: fs w kept fs')
  case (Cons x rest)
  obtain i info cfg where x: "x = (i, info, cfg)" by (metis prod_cases3)
  obtain e w1 where s: "mo_start ops i w = (e, w1)" by fastforce
  have d: "f x \<notin> f ` set rest" "distinct (map f rest)" using Cons.prems(2) by simp_all
  show ?case
  proof (cases e)
    case None
    obtain kept1 fs1 where r: "start_all ops rest fs w1 = ((kept1, fs1), w')" "kept = x # kept1"
      using Cons.prems(1) s by (auto simp: x None split: prod.splits)
    then show ?thesis using Cons.IH [OF r(1) d(2)] d(1) by auto
  next
    case (Some err)
    obtain ig w2 where c: "mo_close ops i w1 = (ig, w2)" by fastforce
    have "start_all ops rest (fs @ [\<lparr>nf_Config = cfg, nf_Err = ControllerError err\<rparr>]) w2 = ((kept, fs'), w')"
      using Cons.prems(1) s c by (simp add: x Some)
    from Cons.IH [OF this d(2)] show ?thesis by auto
  qed
qed simp

lemma map_filter_all: "list_all (\<lambda>x. f x \<noteq> None) xs \<Longrightarrow> length (List.map_filter f xs) = length xs"
  by (induction xs) (auto simp: List.map_filter_simps)

text \<open>New nodes that were started, with nothing running before, list what runs.\<close>

lemma Node_Start_ok:
  assumes "built live known n w" and "live w = {}" and "Node_Start ops cfgs n w = (None, n', w')"
  shows "node_ok n' (live w')"
proof -
  have b: "length (nd_configs n) = length (nd_controllers n)" "length (nd_NodeInfos n) = length (nd_controllers n)"
      "distinct (nd_controllers n)" "set (nd_controllers n) \<subseteq> known w" "distinct (map machineNodeKey (nd_configs n))"
    using assms(1) by (simp_all add: built_def)
  have a: "activeConfigs cfgs n = nd_configs n" using b(1) by (auto simp: activeConfigs_def)
  show ?thesis
  proof (cases "nd_continueOnError n")
    case False
    obtain w1 where "start_strict ops (nd_controllers n) w = (None, w1)" "w' = w1" "n' = snd (reconcileAutoHY2PortForward n)"
      using assms(3) False b(1) by (auto simp: Node_Start_def a split: prod.splits option.splits)
    moreover from this have "node_ok n (live w1)" using start_strict_live [OF _ b(4)] b assms(2) by (simp add: node_ok_def)
    ultimately show ?thesis by simp
  next
    case True
    let ?es = "zip (nd_controllers n) (zip (map Some (nd_NodeInfos n)) (nd_configs n))"
    have z: "zip (map Some (nd_NodeInfos n) @ replicate (length (nd_controllers n)) None) (nd_configs n) = zip (map Some (nd_NodeInfos n)) (nd_configs n)"
      using b(1,2) by (simp add: zip_append1)
    obtain kept fs1 where s: "start_all ops ?es (nd_failures n) w = ((kept, fs1), w')"
      and n': "n' = snd (reconcileAutoHY2PortForward (n\<lparr>nd_controllers := map fst kept, nd_NodeInfos := List.map_filter (\<lambda>(_, info, _). info) kept,
                      nd_configs := map (\<lambda>(_, _, cfg). cfg) kept, nd_failures := fs1\<rparr>))"
      using assms(3) True b(1) by (auto simp: Node_Start_def a z Let_def split: prod.splits)
    have f: "map fst ?es = nd_controllers n" "map (\<lambda>e. machineNodeKey (snd (snd e))) ?es = map machineNodeKey (nd_configs n)"
    proof -
      show "map fst ?es = nd_controllers n" using b(1,2) by (simp add: map_fst_zip)
      have "map (\<lambda>e. machineNodeKey (snd (snd e))) ?es = map machineNodeKey (map snd (map snd ?es))" by (simp add: comp_def)
      then show "map (\<lambda>e. machineNodeKey (snd (snd e))) ?es = map machineNodeKey (nd_configs n)" using b(1,2) by (simp add: map_snd_zip)
    qed
    have "fst ` set ?es \<subseteq> known w" using b(4) f(1) by (metis image_set)
    then have l: "set kept \<subseteq> set ?es" "live w' = fst ` set kept"
      using start_all_live [OF s] b(3) f(1) assms(2) by auto
    have d: "distinct (map fst kept)" "distinct (map (\<lambda>e. machineNodeKey (snd (snd e))) kept)"
      using start_all_kept [OF s, of fst] start_all_kept [OF s, of "\<lambda>e. machineNodeKey (snd (snd e))"] b(3,5) f by simp_all
    have "fst (snd e) \<noteq> None" if e: "e \<in> set ?es" for e
    proof -
      obtain a aa b where x: "e = (a, aa, b)" by (metis prod_cases3)
      have "(aa, b) \<in> set (zip (map Some (nd_NodeInfos n)) (nd_configs n))" using set_zip_rightD [OF e [unfolded x]] .
      then have "aa \<in> set (map Some (nd_NodeInfos n))" by (rule set_zip_leftD)
      then show ?thesis by (auto simp: x)
    qed
    then have "list_all (\<lambda>(_, info, _). info \<noteq> None) kept" using l(1) unfolding list_all_iff split_beta by blast
    then have "length (List.map_filter (\<lambda>(_, info, _). info) kept) = length kept"
      by (intro map_filter_all) (simp add: list_all_iff split_beta)
    then have "node_ok (n\<lparr>nd_controllers := map fst kept, nd_NodeInfos := List.map_filter (\<lambda>(_, info, _). info) kept,
                      nd_configs := map (\<lambda>(_, _, cfg). cfg) kept, nd_failures := fs1\<rparr>) (live w')"
      using l(2) d by (simp add: node_ok_def comp_def split_beta)
    then show ?thesis unfolding n' by simp
  qed
qed

lemma close_all_live: "close_all ops is w = (None, w') \<Longrightarrow> set is \<subseteq> known w \<Longrightarrow> live w' = live w - set is \<and> known w' = known w"
proof (induction "is" arbitrary: w)
  case (Cons i "is")
  obtain e w1 where c: "mo_close ops i w = (e, w1)" by fastforce
  then have e: "e = None" "close_all ops is w1 = (None, w')" using Cons.prems(1) by (auto split: option.splits)
  have l: "known w1 = known w" "live w1 = live w - {i}" using close_law [OF _ c] Cons.prems(2) by simp_all
  then show ?case using Cons.IH [OF e(2)] Cons.prems(2) by auto
qed simp

lemma Node_Close_ok:
  assumes "node_ok n (live w)" and "Node_Close ops n w = (None, n', w')"
  shows "live w' = {} \<and> known w' = known w"
proof -
  obtain w1 where "close_all ops (nd_controllers n) w = (None, w1)" "w' = w1" using assms(2) by (auto simp: Node_Close_def split: prod.splits option.splits)
  then show ?thesis using close_all_live assms(1) live_known [of w] by (auto simp: node_ok_def)
qed

text \<open>A reconcile that succeeds lists what runs, whether or not it asks for a full reload.\<close>

lemma reconcile_success_ok:
  assumes "node_ok n (live w)" and "reconcileWithFactory ops src c desired n w = (Inr result, n', w')"
  shows "node_ok n' (live w')"
proof (cases "rr_FullReloadRequired result")
  case False
  then show ?thesis using reconcile_ok(1) [OF assms] by blast
next
  case True
  obtain current where cur: "currentMachineSlots n = Inr current"
    using assms(2) by (cases "currentMachineSlots n") (auto simp: reconcileWithFactory_def)
  obtain keys cands result0 where
    g: "gather src c current desired ([], [], empty_result :: 'e ReconcileResult) = Inr (keys, cands, result0)"
    using assms(2) cur by (cases "gather src c current desired ([], [], empty_result :: 'e ReconcileResult)") (auto simp: reconcileWithFactory_def)
  have g0: "\<not> rr_FullReloadRequired result0" using gather_full [OF g] by (simp add: empty_result_def)
  show ?thesis
  proof (cases "cands = [] \<and> rr_Failures result0 \<noteq> [] \<and> c \<or> machineReconcileNeedsFullReload current keys cands")
    case True
    then have "(n' = n \<or> (\<exists>fs. n' = n\<lparr>nd_failures := fs\<rparr>)) \<and> w' = w"
    proof (cases "cands = [] \<and> rr_Failures result0 \<noteq> [] \<and> c")
      case True
      then show ?thesis using assms(2) unfolding reconcileWithFactory_def cur g sum.case prod.case by auto
    next
      case no: False
      then have m: "machineReconcileNeedsFullReload current keys cands" using True by blast
      show ?thesis using assms(2) unfolding reconcileWithFactory_def cur g sum.case prod.case if_not_P [OF no] if_P [OF m] by simp
    qed
    then obtain fs where "n' = n \<or> n' = n\<lparr>nd_failures := fs\<rparr>" "w' = w" by blast
    moreover have "node_ok (n\<lparr>nd_failures := fs\<rparr>) R = node_ok n R" for R by (simp add: node_ok_def)
    ultimately show ?thesis using assms(1) by metis
  next
    case no: False
    then have no1: "\<not> (cands = [] \<and> rr_Failures result0 \<noteq> [] \<and> c)" and no2: "\<not> machineReconcileNeedsFullReload current keys cands" by blast+
    note run = assms(2) [unfolded reconcileWithFactory_def cur g sum.case prod.case if_not_P [OF no1] if_not_P [OF no2]]
    obtain r w1 where r: "close_removed ops keys (go_range current) result0 w = (r, w1)" by fastforce
    then obtain result1 where r1: "r = Inr result1" using run by (cases r) simp_all
    obtain q w2 where a: "apply_keys ops c current cands keys [] result1 w1 = (q, w2)" by fastforce
    then obtain ls where "q = Inr (ls, result)" using run r r1 by (cases q) auto
    then have "\<not> rr_FullReloadRequired result" using apply_keys_full close_removed_full a r r1 g0 by metis
    then show ?thesis using True by simp
  qed
qed

end

section \<open>Through the server\<close>

text \<open>Operations that obey the contract whatever the realtime settings are.\<close>

locale server_ops =
  fixes ops :: "RealtimeConfig \<Rightarrow> ('w, 'e) machine_ops" and live :: "'w \<Rightarrow> nat set" and known :: "'w \<Rightarrow> nat set"
  assumes lawful_ops: "controller_ops (ops rt) live known"
begin

lemma built_frame: "built live known n w \<Longrightarrow> live w' = live w \<Longrightarrow> known w' = known w \<Longrightarrow> built live known n w'"
  by (simp add: built_def)

lemma hooks_new:
  assumes "hooked ops live known env" and "distinct (map machineNodeKey (cf_NodeConfigs cfg))" and "live (sv_world s) = {}"
    and "newNodeForConfig env cfg s = (Inr n, s')"
  shows "built live known (snd n) (sv_world s') \<and> live (sv_world s') = {}"
proof -
  obtain src te ce base where e: "env = node_hooks ops src te ce base" using assms(1) by (auto simp: hooked_def)
  let ?c = "mc_Enabled (cf_MachineConfig cfg) \<and> mc_ContinueOnError (cf_MachineConfig cfg)"
  obtain r w where w: "newWithFactory (ops (cf_RealtimeConfig cfg)) src ?c (cf_NodeConfigs cfg) (sv_world s) = (r, w)" by fastforce
  have "\<exists>n0. r = Inr n0 \<and> snd n = SetAutoHY2PortForward (ru_AutoHY2PortForward (cf_RuntimeConfig cfg)) n0 \<and> sv_world s' = w"
    using assms(4) w by (cases r; cases "mc_Enabled (cf_MachineConfig cfg)"; cases "mc_ContinueOnError (cf_MachineConfig cfg)")
      (auto simp: newNodeForConfig_def e node_hooks_def)
  then show ?thesis using controller_ops.new_built [OF lawful_ops _ assms(2)] w assms(3) by fastforce
qed

lemma hooks_start_core:
  assumes "hooked ops live known env" and "start_core env cfg c n s = (None, s')"
  shows "live (sv_world s') = live (sv_world s) \<and> known (sv_world s') = known (sv_world s)"
proof -
  obtain src te ce base where e: "env = node_hooks ops src te ce base" "core_frame live known base" using assms(1) by (auto simp: hooked_def)
  have "sx_startCore base cfg (co_id c) n (sv_world s) = (None, sv_world s')"
    using assms(2) by (auto simp: start_core_def e(1) node_hooks_def split: prod.splits option.splits)
  then show ?thesis using e(2) unfolding core_frame_def by blast
qed

lemma hooks_start_node:
  assumes "hooked ops live known env" and "built live known (snd n) (sv_world s)" and "live (sv_world s) = {}"
    and "start_node env cfg n c s = (Inr n1, s')"
  shows "node_ok (snd n1) (live (sv_world s'))"
proof -
  obtain src te ce base where e: "env = node_hooks ops src te ce base" using assms(1) by (auto simp: hooked_def)
  obtain r n2 w where w: "Node_Start (ops zero_RealtimeConfig) (cf_NodeConfigs cfg) (snd n) (sv_world s) = (r, n2, w)" by (metis prod_cases3)
  have "r = None" "snd n1 = n2" "sv_world s' = w" using assms(4) w by (cases r; auto simp: start_node_def e node_hooks_def)+
  then show ?thesis using controller_ops.Node_Start_ok [OF lawful_ops assms(2,3)] w by blast
qed

lemma hooks_start_new:
  assumes "hooked ops live known env" and "distinct (map machineNodeKey (cf_NodeConfigs cfg))" and "live (sv_world s) = {}"
    and "start_new env cfg ch s = (Inr (n, c), s')"
  shows "node_ok (snd n) (live (sv_world s'))"
proof -
  obtain n0 s1 where n: "newNodeForConfig env cfg s = (Inr n0, s1)"
    using assms(4) by (auto simp: start_new_def split: prod.splits sum.splits)
  note b = hooks_new [OF assms(1-3) n]
  obtain c0 s2 where f: "fresh_core ch s1 = (c0, s2)" by fastforce
  then have w2: "sv_world s2 = sv_world s1" by (auto simp: fresh_core_def)
  obtain s3 where c: "start_core env cfg c0 (snd n0) s2 = (None, s3)"
    using assms(4) by (auto simp: start_new_def n f split: prod.splits option.splits)
  note l = hooks_start_core [OF assms(1) c]
  have st: "start_node env cfg n0 c0 s3 = (Inr n, s')"
    using assms(4) by (auto simp: start_new_def n f c split: prod.splits sum.splits)
  show ?thesis using hooks_start_node [OF assms(1) _ _ st] built_frame b l w2 by metis
qed

lemma hooks_close:
  assumes "hooked ops live known env" and "lists_running live s" and "close_nodes env s = (None, s')"
  shows "live (sv_world s') = {}"
proof -
  obtain src te ce base where e: "env = node_hooks ops src te ce base" using assms(1) by (auto simp: hooked_def)
  obtain i n where n: "sv_nodes s = Some (i, n)" "node_ok n (live (sv_world s))" using assms(2) by (auto simp: lists_running_def)
  obtain r n1 w where w: "Node_Close (ops zero_RealtimeConfig) n (sv_world s) = (r, n1, w)" by (metis prod_cases3)
  have "r = None" "sv_world s' = w" using assms(3) w n(1) by (auto simp: close_nodes_def e node_hooks_def)
  then show ?thesis using controller_ops.Node_Close_ok [OF lawful_ops n(2)] w by blast
qed

lemma full_reload_lists:
  assumes "hooked ops live known env" and "distinct (map machineNodeKey (cf_NodeConfigs cfg))" and "lists_running live s"
    and "full_reload env cfg applied ch s = (None, s')"
  shows "lists_running live s'"
proof -
  obtain src te ce base where e: "env = node_hooks ops src te ce base" "core_frame live known base" using assms(1) by (auto simp: hooked_def)
  obtain s1 where n: "close_nodes env s = (None, s1)" using assms(4) by (auto simp: full_reload_def split: prod.splits option.splits)
  note l1 = hooks_close [OF assms(1,3) n]
  obtain s2 where c: "close_core env s1 = (None, s2)" using assms(4) by (auto simp: full_reload_def n split: prod.splits option.splits)
  have l2: "live (sv_world s2) = {}"
  proof (cases "sv_core s1")
    case None
    then show ?thesis using c l1 by (auto simp: close_core_def)
  next
    case (Some k)
    then have "sx_closeCore base (co_id k) (sv_world s1) = (None, sv_world s2)" using c by (auto simp: close_core_def e(1) node_hooks_def split: prod.splits)
    then show ?thesis using e(2) l1 unfolding core_frame_def by metis
  qed
  obtain nn cc s3 where a: "start_new env cfg ch s2 = (Inr (nn, cc), s3)"
    using assms(4) by (auto simp: full_reload_def n c split: prod.splits sum.splits)
  have "s' = reload_edge env (update_health env cfg applied (s3\<lparr>sv_nodes := Some nn, sv_core := Some cc\<rparr>))"
    using assms(4) by (simp add: full_reload_def n c a)
  then show ?thesis using hooks_start_new [OF assms(1,2) l2 a] by (cases nn) (simp add: lists_running_def reload_edge_def update_health_def)
qed

lemma lists_same: "same_nodes s s' \<Longrightarrow> lists_running live s' = lists_running live s"
  by (simp add: same_nodes_def lists_running_def)

lemma machine_reload_lists:
  assumes "hooked ops live known env" and "lists_running live s" and "machine_reload env cfg applied s = (r, s')"
    and "\<And>e. r \<noteq> Some (Some e)"
  shows "lists_running live s'"
proof (cases "sv_core s = None \<or> \<not> mc_Enabled (cf_MachineConfig cfg)")
  case True
  then show ?thesis using assms(2,3) by (auto simp: machine_reload_def split: option.splits prod.splits)
next
  case False
  then obtain c where c: "sv_core s = Some c" "mc_Enabled (cf_MachineConfig cfg)" by auto
  obtain src te ce base where e: "env = node_hooks ops src te ce base" using assms(1) by (auto simp: hooked_def)
  obtain i n where n: "sv_nodes s = Some (i, n)" "node_ok n (live (sv_world s))" using assms(2) by (auto simp: lists_running_def)
  let ?n = "SetAutoHY2PortForward (ru_AutoHY2PortForward (cf_RuntimeConfig cfg)) n"
  obtain q n1 w where w: "reconcileWithFactory (ops (cf_RealtimeConfig cfg)) src (mc_ContinueOnError (cf_MachineConfig cfg)) (cf_NodeConfigs cfg) ?n (sv_world s) = (q, n1, w)"
    by (metis prod_cases3)
  show ?thesis
  proof (cases q)
    case (Inl err)
    then have "r = Some (Some (te err))" using assms(3) c n(1) w by (auto simp: machine_reload_def e node_hooks_def)
    then show ?thesis using assms(4) by blast
  next
    case (Inr result)
    have "node_ok n1 (live w)" using controller_ops.reconcile_success_ok [OF lawful_ops, of ?n] n(2) w Inr by simp
    moreover have "sv_nodes s' = Some (i, n1) \<and> sv_world s' = w"
      using assms(3) c n(1) w Inr by (auto simp: machine_reload_def e node_hooks_def Let_def reload_edge_def update_health_def split: if_splits bool.splits)
    ultimately show ?thesis by (simp add: lists_running_def)
  qed
qed

lemma reload_lists:
  assumes "hooked ops live known env" and "lists_running live s" and "server_reload env s = (None, s')"
  shows "lists_running live s'"
proof -
  obtain src te ce base where e: "env = node_hooks ops src te ce base" "core_frame live known base" using assms(1) by (auto simp: hooked_def)
  obtain loaded where l: "sx_load env (sv_world s) = Inr loaded" using assms(3) by (auto simp: server_reload_def Let_def split: sum.splits)
  define s1 where "s1 = reload_log env loaded s"
  have s1: "lists_running live s1" using assms(2) lists_same log_frames(3) unfolding s1_def by blast
  obtain cfg w where p: "sx_prepare env loaded (sv_world s1) = (Inr cfg, w)"
    using assms(3) by (auto simp: server_reload_def Let_def l s1_def [symmetric] split: sum.splits prod.splits)
  then have pw: "live w = live (sv_world s1)" "distinct (map machineNodeKey (cf_NodeConfigs cfg))"
    using e unfolding core_frame_def node_hooks_def by simp_all
  obtain applied s2 where a: "apply_services env cfg (s1\<lparr>sv_world := w\<rparr>) = (applied, s2)" by fastforce
  have "lists_running live (s1\<lparr>sv_world := w\<rparr>)" using s1 pw(1) by (simp add: lists_running_def)
  then have s2: "lists_running live s2" using lists_same apply_services_nodes a by (metis snd_conv)
  obtain r s3 where m: "machine_reload env cfg applied s2 = (r, s3)" by fastforce
  have run: "(case r of None \<Rightarrow> full_reload env cfg applied (case sv_core s of None \<Rightarrow> None | Some c \<Rightarrow> co_ReloadCh c) s3 | Some out \<Rightarrow> (out, s3)) = (None, s')"
    using assms(3) by (simp add: server_reload_def Let_def l s1_def [symmetric] p a m split: option.splits)
  have "r \<noteq> Some (Some err)" for err using run by auto
  note s3 = machine_reload_lists [OF assms(1) s2 m this]
  show ?thesis using run s3 full_reload_lists [OF assms(1) pw(2) s3] by (cases r) auto
qed

text \<open>The start, and the events of the main loop.\<close>

lemma serve_lists:
  assumes "hooked ops live known env" and "live (sv_world s) = {}" and "sv_phase (serverHandle env s) = Serving"
  shows "lists_running live (serverHandle env s)"
proof -
  obtain src te ce base where e: "env = node_hooks ops src te ce base" "core_frame live known base" using assms(1) by (auto simp: hooked_def)
  obtain loaded where l: "sx_load env (sv_world s) = Inr loaded" using assms(3) by (auto simp: serverHandle_def split: sum.splits)
  define s1 where "s1 = start_log env loaded s"
  have s1: "sv_world s1 = sv_world s" using log_frames(1) [of s env loaded] by (simp add: s1_def same_nodes_def)
  obtain cfg w where p: "sx_prepare env loaded (sv_world s1) = (Inr cfg, w)"
    using assms(3) by (auto simp: serverHandle_def Let_def l s1_def [symmetric] split: sum.splits prod.splits)
  then have pw: "live w = {}" "distinct (map machineNodeKey (cf_NodeConfigs cfg))"
    using e assms(2) s1 unfolding core_frame_def node_hooks_def by simp_all
  have h: "serverHandle env s = serve_config env cfg (s1\<lparr>sv_world := w\<rparr>)" by (simp add: serverHandle_def Let_def l s1_def [symmetric] p)
  obtain applied s2 where a: "apply_services env cfg (s1\<lparr>sv_world := w\<rparr>) = (applied, s2)" by fastforce
  have s2: "live (sv_world (update_health env cfg applied s2)) = {}"
    using apply_services_nodes [of "s1\<lparr>sv_world := w\<rparr>" env cfg] pw(1) by (simp add: a same_nodes_def update_health_def)
  obtain n s3 where n: "newNodeForConfig env cfg (update_health env cfg applied s2) = (Inr n, s3)"
    using assms(3) unfolding h by (auto simp: serve_config_def a split: prod.splits sum.splits)
  note b = hooks_new [OF assms(1) pw(2) s2 n]
  have h2: "serverHandle env s = serve_core env cfg n s3" unfolding h by (simp add: serve_config_def a n)
  obtain c s4 where f: "fresh_core (Some 0) (s3\<lparr>sv_nodes := Some n\<rparr>) = (c, s4)" by fastforce
  then have w4: "sv_world s4 = sv_world s3" by (auto simp: fresh_core_def)
  obtain s5 where k: "start_core env cfg c (snd n) s4 = (None, s5)"
    using assms(3) unfolding h2 by (auto simp: serve_core_def f split: prod.splits option.splits)
  note l5 = hooks_start_core [OF assms(1) k]
  have h3: "serverHandle env s = serve_nodes env cfg n c (s5\<lparr>sv_core := Some c\<rparr>)" unfolding h2 by (simp add: serve_core_def f k)
  obtain n1 s6 where st: "start_node env cfg n c (s5\<lparr>sv_core := Some c\<rparr>) = (Inr n1, s6)"
    using assms(3) unfolding h3 by (auto simp: serve_nodes_def split: prod.splits sum.splits)
  have "built live known (snd n) (sv_world s5)" by (rule built_frame [of _ "sv_world s3"]) (use b l5 w4 in simp_all)
  then have "built live known (snd n) (sv_world (s5\<lparr>sv_core := Some c\<rparr>))" "live (sv_world (s5\<lparr>sv_core := Some c\<rparr>)) = {}"
    using b l5 w4 by simp_all
  note ok = hooks_start_node [OF assms(1) this st]
  have "serverHandle env s = mark_ready env True (s6\<lparr>sv_nodes := Some n1\<rparr>)"
    using assms(3) unfolding h3 by (auto simp: serve_nodes_def st Let_def run_deferred_def split: option.splits)
  then show ?thesis using ok by (cases n1) (simp add: lists_running_def mark_ready_def)
qed

lemma event_lists:
  assumes "event_hooked ops live known ev" and "lists_running live s" and "sv_phase (server_handle_event ev s) = Serving"
  shows "lists_running live (server_handle_event ev s)"
proof (cases ev)
  case (OnReload env)
  have m: "lists_running live (mark_ready env b t) = lists_running live t" "lists_running live (t\<lparr>sv_queued := q\<rparr>) = lists_running live t" for b q t
    by (simp_all add: lists_running_def mark_ready_def)
  have h: "hooked ops live known env" using assms(1) OnReload by (simp add: event_hooked_def)
  obtain r s1 where r: "server_reload env (mark_ready env False (s\<lparr>sv_queued := False\<rparr>)) = (r, s1)" by fastforce
  have "r = None" using assms(3) OnReload r by (cases r) (auto simp: handle_reload_def run_deferred_def)
  then show ?thesis using reload_lists [OF h _ r [unfolded \<open>r = None\<close>]] assms(2) OnReload r by (simp add: handle_reload_def m)
qed (use assms in \<open>auto simp: lists_running_def retry_failed_nodes_def queueMachineReconcileIfEnabled_def queueReload_def run_deferred_def split: option.splits sum.splits\<close>)

end

section \<open>Properties\<close>

definition known_controllers :: "('b, 'x) process \<Rightarrow> nat set" where
  "known_controllers p = {..<length (pr_controllers p)}"

definition ops_of ::
  "('x, 't, 'u, 'h) life_env \<Rightarrow> node_params \<Rightarrow> RealtimeConfig \<Rightarrow> (('b, 'x) process, start_error) machine_ops" where
  "ops_of life ps rt = real_ops life (ps\<lparr>np_realtime := rt\<rparr>)"

interpretation real_server: server_ops "ops_of life ps :: RealtimeConfig \<Rightarrow> (('b, 'x) process, start_error) machine_ops" live_controllers known_controllers
  for life :: "('x, 't, 'u, 'h) life_env" and ps
  by (rule server_ops.intro) (simp add: ops_of_def known_controllers_def [abs_def] real.controller_ops_axioms)

lemma ops_of_start_close: "mo_start (ops_of life ps rt) = mo_start (ops_of life ps rt')" "mo_close (ops_of life ps rt) = mo_close (ops_of life ps rt')"
  by (simp_all add: ops_of_def real_ops_def)

lemma run_lists:
  fixes s :: "(start_error Node, 'd, ('b, 'x) process) server"
  assumes "server_run evs s s'"
    and "list_all (\<lambda>ev. \<exists>life ps. event_hooked (ops_of (life :: ('x, 't, 'u, 'h) life_env) ps) live_controllers known_controllers ev) evs"
    and "sv_phase s = Serving \<longrightarrow> lists_running live_controllers s"
  shows "sv_phase s' = Serving \<longrightarrow> lists_running live_controllers s'"
  using assms
proof (induction rule: server_run.induct)
  case (server_cons ev s evs s')
  have s: "sv_phase s = Serving" using server_cons.hyps(1) by (simp add: event_enabled_def)
  obtain life ps where "event_hooked (ops_of (life :: ('x, 't, 'u, 'h) life_env) ps) live_controllers known_controllers ev"
    using server_cons.prems(1) by auto
  then have "sv_phase (server_handle_event ev s) = Serving \<longrightarrow> lists_running live_controllers (server_handle_event ev s)"
    using real_server.event_lists s server_cons.prems(2) by blast
  then show ?case using server_cons.IH server_cons.prems(1) by simp
qed


text \<open>A server in machine mode with one node, which is fetched and started.\<close>

definition demo_hooks_conf :: Conf where
  "demo_hooks_conf =
     New_Conf\<lparr>cf_MachineConfig := \<lparr>mc_Enabled = True, mc_ContinueOnError = True, mc_Profiles = []\<rparr>, cf_NodeConfigs := [demo_config ''h'']\<rparr>"

definition demo_hooks_base :: "(start_error Node, string list, unit, (int, nat) process) server_env" where
  "demo_hooks_base =
     \<lparr>sx_load = (\<lambda>_. Inr demo_hooks_conf), sx_prepare = (\<lambda>c w. (if c = demo_hooks_conf then Inr c else Inl Canceled, w)), sx_open_log = (\<lambda>_. True),
      sx_proxy = demo_apply_env, sx_derive = id, sx_edge = demo_daemon,
      sx_moment = \<lparr>mt_now = 0, mt_format = (\<lambda>_. ''t''), mt_goroutines = 1, mt_version = ''v1''\<rparr>,
      sx_newNode = (\<lambda>_ _ w. (Inl Canceled, w)), sx_newMachineNode = (\<lambda>_ _ _ w. (Inl Canceled, w)), sx_setAuto = (\<lambda>_ n. n), sx_setBridges = id,
      sx_reconcile = (\<lambda>n _ _ w. (Inl Canceled, n, w)), sx_startCore = (\<lambda>_ _ _ w. (None, w)), sx_startNode = (\<lambda>n _ _ w. (None, n, w)),
      sx_closeNode = (\<lambda>n w. (None, n, w)), sx_closeCore = (\<lambda>_ w. (None, w)), sx_failures = (\<lambda>_. 0), sx_watch = None\<rparr>"

definition demo_hooks :: "(start_error Node, string list, unit, (int, nat) process) server_env" where
  "demo_hooks = node_hooks (ops_of demo_life demo_params) demo_source (\<lambda>_. Canceled) (\<lambda>_. Canceled) demo_hooks_base"

definition demo_first :: "(start_error machine_error + start_error Node) \<times> (int, nat) process" where
  "demo_first = newWithFactory (ops_of demo_life demo_params (cf_RealtimeConfig demo_hooks_conf)) demo_source True [demo_config ''h''] demo_process"

definition demo_second :: "start_error machine_error option \<times> start_error Node \<times> (int, nat) process" where
  "demo_second =
     (case demo_first of
        (Inl e, p) \<Rightarrow> (Some e, empty_node True, p)
      | (Inr n, p) \<Rightarrow> Node_Start (ops_of demo_life demo_params zero_RealtimeConfig) [demo_config ''h''] (SetAutoHY2PortForward False n) p)"

lemma demo_started: "case demo_second of (e, n, p) \<Rightarrow> e = None \<and> nd_controllers n = [0]"
  by code_simp

definition demo_boot :: "(start_error Node, string list, (int, nat) process) server" where
  "demo_boot = process_start [] (sx_moment demo_hooks_base) ''c'' \<lparr>gr_MemoryLimit = max_int64, gr_GCPercent = 100\<rparr> [] demo_process"

definition demo_whole :: "(start_error Node, string list, (int, nat) process) server" where
  "demo_whole = serverHandle demo_hooks demo_boot"

lemma demo_hooks_hooked: "hooked (ops_of demo_life demo_params) live_controllers known_controllers demo_hooks"
  unfolding hooked_def demo_hooks_def
  by (intro exI conjI, rule refl) (simp add: core_frame_def demo_hooks_base_def demo_hooks_conf_def split: if_splits)

lemma demo_hooks_simps [simp]:
  "sx_load demo_hooks w = Inr demo_hooks_conf" "sx_prepare demo_hooks demo_hooks_conf w = (Inr demo_hooks_conf, w)" "sx_watch demo_hooks = None"
  "sx_startCore demo_hooks c k n w = (None, w)" "sx_setAuto demo_hooks = SetAutoHY2PortForward" "sx_setBridges demo_hooks = id"
  "sx_newMachineNode demo_hooks [demo_config ''h''] (cf_RealtimeConfig demo_hooks_conf) True demo_process = (map_sum (\<lambda>_. Canceled) id (fst demo_first), snd demo_first)"
  "sx_startNode demo_hooks n cfgs k w =
     (case Node_Start (ops_of demo_life demo_params zero_RealtimeConfig) cfgs n w of (e, n1, w1) \<Rightarrow> (map_option (\<lambda>_. Canceled) e, n1, w1))"
  by (simp_all add: demo_hooks_def demo_hooks_base_def node_hooks_def demo_first_def split: prod.splits)

lemma demo_hooks_conf_simps [simp]:
  "mc_Enabled (cf_MachineConfig demo_hooks_conf)" "mc_ContinueOnError (cf_MachineConfig demo_hooks_conf)" "cf_NodeConfigs demo_hooks_conf = [demo_config ''h'']"
  "ru_AutoHY2PortForward (cf_RuntimeConfig demo_hooks_conf) = False"
  by (simp_all add: demo_hooks_conf_def New_Conf_def)

lemma demo_whole_serving: "sv_phase demo_whole = Serving \<and> (\<exists>i n. sv_nodes demo_whole = Some (i, n) \<and> nd_controllers n = [0])"
proof -
  obtain e n2 p2 where two: "demo_second = (e, n2, p2)" by (metis prod_cases3)
  have e: "e = None" "nd_controllers n2 = [0]" using demo_started by (simp_all add: two)
  obtain q p1 where q: "demo_first = (q, p1)" by fastforce
  have "(case q of Inl e \<Rightarrow> (Some e, empty_node True, p1) | Inr n \<Rightarrow> Node_Start (ops_of demo_life demo_params zero_RealtimeConfig) [demo_config ''h''] (SetAutoHY2PortForward False n) p1) = (None, n2, p2)"
    using two e(1) unfolding demo_second_def q by simp
  then obtain n1 where "q = Inr n1" by (cases q) auto
  then have one: "demo_first = (Inr n1, p1)" using q by simp
  have st: "Node_Start (ops_of demo_life demo_params zero_RealtimeConfig) [demo_config ''h''] (SetAutoHY2PortForward False n1) p1 = (None, n2, p2)"
    using two e(1) by (simp add: demo_second_def one)
  define s where "s = start_log demo_hooks demo_hooks_conf demo_boot"
  have s: "sv_phase s = Serving" "sv_world s = demo_process" by (simp_all add: s_def start_log_def demo_boot_def process_start_def Let_def)
  obtain applied s1 where a: "apply_services demo_hooks demo_hooks_conf s = (applied, s1)" by fastforce
  have s1: "sv_phase s1 = Serving" "sv_world s1 = demo_process"
    using apply_services_nodes [of s demo_hooks demo_hooks_conf] s unfolding same_nodes_def a snd_conv by simp_all
  have "s\<lparr>sv_world := demo_process\<rparr> = s" using s(2) by (metis server.surjective server.update_convs(14))
  then have w: "demo_whole = serve_config demo_hooks demo_hooks_conf s"
    by (simp add: demo_whole_def serverHandle_def Let_def s_def [symmetric] s(2))
  show ?thesis unfolding w using e(2)
    by (simp add: serve_config_def a newNodeForConfig_def serve_core_def serve_nodes_def fresh_core_def start_core_def start_node_def
        update_health_def mark_ready_def Let_def s1 one st)
qed


end
