(* ===== verification/Node_Cert.thy ===== *)
theory Node_Cert
  imports Controller_Life Sub_Proxy
begin

text \<open>
  Certificates of the nodes (\<open>node/lego.go\<close>, and the writing and the renewal of certificates in
  \<open>node/cert.go\<close>): the account at the certificate authority, ordering, writing and renewing a certificate, and
  the self-signed certificate. The world holds the files, the environment of the process
  and the authority, a state of type \<open>'c\<close>; the ACME client, x509, PEM and JSON are
  parameters. \<open>'k\<close> are private keys, \<open>'r\<close> registrations. A panic is the outer \<open>None\<close>.
\<close>

section \<open>The world and its parameters\<close>

record 'c acme_world =
  aw_files :: files
  aw_environ :: "(string, string) go_map"
  aw_ca :: 'c

datatype stat_answer = StatFound | StatNotExist | StatFailed

record ('k, 'r) lego_User =
  us_Email :: string
  us_Registration :: "'r option"
  us_key :: "'k option"
  us_KeyEncoded :: string

datatype challenge = NoChallenge | HTTP01 string | DNS01 string "(string, string) go_map"

record ('k, 'r) lego_client =
  lc_User :: "('k, 'r) lego_User"
  lc_KeyType :: string
  lc_Challenge :: challenge

record ('k, 'r) Lego =
  lg_client :: "('k, 'r) lego_client"
  lg_config :: CertInfo

record cert_resource =
  rs_Certificate :: string
  rs_PrivateKey :: string

text \<open>
  What is not in the repository: looking at a path, reading, making directories and writing; JSON of
  the stored account (what reached the file, and an error); EC keys and PEM; the client with its calls to the
  authority and the DNS providers; the expiry of a PEM certificate in nanoseconds.
\<close>

record ('c, 'k, 'r) acme_env =
  ax_Stat :: "string \<Rightarrow> files \<Rightarrow> stat_answer"
  ax_ReadError :: "string \<Rightarrow> go_error option"
  ax_file :: file_env
  ax_Unmarshal :: "string \<Rightarrow> go_error + string \<times> 'r option \<times> string"
  ax_Encode :: "string \<times> 'r option \<times> string \<Rightarrow> go_error option \<times> string"
  ax_MarshalEC :: "'k \<Rightarrow> string option"
  ax_ParseEC :: "string \<Rightarrow> go_error + 'k"
  ax_pem_Encode :: "string \<Rightarrow> string \<Rightarrow> string"
  ax_pem_Decode :: "string \<Rightarrow> string option"
  ax_GenerateKey :: "'c \<Rightarrow> (go_error + 'k) \<times> 'c"
  ax_NewClient :: "('k, 'r) lego_User \<Rightarrow> 'c \<Rightarrow> go_error option \<times> 'c"
  ax_Register :: "('k, 'r) lego_User \<Rightarrow> 'c \<Rightarrow> (go_error + 'r) \<times> 'c"
  ax_SetHTTP01 :: "go_error option"
  ax_DNSProvider :: "string \<Rightarrow> (string, string) go_map \<Rightarrow> go_error option"
  ax_SetDNS01 :: "go_error option"
  ax_Obtain :: "('k, 'r) lego_client \<Rightarrow> string list \<Rightarrow> 'c \<Rightarrow> (go_error + cert_resource) \<times> 'c"
  ax_Renew :: "('k, 'r) lego_client \<Rightarrow> string \<Rightarrow> string \<Rightarrow> 'c \<Rightarrow> (go_error + cert_resource) \<times> 'c"
  ax_NotAfter :: "string \<Rightarrow> go_error + int"

section \<open>Files\<close>

definition file_IsExist :: "('c, 'k, 'r) acme_env \<Rightarrow> string \<Rightarrow> files \<Rightarrow> bool" where
  "file_IsExist env path fs \<longleftrightarrow> ax_Stat env path fs \<noteq> StatNotExist"

definition os_ReadFile :: "('c, 'k, 'r) acme_env \<Rightarrow> string \<Rightarrow> files \<Rightarrow> go_error + string" where
  "os_ReadFile env path fs =
     (case ax_ReadError env path of
        Some e \<Rightarrow> Inl e
      | None \<Rightarrow> (case go_load fs path of None \<Rightarrow> Inl (ErrText ''no such file or directory'') | Some data \<Rightarrow> Inr data))"

definition os_WriteFile :: "('c, 'k, 'r) acme_env \<Rightarrow> string \<Rightarrow> string \<Rightarrow> files \<Rightarrow> go_error option \<times> files" where
  "os_WriteFile env path content fs =
     (case fe_WriteFile (ax_file env) path of Some e \<Rightarrow> (Some e, fs) | None \<Rightarrow> (None, go_store path content fs))"

definition checkPath :: "('c, 'k, 'r) acme_env \<Rightarrow> string \<Rightarrow> files \<Rightarrow> go_error option" where
  "checkPath env p fs =
     (if file_IsExist env (path_Dir p) fs then None
      else if fe_MkdirAll (ax_file env) (path_Dir p) \<noteq> None then Some (ErrText ''create dir error'') else None)"

text \<open>
  \<open>strings.NewReplacer\<close> reads from left to right and does not look at what it has put in; neither of the two
  placeholders begins the other.
\<close>

function parseParams :: "string \<Rightarrow> string \<Rightarrow> string \<Rightarrow> string" where
  "parseParams domain email path =
     (case path of
        [] \<Rightarrow> []
      | c # rest \<Rightarrow>
          if take 8 path = ''{domain}'' then domain @ parseParams domain email (drop 8 path)
          else if take 7 path = ''{email}'' then email @ parseParams domain email (drop 7 path)
          else c # parseParams domain email rest)"
  by pat_completeness auto

termination by (relation "measure (\<lambda>(d, e, p). length p)") auto

declare parseParams.simps [simp del]

definition config_path :: "CertInfo \<Rightarrow> string \<Rightarrow> string" where
  "config_path ci path = parseParams (ci_CertDomain ci) (ci_Email ci) path"

definition write_one :: "('c, 'k, 'r) acme_env \<Rightarrow> CertInfo \<Rightarrow> string \<Rightarrow> string \<Rightarrow> files \<Rightarrow> go_error option \<times> files" where
  "write_one env ci path content fs =
     (case checkPath env path fs of
        Some e \<Rightarrow> (Some (ErrText ''check path error''), fs)
      | None \<Rightarrow> os_WriteFile env (config_path ci path) content fs)"

text \<open>The certificate first, then the key.\<close>

definition writeCert :: "('c, 'k, 'r) acme_env \<Rightarrow> CertInfo \<Rightarrow> cert_resource \<Rightarrow> files \<Rightarrow> go_error option \<times> files" where
  "writeCert env ci res fs =
     (case write_one env ci (ci_CertFile ci) (rs_Certificate res) fs of
        (Some e, fs1) \<Rightarrow> (Some e, fs1)
      | (None, fs1) \<Rightarrow> write_one env ci (ci_KeyFile ci) (rs_PrivateKey res) fs1)"

section \<open>The account\<close>

definition EncodePrivate :: "('c, 'k, 'r) acme_env \<Rightarrow> 'k \<Rightarrow> string option" where
  "EncodePrivate env key = map_option (ax_pem_Encode env ''EC PRIVATE KEY'') (ax_MarshalEC env key)"

text \<open>No PEM block gives a nil block, whose bytes are read.\<close>

definition DecodePrivate :: "('c, 'k, 'r) acme_env \<Rightarrow> string \<Rightarrow> (go_error + 'k) option" where
  "DecodePrivate env encoded = map_option (ax_ParseEC env) (ax_pem_Decode env encoded)"

text \<open>
  The key is asserted to be an ECDSA key; the error of its encoding is ignored. The file is emptied when
  it is opened.
\<close>

definition User_Save ::
  "('c, 'k, 'r) acme_env \<Rightarrow> string \<Rightarrow> ('k, 'r) lego_User \<Rightarrow> files \<Rightarrow> ((go_error option \<times> ('k, 'r) lego_User) \<times> files) option" where
  "User_Save env path u fs =
     (case checkPath env path fs of
        Some e \<Rightarrow> Some ((Some (ErrText ''check path error''), u), fs)
      | None \<Rightarrow>
          (case us_key u of
             None \<Rightarrow> None
           | Some key \<Rightarrow>
               let u1 = u\<lparr>us_KeyEncoded := (case EncodePrivate env key of None \<Rightarrow> [] | Some t \<Rightarrow> t)\<rparr>
               in case fe_WriteFile (ax_file env) path of
                    Some e \<Rightarrow> Some ((Some e, u1), fs)
                  | None \<Rightarrow>
                      (case ax_Encode env (us_Email u1, us_Registration u1, us_KeyEncoded u1) of
                         (Some e, part) \<Rightarrow> Some ((Some (ErrText ''marshal json error''), u1), go_store path part fs)
                       | (None, json) \<Rightarrow> Some ((None, u1\<lparr>us_KeyEncoded := []\<rparr>), go_store path json fs))))"

definition User_Load :: "('c, 'k, 'r) acme_env \<Rightarrow> string \<Rightarrow> files \<Rightarrow> (go_error + ('k, 'r) lego_User) option" where
  "User_Load env path fs =
     (case os_ReadFile env path fs of
        Inl e \<Rightarrow> Some (Inl (ErrText ''open file error''))
      | Inr data \<Rightarrow>
          (case ax_Unmarshal env data of
             Inl e \<Rightarrow> Some (Inl (ErrText ''unmarshal json error''))
           | Inr (email, reg, encoded) \<Rightarrow>
               (case DecodePrivate env encoded of
                  None \<Rightarrow> None
                | Some (Inl e) \<Rightarrow> Some (Inl (ErrText ''decode private key error''))
                | Some (Inr key) \<Rightarrow> Some (Inr \<lparr>us_Email = email, us_Registration = reg, us_key = Some key, us_KeyEncoded = encoded\<rparr>))))"

definition registerUser ::
  "('c, 'k, 'r) acme_env \<Rightarrow> string \<Rightarrow> ('k, 'r) lego_User \<Rightarrow> 'c acme_world \<Rightarrow> ((go_error + ('k, 'r) lego_User) \<times> 'c acme_world) option" where
  "registerUser env path u w =
     (case ax_GenerateKey env (aw_ca w) of
        (Inl e, ca) \<Rightarrow> Some (Inl (ErrText ''generate key error''), w\<lparr>aw_ca := ca\<rparr>)
      | (Inr key, ca) \<Rightarrow>
          (let u1 = u\<lparr>us_key := Some key\<rparr>
           in case ax_NewClient env u1 ca of
                (Some e, ca1) \<Rightarrow> Some (Inl (ErrText ''create lego client error''), w\<lparr>aw_ca := ca1\<rparr>)
              | (None, ca1) \<Rightarrow>
                  (case ax_Register env u1 ca1 of
                     (Inl e, ca2) \<Rightarrow> Some (Inl e, w\<lparr>aw_ca := ca2\<rparr>)
                   | (Inr reg, ca2) \<Rightarrow>
                       (case User_Save env path (u1\<lparr>us_Registration := Some reg\<rparr>) (aw_files w) of
                          None \<Rightarrow> None
                        | Some ((Some e, u2), fs) \<Rightarrow> Some (Inl (ErrText ''save user error''), w\<lparr>aw_files := fs, aw_ca := ca2\<rparr>)
                        | Some ((None, u2), fs) \<Rightarrow> Some (Inr u2, w\<lparr>aw_files := fs, aw_ca := ca2\<rparr>)))))"

definition NewLegoUser ::
  "('c, 'k, 'r) acme_env \<Rightarrow> string \<Rightarrow> string \<Rightarrow> 'c acme_world \<Rightarrow> ((go_error + ('k, 'r) lego_User) \<times> 'c acme_world) option" where
  "NewLegoUser env path email w =
     (if file_IsExist env path (aw_files w) then
        (case User_Load env path (aw_files w) of
           None \<Rightarrow> None
         | Some (Inl e) \<Rightarrow> Some (Inl e, w)
         | Some (Inr u) \<Rightarrow>
             if us_Email u \<noteq> email then registerUser env path (u\<lparr>us_Registration := None, us_Email := email\<rparr>) w
             else Some (Inr u, w))
      else registerUser env path \<lparr>us_Email = email, us_Registration = None, us_key = None, us_KeyEncoded = []\<rparr> w)"

section \<open>The client\<close>

text \<open>\<open>os.Setenv\<close> refuses a key that is empty or has an equals sign and texts with a zero byte; the code ignores that.\<close>

definition os_Setenv :: "string \<times> string \<Rightarrow> (string, string) go_map \<Rightarrow> (string, string) go_map" where
  "os_Setenv kv environ =
     (case kv of (k, v) \<Rightarrow>
        if k = [] \<or> CHR ''='' \<in> set k \<or> CHR 0x00 \<in> set k \<or> CHR 0x00 \<in> set v then environ else go_store k v environ)"

definition SetProvider ::
  "('c, 'k, 'r) acme_env \<Rightarrow> ('k, 'r) Lego \<Rightarrow> 'c acme_world \<Rightarrow> (go_error + ('k, 'r) Lego) \<times> 'c acme_world" where
  "SetProvider env l w =
     (let ci = lg_config l; set_challenge = (\<lambda>c. l\<lparr>lg_client := (lg_client l)\<lparr>lc_Challenge := c\<rparr>\<rparr>)
      in if ci_CertMode ci = ''http'' then
           (case ax_SetHTTP01 env of Some e \<Rightarrow> (Inl e, w) | None \<Rightarrow> (Inr (set_challenge (HTTP01 ''80'')), w))
         else if ci_CertMode ci = ''dns'' then
           (let w1 = w\<lparr>aw_environ := fold os_Setenv (go_range (ci_DNSEnv ci)) (aw_environ w)\<rparr>
            in case ax_DNSProvider env (ci_Provider ci) (aw_environ w1) of
                 Some e \<Rightarrow> (Inl (ErrText ''create dns challenge provider error''), w1)
               | None \<Rightarrow>
                   (case ax_SetDNS01 env of
                      Some e \<Rightarrow> (Inl (ErrText ''set dns provider error''), w1)
                    | None \<Rightarrow> (Inr (set_challenge (DNS01 (ci_Provider ci) (aw_environ w1))), w1)))
         else (Inr l, w))"

definition user_path :: "CertInfo \<Rightarrow> string" where
  "user_path ci = path_Join [path_Dir (ci_CertFile ci), ''user'', ''user-'' @ ci_Email ci @ ''.json'']"

definition NewLego ::
  "('c, 'k, 'r) acme_env \<Rightarrow> CertInfo \<Rightarrow> 'c acme_world \<Rightarrow> ((go_error + ('k, 'r) Lego) \<times> 'c acme_world) option" where
  "NewLego env ci w =
     (case NewLegoUser env (user_path ci) (ci_Email ci) w of
        None \<Rightarrow> None
      | Some (Inl e, w1) \<Rightarrow> Some (Inl (ErrText ''create user error''), w1)
      | Some (Inr u, w1) \<Rightarrow>
          (case ax_NewClient env u (aw_ca w1) of
             (Some e, ca) \<Rightarrow> Some (Inl e, w1\<lparr>aw_ca := ca\<rparr>)
           | (None, ca) \<Rightarrow>
               (case SetProvider env \<lparr>lg_client = \<lparr>lc_User = u, lc_KeyType = ''2048'', lc_Challenge = NoChallenge\<rparr>, lg_config = ci\<rparr> (w1\<lparr>aw_ca := ca\<rparr>) of
                  (Inl e, w2) \<Rightarrow> Some (Inl (ErrText ''set provider error''), w2)
                | (Inr l, w2) \<Rightarrow> Some (Inr l, w2))))"

section \<open>Ordering and renewing\<close>

definition CreateCert :: "('c, 'k, 'r) acme_env \<Rightarrow> ('k, 'r) Lego \<Rightarrow> 'c acme_world \<Rightarrow> go_error option \<times> 'c acme_world" where
  "CreateCert env l w =
     (case ax_Obtain env (lg_client l) [ci_CertDomain (lg_config l)] (aw_ca w) of
        (Inl e, ca) \<Rightarrow> (Some (ErrText ''obtain certificate error''), w\<lparr>aw_ca := ca\<rparr>)
      | (Inr res, ca) \<Rightarrow>
          (case writeCert env (lg_config l) res (aw_files w) of
             (Some e, fs) \<Rightarrow> (Some (ErrText ''write certificate error''), w\<lparr>aw_files := fs, aw_ca := ca\<rparr>)
           | (None, fs) \<Rightarrow> (None, w\<lparr>aw_files := fs, aw_ca := ca\<rparr>)))"

text \<open>
  The days that are left: \<open>time.Until\<close> is bounded by the range of an int64, and the quotient of the hours in
  floating point is cut off. Both roundings keep what the comparison with 30 days decides.
\<close>

definition day_ns :: int where
  "day_ns = 24 * 3600 * 1000000000"

definition time_Until :: "int \<Rightarrow> int \<Rightarrow> int" where
  "time_Until now t = max (- (2 ^ 63)) (min max_int64 (t - now))"

definition CheckCert :: "('c, 'k, 'r) acme_env \<Rightarrow> int \<Rightarrow> string \<Rightarrow> bool \<times> go_error option" where
  "CheckCert env now data =
     (case ax_NotAfter env data of
        Inl e \<Rightarrow> (False, Some e)
      | Inr t \<Rightarrow> if go_quot (time_Until now t) day_ns > 30 then (False, None) else (True, None))"

definition RenewCert :: "('c, 'k, 'r) acme_env \<Rightarrow> int \<Rightarrow> ('k, 'r) Lego \<Rightarrow> 'c acme_world \<Rightarrow> go_error option \<times> 'c acme_world" where
  "RenewCert env now l w =
     (case os_ReadFile env (ci_CertFile (lg_config l)) (aw_files w) of
        Inl e \<Rightarrow> (Some (ErrText ''read cert file error''), w)
      | Inr data \<Rightarrow>
          (case CheckCert env now data of
             (due, err) \<Rightarrow>
               if \<not> due then (None, w)
               else if err \<noteq> None then (Some (ErrText ''check cert error''), w)
               else (case ax_Renew env (lg_client l) (ci_CertDomain (lg_config l)) data (aw_ca w) of
                       (Inl e, ca) \<Rightarrow> (Some e, w\<lparr>aw_ca := ca\<rparr>)
                     | (Inr res, ca) \<Rightarrow>
                         (case writeCert env (lg_config l) res (aw_files w) of
                            (Some e, fs) \<Rightarrow> (Some (ErrText ''write certificate error''), w\<lparr>aw_files := fs, aw_ca := ca\<rparr>)
                          | (None, fs) \<Rightarrow> (None, w\<lparr>aw_files := fs, aw_ca := ca\<rparr>)))))"

text \<open>The task logs what fails and returns no error; a nil configuration is dereferenced.\<close>

definition renewCertTask ::
  "('c, 'k, 'r) acme_env \<Rightarrow> int \<Rightarrow> CertInfo option \<Rightarrow> 'c acme_world \<Rightarrow> (go_error option \<times> 'c acme_world) option" where
  "renewCertTask env now cert w =
     (case cert of
        None \<Rightarrow> None
      | Some ci \<Rightarrow>
          (case NewLego env ci w of
             None \<Rightarrow> None
           | Some (Inl e, w1) \<Rightarrow> Some (None, w1)
           | Some (Inr l, w1) \<Rightarrow> (case RenewCert env now l w1 of (e, w2) \<Rightarrow> Some (None, w2))))"

section \<open>The self-signed certificate\<close>

record x509_template =
  xt_SerialNumber :: int
  xt_CommonName :: string
  xt_DNSNames :: "string list"
  xt_NotBefore :: int
  xt_NotAfter :: int

text \<open>
  Key generation, signing, the calendar (years added to a time in seconds), opening a file, and how many bytes
  of a text reach the file when writing fails.
\<close>

record 'k self_env =
  sg_GenerateKey :: "go_error + 'k"
  sg_CreateCertificate :: "x509_template \<Rightarrow> 'k \<Rightarrow> go_error + string"
  sg_MarshalPKCS1 :: "'k \<Rightarrow> string"
  sg_pem_Encode :: "string \<Rightarrow> string \<Rightarrow> string"
  sg_now :: int
  sg_AddYears :: "int \<Rightarrow> int \<Rightarrow> int"
  sg_MkdirAll :: "string \<Rightarrow> go_error option"
  sg_OpenFile :: "string \<Rightarrow> go_error option"
  sg_Write :: "string \<Rightarrow> (go_error \<times> nat) option"

definition self_template :: "'k self_env \<Rightarrow> string \<Rightarrow> x509_template" where
  "self_template env domain =
     \<lparr>xt_SerialNumber = sg_now env, xt_CommonName = domain, xt_DNSNames = [domain], xt_NotBefore = sg_now env,
      xt_NotAfter = sg_AddYears env 30 (sg_now env)\<rparr>"

definition write_pem :: "'k self_env \<Rightarrow> string \<Rightarrow> string \<Rightarrow> string \<Rightarrow> files \<Rightarrow> go_error option \<times> files" where
  "write_pem env path ty bytes fs =
     (case sg_OpenFile env path of
        Some e \<Rightarrow> (Some e, fs)
      | None \<Rightarrow>
          (let text = sg_pem_Encode env ty bytes
           in case sg_Write env path of
                Some (e, n) \<Rightarrow> (Some e, go_store path (take n text) fs)
              | None \<Rightarrow> (None, go_store path text fs)))"

definition generateSelfSslCertificate :: "'k self_env \<Rightarrow> string \<Rightarrow> string \<Rightarrow> string \<Rightarrow> files \<Rightarrow> go_error option \<times> files" where
  "generateSelfSslCertificate env domain certPath keyPath fs =
     (let d = (if domain = [] then ''localhost'' else domain)
      in case sg_GenerateKey env of
           Inl e \<Rightarrow> (Some e, fs)
         | Inr key \<Rightarrow>
             (case sg_MkdirAll env (path_Dir certPath) of
                Some e \<Rightarrow> (Some e, fs)
              | None \<Rightarrow>
                  (case sg_MkdirAll env (path_Dir keyPath) of
                     Some e \<Rightarrow> (Some e, fs)
                   | None \<Rightarrow>
                       (case sg_CreateCertificate env (self_template env d) key of
                          Inl e \<Rightarrow> (Some e, fs)
                        | Inr cert \<Rightarrow>
                            (case write_pem env certPath ''CERTIFICATE'' cert fs of
                               (Some e, fs1) \<Rightarrow> (Some e, fs1)
                             | (None, fs1) \<Rightarrow> write_pem env keyPath ''RSA PRIVATE KEY'' (sg_MarshalPKCS1 env key) fs1)))))"

text \<open>What \<open>requestCert\<close> of a starting controller sees of all this.\<close>

definition cert_env_of :: "('c, 'k, 'r) acme_env \<Rightarrow> 's self_env \<Rightarrow> 'c acme_world \<Rightarrow> cert_env" where
  "cert_env_of env se w =
     \<lparr>ce_IsExist = (\<lambda>p. file_IsExist env p (aw_files w)),
      ce_generateSelf = (\<lambda>d c k. fst (generateSelfSslCertificate se d c k (aw_files w))),
      ce_NewLego = (\<lambda>ci. case NewLego env ci w of Some (Inl e, _) \<Rightarrow> Some e | _ \<Rightarrow> None),
      ce_CreateCert = (\<lambda>ci. case NewLego env ci w of Some (Inr l, w1) \<Rightarrow> fst (CreateCert env l w1) | _ \<Rightarrow> None)\<rparr>"

section \<open>Lemmas\<close>

lemma parseParams_plain: "CHR ''{'' \<notin> set path \<Longrightarrow> parseParams d e path = path"
proof (induction path)
  case (Cons c path)
  then show ?case by (subst parseParams.simps) auto
qed (simp add: parseParams.simps)

text \<open>A certificate is due when it can be read and less than 31 days are left.\<close>

definition renewal_due :: "('c, 'k, 'r) acme_env \<Rightarrow> int \<Rightarrow> string \<Rightarrow> bool" where
  "renewal_due env now data \<longleftrightarrow> (case ax_NotAfter env data of Inl e \<Rightarrow> False | Inr t \<Rightarrow> t - now < 31 * day_ns)"

lemma div_greater_iff: "0 < d \<Longrightarrow> n < x div d \<longleftrightarrow> (n + 1) * d \<le> (x :: int)"
proof -
  assume d: "0 < d"
  have x: "x = d * (x div d) + x mod d" "0 \<le> x mod d" "x mod d < d" using d by simp_all
  show ?thesis
  proof
    assume "n < x div d"
    then have "d * (n + 1) \<le> d * (x div d)" using d by (intro mult_left_mono) simp_all
    then have "d * (n + 1) \<le> x" using x(1,2) by linarith
    then show "(n + 1) * d \<le> x" by (simp add: mult.commute)
  next
    assume le: "(n + 1) * d \<le> x"
    show "n < x div d"
    proof (rule ccontr)
      assume "\<not> n < x div d"
      then have "d * (x div d) \<le> d * n" using d by (intro mult_left_mono) simp_all
      then have "x < d * n + d" using x(1,3) by linarith
      then have "x < d * (n + 1)" by (simp add: distrib_left)
      then show False using le by (simp add: mult.commute)
    qed
  qed
qed

lemma quot_days: "go_quot x day_ns > 30 \<longleftrightarrow> 31 * day_ns \<le> x"
proof (cases "0 \<le> x")
  case True
  then have "go_quot x day_ns = x div day_ns" by (intro go_quot_nonneg) (simp_all add: day_ns_def)
  then show ?thesis using div_greater_iff [of day_ns 30 x] by (simp add: day_ns_def)
next
  case False
  then have "sgn x * sgn day_ns = -1" "0 \<le> \<bar>x\<bar> div \<bar>day_ns\<bar>" by (simp_all add: day_ns_def)
  then have "go_quot x day_ns \<le> 0" by (simp add: go_quot_def)
  then show ?thesis using False by (simp add: day_ns_def)
qed

lemma until_days: "31 * day_ns \<le> time_Until now t \<longleftrightarrow> 31 * day_ns \<le> t - now"
  by (simp add: time_Until_def day_ns_def le_max_iff_disj)

lemma CheckCert_due: "fst (CheckCert env now data) \<longleftrightarrow> renewal_due env now data"
  "fst (CheckCert env now data) \<Longrightarrow> snd (CheckCert env now data) = None"
  by (auto simp: CheckCert_def renewal_due_def quot_days until_days split: sum.splits)

lemma RenewCert_not_due:
  "os_ReadFile env (ci_CertFile (lg_config l)) (aw_files w) = Inr data \<Longrightarrow> \<not> renewal_due env now data \<Longrightarrow> RenewCert env now l w = (None, w)"
  using CheckCert_due(1) [of env now data] by (cases "CheckCert env now data") (simp add: RenewCert_def)

lemma RenewCert_unreadable:
  "os_ReadFile env (ci_CertFile (lg_config l)) (aw_files w) = Inl e \<Longrightarrow> fst (RenewCert env now l w) \<noteq> None \<and> snd (RenewCert env now l w) = w"
  by (simp add: RenewCert_def)

lemma RenewCert_due:
  assumes "os_ReadFile env (ci_CertFile (lg_config l)) (aw_files w) = Inr data" and "renewal_due env now data"
  shows "RenewCert env now l w =
    (case ax_Renew env (lg_client l) (ci_CertDomain (lg_config l)) data (aw_ca w) of
       (Inl e, ca) \<Rightarrow> (Some e, w\<lparr>aw_ca := ca\<rparr>)
     | (Inr res, ca) \<Rightarrow>
         (map_option (\<lambda>_. ErrText ''write certificate error'') (fst (writeCert env (lg_config l) res (aw_files w))),
          w\<lparr>aw_files := snd (writeCert env (lg_config l) res (aw_files w)), aw_ca := ca\<rparr>))"
proof -
  have "CheckCert env now data = (True, None)" using CheckCert_due [of env now data] assms(2) by (simp add: prod_eq_iff)
  then show ?thesis using assms(1) by (auto simp: RenewCert_def split: prod.splits sum.splits option.splits)
qed

text \<open>What writing leaves: the certificate when its file can be written, and the key when that can be written, too.\<close>

lemma os_WriteFile_load:
  "os_WriteFile env path content fs = (None, fs') \<Longrightarrow> go_load fs' p = (if p = path then Some content else go_load fs p)"
  "os_WriteFile env path content fs = (Some e, fs') \<Longrightarrow> fs' = fs"
  by (auto simp: os_WriteFile_def gmap.lookup_store split: option.splits)

lemma write_one_load:
  "write_one env ci path content fs = (None, fs') \<Longrightarrow> go_load fs' p = (if p = config_path ci path then Some content else go_load fs p)"
  "write_one env ci path content fs = (Some e, fs') \<Longrightarrow> fs' = fs"
  using os_WriteFile_load [of env "config_path ci path" content fs] by (auto simp: write_one_def split: option.splits)

lemma writeCert_load:
  assumes "writeCert env ci res fs = (None, fs')"
  shows "go_load fs' p =
    (if p = config_path ci (ci_KeyFile ci) then Some (rs_PrivateKey res)
     else if p = config_path ci (ci_CertFile ci) then Some (rs_Certificate res) else go_load fs p)"
proof -
  obtain fs1 where "write_one env ci (ci_CertFile ci) (rs_Certificate res) fs = (None, fs1)"
      "write_one env ci (ci_KeyFile ci) (rs_PrivateKey res) fs1 = (None, fs')"
    using assms by (auto simp: writeCert_def split: prod.splits option.splits)
  then show ?thesis using write_one_load(1) by metis
qed

lemma writeCert_key_fails:
  assumes "write_one env ci (ci_CertFile ci) (rs_Certificate res) fs = (None, fs1)"
    and "fst (write_one env ci (ci_KeyFile ci) (rs_PrivateKey res) fs1) = Some e"
  shows "writeCert env ci res fs = (Some e, fs1)"
proof (cases "write_one env ci (ci_KeyFile ci) (rs_PrivateKey res) fs1")
  case (Pair r fs2)
  then show ?thesis using assms write_one_load(2) [of env ci "ci_KeyFile ci" "rs_PrivateKey res" fs1 e fs2] by (simp add: writeCert_def)
qed

text \<open>A renewal that succeeds leaves the new certificate and its key, and touches no other file.\<close>

lemma renewal_writes_pair:
  assumes "os_ReadFile env (ci_CertFile (lg_config l)) (aw_files w) = Inr data" and "renewal_due env now data"
    and "RenewCert env now l w = (None, w')"
  shows "\<exists>res ca. ax_Renew env (lg_client l) (ci_CertDomain (lg_config l)) data (aw_ca w) = (Inr res, ca) \<and> aw_ca w' = ca \<and>
    (\<forall>p. go_load (aw_files w') p =
       (if p = config_path (lg_config l) (ci_KeyFile (lg_config l)) then Some (rs_PrivateKey res)
        else if p = config_path (lg_config l) (ci_CertFile (lg_config l)) then Some (rs_Certificate res) else go_load (aw_files w) p))"
proof -
  obtain res ca where r: "ax_Renew env (lg_client l) (ci_CertDomain (lg_config l)) data (aw_ca w) = (Inr res, ca)"
    using assms(3) RenewCert_due [OF assms(1,2)] by (auto split: prod.splits sum.splits)
  obtain e fs where wr: "writeCert env (lg_config l) res (aw_files w) = (e, fs)" by fastforce
  have "e = None" "w' = w\<lparr>aw_files := fs, aw_ca := ca\<rparr>" using assms(3) RenewCert_due [OF assms(1,2)] by (auto simp: r wr)
  then show ?thesis using writeCert_load wr r by fastforce
qed

text \<open>
  With a placeholder in the path of the certificate the file that is written is not the one that is read: when nothing
  is at the path as it is configured, an order that succeeds is followed by renewals that fail.
\<close>

lemma placeholder_not_renewed:
  assumes "CreateCert env l w = (None, w1)" and "go_load (aw_files w) (ci_CertFile (lg_config l)) = None"
    and "config_path (lg_config l) (ci_CertFile (lg_config l)) \<noteq> ci_CertFile (lg_config l)"
    and "config_path (lg_config l) (ci_KeyFile (lg_config l)) \<noteq> ci_CertFile (lg_config l)"
  shows "fst (RenewCert env' now l w1) \<noteq> None \<and> snd (RenewCert env' now l w1) = w1"
proof -
  obtain res ca fs where "writeCert env (lg_config l) res (aw_files w) = (None, fs)" "w1 = w\<lparr>aw_files := fs, aw_ca := ca\<rparr>"
    using assms(1) by (auto simp: CreateCert_def split: prod.splits sum.splits option.splits)
  then have "go_load (aw_files w1) (ci_CertFile (lg_config l)) = None" using writeCert_load assms(2-4) by fastforce
  then obtain e where "os_ReadFile env' (ci_CertFile (lg_config l)) (aw_files w1) = Inl e"
    by (cases "ax_ReadError env' (ci_CertFile (lg_config l))") (auto simp: os_ReadFile_def)
  then show ?thesis by (rule RenewCert_unreadable)
qed

text \<open>Rounds of the renewal, each with what the system and the authority answer then.\<close>

primrec renew_rounds ::
  "('k, 'r) Lego \<Rightarrow> (('c, 'k, 'r) acme_env \<times> int) list \<Rightarrow> 'c acme_world \<Rightarrow> go_error option list \<times> 'c acme_world" where
  "renew_rounds l [] w = ([], w)"
| "renew_rounds l (r # rs) w =
     (case RenewCert (fst r) (snd r) l w of (e, w1) \<Rightarrow> (case renew_rounds l rs w1 of (es, w2) \<Rightarrow> (e # es, w2)))"

lemma rounds_idle:
  "list_all (\<lambda>(env, now). os_ReadFile env (ci_CertFile (lg_config l)) (aw_files w) = Inr data \<and> \<not> renewal_due env now data) rs \<Longrightarrow>
   renew_rounds l rs w = (replicate (length rs) None, w)"
  by (induction rs) (auto simp: RenewCert_not_due)

text \<open>A damaged certificate: nothing is ever renewed, and every round reports success.\<close>

lemma damaged_never_renewed:
  assumes "go_load (aw_files w) (ci_CertFile (lg_config l)) = Some data"
    and "list_all (\<lambda>(env, now). ax_ReadError env (ci_CertFile (lg_config l)) = None \<and> (\<exists>e. ax_NotAfter env data = Inl e)) rs"
  shows "renew_rounds l rs w = (replicate (length rs) None, w)"
  using assms by (intro rounds_idle [where data = data]) (auto simp: list_all_iff os_ReadFile_def renewal_due_def)

section \<open>The account is kept\<close>

text \<open>JSON, PEM and the encoding of keys read back what they write.\<close>

definition account_codecs :: "('c, 'k, 'r) acme_env \<Rightarrow> bool" where
  "account_codecs env \<longleftrightarrow>
     (\<forall>u json. ax_Encode env u = (None, json) \<longrightarrow> ax_Unmarshal env json = Inr u) \<and>
     (\<forall>ty bytes. ax_pem_Decode env (ax_pem_Encode env ty bytes) = Some bytes) \<and>
     (\<forall>k. \<exists>bytes. ax_MarshalEC env k = Some bytes \<and> ax_ParseEC env bytes = Inr k)"

lemma Save_ok:
  assumes "User_Save env path u fs = Some ((None, u1), fs1)"
  shows "\<exists>key json. us_key u = Some key \<and> fs1 = go_store path json fs \<and> u1 = u\<lparr>us_KeyEncoded := []\<rparr> \<and>
    ax_Encode env (us_Email u, us_Registration u, case EncodePrivate env key of None \<Rightarrow> [] | Some t \<Rightarrow> t) = (None, json)"
proof -
  have "checkPath env path fs = None" using assms by (cases "checkPath env path fs") (simp_all add: User_Save_def)
  moreover obtain key where "us_key u = Some key" using assms calculation by (cases "us_key u") (simp_all add: User_Save_def)
  moreover have "fe_WriteFile (ax_file env) path = None" using assms calculation by (cases "fe_WriteFile (ax_file env) path") (simp_all add: User_Save_def Let_def)
  ultimately show ?thesis using assms by (simp add: User_Save_def Let_def split: prod.splits option.splits)
qed

lemma Save_Load:
  assumes "account_codecs env" and "User_Save env path u fs = Some ((None, u1), fs1)" and "ax_ReadError env path = None"
  shows "\<exists>t. User_Load env path fs1 = Some (Inr (u\<lparr>us_KeyEncoded := t\<rparr>))"
proof -
  obtain key json where k: "us_key u = Some key" "fs1 = go_store path json fs"
      "ax_Encode env (us_Email u, us_Registration u, case EncodePrivate env key of None \<Rightarrow> [] | Some t \<Rightarrow> t) = (None, json)"
    using Save_ok [OF assms(2)] by blast
  obtain bytes where b: "ax_MarshalEC env key = Some bytes" "ax_ParseEC env bytes = Inr key"
    using assms(1) unfolding account_codecs_def by blast
  let ?t = "ax_pem_Encode env ''EC PRIVATE KEY'' bytes"
  have t: "EncodePrivate env key = Some ?t" by (simp add: EncodePrivate_def b)
  have "ax_Unmarshal env json = Inr (us_Email u, us_Registration u, ?t)" using assms(1) k(3) unfolding account_codecs_def t option.case by blast
  moreover have "DecodePrivate env ?t = Some (Inr key)" using assms(1) b(2) by (simp add: account_codecs_def DecodePrivate_def)
  ultimately have "User_Load env path fs1 = Some (Inr (u\<lparr>us_KeyEncoded := ?t\<rparr>))"
    using assms(3) k(1) by (simp add: User_Load_def os_ReadFile_def k(2) gmap.lookup_store)
  then show ?thesis by blast
qed

lemma registerUser_ok:
  assumes "registerUser env path u w = Some (Inr u1, w1)"
  shows "\<exists>u0. us_Email u0 = us_Email u \<and> User_Save env path u0 (aw_files w) = Some ((None, u1), aw_files w1)"
proof -
  obtain rk ca where g: "ax_GenerateKey env (aw_ca w) = (rk, ca)" by fastforce
  then obtain key where k: "rk = Inr key" using assms by (cases rk) (simp_all add: registerUser_def)
  let ?u = "u\<lparr>us_key := Some key\<rparr>"
  obtain re ca1 where n: "ax_NewClient env ?u ca = (re, ca1)" by fastforce
  then have "re = None" using assms g k by (cases re) (simp_all add: registerUser_def Let_def)
  obtain rr ca2 where r: "ax_Register env ?u ca1 = (rr, ca2)" by fastforce
  then obtain reg where "rr = Inr reg" using assms g k n \<open>re = None\<close> by (cases rr) (simp_all add: registerUser_def Let_def)
  then have "(case User_Save env path (?u\<lparr>us_Registration := Some reg\<rparr>) (aw_files w) of
                None \<Rightarrow> None
              | Some ((Some e, u2), fs) \<Rightarrow> Some (Inl (ErrText ''save user error''), w\<lparr>aw_files := fs, aw_ca := ca2\<rparr>)
              | Some ((None, u2), fs) \<Rightarrow> Some (Inr u2, w\<lparr>aw_files := fs, aw_ca := ca2\<rparr>)) = Some (Inr u1, w1)"
    using assms g k n r \<open>re = None\<close> by (simp add: registerUser_def Let_def)
  then have "User_Save env path (?u\<lparr>us_Registration := Some reg\<rparr>) (aw_files w) = Some ((None, u1), aw_files w1)"
    by (auto split: option.splits prod.splits)
  then show ?thesis by (intro exI [of _ "?u\<lparr>us_Registration := Some reg\<rparr>"]) simp
qed

text \<open>An account that was registered is used again by everyone who asks for the same path and address.\<close>

lemma account_reused:
  assumes "account_codecs env" and "registerUser env path u w = Some (Inr u1, w1)" and "us_Email u = email"
    and "ax_Stat env path (aw_files w1) \<noteq> StatNotExist" and "ax_ReadError env path = None"
  shows "\<exists>u2. NewLegoUser env path email w1 = Some (Inr u2, w1) \<and> us_key u2 = us_key u1 \<and> us_Registration u2 = us_Registration u1"
proof -
  obtain u0 fs where s: "User_Save env path u0 (aw_files w) = Some ((None, u1), fs)" "aw_files w1 = fs" "us_Email u0 = email"
    using registerUser_ok [OF assms(2)] assms(3) by auto
  have "us_key u1 = us_key u0" "us_Registration u1 = us_Registration u0" using Save_ok [OF s(1)] by auto
  moreover obtain t where "User_Load env path (aw_files w1) = Some (Inr (u0\<lparr>us_KeyEncoded := t\<rparr>))"
    using Save_Load [OF assms(1) s(1) assms(5)] s(2) by blast
  ultimately show ?thesis using assms(4) s(3) by (simp add: NewLegoUser_def file_IsExist_def)
qed

text \<open>A self-signed certificate that was written is for the domain, or for localhost, and its key stands beside it.\<close>

lemma self_certificate_written:
  assumes "generateSelfSslCertificate env domain certPath keyPath fs = (None, fs')" and "certPath \<noteq> keyPath"
  shows "\<exists>key cert. sg_GenerateKey env = Inr key \<and>
    sg_CreateCertificate env (self_template env (if domain = [] then ''localhost'' else domain)) key = Inr cert \<and>
    go_load fs' certPath = Some (sg_pem_Encode env ''CERTIFICATE'' cert) \<and>
    go_load fs' keyPath = Some (sg_pem_Encode env ''RSA PRIVATE KEY'' (sg_MarshalPKCS1 env key))"
proof -
  obtain key where k: "sg_GenerateKey env = Inr key" using assms(1) by (cases "sg_GenerateKey env") (simp_all add: generateSelfSslCertificate_def Let_def)
  have m: "sg_MkdirAll env (path_Dir certPath) = None"
    using assms(1) k by (cases "sg_MkdirAll env (path_Dir certPath)") (simp_all add: generateSelfSslCertificate_def Let_def)
  have m2: "sg_MkdirAll env (path_Dir keyPath) = None"
    using assms(1) k m by (cases "sg_MkdirAll env (path_Dir keyPath)") (simp_all add: generateSelfSslCertificate_def Let_def)
  define d where "d = (if domain = [] then ''localhost'' else domain)"
  note g = generateSelfSslCertificate_def [of env domain certPath keyPath fs, unfolded Let_def, folded d_def]
  obtain cert where c: "sg_CreateCertificate env (self_template env d) key = Inr cert"
    using assms(1) k m m2 by (cases "sg_CreateCertificate env (self_template env d) key") (simp_all add: g)
  obtain r fs1 where w: "write_pem env certPath ''CERTIFICATE'' cert fs = (r, fs1)" by fastforce
  have "generateSelfSslCertificate env domain certPath keyPath fs =
      (case r of Some e \<Rightarrow> (Some e, fs1) | None \<Rightarrow> write_pem env keyPath ''RSA PRIVATE KEY'' (sg_MarshalPKCS1 env key) fs1)"
    by (simp add: g k c m m2 w)
  then have "r = None" "write_pem env keyPath ''RSA PRIVATE KEY'' (sg_MarshalPKCS1 env key) fs1 = (None, fs')"
    using assms(1) by (cases r; simp)+
  then have "fs1 = go_store certPath (sg_pem_Encode env ''CERTIFICATE'' cert) fs"
      "fs' = go_store keyPath (sg_pem_Encode env ''RSA PRIVATE KEY'' (sg_MarshalPKCS1 env key)) fs1"
    using w by (auto simp: write_pem_def Let_def split: option.splits prod.splits)
  then show ?thesis using assms(2) k c unfolding d_def [symmetric] by (simp add: gmap.lookup_store)
qed

section \<open>Properties\<close>

text \<open>
  C40. A half written renewal is not repaired: when the new certificate could be written and its key could not,
  the renewal reports an error once; from then on, while the new certificate has more than 30 days, every
  round reports success, and the new certificate stands beside the old key.
\<close>

theorem half_written_renewal_stays:
  assumes "CHR ''{'' \<notin> set (ci_CertFile ci)" and "CHR ''{'' \<notin> set (ci_KeyFile ci)" and "ci_CertFile ci \<noteq> ci_KeyFile ci" and "lg_config l = ci"
    and "os_ReadFile env (ci_CertFile ci) (aw_files w) = Inr data" and "renewal_due env now data"
    and "ax_Renew env (lg_client l) (ci_CertDomain ci) data (aw_ca w) = (Inr res, ca)"
    and "file_IsExist env (path_Dir (ci_CertFile ci)) (aw_files w)" and "fe_WriteFile (ax_file env) (ci_CertFile ci) = None"
    and "fe_WriteFile (ax_file env) (ci_KeyFile ci) = Some err"
    and "list_all (\<lambda>(env', now'). ax_ReadError env' (ci_CertFile ci) = None \<and> \<not> renewal_due env' now' (rs_Certificate res)) rounds"
  shows "case renew_rounds l ((env, now) # rounds) w of
     (results, w') \<Rightarrow> hd results \<noteq> None \<and> tl results = replicate (length rounds) None \<and>
       go_load (aw_files w') (ci_CertFile ci) = Some (rs_Certificate res) \<and> go_load (aw_files w') (ci_KeyFile ci) = go_load (aw_files w) (ci_KeyFile ci)"
proof -
  let ?fs = "go_store (ci_CertFile ci) (rs_Certificate res) (aw_files w)"
  have p: "config_path ci (ci_CertFile ci) = ci_CertFile ci" "config_path ci (ci_KeyFile ci) = ci_KeyFile ci"
    using assms(1,2) by (simp_all add: config_path_def parseParams_plain)
  have c: "write_one env ci (ci_CertFile ci) (rs_Certificate res) (aw_files w) = (None, ?fs)"
    using assms(8,9) by (simp add: write_one_def checkPath_def os_WriteFile_def p)
  obtain e where k: "fst (write_one env ci (ci_KeyFile ci) (rs_PrivateKey res) ?fs) = Some e"
    using assms(10) by (cases "checkPath env (ci_KeyFile ci) ?fs") (auto simp: write_one_def os_WriteFile_def p)
  have r: "RenewCert env now l w = (Some (ErrText ''write certificate error''), w\<lparr>aw_files := ?fs, aw_ca := ca\<rparr>)"
    using RenewCert_due [of env l w data now] assms(4-7) writeCert_key_fails [OF c k] by simp
  have "renew_rounds l rounds (w\<lparr>aw_files := ?fs, aw_ca := ca\<rparr>) = (replicate (length rounds) None, w\<lparr>aw_files := ?fs, aw_ca := ca\<rparr>)"
    using assms(4,11) by (intro rounds_idle [where data = "rs_Certificate res"]) (auto simp: list_all_iff os_ReadFile_def gmap.lookup_store)
  then show ?thesis using assms(3) by (simp add: r gmap.lookup_store)
qed

text \<open>A host whose key file cannot be written, and an authority that renews; the old certificate expires at 5, a new one far away.\<close>

definition demo_acme :: "(nat, unit, unit) acme_env" where
  "demo_acme =
     \<lparr>ax_Stat = (\<lambda>_ _. StatFound), ax_ReadError = (\<lambda>_. None),
      ax_file = \<lparr>fe_MkdirAll = (\<lambda>_. None), fe_WriteFile = (\<lambda>p. if p = ''/k'' then Some (ErrText ''read-only'') else None)\<rparr>,
      ax_Unmarshal = (\<lambda>_. Inl Canceled), ax_Encode = (\<lambda>_. (None, [])), ax_MarshalEC = (\<lambda>_. None), ax_ParseEC = (\<lambda>_. Inl Canceled),
      ax_pem_Encode = (\<lambda>_ b. b), ax_pem_Decode = Some, ax_GenerateKey = (\<lambda>c. (Inr (), c)), ax_NewClient = (\<lambda>_ c. (None, c)),
      ax_Register = (\<lambda>_ c. (Inr (), c)), ax_SetHTTP01 = None, ax_DNSProvider = (\<lambda>_ _. None), ax_SetDNS01 = None,
      ax_Obtain = (\<lambda>_ _ c. (Inl Canceled, c)), ax_Renew = (\<lambda>_ _ _ c. (Inr \<lparr>rs_Certificate = ''new'', rs_PrivateKey = ''new key''\<rparr>, Suc c)),
      ax_NotAfter = (\<lambda>data. Inr (if data = ''new'' then 90 * day_ns else 5))\<rparr>"

definition demo_node_cert :: CertInfo where
  "demo_node_cert = \<lparr>ci_CertMode = ''http'', ci_CertFile = ''/c'', ci_KeyFile = ''/k'', ci_Email = ''e'', ci_CertDomain = ''d'', ci_DNSEnv = [],
                    ci_Provider = [], ci_RejectUnknownSni = False\<rparr>"

definition demo_lego :: "(unit, unit) Lego" where
  "demo_lego =
     \<lparr>lg_client = \<lparr>lc_User = \<lparr>us_Email = ''e'', us_Registration = Some (), us_key = Some (), us_KeyEncoded = []\<rparr>, lc_KeyType = ''2048'', lc_Challenge = HTTP01 ''80''\<rparr>,
      lg_config = demo_node_cert\<rparr>"

theorem half_written_renewal_stays_witness:
  "case renew_rounds demo_lego ((demo_acme, 0) # [(demo_acme, day_ns), (demo_acme, 2 * day_ns)])
          \<lparr>aw_files = [(''/c'', ''old''), (''/k'', ''old key'')], aw_environ = [], aw_ca = 0\<rparr> of
     (results, w') \<Rightarrow> tl results = [None, None] \<and> go_load (aw_files w') ''/c'' = Some ''new'' \<and> go_load (aw_files w') ''/k'' = Some ''old key''"
proof -
  let ?w = "\<lparr>aw_files = [(''/c'', ''old''), (''/k'', ''old key'')], aw_environ = [], aw_ca = 0 :: nat\<rparr>"
  note d = demo_acme_def demo_lego_def demo_node_cert_def day_ns_def renewal_due_def os_ReadFile_def file_IsExist_def go_load_def
  have "case renew_rounds demo_lego ((demo_acme, 0) # [(demo_acme, day_ns), (demo_acme, 2 * day_ns)]) ?w of
     (results, w') \<Rightarrow> hd results \<noteq> None \<and> tl results = replicate (length [(demo_acme, day_ns), (demo_acme, 2 * day_ns)]) None \<and>
       go_load (aw_files w') (ci_CertFile demo_node_cert) = Some (rs_Certificate \<lparr>rs_Certificate = ''new'', rs_PrivateKey = ''new key''\<rparr>) \<and>
       go_load (aw_files w') (ci_KeyFile demo_node_cert) = go_load (aw_files ?w) (ci_KeyFile demo_node_cert)"
    by (rule half_written_renewal_stays [where data = "''old''" and ca = 1 and err = "ErrText ''read-only''"]) (simp_all add: d)
  then show ?thesis by (auto simp: demo_node_cert_def go_load_def simp del: renew_rounds.simps)
qed

end
