(* ===== verification/Rules_Command.thy ===== *)
theory Rules_Command
  imports Machine_Profiles Port_Firewall
begin

text \<open>
  The command that shows, repairs and removes the rules of port hopping (\<open>cmd/rules.go\<close>): it loads the
  configuration, resolves machine profiles and fetches the nodes by itself, beside a running agent, and
  prints a status. A command gives the printed lines and its error; the outer \<open>None\<close> is a
  firewall whose listed rules never end.
\<close>

section \<open>The status of a command\<close>

datatype 'e rules_error =
    RulesConfError conf_error | RulesProfileError profile_error | RulesFetchError "'e machine_error" | RepairRequiresRoot | CleanupRequiresRoot

text \<open>
  The flags, the files, the panels, and the texts of errors; \<open>rx_MarshalIndent\<close> prints the JSON output.
\<close>

datatype rule_value = RvText string | RvInt int

type_synonym rule_item = "(string, rule_value) go_map"

record 'e rules_env =
  rx_config :: string
  rx_json :: bool
  rx_stat :: "string \<Rightarrow> bool"
  rx_file :: "string \<Rightarrow> conf_file"
  rx_post :: "string \<Rightarrow> int \<Rightarrow> string \<Rightarrow> http_answer"
  rx_url_ok :: "string \<Rightarrow> bool"
  rx_source :: info_source
  rx_problem :: "pf_error \<Rightarrow> string"
  rx_error :: "'e machine_error \<Rightarrow> string"
  rx_MarshalIndent :: "HysteriaPortForwardStatus \<Rightarrow> rule_item list \<Rightarrow> string"

definition loadRulesConfig :: "'e rules_env \<Rightarrow> 'e rules_error + Conf" where
  "loadRulesConfig env =
     (case LoadFromPath (rx_file env (ResolveConfigPath (rx_stat env) (rx_config env))) New_Conf of
        Inl err \<Rightarrow> Inl (RulesConfError err)
      | Inr cfg \<Rightarrow>
          (case ResolveMachineNodeConfigs (rx_post env) (rx_url_ok env) cfg of
             Inl err \<Rightarrow> Inl (RulesProfileError err)
           | Inr cfg1 \<Rightarrow> Inr cfg1))"

definition loadRulesStatus ::
  "'e rules_env \<Rightarrow> 's firewall \<Rightarrow> bool \<Rightarrow> 's pf_state \<Rightarrow>
   ((('e rules_error + HysteriaPortForwardStatus) \<times> 'e NodeFailure list) \<times> 's pf_state) option" where
  "loadRulesStatus env fw repair st =
     (case loadRulesConfig env of
        Inl err \<Rightarrow> Some ((Inl err, []), st)
      | Inr cfg \<Rightarrow>
          (case FetchNodeInfos (rx_source env) (mc_ContinueOnError (cf_MachineConfig cfg)) (cf_NodeConfigs cfg) of
             (Inl err, failures) \<Rightarrow> Some ((Inl (RulesFetchError err), failures), st)
           | (Inr infos, failures) \<Rightarrow>
               let enabled = ru_AutoHY2PortForward (cf_RuntimeConfig cfg)
               in if repair then
                    (case RepairHysteriaPortForward fw (map Some infos) st of
                       None \<Rightarrow> None
                     | Some (status, st1) \<Rightarrow> Some ((Inr (status\<lparr>hs_Enabled := enabled\<rparr>), failures), st1))
                  else
                    (case InspectHysteriaPortForward fw (map Some infos) st of
                       (status, st1) \<Rightarrow> Some ((Inr (status\<lparr>hs_Enabled := enabled\<rparr>), failures), st1))))"

section \<open>Output\<close>

definition renderToolState :: "HysteriaPortForwardToolStatus \<Rightarrow> string" where
  "renderToolState tool =
     (if \<not> tl_Available tool then ''unavailable''
      else if tl_Error tool \<noteq> [] then ''error''
      else if tl_Missing tool \<noteq> [] \<or> tl_Extra tool \<noteq> [] \<or> tl_StaleChain tool then ''needs-repair''
      else ''ok'')"

definition rule_failure_item :: "'e rules_env \<Rightarrow> 'e NodeFailure \<Rightarrow> rule_item" where
  "rule_failure_item env f =
     [(''api_host'', RvText (nc_APIHost (nf_Config f))), (''node_id'', RvInt (nc_NodeID (nf_Config f))),
      (''machine_id'', RvInt (nc_MachineID (nf_Config f))), (''error'', RvText (rx_error env (nf_Err f)))]"

definition formatRuleNodeFailures :: "'e rules_env \<Rightarrow> 'e NodeFailure list \<Rightarrow> rule_item list" where
  "formatRuleNodeFailures env failures = map (rule_failure_item env) failures"

definition show_bool :: "bool \<Rightarrow> string" where
  "show_bool b = (if b then ''true'' else ''false'')"

definition counted :: "string \<Rightarrow> string \<Rightarrow> string list \<Rightarrow> string list" where
  "counted head indent items =
     (if items = [] then [] else (head @ '': '' @ Itoa (int (length items))) # map (\<lambda>s. indent @ s) items)"

definition render_rule :: "HysteriaPortForwardRuleSpec \<Rightarrow> string" where
  "render_rule rule = ''  - udp '' @ rs_Match rule @ '' -> '' @ Itoa (rs_TargetPort rule)"

definition render_failure :: "'e rules_env \<Rightarrow> 'e NodeFailure \<Rightarrow> string" where
  "render_failure env f =
     TrimRight (nc_APIHost (nf_Config f)) ''/'' @ '' node='' @ Itoa (nc_NodeID (nf_Config f)) @ '' machine='' @ Itoa (nc_MachineID (nf_Config f)) @
     '' error='' @ rx_error env (nf_Err f)"

definition render_tool :: "HysteriaPortForwardToolStatus \<Rightarrow> string list" where
  "render_tool tool =
     (tl_Tool tool @ '': '' @ renderToolState tool) #
     (if tl_StaleChain tool then [''  stale_chain: yes''] else []) @
     counted ''  missing'' ''    - '' (tl_Missing tool) @ counted ''  extra'' ''    - '' (tl_Extra tool) @
     (if tl_Error tool \<noteq> [] then [''  error: '' @ tl_Error tool] else [])"

definition renderRulesStatus :: "'e rules_env \<Rightarrow> HysteriaPortForwardStatus \<Rightarrow> 'e NodeFailure list \<Rightarrow> string list" where
  "renderRulesStatus env status failures =
     (if rx_json env then [rx_MarshalIndent env status (formatRuleNodeFailures env failures)]
      else
        [''auto_hy2_port_forward: '' @ show_bool (hs_Enabled status), ''running_as_root: '' @ show_bool (hs_RunningAsRoot status),
         ''expected_rules: '' @ Itoa (int (length (hs_ExpectedRules status)))] @
        map render_rule (hs_ExpectedRules status) @
        counted ''node_failures'' ''  - '' (map (render_failure env) failures) @
        concat (map render_tool (hs_Tools status)) @
        counted ''errors'' ''  - '' (map (rx_problem env) (hs_Errors status)))"

section \<open>Commands\<close>

type_synonym ('e, 's) command_result = "((string list \<times> 'e rules_error option) \<times> 's pf_state) option"

definition rulesStatusCommand :: "'e rules_env \<Rightarrow> 's firewall \<Rightarrow> 's pf_state \<Rightarrow> ('e, 's) command_result" where
  "rulesStatusCommand env fw st =
     (case loadRulesStatus env fw False st of
        None \<Rightarrow> None
      | Some ((Inl err, failures), st1) \<Rightarrow> Some (([], Some err), st1)
      | Some ((Inr status, failures), st1) \<Rightarrow> Some ((renderRulesStatus env status failures, None), st1))"

definition rulesRepairCommand :: "'e rules_env \<Rightarrow> 's firewall \<Rightarrow> 's pf_state \<Rightarrow> ('e, 's) command_result" where
  "rulesRepairCommand env fw st =
     (case loadRulesStatus env fw True st of
        None \<Rightarrow> None
      | Some ((Inl err, failures), st1) \<Rightarrow> Some (([], Some err), st1)
      | Some ((Inr status, failures), st1) \<Rightarrow>
          Some ((renderRulesStatus env status failures,
                 if \<not> hs_RunningAsRoot status \<and> (hs_ExpectedRules status \<noteq> [] \<or> HysteriaPortForwardNeedsRepair status)
                 then Some RepairRequiresRoot else None), st1))"

definition rulesCleanupCommand :: "'e rules_env \<Rightarrow> 's firewall \<Rightarrow> 's pf_state \<Rightarrow> ('e, 's) command_result" where
  "rulesCleanupCommand env fw st =
     (case CleanupHysteriaPortForward fw st of
        None \<Rightarrow> None
      | Some (status, st1) \<Rightarrow>
          Some ((renderRulesStatus env status [], if \<not> hs_RunningAsRoot status then Some CleanupRequiresRoot else None), st1))"

section \<open>Lemmas\<close>

text \<open>A tool is shown as needing repair exactly when the repair command would say so.\<close>

lemma needs_repair_shown:
  "HysteriaPortForwardNeedsRepair status \<longleftrightarrow> list_ex (\<lambda>tool. renderToolState tool = ''needs-repair'') (hs_Tools status)"
  by (auto simp: HysteriaPortForwardNeedsRepair_def renderToolState_def list_ex_iff split: if_splits)

text \<open>With errors tolerated, what is fetched is what the panels answer, and the rest is reported.\<close>

definition fetched_infos :: "info_source \<Rightarrow> NodeConfig list \<Rightarrow> NodeInfo list" where
  "fetched_infos src cfgs = List.map_filter (\<lambda>c. case src c of Inr (Inr (Some i)) \<Rightarrow> Some i | _ \<Rightarrow> None) cfgs"

definition fetch_failures :: "info_source \<Rightarrow> NodeConfig list \<Rightarrow> 'e NodeFailure list" where
  "fetch_failures src cfgs =
     List.map_filter (\<lambda>c. case fetch_info src c of Inl err \<Rightarrow> Some \<lparr>nf_Config = c, nf_Err = err\<rparr> | Inr _ \<Rightarrow> None) cfgs"

lemma fetch_loop_tolerant:
  "fetch_loop src True cfgs infos fs = (Inr (infos @ fetched_infos src cfgs), fs @ fetch_failures src cfgs)"
  by (induction cfgs arbitrary: infos fs)
     (simp_all add: fetched_infos_def fetch_failures_def fetch_info_def List.map_filter_simps split: sum.splits option.splits)

lemma FetchNodeInfos_tolerant: "FetchNodeInfos src True cfgs = (Inr (fetched_infos src cfgs), fetch_failures src cfgs)"
  by (simp add: FetchNodeInfos_def fetch_loop_tolerant)

lemma no_infos_fetched: "\<forall>c \<in> set cfgs. \<exists>err. src c = Inl err \<or> src c = Inr (Inl err) \<Longrightarrow> fetched_infos src cfgs = []"
  by (induction cfgs) (auto simp: fetched_infos_def List.map_filter_simps)

text \<open>Without root rights no command changes what the firewall is asked to hold; with root rights the command reports no error.\<close>

lemma cleanup_needs_root:
  "rulesCleanupCommand env fw st = Some ((out, err), st') \<Longrightarrow> err = (if fw_root fw then None else Some CleanupRequiresRoot)"
  by (auto simp: rulesCleanupCommand_def CleanupHysteriaPortForward_def newHysteriaPortForwardStatus_def Let_def split: option.splits prod.splits if_splits)

text \<open>
  A repair works from the nodes that it can fetch: with root rights, a firewall that does what it is told and errors
  tolerated, a repair while no panel answers removes every rule of the agent, also those of the nodes
  that are running, and reports no error.
\<close>

lemma repair_without_panel_clears:
  assumes "lawful_firewall fw rl ch" and "fw_root fw" and "loadRulesConfig env = Inr cfg" and "mc_ContinueOnError (cf_MachineConfig cfg)"
    and "\<forall>c \<in> set (cf_NodeConfigs cfg). \<exists>err. rx_source env c = Inl err \<or> rx_source env c = Inr (Inl err)"
  shows "\<exists>out st'. rulesRepairCommand env fw st = Some ((out, None), st') \<and> list_all (in_force fw rl ch [] (pf_fw st')) port_tools \<and>
    (\<forall>t. foreign (rl (pf_fw st') t) = foreign (rl (pf_fw st) t))"
proof -
  have b: "buildHysteriaPortForwardRules [] = ([], [])" by (simp add: buildHysteriaPortForwardRules_def)
  obtain sts s' where r: "repair_tools fw [] port_tools (pf_fw st) = Some (sts, [], s')" "list_all (in_force fw rl ch [] s') port_tools"
      "\<forall>t. foreign (rl s' t) = foreign (rl (pf_fw st) t)"
    using repair_both [OF assms(1), of "[]" "pf_fw st"] by auto
  let ?status = "(newHysteriaPortForwardStatus fw [] [])\<lparr>hs_Tools := sts\<rparr>"
  have "RepairHysteriaPortForward fw [] st = Some (?status, setHysteriaPortForwardStatus fw ?status (st\<lparr>pf_fw := s'\<rparr>))"
    using assms(2) r(1) by (simp add: RepairHysteriaPortForward_def b newHysteriaPortForwardStatus_def Let_def)
  then obtain failures where "loadRulesStatus env fw True st =
      Some ((Inr (?status\<lparr>hs_Enabled := ru_AutoHY2PortForward (cf_RuntimeConfig cfg)\<rparr>), failures), setHysteriaPortForwardStatus fw ?status (st\<lparr>pf_fw := s'\<rparr>))"
    using assms(3-5) by (simp add: loadRulesStatus_def FetchNodeInfos_tolerant no_infos_fetched)
  then show ?thesis using r assms(2)
    by (simp add: rulesRepairCommand_def newHysteriaPortForwardStatus_def setHysteriaPortForwardStatus_def)
qed

end
