(* ===== verification/Common_Crypt.thy ===== *)
theory Common_Crypt
  imports Core_Users
begin

text \<open>
  The helpers of \<open>common/crypt\<close>: AES in base64 and X25519 private keys. The block cipher, base64 and SHA-256
  are parameters; a panic is the outer \<open>None\<close>.
\<close>

type_synonym byte = "8 word"

record block_cipher =
  bc_Encrypt :: "byte list \<Rightarrow> byte list"
  bc_Decrypt :: "byte list \<Rightarrow> byte list"

record crypt_env =
  cy_cipher :: "byte list \<Rightarrow> block_cipher"
  cy_encode :: "byte list \<Rightarrow> string"
  cy_decode :: "string \<Rightarrow> go_error + byte list"
  cy_Sum256 :: "byte list \<Rightarrow> byte list"

text \<open>\<open>aes.NewCipher\<close> takes keys of 16, 24 or 32 bytes; a cipher works on one block of 16 bytes and panics on less.\<close>

definition aes_NewCipher :: "crypt_env \<Rightarrow> byte list \<Rightarrow> go_error + block_cipher" where
  "aes_NewCipher env key =
     (if length key \<in> {16, 24, 32} then Inr (cy_cipher env key) else Inl (ErrText (''crypto/aes: invalid key size '' @ Itoa (int (length key)))))"

definition block_into :: "(byte list \<Rightarrow> byte list) \<Rightarrow> nat \<Rightarrow> byte list \<Rightarrow> byte list option" where
  "block_into f len src = (if length src < 16 \<or> len < 16 then None else Some (f (take 16 src) @ replicate (len - 16) 0))"

definition AesEncrypt :: "crypt_env \<Rightarrow> byte list \<Rightarrow> byte list \<Rightarrow> (go_error + string) option" where
  "AesEncrypt env data key =
     (case aes_NewCipher env key of
        Inl e \<Rightarrow> Some (Inl e)
      | Inr a \<Rightarrow> map_option (\<lambda>en. Inr (cy_encode env en)) (block_into (bc_Encrypt a) (length data) data))"

definition AesDecrypt :: "crypt_env \<Rightarrow> string \<Rightarrow> byte list \<Rightarrow> (go_error + byte list) option" where
  "AesDecrypt env data key =
     (case cy_decode env data of
        Inl e \<Rightarrow> Some (Inl e)
      | Inr d \<Rightarrow>
          (case aes_NewCipher env key of
             Inl e \<Rightarrow> Some (Inl e)
           | Inr a \<Rightarrow> map_option Inr (block_into (bc_Decrypt a) (length data) d)))"

definition GenX25519Private :: "crypt_env \<Rightarrow> byte list \<Rightarrow> byte list" where
  "GenX25519Private env data =
     (let key = cy_Sum256 env data;
          k0 = key[0 := and (key ! 0) 248];
          k1 = k0[31 := and (k0 ! 31) 127]
      in k1[31 := or (k1 ! 31) 64])"

section \<open>Lemmas\<close>

text \<open>A cipher that decrypts its blocks, base64 that reads back what it writes, and its length.\<close>

definition lawful_crypt :: "crypt_env \<Rightarrow> bool" where
  "lawful_crypt env \<longleftrightarrow>
     (\<forall>key b. length b = 16 \<longrightarrow> length (bc_Encrypt (cy_cipher env key) b) = 16 \<and>
        bc_Decrypt (cy_cipher env key) (bc_Encrypt (cy_cipher env key) b) = b) \<and>
     (\<forall>bs. cy_decode env (cy_encode env bs) = Inr bs \<and> length (cy_encode env bs) = (length bs + 2) div 3 * 4)"

text \<open>
  Only the first block is encrypted: decrypting gives that block and as many zero bytes as the base64 text is longer,
  so that no text is ever restored.
\<close>

lemma AesDecrypt_Encrypt:
  assumes "lawful_crypt env" and "length key \<in> {16, 24, 32}" and "16 \<le> length data"
  shows "\<exists>t. AesEncrypt env data key = Some (Inr t) \<and>
    AesDecrypt env t key = Some (Inr (take 16 data @ replicate ((length data + 2) div 3 * 4 - 16) 0))"
proof -
  let ?en = "bc_Encrypt (cy_cipher env key) (take 16 data) @ replicate (length data - 16) 0"
  have c: "aes_NewCipher env key = Inr (cy_cipher env key)" using assms(2) by (simp add: aes_NewCipher_def)
  have b: "length (bc_Encrypt (cy_cipher env key) (take 16 data)) = 16"
      "bc_Decrypt (cy_cipher env key) (bc_Encrypt (cy_cipher env key) (take 16 data)) = take 16 data"
    using assms(1,3) by (simp_all add: lawful_crypt_def)
  have e: "cy_decode env (cy_encode env ?en) = Inr ?en" "length (cy_encode env ?en) = (length data + 2) div 3 * 4"
    using assms(1,3) b(1) by (simp_all add: lawful_crypt_def)
  have "AesEncrypt env data key = Some (Inr (cy_encode env ?en))"
    using assms(3) by (simp add: AesEncrypt_def c block_into_def)
  moreover have "16 \<le> (length data + 2) div 3 * 4" using assms(3) by linarith
  then have "AesDecrypt env (cy_encode env ?en) key = Some (Inr (take 16 data @ replicate ((length data + 2) div 3 * 4 - 16) 0))"
    using assms(3) b e by (simp add: AesDecrypt_def c block_into_def)
  ultimately show ?thesis by blast
qed

lemma Aes_restores_nothing:
  assumes "lawful_crypt env" and "AesEncrypt env data key = Some (Inr t)"
  shows "AesDecrypt env t key \<noteq> Some (Inr data)"
proof
  assume d: "AesDecrypt env t key = Some (Inr data)"
  have k: "length key \<in> {16, 24, 32}" using assms(2) by (auto simp: AesEncrypt_def aes_NewCipher_def split: if_splits)
  then have l: "16 \<le> length data" using assms(2) by (auto simp: AesEncrypt_def aes_NewCipher_def block_into_def split: if_splits)
  have "data = take 16 data @ replicate ((length data + 2) div 3 * 4 - 16) 0"
    using AesDecrypt_Encrypt [OF assms(1) k l] assms(2) d by simp
  then have "length data = 16 + ((length data + 2) div 3 * 4 - 16)" using l by (metis length_append length_replicate length_take min.absorb2)
  then show False using l by linarith
qed

text \<open>The clamping of the key: a multiple of eight, the top bit clear, the next one set, all else from the hash.\<close>

lemma GenX25519Private_clamped:
  assumes "length (cy_Sum256 env data) = 32"
  shows "length (GenX25519Private env data) = 32" and "and (GenX25519Private env data ! 0) 7 = 0"
    and "and (GenX25519Private env data ! 31) 192 = 64"
    and "0 < i \<Longrightarrow> i < 31 \<Longrightarrow> GenX25519Private env data ! i = cy_Sum256 env data ! i"
proof -
  have "and (and x 248) 7 = 0" for x :: byte by (simp add: and.assoc)
  moreover have "and (or (and x 127) 64) 192 = 64" for x :: byte by (simp add: and.assoc bit.conj_disj_distrib2)
  ultimately show "length (GenX25519Private env data) = 32" and "and (GenX25519Private env data ! 0) 7 = 0"
    and "and (GenX25519Private env data ! 31) 192 = 64"
    and "0 < i \<Longrightarrow> i < 31 \<Longrightarrow> GenX25519Private env data ! i = cy_Sum256 env data ! i"
    using assms by (simp_all add: GenX25519Private_def Let_def nth_list_update)
qed

end
