(* ===== verification/Spec2Isabelle.thy ===== *)
theory Spec2Isabelle
  imports Device_Limiter Core_Users User_Sync Traffic_Report Port_Firewall Task_Scheduler Controller_Life Node_Machine Realtime Panel_Client Custom_Routes Sub_Proxy_Manager Server_Nodes Node_Cert Rules_Command Common_Crypt
begin

text \<open>
  A verification library for the node agent of a proxy panel (Go, under \<open>src/\<close>). The agent runs on a
  server, fetches node and user descriptions from a panel, drives an embedded Xray core with them,
  meters and limits every connection, and reports traffic and online devices back.

  \<^bold>\<open>The program and its parts.\<close> A start-up reads the local configuration (\<open>conf/\<close>), resolves machine
  profiles into node configurations (\<open>node/machine_profiles.go\<close>), and builds one controller per node
  (\<open>node/node.go\<close>, \<open>node/machine.go\<close>, \<open>node/controller.go\<close>). A controller fetches the description of
  its node through the control plane (\<open>node/controlplane*.go\<close> over \<open>api/v2board/\<close>), adds the inbound and
  its users to the core (\<open>core/\<close>), registers a limiter (\<open>limiter/\<close>), and starts periodic tasks
  (\<open>common/task\<close>): the configuration check, the user sync, the traffic report and the certificate
  renewal. A realtime connection (\<open>node/realtime.go\<close>) triggers the same work at once. Connections pass
  the dispatcher (\<open>core/app/dispatcher\<close>), which sniffs the protocol, asks the limiter, counts bytes
  (\<open>common/counter\<close>) and registers the link so that it can be cut when the user is removed. Sidecar
  protocols run outside Xray and report through the edge daemon; port hopping is done with firewall
  rules. The server command (\<open>cmd/\<close>) owns all of this: it starts the services, the core and the nodes, reloads them
  when the configuration changes or a panel asks for it, and releases them at the end.

  \<^bold>\<open>Conventions.\<close> A Go struct is a record whose fields carry a prefix, an enumeration or an interface
  value a datatype, a pointer that may be nil an option. An operation that changes state takes the
  state last and returns it; \<open>(value, error)\<close> is a sum or a pair with an option, and a panic is the
  outer \<open>None\<close>. \<open>int\<close> and \<open>int64\<close> are \<^typ>\<open>int\<close> with \<open>wrap64\<close> where the code can overflow,
  \<open>uint64\<close> is \<^typ>\<open>64 word\<close>. A map is an association list with distinct keys; its list order is the
  iteration order, over which every theorem quantifies. What is not in the repository (Xray, the HTTP
  and JSON packages, iptables, the clock, the file system) is an argument: a function, a record of
  functions over a state of its own, or the answers it gives. Methods that hold a lock are atomic;
  where the code does not hold one across two steps, the steps are separate and the interleavings are
  explicit (\<open>Traffic_Counter\<close>, \<open>Link_Dispatch\<close>, \<open>Task_Scheduler\<close>).

  \<^bold>\<open>Theories.\<close>
  \<^item> \<open>Go_Prelude\<close>, \<open>Go_Strings\<close>, \<open>Go_Path\<close>, \<open>Go_Map\<close>: machine integers, \<open>strconv\<close>, \<open>strings\<close>, \<open>path/filepath\<close> and
    maps of Go with their laws. The locale \<open>key_value_map\<close> is the interface of a map and is interpreted
    on the association lists as \<open>gmap\<close>.
  \<^item> \<open>Panel_Types\<close>: the data of \<open>api/v2board\<close> and the node part of \<open>conf\<close>.
  \<^item> \<open>Device_Limiter\<close> (\<open>limiter/\<close>): \<open>CheckLimit\<close> and all other methods; which connections are refused, the bound on
    devices, what a refusal leaves behind, the invariant of all reachable states, and the refinement of a table
    of users.
  \<^item> \<open>Traffic_Counter\<close> (\<open>common/counter/\<close>): storages in a heap, conservation of counted bytes.
  \<^item> \<open>Sniffing\<close>, \<open>Link_Dispatch\<close> (\<open>core/app/dispatcher/\<close>): sniffing neither loses nor reorders data and returns; every
    link of a user is metered and can be cut.
  \<^item> \<open>Inbound_Config\<close> (\<open>core/inbound.go\<close>), \<open>Core_Users\<close> (\<open>core/user.go\<close>, \<open>core/node.go\<close>): inbounds, users, traffic slices with
    rollback.
  \<^item> \<open>Edge_Sidecar\<close> (\<open>node/edge_sidecar.go\<close>): specifications of the sidecar processes.
  \<^item> \<open>User_Sync\<close> (\<open>node/user_delta.go\<close>, \<open>node/user.go\<close>, \<open>node/task.go\<close>): differences of user lists and the sync. The locale
    \<open>user_store\<close> is the contract of a component that holds users, interpreted on the limiter as
    \<open>limiter_users\<close> and on the id map of the core as \<open>core_ids\<close>; the sync keeps both in step with the list.
  \<^item> \<open>Traffic_Report\<close> (\<open>node/edge_traffic.go\<close>, \<open>node/user.go\<close>): the report task; nothing is lost when the panel refuses.
  \<^item> \<open>Port_Forward\<close>, \<open>Port_Firewall\<close> (\<open>node/port_forward*.go\<close>): port lists, redirect rules without conflicts, and the
    repair of the firewall, which converges and leaves foreign rules alone.
  \<^item> \<open>Task_Scheduler\<close> (\<open>common/task/task.go\<close>): a step relation of caller, loops and executions with its invariant.
  \<^item> \<open>Local_Config\<close> (\<open>conf/\<close>): loading and normalising both file formats.
  \<^item> \<open>Controller_Life\<close> (\<open>node/controller.go\<close>, \<open>node/cert.go\<close>): start, replacement and stop of a controller.
  \<^item> \<open>Node_Machine\<close> (\<open>node/node.go\<close>, \<open>node/machine.go\<close>, \<open>node/info_fetch.go\<close>): the controllers of a process and their
    reconciliation. The locale \<open>controller_ops\<close> is what the manager relies on, interpreted on the
    controllers of \<open>Controller_Life\<close> as \<open>real\<close>.
  \<^item> \<open>Machine_Profiles\<close> (\<open>node/machine_profiles.go\<close>): nodes and settings that profiles contribute.
  \<^item> \<open>Realtime\<close> (\<open>node/realtime*.go\<close>, \<open>node/machine_realtime.go\<close>, \<open>cmd/machine_realtime.go\<close>): messages, queues, workers and
    receipts.
  \<^item> \<open>Panel_Client\<close> (\<open>api/v2board/\<close>, \<open>node/controlplane_panel_adapter.go\<close>): requests to the panel, change detection of node
    descriptions, reading of user lists, detection of optional endpoints.
  \<^item> \<open>Custom_Routes\<close> (\<open>core/custom.go\<close>, \<open>core/outbound.go\<close>, \<open>getCore\<close>): DNS, outbounds and routing rules of the Xray
    instance; the nodes do not disturb each other, and which outbounds the rules can rely on.

  \<^item> \<open>Sub_Proxy\<close> and \<open>Sub_Proxy_Manager\<close> (\<open>agent/subproxy/manager.go\<close>): normalisation of the configuration, detection of
    the public address, the handlers, the proxied request with its headers, the certificate files, the
    status, and the servers as a step relation over \<open>Apply\<close>, \<open>Close\<close> and servers that fail; what is
    proxied and served, and which servers the manager knows.

  \<^item> \<open>Go_Text\<close>: lines, fields and unsigned numbers of texts, as \<open>bufio\<close> and \<open>strconv\<close> read them.

  \<^item> \<open>Machine_System\<close> (\<open>cmd/machine_system.go\<close>): the figures of a host and the sampler; counters are read back and stay
    within bounds.

  \<^item> \<open>Agent_Upgrade\<close> (\<open>cmd/self_update.go\<close>, \<open>cmd/version.go\<close>): upgrades and the shell commands that run them; a shell, written
    as a reference reader of words, sees exactly the requested version.

  \<^item> \<open>Machine_Status\<close> (\<open>cmd/machine_status.go\<close>): the reports of machine mode and what their answers cause.

  \<^item> \<open>Agent_Runtime\<close> (\<open>cmd/runtime.go\<close>, \<open>cmd/health.go\<close>, \<open>conf/watch.go\<close>): memory limit, health pages and the file watcher, with the
    changes that it misses.

  \<^item> \<open>Edge_Client\<close> (\<open>agent/edge/client.go\<close>, \<open>cmd/edge.go\<close>): the calls to the edge daemon; its bridge fulfils the contract on which
    \<open>Traffic_Report\<close> rests.

  \<^item> \<open>Agent_Server\<close> (\<open>cmd/server.go\<close>): start-up, main loop, reload and end of the process as a step relation over events; one core
    and one set of nodes is open in every state, and all is released at the end.

  \<^item> \<open>Server_Nodes\<close>: the server with the node manager of \<open>Node_Machine\<close> in the place of its package variables; through all
    reloads the controllers that are listed are those that run.

  \<^item> \<open>Node_Cert\<close> (\<open>node/lego.go\<close>, \<open>node/cert.go\<close>): accounts, ordering and renewal of certificates, and self-signed ones; an account
    is reused, a renewal writes a pair, and which failures are never repaired.

  \<^item> \<open>Rules_Command\<close> (\<open>cmd/rules.go\<close>): the command for the rules of port hopping and its output.

  \<^item> \<open>Common_Crypt\<close> (\<open>common/crypt/\<close>): AES and X25519 helpers.

  \<^bold>\<open>Bounds and fuel.\<close> Loops over lists and texts are structural or have a measure, so they need no bound.
  The sniffing loop \<open>content_loop\<close> runs over a list of rounds (what the context and the clock say in each), and
  enough rounds are proved to give a result; \<open>CloseAll\<close> goes down on the links left, and the reader
  \<open>read_users\<close> on the tokens left. Queues have the capacities of the source
  (64 outbound messages, 32 invalidations, one reload token).

  \<^bold>\<open>Not modelled.\<close> The transport of the websocket and of HTTP, the listeners for health and profiling, log output,
  the root command (\<open>main.go\<close>, \<open>cmd/cmd.go\<close>), the generated \<open>config.pb.go\<close>, the plugin list \<open>core/distro/all\<close>, the
  logger of the HTTP client, the benchmark in \<open>tools/\<close>, connections with a rate limit that nothing uses
  (\<open>common/rate/conn.go\<close>), and code that only calls the operating system (\<open>common/systime\<close>, \<open>common/exec\<close>).
\<close>

end
